(* ===== verification/JsPrelude.thy ===== *)
theory JsPrelude
  imports Main "HOL-Library.Char_ord" "HOL-Library.List_Lexorder" "HOL-Library.Sublist"
begin

text \<open>
  What the components share: JavaScript's string and array operations on code units, the
  lemma collections of the development, and generic facts on lists and association lists.

  A JavaScript string is a sequence of 16-bit code units. Text is modelled as \<open>string\<close>
  (the code units 0 to 255, which cover every literal the modelled code compares against);
  functions whose result depends on larger code units (\<open>truncate\<close>, \<open>avatarColor\<close>) work
  on \<open>16 word list\<close> in their own theory. Operations that never look at the value of a code
  unit are polymorphic.

  A JavaScript \<open>Map\<close> or plain object whose iteration order matters is an association list
  in insertion order (\<open>al_get\<close>, \<open>al_set\<close>, \<open>al_del\<close>).
\<close>

named_theorems js_defs \<open>defining equations of the string and array operations\<close>

section \<open>Strings and arrays\<close>

text \<open>\<open>s.split(sep)\<close> for a separator of one code unit: never the empty array.\<close>

fun split_on :: "'a \<Rightarrow> 'a list \<Rightarrow> 'a list list" where
  "split_on c [] = [[]]"
| "split_on c (x # xs) =
     (if x = c then [] # split_on c xs
      else (case split_on c xs of [] \<Rightarrow> [[x]] | p # ps \<Rightarrow> (x # p) # ps))"

text \<open>\<open>parts.join(sep)\<close>.\<close>

fun join :: "'a list \<Rightarrow> 'a list list \<Rightarrow> 'a list" where
  "join sep [] = []"
| "join sep [x] = x"
| "join sep (x # y # ys) = x @ sep @ join sep (y # ys)"

text \<open>\<open>s.startsWith(p)\<close>, \<open>s.endsWith(p)\<close>, \<open>s.includes(p)\<close>, \<open>s.indexOf(c)\<close>.\<close>

fun starts_with :: "'a list \<Rightarrow> 'a list \<Rightarrow> bool" where
  "starts_with s [] = True"
| "starts_with [] (p # ps) = False"
| "starts_with (c # s) (p # ps) = (c = p \<and> starts_with s ps)"

definition ends_with :: "'a list \<Rightarrow> 'a list \<Rightarrow> bool" where
  "ends_with s p = starts_with (rev s) (rev p)"

fun str_includes :: "'a list \<Rightarrow> 'a list \<Rightarrow> bool" where
  "str_includes [] p = (p = [])"
| "str_includes (c # s) p = (starts_with (c # s) p \<or> str_includes s p)"

fun index_of :: "'a list \<Rightarrow> 'a \<Rightarrow> nat option" where
  "index_of [] c = None"
| "index_of (x # xs) c = (if x = c then Some 0 else map_option Suc (index_of xs c))"

text \<open>\<open>s.slice(i, j)\<close> with \<open>0 \<le> i \<le> j\<close> (and \<open>substring\<close>, which agrees there).\<close>

definition str_slice :: "nat \<Rightarrow> nat \<Rightarrow> 'a list \<Rightarrow> 'a list" where
  "str_slice i j s = take (j - i) (drop i s)"

text \<open>White space as \<open>trim\<close> and the regular expression class \<open>\s\<close> see it.\<close>

definition is_space :: "char \<Rightarrow> bool" where
  "is_space c = (let n = (of_char c :: int) in (9 \<le> n \<and> n \<le> 13) \<or> n = 32 \<or> n = 160)"

definition is_line_terminator :: "char \<Rightarrow> bool" where
  "is_line_terminator c = (let n = (of_char c :: int) in n = 10 \<or> n = 13)"

definition is_digit :: "char \<Rightarrow> bool" where
  "is_digit c = (let n = (of_char c :: int) in 48 \<le> n \<and> n \<le> 57)"

definition is_lower_az :: "char \<Rightarrow> bool" where
  "is_lower_az c = (let n = (of_char c :: int) in 97 \<le> n \<and> n \<le> 122)"

definition is_upper_az :: "char \<Rightarrow> bool" where
  "is_upper_az c = (let n = (of_char c :: int) in 65 \<le> n \<and> n \<le> 90)"

text \<open>The class \<open>\w\<close>.\<close>

definition is_word_char :: "char \<Rightarrow> bool" where
  "is_word_char c = (is_lower_az c \<or> is_upper_az c \<or> is_digit c \<or> c = CHR ''_'')"

definition trim :: "string \<Rightarrow> string" where
  "trim s = rev (dropWhile is_space (rev (dropWhile is_space s)))"

text \<open>\<open>s.split(/\s+/)\<close>: a leading or trailing run of white space yields an empty piece.\<close>

lemma split_ws_shrinks:
  assumes "dropWhile (\<lambda>c. \<not> P c) s \<noteq> []"
  shows "length (dropWhile P (dropWhile (\<lambda>c. \<not> P c) s)) < length s"
proof -
  let ?r = "dropWhile (\<lambda>c. \<not> P c) s"
  from assms have "P (hd ?r)"
    using hd_dropWhile [of "\<lambda>c. \<not> P c" s] by simp
  with assms obtain x xs where "?r = x # xs" and "P x"
    by (cases ?r) auto
  moreover have "length (dropWhile P xs) \<le> length xs"
    by (rule length_dropWhile_le)
  moreover have "length ?r \<le> length s"
    by (rule length_dropWhile_le)
  ultimately show ?thesis by simp
qed

function split_ws :: "string \<Rightarrow> string list" where
  "split_ws s =
     (let w = takeWhile (\<lambda>c. \<not> is_space c) s; r = dropWhile (\<lambda>c. \<not> is_space c) s
      in if r = [] then [w] else w # split_ws (dropWhile is_space r))"
  by pat_completeness auto
termination
  by (relation "measure length") (auto intro: split_ws_shrinks)

declare split_ws.simps [simp del]

text \<open>
  \<open>toLowerCase\<close> and \<open>toUpperCase\<close> on the code units 0 to 255. The upper case of
  the sharp s, the micro sign and the y with diaeresis lies outside that range (or has two
  code units), and \<open>upper_char\<close> leaves these three as they are.
\<close>

definition lower_char :: "char \<Rightarrow> char" where
  "lower_char c = (let n = (of_char c :: int) in
     if (65 \<le> n \<and> n \<le> 90) \<or> (192 \<le> n \<and> n \<le> 222 \<and> n \<noteq> 215) then char_of (n + 32) else c)"

definition upper_char :: "char \<Rightarrow> char" where
  "upper_char c = (let n = (of_char c :: int) in
     if (97 \<le> n \<and> n \<le> 122) \<or> (224 \<le> n \<and> n \<le> 254 \<and> n \<noteq> 247) then char_of (n - 32) else c)"

definition to_lower :: "string \<Rightarrow> string" where
  "to_lower s = map lower_char s"

definition to_upper :: "string \<Rightarrow> string" where
  "to_upper s = map upper_char s"

text \<open>The decimal numeral of a natural number or an integer, as string concatenation prints it.\<close>

definition digit_char :: "nat \<Rightarrow> char" where
  "digit_char d = char_of (48 + d)"

fun show_nat :: "nat \<Rightarrow> string" where
  "show_nat n = (if n < 10 then [digit_char n] else show_nat (n div 10) @ [digit_char (n mod 10)])"

declare show_nat.simps [simp del]

definition show_int :: "int \<Rightarrow> string" where
  "show_int i = (if i < 0 then CHR ''-'' # show_nat (nat (- i)) else show_nat (nat i))"

section \<open>Association lists in insertion order\<close>

fun al_get :: "('k \<times> 'v) list \<Rightarrow> 'k \<Rightarrow> 'v option" where
  "al_get [] k = None"
| "al_get ((k', v) # xs) k = (if k' = k then Some v else al_get xs k)"

text \<open>\<open>Map.set\<close>: an existing key keeps its place, a new key goes to the end.\<close>

fun al_set :: "('k \<times> 'v) list \<Rightarrow> 'k \<Rightarrow> 'v \<Rightarrow> ('k \<times> 'v) list" where
  "al_set [] k v = [(k, v)]"
| "al_set ((k', v') # xs) k v = (if k' = k then (k, v) # xs else (k', v') # al_set xs k v)"

definition al_del :: "('k \<times> 'v) list \<Rightarrow> 'k \<Rightarrow> ('k \<times> 'v) list" where
  "al_del xs k = filter (\<lambda>p. fst p \<noteq> k) xs"

definition al_has :: "('k \<times> 'v) list \<Rightarrow> 'k \<Rightarrow> bool" where
  "al_has xs k = (al_get xs k \<noteq> None)"

text \<open>
  Reading a property of an object literal: its own value, or what it inherits from
  \<open>Object.prototype\<close> (no value of the literal's type), or \<open>undefined\<close>.
\<close>

datatype 'v js_prop = Own 'v | Inherited | Absent

definition object_prototype :: "string list" where
  "object_prototype = [''constructor'', ''__defineGetter__'', ''__defineSetter__'', ''hasOwnProperty'',
     ''__lookupGetter__'', ''__lookupSetter__'', ''isPrototypeOf'', ''propertyIsEnumerable'',
     ''toString'', ''valueOf'', ''__proto__'', ''toLocaleString'']"

definition obj_get :: "(string \<times> 'v) list \<Rightarrow> string \<Rightarrow> 'v js_prop" where
  "obj_get o_lit k = (case al_get o_lit k of
       Some v \<Rightarrow> Own v
     | None \<Rightarrow> if k \<in> set object_prototype then Inherited else Absent)"

section \<open>Facts on strings and arrays\<close>

lemma split_on_not_Nil [simp]: "split_on c s \<noteq> []"
  by (induction s) (auto split: list.splits)

lemma join_split_on [simp]: "join [c] (split_on c s) = s"
proof (induction s)
  case (Cons x xs)
  obtain p ps where ps: "split_on c xs = p # ps"
    by (cases "split_on c xs") auto
  from Cons.IH ps show ?case by (cases ps) auto
qed simp

lemma split_on_no_sep: "c \<notin> set s \<Longrightarrow> split_on c s = [s]"
  by (induction s) auto

lemma split_on_append_sep:
  "c \<notin> set s \<Longrightarrow> split_on c (s @ c # t) = s # split_on c t"
  by (induction s) auto

lemma split_on_join:
  "ps \<noteq> [] \<Longrightarrow> (\<forall>p \<in> set ps. c \<notin> set p) \<Longrightarrow> split_on c (join [c] ps) = ps"
  by (induction "[c]" ps rule: join.induct) (auto simp: split_on_no_sep split_on_append_sep)

lemma split_on_parts: "p \<in> set (split_on c s) \<Longrightarrow> c \<notin> set p"
proof (induction s arbitrary: p)
  case (Cons x xs)
  obtain q qs where qs: "split_on c xs = q # qs"
    by (cases "split_on c xs") auto
  with Cons show ?case by (fastforce split: if_splits)
qed simp

lemma join_append:
  "xs \<noteq> [] \<Longrightarrow> ys \<noteq> [] \<Longrightarrow> join sep (xs @ ys) = join sep xs @ sep @ join sep ys"
  by (induction sep xs rule: join.induct) (auto simp: neq_Nil_conv)

lemma join_Cons: "join sep (x # xs) = (if xs = [] then x else x @ sep @ join sep xs)"
  by (cases xs) auto

lemma starts_with_prefix: "starts_with s p \<longleftrightarrow> prefix p s"
  by (induction s p rule: starts_with.induct) auto

lemma starts_with_take: "starts_with s p \<longleftrightarrow> take (length p) s = p"
  by (induction s p rule: starts_with.induct) auto

lemma starts_with_append [simp]: "starts_with (p @ s) p"
  by (simp add: starts_with_prefix)

lemma ends_with_suffix: "ends_with s p \<longleftrightarrow> suffix p s"
  by (simp add: ends_with_def starts_with_prefix suffix_to_prefix)

lemma includes_sublist: "str_includes s p \<longleftrightarrow> sublist p s"
proof (induction s p rule: str_includes.induct)
  case (2 c s p)
  then show ?case
    by (auto simp: starts_with_prefix sublist_Cons_right)
qed simp

lemma index_of_None [simp]: "index_of s c = None \<longleftrightarrow> c \<notin> set s"
  by (induction s) auto

lemma index_of_Some_take: "index_of s c = Some i \<Longrightarrow> i < length s \<and> s ! i = c \<and> c \<notin> set (take i s)"
  by (induction s arbitrary: i) (auto split: if_splits)

lemma str_slice_length: "j \<le> length s \<Longrightarrow> i \<le> j \<Longrightarrow> length (str_slice i j s) = j - i"
  by (simp add: str_slice_def)

section \<open>Facts on association lists\<close>

lemma al_get_map_of: "al_get xs k = map_of xs k"
  by (induction xs k rule: al_get.induct) auto

lemma al_get_set [simp]: "al_get (al_set xs k v) k' = (if k = k' then Some v else al_get xs k')"
  by (induction xs k v rule: al_set.induct) auto

lemma al_get_del [simp]: "al_get (al_del xs k) k' = (if k = k' then None else al_get xs k')"
  by (induction xs) (auto simp: al_del_def)

lemma al_set_keys: "fst ` set (al_set xs k v) = insert k (fst ` set xs)"
  by (induction xs k v rule: al_set.induct) auto

lemma al_set_distinct: "distinct (map fst xs) \<Longrightarrow> distinct (map fst (al_set xs k v))"
proof (induction xs k v rule: al_set.induct)
  case (2 k' v' xs k v)
  then show ?case using al_set_keys [of xs k v] by (auto simp flip: set_map)
qed simp

lemma al_set_length:
  "length (al_set xs k v) = (if al_has xs k then length xs else Suc (length xs))"
  by (induction xs k v rule: al_set.induct) (auto simp: al_has_def)

lemma al_has_iff: "al_has xs k \<longleftrightarrow> k \<in> fst ` set xs"
  by (auto simp: al_has_def al_get_map_of map_of_eq_None_iff)

lemma al_set_order_old: "al_has xs k \<Longrightarrow> map fst (al_set xs k v) = map fst xs"
  by (induction xs k v rule: al_set.induct) (auto simp: al_has_def)

lemma al_set_order_new: "\<not> al_has xs k \<Longrightarrow> al_set xs k v = xs @ [(k, v)]"
  by (induction xs k v rule: al_set.induct) (auto simp: al_has_def split: if_splits)

section \<open>Facts on white space\<close>

lemma split_ws_not_Nil [simp]: "split_ws s \<noteq> []"
  by (subst split_ws.simps) (simp add: Let_def)

lemma split_ws_no_space: "\<forall>c \<in> set s. \<not> is_space c \<Longrightarrow> split_ws s = [s]"
  by (subst split_ws.simps) (simp add: Let_def)

lemma split_ws_pieces: "w \<in> set (split_ws s) \<Longrightarrow> c \<in> set w \<Longrightarrow> \<not> is_space c"
proof (induction s arbitrary: w rule: split_ws.induct)
  case (1 s)
  let ?w = "takeWhile (\<lambda>c. \<not> is_space c) s" and ?r = "dropWhile (\<lambda>c. \<not> is_space c) s"
  show ?case
  proof (cases "w = ?w")
    case True
    with 1(3) show ?thesis using set_takeWhileD by fastforce
  next
    case False
    with 1(2) have "?r \<noteq> []" and "w \<in> set (split_ws (dropWhile is_space ?r))"
      by (subst (asm) split_ws.simps, simp add: Let_def split: if_splits)+
    with 1(1) [OF refl refl] 1(3) show ?thesis by blast
  qed
qed

lemma is_space_blank [simp]: "is_space CHR '' ''"
  by (simp add: is_space_def)

lemma split_ws_append_blank:
  assumes "\<forall>c \<in> set w. \<not> is_space c" and "t = [] \<or> \<not> is_space (hd t)"
  shows "split_ws (w @ CHR '' '' # t) = w # split_ws t"
proof -
  have "dropWhile is_space t = t"
    using assms(2) by (cases t) auto
  with assms(1) show ?thesis
    by (subst split_ws.simps) (simp add: Let_def)
qed

text \<open>Splitting undoes joining with a blank, when no piece is empty or contains white space.\<close>

lemma split_ws_join:
  assumes "ws \<noteq> []" and "\<forall>w \<in> set ws. w \<noteq> [] \<and> (\<forall>c \<in> set w. \<not> is_space c)"
  shows "split_ws (join '' '' ws) = ws"
  using assms
proof (induction ws)
  case (Cons w ws)
  show ?case
  proof (cases ws)
    case Nil
    with Cons.prems show ?thesis by (simp add: split_ws_no_space)
  next
    case (Cons v vs)
    then have "hd (join '' '' ws) = hd v" and "v \<noteq> []" and "\<not> is_space (hd v)"
      using \<open>\<forall>w \<in> set (_ # _). _\<close> by (cases vs; auto)+
    then have "split_ws (w @ CHR '' '' # join '' '' ws) = w # split_ws (join '' '' ws)"
      using Cons.prems(2) by (intro split_ws_append_blank) auto
    with Cons Cons.IH Cons.prems show ?thesis by (simp add: join_Cons)
  qed
qed simp

lemma trim_id:
  assumes "s = [] \<or> (\<not> is_space (hd s) \<and> \<not> is_space (last s))"
  shows "trim s = s"
proof (cases s rule: rev_cases)
  case (snoc xs x)
  from assms snoc have "dropWhile is_space s = s"
    by (simp add: dropWhile_eq_self_iff)
  with assms snoc show ?thesis by (simp add: trim_def)
qed (simp add: trim_def)

end
