(* ===== verification/JsJson.thy ===== *)
theory JsJson
  imports JsPrelude
begin

text \<open>
  JSON as \<open>JSON.stringify\<close> writes it and \<open>JSON.parse\<close> reads it: what the persisted store puts into
  \<open>localStorage\<close> and what it finds there. Text is over the code units 0 to 255; an escape of a
  larger code unit is read modulo 256, which keeps the length of the string. A numeral of at most
  15 digits without fraction and exponent is an integer, any other numeral is kept as written.
  The parser recurses on fuel; \<open>json_value_fuel\<close> shows that twice the length of the text is
  enough, so \<open>None\<close> is a \<open>SyntaxError\<close>.
\<close>

section \<open>Values\<close>

datatype json =
    JNull
  | JBool bool
  | JNum int
  | JReal string
  | JStr string
  | JArr "json list"
  | JObj "(string \<times> json) list"

section \<open>Printing\<close>

definition hex_digit :: "nat \<Rightarrow> char" where
  "hex_digit d = (if d < 10 then char_of (48 + d) else char_of (87 + d))"

definition json_escape :: "char \<Rightarrow> string" where
  "json_escape c =
     (let n = (of_char c :: nat) in
      if n = 34 then [CHR 0x5C, CHR 0x22]
      else if n = 92 then [CHR 0x5C, CHR 0x5C]
      else if n = 8 then [CHR 0x5C, CHR ''b'']
      else if n = 9 then [CHR 0x5C, CHR ''t'']
      else if n = 10 then [CHR 0x5C, CHR ''n'']
      else if n = 12 then [CHR 0x5C, CHR ''f'']
      else if n = 13 then [CHR 0x5C, CHR ''r'']
      else if n < 32 then [CHR 0x5C, CHR ''u'', CHR ''0'', CHR ''0'', hex_digit (n div 16), hex_digit (n mod 16)]
      else [c])"

definition json_quote :: "string \<Rightarrow> string" where
  "json_quote s = CHR 0x22 # concat (map json_escape s) @ [CHR 0x22]"

fun json_print :: "json \<Rightarrow> string" and json_print_elems :: "json list \<Rightarrow> string"
  and json_print_members :: "(string \<times> json) list \<Rightarrow> string"
where
  "json_print JNull = ''null''"
| "json_print (JBool b) = (if b then ''true'' else ''false'')"
| "json_print (JNum i) = show_int i"
| "json_print (JReal s) = s"
| "json_print (JStr s) = json_quote s"
| "json_print (JArr xs) = CHR ''['' # json_print_elems xs @ '']''"
| "json_print (JObj ms) = CHR ''{'' # json_print_members ms @ ''}''"
| "json_print_elems [] = []"
| "json_print_elems [x] = json_print x"
| "json_print_elems (x # y # ys) = json_print x @ CHR '','' # json_print_elems (y # ys)"
| "json_print_members [] = []"
| "json_print_members [(k, x)] = json_quote k @ CHR '':'' # json_print x"
| "json_print_members ((k, x) # m # ms) =
     json_quote k @ CHR '':'' # json_print x @ CHR '','' # json_print_members (m # ms)"

section \<open>Reading\<close>

definition json_ws :: "char \<Rightarrow> bool" where
  "json_ws c = (c = CHR '' '' \<or> c = CHR 0x09 \<or> c = CHR 0x0A \<or> c = CHR 0x0D)"

definition skip_ws :: "string \<Rightarrow> string" where
  "skip_ws s = dropWhile json_ws s"

definition hex_val :: "char \<Rightarrow> nat option" where
  "hex_val c =
     (let n = (of_char c :: nat) in
      if 48 \<le> n \<and> n \<le> 57 then Some (n - 48)
      else if 97 \<le> n \<and> n \<le> 102 then Some (n - 87)
      else if 65 \<le> n \<and> n \<le> 70 then Some (n - 55)
      else None)"

definition hex4 :: "char \<Rightarrow> char \<Rightarrow> char \<Rightarrow> char \<Rightarrow> char option" where
  "hex4 a b c d =
     (case (hex_val a, hex_val b, hex_val c, hex_val d) of
        (Some w, Some x, Some y, Some z) \<Rightarrow> Some (char_of (16 * y + z))
      | _ \<Rightarrow> None)"

definition json_unescape :: "char \<Rightarrow> char option" where
  "json_unescape e =
     (if e = CHR 0x22 \<or> e = CHR 0x5C \<or> e = CHR ''/'' then Some e
      else if e = CHR ''b'' then Some (CHR 0x08)
      else if e = CHR ''t'' then Some (CHR 0x09)
      else if e = CHR ''n'' then Some (CHR 0x0A)
      else if e = CHR ''f'' then Some (CHR 0x0C)
      else if e = CHR ''r'' then Some (CHR 0x0D)
      else None)"

definition cons_fst :: "'a \<Rightarrow> ('a list \<times> 'b) option \<Rightarrow> ('a list \<times> 'b) option" where
  "cons_fst x r = map_option (\<lambda>(xs, y). (x # xs, y)) r"

text \<open>The characters of a string after its opening quote.\<close>

fun json_chars :: "string \<Rightarrow> (string \<times> string) option" where
  "json_chars [] = None"
| "json_chars (c # r) =
     (if c = CHR 0x22 then Some ([], r)
      else if c = CHR 0x5C then
        (case r of
           [] \<Rightarrow> None
         | e # r' \<Rightarrow>
             if e = CHR ''u'' then
               (case r' of
                  x1 # x2 # x3 # x4 # r'' \<Rightarrow>
                    (case hex4 x1 x2 x3 x4 of None \<Rightarrow> None | Some x \<Rightarrow> cons_fst x (json_chars r''))
                | _ \<Rightarrow> None)
             else (case json_unescape e of None \<Rightarrow> None | Some x \<Rightarrow> cons_fst x (json_chars r')))
      else if (of_char c :: nat) < 32 then None
      else cons_fst c (json_chars r))"

definition json_int_part :: "string \<Rightarrow> (string \<times> string) option" where
  "json_int_part s =
     (case s of
        [] \<Rightarrow> None
      | c # r \<Rightarrow>
          if c = CHR ''0'' then Some ([c], r)
          else if is_digit c then Some (takeWhile is_digit s, dropWhile is_digit s)
          else None)"

definition json_frac_part :: "string \<Rightarrow> (string \<times> string) option" where
  "json_frac_part s =
     (case s of
        c # d # r \<Rightarrow>
          if c = CHR ''.'' then
            if is_digit d then Some (c # takeWhile is_digit (d # r), dropWhile is_digit (d # r)) else None
          else Some ([], s)
      | [c] \<Rightarrow> if c = CHR ''.'' then None else Some ([], s)
      | [] \<Rightarrow> Some ([], s))"

definition json_exp_part :: "string \<Rightarrow> (string \<times> string) option" where
  "json_exp_part s =
     (case s of
        c # r \<Rightarrow>
          if c = CHR ''e'' \<or> c = CHR ''E'' then
            let sg = takeWhile (\<lambda>x. x = CHR ''+'' \<or> x = CHR ''-'') (take 1 r); r' = drop (length sg) r
            in if r' \<noteq> [] \<and> is_digit (hd r')
               then Some (c # sg @ takeWhile is_digit r', dropWhile is_digit r') else None
          else Some ([], s)
      | [] \<Rightarrow> Some ([], s))"

definition digits_nat :: "string \<Rightarrow> nat" where
  "digits_nat ds = foldl (\<lambda>n c. 10 * n + (of_char c - 48)) 0 ds"

definition json_number :: "string \<Rightarrow> (json \<times> string) option" where
  "json_number s =
     (let neg = (s \<noteq> [] \<and> hd s = CHR ''-''); s1 = (if neg then tl s else s) in
      case json_int_part s1 of
        None \<Rightarrow> None
      | Some (ip, s2) \<Rightarrow>
         (case json_frac_part s2 of
            None \<Rightarrow> None
          | Some (fp, s3) \<Rightarrow>
             (case json_exp_part s3 of
                None \<Rightarrow> None
              | Some (ep, s4) \<Rightarrow>
                  if fp = [] \<and> ep = [] \<and> length ip \<le> 15
                  then Some (JNum (if neg then - int (digits_nat ip) else int (digits_nat ip)), s4)
                  else Some (JReal ((if neg then ''-'' else []) @ ip @ fp @ ep), s4))))"

definition json_keyword :: "string \<Rightarrow> (json \<times> string) option" where
  "json_keyword s =
     (if starts_with s ''null'' then Some (JNull, drop 4 s)
      else if starts_with s ''true'' then Some (JBool True, drop 4 s)
      else if starts_with s ''false'' then Some (JBool False, drop 5 s)
      else None)"

text \<open>
  \<open>json_value\<close> reads a value, \<open>json_elems\<close> the elements of an array after its bracket or a comma,
  \<open>json_members\<close> the members of an object; a key that occurs twice keeps its first place and its
  last value.
\<close>

fun json_value :: "nat \<Rightarrow> string \<Rightarrow> (json \<times> string) option"
  and json_elems :: "nat \<Rightarrow> string \<Rightarrow> json list \<Rightarrow> (json list \<times> string) option"
  and json_members :: "nat \<Rightarrow> string \<Rightarrow> (string \<times> json) list \<Rightarrow> ((string \<times> json) list \<times> string) option"
where
  "json_value 0 s = None"
| "json_value (Suc n) s =
     (case skip_ws s of
        [] \<Rightarrow> None
      | c # r \<Rightarrow>
          if c = CHR ''{'' then
            if starts_with (skip_ws r) ''}'' then Some (JObj [], tl (skip_ws r))
            else map_option (\<lambda>(ms, r'). (JObj ms, r')) (json_members n r [])
          else if c = CHR ''['' then
            if starts_with (skip_ws r) '']'' then Some (JArr [], tl (skip_ws r))
            else map_option (\<lambda>(xs, r'). (JArr xs, r')) (json_elems n r [])
          else if c = CHR 0x22 then map_option (\<lambda>(x, r'). (JStr x, r')) (json_chars r)
          else if c = CHR ''-'' \<or> is_digit c then json_number (c # r)
          else json_keyword (c # r))"
| "json_elems 0 s acc = None"
| "json_elems (Suc n) s acc =
     (case json_value n s of
        None \<Rightarrow> None
      | Some (x, r) \<Rightarrow>
          if starts_with (skip_ws r) '','' then json_elems n (tl (skip_ws r)) (acc @ [x])
          else if starts_with (skip_ws r) '']'' then Some (acc @ [x], tl (skip_ws r))
          else None)"
| "json_members 0 s acc = None"
| "json_members (Suc n) s acc =
     (if starts_with (skip_ws s) [CHR 0x22] then
        (case json_chars (tl (skip_ws s)) of
           None \<Rightarrow> None
         | Some (k, r) \<Rightarrow>
             if starts_with (skip_ws r) '':'' then
               (case json_value n (tl (skip_ws r)) of
                  None \<Rightarrow> None
                | Some (x, r') \<Rightarrow>
                    if starts_with (skip_ws r') '','' then json_members n (tl (skip_ws r')) (al_set acc k x)
                    else if starts_with (skip_ws r') ''}'' then Some (al_set acc k x, tl (skip_ws r'))
                    else None)
             else None)
      else None)"

definition json_parse :: "string \<Rightarrow> json option" where
  "json_parse s =
     (case json_value (Suc (2 * length s)) s of
        None \<Rightarrow> None
      | Some (x, r) \<Rightarrow> if skip_ws r = [] then Some x else None)"

section \<open>Numerals\<close>

lemma digit_char_facts:
  assumes "d < 10"
  shows "is_digit (digit_char d)" and "of_char (digit_char d) = (48 + d :: nat)"
proof -
  show n: "of_char (digit_char d) = (48 + d :: nat)"
    using assms by (simp add: digit_char_def)
  have "(of_char (digit_char d) :: int) = int (of_char (digit_char d))"
    by (simp only: of_nat_of_char)
  with n have "(of_char (digit_char d) :: int) = 48 + int d" by simp
  with assms show "is_digit (digit_char d)" by (simp add: is_digit_def Let_def)
qed

lemma show_nat_digits: "c \<in> set (show_nat n) \<Longrightarrow> is_digit c"
proof (induction n rule: show_nat.induct)
  case (1 n)
  from 1(2) show ?case
    using 1(1) by (subst (asm) show_nat.simps) (auto simp: digit_char_facts split: if_splits)
qed

lemma show_nat_not_Nil [simp]: "show_nat n \<noteq> []"
  by (subst show_nat.simps) simp

lemma digits_nat_snoc: "digits_nat (s @ [c]) = 10 * digits_nat s + (of_char c - 48)"
  by (simp add: digits_nat_def)

lemma digits_nat_show [simp]: "digits_nat (show_nat n) = n"
proof (induction n rule: show_nat.induct)
  case (1 n)
  show ?case
  proof (cases "n < 10")
    case True
    then have "digits_nat ([] @ [digit_char n]) = n"
      by (simp only: digits_nat_snoc) (simp add: digit_char_facts digits_nat_def)
    with True show ?thesis by (subst show_nat.simps) simp
  next
    case False
    with 1 have "digits_nat (show_nat (n div 10)) = n div 10" by simp
    with False show ?thesis
      by (subst show_nat.simps) (simp add: digits_nat_snoc digit_char_facts)
  qed
qed

lemma show_nat_hd: "0 < n \<Longrightarrow> hd (show_nat n) \<noteq> CHR ''0''"
proof (induction n rule: show_nat.induct)
  case (1 n)
  show ?case
  proof (cases "n < 10")
    case True
    have "(of_char (CHR ''0'') :: nat) = 48" by code_simp
    moreover have "of_char (digit_char n) = (48 + n :: nat)" using True by (rule digit_char_facts)
    ultimately have "digit_char n \<noteq> CHR ''0''" using 1(2) by auto
    with True show ?thesis by (subst show_nat.simps) simp
  next
    case False
    with 1 have "hd (show_nat (n div 10)) \<noteq> CHR ''0''" by simp
    with False show ?thesis by (subst show_nat.simps) simp
  qed
qed

lemma show_nat_length: "n < 10 ^ k \<Longrightarrow> 0 < k \<Longrightarrow> length (show_nat n) \<le> k"
proof (induction k arbitrary: n)
  case (Suc k)
  show ?case
  proof (cases "n < 10")
    case True
    then show ?thesis by (subst show_nat.simps) simp
  next
    case False
    then have "0 < k" using Suc.prems(1) by (cases k) auto
    moreover have "n div 10 < 10 ^ k" using Suc.prems(1) by (simp add: less_mult_imp_div_less)
    ultimately show ?thesis using Suc.IH False by (subst show_nat.simps) simp
  qed
qed simp

definition num_stop :: "string \<Rightarrow> bool" where
  "num_stop r = (r = [] \<or> (\<not> is_digit (hd r) \<and> hd r \<noteq> CHR ''.'' \<and> hd r \<noteq> CHR ''e'' \<and> hd r \<noteq> CHR ''E''))"

lemma show_nat_zero: "show_nat 0 = ''0''" by code_simp

lemma is_digit_zero: "is_digit CHR ''0''" by code_simp

lemma json_int_part_show:
  assumes "num_stop r"
  shows "json_int_part (show_nat n @ r) = Some (show_nat n, r)"
proof (cases "n = 0")
  case True
  then show ?thesis by (simp add: show_nat_zero json_int_part_def)
next
  case False
  obtain c cs where c: "show_nat n = c # cs" by (cases "show_nat n") auto
  with False have "c \<noteq> CHR ''0''" using show_nat_hd [of n] by simp
  moreover have "is_digit c" using c show_nat_digits [of c n] by simp
  moreover have "takeWhile is_digit (show_nat n @ r) = show_nat n"
    "dropWhile is_digit (show_nat n @ r) = r"
    using assms show_nat_digits by (cases r; auto simp: num_stop_def takeWhile_append dropWhile_append)+
  ultimately show ?thesis using c by (simp add: json_int_part_def)
qed

lemma json_number_show:
  assumes "num_stop r" and "\<bar>i\<bar> < 10 ^ 15"
  shows "json_number (show_int i @ r) = Some (JNum i, r)"
proof -
  have frac: "json_frac_part r = Some ([], r)"
    using assms(1) by (auto simp: json_frac_part_def num_stop_def split: list.splits)
  have ex: "json_exp_part r = Some ([], r)"
    using assms(1) by (auto simp: json_exp_part_def num_stop_def split: list.splits)
  have dig: "is_digit (hd (show_nat n))" for n
    using show_nat_digits [of "hd (show_nat n)" n] by simp
  have minus: "hd (show_nat n @ r) \<noteq> CHR ''-''" for n
  proof
    assume "hd (show_nat n @ r) = CHR ''-''"
    with dig [of n] have "is_digit CHR ''-''" by simp
    moreover have "\<not> is_digit CHR ''-''" by code_simp
    ultimately show False by simp
  qed
  have len: "length (show_nat (nat \<bar>i\<bar>)) \<le> 15"
    using assms(2) by (intro show_nat_length) auto
  show ?thesis
  proof (cases "i < 0")
    case True
    with len frac ex json_int_part_show [OF assms(1), of "nat (- i)"] show ?thesis
      by (simp add: json_number_def show_int_def Let_def)
  next
    case False
    with len frac ex minus json_int_part_show [OF assms(1), of "nat i"] show ?thesis
      by (simp add: json_number_def show_int_def Let_def)
  qed
qed

section \<open>Strings\<close>

lemma hex4_hex_digits:
  "n < 32 \<Longrightarrow> hex4 CHR ''0'' CHR ''0'' (hex_digit (n div 16)) (hex_digit (n mod 16)) = Some (char_of n)"
proof -
  have val: "d < 16 \<Longrightarrow> hex_val (hex_digit d) = Some d" for d
    by (auto simp: hex_val_def hex_digit_def Let_def)
  have "hex_val CHR ''0'' = Some 0" by (simp add: hex_val_def)
  with val show "n < 32 \<Longrightarrow> ?thesis" by (simp add: hex4_def)
qed

lemma char_code: "(of_char c :: nat) = n \<Longrightarrow> c = char_of n"
  by auto

lemma json_chars_escape: "json_chars (json_escape c @ r) = cons_fst c (json_chars r)"
proof -
  let ?n = "of_char c :: nat"
  consider "?n = 34" | "?n = 92" | "?n = 8" | "?n = 9" | "?n = 10" | "?n = 12" | "?n = 13"
    | "?n \<notin> {8, 9, 10, 12, 13}" "?n < 32" | "?n \<noteq> 34" "?n \<noteq> 92" "32 \<le> ?n"
    by fastforce
  then show ?thesis
  proof cases
    case 8
    then show ?thesis using hex4_hex_digits [of ?n] by (simp add: json_escape_def Let_def)
  next
    case 9
    have "c \<noteq> CHR 0x22" "c \<noteq> CHR 0x5C" using 9 by auto
    with 9 show ?thesis by (simp add: json_escape_def)
  qed (auto dest!: char_code simp: json_escape_def json_unescape_def char_of_def bit_Suc_0_iff)
qed

lemma json_chars_print: "json_chars (concat (map json_escape s) @ CHR 0x22 # r) = Some (s, r)"
  by (induction s) (simp_all add: json_chars_escape cons_fst_def)


section \<open>Round trip\<close>

text \<open>The values the printer and the parser agree on: integers in range, and objects with distinct keys.\<close>

fun json_ok :: "json \<Rightarrow> bool" where
  "json_ok (JNum i) = (\<bar>i\<bar> < 10 ^ 15)"
| "json_ok (JReal s) = False"
| "json_ok (JArr xs) = list_all json_ok xs"
| "json_ok (JObj ms) = (distinct (map fst ms) \<and> list_all (\<lambda>m. json_ok (snd m)) ms)"
| "json_ok _ = True"

definition value_start :: "char \<Rightarrow> bool" where
  "value_start c = (\<not> json_ws c \<and> c \<noteq> CHR '']'')"

lemma value_start_digit: "is_digit c \<Longrightarrow> value_start c \<and> c \<noteq> CHR ''{'' \<and> c \<noteq> CHR ''['' \<and> c \<noteq> CHR 0x22"
  by (auto simp: is_digit_def value_start_def json_ws_def)

lemma json_print_start:
  "json_ok j \<Longrightarrow> \<exists>c cs. json_print j = c # cs \<and> value_start c"
proof (cases j)
  case (JNum i)
  obtain c cs where c: "show_nat (nat i) = c # cs" by (cases "show_nat (nat i)") auto
  with show_nat_digits [of c "nat i"] value_start_digit have "value_start c" by simp
  with JNum c show ?thesis
    by (simp add: show_int_def) (simp add: value_start_def json_ws_def)
qed (auto simp: json_quote_def value_start_def json_ws_def)

lemma skip_ws_id: "\<not> json_ws c \<Longrightarrow> skip_ws (c # r) = c # r"
  by (simp add: skip_ws_def)

lemma json_value_number:
  assumes "num_stop r" and "\<bar>i\<bar> < 10 ^ 15" and "0 < n"
  shows "json_value n (show_int i @ r) = Some (JNum i, r)"
proof -
  from assms(3) obtain m where n: "n = Suc m" by (cases n) auto
  have "hd (show_int i) = CHR ''-'' \<or> is_digit (hd (show_int i))" and "show_int i \<noteq> []"
    using show_nat_digits [of "hd (show_nat (nat i))" "nat i"] by (simp_all add: show_int_def)
  then obtain c cs where c: "show_int i = c # cs" and start: "c = CHR ''-'' \<or> is_digit c"
    by (cases "show_int i") auto
  then have "value_start c \<and> c \<noteq> CHR ''{'' \<and> c \<noteq> CHR ''['' \<and> c \<noteq> CHR 0x22"
    using value_start_digit by (auto simp: value_start_def json_ws_def)
  with c n start json_number_show [OF assms(1,2)] show ?thesis
    by (auto simp: skip_ws_id value_start_def)
qed

lemma json_value_keyword:
  assumes "0 < n"
  shows "json_value n (''null'' @ r) = Some (JNull, r)"
    and "json_value n (''true'' @ r) = Some (JBool True, r)"
    and "json_value n (''false'' @ r) = Some (JBool False, r)"
    and "json_value n (json_quote s @ r) = Some (JStr s, r)"
  using assms
  by (cases n; simp add: skip_ws_id json_ws_def json_keyword_def is_digit_def json_quote_def
      json_chars_print)+

lemma json_value_print:
  "json_ok j \<Longrightarrow> num_stop rest \<Longrightarrow> 2 * length (json_print j) < n
    \<Longrightarrow> json_value n (json_print j @ rest) = Some (j, rest)"
  and json_elems_print:
  "list_all json_ok xs \<Longrightarrow> xs \<noteq> [] \<Longrightarrow> 2 * length (json_print_elems xs) + 1 < n
    \<Longrightarrow> json_elems n (json_print_elems xs @ CHR '']'' # rest) acc = Some (acc @ xs, rest)"
  and json_members_print:
  "list_all (\<lambda>m. json_ok (snd m)) ms \<Longrightarrow> ms \<noteq> [] \<Longrightarrow> distinct (map fst (macc @ ms))
    \<Longrightarrow> 2 * length (json_print_members ms) + 1 < n
    \<Longrightarrow> json_members n (json_print_members ms @ CHR ''}'' # rest) macc = Some (macc @ ms, rest)"
proof (induction j and xs and ms arbitrary: n rest and n rest acc and n rest macc
    rule: json_print_json_print_elems_json_print_members.induct)
  case (6 xs)
  then obtain m where n: "n = Suc m" by (cases n) auto
  show ?case
  proof (cases xs)
    case Nil
    with n show ?thesis by (simp add: skip_ws_id json_ws_def)
  next
    case (Cons x ys)
    with 6 obtain c cs where c: "json_print x = c # cs" "value_start c"
      using json_print_start [of x] by auto
    then have "\<exists>cs'. json_print_elems xs = c # cs'" using Cons by (cases ys) auto
    with c 6 n Cons show ?thesis
      by (auto simp: skip_ws_id json_ws_def value_start_def)
  qed
next
  case (7 ms)
  then obtain m where n: "n = Suc m" by (cases n) auto
  show ?case
  proof (cases ms)
    case Nil
    with n show ?thesis by (simp add: skip_ws_id json_ws_def)
  next
    case (Cons x ys)
    then have "\<exists>cs'. json_print_members ms = CHR 0x22 # cs'"
      by (cases x; cases ys) (auto simp: json_quote_def)
    with 7 n Cons show ?thesis
      by (auto simp: skip_ws_id json_ws_def)
  qed
next
  case (9 x)
  then obtain m where n: "n = Suc m" by (cases n) auto
  have "num_stop (CHR '']'' # rest)" by (simp add: num_stop_def is_digit_def)
  with 9 n show ?case by (simp add: skip_ws_id json_ws_def)
next
  case (10 x y ys)
  then obtain m where n: "n = Suc m" by (cases n) auto
  have "num_stop (CHR '','' # r)" for r by (simp add: num_stop_def is_digit_def)
  with 10 n show ?case by (simp add: skip_ws_id json_ws_def)
next
  case (12 k x)
  then obtain m where n: "n = Suc m" by (cases n) auto
  have "num_stop (CHR ''}'' # rest)" by (simp add: num_stop_def is_digit_def)
  with 12 n show ?case
    by (simp add: skip_ws_id json_ws_def json_quote_def json_chars_print al_set_order_new al_has_iff)
next
  case (13 k x m ms)
  then obtain m' where n: "n = Suc m'" by (cases n) auto
  have stop: "num_stop (CHR '','' # r)" for r by (simp add: num_stop_def is_digit_def)
  have k: "k \<notin> fst ` set macc" using 13(5) by auto
  have rest: "json_members m' (json_print_members (m # ms) @ CHR ''}'' # rest) (macc @ [(k, x)])
      = Some ((macc @ [(k, x)]) @ m # ms, rest)"
    using 13(3,5,6) n by (intro 13(2)) (auto simp: json_quote_def)
  with stop 13 n k show ?case
    by (simp add: skip_ws_id json_ws_def json_quote_def json_chars_print al_set_order_new al_has_iff)
qed (use json_value_keyword json_value_number in \<open>auto simp del: json_value.simps\<close>)

lemma json_parse_print: "json_ok j \<Longrightarrow> json_parse (json_print j) = Some j"
  using json_value_print [of j "[]" "Suc (2 * length (json_print j))"]
  by (simp add: json_parse_def num_stop_def skip_ws_def)

section \<open>The fuel is enough\<close>

lemma skip_ws_length: "length (skip_ws s) \<le> length s"
  by (simp add: skip_ws_def length_dropWhile_le)

lemma skip_ws_tl: "skip_ws s = c # r \<Longrightarrow> length r < length s"
  using skip_ws_length [of s] by simp

lemma starts_skip: "starts_with (skip_ws s) [c] \<Longrightarrow> length (tl (skip_ws s)) < length s"
  using skip_ws_length [of s] by (cases "skip_ws s") auto

lemma json_chars_length: "json_chars s = Some (x, r) \<Longrightarrow> length r < length s"
proof (induction s arbitrary: x r rule: json_chars.induct)
  case (2 c s)
  then show ?case
    by (fastforce simp: cons_fst_def split: if_splits list.splits option.splits)
qed simp

lemma json_part_lengths:
  "json_int_part s = Some (x, r) \<Longrightarrow> length r < length s"
  "json_frac_part s = Some (x, r) \<Longrightarrow> length r \<le> length s"
  "json_exp_part s = Some (x, r) \<Longrightarrow> length r \<le> length s"
proof -
  show "json_int_part s = Some (x, r) \<Longrightarrow> length r < length s"
    by (auto simp: json_int_part_def less_Suc_eq_le length_dropWhile_le split: list.splits if_splits)
  show "json_frac_part s = Some (x, r) \<Longrightarrow> length r \<le> length s"
    by (auto simp: json_frac_part_def le_SucI length_dropWhile_le split: list.splits if_splits)
  show "json_exp_part s = Some (x, r) \<Longrightarrow> length r \<le> length s"
    by (cases s) (auto simp: json_exp_part_def Let_def intro: le_SucI order_trans [OF length_dropWhile_le]
        split: if_splits)
qed

lemma json_number_length: "json_number s = Some (x, r) \<Longrightarrow> length r < length s"
proof -
  assume "json_number s = Some (x, r)"
  then obtain s1 ip s2 fp s3 ep where "s1 = (if s \<noteq> [] \<and> hd s = CHR ''-'' then tl s else s)"
    "json_int_part s1 = Some (ip, s2)" "json_frac_part s2 = Some (fp, s3)" "json_exp_part s3 = Some (ep, r)"
    by (auto simp: json_number_def Let_def split: option.splits if_splits)
  then show ?thesis
    using json_part_lengths(1) [of s1 ip s2] json_part_lengths(2) [of s2 fp s3]
      json_part_lengths(3) [of s3 ep r] by (cases s) (auto split: if_splits)
qed

lemma json_keyword_length: "json_keyword s = Some (x, r) \<Longrightarrow> length r < length s"
  by (auto simp: json_keyword_def starts_with_prefix prefix_def split: if_splits)

lemma json_value_length:
  "json_value n s = Some (x, r) \<Longrightarrow> length r < length s"
  and json_elems_length: "json_elems n s acc = Some (xs, r) \<Longrightarrow> length r < length s"
  and json_members_length: "json_members n s macc = Some (ms, r) \<Longrightarrow> length r < length s"
proof (induction n s and n s acc and n s macc arbitrary: x r and xs r and ms r
    rule: json_value_json_elems_json_members.induct)
  case (2 n s)
  then obtain c t where c: "skip_ws s = c # t" by (auto split: list.splits)
  from skip_ws_tl [OF c] have t: "length t < length s" .
  with 2 c show ?case
    by (auto split: if_splits option.splits dest!: starts_skip json_chars_length json_number_length
        json_keyword_length intro: less_trans)
next
  case (4 n s acc)
  then show ?case
    by (fastforce split: if_splits option.splits dest: starts_skip intro: less_trans)
next
  case (6 n s acc)
  then show ?case
    by (fastforce split: if_splits option.splits dest: starts_skip json_chars_length intro: less_trans)
qed auto


lemma json_fuel_step:
  "(2 * length s < n \<longrightarrow> json_value (Suc n) s = json_value n s)
    \<and> (2 * length s + 1 < n \<longrightarrow> json_elems (Suc n) s acc = json_elems n s acc)
    \<and> (2 * length s + 1 < n \<longrightarrow> json_members (Suc n) s macc = json_members n s macc)"
proof (induction n arbitrary: s acc macc)
  case (Suc n)
  have val: "2 * length s < Suc n \<Longrightarrow> json_value (Suc (Suc n)) s = json_value (Suc n) s"
  proof -
    assume len: "2 * length s < Suc n"
    show ?thesis
    proof (cases "skip_ws s")
      case (Cons c r)
      from skip_ws_tl [OF Cons] len have "2 * length r + 1 < n" by linarith
      with Suc.IH [of r] have "json_elems (Suc n) r [] = json_elems n r []"
        "json_members (Suc n) r [] = json_members n r []" by blast+
      then show ?thesis
        unfolding json_value.simps(2) [of "Suc n" s] json_value.simps(2) [of n s] by (simp add: Cons)
    qed simp
  qed
  moreover have "2 * length s + 1 < Suc n \<Longrightarrow> json_elems (Suc (Suc n)) s acc = json_elems (Suc n) s acc"
  proof -
    assume len: "2 * length s + 1 < Suc n"
    then have v: "json_value (Suc n) s = json_value n s" using Suc.IH [of s] by simp
    show ?thesis
    proof (cases "json_value n s")
      case (Some p)
      obtain x r where p: "p = (x, r)" by force
      with Some have r: "length r < length s" using json_value_length by blast
      then have "2 * length (tl (skip_ws r)) + 1 < n" using len skip_ws_length [of r] by simp
      with Suc.IH [of "tl (skip_ws r)"]
      have e: "json_elems (Suc n) (tl (skip_ws r)) a = json_elems n (tl (skip_ws r)) a" for a by blast
      show ?thesis
        unfolding json_elems.simps(2) [of "Suc n" s acc] json_elems.simps(2) [of n s acc] v
        by (simp add: Some p e del: json_elems.simps)
    qed (simp add: json_elems.simps(2) [of "Suc n" s acc] json_elems.simps(2) [of n s acc] v del: json_elems.simps json_value.simps)
  qed
  moreover have "2 * length s + 1 < Suc n \<Longrightarrow> json_members (Suc (Suc n)) s macc = json_members (Suc n) s macc"
  proof -
    assume len: "2 * length s + 1 < Suc n"
    have v: "json_value (Suc n) t = json_value n t" if "length t < length s" for t
      using Suc.IH [of t] that len by simp
    have m: "json_members (Suc n) t a = json_members n t a" if "length t < length s" for t a
      using Suc.IH [of t] that len by simp
    show ?thesis
    proof (cases "starts_with (skip_ws s) [CHR 0x22]")
      case True
      note open_q = starts_skip [OF True]
      show ?thesis
      proof (cases "json_chars (tl (skip_ws s))")
        case (Some p)
        obtain k r where p: "p = (k, r)" by force
        with Some have r: "length r < length s" using json_chars_length open_q by fastforce
        then have c: "length (tl (skip_ws r)) < length s" using skip_ws_length [of r] by simp
        show ?thesis
        proof (cases "json_value n (tl (skip_ws r))")
          case None
          then show ?thesis
            unfolding json_members.simps(2) [of "Suc n" s macc] json_members.simps(2) [of n s macc]
            using Some p v [OF c] by simp
        next
          case (Some q)
          obtain x r' where q: "q = (x, r')" by force
          with Some have "length r' < length s" using json_value_length c by fastforce
          then have "length (tl (skip_ws r')) < length s" using skip_ws_length [of r'] by simp
          with Some q m v [OF c] \<open>json_chars _ = _\<close> p show ?thesis
            unfolding json_members.simps(2) [of "Suc n" s macc] json_members.simps(2) [of n s macc] by (simp del: json_members.simps)
        qed
      qed (simp add: json_members.simps(2) [of "Suc n" s macc] json_members.simps(2) [of n s macc] del: json_members.simps json_value.simps)
    qed (simp add: json_members.simps(2) [of "Suc n" s macc] json_members.simps(2) [of n s macc] del: json_members.simps json_value.simps)
  qed
  ultimately show ?case by blast
qed simp

lemma json_value_fuel: "2 * length s < n \<Longrightarrow> json_value n s = json_value (Suc (2 * length s)) s"
proof (induction n)
  case (Suc n)
  then show ?case using json_fuel_step [of s n] by (cases "n = 2 * length s") (auto simp del: json_value.simps)
qed simp

end
