(* ===== verification/Zustand.thy ===== *)
theory Zustand
  imports JsJson
begin

text \<open>
  The state container: the vanilla store of zustand (\<open>ui/.vite/deps/zustand.js\<close>) under its persist
  middleware (\<open>ui/.vite/deps/zustand_middleware.js\<close>: \<open>createJSONStorage\<close>, \<open>toThenable\<close>,
  \<open>newImpl\<close>), over a \<open>localStorage\<close> that can be full. A state is a JavaScript object whose values
  are data, functions (named) or \<open>undefined\<close>. Listeners are names; calling them is recorded in
  \<open>calls\<close>, so the order of notifications is part of the model. Every step that can throw returns
  an \<open>outcome\<close> next to the new store.
\<close>

section \<open>Objects\<close>

datatype js_value = Data json | Func string | Undef

type_synonym js_object = "(string \<times> js_value) list"

datatype js_error = SyntaxError | QuotaExceededError | TypeError

datatype 'a outcome = Returned 'a | Thrown js_error

text \<open>\<open>Object.assign({}, base, patch)\<close> and the spread \<open>{...base, ...patch}\<close>.\<close>

definition js_assign :: "js_object \<Rightarrow> js_object \<Rightarrow> js_object" where
  "js_assign base patch = foldl (\<lambda>ob (k, v). al_set ob k v) base patch"

definition js_read :: "js_object \<Rightarrow> string \<Rightarrow> js_value" where
  "js_read ob k = (case al_get ob k of None \<Rightarrow> Undef | Some v \<Rightarrow> v)"

definition real_is_zero :: "string \<Rightarrow> bool" where
  "real_is_zero s = list_all (\<lambda>c. \<not> is_digit c \<or> c = CHR ''0'')
     (takeWhile (\<lambda>c. c \<noteq> CHR ''e'' \<and> c \<noteq> CHR ''E'') s)"

definition json_truthy :: "json \<Rightarrow> bool" where
  "json_truthy j = (case j of
       JNull \<Rightarrow> False | JBool b \<Rightarrow> b | JNum i \<Rightarrow> i \<noteq> 0 | JReal s \<Rightarrow> \<not> real_is_zero s
     | JStr s \<Rightarrow> s \<noteq> [] | JArr _ \<Rightarrow> True | JObj _ \<Rightarrow> True)"

definition js_truthy :: "js_value \<Rightarrow> bool" where
  "js_truthy v = (case v of Data j \<Rightarrow> json_truthy j | Func _ \<Rightarrow> True | Undef \<Rightarrow> False)"

text \<open>Reading a property that no prototype has from a parsed value that is not \<open>null\<close>.\<close>

definition json_prop :: "json \<Rightarrow> string \<Rightarrow> json option" where
  "json_prop j k = (case j of JObj ms \<Rightarrow> al_get ms k | _ \<Rightarrow> None)"

text \<open>What the spread of a parsed value contributes: a string or an array is spread by index.\<close>

definition json_spread :: "json option \<Rightarrow> js_object" where
  "json_spread v = (case v of
       Some (JObj ms) \<Rightarrow> map (\<lambda>(k, j). (k, Data j)) ms
     | Some (JArr xs) \<Rightarrow> map (\<lambda>(i, j). (show_nat i, Data j)) (List.enumerate 0 xs)
     | Some (JStr s) \<Rightarrow> map (\<lambda>(i, c). (show_nat i, Data (JStr [c]))) (List.enumerate 0 s)
     | _ \<Rightarrow> [])"

text \<open>\<open>JSON.stringify\<close> leaves functions and \<open>undefined\<close> out of an object.\<close>

definition json_of_object :: "js_object \<Rightarrow> json" where
  "json_of_object ob =
     JObj (List.map_filter (\<lambda>(k, v). case v of Data j \<Rightarrow> Some (k, j) | _ \<Rightarrow> None) ob)"

section \<open>localStorage\<close>

text \<open>The browser's storage of an origin: string items, and a bound on the total size.\<close>

record local_storage =
  ls_items :: "(string \<times> string) list"
  ls_quota :: nat

definition ls_size :: "(string \<times> string) list \<Rightarrow> nat" where
  "ls_size its = sum_list (map (\<lambda>(k, v). length k + length v) its)"

definition ls_getItem :: "string \<Rightarrow> local_storage \<Rightarrow> string option" where
  "ls_getItem k d = al_get (ls_items d) k"

definition ls_setItem :: "string \<Rightarrow> string \<Rightarrow> local_storage \<Rightarrow> unit outcome \<times> local_storage" where
  "ls_setItem k v d =
     (let its = al_set (ls_items d) k v in
      if ls_size its \<le> ls_quota d then (Returned (), d\<lparr>ls_items := its\<rparr>)
      else (Thrown QuotaExceededError, d))"

definition ls_removeItem :: "string \<Rightarrow> local_storage \<Rightarrow> local_storage" where
  "ls_removeItem k d = d\<lparr>ls_items := al_del (ls_items d) k\<rparr>"

section \<open>createJSONStorage\<close>

definition json_getItem :: "string \<Rightarrow> local_storage \<Rightarrow> json option outcome" where
  "json_getItem name d =
     (case ls_getItem name d of
        None \<Rightarrow> Returned None
      | Some str \<Rightarrow> (case json_parse str of None \<Rightarrow> Thrown SyntaxError | Some j \<Rightarrow> Returned (Some j)))"

definition json_setItem :: "string \<Rightarrow> json \<Rightarrow> local_storage \<Rightarrow> unit outcome \<times> local_storage" where
  "json_setItem name j d = ls_setItem name (json_print j) d"

section \<open>toThenable\<close>

text \<open>A synchronous promise, and a step that runs in the store and may throw.\<close>

datatype 'a thenable = Fulfilled 'a | Rejected js_error

definition toThenable :: "('x \<Rightarrow> 's \<Rightarrow> 'a outcome \<times> 's) \<Rightarrow> 'x \<Rightarrow> 's \<Rightarrow> 'a thenable \<times> 's" where
  "toThenable f x s =
     (case f x s of
        (Returned a, s') \<Rightarrow> (Fulfilled a, s')
      | (Thrown e, s') \<Rightarrow> (Rejected e, s'))"

definition then_do :: "('a \<Rightarrow> 's \<Rightarrow> 'b outcome \<times> 's) \<Rightarrow> 'a thenable \<times> 's \<Rightarrow> 'b thenable \<times> 's" where
  "then_do f t = (case t of
       (Fulfilled a, s) \<Rightarrow> toThenable f a s
     | (Rejected e, s) \<Rightarrow> (Rejected e, s))"

definition catch_do :: "(js_error \<Rightarrow> 's \<Rightarrow> 'a outcome \<times> 's) \<Rightarrow> 'a thenable \<times> 's \<Rightarrow> 'a thenable \<times> 's" where
  "catch_do f t = (case t of
       (Fulfilled a, s) \<Rightarrow> (Fulfilled a, s)
     | (Rejected e, s) \<Rightarrow> toThenable f e s)"

section \<open>The vanilla store\<close>

datatype store_call =
    Notify nat js_object "js_object option"
  | OnHydrate nat js_object
  | OnFinish nat js_object
  | ConsoleError
  | ConsoleWarn

text \<open>
  \<open>state\<close> is \<open>undefined\<close> while the store is being created. The fields below \<open>listeners\<close> belong to
  the middleware: \<open>persist_api\<close> says that \<open>api.persist\<close> exists.
\<close>

record store =
  state :: "js_object option"
  listeners :: "nat list"
  persist_api :: bool
  has_hydrated :: bool
  hydration_listeners :: "nat list"
  finish_listeners :: "nat list"
  from_storage :: "js_object option"
  disk :: local_storage
  calls :: "store_call list"

text \<open>
  The first argument of \<open>setState\<close>: an object, or a function of the state; \<open>None\<close> is a
  function that returns the very object it was given.
\<close>

datatype partial = Fresh js_object | Updater "js_object option \<Rightarrow> js_object option"

definition next_state :: "partial \<Rightarrow> js_object option \<Rightarrow> js_object option" where
  "next_state p s = (case p of Fresh ob \<Rightarrow> Some ob | Updater f \<Rightarrow> f s)"

definition setState :: "partial \<Rightarrow> bool option \<Rightarrow> store \<Rightarrow> store" where
  "setState p replace s =
     (case next_state p (state s) of
        None \<Rightarrow> s
      | Some nx \<Rightarrow>
          let new = (if replace = Some True then nx
                     else js_assign (case state s of None \<Rightarrow> [] | Some ob \<Rightarrow> ob) nx)
          in s\<lparr>state := Some new,
               calls := calls s @ map (\<lambda>l. Notify l new (state s)) (listeners s)\<rparr>)"

text \<open>\<open>listeners\<close> is a \<open>Set\<close>: adding a listener twice has no effect.\<close>

definition set_add :: "'a \<Rightarrow> 'a list \<Rightarrow> 'a list" where
  "set_add x xs = (if x \<in> set xs then xs else xs @ [x])"

definition subscribe :: "nat \<Rightarrow> store \<Rightarrow> store" where
  "subscribe l s = s\<lparr>listeners := set_add l (listeners s)\<rparr>"

definition unsubscribe :: "nat \<Rightarrow> store \<Rightarrow> store" where
  "unsubscribe l s = s\<lparr>listeners := filter (\<lambda>x. x \<noteq> l) (listeners s)\<rparr>"

definition destroy :: "store \<Rightarrow> store" where
  "destroy s = s\<lparr>listeners := [], calls := calls s @ [ConsoleWarn]\<rparr>"

section \<open>The persist middleware\<close>

record persist_options =
  opt_name :: string
  opt_version :: int
  opt_partialize :: "js_object \<Rightarrow> js_object"
  opt_migrate :: "(json option \<Rightarrow> json \<Rightarrow> json option outcome) option"
  opt_skipHydration :: bool

definition setItem :: "persist_options \<Rightarrow> store \<Rightarrow> unit outcome \<times> store" where
  "setItem opt s =
     (let ob = opt_partialize opt (case state s of None \<Rightarrow> [] | Some x \<Rightarrow> x);
          (r, d) = json_setItem (opt_name opt)
            (JObj [(''state'', json_of_object ob), (''version'', JNum (opt_version opt))]) (disk s)
      in (r, s\<lparr>disk := d\<rparr>))"

text \<open>The \<open>set\<close> the configuration gets, which is also what \<open>api.setState\<close> becomes.\<close>

definition persist_set :: "persist_options \<Rightarrow> partial \<Rightarrow> bool option \<Rightarrow> store \<Rightarrow> unit outcome \<times> store" where
  "persist_set opt p replace s = setItem opt (setState p replace s)"

definition get_or :: "js_object \<Rightarrow> store \<Rightarrow> js_object" where
  "get_or configResult s = (case state s of None \<Rightarrow> configResult | Some ob \<Rightarrow> ob)"

text \<open>A stored numeral with fraction or exponent is compared with version 0 only.\<close>

definition same_version :: "int \<Rightarrow> json \<Rightarrow> bool" where
  "same_version v j = (case j of JNum i \<Rightarrow> i = v | JReal s \<Rightarrow> v = 0 \<and> real_is_zero s | _ \<Rightarrow> True)"

definition hydrate_check ::
    "persist_options \<Rightarrow> json option \<Rightarrow> store \<Rightarrow> (bool \<times> json option) outcome \<times> store" where
  "hydrate_check opt stored s =
     (case stored of
        None \<Rightarrow> (Returned (False, None), s)
      | Some j \<Rightarrow>
         if \<not> json_truthy j then (Returned (False, None), s)
         else case json_prop j ''version'' of
             Some v \<Rightarrow>
               if same_version (opt_version opt) v then (Returned (False, json_prop j ''state''), s)
               else (case opt_migrate opt of
                   Some m \<Rightarrow>
                     (case m (json_prop j ''state'') v of
                        Returned x \<Rightarrow> (Returned (True, x), s)
                      | Thrown e \<Rightarrow> (Thrown e, s))
                 | None \<Rightarrow> (Returned (False, None), s\<lparr>calls := calls s @ [ConsoleError]\<rparr>))
           | None \<Rightarrow> (Returned (False, json_prop j ''state''), s))"

definition hydrate_merge ::
    "persist_options \<Rightarrow> js_object \<Rightarrow> bool \<times> json option \<Rightarrow> store \<Rightarrow> unit outcome \<times> store" where
  "hydrate_merge opt configResult m s =
     (let ob = js_assign (get_or configResult s) (json_spread (snd m));
          s' = setState (Fresh ob) (Some True) (s\<lparr>from_storage := Some ob\<rparr>)
      in if fst m then setItem opt s' else (Returned (), s'))"

definition hydrate_finish :: "unit \<Rightarrow> store \<Rightarrow> unit outcome \<times> store" where
  "hydrate_finish _ s =
     (Returned (),
      s\<lparr>from_storage := state s, has_hydrated := True,
        calls := calls s @ map (\<lambda>l. OnFinish l (the (state s))) (finish_listeners s)\<rparr>)"

definition hydrate :: "persist_options \<Rightarrow> js_object \<Rightarrow> store \<Rightarrow> store" where
  "hydrate opt configResult s =
     (let s1 = s\<lparr>has_hydrated := False,
                 calls := calls s @ map (\<lambda>l. OnHydrate l (get_or configResult s)) (hydration_listeners s)\<rparr>
      in snd (catch_do (\<lambda>e s. (Returned (), s))
           (then_do hydrate_finish
             (then_do (hydrate_merge opt configResult)
               (then_do (hydrate_check opt)
                 (toThenable (\<lambda>name s. (json_getItem name (disk s), s)) (opt_name opt) s1))))))"

text \<open>
  Creating a store: \<open>available\<close> says whether \<open>getStorage\<close> returned. Without a storage the
  configuration gets a \<open>set\<close> that warns and writes nothing, and \<open>api.persist\<close> is missing.
\<close>

definition blank_store :: "local_storage \<Rightarrow> store" where
  "blank_store d = \<lparr>state = None, listeners = [], persist_api = False, has_hydrated = False,
     hydration_listeners = [], finish_listeners = [], from_storage = None, disk = d, calls = []\<rparr>"

definition createStore :: "persist_options \<Rightarrow> js_object \<Rightarrow> bool \<Rightarrow> local_storage \<Rightarrow> store" where
  "createStore opt configResult available d =
     (if \<not> available then (blank_store d)\<lparr>state := Some configResult\<rparr>
      else let s = (blank_store d)\<lparr>persist_api := True\<rparr>;
               s' = (if opt_skipHydration opt then s else hydrate opt configResult s)
           in s'\<lparr>state := Some (case from_storage s' of None \<Rightarrow> configResult | Some ob \<Rightarrow> ob)\<rparr>)"

text \<open>The \<open>set\<close> of the configuration, in either case.\<close>

definition config_set :: "persist_options \<Rightarrow> partial \<Rightarrow> store \<Rightarrow> unit outcome \<times> store" where
  "config_set opt p s =
     (if persist_api s then persist_set opt p None s
      else (Returned (), setState p None (s\<lparr>calls := calls s @ [ConsoleWarn]\<rparr>)))"

definition clearStorage :: "persist_options \<Rightarrow> store \<Rightarrow> store" where
  "clearStorage opt s = s\<lparr>disk := ls_removeItem (opt_name opt) (disk s)\<rparr>"

definition onHydrate :: "nat \<Rightarrow> store \<Rightarrow> store" where
  "onHydrate l s = s\<lparr>hydration_listeners := set_add l (hydration_listeners s)\<rparr>"

definition onFinishHydration :: "nat \<Rightarrow> store \<Rightarrow> store" where
  "onFinishHydration l s = s\<lparr>finish_listeners := set_add l (finish_listeners s)\<rparr>"

definition offHydrate :: "nat \<Rightarrow> store \<Rightarrow> store" where
  "offHydrate l s = s\<lparr>hydration_listeners := filter (\<lambda>x. x \<noteq> l) (hydration_listeners s)\<rparr>"

definition offFinishHydration :: "nat \<Rightarrow> store \<Rightarrow> store" where
  "offFinishHydration l s = s\<lparr>finish_listeners := filter (\<lambda>x. x \<noteq> l) (finish_listeners s)\<rparr>"

section \<open>The contract of a storage\<close>

text \<open>
  What the middleware relies on: an item just written is read back and no other item changes, a
  write that throws changes nothing, and a removed item is gone.
\<close>

locale web_storage =
  fixes get :: "'k \<Rightarrow> 'd \<Rightarrow> 'v option"
    and put :: "'k \<Rightarrow> 'v \<Rightarrow> 'd \<Rightarrow> unit outcome \<times> 'd"
    and remove :: "'k \<Rightarrow> 'd \<Rightarrow> 'd"
  assumes get_put: "put k v d = (Returned (), d') \<Longrightarrow> get k' d' = (if k = k' then Some v else get k' d)"
    and put_throws: "put k v d = (Thrown e, d') \<Longrightarrow> d' = d"
    and get_remove: "get k' (remove k d) = (if k = k' then None else get k' d)"
begin

lemma put_other: "put k v d = (r, d') \<Longrightarrow> k \<noteq> k' \<Longrightarrow> get k' d' = get k' d"
proof (cases r)
  case (Thrown e)
  then show "put k v d = (r, d') \<Longrightarrow> k \<noteq> k' \<Longrightarrow> ?thesis" using put_throws by metis
qed (use get_put in auto)

lemma put_cases:
  assumes "put k v d = (r, d')"
  obtains "r = Returned ()" "get k d' = Some v" | e where "r = Thrown e" "d' = d"
  using assms get_put [of k v d d' k] put_throws [of k v d _ d'] by (cases r) auto

end

interpretation ls: web_storage ls_getItem ls_setItem ls_removeItem
  by unfold_locales
    (auto simp: ls_getItem_def ls_setItem_def ls_removeItem_def Let_def split: if_splits)

text \<open>
  A storage of texts with a codec: values the codec is faithful on are read back as they were
  written.
\<close>

locale coded_storage = web_storage get put remove
  for get :: "'k \<Rightarrow> 'd \<Rightarrow> 'v option" and put and remove +
  fixes encode :: "'j \<Rightarrow> 'v" and decode :: "'v \<Rightarrow> 'j option" and good :: "'j \<Rightarrow> bool"
  assumes decode_encode: "good j \<Longrightarrow> decode (encode j) = Some j"
begin

lemma read_written:
  assumes "put k (encode j) d = (Returned (), d')" and "good j"
  shows "map_option decode (get k d') = Some (Some j)"
  using get_put [OF assms(1)] decode_encode [OF assms(2)] by simp

text \<open>Whether or not a write throws, what is stored under the key decodes to the old or the new value.\<close>

lemma write_old_or_new:
  assumes "put k (encode j) d = (r, d')" and "good j"
  shows "map_option decode (get k d') \<in> {Some (Some j), map_option decode (get k d)}"
  using assms(1) by (rule put_cases) (auto simp: decode_encode assms(2))

end

interpretation js: coded_storage ls_getItem ls_setItem ls_removeItem json_print json_parse json_ok
  by unfold_locales (rule json_parse_print)

section \<open>Facts on objects\<close>

lemma al_get_foldl_set:
  "al_get (foldl (\<lambda>ob (k, v). al_set ob k v) base patch) k =
     (case al_get (rev patch) k of Some v \<Rightarrow> Some v | None \<Rightarrow> al_get base k)"
proof (induction patch arbitrary: base)
  case (Cons p ps)
  obtain a b where p: "p = (a, b)" by force
  have app: "al_get (xs @ ys) k = (case al_get xs k of Some v \<Rightarrow> Some v | None \<Rightarrow> al_get ys k)" for xs ys
    by (induction xs) auto
  show ?case using Cons p by (simp add: app split: option.splits)
qed simp

lemma js_assign_get:
  "distinct (map fst patch) \<Longrightarrow> al_get (js_assign base patch) k =
     (case al_get patch k of Some v \<Rightarrow> Some v | None \<Rightarrow> al_get base k)"
proof -
  assume "distinct (map fst patch)"
  then have "map_of (rev patch) = map_of patch"
    by (intro map_of_inject_set [THEN iffD2]) (simp_all add: rev_map [symmetric])
  then have "al_get (rev patch) k = al_get patch k" by (simp add: al_get_map_of)
  then show ?thesis by (simp add: js_assign_def al_get_foldl_set)
qed

lemma js_assign_Nil [simp]: "js_assign base [] = base"
  by (simp add: js_assign_def)

section \<open>Facts on the store\<close>

lemma setState_keeps [simp]:
  "persist_api (setState p r s) = persist_api s"
  "has_hydrated (setState p r s) = has_hydrated s"
  "disk (setState p r s) = disk s"
  "listeners (setState p r s) = listeners s"
  "hydration_listeners (setState p r s) = hydration_listeners s"
  "finish_listeners (setState p r s) = finish_listeners s"
  "from_storage (setState p r s) = from_storage s"
  by (simp_all add: setState_def Let_def split: option.splits)

lemma setItem_keeps [simp]:
  "persist_api (snd (setItem opt s)) = persist_api s"
  "has_hydrated (snd (setItem opt s)) = has_hydrated s"
  "state (snd (setItem opt s)) = state s"
  "calls (snd (setItem opt s)) = calls s"
  "listeners (snd (setItem opt s)) = listeners s"
  by (simp_all add: setItem_def Let_def split: prod.splits)

lemma config_set_keeps [simp]:
  "persist_api (snd (config_set opt p s)) = persist_api s"
  "has_hydrated (snd (config_set opt p s)) = has_hydrated s"
  "listeners (snd (config_set opt p s)) = listeners s"
  by (simp_all add: config_set_def persist_set_def)

lemma config_set_state:
  "state (snd (config_set opt (Fresh ob) s))
     = Some (js_assign (case state s of None \<Rightarrow> [] | Some b \<Rightarrow> b) ob)"
  by (simp add: config_set_def persist_set_def setState_def next_state_def Let_def)

lemma setItem_outcome:
  assumes "setItem opt s = (r, s')"
  shows "json_setItem (opt_name opt) (JObj [(''state'', json_of_object (opt_partialize opt
      (case state s of None \<Rightarrow> [] | Some x \<Rightarrow> x))), (''version'', JNum (opt_version opt))]) (disk s)
    = (r, disk s')"
  using assms by (auto simp: setItem_def Let_def split: prod.splits)

text \<open>What \<open>hydrate\<close> does, case by case, for options without a migration.\<close>

lemma hydrate_corrupt:
  assumes "json_getItem (opt_name opt) (disk s) = Thrown e"
  shows "has_hydrated (hydrate opt c s) = False" and "state (hydrate opt c s) = state s"
    and "disk (hydrate opt c s) = disk s" and "from_storage (hydrate opt c s) = from_storage s"
    and "persist_api (hydrate opt c s) = persist_api s"
  using assms by (simp_all add: hydrate_def Let_def toThenable_def then_do_def catch_do_def)

definition stored_state :: "persist_options \<Rightarrow> json option \<Rightarrow> json option" where
  "stored_state opt stored =
     (case stored of
        None \<Rightarrow> None
      | Some j \<Rightarrow>
         if \<not> json_truthy j then None
         else (case json_prop j ''version'' of
             Some v \<Rightarrow> if same_version (opt_version opt) v then json_prop j ''state'' else None
           | None \<Rightarrow> json_prop j ''state''))"

lemma hydrate_check_no_migrate:
  "opt_migrate opt = None \<Longrightarrow>
     \<exists>cs. hydrate_check opt stored s = (Returned (False, stored_state opt stored), s\<lparr>calls := calls s @ cs\<rparr>)"
proof -
  have same: "\<exists>cs. s = s\<lparr>calls := calls s @ cs\<rparr>" by (rule exI [of _ "[]"]) simp
  show "opt_migrate opt = None \<Longrightarrow> ?thesis"
    by (auto simp: hydrate_check_def stored_state_def same split: option.splits)
qed

lemma hydrate_readable:
  assumes "json_getItem (opt_name opt) (disk s) = Returned stored" and "opt_migrate opt = None"
  shows "has_hydrated (hydrate opt c s) = True"
    and "state (hydrate opt c s) = Some (js_assign (get_or c s) (json_spread (stored_state opt stored)))"
    and "disk (hydrate opt c s) = disk s"
    and "from_storage (hydrate opt c s) = state (hydrate opt c s)"
    and "persist_api (hydrate opt c s) = persist_api s"
proof -
  let ?s1 = "s\<lparr>has_hydrated := False,
      calls := calls s @ map (\<lambda>l. OnHydrate l (get_or c s)) (hydration_listeners s)\<rparr>"
  obtain cs where "hydrate_check opt stored ?s1
      = (Returned (False, stored_state opt stored), ?s1\<lparr>calls := calls ?s1 @ cs\<rparr>)"
    using hydrate_check_no_migrate [OF assms(2)] by blast
  then have h: "hydrate opt c s = snd (hydrate_finish () (snd (hydrate_merge opt c
      (False, stored_state opt stored) (?s1\<lparr>calls := calls ?s1 @ cs\<rparr>))))"
    using assms(1)
    by (simp add: hydrate_def Let_def toThenable_def then_do_def catch_do_def hydrate_merge_def
        hydrate_finish_def)
  show "has_hydrated (hydrate opt c s) = True" "disk (hydrate opt c s) = disk s"
    "state (hydrate opt c s) = Some (js_assign (get_or c s) (json_spread (stored_state opt stored)))"
    "from_storage (hydrate opt c s) = state (hydrate opt c s)"
    "persist_api (hydrate opt c s) = persist_api s"
    unfolding h by (simp_all add: hydrate_merge_def hydrate_finish_def setState_def next_state_def get_or_def Let_def)
qed

text \<open>The two results of creating a store on an available storage.\<close>

lemma createStore_corrupt:
  assumes "json_getItem (opt_name opt) d = Thrown e"
  shows "has_hydrated (createStore opt c True d) = False"
    and "state (createStore opt c True d) = Some c" and "disk (createStore opt c True d) = d"
    and "persist_api (createStore opt c True d) = True"
  using hydrate_corrupt [of opt "(blank_store d)\<lparr>persist_api := True\<rparr>" e c] assms
  by (auto simp: createStore_def Let_def blank_store_def)

lemma createStore_readable:
  assumes "json_getItem (opt_name opt) d = Returned stored" and "opt_migrate opt = None"
    and "\<not> opt_skipHydration opt"
  shows "has_hydrated (createStore opt c True d) = True"
    and "state (createStore opt c True d) = Some (js_assign c (json_spread (stored_state opt stored)))"
    and "disk (createStore opt c True d) = d" and "persist_api (createStore opt c True d) = True"
  using hydrate_readable [of opt "(blank_store d)\<lparr>persist_api := True\<rparr>" stored c] assms
  by (simp_all add: createStore_def Let_def blank_store_def get_or_def)

end
