(* ===== verification/AuthStore.thy ===== *)
theory AuthStore
  imports Zustand
begin

text \<open>
  The session store (\<open>ui/src/store/auth.ts\<close>, \<open>ui/src/hooks/useAuth.ts\<close>): a persisted zustand
  store with a user, a token and a flag, and the two actions \<open>login\<close> and \<open>logout\<close>. The lemmas
  show that every history of actions and page loads, with a storage that may be full, keeps the
  three fields consistent in memory and on disk.
\<close>

section \<open>The store\<close>

definition auth_partialize :: "js_object \<Rightarrow> js_object" where
  "auth_partialize st =
     [(''token'', js_read st ''token''), (''user'', js_read st ''user''),
      (''isAuthenticated'', js_read st ''isAuthenticated'')]"

definition auth_options :: persist_options where
  "auth_options = \<lparr>opt_name = ''gforce-auth'', opt_version = 0, opt_partialize = auth_partialize,
     opt_migrate = None, opt_skipHydration = False\<rparr>"

definition auth_config :: js_object where
  "auth_config =
     [(''user'', Data JNull), (''token'', Data JNull), (''isAuthenticated'', Data (JBool False)),
      (''login'', Func ''login''), (''logout'', Func ''logout'')]"

definition useAuthStore :: "bool \<Rightarrow> local_storage \<Rightarrow> store" where
  "useAuthStore available d = createStore auth_options auth_config available d"

definition auth_login :: "json \<Rightarrow> json \<Rightarrow> store \<Rightarrow> unit outcome \<times> store" where
  "auth_login token user s =
     config_set auth_options
       (Fresh [(''token'', Data token), (''user'', Data user), (''isAuthenticated'', Data (JBool True))]) s"

definition auth_logout :: "store \<Rightarrow> unit outcome \<times> store" where
  "auth_logout s =
     config_set auth_options
       (Fresh [(''token'', Data JNull), (''user'', Data JNull), (''isAuthenticated'', Data (JBool False))]) s"

definition auth_field :: "store \<Rightarrow> string \<Rightarrow> js_value" where
  "auth_field s k = js_read (case state s of None \<Rightarrow> [] | Some st \<Rightarrow> st) k"

text \<open>\<open>useAuth\<close> returns the whole state.\<close>

definition useAuth :: "store \<Rightarrow> js_object option" where
  "useAuth s = state s"

section \<open>Histories\<close>

text \<open>What happens to the store: the two actions, and a page load, which builds it from the disk.\<close>

datatype auth_op = Login json json | Logout | Reload

definition auth_step :: "auth_op \<Rightarrow> store \<Rightarrow> unit outcome \<times> store" where
  "auth_step op s = (case op of
       Login token user \<Rightarrow> auth_login token user s
     | Logout \<Rightarrow> auth_logout s
     | Reload \<Rightarrow> (Returned (), useAuthStore True (disk s)))"

fun auth_run :: "auth_op list \<Rightarrow> store \<Rightarrow> store" where
  "auth_run [] s = s"
| "auth_run (op # ops) s = auth_run ops (snd (auth_step op s))"

section \<open>Sessions\<close>

text \<open>A session is what the three fields mean: nobody, or a token with its user.\<close>

datatype session = Anonymous | Session json json

definition session_fields :: "session \<Rightarrow> json \<times> json \<times> json" where
  "session_fields u = (case u of
       Anonymous \<Rightarrow> (JNull, JNull, JBool False)
     | Session token user \<Rightarrow> (token, user, JBool True))"

definition session_json :: "session \<Rightarrow> json" where
  "session_json u = (case session_fields u of (t, us, a) \<Rightarrow>
     JObj [(''state'', JObj [(''token'', t), (''user'', us), (''isAuthenticated'', a)]),
           (''version'', JNum 0)])"

definition state_is :: "session \<Rightarrow> js_object \<Rightarrow> bool" where
  "state_is u st = (case session_fields u of (t, us, a) \<Rightarrow>
     js_read st ''token'' = Data t \<and> js_read st ''user'' = Data us
     \<and> js_read st ''isAuthenticated'' = Data a
     \<and> js_read st ''login'' = Func ''login'' \<and> js_read st ''logout'' = Func ''logout'')"

definition session_good :: "session \<Rightarrow> bool" where
  "session_good u = (case u of Anonymous \<Rightarrow> True
     | Session t us \<Rightarrow> json_ok t \<and> json_ok us \<and> json_truthy t)"

definition disk_is :: "session option \<Rightarrow> local_storage \<Rightarrow> bool" where
  "disk_is u d = (ls_getItem ''gforce-auth'' d = map_option (\<lambda>v. json_print (session_json v)) u)"

text \<open>
  In memory there is a session; on disk there is nothing or a session, which the last write that
  did not throw left there.
\<close>

definition auth_inv :: "session \<Rightarrow> session option \<Rightarrow> store \<Rightarrow> bool" where
  "auth_inv m p s \<longleftrightarrow> persist_api s \<and> session_good m \<and> (\<forall>u. p = Some u \<longrightarrow> session_good u)
     \<and> disk_is p (disk s) \<and> (\<exists>st. state s = Some st \<and> state_is m st)"

definition op_good :: "auth_op \<Rightarrow> bool" where
  "op_good op = (case op of Login t us \<Rightarrow> session_good (Session t us) | _ \<Rightarrow> True)"

definition op_session :: "auth_op \<Rightarrow> session option \<Rightarrow> session" where
  "op_session op p = (case op of
       Login t us \<Rightarrow> Session t us
     | Logout \<Rightarrow> Anonymous
     | Reload \<Rightarrow> (case p of None \<Rightarrow> Anonymous | Some u \<Rightarrow> u))"

definition op_writes :: "auth_op \<Rightarrow> bool" where
  "op_writes op = (op \<noteq> Reload)"

section \<open>Facts on single steps\<close>

lemma js_read_assign:
  "distinct (map fst patch) \<Longrightarrow>
    js_read (js_assign base patch) k = (case al_get patch k of Some v \<Rightarrow> v | None \<Rightarrow> js_read base k)"
  by (simp add: js_read_def js_assign_get split: option.splits)

lemma config_is: "state_is Anonymous auth_config"
  by (simp add: state_is_def session_fields_def auth_config_def js_read_def)

lemma session_json_ok: "session_good u \<Longrightarrow> json_ok (session_json u)"
  by (cases u) (auto simp: session_json_def session_fields_def session_good_def)

lemma set_session:
  assumes "state s = Some st" and "state_is m st" and "persist_api s"
    and "session_fields u = (t, us, a)"
    and step: "config_set auth_options
      (Fresh [(''token'', Data t), (''user'', Data us), (''isAuthenticated'', Data a)]) s = (r, s')"
  shows "persist_api s'" and "\<exists>st'. state s' = Some st' \<and> state_is u st'"
    and "json_setItem ''gforce-auth'' (session_json u) (disk s) = (r, disk s')"
proof -
  let ?patch = "[(''token'', Data t), (''user'', Data us), (''isAuthenticated'', Data a)]"
  show "persist_api s'"
    using config_set_keeps(1) [of auth_options "Fresh ?patch" s] step assms(3) by simp
  have st': "state s' = Some (js_assign st ?patch)"
    using config_set_state [of auth_options ?patch s] step assms(1) by simp
  have now: "state_is u (js_assign st ?patch)"
    using assms(2,4) by (simp add: state_is_def js_read_assign split: prod.splits)
  with st' now show "\<exists>st'. state s' = Some st' \<and> state_is u st'" by blast
  let ?s1 = "setState (Fresh ?patch) None s"
  have "setItem auth_options ?s1 = (r, s')"
    using step assms(3) by (simp add: config_set_def persist_set_def)
  from setItem_outcome [OF this]
  have "json_setItem ''gforce-auth'' (JObj [(''state'', json_of_object (auth_partialize (js_assign st ?patch))),
      (''version'', JNum 0)]) (disk s) = (r, disk s')"
    using assms(1) by (simp add: auth_options_def setState_def next_state_def Let_def)
  moreover have "json_of_object (auth_partialize (js_assign st ?patch))
      = JObj [(''token'', t), (''user'', us), (''isAuthenticated'', a)]"
    using now assms(4)
    by (simp add: auth_partialize_def json_of_object_def map_filter_simps state_is_def)
  ultimately show "json_setItem ''gforce-auth'' (session_json u) (disk s) = (r, disk s')"
    using assms(4) by (simp add: session_json_def)
qed

lemma json_getItem_session:
  assumes "session_good u" and "disk_is (Some u) d"
  shows "json_getItem ''gforce-auth'' d = Returned (Some (session_json u))"
  using assms json_parse_print [OF session_json_ok] by (simp add: json_getItem_def disk_is_def)

lemma stored_session: "stored_state auth_options (Some (session_json u))
    = (case session_fields u of (t, us, a) \<Rightarrow>
        Some (JObj [(''token'', t), (''user'', us), (''isAuthenticated'', a)]))"
  by (simp add: stored_state_def session_json_def json_truthy_def json_prop_def same_version_def
      auth_options_def split: prod.splits)

lemma reload_session:
  assumes "\<forall>u. p = Some u \<longrightarrow> session_good u" and "disk_is p d"
  defines "s \<equiv> useAuthStore True d"
  shows "persist_api s" and "has_hydrated s" and "disk s = d"
    and "\<exists>st. state s = Some st \<and> state_is (case p of None \<Rightarrow> Anonymous | Some u \<Rightarrow> u) st"
proof -
  obtain stored where get: "json_getItem (opt_name auth_options) d = Returned stored"
    and stored: "stored = map_option session_json p"
    using assms(1,2) json_getItem_session
    by (cases p) (auto simp: auth_options_def json_getItem_def disk_is_def)
  have opts: "opt_migrate auth_options = None" "\<not> opt_skipHydration auth_options"
    by (simp_all add: auth_options_def)
  note made = createStore_readable [OF get opts, of auth_config]
  from made show "persist_api s" "has_hydrated s" "disk s = d"
    by (simp_all add: s_def useAuthStore_def)
  have "state_is (case p of None \<Rightarrow> Anonymous | Some u \<Rightarrow> u)
      (js_assign auth_config (json_spread (stored_state auth_options stored)))"
  proof (cases p)
    case None
    with stored config_is show ?thesis by (simp add: stored_state_def json_spread_def)
  next
    case (Some u)
    obtain t us a where f: "session_fields u = (t, us, a)" by (metis prod_cases3)
    with Some stored show ?thesis
      using config_is by (simp add: stored_session json_spread_def state_is_def js_read_assign session_fields_def)
  qed
  with made(2) show "\<exists>st. state s = Some st \<and> state_is (case p of None \<Rightarrow> Anonymous | Some u \<Rightarrow> u) st"
    by (simp add: s_def useAuthStore_def)
qed

section \<open>Refinement\<close>

text \<open>
  The abstract store is the session in memory and the session on disk, if any. A write that throws
  changes the first and not the second.
\<close>

definition abs_step :: "auth_op \<Rightarrow> bool \<Rightarrow> session \<times> session option \<Rightarrow> session \<times> session option" where
  "abs_step op written mp =
     (op_session op (snd mp), if op_writes op \<and> written then Some (op_session op (snd mp)) else snd mp)"

lemma auth_step_write:
  assumes "auth_inv m p s" and "session_good u" and "session_fields u = (t, us, a)"
    and "config_set auth_options
      (Fresh [(''token'', Data t), (''user'', Data us), (''isAuthenticated'', Data a)]) s = (r, s')"
  shows "auth_inv u (if r = Returned () then Some u else p) s'"
proof -
  from assms(1) obtain st where st: "state s = Some st" "state_is m st" and api: "persist_api s"
    and p: "\<forall>u. p = Some u \<longrightarrow> session_good u" and disk: "disk_is p (disk s)"
    by (auto simp: auth_inv_def)
  note set = set_session [OF st api assms(3,4)]
  have put: "ls_setItem ''gforce-auth'' (json_print (session_json u)) (disk s) = (r, disk s')"
    using set(3) by (simp add: json_setItem_def)
  have "disk_is (if r = Returned () then Some u else p) (disk s')"
    using put by (rule ls.put_cases) (use disk in \<open>auto simp: disk_is_def\<close>)
  with set(1,2) assms(2) p show ?thesis by (auto simp: auth_inv_def)
qed

lemma auth_step_inv:
  assumes "auth_inv m p s" and "op_good op" and "auth_step op s = (r, s')"
  shows "auth_inv (fst (abs_step op (r = Returned ()) (m, p))) (snd (abs_step op (r = Returned ()) (m, p))) s'"
proof (cases op)
  case (Login t us)
  with assms have "session_good (Session t us)"
    and "config_set auth_options (Fresh [(''token'', Data t), (''user'', Data us),
      (''isAuthenticated'', Data (JBool True))]) s = (r, s')"
    by (simp_all add: op_good_def auth_step_def auth_login_def)
  from auth_step_write [OF assms(1) this(1) _ this(2)] Login show ?thesis
    by (auto simp: abs_step_def op_session_def op_writes_def session_fields_def split: if_splits)
next
  case Logout
  with assms have "config_set auth_options (Fresh [(''token'', Data JNull), (''user'', Data JNull),
      (''isAuthenticated'', Data (JBool False))]) s = (r, s')"
    by (simp add: auth_step_def auth_logout_def)
  from auth_step_write [OF assms(1) _ _ this, of Anonymous] Logout show ?thesis
    by (auto simp: abs_step_def op_session_def op_writes_def session_fields_def session_good_def
        split: if_splits)
next
  case Reload
  from assms(1) have p: "\<forall>u. p = Some u \<longrightarrow> session_good u" and d: "disk_is p (disk s)"
    by (auto simp: auth_inv_def)
  have "session_good (case p of None \<Rightarrow> Anonymous | Some u \<Rightarrow> u)"
    using p by (auto simp: session_good_def split: option.splits)
  with reload_session [OF p d] p d assms(3) Reload show ?thesis
    by (auto simp: abs_step_def op_session_def op_writes_def auth_step_def auth_inv_def)
qed

lemma auth_run_inv:
  "auth_inv m p s \<Longrightarrow> \<forall>op \<in> set ops. op_good op \<Longrightarrow> \<exists>m' p'. auth_inv m' p' (auth_run ops s)"
proof (induction ops arbitrary: m p s)
  case (Cons op ops)
  obtain r s' where step: "auth_step op s = (r, s')" by force
  from auth_step_inv [OF Cons.prems(1) _ step] Cons.prems(2)
  have "\<exists>m1 p1. auth_inv m1 p1 s'" by auto
  with Cons step show ?case by auto
qed auto

lemma auth_inv_start:
  assumes "ls_getItem ''gforce-auth'' d = None"
  shows "auth_inv Anonymous None (useAuthStore True d)"
  using reload_session [of None d] assms by (simp add: auth_inv_def disk_is_def session_good_def)

lemma auth_inv_fields:
  assumes "auth_inv m p s"
  shows "auth_field s ''isAuthenticated'' = Data (JBool (m \<noteq> Anonymous))
    \<and> js_truthy (auth_field s ''token'') = (m \<noteq> Anonymous)"
  using assms
  by (cases m) (auto simp: auth_inv_def auth_field_def state_is_def session_fields_def js_truthy_def
      json_truthy_def session_good_def)

lemma auth_step_not_hydrated:
  "op \<noteq> Reload \<Longrightarrow> has_hydrated (snd (auth_step op s)) = has_hydrated s"
  by (cases op) (simp_all add: auth_step_def auth_login_def auth_logout_def)

lemma auth_run_not_hydrated:
  "Reload \<notin> set ops \<Longrightarrow> has_hydrated (auth_run ops s) = has_hydrated s"
proof (induction ops arbitrary: s)
  case (Cons op ops)
  then have "op \<noteq> Reload" and "Reload \<notin> set ops" by auto
  with Cons.IH show ?case by (simp add: auth_step_not_hydrated)
qed simp

section \<open>Properties\<close>

text \<open>C7. One action or page load on the persisted store does to the three fields and to the disk
  what it does to the abstract pair of sessions: an action sets the session in memory, sets the
  session on disk unless the write throws, and a page load restores the session on disk.\<close>

theorem auth_refinement:
  assumes "auth_inv m p s" and "op_good op" and "auth_step op s = (r, s')"
  shows "auth_inv (fst (abs_step op (r = Returned ()) (m, p)))
    (snd (abs_step op (r = Returned ()) (m, p))) s'"
  using assms by (rule auth_step_inv)

definition empty_disk :: local_storage where
  "empty_disk = \<lparr>ls_items = [], ls_quota = 200\<rparr>"

lemma auth_refinement_witness:
  "\<exists>s'. auth_inv (Session (JStr ''t'') (JStr ''u'')) (Some (Session (JStr ''t'') (JStr ''u''))) s'"
proof -
  let ?op = "Login (JStr ''t'') (JStr ''u'')" and ?s = "useAuthStore True empty_disk"
  obtain r s' where step: "auth_step ?op ?s = (r, s')" by force
  have "fst (auth_step ?op ?s) = Returned ()" by code_simp
  with step have r: "r = Returned ()" by simp
  have good: "op_good ?op" by (simp add: op_good_def session_good_def json_truthy_def)
  have start: "auth_inv Anonymous None ?s"
    by (rule auth_inv_start) (simp add: empty_disk_def ls_getItem_def)
  from auth_refinement [OF start good step] r show ?thesis
    by (auto simp: abs_step_def op_session_def op_writes_def)
qed

text \<open>Starting from a browser without a stored session, after every history of logins, logouts and
  page loads, whether or not the storage was full on the way, the flag \<open>isAuthenticated\<close> is
  \<open>true\<close> exactly when there is a token, and is \<open>false\<close> otherwise.\<close>

theorem auth_flag_iff_token:
  assumes "ls_getItem ''gforce-auth'' d = None" and "\<forall>op \<in> set ops. op_good op"
  shows "auth_field (auth_run ops (useAuthStore True d)) ''isAuthenticated''
    = Data (JBool (js_truthy (auth_field (auth_run ops (useAuthStore True d)) ''token'')))"
proof -
  from auth_run_inv [OF auth_inv_start [OF assms(1)] assms(2)]
  obtain m p where "auth_inv m p (auth_run ops (useAuthStore True d))" by blast
  from auth_inv_fields [OF this] show ?thesis by simp
qed

lemma auth_flag_iff_token_witness:
  "auth_field (auth_run [Login (JStr ''t'') JNull, Reload] (useAuthStore True empty_disk)) ''isAuthenticated''
    = Data (JBool True)"
proof -
  have "js_truthy (auth_field (auth_run [Login (JStr ''t'') JNull, Reload]
      (useAuthStore True empty_disk)) ''token'')"
    by code_simp
  then show ?thesis
    using auth_flag_iff_token [of empty_disk "[Login (JStr ''t'') JNull, Reload]"]
    by (simp add: empty_disk_def ls_getItem_def op_good_def session_good_def json_truthy_def)
qed

text \<open>A login that does not throw survives a page load: the store built from the disk is hydrated
  at once and holds the token and the user of the login.\<close>

theorem auth_login_reload:
  assumes "auth_inv m p s" and "session_good (Session token user)"
    and "auth_login token user s = (Returned (), s')"
  defines "s'' \<equiv> useAuthStore True (disk s')"
  shows "has_hydrated s'' \<and> auth_field s'' ''token'' = Data token
    \<and> auth_field s'' ''user'' = Data user \<and> auth_field s'' ''isAuthenticated'' = Data (JBool True)"
proof -
  have step: "auth_step (Login token user) s = (Returned (), s')"
    using assms(3) by (simp add: auth_step_def)
  have "auth_inv (Session token user) (Some (Session token user)) s'"
    using auth_step_inv [OF assms(1) _ step] assms(2)
    by (simp add: op_good_def abs_step_def op_session_def op_writes_def)
  then have "disk_is (Some (Session token user)) (disk s')" by (simp add: auth_inv_def)
  from reload_session [OF _ this] assms(2) show ?thesis
    by (auto simp: s''_def auth_field_def state_is_def session_fields_def)
qed

lemma auth_login_reload_witness:
  "auth_field (useAuthStore True (disk (snd (auth_login (JStr ''t'') (JStr ''u'')
     (useAuthStore True empty_disk))))) ''token'' = Data (JStr ''t'')"
proof -
  let ?s = "useAuthStore True empty_disk"
  obtain r s' where step: "auth_login (JStr ''t'') (JStr ''u'') ?s = (r, s')" by force
  have "fst (auth_login (JStr ''t'') (JStr ''u'') ?s) = Returned ()" by code_simp
  with step have r: "auth_login (JStr ''t'') (JStr ''u'') ?s = (Returned (), s')" by simp
  have start: "auth_inv Anonymous None ?s"
    by (rule auth_inv_start) (simp add: empty_disk_def ls_getItem_def)
  have "session_good (Session (JStr ''t'') (JStr ''u''))" by (simp add: session_good_def json_truthy_def)
  from auth_login_reload [OF start this r] r show ?thesis by simp
qed

text \<open>When the stored entry is not JSON, the store comes up without a session and unhydrated, and
  no login or logout on that page ever makes it hydrated: the entry has to be repaired by a page
  load after a successful write.\<close>

theorem auth_corrupt_entry:
  assumes "json_getItem ''gforce-auth'' d = Thrown e" and "Reload \<notin> set ops"
  shows "\<not> has_hydrated (auth_run ops (useAuthStore True d))
    \<and> state (useAuthStore True d) = Some auth_config"
  using assms createStore_corrupt [of auth_options d e auth_config]
  by (simp add: auth_run_not_hydrated useAuthStore_def auth_options_def)

lemma auth_corrupt_entry_witness:
  "\<not> has_hydrated (auth_run [Login (JStr ''t'') (JStr ''u''), Logout]
     (useAuthStore True \<lparr>ls_items = [(''gforce-auth'', ''{'')], ls_quota = 200\<rparr>))"
proof -
  have "json_getItem ''gforce-auth'' \<lparr>ls_items = [(''gforce-auth'', ''{'')], ls_quota = 200\<rparr>
      = Thrown SyntaxError" by code_simp
  from auth_corrupt_entry [OF this, of "[Login (JStr ''t'') (JStr ''u''), Logout]"] show ?thesis by simp
qed

text \<open>When the storage is full, \<open>login\<close> throws after it has changed the state: the page holds the
  new session in memory while the disk keeps what it had, so the next page load forgets it.\<close>

theorem auth_login_quota:
  assumes "auth_inv m p s" and "session_good (Session token user)"
    and "auth_login token user s = (Thrown e, s')"
  shows "auth_field s' ''token'' = Data token \<and> auth_field s' ''isAuthenticated'' = Data (JBool True)
    \<and> disk_is p (disk s')"
proof -
  have step: "auth_step (Login token user) s = (Thrown e, s')"
    using assms(3) by (simp add: auth_step_def)
  have "auth_inv (Session token user) p s'"
    using auth_step_inv [OF assms(1) _ step] assms(2)
    by (simp add: op_good_def abs_step_def op_session_def op_writes_def)
  then show ?thesis
    by (auto simp: auth_inv_def auth_field_def state_is_def session_fields_def)
qed

lemma auth_login_quota_witness:
  "\<exists>s'. auth_login (JStr ''t'') (JStr ''u'') (useAuthStore True (empty_disk\<lparr>ls_quota := 10\<rparr>))
       = (Thrown QuotaExceededError, s') \<and> auth_field s' ''token'' = Data (JStr ''t'')"
proof -
  let ?s = "useAuthStore True (empty_disk\<lparr>ls_quota := 10\<rparr>)"
  obtain r s' where step: "auth_login (JStr ''t'') (JStr ''u'') ?s = (r, s')" by force
  have "fst (auth_login (JStr ''t'') (JStr ''u'') ?s) = Thrown QuotaExceededError" by code_simp
  with step have r: "auth_login (JStr ''t'') (JStr ''u'') ?s = (Thrown QuotaExceededError, s')" by simp
  have start: "auth_inv Anonymous None ?s"
    by (rule auth_inv_start) (simp add: empty_disk_def ls_getItem_def)
  have "session_good (Session (JStr ''t'') (JStr ''u''))" by (simp add: session_good_def json_truthy_def)
  from auth_login_quota [OF start this r] r show ?thesis by blast
qed

end
