(* ===== verification/JsRegex.thy ===== *)
theory JsRegex
  imports JsPrelude
begin

text \<open>
  The regular expressions of the modelled code, as data: a syntax over character classes, its
  language, and an executable matcher by derivatives with the theorem that the matcher decides
  the language. A source expression \<open>/^r$/\<close> is tested with \<open>rx_match r\<close>, an unanchored
  \<open>/r/\<close> with \<open>rx_find r\<close>, an expression anchored at the start only with \<open>rx_find_start r\<close>.
  Capture groups are computed by string functions where the code reads them, next to the regular
  expression they belong to.
\<close>

section \<open>Syntax and language\<close>

datatype rx =
    RNone
  | REps
  | RSet "char \<Rightarrow> bool"
  | RAlt rx rx
  | RSeq rx rx
  | RStar rx

primrec rx_lang :: "rx \<Rightarrow> string set" where
  "rx_lang RNone = {}"
| "rx_lang REps = {[]}"
| "rx_lang (RSet p) = {[c] | c. p c}"
| "rx_lang (RAlt r s) = rx_lang r \<union> rx_lang s"
| "rx_lang (RSeq r s) = {u @ v | u v. u \<in> rx_lang r \<and> v \<in> rx_lang s}"
| "rx_lang (RStar r) = {concat ws | ws. set ws \<subseteq> rx_lang r}"

text \<open>The forms the source uses: literals, \<open>r+\<close>, \<open>r?\<close>, alternatives, \<open>.\<close>, \<open>\d\<close>.\<close>

abbreviation rx_chr :: "char \<Rightarrow> rx" where
  "rx_chr c \<equiv> RSet (\<lambda>x. x = c)"

fun rx_str :: "string \<Rightarrow> rx" where
  "rx_str [] = REps"
| "rx_str (c # s) = RSeq (rx_chr c) (rx_str s)"

definition rx_plus :: "rx \<Rightarrow> rx" where
  "rx_plus r = RSeq r (RStar r)"

definition rx_opt :: "rx \<Rightarrow> rx" where
  "rx_opt r = RAlt REps r"

fun rx_alts :: "rx list \<Rightarrow> rx" where
  "rx_alts [] = RNone"
| "rx_alts [r] = r"
| "rx_alts (r # rs) = RAlt r (rx_alts rs)"

fun rx_seqs :: "rx list \<Rightarrow> rx" where
  "rx_seqs [] = REps"
| "rx_seqs [r] = r"
| "rx_seqs (r # rs) = RSeq r (rx_seqs rs)"

definition rx_dot :: rx where
  "rx_dot = RSet (\<lambda>c. \<not> is_line_terminator c)"

definition rx_digit :: rx where
  "rx_digit = RSet is_digit"

definition rx_any :: rx where
  "rx_any = RStar (RSet (\<lambda>_. True))"

section \<open>The matcher\<close>

primrec rx_null :: "rx \<Rightarrow> bool" where
  "rx_null RNone = False"
| "rx_null REps = True"
| "rx_null (RSet p) = False"
| "rx_null (RAlt r s) = (rx_null r \<or> rx_null s)"
| "rx_null (RSeq r s) = (rx_null r \<and> rx_null s)"
| "rx_null (RStar r) = True"

text \<open>Smart constructors keep the derivatives small.\<close>

fun mk_alt :: "rx \<Rightarrow> rx \<Rightarrow> rx" where
  "mk_alt RNone s = s"
| "mk_alt r RNone = r"
| "mk_alt r s = RAlt r s"

fun mk_seq :: "rx \<Rightarrow> rx \<Rightarrow> rx" where
  "mk_seq RNone s = RNone"
| "mk_seq REps s = s"
| "mk_seq r s = RSeq r s"

primrec rx_deriv :: "char \<Rightarrow> rx \<Rightarrow> rx" where
  "rx_deriv c RNone = RNone"
| "rx_deriv c REps = RNone"
| "rx_deriv c (RSet p) = (if p c then REps else RNone)"
| "rx_deriv c (RAlt r s) = mk_alt (rx_deriv c r) (rx_deriv c s)"
| "rx_deriv c (RSeq r s) =
     (if rx_null r then mk_alt (mk_seq (rx_deriv c r) s) (rx_deriv c s)
      else mk_seq (rx_deriv c r) s)"
| "rx_deriv c (RStar r) = mk_seq (rx_deriv c r) (RStar r)"

fun rx_match :: "rx \<Rightarrow> string \<Rightarrow> bool" where
  "rx_match r [] = rx_null r"
| "rx_match r (c # s) = rx_match (rx_deriv c r) s"

definition rx_find_start :: "rx \<Rightarrow> string \<Rightarrow> bool" where
  "rx_find_start r s = rx_match (RSeq r rx_any) s"

definition rx_find :: "rx \<Rightarrow> string \<Rightarrow> bool" where
  "rx_find r s = rx_match (RSeq rx_any (RSeq r rx_any)) s"

section \<open>Correctness\<close>

lemma rx_null_iff: "rx_null r \<longleftrightarrow> [] \<in> rx_lang r"
proof (induction r)
  case (RStar r)
  have "concat [] = ([] :: string)" by simp
  then show ?case by (auto intro!: exI [of _ "[]"])
qed auto

lemma lang_mk_alt [simp]: "rx_lang (mk_alt r s) = rx_lang r \<union> rx_lang s"
  by (induction r s rule: mk_alt.induct) auto

lemma lang_mk_seq [simp]: "rx_lang (mk_seq r s) = rx_lang (RSeq r s)"
  by (induction r s rule: mk_seq.induct) auto

lemma star_Cons:
  "c # s \<in> rx_lang (RStar r) \<longleftrightarrow> (\<exists>u v. s = u @ v \<and> c # u \<in> rx_lang r \<and> v \<in> rx_lang (RStar r))"
proof
  assume "c # s \<in> rx_lang (RStar r)"
  then obtain ws where ws: "c # s = concat ws" "set ws \<subseteq> rx_lang r" by auto
  then show "\<exists>u v. s = u @ v \<and> c # u \<in> rx_lang r \<and> v \<in> rx_lang (RStar r)"
  proof (induction ws)
    case (Cons w ws)
    show ?case
    proof (cases w)
      case Nil
      with Cons show ?thesis by auto
    next
      case (Cons d u)
      with Cons.prems show ?thesis by auto
    qed
  qed simp
next
  assume "\<exists>u v. s = u @ v \<and> c # u \<in> rx_lang r \<and> v \<in> rx_lang (RStar r)"
  then obtain u ws where "s = u @ concat ws" "c # u \<in> rx_lang r" "set ws \<subseteq> rx_lang r" by auto
  then show "c # s \<in> rx_lang (RStar r)"
    by (auto intro!: exI [of _ "(c # u) # ws"])
qed

lemma seq_Cons:
  "c # s \<in> rx_lang (RSeq r t) \<longleftrightarrow>
     (\<exists>u v. s = u @ v \<and> c # u \<in> rx_lang r \<and> v \<in> rx_lang t) \<or> ([] \<in> rx_lang r \<and> c # s \<in> rx_lang t)"
proof
  assume "c # s \<in> rx_lang (RSeq r t)"
  then obtain u v where uv: "c # s = u @ v" "u \<in> rx_lang r" "v \<in> rx_lang t" by auto
  then show "(\<exists>u v. s = u @ v \<and> c # u \<in> rx_lang r \<and> v \<in> rx_lang t)
      \<or> ([] \<in> rx_lang r \<and> c # s \<in> rx_lang t)"
    by (cases u) auto
next
  assume "(\<exists>u v. s = u @ v \<and> c # u \<in> rx_lang r \<and> v \<in> rx_lang t)
      \<or> ([] \<in> rx_lang r \<and> c # s \<in> rx_lang t)"
  then show "c # s \<in> rx_lang (RSeq r t)"
    by (metis (mono_tags, lifting) append_Cons append_Nil mem_Collect_eq rx_lang.simps(5))
qed

lemma rx_deriv_lang: "s \<in> rx_lang (rx_deriv c r) \<longleftrightarrow> c # s \<in> rx_lang r"
proof (induction r arbitrary: s)
  case (RSeq r t)
  then show ?case
    by (simp only: seq_Cons) (auto simp: rx_null_iff)
next
  case (RStar r)
  then show ?case
    by (simp only: star_Cons) auto
qed auto

theorem rx_match_lang: "rx_match r s \<longleftrightarrow> s \<in> rx_lang r"
  by (induction r s rule: rx_match.induct) (simp_all add: rx_null_iff rx_deriv_lang)

lemma rx_star_set_lang: "s \<in> rx_lang (RStar (RSet p)) \<longleftrightarrow> (\<forall>c \<in> set s. p c)"
proof (induction s)
  case Nil
  show ?case by (auto intro!: exI [of _ "[]"])
next
  case (Cons c s)
  show ?case by (simp only: star_Cons) (use Cons in auto)
qed

lemma rx_any_lang: "rx_lang rx_any = UNIV"
  using rx_star_set_lang [of _ "\<lambda>_. True"] by (auto simp only: rx_any_def)

lemma rx_find_lang: "rx_find r s \<longleftrightarrow> (\<exists>u v w. s = u @ v @ w \<and> v \<in> rx_lang r)"
  by (auto simp: rx_find_def rx_match_lang rx_any_lang)

lemma rx_find_start_lang: "rx_find_start r s \<longleftrightarrow> (\<exists>v w. s = v @ w \<and> v \<in> rx_lang r)"
  by (auto simp: rx_find_start_def rx_match_lang rx_any_lang)

section \<open>Languages of the derived forms\<close>

lemma rx_str_lang [simp]: "rx_lang (rx_str s) = {s}"
  by (induction s) auto

lemma rx_opt_lang [simp]: "rx_lang (rx_opt r) = insert [] (rx_lang r)"
  by (auto simp: rx_opt_def)

lemma rx_alts_lang: "rx_lang (rx_alts rs) = (\<Union>r \<in> set rs. rx_lang r)"
  by (induction rs rule: rx_alts.induct) auto

lemma rx_plus_set_lang: "s \<in> rx_lang (rx_plus (RSet p)) \<longleftrightarrow> s \<noteq> [] \<and> (\<forall>c \<in> set s. p c)"
proof (cases s)
  case (Cons c t)
  have "s \<in> rx_lang (rx_plus (RSet p)) \<longleftrightarrow> p c \<and> t \<in> rx_lang (RStar (RSet p))"
    unfolding Cons rx_plus_def by (simp only: seq_Cons) auto
  then show ?thesis using Cons by (simp only: rx_star_set_lang) auto
qed (auto simp: rx_plus_def)

end
