(* ===== verification/Axios.thy ===== *)
theory Axios
  imports JsJson JsRegex
begin

text \<open>
  The HTTP client library (\<open>ui/.vite/deps/axios.js\<close>) as far as the application uses it: header
  objects, configuration merging, URL building, the request and response transformations, the
  \<open>XMLHttpRequest\<close> adapter up to the message it sends, and the interceptor chain. Payloads are
  absent or plain data, query parameters are a flat object of scalars. The network is a parameter:
  what the browser reports for a message (\<open>net_result\<close>). So is the value of the XSRF cookie.
\<close>

section \<open>Header objects\<close>

datatype header_value = HStr string | HUndef | HNull | HFalse

type_synonym headers = "(string \<times> header_value) list"

definition normalizeHeader :: "string \<Rightarrow> string" where
  "normalizeHeader h = to_lower (trim h)"

text \<open>\<open>findKey\<close> compares without case and searches from the last key.\<close>

definition findKey :: "headers \<Rightarrow> string \<Rightarrow> string option" where
  "findKey hs key = map_option fst (find (\<lambda>p. to_lower (fst p) = to_lower key) (rev hs))"

definition sp_or_htab :: "char \<Rightarrow> bool" where
  "sp_or_htab c = (c = CHR 0x09 \<or> c = CHR '' '')"

definition trimSPorHTAB :: "string \<Rightarrow> string" where
  "trimSPorHTAB s = rev (dropWhile sp_or_htab (rev (dropWhile sp_or_htab s)))"

definition header_char :: "char \<Rightarrow> bool" where
  "header_char c = (let n = (of_char c :: int) in n = 9 \<or> (32 \<le> n \<and> n \<le> 126) \<or> 128 \<le> n)"

definition sanitizeHeaderValue :: "string \<Rightarrow> string" where
  "sanitizeHeaderValue s = trimSPorHTAB (filter header_char s)"

definition normalizeValue :: "header_value \<Rightarrow> header_value" where
  "normalizeValue v = (case v of HStr s \<Rightarrow> HStr (sanitizeHeaderValue s) | _ \<Rightarrow> v)"

text \<open>\<open>set(header, value, rewrite)\<close> for a valid header name; \<open>rewrite\<close> may be \<open>undefined\<close>.\<close>

definition ah_set :: "string \<Rightarrow> header_value \<Rightarrow> bool option \<Rightarrow> headers \<Rightarrow> headers" where
  "ah_set header v rewrite hs =
     (case findKey hs (normalizeHeader header) of
        None \<Rightarrow> al_set hs header (normalizeValue v)
      | Some key \<Rightarrow>
          let old = (case al_get hs key of None \<Rightarrow> HUndef | Some x \<Rightarrow> x) in
          if old = HUndef \<or> rewrite = Some True \<or> (rewrite = None \<and> old \<noteq> HFalse)
          then al_set hs key (normalizeValue v) else hs)"

definition ah_set_all :: "headers \<Rightarrow> bool option \<Rightarrow> headers \<Rightarrow> headers" where
  "ah_set_all new rewrite hs = foldl (\<lambda>acc (k, v). ah_set k v rewrite acc) hs new"

definition ah_get :: "string \<Rightarrow> headers \<Rightarrow> header_value" where
  "ah_get header hs =
     (case findKey hs (normalizeHeader header) of
        None \<Rightarrow> HUndef
      | Some key \<Rightarrow> (case al_get hs key of None \<Rightarrow> HUndef | Some v \<Rightarrow> v))"

definition ah_has :: "string \<Rightarrow> headers \<Rightarrow> bool" where
  "ah_has header hs = (findKey hs (normalizeHeader header) \<noteq> None \<and> ah_get header hs \<noteq> HUndef)"

definition ah_delete :: "string \<Rightarrow> headers \<Rightarrow> bool \<times> headers" where
  "ah_delete header hs =
     (case findKey hs (normalizeHeader header) of
        None \<Rightarrow> (False, hs)
      | Some key \<Rightarrow> (True, al_del hs key))"

definition normalize_step :: "string \<Rightarrow> headers \<times> headers \<Rightarrow> headers \<times> headers" where
  "normalize_step header = (\<lambda>(hs, seen).
     let v = (case al_get hs header of None \<Rightarrow> HUndef | Some x \<Rightarrow> x) in
     case findKey seen header of
       Some key \<Rightarrow> (al_del (al_set hs key (normalizeValue v)) header, seen)
     | None \<Rightarrow>
         let normalized = trim header;
             hs' = (if normalized \<noteq> header then al_del hs header else hs)
         in (al_set hs' normalized (normalizeValue v), al_set seen normalized HFalse))"

definition ah_normalize :: "headers \<Rightarrow> headers" where
  "ah_normalize hs = fst (foldl (\<lambda>acc k. normalize_step k acc) (hs, []) (map fst hs))"

definition ah_toJSON :: "headers \<Rightarrow> (string \<times> string) list" where
  "ah_toJSON hs = List.map_filter (\<lambda>(k, v). case v of HStr s \<Rightarrow> Some (k, s) | _ \<Rightarrow> None) hs"

definition ah_concat :: "headers \<Rightarrow> headers \<Rightarrow> headers" where
  "ah_concat first target = ah_set_all target None (ah_set_all first None [])"

section \<open>Configurations\<close>

text \<open>
  The headers of a configuration: the groups \<open>common\<close> and one per method, and the keys given
  directly. A parameter is a number, a string, \<open>null\<close> or \<open>undefined\<close>.
\<close>

record header_config =
  h_common :: headers
  h_method :: "(string \<times> headers) list"
  h_own :: headers

datatype scalar = PNum int | PStr string | PNull | PUndef

record axios_config =
  c_url :: "string option"
  c_method :: "string option"
  c_data :: "json option"
  c_baseURL :: "string option"
  c_params :: "(string \<times> scalar) list option"
  c_timeout :: "nat option"
  c_headers :: "header_config option"

definition empty_headers :: header_config where
  "empty_headers = \<lparr>h_common = [], h_method = [], h_own = []\<rparr>"

definition empty_config :: axios_config where
  "empty_config = \<lparr>c_url = None, c_method = None, c_data = None, c_baseURL = None,
     c_params = None, c_timeout = None, c_headers = None\<rparr>"

definition axios_defaults :: axios_config where
  "axios_defaults = empty_config\<lparr>c_timeout := Some 0,
     c_headers := Some (empty_headers\<lparr>
       h_common := [(''Accept'', HStr ''application/json, text/plain, */*''), (''Content-Type'', HUndef)],
       h_method := map (\<lambda>m. (m, [])) [''delete'', ''get'', ''head'', ''post'', ''put'', ''patch'', ''query'']\<rparr>)\<rparr>"

text \<open>\<open>utils.merge\<close> of two flat header objects, with and without regard to case.\<close>

definition merge_flat :: "bool \<Rightarrow> headers \<Rightarrow> headers \<Rightarrow> headers" where
  "merge_flat caseless a b =
     foldl (\<lambda>r (k, v). al_set r (if caseless then (case findKey r k of None \<Rightarrow> k | Some k' \<Rightarrow> k') else k) v)
       [] (a @ b)"

definition merge_methods ::
    "(string \<times> headers) list \<Rightarrow> (string \<times> headers) list \<Rightarrow> (string \<times> headers) list" where
  "merge_methods a b =
     foldl (\<lambda>r (k, hs). al_set r k (merge_flat False (case al_get r k of None \<Rightarrow> [] | Some x \<Rightarrow> x) hs))
       [] (a @ b)"

definition merge_headers :: "header_config option \<Rightarrow> header_config option \<Rightarrow> header_config option" where
  "merge_headers a b =
     (case (a, b) of
        (Some x, Some y) \<Rightarrow>
          Some \<lparr>h_common = merge_flat False (h_common x) (h_common y),
                h_method = merge_methods (h_method x) (h_method y),
                h_own = merge_flat True (h_own x) (h_own y)\<rparr>
      | (None, _) \<Rightarrow> b
      | (_, None) \<Rightarrow> a)"

definition default_to :: "'a option \<Rightarrow> 'a option \<Rightarrow> 'a option" where
  "default_to a b = (case b of Some x \<Rightarrow> Some x | None \<Rightarrow> a)"

text \<open>\<open>params\<close> has no rule of its own, so two parameter objects are merged key by key.\<close>

definition merge_params ::
    "(string \<times> scalar) list option \<Rightarrow> (string \<times> scalar) list option \<Rightarrow> (string \<times> scalar) list option" where
  "merge_params a b =
     (case (a, b) of
        (Some x, Some y) \<Rightarrow> Some (foldl (\<lambda>r (k, v). al_set r k v) [] (x @ y))
      | _ \<Rightarrow> default_to a b)"

definition mergeConfig :: "axios_config \<Rightarrow> axios_config \<Rightarrow> axios_config" where
  "mergeConfig a b =
     \<lparr>c_url = c_url b, c_method = c_method b, c_data = c_data b,
      c_baseURL = default_to (c_baseURL a) (c_baseURL b),
      c_params = merge_params (c_params a) (c_params b),
      c_timeout = default_to (c_timeout a) (c_timeout b),
      c_headers = merge_headers (c_headers a) (c_headers b)\<rparr>"

section \<open>URLs\<close>

definition hex_upper :: "int \<Rightarrow> char" where
  "hex_upper d = (if d < 10 then char_of (48 + d) else char_of (55 + d))"

definition percent_byte :: "int \<Rightarrow> string" where
  "percent_byte n = [CHR ''%'', hex_upper (n div 16), hex_upper (n mod 16)]"

definition uri_unreserved :: "char \<Rightarrow> bool" where
  "uri_unreserved c = (is_word_char c \<or> c \<in> set ''-.!~*'' \<or> c = CHR 0x27 \<or> c = CHR ''('' \<or> c = CHR '')'')"

text \<open>One code unit under \<open>encodeURIComponent\<close>: its UTF-8 bytes, escaped.\<close>

definition encode_unit :: "char \<Rightarrow> string" where
  "encode_unit c =
     (if uri_unreserved c then [c]
      else let n = (of_char c :: int) in
        if n < 128 then percent_byte n
        else percent_byte (192 + n div 64) @ percent_byte (128 + n mod 64))"

definition encodeURIComponent :: "string \<Rightarrow> string" where
  "encodeURIComponent s = concat (map encode_unit s)"

text \<open>
  \<open>encode2\<close> of \<open>buildURL\<close>: the escapes of colon, dollar and comma are undone, that of the blank
  becomes a plus. Each of these escapes comes from one code unit, so the replacements are made
  unit by unit.
\<close>

definition encode2_unit :: "char \<Rightarrow> string" where
  "encode2_unit c =
     (if c = CHR '':'' \<or> c = CHR ''$'' \<or> c = CHR '','' then [c]
      else if c = CHR '' '' then ''+''
      else encode_unit c)"

definition encode2 :: "string \<Rightarrow> string" where
  "encode2 s = concat (map encode2_unit s)"

definition scalar_text :: "scalar \<Rightarrow> string option" where
  "scalar_text v = (case v of PNum i \<Rightarrow> Some (show_int i) | PStr s \<Rightarrow> Some s | _ \<Rightarrow> None)"

text \<open>\<open>toFormData\<close> of a flat object of scalars: undefined and null parameters are left out.\<close>

definition param_pairs :: "(string \<times> scalar) list \<Rightarrow> (string \<times> string) list" where
  "param_pairs ps = List.map_filter (\<lambda>(k, v). map_option (\<lambda>t. (trim k, t)) (scalar_text v)) ps"

definition serialize_params :: "(string \<times> scalar) list \<Rightarrow> string" where
  "serialize_params ps = join ''&'' (map (\<lambda>(k, v). encode2 k @ CHR ''='' # encode2 v) (param_pairs ps))"

definition buildURL :: "string \<Rightarrow> (string \<times> scalar) list option \<Rightarrow> string" where
  "buildURL url params =
     (case params of
        None \<Rightarrow> url
      | Some ps \<Rightarrow>
          let serialized = serialize_params ps in
          if serialized = [] then url
          else let u = (case index_of url CHR ''#'' of None \<Rightarrow> url | Some i \<Rightarrow> take i url)
               in u @ (if CHR ''?'' \<in> set u then ''&'' else ''?'') @ serialized)"

text \<open>\<open>/^([a-z][a-z\d+\-.]*:)?\/\//i\<close>.\<close>

definition absoluteURL_rx :: rx where
  "absoluteURL_rx = rx_seqs
     [rx_opt (rx_seqs [RSet (\<lambda>c. is_lower_az c \<or> is_upper_az c),
        RStar (RSet (\<lambda>c. is_lower_az c \<or> is_upper_az c \<or> is_digit c \<or> c \<in> set ''+-.'')), rx_chr CHR '':'']),
      rx_str ''//'']"

definition isAbsoluteURL :: "string \<Rightarrow> bool" where
  "isAbsoluteURL url = rx_find_start absoluteURL_rx url"

text \<open>\<open>baseURL.replace(/\/?\/$/, '')\<close> drops one or two slashes at the end.\<close>

definition drop_end_slashes :: "string \<Rightarrow> string" where
  "drop_end_slashes s =
     (if ends_with s ''//'' then take (length s - 2) s
      else if ends_with s ''/'' then take (length s - 1) s
      else s)"

definition combineURLs :: "string \<Rightarrow> string \<Rightarrow> string" where
  "combineURLs baseURL relativeURL =
     (if relativeURL \<noteq> [] then drop_end_slashes baseURL @ ''/'' @ dropWhile (\<lambda>c. c = CHR ''/'') relativeURL
      else baseURL)"

definition buildFullPath :: "string option \<Rightarrow> string \<Rightarrow> bool \<Rightarrow> string" where
  "buildFullPath baseURL requested allowAbsoluteUrls =
     (case baseURL of
        None \<Rightarrow> requested
      | Some b \<Rightarrow>
          if b \<noteq> [] \<and> (\<not> isAbsoluteURL requested \<or> \<not> allowAbsoluteUrls)
          then combineURLs b requested else requested)"

section \<open>Requests\<close>

text \<open>
  A configuration inside the chain: its headers are a header object. \<open>body\<close> is \<open>None\<close> for an
  absent payload.
\<close>

datatype payload = PText string | PData json

record request =
  r_url :: string
  r_method :: string
  r_data :: "json option"
  r_baseURL :: "string option"
  r_params :: "(string \<times> scalar) list option"
  r_timeout :: nat
  r_headers :: headers

definition opt_list :: "'a list option \<Rightarrow> 'a list" where
  "opt_list x = (case x of None \<Rightarrow> [] | Some xs \<Rightarrow> xs)"

text \<open>What \<open>_request\<close> prepares before the chain starts.\<close>

definition prepare_request :: "axios_config \<Rightarrow> axios_config \<Rightarrow> request" where
  "prepare_request defs cfg =
     (let c = mergeConfig defs cfg;
          m = to_lower (case c_method c of None \<Rightarrow> (case c_method defs of None \<Rightarrow> ''get'' | Some x \<Rightarrow> x) | Some x \<Rightarrow> x);
          hc = (case c_headers c of None \<Rightarrow> empty_headers | Some h \<Rightarrow> h);
          context = merge_flat False (h_common hc) (opt_list (al_get (h_method hc) m))
      in \<lparr>r_url = opt_list (c_url c), r_method = m, r_data = c_data c, r_baseURL = c_baseURL c,
          r_params = c_params c, r_timeout = (case c_timeout c of None \<Rightarrow> 0 | Some t \<Rightarrow> t),
          r_headers = ah_concat context (h_own hc)\<rparr>)"

definition header_text :: "header_value \<Rightarrow> string" where
  "header_text v = (case v of HStr s \<Rightarrow> s | _ \<Rightarrow> [])"

text \<open>A string payload that is JSON is sent as it is, any other value is printed.\<close>

definition stringifySafely :: "json option \<Rightarrow> payload option" where
  "stringifySafely raw =
     (case raw of
        None \<Rightarrow> None
      | Some (JStr s) \<Rightarrow> Some (PText (if json_parse s \<noteq> None then trim s else json_print (JStr s)))
      | Some j \<Rightarrow> Some (PText (json_print j)))"

definition is_object :: "json option \<Rightarrow> bool" where
  "is_object d = (case d of Some (JObj _) \<Rightarrow> True | Some (JArr _) \<Rightarrow> True | _ \<Rightarrow> False)"

definition transformRequest :: "json option \<Rightarrow> headers \<Rightarrow> payload option \<times> headers" where
  "transformRequest data hs =
     (if is_object data \<or> str_includes (header_text (ah_get ''Content-Type'' hs)) ''application/json''
      then (stringifySafely data, ah_set ''Content-Type'' (HStr ''application/json'') (Some False) hs)
      else (map_option PData data, hs))"

record xhr_message =
  x_method :: string
  x_url :: string
  x_headers :: "(string \<times> string) list"
  x_body :: "payload option"
  x_timeout :: nat

definition body_methods :: "string list" where
  "body_methods = [''post'', ''put'', ''patch'']"

text \<open>The first half of \<open>dispatchRequest\<close> and the adapter up to \<open>send\<close>.\<close>

definition dispatch_headers :: "request \<Rightarrow> payload option \<times> headers" where
  "dispatch_headers r =
     (let (body, hs) = transformRequest (r_data r) (ah_normalize (r_headers r));
          hs1 = ah_normalize hs
      in (body, if r_method r \<in> set body_methods
                then ah_set ''Content-Type'' (HStr ''application/x-www-form-urlencoded'') (Some False) hs1
                else hs1))"

definition xhr_send :: "string option \<Rightarrow> request \<Rightarrow> xhr_message" where
  "xhr_send xsrf r =
     (let (body, hs) = dispatch_headers r;
          hs1 = (case xsrf of
                   None \<Rightarrow> hs
                 | Some v \<Rightarrow> if v = [] then hs else ah_set ''X-XSRF-TOKEN'' (HStr v) None hs);
          hs2 = ah_normalize hs1;
          hs3 = (if body = None then ah_set ''Content-Type'' HNull None hs2 else hs2)
      in \<lparr>x_method = to_upper (r_method r),
          x_url = buildURL (buildFullPath (r_baseURL r) (r_url r) True) (r_params r),
          x_headers = ah_toJSON hs3, x_body = body, x_timeout = r_timeout r\<rparr>)"

section \<open>Responses\<close>

datatype net_result = NetResponse nat string | NetError | NetTimeout | NetAborted

record response =
  p_status :: nat
  p_data :: json
  p_request :: request

datatype api_error =
    AxiosErr string "(nat \<times> json) option" request
  | ScriptError string

definition validateStatus :: "nat \<Rightarrow> bool" where
  "validateStatus status = (200 \<le> status \<and> status < 300)"

text \<open>Text that is not JSON stays a string; an empty text is not parsed.\<close>

definition transformResponse :: "string \<Rightarrow> json" where
  "transformResponse text =
     (if text = [] then JStr []
      else case json_parse text of None \<Rightarrow> JStr text | Some j \<Rightarrow> j)"

definition settle :: "nat \<Rightarrow> json \<Rightarrow> request \<Rightarrow> api_error + response" where
  "settle status data r =
     (if status = 0 \<or> validateStatus status
      then Inr \<lparr>p_status = status, p_data = data, p_request = r\<rparr>
      else Inl (AxiosErr
        (if 400 \<le> status \<and> status < 500 then ''ERR_BAD_REQUEST'' else ''ERR_BAD_RESPONSE'')
        (Some (status, data)) r))"

definition xhr_receive :: "request \<Rightarrow> net_result \<Rightarrow> api_error + response" where
  "xhr_receive r res =
     (case res of
        NetResponse status text \<Rightarrow> settle status (transformResponse text) r
      | NetError \<Rightarrow> Inl (AxiosErr ''ERR_NETWORK'' None r)
      | NetTimeout \<Rightarrow> Inl (AxiosErr ''ECONNABORTED'' None r)
      | NetAborted \<Rightarrow> Inl (AxiosErr ''ECONNABORTED'' None r))"

section \<open>The interceptor chain\<close>

text \<open>
  A handler reads and changes the world \<open>'w\<close>; \<open>None\<close> marks an ejected handler. Request
  interceptors run from the last registered to the first, response interceptors in order.
\<close>

type_synonym ('w, 'a) handler = "'a \<Rightarrow> 'w \<Rightarrow> (api_error + 'a) \<times> 'w"

record ('w, 'a) interceptor =
  i_fulfilled :: "('w, 'a) handler option"
  i_rejected :: "(api_error \<Rightarrow> 'w \<Rightarrow> (api_error + 'a) \<times> 'w) option"

type_synonym ('w, 'a) manager = "('w, 'a) interceptor option list"

definition i_use :: "('w, 'a) interceptor \<Rightarrow> ('w, 'a) manager \<Rightarrow> nat \<times> ('w, 'a) manager" where
  "i_use h hs = (length hs, hs @ [Some h])"

definition i_eject :: "nat \<Rightarrow> ('w, 'a) manager \<Rightarrow> ('w, 'a) manager" where
  "i_eject i hs = (if i < length hs then hs[i := None] else hs)"

definition i_handlers :: "('w, 'a) manager \<Rightarrow> ('w, 'a) interceptor list" where
  "i_handlers hs = List.map_filter id hs"

text \<open>\<open>promise.then(fulfilled, rejected)\<close>, each of which may be missing.\<close>

definition promise_then :: "('w, 'a) interceptor \<Rightarrow> (api_error + 'a) \<times> 'w \<Rightarrow> (api_error + 'a) \<times> 'w" where
  "promise_then h p = (case p of
       (Inr v, w) \<Rightarrow> (case i_fulfilled h of None \<Rightarrow> (Inr v, w) | Some f \<Rightarrow> f v w)
     | (Inl e, w) \<Rightarrow> (case i_rejected h of None \<Rightarrow> (Inl e, w) | Some f \<Rightarrow> f e w))"

definition run_chain :: "('w, 'a) interceptor list \<Rightarrow> (api_error + 'a) \<times> 'w \<Rightarrow> (api_error + 'a) \<times> 'w" where
  "run_chain hs p = foldl (\<lambda>q h. promise_then h q) p hs"

record 'w axios_instance =
  a_defaults :: axios_config
  a_request :: "('w, request) manager"
  a_response :: "('w, response) manager"

definition axios_create :: "axios_config \<Rightarrow> 'w axios_instance" where
  "axios_create cfg = \<lparr>a_defaults = mergeConfig axios_defaults cfg, a_request = [], a_response = []\<rparr>"

text \<open>The two halves of a call: up to the message that is sent, and from the report of the browser.\<close>

definition axios_send ::
    "'w axios_instance \<Rightarrow> string option \<Rightarrow> axios_config \<Rightarrow> 'w \<Rightarrow> (api_error + request \<times> xhr_message) \<times> 'w" where
  "axios_send inst xsrf cfg w =
     (case run_chain (rev (i_handlers (a_request inst))) (Inr (prepare_request (a_defaults inst) cfg), w) of
        (Inl e, w') \<Rightarrow> (Inl e, w')
      | (Inr r, w') \<Rightarrow> (Inr (r, xhr_send xsrf r), w'))"

definition axios_receive ::
    "'w axios_instance \<Rightarrow> request \<Rightarrow> net_result \<Rightarrow> 'w \<Rightarrow> (api_error + response) \<times> 'w" where
  "axios_receive inst r res w = run_chain (i_handlers (a_response inst)) (xhr_receive r res, w)"

text \<open>The methods: \<open>get\<close> and \<open>delete\<close> take a configuration, \<open>post\<close> and \<open>patch\<close> a payload.\<close>

definition method_config :: "string \<Rightarrow> string \<Rightarrow> axios_config \<Rightarrow> axios_config" where
  "method_config m url cfg =
     mergeConfig cfg (empty_config\<lparr>c_method := Some m, c_url := Some url, c_data := c_data cfg\<rparr>)"

definition body_config :: "string \<Rightarrow> string \<Rightarrow> json \<Rightarrow> axios_config \<Rightarrow> axios_config" where
  "body_config m url data cfg =
     mergeConfig cfg (empty_config\<lparr>c_method := Some m, c_url := Some url, c_data := Some data,
       c_headers := Some empty_headers\<rparr>)"

section \<open>Facts on headers\<close>

lemma dropWhile_filter_id:
  "\<forall>c \<in> set s. P c \<Longrightarrow> filter P s = s"
  by (induction s) auto

lemma trim_ends_idem:
  "dropWhile P (rev (dropWhile P (rev (dropWhile P s)))) = rev (dropWhile P (rev (dropWhile P s)))"
proof -
  let ?d = "dropWhile P s"
  let ?t = "rev (dropWhile P (rev ?d))"
  show ?thesis
  proof (cases ?t)
    case (Cons c cs)
    have "prefix ?t ?d" by (metis suffix_dropWhile suffix_to_prefix rev_rev_ident)
    with Cons obtain r where "?d = c # r" by (auto simp: prefix_def)
    then have "\<not> P c" using hd_dropWhile [of P s] by (metis list.distinct(1) list.sel(1))
    with Cons show ?thesis by simp
  qed (metis dropWhile.simps(1))
qed

lemma sanitize_idem [simp]: "sanitizeHeaderValue (sanitizeHeaderValue s) = sanitizeHeaderValue s"
proof -
  let ?f = "filter header_char s"
  have "set (trimSPorHTAB ?f) \<subseteq> set ?f"
    by (auto simp: trimSPorHTAB_def dest!: set_dropWhileD)
  then have "filter header_char (trimSPorHTAB ?f) = trimSPorHTAB ?f"
    by (intro dropWhile_filter_id) auto
  moreover have "trimSPorHTAB (trimSPorHTAB ?f) = trimSPorHTAB ?f"
  proof -
    have "dropWhile sp_or_htab (dropWhile sp_or_htab (rev (dropWhile sp_or_htab ?f)))
        = dropWhile sp_or_htab (rev (dropWhile sp_or_htab ?f))"
      by (rule dropWhile_idem)
    then show ?thesis
      unfolding trimSPorHTAB_def by (simp add: trim_ends_idem)
  qed
  ultimately show ?thesis by (simp add: sanitizeHeaderValue_def)
qed

lemma normalizeValue_idem [simp]: "normalizeValue (normalizeValue v) = normalizeValue v"
  by (cases v) (simp_all add: normalizeValue_def)

lemma header_names:
  "to_lower ''Accept'' = ''accept''" "to_lower ''Content-Type'' = ''content-type''"
  "to_lower ''Authorization'' = ''authorization''" "to_lower ''X-XSRF-TOKEN'' = ''x-xsrf-token''"
  "to_lower ''accept'' = ''accept''" "to_lower ''content-type'' = ''content-type''"
  "to_lower ''authorization'' = ''authorization''" "to_lower ''x-xsrf-token'' = ''x-xsrf-token''"
  "normalizeHeader ''Accept'' = ''accept''" "normalizeHeader ''Content-Type'' = ''content-type''"
  "normalizeHeader ''Authorization'' = ''authorization''" "normalizeHeader ''X-XSRF-TOKEN'' = ''x-xsrf-token''"
  "trim ''Accept'' = ''Accept''" "trim ''Content-Type'' = ''Content-Type''"
  "trim ''Authorization'' = ''Authorization''" "trim ''X-XSRF-TOKEN'' = ''X-XSRF-TOKEN''"
  by code_simp+

lemma normalize_three [simp]:
  "ah_normalize [(''Accept'', a), (''Content-Type'', c), (''Authorization'', v)]
    = [(''Accept'', normalizeValue a), (''Content-Type'', normalizeValue c), (''Authorization'', normalizeValue v)]"
  "ah_normalize [(''Accept'', a), (''Content-Type'', c)]
    = [(''Accept'', normalizeValue a), (''Content-Type'', normalizeValue c)]"
  "ah_normalize [(''Accept'', a), (''Content-Type'', c), (''Authorization'', v), (''X-XSRF-TOKEN'', x)]
    = [(''Accept'', normalizeValue a), (''Content-Type'', normalizeValue c), (''Authorization'', normalizeValue v),
       (''X-XSRF-TOKEN'', normalizeValue x)]"
  "ah_normalize [(''Accept'', a), (''Content-Type'', c), (''X-XSRF-TOKEN'', x)]
    = [(''Accept'', normalizeValue a), (''Content-Type'', normalizeValue c), (''X-XSRF-TOKEN'', normalizeValue x)]"
  by (simp_all add: ah_normalize_def normalize_step_def findKey_def header_names Let_def)

section \<open>Facts on URLs\<close>

text \<open>A path that starts with one slash is relative, and is appended to the base.\<close>

lemma relative_path:
  assumes "c \<noteq> CHR ''/''"
  shows "\<not> isAbsoluteURL (CHR ''/'' # c # s)"
proof
  assume "isAbsoluteURL (CHR ''/'' # c # s)"
  then have "CHR ''/'' # c # s \<in> rx_lang (RSeq absoluteURL_rx rx_any)"
    by (simp add: isAbsoluteURL_def rx_find_start_def rx_match_lang)
  with assms show False
    by (auto simp: absoluteURL_rx_def rx_opt_def Cons_eq_append_conv is_lower_az_def is_upper_az_def)
qed

lemma api_path:
  assumes "c \<noteq> CHR ''/''"
  shows "buildFullPath (Some ''/api/v1'') (CHR ''/'' # c # s) True = ''/api/v1/'' @ c # s"
proof -
  have "drop_end_slashes ''/api/v1'' = ''/api/v1''" by code_simp
  with relative_path [OF assms] assms show ?thesis by (simp add: buildFullPath_def combineURLs_def)
qed

text \<open>A fragment is cut off before the parameters are appended.\<close>

lemma buildURL_fragment:
  assumes "CHR ''#'' \<notin> set u" and "serialize_params ps \<noteq> []"
  shows "buildURL (u @ CHR ''#'' # f) (Some ps) = buildURL u (Some ps)"
proof -
  have "index_of (u @ CHR ''#'' # f) CHR ''#'' = Some (length u)"
    using assms(1) by (induction u) auto
  moreover have "index_of u CHR ''#'' \<noteq> Some i" for i
    using assms(1) index_of_Some_take [of u "CHR ''#''" i] by (metis nth_mem)
  ultimately show ?thesis
    using assms(2) by (simp add: buildURL_def Let_def split: option.splits)
qed

lemma buildURL_plain:
  assumes "CHR ''#'' \<notin> set u" and "CHR ''?'' \<notin> set u" and "serialize_params ps \<noteq> []"
  shows "buildURL u (Some ps) = u @ ''?'' @ serialize_params ps"
proof -
  have "index_of u CHR ''#'' = None" using assms(1) by (simp only: index_of_None not_False_eq_True)
  then show ?thesis using assms(2,3) by (simp only: buildURL_def option.case Let_def if_False)
qed

text \<open>Reading a parameter back, as a server does: plus is a blank, an escape is a UTF-8 byte.\<close>

definition hex_int :: "char \<Rightarrow> int" where
  "hex_int c = (let n = (of_char c :: int) in if n \<le> 57 then n - 48 else n - 55)"

fun url_decode :: "string \<Rightarrow> string" where
  "url_decode [] = []"
| "url_decode (c # r) =
     (if c = CHR ''+'' then CHR '' '' # url_decode r
      else if c = CHR ''%'' then
        (case r of
           a # b # r1 \<Rightarrow>
             let n = 16 * hex_int a + hex_int b in
             if n < 128 then char_of n # url_decode r1
             else (case r1 of
                 x # a2 # b2 # r2 \<Rightarrow> char_of ((n - 192) * 64 + (16 * hex_int a2 + hex_int b2 - 128)) # url_decode r2
               | _ \<Rightarrow> [])
         | _ \<Rightarrow> [])
      else c # url_decode r)"

lemma hex_int_upper [simp]: "0 \<le> d \<Longrightarrow> d < 16 \<Longrightarrow> hex_int (hex_upper d) = d"
  by (auto simp: hex_int_def hex_upper_def Let_def)

lemma char_int_range: "0 \<le> (of_char c :: int) \<and> (of_char c :: int) < 256"
proof -
  have "(of_char c :: nat) < 256" by simp
  moreover have "(of_char c :: int) = int (of_char c)" by (simp only: of_nat_of_char)
  ultimately show ?thesis by simp
qed

lemma unreserved_plain: "uri_unreserved c \<Longrightarrow> c \<noteq> CHR ''+'' \<and> c \<noteq> CHR ''%''"
  by (auto simp: uri_unreserved_def is_word_char_def is_lower_az_def is_upper_az_def is_digit_def)

lemma percent_byte_value:
  "0 \<le> m \<Longrightarrow> m < 256 \<Longrightarrow> 16 * hex_int (hex_upper (m div 16)) + hex_int (hex_upper (m mod 16)) = m"
  by simp

lemma url_decode_byte:
  "0 \<le> m \<Longrightarrow> m < 128 \<Longrightarrow> url_decode (percent_byte m @ r) = char_of m # url_decode r"
  using percent_byte_value [of m] by (simp only: percent_byte_def append.simps url_decode.simps) (simp add: Let_def del: hex_int_upper)

lemma url_decode_bytes:
  "128 \<le> m \<Longrightarrow> m < 256 \<Longrightarrow> 0 \<le> k \<Longrightarrow> k < 256 \<Longrightarrow>
    url_decode (percent_byte m @ percent_byte k @ r) = char_of ((m - 192) * 64 + (k - 128)) # url_decode r"
  using percent_byte_value [of m] percent_byte_value [of k]
  by (simp only: percent_byte_def append.simps url_decode.simps) (simp add: Let_def del: hex_int_upper)

lemma url_decode_unit: "url_decode (encode2_unit c @ r) = c # url_decode r"
proof -
  let ?n = "of_char c :: int"
  have self: "char_of ?n = c" by simp
  note range = char_int_range [of c]
  show ?thesis
  proof (cases "c = CHR '':'' \<or> c = CHR ''$'' \<or> c = CHR '','' \<or> c = CHR '' '' \<or> uri_unreserved c")
    case True
    then show ?thesis
      using unreserved_plain by (auto simp: encode2_unit_def encode_unit_def)
  next
    case False
    then have e: "encode2_unit c = (if ?n < 128 then percent_byte ?n
        else percent_byte (192 + ?n div 64) @ percent_byte (128 + ?n mod 64))"
      by (simp add: encode2_unit_def encode_unit_def Let_def)

    show ?thesis
    proof (cases "?n < 128")
      case True
      with e range url_decode_byte [of ?n r] self show ?thesis by simp
    next
      case False
      have b: "128 \<le> 192 + ?n div 64" "192 + ?n div 64 < 256" "0 \<le> 128 + ?n mod 64" "128 + ?n mod 64 < 256"
        using range by auto
      have "(192 + ?n div 64 - 192) * 64 + (128 + ?n mod 64 - 128) = ?n" by simp
      with url_decode_bytes [OF b, of r] self
      have "url_decode (percent_byte (192 + ?n div 64) @ percent_byte (128 + ?n mod 64) @ r) = c # url_decode r"
        by (simp only:)
      with e False show ?thesis by (simp only: if_False append_assoc)
    qed
  qed
qed

lemma url_decode_encode2: "url_decode (encode2 s) = s"
  by (induction s) (simp_all add: encode2_def url_decode_unit)

end
