(* ===== verification/ApiClient.thy ===== *)
theory ApiClient
  imports AuthStore Axios
begin

text \<open>
  The API client (\<open>ui/src/api/client.ts\<close>) and the endpoint functions (\<open>ui/src/api/*.ts\<close>): an
  axios instance whose request interceptor reads the token from the session store and whose
  response interceptor ends the session on a 401. The world of the client is the session store,
  the path of the page, and the addresses assigned to \<open>window.location.href\<close>. An endpoint is a
  configuration and a reading of the response.
\<close>

section \<open>The client\<close>

record web =
  w_auth :: store
  w_pathname :: string
  w_hrefs :: "string list"

text \<open>The text of a value in a template literal.\<close>

fun json_to_string :: "json \<Rightarrow> string" where
  "json_to_string JNull = ''null''"
| "json_to_string (JBool b) = (if b then ''true'' else ''false'')"
| "json_to_string (JNum i) = show_int i"
| "json_to_string (JReal s) = s"
| "json_to_string (JStr s) = s"
| "json_to_string (JArr xs) = join '','' (map (\<lambda>x. if x = JNull then [] else json_to_string x) xs)"
| "json_to_string (JObj ms) = ''[object Object]''"

definition js_to_string :: "js_value \<Rightarrow> string" where
  "js_to_string v = (case v of Data j \<Rightarrow> json_to_string j | Func n \<Rightarrow> n | Undef \<Rightarrow> ''undefined'')"

definition client_config :: axios_config where
  "client_config = empty_config\<lparr>c_baseURL := Some ''/api/v1'',
     c_headers := Some (empty_headers\<lparr>h_own := [(''Content-Type'', HStr ''application/json'')]\<rparr>),
     c_timeout := Some 15000\<rparr>"

definition attach_token :: "(web, request) handler" where
  "attach_token cfg w =
     (let token = auth_field (w_auth w) ''token'' in
      (Inr (if js_truthy token
            then cfg\<lparr>r_headers := al_set (r_headers cfg) ''Authorization'' (HStr (''Bearer '' @ js_to_string token))\<rparr>
            else cfg), w))"

definition is_user_endpoint :: "string \<Rightarrow> bool" where
  "is_user_endpoint url = (url = ''/user'' \<or> ends_with url ''/user'')"

text \<open>The rejection handler; an exception of \<open>logout\<close> replaces the error and stops the redirect.\<close>

definition error_text :: "js_error \<Rightarrow> string" where
  "error_text e = (case e of SyntaxError \<Rightarrow> ''SyntaxError'' | QuotaExceededError \<Rightarrow> ''QuotaExceededError''
     | TypeError \<Rightarrow> ''TypeError'')"

definition ends_session :: "api_error \<Rightarrow> web \<Rightarrow> bool" where
  "ends_session e w = (case e of
       AxiosErr _ (Some (status, _)) cfg \<Rightarrow>
         status = 401 \<and> \<not> is_user_endpoint (r_url cfg) \<and> \<not> starts_with (w_pathname w) ''/login''
     | _ \<Rightarrow> False)"

definition on_rejected :: "api_error \<Rightarrow> web \<Rightarrow> (api_error + response) \<times> web" where
  "on_rejected e w =
     (if ends_session e w then
        (case auth_logout (w_auth w) of
           (Returned _, s) \<Rightarrow> (Inl e, w\<lparr>w_auth := s, w_hrefs := w_hrefs w @ [''/login'']\<rparr>)
         | (Thrown x, s) \<Rightarrow> (Inl (ScriptError (error_text x)), w\<lparr>w_auth := s\<rparr>))
      else (Inl e, w))"

definition apiClient :: "web axios_instance" where
  "apiClient =
     (let inst = axios_create client_config in
      inst\<lparr>a_request := snd (i_use \<lparr>i_fulfilled = Some attach_token, i_rejected = None\<rparr> (a_request inst)),
           a_response := snd (i_use \<lparr>i_fulfilled = Some (\<lambda>res w. (Inr res, w)),
             i_rejected = Some on_rejected\<rparr> (a_response inst))\<rparr>)"

section \<open>Reading responses\<close>

text \<open>\<open>response.data.data\<close>: \<open>None\<close> is \<open>undefined\<close>; a body that is \<open>null\<close> has no properties.\<close>

definition unwrap :: "response \<Rightarrow> api_error + json option" where
  "unwrap p = (if p_data p = JNull then Inl (ScriptError ''TypeError'') else Inr (json_prop (p_data p) ''data''))"

definition or_empty :: "api_error + json option \<Rightarrow> api_error + json option" where
  "or_empty r = (case r of
       Inr None \<Rightarrow> Inr (Some (JArr []))
     | Inr (Some JNull) \<Rightarrow> Inr (Some (JArr []))
     | _ \<Rightarrow> r)"

definition discard :: "response \<Rightarrow> api_error + json option" where
  "discard p = Inr None"

record endpoint =
  e_config :: axios_config
  e_read :: "response \<Rightarrow> api_error + json option"

definition page_params :: "int \<Rightarrow> int \<Rightarrow> axios_config" where
  "page_params limit offset = empty_config\<lparr>c_params := Some [(''limit'', PNum limit), (''offset'', PNum offset)]\<rparr>"

section \<open>Endpoints\<close>

definition api_login :: "string \<Rightarrow> string \<Rightarrow> endpoint" where
  "api_login login password =
     \<lparr>e_config = body_config ''post'' ''/auth/login''
        (JObj [(''login'', JStr login), (''password'', JStr password)]) empty_config,
      e_read = unwrap\<rparr>"

definition api_register :: "string \<Rightarrow> string \<Rightarrow> string \<Rightarrow> endpoint" where
  "api_register username email password =
     \<lparr>e_config = body_config ''post'' ''/auth/register''
        (JObj [(''username'', JStr username), (''email'', JStr email), (''password'', JStr password)]) empty_config,
      e_read = unwrap\<rparr>"

definition getCurrentUser :: "json option \<Rightarrow> endpoint" where
  "getCurrentUser token =
     \<lparr>e_config = method_config ''get'' ''/user''
        (case token of
           None \<Rightarrow> empty_config
         | Some t \<Rightarrow> if \<not> json_truthy t then empty_config
             else empty_config\<lparr>c_headers := Some (empty_headers\<lparr>h_own :=
               [(''Authorization'', HStr (''Bearer '' @ json_to_string t))]\<rparr>)\<rparr>),
      e_read = unwrap\<rparr>"

text \<open>The members of a payload that are not \<open>undefined\<close>.\<close>

definition json_fields :: "(string \<times> json option) list \<Rightarrow> json" where
  "json_fields fs = JObj (List.map_filter (\<lambda>(k, v). map_option (\<lambda>j. (k, j)) v) fs)"

definition updateProfile :: "(string \<times> json option) list \<Rightarrow> endpoint" where
  "updateProfile params =
     \<lparr>e_config = body_config ''patch'' ''/user'' (json_fields params) empty_config, e_read = unwrap\<rparr>"

definition getMyRepos :: "int \<Rightarrow> int \<Rightarrow> endpoint" where
  "getMyRepos limit offset =
     \<lparr>e_config = method_config ''get'' ''/user/repos'' (page_params limit offset), e_read = or_empty \<circ> unwrap\<rparr>"

definition getReposByUser :: "string \<Rightarrow> int \<Rightarrow> int \<Rightarrow> endpoint" where
  "getReposByUser username limit offset =
     \<lparr>e_config = method_config ''get'' (''/users/'' @ username @ ''/repos'') (page_params limit offset),
      e_read = or_empty \<circ> unwrap\<rparr>"

definition getRepo :: "string \<Rightarrow> string \<Rightarrow> endpoint" where
  "getRepo owner repo =
     \<lparr>e_config = method_config ''get'' (''/repos/'' @ owner @ ''/'' @ repo) empty_config, e_read = unwrap\<rparr>"

definition createRepo :: "json \<Rightarrow> endpoint" where
  "createRepo input = \<lparr>e_config = body_config ''post'' ''/user/repos'' input empty_config, e_read = unwrap\<rparr>"

definition deleteRepo :: "string \<Rightarrow> string \<Rightarrow> endpoint" where
  "deleteRepo owner repo =
     \<lparr>e_config = method_config ''delete'' (''/repos/'' @ owner @ ''/'' @ repo) empty_config, e_read = discard\<rparr>"

definition getPublicRepos :: "int \<Rightarrow> int \<Rightarrow> endpoint" where
  "getPublicRepos limit offset =
     \<lparr>e_config = method_config ''get'' ''/explore/repos'' (page_params limit offset), e_read = or_empty \<circ> unwrap\<rparr>"

definition getTree :: "string \<Rightarrow> string \<Rightarrow> string \<Rightarrow> string option \<Rightarrow> endpoint" where
  "getTree owner repo ref path =
     \<lparr>e_config = method_config ''get'' (''/repos/'' @ owner @ ''/'' @ repo @ ''/tree/'' @ ref)
        (case path of
           None \<Rightarrow> empty_config
         | Some p \<Rightarrow> if p = [] then empty_config else empty_config\<lparr>c_params := Some [(''path'', PStr p)]\<rparr>),
      e_read = unwrap\<rparr>"

definition getBlob :: "string \<Rightarrow> string \<Rightarrow> string \<Rightarrow> string \<Rightarrow> endpoint" where
  "getBlob owner repo ref path =
     \<lparr>e_config = method_config ''get''
        (''/repos/'' @ owner @ ''/'' @ repo @ ''/blob/'' @ ref @ ''/'' @ path) empty_config,
      e_read = unwrap\<rparr>"

definition getCommits :: "string \<Rightarrow> string \<Rightarrow> string \<Rightarrow> int \<Rightarrow> int \<Rightarrow> endpoint" where
  "getCommits owner repo ref limit offset =
     \<lparr>e_config = method_config ''get'' (''/repos/'' @ owner @ ''/'' @ repo @ ''/commits/'' @ ref)
        (page_params limit offset),
      e_read = or_empty \<circ> unwrap\<rparr>"

definition getBranches :: "string \<Rightarrow> string \<Rightarrow> endpoint" where
  "getBranches owner repo =
     \<lparr>e_config = method_config ''get'' (''/repos/'' @ owner @ ''/'' @ repo @ ''/branches'') empty_config,
      e_read = or_empty \<circ> unwrap\<rparr>"

definition createPAT :: "string \<Rightarrow> string list \<Rightarrow> json option \<Rightarrow> endpoint" where
  "createPAT name scopes expires_at =
     \<lparr>e_config = body_config ''post'' ''/user/tokens''
        (json_fields [(''name'', Some (JStr name)), (''scopes'', Some (JArr (map JStr scopes))),
           (''expires_at'', expires_at)]) empty_config,
      e_read = unwrap\<rparr>"

definition listPATs :: endpoint where
  "listPATs = \<lparr>e_config = method_config ''get'' ''/user/tokens'' empty_config, e_read = or_empty \<circ> unwrap\<rparr>"

definition revokePAT :: "string \<Rightarrow> endpoint" where
  "revokePAT ident =
     \<lparr>e_config = method_config ''delete'' (''/user/tokens/'' @ ident) empty_config, e_read = discard\<rparr>"

definition getMyActivity :: "int \<Rightarrow> endpoint" where
  "getMyActivity limit =
     \<lparr>e_config = method_config ''get'' ''/user/activity''
        (empty_config\<lparr>c_params := Some [(''limit'', PNum limit)]\<rparr>),
      e_read = or_empty \<circ> unwrap\<rparr>"

section \<open>Calls\<close>

text \<open>
  \<open>api_send\<close> runs a call up to the message it sends, \<open>api_receive\<close> from the report of the browser
  to the value of the endpoint function; in between the world may change. \<open>api_call\<close> is a call
  with nothing in between.
\<close>

definition api_send :: "string option \<Rightarrow> endpoint \<Rightarrow> web \<Rightarrow> (api_error + request \<times> xhr_message) \<times> web" where
  "api_send xsrf e w = axios_send apiClient xsrf (e_config e) w"

definition api_receive :: "endpoint \<Rightarrow> request \<Rightarrow> net_result \<Rightarrow> web \<Rightarrow> (api_error + json option) \<times> web" where
  "api_receive e r res w =
     (case axios_receive apiClient r res w of
        (Inl err, w') \<Rightarrow> (Inl err, w')
      | (Inr p, w') \<Rightarrow> (e_read e p, w'))"

definition api_call ::
    "(xhr_message \<Rightarrow> net_result) \<Rightarrow> string option \<Rightarrow> endpoint \<Rightarrow> web \<Rightarrow> (api_error + json option) \<times> web" where
  "api_call net xsrf e w =
     (case api_send xsrf e w of
        (Inl err, w') \<Rightarrow> (Inl err, w')
      | (Inr (r, msg), w') \<Rightarrow> api_receive e r (net msg) w')"

section \<open>The headers of a call\<close>

abbreviation accept_value :: header_value where
  "accept_value \<equiv> HStr ''application/json, text/plain, */*''"

abbreviation json_type :: header_value where
  "json_type \<equiv> HStr ''application/json''"

lemma known_values [simp]:
  "sanitizeHeaderValue ''application/json, text/plain, */*'' = ''application/json, text/plain, */*''"
  "sanitizeHeaderValue ''application/json'' = ''application/json''"
  "str_includes ''application/json'' ''application/json''"
  by code_simp+

text \<open>The header groups every call of the application starts from.\<close>

definition auth_headers :: "header_config option \<Rightarrow> string option" where
  "auth_headers h = (case h of None \<Rightarrow> None | Some x \<Rightarrow> (case h_own x of
       [] \<Rightarrow> None | (k, v) # _ \<Rightarrow> Some (header_text v)))"

definition plain_headers :: "header_config option \<Rightarrow> bool" where
  "plain_headers h = (case h of None \<Rightarrow> True | Some x \<Rightarrow> h_common x = [] \<and> h_method x = []
     \<and> (h_own x = [] \<or> (\<exists>v. h_own x = [(''Authorization'', HStr v)])))"

lemma client_defaults:
  "c_headers (a_defaults apiClient) = Some \<lparr>h_common = [(''Accept'', accept_value), (''Content-Type'', HUndef)],
     h_method = [(''delete'', []), (''get'', []), (''head'', []), (''post'', []), (''put'', []), (''patch'', []),
       (''query'', [])], h_own = [(''Content-Type'', json_type)]\<rparr>"
  "c_baseURL (a_defaults apiClient) = Some ''/api/v1''" "c_timeout (a_defaults apiClient) = Some 15000"
  "c_method (a_defaults apiClient) = None" "c_params (a_defaults apiClient) = None"
  by (simp_all add: apiClient_def axios_create_def client_config_def axios_defaults_def empty_config_def
      empty_headers_def mergeConfig_def merge_headers_def merge_flat_def merge_methods_def default_to_def
      merge_params_def findKey_def header_names i_use_def opt_list_def Let_def)

lemma prepared_headers:
  assumes "plain_headers (c_headers cfg)" and "m \<in> {''get'', ''post'', ''patch'', ''delete''}"
    and "c_method cfg = Some m"
  shows "r_headers (prepare_request (a_defaults apiClient) cfg)
    = [(''Accept'', accept_value), (''Content-Type'', json_type)]
      @ (case auth_headers (c_headers cfg) of None \<Rightarrow> [] | Some v \<Rightarrow> [(''Authorization'', HStr (sanitizeHeaderValue v))])"
    and "r_method (prepare_request (a_defaults apiClient) cfg) = m"
proof -
  have low: "to_lower m = m" using assms(2) by (elim insertE emptyE; simp only:; code_simp)
  then show "r_method (prepare_request (a_defaults apiClient) cfg) = m"
    using assms(3) by (simp add: prepare_request_def mergeConfig_def Let_def)
  obtain own where own: "c_headers cfg = None \<and> own = [] \<or> c_headers cfg = Some \<lparr>h_common = [], h_method = [], h_own = own\<rparr>"
    and cases: "own = [] \<or> (\<exists>v. own = [(''Authorization'', HStr v)])"
  proof (cases "c_headers cfg")
    case (Some h)
    with assms(1) that [of "h_own h"] show ?thesis by (cases h) (auto simp: plain_headers_def)
  qed (use that [of "[]"] in simp)
  have groups: "opt_list (al_get [(''delete'', []), (''get'', []), (''head'', []), (''post'', []), (''put'', []), (''patch'', []),
       (''query'', [])] m) = ([] :: headers)"
    using assms(2) by (auto simp: opt_list_def)
  show "r_headers (prepare_request (a_defaults apiClient) cfg)
    = [(''Accept'', accept_value), (''Content-Type'', json_type)]
      @ (case auth_headers (c_headers cfg) of None \<Rightarrow> [] | Some v \<Rightarrow> [(''Authorization'', HStr (sanitizeHeaderValue v))])"
    using own cases assms(3) low groups
    by (auto simp: prepare_request_def mergeConfig_def client_defaults merge_headers_def merge_flat_def
        merge_methods_def ah_concat_def ah_set_all_def ah_set_def findKey_def header_names
        normalizeValue_def auth_headers_def header_text_def Let_def)
qed

definition header_shape :: "string option \<Rightarrow> headers" where
  "header_shape v = [(''Accept'', accept_value), (''Content-Type'', json_type)]
     @ (case v of None \<Rightarrow> [] | Some x \<Rightarrow> [(''Authorization'', HStr x)])"

lemma header_shape_normalize [simp]:
  "ah_normalize (header_shape v) = header_shape (map_option sanitizeHeaderValue v)"
  by (cases v) (simp_all add: header_shape_def normalizeValue_def)

lemma header_shape_content_type [simp]:
  "ah_get ''Content-Type'' (header_shape v) = json_type"
  "ah_set ''Content-Type'' x (Some False) (header_shape v) = header_shape v"
  by (cases v; simp add: header_shape_def ah_get_def ah_set_def findKey_def header_names)+

lemma dispatch_shape:
  "r_headers r = header_shape v \<Longrightarrow>
    dispatch_headers r = (stringifySafely (r_data r), header_shape (map_option sanitizeHeaderValue v))"
  by (cases v) (simp_all add: dispatch_headers_def transformRequest_def header_text_def Let_def)

lemma al_get_map_filter_toJSON:
  "al_get (ah_toJSON hs) k = (case al_get hs k of Some (HStr s) \<Rightarrow> Some s | _ \<Rightarrow> None)"
  if "distinct (map fst hs)"
  using that
proof (induction hs)
  case (Cons p hs)
  obtain k' v where p: "p = (k', v)" by force
  have "k' \<notin> fst ` set hs" using Cons.prems p by simp
  then have "al_get hs k' = None" using al_has_iff [of hs k'] by (simp add: al_has_def)
  with Cons p show ?case
    by (cases v) (auto simp: ah_toJSON_def map_filter_simps split: option.splits header_value.splits)
qed (simp add: ah_toJSON_def map_filter_simps)

lemma sent_headers:
  assumes "r_headers r = header_shape v"
  shows "al_get (x_headers (xhr_send xsrf r)) ''Authorization'' = map_option sanitizeHeaderValue v"
    and "x_body (xhr_send xsrf r) = stringifySafely (r_data r)"
    and "x_method (xhr_send xsrf r) = to_upper (r_method r)"
    and "x_url (xhr_send xsrf r) = buildURL (buildFullPath (r_baseURL r) (r_url r) True) (r_params r)"
    and "x_timeout (xhr_send xsrf r) = r_timeout r"
proof -
  show "x_body (xhr_send xsrf r) = stringifySafely (r_data r)"
    "x_method (xhr_send xsrf r) = to_upper (r_method r)"
    "x_url (xhr_send xsrf r) = buildURL (buildFullPath (r_baseURL r) (r_url r) True) (r_params r)"
    "x_timeout (xhr_send xsrf r) = r_timeout r"
    by (simp_all add: xhr_send_def dispatch_shape [OF assms] Let_def)
  show "al_get (x_headers (xhr_send xsrf r)) ''Authorization'' = map_option sanitizeHeaderValue v"
  proof (cases v)
    case None
    then show ?thesis
      by (cases xsrf) (auto simp: xhr_send_def dispatch_shape [OF assms] header_shape_def ah_set_def findKey_def
          header_names normalizeValue_def al_get_map_filter_toJSON Let_def)
  next
    case (Some x)
    then show ?thesis
      by (cases xsrf) (auto simp: xhr_send_def dispatch_shape [OF assms] header_shape_def ah_set_def findKey_def
          header_names normalizeValue_def al_get_map_filter_toJSON Let_def)
  qed
qed

section \<open>Facts on calls\<close>

text \<open>The calls the application makes: one of four methods, and no header but an authorization.\<close>

definition app_endpoint :: "endpoint \<Rightarrow> bool" where
  "app_endpoint e = (plain_headers (c_headers (e_config e)) \<and> c_baseURL (e_config e) = None
     \<and> (\<exists>m \<in> {''get'', ''post'', ''patch'', ''delete''}. c_method (e_config e) = Some m))"

definition store_bearer :: "web \<Rightarrow> string option" where
  "store_bearer w = (let t = auth_field (w_auth w) ''token'' in
     if js_truthy t then Some (''Bearer '' @ js_to_string t) else None)"

definition sent_bearer :: "endpoint \<Rightarrow> web \<Rightarrow> string option" where
  "sent_bearer e w = (case store_bearer w of
       Some b \<Rightarrow> Some b
     | None \<Rightarrow> map_option sanitizeHeaderValue (auth_headers (c_headers (e_config e))))"

lemma al_set_shape: "al_set (header_shape v) ''Authorization'' (HStr x) = header_shape (Some x)"
  by (cases v) (simp_all add: header_shape_def)

lemma api_send_eq:
  assumes "app_endpoint e"
  shows "\<exists>r. api_send xsrf e w = (Inr (r, xhr_send xsrf r), w)
    \<and> r_headers r = header_shape (sent_bearer e w)
    \<and> r_url r = opt_list (c_url (e_config e)) \<and> r_data r = c_data (e_config e)
    \<and> r_params r = c_params (e_config e) \<and> r_baseURL r = Some ''/api/v1'' \<and> r_timeout r = 
        (case c_timeout (e_config e) of None \<Rightarrow> 15000 | Some t \<Rightarrow> t)
    \<and> Some (r_method r) = c_method (e_config e)"
proof -
  let ?p = "prepare_request (a_defaults apiClient) (e_config e)"
  obtain m where m: "m \<in> {''get'', ''post'', ''patch'', ''delete''}" "c_method (e_config e) = Some m"
    and plain: "plain_headers (c_headers (e_config e))" and base: "c_baseURL (e_config e) = None"
    using assms by (auto simp: app_endpoint_def)
  note prep = prepared_headers [OF plain m]
  have fields: "r_url ?p = opt_list (c_url (e_config e))" "r_data ?p = c_data (e_config e)"
    "r_params ?p = c_params (e_config e)" "r_baseURL ?p = Some ''/api/v1''"
    "r_timeout ?p = (case c_timeout (e_config e) of None \<Rightarrow> 15000 | Some t \<Rightarrow> t)"
    using base by (simp_all add: prepare_request_def mergeConfig_def client_defaults merge_params_def
        default_to_def Let_def split: option.splits)
  have shape: "r_headers ?p = header_shape (map_option sanitizeHeaderValue (auth_headers (c_headers (e_config e))))"
    unfolding prep(1) header_shape_def by (simp split: option.splits)
  have chain: "i_handlers (a_request apiClient) = [\<lparr>i_fulfilled = Some attach_token, i_rejected = None\<rparr>]"
    by (simp add: apiClient_def axios_create_def i_use_def i_handlers_def map_filter_simps Let_def)
  let ?r = "case store_bearer w of None \<Rightarrow> ?p
    | Some b \<Rightarrow> ?p\<lparr>r_headers := header_shape (Some b)\<rparr>"
  have "api_send xsrf e w = (Inr (?r, xhr_send xsrf ?r), w)"
    by (simp add: api_send_def axios_send_def chain run_chain_def promise_then_def attach_token_def
        store_bearer_def shape al_set_shape Let_def)
  moreover have "r_headers ?r = header_shape (sent_bearer e w)"
    by (simp add: sent_bearer_def shape split: option.splits)
  ultimately show ?thesis
    using fields prep(2) m(2) by (intro exI [of _ ?r]) (auto split: option.splits)
qed

lemma api_receive_eq:
  "api_receive e r res w =
    (case xhr_receive r res of
       Inr p \<Rightarrow> (e_read e p, w)
     | Inl err \<Rightarrow> (case on_rejected err w of (Inl x, w') \<Rightarrow> (Inl x, w') | (Inr p, w') \<Rightarrow> (e_read e p, w')))"
proof -
  have chain: "i_handlers (a_response apiClient)
      = [\<lparr>i_fulfilled = Some (\<lambda>res w. (Inr res, w)), i_rejected = Some on_rejected\<rparr>]"
    by (simp add: apiClient_def axios_create_def i_use_def i_handlers_def map_filter_simps Let_def)
  show ?thesis
    by (simp add: api_receive_def axios_receive_def chain run_chain_def promise_then_def
        split: sum.splits prod.splits)
qed

section \<open>Facts on endpoints\<close>

lemmas endpoint_defs = api_login_def api_register_def getCurrentUser_def updateProfile_def getMyRepos_def
  getReposByUser_def getRepo_def createRepo_def deleteRepo_def getPublicRepos_def getTree_def getBlob_def
  getCommits_def getBranches_def createPAT_def listPATs_def revokePAT_def getMyActivity_def

lemmas config_defs = method_config_def body_config_def empty_config_def empty_headers_def page_params_def
  mergeConfig_def merge_headers_def merge_flat_def merge_methods_def default_to_def merge_params_def

lemma endpoints_app [simp]:
  "app_endpoint (api_login l p)" "app_endpoint (api_register n m p)" "app_endpoint (getCurrentUser t)"
  "app_endpoint (updateProfile ps)" "app_endpoint (getMyRepos a b)" "app_endpoint (getReposByUser n a b)"
  "app_endpoint (getRepo n r)" "app_endpoint (createRepo j)" "app_endpoint (deleteRepo n r)"
  "app_endpoint (getPublicRepos a b)" "app_endpoint (getTree n r f q)" "app_endpoint (getBlob n r f x)"
  "app_endpoint (getCommits n r f a b)" "app_endpoint (getBranches n r)" "app_endpoint (createPAT x ss d)"
  "app_endpoint listPATs" "app_endpoint (revokePAT x)" "app_endpoint (getMyActivity a)"
  by (simp_all add: app_endpoint_def endpoint_defs config_defs plain_headers_def
      split: option.splits)

lemma store_bearer_token:
  "auth_field (w_auth w) ''token'' = Data (JStr t) \<Longrightarrow> t \<noteq> [] \<Longrightarrow> store_bearer w = Some (''Bearer '' @ t)"
  by (simp add: store_bearer_def js_truthy_def json_truthy_def js_to_string_def)

lemma sent_store_token:
  assumes "app_endpoint e" and "auth_field (w_auth w) ''token'' = Data (JStr t)" and "t \<noteq> []"
  shows "\<exists>r. api_send xsrf e w = (Inr (r, xhr_send xsrf r), w)
    \<and> al_get (x_headers (xhr_send xsrf r)) ''Authorization'' = Some (sanitizeHeaderValue (''Bearer '' @ t))"
proof -
  obtain r where r: "api_send xsrf e w = (Inr (r, xhr_send xsrf r), w)" "r_headers r = header_shape (sent_bearer e w)"
    using api_send_eq [OF assms(1)] by blast
  moreover have "sent_bearer e w = Some (''Bearer '' @ t)"
    by (simp add: sent_bearer_def store_bearer_token [OF assms(2,3)])
  ultimately show ?thesis using sent_headers(1) [OF r(2), of xsrf] by auto
qed

lemma on_rejected_inv:
  assumes "auth_inv m p (w_auth w)" and "ends_session e w" and "on_rejected e w = (x, w')"
  shows "isl x \<and> auth_inv Anonymous (if w_hrefs w' = w_hrefs w then p else Some Anonymous) (w_auth w')
    \<and> w_pathname w' = w_pathname w
    \<and> (w_hrefs w' = w_hrefs w @ [''/login''] \<or> (w_hrefs w' = w_hrefs w \<and> x \<noteq> Inl e))"
proof -
  obtain r s' where step: "auth_step Logout (w_auth w) = (r, s')" by force
  then have out: "auth_logout (w_auth w) = (r, s')" by (simp add: auth_step_def)
  from auth_step_inv [OF assms(1) _ step]
  have inv: "auth_inv Anonymous (if r = Returned () then Some Anonymous else p) s'"
    by (auto simp: op_good_def abs_step_def op_session_def op_writes_def)
  show ?thesis
  proof (cases r)
    case (Returned u)
    with out assms(2,3) inv show ?thesis by (auto simp: on_rejected_def)
  next
    case (Thrown z)
    have "e \<noteq> ScriptError (error_text z)" using assms(2) by (auto simp: ends_session_def)
    with Thrown out assms(2,3) inv show ?thesis by (auto simp: on_rejected_def)
  qed
qed

lemma api_receive_ends:
  assumes "snd (api_receive e r res w) \<noteq> w"
  obtains body where "res = NetResponse 401 body" and "\<not> is_user_endpoint (r_url r)"
    and "\<not> starts_with (w_pathname w) ''/login''"
proof -
  from assms obtain err where err: "xhr_receive r res = Inl err" and "snd (on_rejected err w) \<noteq> w"
    by (auto simp: api_receive_eq split: sum.splits prod.splits)
  then have ends: "ends_session err w" by (auto simp: on_rejected_def split: if_splits)
  obtain body where "res = NetResponse 401 body" "err = AxiosErr ''ERR_BAD_REQUEST'' (Some (401, transformResponse body)) r"
    using err ends
    by (cases res) (auto simp: xhr_receive_def settle_def ends_session_def split: if_splits)
  with ends that show ?thesis by (simp add: ends_session_def)
qed

lemma receive_exempt:
  assumes "is_user_endpoint (r_url r)"
  shows "snd (api_receive e r res w) = w"
proof (rule ccontr)
  assume "snd (api_receive e r res w) \<noteq> w"
  then show False by (rule api_receive_ends) (use assms in simp)
qed

lemma receive_401:
  "xhr_receive r (NetResponse 401 body) = Inl (AxiosErr ''ERR_BAD_REQUEST'' (Some (401, transformResponse body)) r)"
  by (simp add: xhr_receive_def settle_def validateStatus_def)

section \<open>Properties\<close>

text \<open>C15. Every call of the application that is made while the store holds a token sends that token:
  it reads the store when the request is made, and no call is sent without it.\<close>

theorem api_sends_stored_token:
  assumes "app_endpoint e" and "auth_field (w_auth w) ''token'' = Data (JStr t)" and "t \<noteq> []"
  shows "\<exists>r. api_send xsrf e w = (Inr (r, xhr_send xsrf r), w)
    \<and> al_get (x_headers (xhr_send xsrf r)) ''Authorization'' = Some (sanitizeHeaderValue (''Bearer '' @ t))"
  using assms by (rule sent_store_token)

definition logged_in :: web where
  "logged_in = \<lparr>w_auth = snd (auth_login (JStr ''old'') (JStr ''u'') (useAuthStore True empty_disk)),
     w_pathname = ''/'', w_hrefs = []\<rparr>"

lemma logged_in_token: "auth_field (w_auth logged_in) ''token'' = Data (JStr ''old'')"
  by code_simp

lemma api_sends_stored_token_witness:
  "\<exists>r. al_get (x_headers (xhr_send None r)) ''Authorization'' = Some ''Bearer old''"
proof -
  have "sanitizeHeaderValue (''Bearer '' @ ''old'') = ''Bearer old''" by code_simp
  then show ?thesis
    using api_sends_stored_token [OF endpoints_app(5) logged_in_token, of None] by auto
qed

text \<open>\<open>getCurrentUser(token)\<close> does not ask for the owner of \<open>token\<close> when the store still holds
  another token: the request interceptor overwrites the header the call passes, so the server is
  asked with the stored token. Only with an empty store the passed token is sent.\<close>

theorem getCurrentUser_overridden:
  assumes "t \<noteq> []" and "u \<noteq> []"
  shows "(auth_field (w_auth w) ''token'' = Data (JStr t) \<longrightarrow>
      (\<exists>r. fst (api_send xsrf (getCurrentUser (Some (JStr u))) w) = Inr (r, xhr_send xsrf r)
        \<and> al_get (x_headers (xhr_send xsrf r)) ''Authorization'' = Some (sanitizeHeaderValue (''Bearer '' @ t))))
    \<and> (\<not> js_truthy (auth_field (w_auth w) ''token'') \<longrightarrow>
      (\<exists>r. fst (api_send xsrf (getCurrentUser (Some (JStr u))) w) = Inr (r, xhr_send xsrf r)
        \<and> al_get (x_headers (xhr_send xsrf r)) ''Authorization'' = Some (sanitizeHeaderValue (''Bearer '' @ u))))"
proof (intro conjI impI)
  show "auth_field (w_auth w) ''token'' = Data (JStr t) \<Longrightarrow>
      \<exists>r. fst (api_send xsrf (getCurrentUser (Some (JStr u))) w) = Inr (r, xhr_send xsrf r)
        \<and> al_get (x_headers (xhr_send xsrf r)) ''Authorization'' = Some (sanitizeHeaderValue (''Bearer '' @ t))"
    using sent_store_token [OF endpoints_app(3) _ assms(1), of w xsrf "Some (JStr u)"] by auto
next
  assume none: "\<not> js_truthy (auth_field (w_auth w) ''token'')"
  let ?e = "getCurrentUser (Some (JStr u))"
  obtain r where r: "api_send xsrf ?e w = (Inr (r, xhr_send xsrf r), w)" "r_headers r = header_shape (sent_bearer ?e w)"
    using api_send_eq [OF endpoints_app(3)] by blast
  have "auth_headers (c_headers (e_config ?e)) = Some (''Bearer '' @ u)"
    using assms(2) by (simp add: getCurrentUser_def config_defs auth_headers_def json_truthy_def header_text_def)
  then have "sent_bearer ?e w = Some (sanitizeHeaderValue (''Bearer '' @ u))"
    using none by (simp add: sent_bearer_def store_bearer_def)
  with r sent_headers(1) [OF r(2), of xsrf]
  show "\<exists>r. fst (api_send xsrf ?e w) = Inr (r, xhr_send xsrf r)
        \<and> al_get (x_headers (xhr_send xsrf r)) ''Authorization'' = Some (sanitizeHeaderValue (''Bearer '' @ u))"
    by auto
qed

lemma getCurrentUser_overridden_witness:
  "\<exists>r. fst (api_send None (getCurrentUser (Some (JStr ''new''))) logged_in) = Inr (r, xhr_send None r)
     \<and> al_get (x_headers (xhr_send None r)) ''Authorization'' = Some ''Bearer old''"
proof -
  have "sanitizeHeaderValue (''Bearer '' @ ''old'') = ''Bearer old''" by code_simp
  then show ?thesis
    using getCurrentUser_overridden [of "''old''" "''new''" logged_in None] logged_in_token by auto
qed

text \<open>C13. A 401 ends the session: unless the URL ends in \<open>/user\<close> or the page is below \<open>/login\<close>, the
  response interceptor empties the store, and then sends the browser to \<open>/login\<close> unless the
  storage refused the write; in every case the caller gets an error.\<close>

theorem api_401_ends_session:
  assumes "auth_inv m p (w_auth w)" and "\<not> is_user_endpoint (r_url r)"
    and "\<not> starts_with (w_pathname w) ''/login''"
    and "api_receive e r (NetResponse 401 body) w = (x, w')"
  shows "isl x \<and> auth_field (w_auth w') ''isAuthenticated'' = Data (JBool False)
    \<and> \<not> js_truthy (auth_field (w_auth w') ''token'')
    \<and> (w_hrefs w' = w_hrefs w @ [''/login''] \<or> (w_hrefs w' = w_hrefs w \<and> (\<exists>t. x = Inl (ScriptError t))))"
proof -
  let ?err = "AxiosErr ''ERR_BAD_REQUEST'' (Some (401, transformResponse body)) r"
  obtain y w1 where rej: "on_rejected ?err w = (y, w1)" by force
  have ends: "ends_session ?err w" using assms(2,3) by (simp add: ends_session_def)
  from on_rejected_inv [OF assms(1) ends rej] have y: "isl y" "\<exists>q. auth_inv Anonymous q (w_auth w1)"
    and refs: "w_hrefs w1 = w_hrefs w @ [''/login''] \<or> (w_hrefs w1 = w_hrefs w \<and> y \<noteq> Inl ?err)" by auto
  obtain z where z: "y = Inl z" using y(1) by (cases y) auto
  have "z = ?err \<or> (\<exists>t. z = ScriptError t)"
    using rej ends z by (auto simp: on_rejected_def split: prod.splits outcome.splits)
  moreover have "x = Inl z" "w' = w1"
    using assms(4) z rej by (simp_all add: api_receive_eq receive_401)
  moreover from y(2) obtain q where "auth_inv Anonymous q (w_auth w1)" ..
  then have "auth_field (w_auth w1) ''isAuthenticated'' = Data (JBool False)
      \<and> \<not> js_truthy (auth_field (w_auth w1) ''token'')"
    using auth_inv_fields by fastforce
  ultimately show ?thesis using refs z by auto
qed

lemma logged_in_inv: "\<exists>m p. auth_inv m p (w_auth logged_in)"
proof -
  let ?s = "useAuthStore True empty_disk"
  obtain r s' where step: "auth_step (Login (JStr ''old'') (JStr ''u'')) ?s = (r, s')" by force
  have start: "auth_inv Anonymous None ?s"
    by (rule auth_inv_start) (simp add: empty_disk_def ls_getItem_def)
  have good: "op_good (Login (JStr ''old'') (JStr ''u''))" by (simp add: op_good_def session_good_def json_truthy_def)
  have "w_auth logged_in = s'" using step by (simp add: logged_in_def auth_step_def)
  with auth_step_inv [OF start good step] show ?thesis by blast
qed

definition probe :: request where
  "probe = \<lparr>r_url = ''/user/repos'', r_method = ''get'', r_data = None, r_baseURL = None, r_params = None,
     r_timeout = 0, r_headers = []\<rparr>"

lemma api_401_ends_session_witness:
  "auth_field (w_auth (snd (api_receive listPATs probe (NetResponse 401 []) logged_in))) ''isAuthenticated''
     = Data (JBool False)"
proof -
  obtain m p where inv: "auth_inv m p (w_auth logged_in)" using logged_in_inv by blast
  obtain x w' where call: "api_receive listPATs probe (NetResponse 401 []) logged_in = (x, w')" by force
  have "\<not> is_user_endpoint (r_url probe)" "\<not> starts_with (w_pathname logged_in) ''/login''" by code_simp+
  from api_401_ends_session [OF inv this call] call show ?thesis by simp
qed

text \<open>C14. Nothing but such a 401 touches the session: whatever the network reports for a request, the
  store and the address stay as they were unless the report is a response with status 401, the
  URL does not end in \<open>/user\<close>, and the page is not below \<open>/login\<close>.\<close>

theorem api_only_401:
  assumes "snd (api_receive e r res w) \<noteq> w"
  shows "(\<exists>body. res = NetResponse 401 body) \<and> \<not> is_user_endpoint (r_url r)
    \<and> \<not> starts_with (w_pathname w) ''/login''"
  using assms by (rule api_receive_ends) auto

lemma api_only_401_witness:
  "snd (api_receive listPATs probe (NetResponse 401 []) logged_in) \<noteq> logged_in
    \<and> \<not> is_user_endpoint (r_url probe)"
proof -
  have "auth_field (w_auth (snd (api_receive listPATs probe (NetResponse 401 []) logged_in))) ''token'' = Data JNull"
    by code_simp
  then have "snd (api_receive listPATs probe (NetResponse 401 []) logged_in) \<noteq> logged_in"
    using logged_in_token by auto
  with api_only_401 [OF this] show ?thesis by simp
qed

text \<open>The exemption is wider than the validation probe it is meant for: a 401 for any repository
  called \<open>user\<close>, whoever owns it, leaves the expired session in place.\<close>

theorem api_401_repo_named_user:
  "\<exists>r. fst (api_send xsrf (getRepo owner ''user'') w) = Inr (r, xhr_send xsrf r)
    \<and> snd (api_receive (getRepo owner ''user'') r (NetResponse 401 body) w) = w"
proof -
  obtain r where r: "api_send xsrf (getRepo owner ''user'') w = (Inr (r, xhr_send xsrf r), w)"
    "r_url r = opt_list (c_url (e_config (getRepo owner ''user'')))"
    using api_send_eq [OF endpoints_app(7)] by blast
  have "opt_list (c_url (e_config (getRepo owner ''user''))) = (''/repos/'' @ owner) @ ''/user''"
    by (simp add: getRepo_def config_defs opt_list_def)
  with r(2) have "is_user_endpoint (r_url r)"
    by (simp only: is_user_endpoint_def ends_with_suffix) (simp add: suffix_def)
  then have "snd (api_receive (getRepo owner ''user'') r (NetResponse 401 body) w) = w"
    by (rule receive_exempt)
  with r(1) show ?thesis by auto
qed

text \<open>A path is sent so that the server reads exactly that path: the query of a directory
  listing decodes to the directory, whatever characters it contains.\<close>

theorem getTree_path_roundtrip:
  assumes "path \<noteq> []" and "CHR ''#'' \<notin> set (owner @ repo @ ref)" and "CHR ''?'' \<notin> set (owner @ repo @ ref)"
  shows "\<exists>r q. fst (api_send xsrf (getTree owner repo ref (Some path)) w) = Inr (r, xhr_send xsrf r)
    \<and> x_url (xhr_send xsrf r) = ''/api/v1/repos/'' @ owner @ ''/'' @ repo @ ''/tree/'' @ ref @ ''?path='' @ q
    \<and> url_decode q = path"
proof -
  let ?e = "getTree owner repo ref (Some path)" and ?u = "''/repos/'' @ owner @ ''/'' @ repo @ ''/tree/'' @ ref"
  obtain r where r: "api_send xsrf ?e w = (Inr (r, xhr_send xsrf r), w)" "r_headers r = header_shape (sent_bearer ?e w)"
    "r_url r = opt_list (c_url (e_config ?e))" "r_params r = c_params (e_config ?e)" "r_baseURL r = Some ''/api/v1''"
    using api_send_eq [OF endpoints_app(11)] by blast
  have cfg: "r_url r = ?u" "r_params r = Some [(''path'', PStr path)]"
    using assms(1) r(3,4) by (simp_all add: getTree_def config_defs opt_list_def)
  have full: "buildFullPath (Some ''/api/v1'') ?u True = ''/api/v1'' @ ?u"
    using api_path [of "CHR ''r''" "''epos/'' @ owner @ ''/'' @ repo @ ''/tree/'' @ ref"] by simp
  have key: "encode2 ''path'' = ''path''" "trim ''path'' = ''path''" by code_simp+
  have ser: "serialize_params [(''path'', PStr path)] = ''path='' @ encode2 path"
    by (simp add: serialize_params_def param_pairs_def map_filter_simps scalar_text_def key)
  have no_hash: "CHR ''#'' \<notin> set (''/api/v1'' @ ?u)" and no_q: "CHR ''?'' \<notin> set (''/api/v1'' @ ?u)"
    using assms(2,3) by auto
  have "x_url (xhr_send xsrf r) = buildURL (''/api/v1'' @ ?u) (Some [(''path'', PStr path)])"
    unfolding sent_headers(4) [OF r(2)] r(5) cfg full ..
  also have "\<dots> = (''/api/v1'' @ ?u) @ ''?'' @ ''path='' @ encode2 path"
    using buildURL_plain [OF no_hash no_q, of "[(''path'', PStr path)]"] ser by simp
  finally have "x_url (xhr_send xsrf r) = ''/api/v1/repos/'' @ owner @ ''/'' @ repo @ ''/tree/'' @ ref @ ''?path='' @ encode2 path"
    by simp
  with r(1) url_decode_encode2 [of path] show ?thesis by (metis fst_conv)
qed

lemma getTree_path_roundtrip_witness:
  "\<exists>r q. x_url (xhr_send None r) = ''/api/v1/repos/o/r/tree/main?path='' @ q \<and> url_decode q = ''a b&c''"
  using getTree_path_roundtrip [of "''a b&c''" "''o''" "''r''" "''main''" None logged_in] by auto

text \<open>References are not encoded: the history of a reference that contains a hash sign is asked for
  under the part before the sign, so two different references are sent as one and the same
  URL.\<close>

theorem getCommits_hash_collision:
  assumes "CHR ''#'' \<notin> set (owner @ repo @ ref)"
  shows "\<exists>r r'. fst (api_send xsrf (getCommits owner repo (ref @ CHR ''#'' # tail) limit offset) w) = Inr (r, xhr_send xsrf r)
    \<and> fst (api_send xsrf (getCommits owner repo ref limit offset) w) = Inr (r', xhr_send xsrf r')
    \<and> x_url (xhr_send xsrf r) = x_url (xhr_send xsrf r')"
proof -
  have url: "\<exists>r. api_send xsrf (getCommits owner repo f limit offset) w = (Inr (r, xhr_send xsrf r), w)
    \<and> x_url (xhr_send xsrf r) = buildURL (''/api/v1/repos/'' @ owner @ ''/'' @ repo @ ''/commits/'' @ f)
        (Some [(''limit'', PNum limit), (''offset'', PNum offset)])" for f
  proof -
    let ?e = "getCommits owner repo f limit offset" and ?u = "''/repos/'' @ owner @ ''/'' @ repo @ ''/commits/'' @ f"
    obtain r where r: "api_send xsrf ?e w = (Inr (r, xhr_send xsrf r), w)" "r_headers r = header_shape (sent_bearer ?e w)"
      "r_url r = opt_list (c_url (e_config ?e))" "r_params r = c_params (e_config ?e)" "r_baseURL r = Some ''/api/v1''"
      using api_send_eq [OF endpoints_app(13)] by blast
    have cfg: "r_url r = ?u" "r_params r = Some [(''limit'', PNum limit), (''offset'', PNum offset)]"
      using r(3,4) by (simp_all add: getCommits_def config_defs opt_list_def)
    have full: "buildFullPath (Some ''/api/v1'') ?u True = ''/api/v1'' @ ?u"
      using api_path [of "CHR ''r''" "''epos/'' @ owner @ ''/'' @ repo @ ''/commits/'' @ f"] by simp
    have "x_url (xhr_send xsrf r) = buildURL (''/api/v1'' @ ?u) (Some [(''limit'', PNum limit), (''offset'', PNum offset)])"
      unfolding sent_headers(4) [OF r(2)] r(5) cfg full ..
    with r(1) show ?thesis by simp
  qed
  have keys: "encode2 ''limit'' = ''limit''" "trim ''limit'' = ''limit''" by code_simp+
  have ser: "serialize_params [(''limit'', PNum limit), (''offset'', PNum offset)] \<noteq> []"
    by (simp add: serialize_params_def param_pairs_def map_filter_simps scalar_text_def keys)
  have hash: "CHR ''#'' \<notin> set (''/api/v1/repos/'' @ owner @ ''/'' @ repo @ ''/commits/'' @ ref)"
    using assms by auto
  from buildURL_fragment [OF hash ser, of tail] url [of "ref @ CHR ''#'' # tail"] url [of ref]
  show ?thesis by (metis append_assoc fst_conv)
qed

lemma getCommits_hash_collision_witness:
  "\<exists>r r'. fst (api_send None (getCommits ''o'' ''r'' ''v1#2'' 30 0) logged_in) = Inr (r, xhr_send None r)
    \<and> fst (api_send None (getCommits ''o'' ''r'' ''v1'' 30 0) logged_in) = Inr (r', xhr_send None r')
    \<and> x_url (xhr_send None r) = x_url (xhr_send None r')"
  using getCommits_hash_collision [of "''o''" "''r''" "''v1''" None "''2''"] by simp

text \<open>An endpoint that lists things never hands \<open>undefined\<close> or \<open>null\<close> to a page: a body without
  data is read as the empty list.\<close>

theorem list_endpoints_total:
  "\<forall>e \<in> {getMyRepos a b, getReposByUser n a b, getPublicRepos a b, getCommits n p f a b, getBranches n p, listPATs, getMyActivity a}.
     fst (api_receive e r res w) \<noteq> Inr None \<and> fst (api_receive e r res w) \<noteq> Inr (Some JNull)"
proof
  fix e
  assume "e \<in> {getMyRepos a b, getReposByUser n a b, getPublicRepos a b, getCommits n p f a b, getBranches n p, listPATs, getMyActivity a}"
  then have read: "e_read e = or_empty \<circ> unwrap" by (auto simp: endpoint_defs)
  have "or_empty y \<noteq> Inr None \<and> or_empty y \<noteq> Inr (Some JNull)" for y
    by (auto simp: or_empty_def split: sum.splits option.splits json.splits)
  then show "fst (api_receive e r res w) \<noteq> Inr None \<and> fst (api_receive e r res w) \<noteq> Inr (Some JNull)"
    by (auto simp: api_receive_eq read split: sum.splits prod.splits)
qed

lemma list_endpoints_total_witness:
  "fst (api_receive listPATs probe (NetResponse 200 ''{}'') logged_in) \<noteq> Inr None"
  using list_endpoints_total [of 0 0 "[]" "[]" "[]" probe "NetResponse 200 ''{}''" logged_in] by simp

end
