(* ===== verification/Router.thy ===== *)
theory Router
  imports Axios
begin

text \<open>
  The route matcher of \<open>ui/.vite/deps/react-router-dom.js\<close>: flattening a route tree into
  branches, ranking them, compiling a route pattern, matching a path against a branch, and
  resolving the target of a link. A compiled pattern is a list of tokens and a tail instead of a
  regular expression; \<open>match_toks\<close> runs it with the backtracking order of the engine (greedy, the
  longest run first), so the captures are those of \<open>String.match\<close>.

  Patterns have no question mark other than the optional marker of a segment. Paths are code
  units up to 255: an escape that denotes a larger one is treated as malformed by \<open>decode_uri\<close>.
\<close>

section \<open>Locations\<close>

record location =
  l_pathname :: "string option"
  l_search :: "string option"
  l_hash :: "string option"

definition parsePath :: "string \<Rightarrow> location" where
  "parsePath path =
     (let (p, h) = (case index_of path CHR ''#'' of
             None \<Rightarrow> (path, None) | Some i \<Rightarrow> (take i path, Some (drop i path)));
          (q, s) = (case index_of p CHR ''?'' of
             None \<Rightarrow> (p, None) | Some i \<Rightarrow> (take i p, Some (drop i p)))
      in \<lparr>l_pathname = (if q = [] then None else Some q), l_search = s, l_hash = h\<rparr>)"

definition with_mark :: "char \<Rightarrow> string \<Rightarrow> string" where
  "with_mark m s = (if s = [] \<or> s = [m] then [] else if hd s = m then s else m # s)"

definition normalizeSearch :: "string \<Rightarrow> string" where
  "normalizeSearch = with_mark CHR ''?''"

definition normalizeHash :: "string \<Rightarrow> string" where
  "normalizeHash = with_mark CHR ''#''"

definition createPath :: "string \<Rightarrow> string \<Rightarrow> string \<Rightarrow> string" where
  "createPath pathname search hash = pathname @ with_mark CHR ''?'' search @ with_mark CHR ''#'' hash"

section \<open>Slashes\<close>

text \<open>\<open>.replace(/\/\/+/g, "/")\<close>, \<open>.replace(/\/+$/, "")\<close>, \<open>.replace(/^\/*/, "/")\<close>.\<close>

fun collapse_slashes :: "string \<Rightarrow> string" where
  "collapse_slashes (a # b # s) =
     (if a = CHR ''/'' \<and> b = CHR ''/'' then collapse_slashes (b # s) else a # collapse_slashes (b # s))"
| "collapse_slashes s = s"

definition is_slash :: "char \<Rightarrow> bool" where
  "is_slash c = (c = CHR ''/'')"

definition strip_end :: "string \<Rightarrow> string" where
  "strip_end s = rev (dropWhile is_slash (rev s))"

definition lead_slash :: "string \<Rightarrow> string" where
  "lead_slash s = CHR ''/'' # dropWhile is_slash s"

definition joinPaths :: "string list \<Rightarrow> string" where
  "joinPaths ps = collapse_slashes (join ''/'' ps)"

definition normalizePathname :: "string \<Rightarrow> string" where
  "normalizePathname s = lead_slash (strip_end s)"

text \<open>
  \<open>.replace(/(.)\/+$/, "$1")\<close>: the character kept may itself be a slash, but not a line
  terminator.
\<close>

definition strip_end_keep :: "string \<Rightarrow> string" where
  "strip_end_keep s =
     (let body = strip_end s; k = length s - length body in
      if body \<noteq> [] \<and> \<not> is_line_terminator (last body) then body
      else if k \<ge> 2 then body @ ''/'' else s)"

section \<open>Routes and branches\<close>

text \<open>A route: its path (\<open>None\<close> for a layout or index route), flags, element and children.\<close>

datatype 'p route =
  Route (rt_path: "string option") (rt_index: bool) (rt_case: bool) (rt_element: 'p)
    (rt_children: "'p route list")

record 'p meta =
  m_path :: string
  m_case :: bool
  m_index :: nat
  m_route :: "'p route"

record 'p branch =
  b_path :: string
  b_score :: int
  b_metas :: "'p meta list"

text \<open>\<open>explodeOptionalSegments\<close>, on the segments of the path.\<close>

fun explode_segments :: "string list \<Rightarrow> string list" where
  "explode_segments [] = []"
| "explode_segments [f] =
     (if ends_with f ''?'' then [butlast f, []] else [f])"
| "explode_segments (f # r # rs) =
     (let opt = ends_with f ''?''; required = (if opt then butlast f else f);
          rest = explode_segments (r # rs);
          result = map (\<lambda>s. if s = [] then required else join ''/'' [required, s]) rest
                   @ (if opt then rest else [])
      in map (\<lambda>e. if f = [] \<and> e = [] then ''/'' else e) result)"

definition explodeOptionalSegments :: "string \<Rightarrow> string list" where
  "explodeOptionalSegments path = explode_segments (split_on CHR ''/'' path)"

definition is_name_char :: "char \<Rightarrow> bool" where
  "is_name_char c = (is_word_char c \<or> c = CHR ''-'')"

text \<open>\<open>paramRe\<close>.\<close>

definition is_param :: "string \<Rightarrow> bool" where
  "is_param s = (case s of [] \<Rightarrow> False | c # n \<Rightarrow> c = CHR '':'' \<and> n \<noteq> [] \<and> list_all is_name_char n)"

definition isSplat :: "string \<Rightarrow> bool" where
  "isSplat s = (s = ''*'')"

definition computeScore :: "string \<Rightarrow> bool \<Rightarrow> int" where
  "computeScore path index =
     (let segments = split_on CHR ''/'' path;
          initial = int (length segments) + (if list_ex isSplat segments then - 2 else 0)
            + (if index then 2 else 0)
      in foldl (\<lambda>score s. score + (if is_param s then 3 else if s = [] then 1 else 10)) initial
           (filter (\<lambda>s. \<not> isSplat s) segments))"

text \<open>\<open>None\<close> stands for the exception of \<open>invariant\<close>.\<close>

definition relative_paths :: "'p route \<Rightarrow> string list" where
  "relative_paths r = (case rt_path r of
       None \<Rightarrow> [[]]
     | Some p \<Rightarrow> if p = [] \<or> CHR ''?'' \<notin> set p then [p] else explodeOptionalSegments p)"

definition relative_to :: "string \<Rightarrow> string \<Rightarrow> string option" where
  "relative_to parent rel =
     (if \<not> starts_with rel ''/'' then Some rel
      else if starts_with rel parent then Some (drop (length parent) rel) else None)"

function (sequential) flattenRoutes ::
    "nat \<Rightarrow> 'p route list \<Rightarrow> 'p meta list \<Rightarrow> string \<Rightarrow> 'p branch list option"
  and flattenRoute :: "'p route \<Rightarrow> nat \<Rightarrow> string list \<Rightarrow> 'p meta list \<Rightarrow> string \<Rightarrow> 'p branch list option" where
  "flattenRoutes i [] parents parentPath = Some []"
| "flattenRoutes i (r # rs) parents parentPath =
     (case (flattenRoute r i (relative_paths r) parents parentPath, flattenRoutes (Suc i) rs parents parentPath) of
        (Some bs, Some rest) \<Rightarrow> Some (bs @ rest)
      | _ \<Rightarrow> None)"
| "flattenRoute r i [] parents parentPath = Some []"
| "flattenRoute r i (rel # rels) parents parentPath =
     (case relative_to parentPath rel of
        None \<Rightarrow> None
      | Some p \<Rightarrow>
          let path = joinPaths [parentPath, p];
              metas = parents @ [\<lparr>m_path = p, m_case = rt_case r, m_index = i, m_route = r\<rparr>];
              own = (if rt_path r = None \<and> \<not> rt_index r then []
                     else [\<lparr>b_path = path, b_score = computeScore path (rt_index r), b_metas = metas\<rparr>])
          in if rt_children r \<noteq> [] \<and> rt_index r then None
             else (case (flattenRoutes 0 (rt_children r) metas path, flattenRoute r i rels parents parentPath) of
                    (Some kids, Some rest) \<Rightarrow> Some (kids @ own @ rest)
                  | _ \<Rightarrow> None))"
  by pat_completeness auto
termination
  by (relation "measures [\<lambda>x. case x of Inl (i, rs, _) \<Rightarrow> size_list (size_route (\<lambda>_. 0)) rs
        | Inr (r, _) \<Rightarrow> size_route (\<lambda>_. 0) r,
      \<lambda>x. case x of Inl _ \<Rightarrow> 0 | Inr (r, i, rels, _) \<Rightarrow> Suc (length rels)]")
     (auto, case_tac r, auto)

section \<open>Ranking\<close>

definition compareIndexes :: "nat list \<Rightarrow> nat list \<Rightarrow> int" where
  "compareIndexes a b =
     (if length a = length b \<and> butlast a = butlast b then int (last a) - int (last b) else 0)"

definition branch_indexes :: "'p branch \<Rightarrow> nat list" where
  "branch_indexes b = map m_index (b_metas b)"

definition compare_branches :: "'p branch \<Rightarrow> 'p branch \<Rightarrow> int" where
  "compare_branches a b =
     (if b_score a \<noteq> b_score b then b_score b - b_score a
      else compareIndexes (branch_indexes a) (branch_indexes b))"

text \<open>
  A stable sort by the comparator. (Between branches of different parents the comparator is no
  order; there the language leaves the result to the implementation.)
\<close>

fun insert_branch :: "'p branch \<Rightarrow> 'p branch list \<Rightarrow> 'p branch list" where
  "insert_branch b [] = [b]"
| "insert_branch b (x # xs) =
     (if compare_branches b x \<le> 0 then b # x # xs else x # insert_branch b xs)"

definition rankRouteBranches :: "'p branch list \<Rightarrow> 'p branch list" where
  "rankRouteBranches bs = foldr insert_branch bs []"

section \<open>Patterns\<close>

text \<open>
  A token is a literal code unit, or \<open>/([^\/]+)\<close> or \<open>/?([^\/]+)?\<close> with the name of the parameter.
  The tails are \<open>(.*)$\<close>, \<open>(?:\/(.+)|\/*)$\<close>, \<open>\/*$\<close>, \<open>(?:(?=\/|$))\<close> and nothing.
\<close>

datatype rtok = Lit char | Param string bool

datatype rtail = SplatAll | SplatRest | SlashesEnd | Boundary | Open

definition strip_splat :: "string \<Rightarrow> string" where
  "strip_splat path = strip_end (if ends_with path ''*'' then butlast path else path)"

function tokenize :: "string \<Rightarrow> rtok list" where
  "tokenize s =
     (case s of
        [] \<Rightarrow> []
      | c # t \<Rightarrow>
          let name = takeWhile is_name_char (tl t); rest = dropWhile is_name_char (tl t) in
          if c = CHR ''/'' \<and> starts_with t '':'' \<and> name \<noteq> [] then
            (if starts_with rest ''?'' then Param name True # tokenize (tl rest)
             else Param name False # tokenize rest)
          else Lit c # tokenize t)"
  by pat_completeness auto
termination
proof (relation "measure length")
  fix s :: string and c t and name rest :: string
  assume s: "s = c # t" and r: "rest = dropWhile is_name_char (tl t)"
  have "length rest \<le> length (tl t)" unfolding r by (rule length_dropWhile_le)
  then show "(tl rest, s) \<in> measure length" and "(rest, s) \<in> measure length" using s by auto
qed auto

declare tokenize.simps [simp del]

definition tail_of :: "string \<Rightarrow> bool \<Rightarrow> rtail" where
  "tail_of path end =
     (if ends_with path ''*'' then (if path = ''*'' \<or> path = ''/*'' then SplatAll else SplatRest)
      else if end then SlashesEnd
      else if path \<noteq> [] \<and> path \<noteq> ''/'' then Boundary else Open)"

definition compilePath :: "string \<Rightarrow> bool \<Rightarrow> rtok list \<times> rtail" where
  "compilePath path end = (tokenize (lead_slash (strip_splat path)), tail_of path end)"

text \<open>The names of the capture groups, with the optional marker.\<close>

definition compiled_params :: "rtok list \<times> rtail \<Rightarrow> (string \<times> bool) list" where
  "compiled_params p =
     List.map_filter (\<lambda>t. case t of Lit _ \<Rightarrow> None | Param n opt \<Rightarrow> Some (n, opt)) (fst p)
     @ (if snd p = SplatAll \<or> snd p = SplatRest then [(''*'', False)] else [])"

definition same_char :: "bool \<Rightarrow> char \<Rightarrow> char \<Rightarrow> bool" where
  "same_char caseSensitive a b = (a = b \<or> (\<not> caseSensitive \<and> upper_char a = upper_char b))"

text \<open>The captures and what is left of the string; a group that took no part captures \<open>None\<close>.\<close>

type_synonym rmatch = "string option list \<times> string"

definition match_tail :: "rtail \<Rightarrow> string \<Rightarrow> rmatch option" where
  "match_tail t s = (case t of
       SplatAll \<Rightarrow> if list_ex is_line_terminator s then None else Some ([Some s], [])
     | SplatRest \<Rightarrow>
         if length s \<ge> 2 \<and> hd s = CHR ''/'' \<and> \<not> list_ex is_line_terminator (tl s)
         then Some ([Some (tl s)], [])
         else if list_all is_slash s then Some ([None], []) else None
     | SlashesEnd \<Rightarrow> if list_all is_slash s then Some ([], []) else None
     | Boundary \<Rightarrow> if s = [] \<or> hd s = CHR ''/'' then Some ([], s) else None
     | Open \<Rightarrow> Some ([], s))"

fun first_some :: "'a option list \<Rightarrow> 'a option" where
  "first_some [] = None"
| "first_some (None # xs) = first_some xs"
| "first_some (Some x # xs) = Some x"

definition capture :: "string option \<Rightarrow> rmatch option \<Rightarrow> rmatch option" where
  "capture g m = map_option (\<lambda>(gs, rest). (g # gs, rest)) m"

definition run_length :: "string \<Rightarrow> nat" where
  "run_length s = length (takeWhile (\<lambda>c. c \<noteq> CHR ''/'') s)"

text \<open>\<open>[^\/]+\<close> before the rest \<open>k\<close> of the expression: the longest run first.\<close>

definition greedy :: "(string \<Rightarrow> rmatch option) \<Rightarrow> string \<Rightarrow> rmatch option" where
  "greedy k s = first_some (map (\<lambda>n. capture (Some (take n s)) (k (drop n s))) (rev [1..<Suc (run_length s)]))"

definition greedy_opt :: "(string \<Rightarrow> rmatch option) \<Rightarrow> string \<Rightarrow> rmatch option" where
  "greedy_opt k s = first_some [greedy k s, capture None (k s)]"

primrec match_toks :: "bool \<Rightarrow> rtail \<Rightarrow> rtok list \<Rightarrow> string \<Rightarrow> rmatch option" where
  "match_toks caseSensitive tail [] = match_tail tail"
| "match_toks caseSensitive tail (t # ts) = (\<lambda>s. case t of
       Lit c \<Rightarrow>
         (case s of [] \<Rightarrow> None
          | x # xs \<Rightarrow> if same_char caseSensitive c x then match_toks caseSensitive tail ts xs else None)
     | Param n opt \<Rightarrow>
         if \<not> opt then
           (if starts_with s ''/'' then greedy (match_toks caseSensitive tail ts) (tl s) else None)
         else if starts_with s ''/'' then
           first_some [greedy_opt (match_toks caseSensitive tail ts) (tl s),
                       greedy_opt (match_toks caseSensitive tail ts) s]
         else greedy_opt (match_toks caseSensitive tail ts) s)"

section \<open>Matching a path\<close>

record path_match =
  pm_params :: "(string \<times> string option) list"
  pm_pathname :: string
  pm_base :: string

text \<open>\<open>.replace(/%2F/g, "/")\<close>.\<close>

fun unescape_slash :: "string \<Rightarrow> string" where
  "unescape_slash (a # b # c # s) =
     (if a = CHR ''%'' \<and> b = CHR ''2'' \<and> c = CHR ''F'' then CHR ''/'' # unescape_slash s
      else a # unescape_slash (b # c # s))"
| "unescape_slash s = s"

text \<open>One step of the \<open>reduce\<close> over the parameters, and its whole run.\<close>

definition bind_param ::
    "string \<Rightarrow> (string \<times> bool) \<times> string option \<Rightarrow>
      (string \<times> string option) list \<times> string \<Rightarrow> (string \<times> string option) list \<times> string" where
  "bind_param matched = (\<lambda>((name, opt), g) (memo, base).
     (let text = (case g of None \<Rightarrow> [] | Some v \<Rightarrow> v);
          base' = (if name = ''*'' then strip_end_keep (take (length matched - length text) matched) else base)
      in (al_set memo name (if opt \<and> text = [] then None else Some (unescape_slash text)), base')))"

definition matchPath :: "string \<Rightarrow> bool \<Rightarrow> bool \<Rightarrow> string \<Rightarrow> path_match option" where
  "matchPath path caseSensitive end pathname =
     (let cp = compilePath path end in
      case match_toks caseSensitive (snd cp) (fst cp) pathname of
        None \<Rightarrow> None
      | Some (gs, rest) \<Rightarrow>
          let matched = take (length pathname - length rest) pathname;
              (params, base) = fold (bind_param matched) (zip (compiled_params cp) gs) ([], strip_end_keep matched)
          in Some \<lparr>pm_params = params, pm_pathname = matched, pm_base = base\<rparr>)"

section \<open>Matching a branch\<close>

record 'p route_match =
  rm_pathname :: string
  rm_base :: string
  rm_route :: "'p route"

text \<open>
  The loop over the routes of a branch. All matches of a branch share one object of parameters,
  so it is returned once.
\<close>

definition remaining :: "string \<Rightarrow> string \<Rightarrow> string" where
  "remaining matched pathname =
     (if matched = ''/'' then pathname
      else let r = drop (length matched) pathname in if r = [] then ''/'' else r)"

definition match_meta :: "'p meta \<Rightarrow> bool \<Rightarrow> bool \<Rightarrow> string \<Rightarrow> path_match option" where
  "match_meta m end retry s =
     (case matchPath (m_path m) (m_case m) end s of
        Some pm \<Rightarrow> Some pm
      | None \<Rightarrow> if end \<and> retry then matchPath (m_path m) (m_case m) False s else None)"

fun match_metas ::
    "'p meta list \<Rightarrow> bool \<Rightarrow> string \<Rightarrow> string \<Rightarrow> (string \<times> string option) list \<Rightarrow>
      ('p route_match list \<times> (string \<times> string option) list) option" where
  "match_metas [] allowPartial pathname matched params = Some ([], params)"
| "match_metas (m # ms) allowPartial pathname matched params =
     (case match_meta m (ms = []) (allowPartial \<and> \<not> rt_index (m_route m)) (remaining matched pathname) of
        None \<Rightarrow> None
      | Some pm \<Rightarrow>
          let rm = \<lparr>rm_pathname = joinPaths [matched, pm_pathname pm],
                    rm_base = normalizePathname (joinPaths [matched, pm_base pm]), rm_route = m_route m\<rparr>;
              matched' = (if pm_base pm \<noteq> ''/'' then joinPaths [matched, pm_base pm] else matched)
          in map_option (\<lambda>(rms, ps). (rm # rms, ps))
               (match_metas ms allowPartial pathname matched'
                 (foldl (\<lambda>ps (k, v). al_set ps k v) params (pm_params pm))))"

definition matchRouteBranch ::
    "'p branch \<Rightarrow> string \<Rightarrow> bool \<Rightarrow> ('p route_match list \<times> (string \<times> string option) list) option" where
  "matchRouteBranch b pathname allowPartial = match_metas (b_metas b) allowPartial pathname ''/'' []"

section \<open>Decoding\<close>

definition is_hex :: "char \<Rightarrow> bool" where
  "is_hex c = (is_digit c \<or> (let n = (of_char c :: int) in (65 \<le> n \<and> n \<le> 70) \<or> (97 \<le> n \<and> n \<le> 102)))"

definition hex_digit_value :: "char \<Rightarrow> int" where
  "hex_digit_value c = (let n = (of_char c :: int) in
     if n \<le> 57 then n - 48 else if n \<le> 70 then n - 55 else n - 87)"

text \<open>The byte of the escape at the head, and what follows it.\<close>

definition escape_byte :: "string \<Rightarrow> (int \<times> string) option" where
  "escape_byte s = (case s of
       p # a # b # r \<Rightarrow>
         if p = CHR ''%'' \<and> is_hex a \<and> is_hex b
         then Some (16 * hex_digit_value a + hex_digit_value b, r) else None
     | _ \<Rightarrow> None)"

text \<open>\<open>decodeURIComponent\<close>; \<open>None\<close> is its \<open>URIError\<close>.\<close>

function decode_uri :: "string \<Rightarrow> string option" where
  "decode_uri s =
     (case s of
        [] \<Rightarrow> Some []
      | c # t \<Rightarrow>
          if c \<noteq> CHR ''%'' then map_option (Cons c) (decode_uri t)
          else case escape_byte s of
              None \<Rightarrow> None
            | Some (n, r) \<Rightarrow>
                if n < 128 then map_option (Cons (char_of n)) (decode_uri r)
                else if n = 194 \<or> n = 195 then
                  (case escape_byte r of
                     None \<Rightarrow> None
                   | Some (k, r') \<Rightarrow>
                       if 128 \<le> k \<and> k < 192
                       then map_option (Cons (char_of ((n - 192) * 64 + (k - 128)))) (decode_uri r')
                       else None)
                else None)"
  by pat_completeness auto
termination
  by (relation "measure length") (auto simp: escape_byte_def split: list.splits if_splits)

declare decode_uri.simps [simp del]

definition escape_slash :: "string \<Rightarrow> string" where
  "escape_slash s = concat (map (\<lambda>c. if c = CHR ''/'' then ''%2F'' else [c]) s)"

definition decodePath :: "string \<Rightarrow> string" where
  "decodePath value =
     (let ps = map decode_uri (split_on CHR ''/'' value) in
      if list_all (\<lambda>p. p \<noteq> None) ps then join ''/'' (map (\<lambda>p. escape_slash (the p)) ps)
      else value)"

definition stripBasename :: "string \<Rightarrow> string \<Rightarrow> string option" where
  "stripBasename pathname basename =
     (if basename = ''/'' then Some pathname
      else if \<not> starts_with (to_lower pathname) (to_lower basename) then None
      else let i = (if ends_with basename ''/'' then length basename - 1 else length basename);
               r = drop i pathname
           in if r \<noteq> [] \<and> hd r \<noteq> CHR ''/'' then None
              else Some (if r = [] then ''/'' else r))"

section \<open>Matching a location\<close>

text \<open>\<open>None\<close> is the exception of \<open>flattenRoutes\<close>, \<open>Some None\<close> that no route matches.\<close>

definition matchRoutesImpl ::
    "'p route list \<Rightarrow> location \<Rightarrow> string \<Rightarrow> bool \<Rightarrow>
      ('p route_match list \<times> (string \<times> string option) list) option option" where
  "matchRoutesImpl routes loc basename allowPartial =
     (let given = (case l_pathname loc of None \<Rightarrow> ''/'' | Some p \<Rightarrow> if p = [] then ''/'' else p) in
      case stripBasename given basename of
        None \<Rightarrow> Some None
      | Some pathname \<Rightarrow>
          (case flattenRoutes 0 routes [] [] of
             None \<Rightarrow> None
           | Some bs \<Rightarrow>
               Some (first_some (map (\<lambda>b. matchRouteBranch b (decodePath pathname) allowPartial)
                 (rankRouteBranches bs)))))"

definition matchRoutes ::
    "'p route list \<Rightarrow> string \<Rightarrow> ('p route_match list \<times> (string \<times> string option) list) option option" where
  "matchRoutes routes path = matchRoutesImpl routes (parsePath path) ''/'' False"

section \<open>Resolving a target\<close>

text \<open>\<open>ABSOLUTE_URL_REGEX$1\<close>.\<close>

definition absolute_rx :: rx where
  "absolute_rx = rx_alts
     [rx_seqs [RSet (\<lambda>c. is_lower_az c \<or> is_upper_az c),
        RStar (RSet (\<lambda>c. is_lower_az c \<or> is_upper_az c \<or> is_digit c \<or> c \<in> set ''+.-'')), rx_chr CHR '':''],
      rx_str ''//'']"

definition isAbsoluteUrl :: "string \<Rightarrow> bool" where
  "isAbsoluteUrl url = rx_find_start absolute_rx url"

definition push_segment :: "string \<Rightarrow> string list \<Rightarrow> string list" where
  "push_segment segment segments =
     (if segment = ''..'' then (if length segments > 1 then butlast segments else segments)
      else if segment \<noteq> ''.'' then segments @ [segment] else segments)"

definition resolvePathname :: "string \<Rightarrow> string \<Rightarrow> string" where
  "resolvePathname relativePath fromPathname =
     (let segments = fold push_segment (split_on CHR ''/'' relativePath)
            (split_on CHR ''/'' (strip_end fromPathname))
      in if length segments > 1 then join ''/'' segments else ''/'')"

definition opt_str :: "string option \<Rightarrow> string" where
  "opt_str x = (case x of None \<Rightarrow> [] | Some s \<Rightarrow> s)"

record resolved =
  v_pathname :: string
  v_search :: string
  v_hash :: string

definition resolvePath :: "location \<Rightarrow> string \<Rightarrow> resolved" where
  "resolvePath to fromPathname =
     (let toPathname = opt_str (l_pathname to);
          collapsed = (if str_includes toPathname ''//'' then collapse_slashes toPathname else toPathname);
          pathname =
            (if toPathname = [] then fromPathname
             else if isAbsoluteUrl toPathname then toPathname
             else if starts_with collapsed ''/'' then resolvePathname (drop 1 collapsed) ''/''
             else resolvePathname collapsed fromPathname)
      in \<lparr>v_pathname = pathname, v_search = normalizeSearch (opt_str (l_search to)),
          v_hash = normalizeHash (opt_str (l_hash to))\<rparr>)"

text \<open>\<open>resolveTo\<close> of a string.\<close>

definition leading_dots :: "string list \<Rightarrow> nat" where
  "leading_dots segments = length (takeWhile (\<lambda>s. s = ''..'') segments)"

definition resolveTo :: "string \<Rightarrow> string list \<Rightarrow> string \<Rightarrow> bool \<Rightarrow> resolved" where
  "resolveTo toArg routePathnames locationPathname isPathRelative =
     (let to = parsePath toArg;
          isEmptyPath = (toArg = []);
          toPathname = (if isEmptyPath then Some ''/'' else l_pathname to);
          (to', from) = (case toPathname of
              None \<Rightarrow> (to, locationPathname)
            | Some tp \<Rightarrow>
                let segs = split_on CHR ''/'' tp;
                    up = \<not> isPathRelative \<and> starts_with tp ''..'';
                    k = (if up then leading_dots segs else 0);
                    to' = (if up then to\<lparr>l_pathname := Some (join ''/'' (drop k segs))\<rparr> else to)
                in (to', if k < length routePathnames
                         then routePathnames ! (length routePathnames - 1 - k) else ''/''));
          path = resolvePath to' from;
          tp = opt_str toPathname;
          explicit = (tp \<noteq> [] \<and> tp \<noteq> ''/'' \<and> ends_with tp ''/'');
          current = ((isEmptyPath \<or> tp = ''.'') \<and> ends_with locationPathname ''/'')
      in if \<not> ends_with (v_pathname path) ''/'' \<and> (explicit \<or> current)
         then path\<lparr>v_pathname := v_pathname path @ ''/''\<rparr> else path)"

text \<open>The pathnames a relative target is resolved against.\<close>

definition getPathContributingMatches :: "'p route_match list \<Rightarrow> 'p route_match list" where
  "getPathContributingMatches ms = (case ms of
       [] \<Rightarrow> []
     | m # rest \<Rightarrow> m # filter (\<lambda>x. opt_str (rt_path (rm_route x)) \<noteq> []) rest)"

definition getResolveToMatches :: "'p route_match list \<Rightarrow> bool \<Rightarrow> string list" where
  "getResolveToMatches ms v7 =
     (let pms = getPathContributingMatches ms in
      map (\<lambda>(i, m). if v7 \<and> i = length pms - 1 then rm_pathname m else rm_base m) (enumerate 0 pms))"

section \<open>Patterns by segments\<close>

text \<open>
  The reading of a pattern and of a path as lists of segments. A path has no empty segment here;
  \<open>splat\<close> says that the pattern ends in a splat.
\<close>

datatype seg_pat = Static string | Dyn string

definition seg_text :: "seg_pat \<Rightarrow> string" where
  "seg_text p = (case p of Static t \<Rightarrow> t | Dyn n \<Rightarrow> CHR '':'' # n)"

definition path_text :: "string list \<Rightarrow> string" where
  "path_text segs = concat (map (\<lambda>s. CHR ''/'' # s) segs)"

definition pattern_text :: "seg_pat list \<Rightarrow> bool \<Rightarrow> string" where
  "pattern_text ps splat = join ''/'' (map seg_text ps) @ (if splat then ''/*'' else [])"

definition same_text :: "string \<Rightarrow> string \<Rightarrow> bool" where
  "same_text t s = list_all2 (same_char False) t s"

fun seg_match :: "seg_pat list \<Rightarrow> bool \<Rightarrow> string list \<Rightarrow> string option list option" where
  "seg_match [] splat segs =
     (if splat then Some [if segs = [] then None else Some (join ''/'' segs)]
      else if segs = [] then Some [] else None)"
| "seg_match (p # ps) splat [] = None"
| "seg_match (p # ps) splat (s # segs) =
     (case p of
        Static t \<Rightarrow> if same_text t s then seg_match ps splat segs else None
      | Dyn n \<Rightarrow> map_option (Cons (Some s)) (seg_match ps splat segs))"

definition seg_ok :: "string \<Rightarrow> bool" where
  "seg_ok s = (s \<noteq> [] \<and> CHR ''/'' \<notin> set s \<and> \<not> list_ex is_line_terminator s)"

definition pat_ok :: "seg_pat \<Rightarrow> bool" where
  "pat_ok p = (case p of
       Static t \<Rightarrow> t \<noteq> [] \<and> CHR ''/'' \<notin> set t \<and> hd t \<noteq> CHR '':'' \<and> last t \<noteq> CHR ''*''
     | Dyn n \<Rightarrow> n \<noteq> [] \<and> list_all is_name_char n)"

definition seg_toks :: "seg_pat \<Rightarrow> rtok list" where
  "seg_toks p = (case p of Static t \<Rightarrow> Lit CHR ''/'' # map Lit t | Dyn n \<Rightarrow> [Param n False])"

lemma seg_toks_simps [simp]:
  "seg_toks (Static t) = Lit CHR ''/'' # map Lit t" "seg_toks (Dyn n) = [Param n False]"
  by (simp_all add: seg_toks_def)

lemma path_text_simps [simp]:
  "path_text [] = []" "path_text (s # segs) = CHR ''/'' # s @ path_text segs"
  by (simp_all add: path_text_def)

lemma same_char_slash [simp]: "same_char False CHR ''/'' c \<longleftrightarrow> c = CHR ''/''"
proof -
  let ?n = "of_char c :: int"
  have "upper_char c = CHR ''/'' \<Longrightarrow> c = CHR ''/''"
  proof -
    assume "upper_char c = CHR ''/''"
    then have "(of_char (upper_char c) :: int) = 47" by simp
    moreover have "0 \<le> ?n \<and> ?n < 256" by (rule char_int_range)
    ultimately have "?n = 47 \<or> c = CHR ''/''"
      by (auto simp: upper_char_def Let_def split: if_splits)
    moreover have "c = CHR ''/''" if "?n = 47"
    proof -
      have "c = char_of ?n" by simp
      also have "\<dots> = char_of (47 :: int)" by (simp only: that)
      also have "\<dots> = CHR ''/''" by code_simp
      finally show ?thesis .
    qed
    ultimately show "c = CHR ''/''" by blast
  qed
  moreover have "upper_char CHR ''/'' = CHR ''/''" by code_simp
  ultimately show ?thesis by (auto simp: same_char_def)
qed

lemma tokenize_static:
  "CHR ''/'' \<notin> set t \<Longrightarrow> rest = [] \<or> hd rest = CHR ''/'' \<Longrightarrow> tokenize (t @ rest) = map Lit t @ tokenize rest"
proof (induction t)
  case (Cons c t)
  then show ?case by (subst append_Cons, subst tokenize.simps) (auto simp: Let_def)
qed simp

lemma tokenize_seg:
  assumes "pat_ok p" and "rest = [] \<or> hd rest = CHR ''/''"
  shows "tokenize (CHR ''/'' # seg_text p @ rest) = seg_toks p @ tokenize rest"
proof (cases p)
  case (Static t)
  with assms have "\<not> starts_with (t @ rest) '':''" by (cases t) (auto simp: pat_ok_def)
  then have "tokenize (CHR ''/'' # t @ rest) = Lit CHR ''/'' # tokenize (t @ rest)"
    by (subst tokenize.simps) (simp add: Let_def)
  with Static assms show ?thesis
    by (simp add: seg_text_def seg_toks_def pat_ok_def tokenize_static)
next
  case (Dyn n)
  have "\<not> starts_with rest ''?''" and "\<not> is_name_char CHR ''/''"
    using assms(2) by (cases rest; auto simp: is_name_char_def is_word_char_def is_lower_az_def is_upper_az_def is_digit_def)+
  moreover have "takeWhile is_name_char (n @ rest) = n \<and> dropWhile is_name_char (n @ rest) = rest"
    using Dyn assms calculation(2) by (cases rest) (auto simp: pat_ok_def list_all_iff)
  ultimately show ?thesis
    using Dyn assms by (subst tokenize.simps) (simp add: Let_def seg_text_def seg_toks_def pat_ok_def)
qed

lemma tokenize_path:
  "list_all pat_ok ps \<Longrightarrow> tokenize (path_text (map seg_text ps)) = concat (map seg_toks ps)"
proof (induction ps)
  case Nil
  show ?case by (simp add: tokenize.simps)
next
  case (Cons p ps)
  have "path_text (map seg_text ps) = [] \<or> hd (path_text (map seg_text ps)) = CHR ''/''"
    by (cases ps) auto
  with Cons show ?case by (simp add: tokenize_seg)
qed

lemma path_text_join: "segs \<noteq> [] \<Longrightarrow> path_text segs = CHR ''/'' # join ''/'' segs"
  by (induction "''/''" segs rule: join.induct) auto

lemma join_path_text: "join ''/'' (s # segs) = s @ path_text segs"
  using path_text_join [of "s # segs"] by simp


lemma match_lits:
  "match_toks cs tail (map Lit t @ ts) s =
     (if length t \<le> length s \<and> list_all2 (same_char cs) t (take (length t) s)
      then match_toks cs tail ts (drop (length t) s) else None)"
proof (induction t arbitrary: s)
  case (Cons c t)
  then show ?case by (cases s) auto
qed simp

text \<open>What follows a segment in an expression starts at a slash, so no shorter run can match.\<close>

definition slash_first :: "(string \<Rightarrow> rmatch option) \<Rightarrow> bool" where
  "slash_first k \<longleftrightarrow> (\<forall>c s. c \<noteq> CHR ''/'' \<longrightarrow> k (c # s) = None)"

lemma first_some_Nones: "(\<forall>x \<in> set xs. x = None) \<Longrightarrow> first_some (xs @ ys) = first_some ys"
  by (induction xs) auto

lemma first_some_all_None: "(\<forall>x \<in> set xs. x = None) \<Longrightarrow> first_some xs = None"
  by (induction xs) auto

lemma run_length_seg:
  assumes "CHR ''/'' \<notin> set s" and "rest = [] \<or> hd rest = CHR ''/''"
  shows "run_length (s @ rest) = length s"
proof -
  have "takeWhile (\<lambda>c. c \<noteq> CHR ''/'') (s @ rest) = s @ takeWhile (\<lambda>c. c \<noteq> CHR ''/'') rest"
    using assms(1) by (intro takeWhile_append2) blast
  moreover have "takeWhile (\<lambda>c. c \<noteq> CHR ''/'') rest = []" using assms(2) by (cases rest) auto
  ultimately show ?thesis by (simp add: run_length_def)
qed

lemma greedy_seg:
  assumes "slash_first k" and "s \<noteq> []" and "CHR ''/'' \<notin> set s" and "rest = [] \<or> hd rest = CHR ''/''"
  shows "greedy k (s @ rest) = capture (Some s) (k rest)"
proof -
  have split: "rev [1..<Suc (length s)] = length s # rev [1..<length s]"
    using assms(2) by (cases s) simp_all
  have "capture (Some (take n (s @ rest))) (k (drop n (s @ rest))) = None" if "n < length s" for n
  proof -
    have "drop n s = s ! n # drop (Suc n) s" using Cons_nth_drop_Suc [OF that] by simp
    with that have "drop n (s @ rest) = s ! n # drop (Suc n) s @ rest" by simp
    moreover have "s ! n \<noteq> CHR ''/''" using assms(3) nth_mem [OF that] by auto
    ultimately show ?thesis using assms(1) by (simp add: slash_first_def capture_def)
  qed
  then have "first_some (map (\<lambda>n. capture (Some (take n (s @ rest))) (k (drop n (s @ rest))))
      (rev [1..<length s])) = None"
    by (intro first_some_all_None) auto
  moreover have "first_some (x # xs) = x" if "first_some xs = None" for x :: "rmatch option" and xs
    using that by (cases x) auto
  ultimately have "first_some (map (\<lambda>n. capture (Some (take n (s @ rest))) (k (drop n (s @ rest))))
      (length s # rev [1..<length s])) = capture (Some s) (k rest)"
    by simp
  then show ?thesis by (simp only: greedy_def run_length_seg [OF assms(3,4)] split)
qed

lemma slash_first_toks:
  assumes "tail \<in> {SlashesEnd, SplatRest}"
  shows "slash_first (match_toks False tail (concat (map seg_toks ps)))"
proof (cases ps)
  case Nil
  with assms show ?thesis by (auto simp: slash_first_def match_tail_def is_slash_def)
next
  case (Cons p qs)
  then show ?thesis
    by (cases p) (simp_all add: slash_first_def seg_toks_def starts_with_take)
qed

lemma match_static:
  assumes "CHR ''/'' \<notin> set t" and "CHR ''/'' \<notin> set s" and "rest = [] \<or> hd rest = CHR ''/''"
    and "slash_first (match_toks False tail ts)"
  shows "match_toks False tail (map Lit t @ ts) (s @ rest) =
    (if same_text t s then match_toks False tail ts rest else None)"
  using assms(1,2)
proof (induction t arbitrary: s)
  case Nil
  show ?case
  proof (cases s)
    case (Cons d u)
    with Nil have "d \<noteq> CHR ''/''" by auto
    with assms(4) have "match_toks False tail ts (d # u @ rest) = None" by (simp only: slash_first_def simp_thms)
    with Cons show ?thesis by (simp add: same_text_def)
  qed (simp add: same_text_def)
next
  case (Cons c t)
  show ?case
  proof (cases s)
    case Nil
    have "\<not> same_char False c CHR ''/''"
    proof
      assume "same_char False c CHR ''/''"
      then have "same_char False CHR ''/'' c" by (auto simp: same_char_def)
      with Cons.prems(1) show False by simp
    qed
    with Nil Cons assms(3) show ?thesis by (cases rest) (auto simp: same_text_def)
  next
    case (Cons d u)
    with Cons.prems Cons.IH [of u] show ?thesis by (auto simp: same_text_def)
  qed
qed

lemma join_no_terminator:
  "\<forall>s \<in> set segs. \<not> list_ex is_line_terminator s \<Longrightarrow> \<not> list_ex is_line_terminator (join ''/'' segs)"
proof (induction "''/''" segs rule: join.induct)
  case (3 x y ys)
  moreover have "\<not> is_line_terminator CHR ''/''" by code_simp
  ultimately show ?case by auto
qed auto

lemma match_segments:
  assumes "list_all pat_ok ps" and "list_all seg_ok segs" 
  shows "match_toks False (if splat then SplatRest else SlashesEnd) (concat (map seg_toks ps)) (path_text segs) =
    map_option (\<lambda>gs. (gs, [])) (seg_match ps splat segs)"
  using assms
proof (induction ps splat segs rule: seg_match.induct)
  case (1 splat segs)
  show ?case
  proof (cases segs)
    case Nil
    then show ?thesis by (simp add: match_tail_def)
  next
    case (Cons s rest)
    with 1 have "s \<noteq> []" and "hd s \<noteq> CHR ''/''" and j: "\<not> list_ex is_line_terminator (join ''/'' segs)"
      by (auto simp: seg_ok_def list_all_iff neq_Nil_conv intro!: join_no_terminator)
    then obtain c u where "s = c # u" and "c \<noteq> CHR ''/''" by (cases s) auto
    moreover then obtain v where "join ''/'' segs = c # v" using Cons by (cases rest) auto
    moreover have "path_text segs = CHR ''/'' # join ''/'' segs" using Cons by (simp add: join_path_text)
    ultimately show ?thesis using j Cons by (auto simp: match_tail_def is_slash_def)
  qed
next
  case (2 p ps splat)
  then show ?case by (cases p) (auto simp: seg_toks_def)
next
  case (3 p ps splat s segs)
  let ?tail = "if splat then SplatRest else SlashesEnd"
  let ?k = "match_toks False ?tail (concat (map seg_toks ps))"
  have k: "slash_first ?k" by (rule slash_first_toks) auto
  have rest: "path_text segs = [] \<or> hd (path_text segs) = CHR ''/''" by (cases segs) auto
  from 3 have ok: "s \<noteq> []" "CHR ''/'' \<notin> set s" by (auto simp: seg_ok_def)
  show ?case
  proof (cases p)
    case (Static t)
    with 3 have "CHR ''/'' \<notin> set t" by (auto simp: pat_ok_def)
    with 3 Static match_static [OF _ ok(2) rest k, of t] show ?thesis by simp
  next
    case (Dyn n)
    then show ?thesis
      using 3 greedy_seg [OF k ok rest] by (simp add: capture_def option.map_comp comp_def)
  qed
qed


section \<open>Compiled patterns\<close>

definition pat_names :: "seg_pat list \<Rightarrow> bool \<Rightarrow> string list" where
  "pat_names ps splat =
     List.map_filter (\<lambda>p. case p of Static _ \<Rightarrow> None | Dyn n \<Rightarrow> Some n) ps @ (if splat then [''*''] else [])"

definition seg_params :: "seg_pat list \<Rightarrow> bool \<Rightarrow> string option list \<Rightarrow> (string \<times> string option) list" where
  "seg_params ps splat gs =
     map (\<lambda>(n, g). (n, Some (unescape_slash (opt_str g)))) (zip (pat_names ps splat) gs)"

lemma seg_text_ends:
  assumes "pat_ok p"
  shows "seg_text p \<noteq> []" and "hd (seg_text p) \<noteq> CHR ''/''" and "last (seg_text p) \<noteq> CHR ''/''"
    and "last (seg_text p) \<noteq> CHR ''*''"
proof -
  have n: "\<not> is_name_char CHR ''/''" "\<not> is_name_char CHR ''*''" by code_simp+
  have "hd m \<in> set m \<and> last m \<in> set m" if "m \<noteq> []" for m :: string using that by simp
  then show "seg_text p \<noteq> []" "hd (seg_text p) \<noteq> CHR ''/''"
    using assms by (cases p; fastforce simp: seg_text_def pat_ok_def)+
  have "last m \<in> set m" if "m \<noteq> []" for m :: string using that by simp
  then show "last (seg_text p) \<noteq> CHR ''/''" "last (seg_text p) \<noteq> CHR ''*''"
    using assms n by (cases p; fastforce simp: seg_text_def pat_ok_def list_all_iff)+
qed

lemma path_join_ends:
  assumes "segs \<noteq> []" and "\<forall>s \<in> set segs. s \<noteq> []"
  shows "join ''/'' segs \<noteq> [] \<and> hd (join ''/'' segs) = hd (hd segs) \<and> last (join ''/'' segs) = last (last segs)"
  using assms
proof (induction "''/''" segs rule: join.induct)
  case (3 x y ys)
  then show ?case by (auto simp: last_append)
qed auto

lemma pattern_join:
  assumes "list_all pat_ok ps" and "ps \<noteq> []"
  defines "t \<equiv> join ''/'' (map seg_text ps)"
  shows "t \<noteq> []" and "hd t \<noteq> CHR ''/''" and "last t \<noteq> CHR ''/''" and "last t \<noteq> CHR ''*''"
proof -
  have ne: "\<forall>s \<in> set (map seg_text ps). s \<noteq> []"
    using assms(1) seg_text_ends by (auto simp: list_all_iff)
  have "pat_ok (hd ps)" "pat_ok (last ps)" using assms(1,2) by (auto simp: list_all_iff)
  moreover have "t \<noteq> [] \<and> hd t = seg_text (hd ps) ! 0 \<and> last t = last (seg_text (last ps))"
    using path_join_ends [OF _ ne] assms(2) seg_text_ends(1) [OF calculation(1)]
    by (simp add: t_def hd_map last_map hd_conv_nth)
  ultimately show "t \<noteq> []" "hd t \<noteq> CHR ''/''" "last t \<noteq> CHR ''/''" "last t \<noteq> CHR ''*''"
    using seg_text_ends [of "hd ps"] seg_text_ends [of "last ps"] by (auto simp: hd_conv_nth)
qed

lemma strip_end_id: "s = [] \<or> last s \<noteq> CHR ''/'' \<Longrightarrow> strip_end s = s"
  by (cases s rule: rev_cases) (auto simp: strip_end_def is_slash_def)

lemma strip_end_slash: "strip_end (s @ ''/'') = strip_end s"
  by (simp add: strip_end_def is_slash_def)

lemma ends_with_last: "ends_with s [c] \<longleftrightarrow> s \<noteq> [] \<and> last s = c"
  by (cases s rule: rev_cases) (auto simp: ends_with_def)

lemma compile_segments:
  assumes "list_all pat_ok ps" and "ps \<noteq> []"
  shows "compilePath (pattern_text ps splat) True =
    (concat (map seg_toks ps), if splat then SplatRest else SlashesEnd)"
proof -
  let ?t = "join ''/'' (map seg_text ps)"
  note t = pattern_join [OF assms]
  have "strip_splat (pattern_text ps splat) = ?t"
  proof (cases splat)
    case True
    have "butlast (?t @ ''/*'') = ?t @ ''/''" by (simp add: butlast_append)
    then show ?thesis
      using True t(3) by (simp add: strip_splat_def pattern_text_def ends_with_last strip_end_slash strip_end_id)
  qed (use t in \<open>simp add: strip_splat_def pattern_text_def ends_with_last strip_end_id\<close>)
  moreover have "lead_slash ?t = path_text (map seg_text ps)"
    using t(1,2) assms(2) by (cases ?t) (auto simp: lead_slash_def is_slash_def path_text_join)
  moreover have "tail_of (pattern_text ps splat) True = (if splat then SplatRest else SlashesEnd)"
  proof -
    have "?t @ ''/*'' \<noteq> ''*''" and "?t @ ''/*'' \<noteq> ''/*''" using t(1) by (cases ?t; simp)+
    then show ?thesis using t by (auto simp: tail_of_def pattern_text_def ends_with_last)
  qed
  ultimately show ?thesis using assms(1) by (simp add: compilePath_def tokenize_path)
qed

lemma fold_bind_params:
  assumes "distinct (map fst memo @ map (fst \<circ> fst) xs)" and "\<forall>x \<in> set xs. \<not> snd (fst x)"
  shows "fst (fold (bind_param m) xs (memo, b)) =
    memo @ map (\<lambda>((n, opt), g). (n, Some (unescape_slash (opt_str g)))) xs"
  using assms
proof (induction xs arbitrary: memo b)
  case (Cons x xs)
  obtain n g where x: "x = ((n, False), g)" using Cons.prems(2) by (cases x) auto
  with Cons.prems have "\<not> al_has memo n" by (auto simp: al_has_iff image_iff)
  then have new: "al_set memo n v = memo @ [(n, v)]" for v by (rule al_set_order_new)
  show ?case
    using Cons x by (simp add: bind_param_def Let_def new opt_str_def)
qed simp

lemma compiled_names:
  "compiled_params (concat (map seg_toks ps), if splat then SplatRest else SlashesEnd) =
    map (\<lambda>n. (n, False)) (pat_names ps splat)"
proof -
  have lits: "List.map_filter (\<lambda>t. case t of Lit _ \<Rightarrow> None | Param n opt \<Rightarrow> Some (n, opt)) (map Lit t) = []" for t
    by (induction t) (auto simp: List.map_filter_simps)
  have "List.map_filter (\<lambda>t. case t of Lit _ \<Rightarrow> None | Param n opt \<Rightarrow> Some (n, opt)) (concat (map seg_toks ps))
      = map (\<lambda>n. (n, False)) (List.map_filter (\<lambda>p. case p of Static _ \<Rightarrow> None | Dyn n \<Rightarrow> Some n) ps)"
  proof (induction ps)
    case (Cons p ps)
    then show ?case
      using lits by (cases p) (auto simp: map_filter_def)
  qed (simp add: List.map_filter_simps)
  then show ?thesis by (simp add: compiled_params_def pat_names_def)
qed

theorem matchPath_segs:
  assumes "list_all pat_ok ps" and "ps \<noteq> []" and "distinct (pat_names ps splat)" and "list_all seg_ok segs"
  shows "map_option (\<lambda>pm. (pm_params pm, pm_pathname pm))
      (matchPath (pattern_text ps splat) False True (path_text segs)) =
    map_option (\<lambda>gs. (seg_params ps splat gs, path_text segs)) (seg_match ps splat segs)"
proof (cases "seg_match ps splat segs")
  case None
  then show ?thesis
    using match_segments [OF assms(1,4), of splat] by (simp add: matchPath_def compile_segments [OF assms(1,2)])
next
  case (Some gs)
  let ?ns = "pat_names ps splat"
  have zip: "zip (map (\<lambda>n. (n, False)) ?ns) gs = map (\<lambda>(n, g). ((n, False), g)) (zip ?ns gs)"
    by (simp add: zip_map1)
  have "distinct (map fst (zip ?ns gs))"
    using assms(3) by (simp add: map_fst_zip_take)
  then have "fst (fold (bind_param m) (zip (map (\<lambda>n. (n, False)) ?ns) gs) ([], b)) = seg_params ps splat gs" for m b
    unfolding zip by (subst fold_bind_params) (auto simp: seg_params_def comp_def split_def)
  with Some show ?thesis
    using match_segments [OF assms(1,4), of splat]
    by (simp add: matchPath_def compile_segments [OF assms(1,2)] compiled_names Let_def split_def)
qed

end
