(* ===== verification/AppRoutes.thy ===== *)
theory AppRoutes
  imports Router "HOL-Library.Multiset"
begin

text \<open>
  The route table of the application (\<open>ui/src/App.tsx\<close>) under the matcher of \<open>Router\<close>. \<open>app_page\<close>
  is what the table means: the page and the parameters of a path given by its segments. The
  theorems show that the matcher computes it, and what follows for the links the components build.
\<close>

section \<open>The table\<close>

datatype page =
    AppShell | HomePage | LoginPage | RegisterPage | NewRepoPage | SettingsPage | SSHKeysPage
  | TokensPage | RepoSettingsPage | RepoFilePage | RepoPage | RepoCommitsPage | UserProfilePage
  | NotFoundPage

definition leaf :: "string \<Rightarrow> page \<Rightarrow> page route" where
  "leaf path element = Route (Some path) False False element []"

definition app_children :: "page route list" where
  "app_children =
     [Route None True False HomePage [],
      leaf ''login'' LoginPage,
      leaf ''register'' RegisterPage,
      leaf ''new'' NewRepoPage,
      leaf ''settings'' SettingsPage,
      leaf ''settings/keys'' SSHKeysPage,
      leaf ''settings/tokens'' TokensPage,
      leaf '':owner/:repo/settings'' RepoSettingsPage,
      leaf '':owner/:repo/blob/:ref/*'' RepoFilePage,
      leaf '':owner/:repo/tree/:ref/*'' RepoPage,
      leaf '':owner/:repo/commits/:ref'' RepoCommitsPage,
      leaf '':owner/:repo'' RepoPage,
      leaf '':username'' UserProfilePage,
      leaf ''*'' NotFoundPage]"

definition app_routes :: "page route list" where
  "app_routes = [Route None False False AppShell app_children]"

text \<open>The page below the shell and its parameters; \<open>None\<close> when nothing is rendered.\<close>

definition app_match :: "string \<Rightarrow> (page \<times> (string \<times> string option) list) option" where
  "app_match path = (case matchRoutes app_routes path of
       Some (Some (rms, params)) \<Rightarrow> Some (rt_element (rm_route (last rms)), params)
     | _ \<Rightarrow> None)"

section \<open>What the table means\<close>

definition param :: "string \<Rightarrow> string \<Rightarrow> string \<times> string option" where
  "param name s = (name, Some (unescape_slash s))"

definition splat_param :: "string list \<Rightarrow> string \<times> string option" where
  "splat_param segs = (''*'', Some (unescape_slash (join ''/'' segs)))"

fun app_page :: "string list \<Rightarrow> page \<times> (string \<times> string option) list" where
  "app_page [] = (HomePage, [])"
| "app_page [a] =
     (if same_text ''login'' a then (LoginPage, [])
      else if same_text ''register'' a then (RegisterPage, [])
      else if same_text ''new'' a then (NewRepoPage, [])
      else if same_text ''settings'' a then (SettingsPage, [])
      else (UserProfilePage, [param ''username'' a]))"
| "app_page [a, b] =
     (if same_text ''settings'' a \<and> same_text ''keys'' b then (SSHKeysPage, [])
      else if same_text ''settings'' a \<and> same_text ''tokens'' b then (TokensPage, [])
      else (RepoPage, [param ''owner'' a, param ''repo'' b]))"
| "app_page [a, b, c] =
     (if same_text ''settings'' c then (RepoSettingsPage, [param ''owner'' a, param ''repo'' b])
      else (NotFoundPage, [splat_param [a, b, c]]))"
| "app_page (a # b # c # d # rest) =
     (let repo = [param ''owner'' a, param ''repo'' b, param ''ref'' d] in
      if same_text ''commits'' c \<and> rest = [] then (RepoCommitsPage, repo)
      else if same_text ''blob'' c then (RepoFilePage, repo @ [splat_param rest])
      else if same_text ''tree'' c then (RepoPage, repo @ [splat_param rest])
      else (NotFoundPage, [splat_param (a # b # c # d # rest)]))"

section \<open>The ranked table\<close>

definition layout_meta :: "page meta" where
  "layout_meta = \<lparr>m_path = [], m_case = False, m_index = 0, m_route = hd app_routes\<rparr>"

definition child_meta :: "nat \<Rightarrow> page meta" where
  "child_meta i = \<lparr>m_path = opt_str (rt_path (app_children ! i)), m_case = False, m_index = i,
     m_route = app_children ! i\<rparr>"

definition app_order :: "nat list" where
  "app_order = [10, 5, 6, 8, 9, 7, 1, 2, 3, 4, 11, 0, 12, 13]"

lemma app_ranked:
  "map_option (\<lambda>bs. map b_metas (rankRouteBranches bs)) (flattenRoutes 0 app_routes [] []) =
    Some (map (\<lambda>i. [layout_meta, child_meta i]) app_order)"
  by code_simp

lemma matchRoutes_app:
  assumes "l_pathname (parsePath path) = Some p" and "p \<noteq> []"
  shows "matchRoutes app_routes path =
    Some (first_some (map (\<lambda>i. match_metas [layout_meta, child_meta i] False (decodePath p) ''/'' []) app_order))"
proof -
  obtain bs where bs: "flattenRoutes 0 app_routes [] [] = Some bs"
    and m: "map b_metas (rankRouteBranches bs) = map (\<lambda>i. [layout_meta, child_meta i]) app_order"
    using app_ranked by (cases "flattenRoutes 0 app_routes [] []") auto
  have "map (\<lambda>b. matchRouteBranch b d False) xs = map (\<lambda>ms. match_metas ms False d ''/'' []) (map b_metas xs)"
    for xs :: "page branch list" and d
    by (simp add: matchRouteBranch_def)
  with assms show ?thesis
    by (simp only: matchRoutes_def matchRoutesImpl_def bs m option.case Let_def if_False stripBasename_def)
       (simp add: comp_def)
qed

lemma layout_matches: "matchPath [] False False (CHR ''/'' # s) = Some \<lparr>pm_params = [], pm_pathname = ''/'', pm_base = ''/''\<rparr>"
proof -
  have c: "compilePath [] False = ([Lit CHR ''/''], Open)" by code_simp
  have k: "strip_end_keep ''/'' = ''/''" by code_simp
  show ?thesis
    by (simp add: matchPath_def c match_tail_def compiled_params_def List.map_filter_simps Suc_diff_le k Let_def)
qed

lemma match_child:
  "match_metas [layout_meta, child_meta i] False (CHR ''/'' # s) ''/'' [] =
    (case matchPath (opt_str (rt_path (app_children ! i))) False True (CHR ''/'' # s) of
       None \<Rightarrow> None
     | Some pm \<Rightarrow> Some ([\<lparr>rm_pathname = ''/'', rm_base = ''/'', rm_route = hd app_routes\<rparr>,
         \<lparr>rm_pathname = joinPaths [''/'', pm_pathname pm], rm_base = normalizePathname (joinPaths [''/'', pm_base pm]),
          rm_route = app_children ! i\<rparr>], foldl (\<lambda>ps (k, v). al_set ps k v) [] (pm_params pm)))"
proof -
  have j: "joinPaths [''/'', ''/''] = ''/''" "normalizePathname ''/'' = ''/''" by code_simp+
  show ?thesis
    by (auto simp: layout_meta_def child_meta_def match_meta_def layout_matches j remaining_def Let_def
        split: option.splits)
qed

lemma first_some_map: "map_option f (first_some xs) = first_some (map (map_option f) xs)"
  by (induction xs rule: first_some.induct) auto

definition child_result :: "nat \<Rightarrow> string \<Rightarrow> (page \<times> (string \<times> string option) list) option" where
  "child_result i s =
     map_option (\<lambda>pm. (rt_element (app_children ! i), foldl (\<lambda>ps (k, v). al_set ps k v) [] (pm_params pm)))
       (matchPath (opt_str (rt_path (app_children ! i))) False True s)"

lemma app_match_children:
  assumes "l_pathname (parsePath path) = Some p" and "decodePath p = CHR ''/'' # s" and "p \<noteq> []"
  shows "app_match path = first_some (map (\<lambda>i. child_result i (CHR ''/'' # s)) app_order)"
proof -
  have c: "child_result i (CHR ''/'' # s) =
      map_option (\<lambda>(rms, ps). (rt_element (rm_route (last rms)), ps))
        (match_metas [layout_meta, child_meta i] False (CHR ''/'' # s) ''/'' [])" for i
    by (simp only: child_result_def match_child) (simp split: option.splits)
  have "app_match path = map_option (\<lambda>(rms, ps). (rt_element (rm_route (last rms)), ps))
      (first_some (map (\<lambda>i. match_metas [layout_meta, child_meta i] False (CHR ''/'' # s) ''/'' []) app_order))"
    unfolding app_match_def matchRoutes_app [OF assms(1,3)] assms(2)
    by (simp split: option.splits)
  then show ?thesis by (simp only: c first_some_map list.map_comp comp_def)
qed

section \<open>Each route by segments\<close>

definition app_patterns :: "(seg_pat list \<times> bool) list" where
  "app_patterns =
     (let repo = [Dyn ''owner'', Dyn ''repo''] in
     [([], False), ([Static ''login''], False), ([Static ''register''], False), ([Static ''new''], False),
      ([Static ''settings''], False), ([Static ''settings'', Static ''keys''], False),
      ([Static ''settings'', Static ''tokens''], False), (repo @ [Static ''settings''], False),
      (repo @ [Static ''blob'', Dyn ''ref''], True), (repo @ [Static ''tree'', Dyn ''ref''], True),
      (repo @ [Static ''commits'', Dyn ''ref''], False), (repo, False), ([Dyn ''username''], False)])"

lemma app_patterns_ok:
  "list_all (\<lambda>i. (case app_patterns ! i of (ps, splat) \<Rightarrow>
      rt_path (app_children ! i) = Some (pattern_text ps splat) \<and> list_all pat_ok ps \<and> ps \<noteq> []
      \<and> distinct (pat_names ps splat))) [1..<13]"
  by code_simp

lemma foldl_al_set_distinct:
  "distinct (map fst acc @ map fst xs) \<Longrightarrow> foldl (\<lambda>ps (k, v). al_set ps k v) acc xs = acc @ xs"
proof (induction xs arbitrary: acc)
  case (Cons x xs)
  then have "\<not> al_has acc (fst x)" by (auto simp: al_has_iff)
  then have "al_set acc (fst x) (snd x) = acc @ [x]" by (simp add: al_set_order_new)
  with Cons show ?case by (simp add: split_def)
qed simp

lemma child_segments:
  assumes "i \<in> set [1..<13]" and "app_patterns ! i = (ps, splat)" and "list_all seg_ok segs"
  shows "child_result i (path_text segs) =
    map_option (\<lambda>gs. (rt_element (app_children ! i), seg_params ps splat gs)) (seg_match ps splat segs)"
proof -
  have ok: "rt_path (app_children ! i) = Some (pattern_text ps splat)" "list_all pat_ok ps" "ps \<noteq> []"
      "distinct (pat_names ps splat)"
  proof -
    have "case app_patterns ! i of (ps, splat) \<Rightarrow>
        rt_path (app_children ! i) = Some (pattern_text ps splat) \<and> list_all pat_ok ps \<and> ps \<noteq> []
        \<and> distinct (pat_names ps splat)"
      using app_patterns_ok assms(1) unfolding list_all_iff by (rule bspec)
    then show "rt_path (app_children ! i) = Some (pattern_text ps splat)" "list_all pat_ok ps" "ps \<noteq> []"
      "distinct (pat_names ps splat)"
      using assms(2) by simp_all
  qed
  have d: "foldl (\<lambda>ps (k, v). al_set ps k v) [] (seg_params ps splat gs) = seg_params ps splat gs" for gs
    using ok(4) by (subst foldl_al_set_distinct) (auto simp: seg_params_def comp_def split_def map_fst_zip_take)
  note m = matchPath_segs [OF ok(2,3,4) assms(3)]
  show ?thesis
  proof (cases "seg_match ps splat segs")
    case None
    with m have "matchPath (pattern_text ps splat) False True (path_text segs) = None" by simp
    with None ok(1) show ?thesis by (simp add: child_result_def opt_str_def)
  next
    case (Some gs)
    with m obtain pm where "matchPath (pattern_text ps splat) False True (path_text segs) = Some pm"
      and "pm_params pm = seg_params ps splat gs" by auto
    with Some ok(1) d show ?thesis by (simp add: child_result_def opt_str_def)
  qed
qed

lemma child_index:
  assumes "segs \<noteq> []" and "list_all seg_ok segs"
  shows "child_result 0 (path_text segs) = None"
proof -
  have c: "compilePath [] True = ([Lit CHR ''/''], SlashesEnd)" by code_simp
  obtain s rest where s: "segs = s # rest" using assms(1) by (cases segs) auto
  with assms obtain d u where "s = d # u" "d \<noteq> CHR ''/''" by (cases s) (auto simp: seg_ok_def)
  with s show ?thesis
    by (simp add: child_result_def app_children_def opt_str_def matchPath_def c match_tail_def is_slash_def)
qed

lemma child_splat:
  assumes "segs \<noteq> []" and "list_all seg_ok segs"
  shows "child_result 13 (path_text segs) = Some (NotFoundPage, [splat_param segs])"
proof -
  have c: "compilePath ''*'' True = ([Lit CHR ''/''], SplatAll)" by code_simp
  have "\<not> list_ex is_line_terminator (join ''/'' segs)"
    using assms(2) by (intro join_no_terminator) (auto simp: seg_ok_def list_all_iff)
  then have m: "match_toks False SplatAll [Lit CHR ''/''] (path_text segs) = Some ([Some (join ''/'' segs)], [])"
    using assms(1) by (simp add: path_text_join match_tail_def)
  show ?thesis
    by (simp add: child_result_def app_children_def leaf_def opt_str_def matchPath_def c m compiled_params_def
        List.map_filter_simps Let_def split_def bind_param_def splat_param_def del: match_toks.simps)
qed

section \<open>The table computes the page\<close>

lemma pat_names_simps [simp]:
  "pat_names [] splat = (if splat then [''*''] else [])"
  "pat_names (Static t # ps) splat = pat_names ps splat"
  "pat_names (Dyn n # ps) splat = n # pat_names ps splat"
  by (simp_all add: pat_names_def List.map_filter_simps)

definition table_row :: "string list \<Rightarrow> nat \<Rightarrow> (page \<times> (string \<times> string option) list) option" where
  "table_row segs i =
     (if i = 0 then None else if i = 13 then Some (NotFoundPage, [splat_param segs])
      else case app_patterns ! i of (ps, splat) \<Rightarrow>
        map_option (\<lambda>gs. (rt_element (app_children ! i), seg_params ps splat gs)) (seg_match ps splat segs))"

lemma child_rows:
  assumes "segs \<noteq> []" and "list_all seg_ok segs" and "i \<in> set app_order"
  shows "child_result i (path_text segs) = table_row segs i"
proof -
  consider "i = 0" | "i = 13" | "i \<in> set [1..<13]" using assms(3) by (auto simp: app_order_def)
  then show ?thesis
  proof cases
    case 3
    obtain ps splat where "app_patterns ! i = (ps, splat)" by fastforce
    with 3 assms(2) show ?thesis by (auto simp: table_row_def child_segments)
  qed (use assms child_index child_splat in \<open>auto simp: table_row_def\<close>)
qed

lemma rows_page:
  assumes "segs \<noteq> []"
  shows "first_some (map (table_row segs) app_order) = Some (app_page segs)"
proof -
  note rows = app_order_def table_row_def app_patterns_def app_children_def leaf_def seg_params_def
    param_def opt_str_def Let_def splat_param_def
  consider a where "segs = [a]" | a b where "segs = [a, b]" | a b c where "segs = [a, b, c]"
    | a b c d rest where "segs = a # b # c # d # rest"
    using assms by (cases segs rule: app_page.cases) auto
  then show ?thesis
  proof cases
    case 1
    then show ?thesis by (simp add: rows)
  next
    case 2
    then show ?thesis by (simp add: rows)
  next
    case 3
    then show ?thesis by (simp add: rows)
  next
    case 4
    then show ?thesis by (simp add: rows)
  qed
qed

text \<open>The segments of a URL the matcher decodes, and their decoded form (a decoded slash stays escaped).\<close>

definition url_seg :: "string \<Rightarrow> bool" where
  "url_seg r \<longleftrightarrow> r \<noteq> [] \<and> CHR ''/'' \<notin> set r \<and> CHR ''?'' \<notin> set r \<and> CHR ''#'' \<notin> set r
     \<and> (case decode_uri r of None \<Rightarrow> False | Some d \<Rightarrow> \<not> list_ex is_line_terminator d)"

definition seg_decoded :: "string \<Rightarrow> string" where
  "seg_decoded r = escape_slash (the (decode_uri r))"

lemma path_text_chars: "c \<noteq> CHR ''/'' \<Longrightarrow> \<forall>s \<in> set segs. c \<notin> set s \<Longrightarrow> c \<notin> set (path_text segs)"
  by (induction segs) auto

lemma parsePath_plain:
  assumes "CHR ''#'' \<notin> set p" and "CHR ''?'' \<notin> set p" and "p \<noteq> []"
  shows "l_pathname (parsePath p) = Some p"
proof -
  have "index_of p CHR ''#'' = None" "index_of p CHR ''?'' = None"
    using assms by (simp_all only: index_of_None not_False_eq_True)
  with assms(3) show ?thesis by (simp add: parsePath_def del: index_of_None)
qed

lemma decode_uri_nonempty: "decode_uri r = Some d \<Longrightarrow> r \<noteq> [] \<Longrightarrow> d \<noteq> []"
  by (subst (asm) decode_uri.simps) (auto split: list.splits if_splits option.splits)

lemma escape_slash_ok: "d \<noteq> [] \<Longrightarrow> \<not> list_ex is_line_terminator d \<Longrightarrow> seg_ok (escape_slash d)"
proof -
  have l: "\<not> list_ex is_line_terminator ''%2F''" by code_simp
  have "CHR ''/'' \<notin> set (escape_slash d)" by (induction d) (auto simp: escape_slash_def)
  moreover have "\<not> list_ex is_line_terminator d \<Longrightarrow> \<not> list_ex is_line_terminator (escape_slash d)"
    using l by (induction d) (auto simp: escape_slash_def)
  moreover assume "d \<noteq> []" and "\<not> list_ex is_line_terminator d"
  ultimately show ?thesis by (cases d) (auto simp: seg_ok_def escape_slash_def)
qed

lemma url_seg_decoded:
  assumes "url_seg r"
  obtains d where "decode_uri r = Some d" and "seg_decoded r = escape_slash d" and "seg_ok (seg_decoded r)"
  using assms decode_uri_nonempty escape_slash_ok
  by (fastforce simp: url_seg_def seg_decoded_def split: option.splits)

lemma decodePath_segments:
  assumes "segs \<noteq> []" and "list_all url_seg segs"
  shows "decodePath (path_text segs) = path_text (map seg_decoded segs)"
proof -
  have "path_text segs = join ''/'' ([] # segs)"
    using assms(1) by (simp add: join_Cons path_text_join)
  moreover have "split_on CHR ''/'' (join ''/'' ([] # segs)) = [] # segs"
    using assms(2) by (intro split_on_join) (auto simp: url_seg_def list_all_iff)
  moreover have "decode_uri [] = Some []" "escape_slash [] = []"
    by (simp_all add: decode_uri.simps escape_slash_def)
  moreover have "list_all (\<lambda>p. p \<noteq> None) (map decode_uri segs)"
    using assms(2) by (auto simp: list_all_iff elim: url_seg_decoded)
  ultimately have "decodePath (path_text segs) = join ''/'' ([] # map seg_decoded segs)"
    by (simp add: decodePath_def Let_def seg_decoded_def [abs_def] comp_def)
  also have "\<dots> = path_text (map seg_decoded segs)"
    using assms(1) by (simp add: join_Cons path_text_join)
  finally show ?thesis .
qed

theorem app_match_segments:
  assumes "list_all url_seg segs" and "segs \<noteq> []"
  shows "app_match (path_text segs) = Some (app_page (map seg_decoded segs))"
proof -
  let ?es = "map seg_decoded segs"
  have es: "list_all seg_ok ?es" "?es \<noteq> []"
    using assms by (auto simp: list_all_iff elim: url_seg_decoded)
  obtain s where s: "path_text ?es = CHR ''/'' # s" using es(2) by (cases ?es) auto
  have "l_pathname (parsePath (path_text segs)) = Some (path_text segs)"
    using assms by (intro parsePath_plain path_text_chars) (auto simp: url_seg_def list_all_iff neq_Nil_conv)
  moreover have "path_text segs \<noteq> []" using assms(2) by (cases segs) auto
  ultimately have "app_match (path_text segs) = first_some (map (\<lambda>i. child_result i (path_text ?es)) app_order)"
    using app_match_children decodePath_segments [OF assms(2,1)] s by simp
  also have "map (\<lambda>i. child_result i (path_text ?es)) app_order = map (table_row ?es) app_order"
    by (rule map_cong [OF refl]) (rule child_rows [OF es(2,1)])
  also have "first_some \<dots> = Some (app_page ?es)" by (rule rows_page [OF es(2)])
  finally show ?thesis .
qed

section \<open>Links\<close>

text \<open>
  The components put names into links as they are. A plain name has none of the characters that
  mean something in a URL, and is no dot segment.
\<close>

definition plain_seg :: "string \<Rightarrow> bool" where
  "plain_seg s \<longleftrightarrow> s \<noteq> [] \<and> list_all (\<lambda>c. c \<notin> set ''/?#%'' \<and> \<not> is_line_terminator c) s \<and> s \<noteq> ''.'' \<and> s \<noteq> ''..''"

text \<open>Following \<open>to\<close> from the page \<open>here\<close>: the target is resolved and its path becomes the location.\<close>

definition follow_link :: "string \<Rightarrow> string list \<Rightarrow> string \<Rightarrow> string" where
  "follow_link to routePathnames here =
     (let v = resolveTo to routePathnames here False in createPath (v_pathname v) (v_search v) (v_hash v))"

lemma decode_uri_plain: "CHR ''%'' \<notin> set s \<Longrightarrow> decode_uri s = Some s"
  by (induction s) (subst decode_uri.simps, force)+

lemma escape_slash_plain: "CHR ''/'' \<notin> set s \<Longrightarrow> escape_slash s = s"
  by (induction s) (auto simp: escape_slash_def)

lemma unescape_slash_plain: "CHR ''%'' \<notin> set s \<Longrightarrow> unescape_slash s = s"
  by (induction s rule: unescape_slash.induct) auto

lemma plain_segD:
  assumes "plain_seg s"
  shows "url_seg s" and "seg_decoded s = s" and "unescape_slash s = s"
proof -
  have c: "CHR ''%'' \<notin> set s" "CHR ''/'' \<notin> set s" "CHR ''?'' \<notin> set s" "CHR ''#'' \<notin> set s" "s \<noteq> []"
      "\<not> list_ex is_line_terminator s"
    using assms by (auto simp: plain_seg_def list_all_iff list_ex_iff)
  then show "url_seg s" by (simp add: url_seg_def decode_uri_plain)
  from c show "seg_decoded s = s" by (simp add: seg_decoded_def decode_uri_plain escape_slash_plain)
  from c(1) show "unescape_slash s = s" by (rule unescape_slash_plain)
qed

lemma plain_match:
  assumes "list_all plain_seg segs" and "segs \<noteq> []"
  shows "app_match (path_text segs) = Some (app_page segs)"
proof -
  have "list_all url_seg segs" and "map seg_decoded segs = segs"
    using assms(1) plain_segD by (auto simp: list_all_iff intro: map_idI)
  with app_match_segments [OF _ assms(2)] show ?thesis by simp
qed

lemma collapse_id: "\<not> str_includes s ''//'' \<Longrightarrow> collapse_slashes s = s"
  by (induction s rule: collapse_slashes.induct) auto

lemma path_no_double: "list_all plain_seg segs \<Longrightarrow> \<not> str_includes (path_text segs) ''//''"
proof (induction segs)
  case (Cons s segs)
  then obtain c u where s: "s = c # u" and c: "c \<noteq> CHR ''/''" "CHR ''/'' \<notin> set u"
    by (cases s) (auto simp: plain_seg_def list_all_iff)
  have "\<not> str_includes (u @ path_text segs) ''//''"
    using Cons c(2) by (induction u) (auto simp: numeral_eq_Suc)
  with s c(1) show ?case by simp
qed simp

lemma push_plain:
  "list_all plain_seg segs \<Longrightarrow> fold push_segment segs acc = acc @ segs"
  by (induction segs arbitrary: acc) (auto simp: push_segment_def plain_seg_def)

lemma absolute_no: "\<not> isAbsoluteUrl (CHR ''/'' # c # s)" if "c \<noteq> CHR ''/''"
proof -
  have "is_lower_az CHR ''/'' = False" "is_upper_az CHR ''/'' = False" by code_simp+
  with that show ?thesis
    by (auto simp: isAbsoluteUrl_def rx_find_start_lang absolute_rx_def rx_alts_lang Cons_eq_append_conv)
qed

lemma follow_plain:
  assumes "list_all plain_seg segs" and "segs \<noteq> []"
  shows "follow_link (path_text segs) from_paths here = path_text segs"
proof -
  let ?p = "path_text segs"
  obtain s rest where s: "segs = s # rest" using assms(2) by (cases segs) auto
  with assms obtain c u where c: "s = c # u" "c \<noteq> CHR ''/''" by (cases s) (auto simp: plain_seg_def list_all_iff)
  have chars: "CHR ''#'' \<notin> set ?p" "CHR ''?'' \<notin> set ?p"
    using assms(1) by (intro path_text_chars; auto simp: plain_seg_def list_all_iff)+
  have parse: "parsePath ?p = \<lparr>l_pathname = Some ?p, l_search = None, l_hash = None\<rparr>"
  proof -
    have "index_of ?p CHR ''#'' = None" "index_of ?p CHR ''?'' = None"
      using chars by (simp_all only: index_of_None not_False_eq_True)
    with s show ?thesis by (simp add: parsePath_def del: index_of_None)
  qed
  have "split_on CHR ''/'' (drop 1 ?p) = segs"
    using assms split_on_join [of segs "CHR ''/''"]
    by (simp add: path_text_join plain_seg_def list_all_iff) blast
  moreover have "split_on CHR ''/'' (strip_end ''/'') = [[]]" by code_simp
  ultimately have "resolvePathname (drop 1 ?p) ''/'' = join ''/'' ([] # segs)"
    using assms by (simp only: resolvePathname_def Let_def push_plain [OF assms(1)]) simp
  also have "\<dots> = ?p" using assms(2) by (simp add: join_Cons path_text_join)
  finally have res: "resolvePathname (drop 1 ?p) ''/'' = ?p" .
  have e: "\<not> ends_with ?p ''/''"
  proof -
    have "?p = butlast ?p @ [last (last segs)]" and "last (last segs) \<noteq> CHR ''/''"
    proof -
      have "last segs \<in> set segs" using assms(2) by simp
      with assms(1) have l: "last segs \<noteq> []" "CHR ''/'' \<notin> set (last segs)" by (auto simp: plain_seg_def list_all_iff)
      then show "last (last segs) \<noteq> CHR ''/''" using last_in_set by metis
      have "last ?p = last (last segs)"
        using assms l(1) path_join_ends [of segs] by (simp add: path_text_join plain_seg_def list_all_iff)
      moreover have "?p \<noteq> []" using s by simp
      ultimately show "?p = butlast ?p @ [last (last segs)]" by (metis append_butlast_last_id)
    qed
    then show ?thesis by (metis ends_with_last last_snoc)
  qed
  have "resolvePath \<lparr>l_pathname = Some ?p, l_search = None, l_hash = None\<rparr> f =
      \<lparr>v_pathname = ?p, v_search = [], v_hash = []\<rparr>" for f
    using res path_no_double [OF assms(1)] absolute_no [OF c(2)] s c
    by (simp add: resolvePath_def opt_str_def Let_def normalizeSearch_def normalizeHash_def with_mark_def)
  moreover have "?p \<noteq> []" "\<not> starts_with ?p ''..''" "?p \<noteq> ''.''" using s by (simp_all add: starts_with_take)
  ultimately show ?thesis
    using e by (simp add: follow_link_def resolveTo_def parse Let_def opt_str_def createPath_def with_mark_def)
qed


section \<open>Properties\<close>

text \<open>C6. The route table means \<open>app_page\<close>: for every URL whose segments decode, flattening the
  table, ranking the branches and running the compiled patterns yields exactly the page and the
  parameters that \<open>app_page\<close> reads off the decoded segments.\<close>

theorem app_routes_correct:
  assumes "list_all url_seg segs" and "segs \<noteq> []"
  shows "app_match (path_text segs) = Some (app_page (map seg_decoded segs))"
  using assms by (rule app_match_segments)

lemma app_routes_correct_witness:
  "app_match (path_text [''ada'', ''engine'', ''tree'', ''v1%2Fnotes'', ''src'']) =
    Some (app_page (map seg_decoded [''ada'', ''engine'', ''tree'', ''v1%2Fnotes'', ''src'']))"
proof (rule app_routes_correct)
  show "list_all url_seg [''ada'', ''engine'', ''tree'', ''v1%2Fnotes'', ''src'']" by code_simp
qed simp

text \<open>C31. Following the link of a file from any page shows that file: the location it leads to, written
  out with its search and hash, is the link itself, and the matched page is the file page with the owner,
  repository, ref and path of the link. The names are plain: not empty, without slash, question mark,
  hash, percent sign and line end, other than \<open>.\<close> and \<open>..\<close>.\<close>

theorem file_link_roundtrip:
  assumes "list_all plain_seg [owner, repo, ref]" and "list_all plain_seg path" and "path \<noteq> []"
  shows "follow_link (path_text ([owner, repo, ''blob'', ref] @ path)) from_paths here = path_text ([owner, repo, ''blob'', ref] @ path)
    \<and> app_match (follow_link (path_text ([owner, repo, ''blob'', ref] @ path)) from_paths here) =
        Some (RepoFilePage, [(''owner'', Some owner), (''repo'', Some repo), (''ref'', Some ref),
          (''*'', Some (join ''/'' path))])"
proof -
  let ?segs = "[owner, repo, ''blob'', ref] @ path"
  have "plain_seg ''blob''" by code_simp
  with assms have p: "list_all plain_seg ?segs" by simp
  have "CHR ''%'' \<notin> set (join ''/'' path)"
    using assms(2) by (induction "''/''" path rule: join.induct) (auto simp: plain_seg_def list_all_iff)
  then have u: "unescape_slash (join ''/'' path) = join ''/'' path" by (rule unescape_slash_plain)
  have "same_text ''blob'' ''blob''" "\<not> same_text ''commits'' ''blob''" by code_simp+
  with u assms(1) plain_segD(3) have m: "app_match (path_text ?segs) =
      Some (RepoFilePage, [(''owner'', Some owner), (''repo'', Some repo), (''ref'', Some ref), (''*'', Some (join ''/'' path))])"
    by (simp add: plain_match [OF p, simplified] param_def splat_param_def)
  have "follow_link (path_text ?segs) from_paths here = path_text ?segs" by (rule follow_plain [OF p]) simp
  with m show ?thesis by (simp only:)
qed

lemma file_link_roundtrip_witness:
  "follow_link (path_text ([''ada'', ''engine'', ''blob'', ''main''] @ [''src'', ''a b.c''])) [''/''] ''/ada'' =
     path_text ([''ada'', ''engine'', ''blob'', ''main''] @ [''src'', ''a b.c''])
   \<and> app_match (follow_link (path_text ([''ada'', ''engine'', ''blob'', ''main''] @ [''src'', ''a b.c''])) [''/''] ''/ada'') =
    Some (RepoFilePage, [(''owner'', Some ''ada''), (''repo'', Some ''engine''), (''ref'', Some ''main''),
      (''*'', Some (join ''/'' [''src'', ''a b.c'']))])"
proof (rule file_link_roundtrip)
  show "list_all plain_seg [''ada'', ''engine'', ''main'']" by code_simp
  show "list_all plain_seg [''src'', ''a b.c'']" by code_simp
qed simp

text \<open>A branch whose name has a slash is not reachable by its link: the branch selector links
  to \<open>/owner/repo/tree/a/b\<close> for the branch \<open>a/b\<close>, and the repository page it opens
  has the ref \<open>a\<close> and the path \<open>b\<close>.\<close>

theorem slash_branch_split:
  assumes "list_all plain_seg [owner, repo, a, b]"
  shows "app_match (follow_link (''/'' @ owner @ ''/'' @ repo @ ''/tree/'' @ (a @ ''/'' @ b)) from_paths here) =
    Some (RepoPage, [(''owner'', Some owner), (''repo'', Some repo), (''ref'', Some a), (''*'', Some b)])"
proof -
  let ?segs = "[owner, repo, ''tree'', a, b]"
  have "plain_seg ''tree''" by code_simp
  with assms have p: "list_all plain_seg ?segs" by simp
  have t: "''/'' @ owner @ ''/'' @ repo @ ''/tree/'' @ (a @ ''/'' @ b) = path_text ?segs" by simp
  have "same_text ''tree'' ''tree''" "\<not> same_text ''commits'' ''tree''" "\<not> same_text ''blob'' ''tree''" by code_simp+
  with assms plain_segD(3) show ?thesis
    unfolding t by (subst follow_plain [OF p]) (simp_all add: plain_match [OF p, simplified] param_def splat_param_def)
qed

lemma slash_branch_split_witness:
  "app_match (follow_link (''/'' @ ''ada'' @ ''/'' @ ''engine'' @ ''/tree/'' @ (''feature'' @ ''/'' @ ''x'')) [''/''] ''/ada'') =
    Some (RepoPage, [(''owner'', Some ''ada''), (''repo'', Some ''engine''), (''ref'', Some ''feature''), (''*'', Some ''x'')])"
proof (rule slash_branch_split)
  show "list_all plain_seg [''ada'', ''engine'', ''feature'', ''x'']" by code_simp
qed

section \<open>Ranking\<close>

definition siblings :: "'p branch \<Rightarrow> 'p branch \<Rightarrow> bool" where
  "siblings a b \<longleftrightarrow> length (b_metas a) = length (b_metas b) \<and> butlast (branch_indexes a) = butlast (branch_indexes b)"

lemma compare_siblings:
  "siblings a b \<Longrightarrow> compare_branches a b \<le> 0 \<longleftrightarrow>
    b_score b < b_score a \<or> b_score a = b_score b \<and> last (branch_indexes a) \<le> last (branch_indexes b)"
  by (auto simp: compare_branches_def compareIndexes_def siblings_def branch_indexes_def)

lemma mset_insert_branch: "mset (insert_branch b bs) = add_mset b (mset bs)"
  by (induction bs) auto

lemma mset_rank: "mset (rankRouteBranches bs) = mset bs"
  by (induction bs) (simp_all add: rankRouteBranches_def mset_insert_branch)

lemma insert_branch_sorted:
  assumes "sorted_wrt (\<lambda>a b. compare_branches a b \<le> 0) bs" and "\<forall>a \<in> set (b # bs). \<forall>c \<in> set (b # bs). siblings a c"
  shows "sorted_wrt (\<lambda>a b. compare_branches a b \<le> 0) (insert_branch b bs)"
  using assms
proof (induction bs)
  case (Cons x xs)
  show ?case
  proof (cases "compare_branches b x \<le> 0")
    case True
    have "compare_branches b y \<le> 0" if "y \<in> set xs" for y
    proof -
      have "compare_branches x y \<le> 0" using Cons.prems(1) that by simp
      with True show ?thesis
        using Cons.prems(2) that compare_siblings [of b x] compare_siblings [of x y] compare_siblings [of b y] by auto
    qed
    with True Cons.prems(1) show ?thesis by simp
  next
    case False
    have "set (insert_branch b xs) = insert b (set xs)"
      using mset_insert_branch [of b xs] by (metis set_mset_add_mset_insert set_mset_mset)
    moreover have "compare_branches x b \<le> 0"
      using False Cons.prems(2) compare_siblings [of b x] compare_siblings [of x b] by auto
    ultimately show ?thesis using False Cons by auto
  qed
qed simp

text \<open>Ranking the branches of one parent loses none and orders them by falling score, and at
  equal scores by their place in the table.\<close>

theorem rank_sorts_siblings:
  assumes "\<forall>a \<in> set bs. \<forall>b \<in> set bs. siblings a b"
  shows "mset (rankRouteBranches bs) = mset bs \<and>
    sorted_wrt (\<lambda>a b. b_score b < b_score a
      \<or> b_score a = b_score b \<and> last (branch_indexes a) \<le> last (branch_indexes b)) (rankRouteBranches bs)"
proof -
  have "sorted_wrt (\<lambda>a b. compare_branches a b \<le> 0) (rankRouteBranches bs)"
    using assms
  proof (induction bs)
    case (Cons b bs)
    moreover have "set (rankRouteBranches bs) = set bs" using mset_rank [of bs] by (metis set_mset_mset)
    ultimately show ?case by (simp add: rankRouteBranches_def insert_branch_sorted)
  qed (simp add: rankRouteBranches_def)
  moreover have "\<forall>a \<in> set (rankRouteBranches bs). \<forall>b \<in> set (rankRouteBranches bs). siblings a b"
    using assms mset_rank [of bs] by (metis set_mset_mset)
  ultimately have "sorted_wrt (\<lambda>a b. b_score b < b_score a
      \<or> b_score a = b_score b \<and> last (branch_indexes a) \<le> last (branch_indexes b)) (rankRouteBranches bs)"
    by (simp add: sorted_wrt_iff_nth_less compare_siblings)
  with mset_rank show ?thesis by blast
qed

lemma rank_sorts_siblings_witness:
  "mset (rankRouteBranches (the (flattenRoutes 0 app_routes [] []))) = mset (the (flattenRoutes 0 app_routes [] [])) \<and>
    sorted_wrt (\<lambda>a b. b_score b < b_score a
      \<or> b_score a = b_score b \<and> last (branch_indexes a) \<le> last (branch_indexes b))
      (rankRouteBranches (the (flattenRoutes 0 app_routes [] [])))"
proof (rule rank_sorts_siblings)
  show "\<forall>a \<in> set (the (flattenRoutes 0 app_routes [] [])). \<forall>b \<in> set (the (flattenRoutes 0 app_routes [] [])). siblings a b"
    unfolding siblings_def by code_simp
qed

end
