(* ===== verification/AuthFlow.thy ===== *)
theory AuthFlow
  imports ApiClient AppRoutes
begin

text \<open>
  Signing in and out over time: \<open>useAuthRehydration\<close> with \<open>validateToken\<close>, the submit handlers of
  \<open>LoginForm\<close> and \<open>RegisterForm\<close>, \<open>handleLogout\<close> of the navigation bar, and the effect of \<open>App\<close>
  that empties the query cache. An \<open>async\<close> function is cut at every \<open>await\<close>: a \<open>task\<close> is what
  waits for a reply, and \<open>run_task\<close> continues it. The replies arrive in any order, between any
  other events (\<open>app_step\<close>); what the network reports is arbitrary. The production build is
  modelled, in which an effect runs once. \<open>xsrf\<close> is the value of the XSRF cookie.
\<close>

section \<open>State\<close>

record form_state =
  f_error :: "json option"
  f_loading :: bool

datatype task =
    Validating js_value request
  | LoginTok nat string string request
  | LoginUser nat "json option" request
  | RegPost nat string string string request
  | RegTok nat string string request
  | RegUser nat "json option" request

text \<open>
  A form task carries the number of the page visit whose form it belongs to: when another page is
  shown, the form is unmounted and later replies no longer reach its state. \<open>ap_visit\<close> is the
  current number. \<open>ap_waiting\<close>: a listener waits for the end of hydration; \<open>ap_prev_auth\<close> is \<open>prevAuthRef\<close>;
  \<open>ap_clears\<close> counts the calls of \<open>queryClient.clear()\<close>.
\<close>

record app =
  ap_web :: web
  ap_ready :: bool
  ap_waiting :: bool
  ap_tasks :: "task list"
  ap_visit :: nat
  ap_login :: form_state
  ap_register :: form_state
  ap_prev_auth :: bool
  ap_clears :: nat

definition idle_form :: form_state where
  "idle_form = \<lparr>f_error = None, f_loading = False\<rparr>"

definition web_auth :: "(store \<Rightarrow> store) \<Rightarrow> web \<Rightarrow> web" where
  "web_auth f w = w\<lparr>w_auth := f (w_auth w)\<rparr>"

text \<open>\<open>login\<close> of the store, for arguments that may be \<open>undefined\<close>.\<close>

definition js_of :: "json option \<Rightarrow> js_value" where
  "js_of v = (case v of None \<Rightarrow> Undef | Some j \<Rightarrow> Data j)"

definition store_login :: "js_value \<Rightarrow> js_value \<Rightarrow> store \<Rightarrow> unit outcome \<times> store" where
  "store_login token user s =
     config_set auth_options
       (Fresh [(''token'', token), (''user'', user), (''isAuthenticated'', Data (JBool True))]) s"

definition is_authenticated :: "store \<Rightarrow> bool" where
  "is_authenticated s = js_truthy (auth_field s ''isAuthenticated'')"

text \<open>What signing in and out leave in the store, written to disk or not.\<close>

lemma store_login_fields:
  "auth_field (snd (store_login t u s)) ''token'' = t" "is_authenticated (snd (store_login t u s))"
  by (simp_all add: config_set_state store_login_def auth_field_def js_read_assign is_authenticated_def js_truthy_def json_truthy_def)

lemma logout_fields:
  "auth_field (snd (auth_logout s)) ''token'' = Data JNull" "\<not> is_authenticated (snd (auth_logout s))"
  by (simp_all add: config_set_state auth_logout_def auth_field_def js_read_assign is_authenticated_def js_truthy_def json_truthy_def)

section \<open>Validating the stored token\<close>

definition start_validation :: "string option \<Rightarrow> app \<Rightarrow> app" where
  "start_validation xsrf a =
     (let token = auth_field (w_auth (ap_web a)) ''token'' in
      if \<not> js_truthy token then a\<lparr>ap_ready := True\<rparr>
      else (case api_send xsrf (getCurrentUser None) (ap_web a) of
          (Inr (r, msg), w) \<Rightarrow> a\<lparr>ap_web := w, ap_tasks := ap_tasks a @ [Validating token r]\<rparr>
        | (Inl e, w) \<Rightarrow> a\<lparr>ap_web := web_auth (snd \<circ> auth_logout) w, ap_ready := True\<rparr>))"

text \<open>
  The end of \<open>validateToken\<close> and the \<open>finally\<close> after it. An exception of \<open>login\<close> is caught like a
  failed request.
\<close>

definition validate_reply :: "js_value \<Rightarrow> request \<Rightarrow> net_result \<Rightarrow> app \<Rightarrow> app" where
  "validate_reply token r res a =
     (let (x, w) = api_receive (getCurrentUser None) r res (ap_web a);
          w' = (case x of
                  Inl e \<Rightarrow> web_auth (snd \<circ> auth_logout) w
                | Inr user \<Rightarrow>
                    (case store_login token (js_of user) (w_auth w) of
                       (Returned _, s) \<Rightarrow> w\<lparr>w_auth := s\<rparr>
                     | (Thrown e, s) \<Rightarrow> web_auth (snd \<circ> auth_logout) (w\<lparr>w_auth := s\<rparr>)))
      in a\<lparr>ap_web := w', ap_ready := True\<rparr>)"

text \<open>The first render of \<open>App\<close> and its effects; \<open>None\<close> when \<open>useAuthStore.persist\<close> is missing.\<close>

definition mount_app :: "string option \<Rightarrow> web \<Rightarrow> app option" where
  "mount_app xsrf w =
     (if \<not> persist_api (w_auth w) then None
      else
        let a = \<lparr>ap_web = w, ap_ready = has_hydrated (w_auth w), ap_waiting = False, ap_tasks = [], ap_visit = 0,
                 ap_login = idle_form, ap_register = idle_form,
                 ap_prev_auth = is_authenticated (w_auth w), ap_clears = 0\<rparr>
        in Some (if has_hydrated (w_auth w) then start_validation xsrf a else a\<lparr>ap_waiting := True\<rparr>))"

definition load_page :: "string option \<Rightarrow> bool \<Rightarrow> local_storage \<Rightarrow> string \<Rightarrow> app option" where
  "load_page xsrf available d path =
     mount_app xsrf \<lparr>w_auth = useAuthStore available d, w_pathname = path, w_hrefs = []\<rparr>"

section \<open>Navigation\<close>

definition page_at :: "string \<Rightarrow> page option" where
  "page_at path = map_option fst (app_match path)"

text \<open>\<open>navigate(path)\<close>: another page gets fresh forms.\<close>

definition navigate_to :: "string \<Rightarrow> app \<Rightarrow> app" where
  "navigate_to path a =
     (let a1 = a\<lparr>ap_web := (ap_web a)\<lparr>w_pathname := path\<rparr>\<rparr> in
      if page_at path = page_at (w_pathname (ap_web a)) then a1
      else a1\<lparr>ap_visit := Suc (ap_visit a), ap_login := idle_form, ap_register := idle_form\<rparr>)"

section \<open>The login form\<close>

definition login_message :: string where
  "login_message = ''Invalid credentials. Check your username/email and password.''"

definition login_failed :: "nat \<Rightarrow> app \<Rightarrow> app" where
  "login_failed v a =
     (if v = ap_visit a then a\<lparr>ap_login := \<lparr>f_error = Some (JStr login_message), f_loading = False\<rparr>\<rparr> else a)"

definition submit_login :: "string option \<Rightarrow> string \<Rightarrow> string \<Rightarrow> app \<Rightarrow> app" where
  "submit_login xsrf loginVal password a =
     (let a1 = a\<lparr>ap_login := \<lparr>f_error = None, f_loading = True\<rparr>\<rparr> in
      case api_send xsrf (api_login loginVal password) (ap_web a1) of
        (Inr (r, msg), w) \<Rightarrow> a1\<lparr>ap_web := w, ap_tasks := ap_tasks a1 @ [LoginTok (ap_visit a) loginVal password r]\<rparr>
      | (Inl e, w) \<Rightarrow> login_failed (ap_visit a) (a1\<lparr>ap_web := w\<rparr>))"

text \<open>Reading \<open>tokenData.token\<close>: \<open>None\<close> when \<open>tokenData\<close> has no properties.\<close>

definition token_of :: "json option \<Rightarrow> json option option" where
  "token_of td = (case td of None \<Rightarrow> None | Some j \<Rightarrow> if j = JNull then None else Some (json_prop j ''token''))"

definition login_tok_reply :: "string option \<Rightarrow> nat \<Rightarrow> string \<Rightarrow> string \<Rightarrow> request \<Rightarrow> net_result \<Rightarrow> app \<Rightarrow> app" where
  "login_tok_reply xsrf v l p r res a =
     (let (x, w) = api_receive (api_login l p) r res (ap_web a); a1 = a\<lparr>ap_web := w\<rparr> in
      case x of
        Inl e \<Rightarrow> login_failed v a1
      | Inr td \<Rightarrow> (case token_of td of
            None \<Rightarrow> login_failed v a1
          | Some tok \<Rightarrow> (case api_send xsrf (getCurrentUser tok) w of
                (Inr (r', msg), w') \<Rightarrow> a1\<lparr>ap_web := w', ap_tasks := ap_tasks a1 @ [LoginUser v tok r']\<rparr>
              | (Inl e, w') \<Rightarrow> login_failed v (a1\<lparr>ap_web := w'\<rparr>))))"

text \<open>\<open>navigate('/')\<close> leaves the form, so the \<open>setLoading\<close> after it has no effect.\<close>

definition login_user_reply :: "nat \<Rightarrow> json option \<Rightarrow> request \<Rightarrow> net_result \<Rightarrow> app \<Rightarrow> app" where
  "login_user_reply v tok r res a =
     (let (x, w) = api_receive (getCurrentUser tok) r res (ap_web a); a1 = a\<lparr>ap_web := w\<rparr> in
      case x of
        Inl e \<Rightarrow> login_failed v a1
      | Inr user \<Rightarrow> (case store_login (js_of tok) (js_of user) (w_auth w) of
            (Returned _, s) \<Rightarrow> navigate_to ''/'' (a1\<lparr>ap_web := w\<lparr>w_auth := s\<rparr>\<rparr>)
          | (Thrown e, s) \<Rightarrow> login_failed v (a1\<lparr>ap_web := w\<lparr>w_auth := s\<rparr>\<rparr>)))"

section \<open>The registration form\<close>

text \<open>\<open>SLUG_RE\<close> is \<open>/^[a-z0-9]([a-z0-9-]*[a-z0-9])?$/\<close>.\<close>

definition slug_char :: "char \<Rightarrow> bool" where
  "slug_char c = (is_lower_az c \<or> is_digit c)"

definition SLUG_RE :: rx where
  "SLUG_RE = RSeq (RSet slug_char)
     (rx_opt (RSeq (RStar (RSet (\<lambda>c. slug_char c \<or> c = CHR ''-''))) (RSet slug_char)))"

definition usernameError :: "string \<Rightarrow> string option" where
  "usernameError username =
     (if username \<noteq> [] \<and> \<not> rx_match SLUG_RE username
      then Some ''Only lowercase letters, numbers, and hyphens'' else None)"

definition passwordError :: "string \<Rightarrow> string option" where
  "passwordError password =
     (if password \<noteq> [] \<and> length password < 8 then Some ''At least 8 characters required'' else None)"

definition submit_disabled :: "string \<Rightarrow> string \<Rightarrow> bool" where
  "submit_disabled username password = (usernameError username \<noteq> None \<or> length password < 8)"

text \<open>
  The message of a failed registration: what the response says, if there was one. An error that is
  no axios error, or one without a response, has no property \<open>response\<close>.
\<close>

definition register_message :: "api_error \<Rightarrow> json" where
  "register_message e = (case e of
       AxiosErr _ (Some (status, body)) _ \<Rightarrow>
         (case json_prop body ''error'' of
            None \<Rightarrow> JStr ''Registration failed''
          | Some j \<Rightarrow> if j = JNull then JStr ''Registration failed'' else j)
     | _ \<Rightarrow> JStr ''Registration failed. Try a different username or email.'')"

definition register_failed :: "nat \<Rightarrow> api_error \<Rightarrow> app \<Rightarrow> app" where
  "register_failed v e a =
     (if v = ap_visit a then a\<lparr>ap_register := \<lparr>f_error = Some (register_message e), f_loading = False\<rparr>\<rparr> else a)"

definition submit_register :: "string option \<Rightarrow> string \<Rightarrow> string \<Rightarrow> string \<Rightarrow> app \<Rightarrow> app" where
  "submit_register xsrf username email password a =
     (if usernameError username \<noteq> None then a
      else
        let a1 = a\<lparr>ap_register := \<lparr>f_error = None, f_loading = True\<rparr>\<rparr> in
        (case api_send xsrf (api_register username email password) (ap_web a1) of
           (Inr (r, msg), w) \<Rightarrow> a1\<lparr>ap_web := w, ap_tasks := ap_tasks a1 @ [RegPost (ap_visit a) username email password r]\<rparr>
         | (Inl e, w) \<Rightarrow> register_failed (ap_visit a) e (a1\<lparr>ap_web := w\<rparr>)))"

definition reg_post_reply ::
    "string option \<Rightarrow> nat \<Rightarrow> string \<Rightarrow> string \<Rightarrow> string \<Rightarrow> request \<Rightarrow> net_result \<Rightarrow> app \<Rightarrow> app" where
  "reg_post_reply xsrf v username email password r res a =
     (let (x, w) = api_receive (api_register username email password) r res (ap_web a); a1 = a\<lparr>ap_web := w\<rparr> in
      case x of
        Inl e \<Rightarrow> register_failed v e a1
      | Inr _ \<Rightarrow> (case api_send xsrf (api_login username password) w of
            (Inr (r', msg), w') \<Rightarrow> a1\<lparr>ap_web := w', ap_tasks := ap_tasks a1 @ [RegTok v username password r']\<rparr>
          | (Inl e, w') \<Rightarrow> register_failed v e (a1\<lparr>ap_web := w'\<rparr>)))"

definition reg_tok_reply :: "string option \<Rightarrow> nat \<Rightarrow> string \<Rightarrow> string \<Rightarrow> request \<Rightarrow> net_result \<Rightarrow> app \<Rightarrow> app" where
  "reg_tok_reply xsrf v l p r res a =
     (let (x, w) = api_receive (api_login l p) r res (ap_web a); a1 = a\<lparr>ap_web := w\<rparr> in
      case x of
        Inl e \<Rightarrow> register_failed v e a1
      | Inr td \<Rightarrow> (case token_of td of
            None \<Rightarrow> register_failed v (ScriptError ''TypeError'') a1
          | Some tok \<Rightarrow> (case api_send xsrf (getCurrentUser tok) w of
                (Inr (r', msg), w') \<Rightarrow> a1\<lparr>ap_web := w', ap_tasks := ap_tasks a1 @ [RegUser v tok r']\<rparr>
              | (Inl e, w') \<Rightarrow> register_failed v e (a1\<lparr>ap_web := w'\<rparr>))))"

definition reg_user_reply :: "nat \<Rightarrow> json option \<Rightarrow> request \<Rightarrow> net_result \<Rightarrow> app \<Rightarrow> app" where
  "reg_user_reply v tok r res a =
     (let (x, w) = api_receive (getCurrentUser tok) r res (ap_web a); a1 = a\<lparr>ap_web := w\<rparr> in
      case x of
        Inl e \<Rightarrow> register_failed v e a1
      | Inr user \<Rightarrow> (case store_login (js_of tok) (js_of user) (w_auth w) of
            (Returned _, s) \<Rightarrow> navigate_to ''/'' (a1\<lparr>ap_web := w\<lparr>w_auth := s\<rparr>\<rparr>)
          | (Thrown e, s) \<Rightarrow> register_failed v (ScriptError (error_text e)) (a1\<lparr>ap_web := w\<lparr>w_auth := s\<rparr>\<rparr>)))"

section \<open>Events\<close>

text \<open>\<open>logout(); navigate('/login')\<close>: an exception of the first stops the second.\<close>

definition handleLogout :: "app \<Rightarrow> app" where
  "handleLogout a =
     (case auth_logout (w_auth (ap_web a)) of
        (Returned _, s) \<Rightarrow> navigate_to ''/login'' (a\<lparr>ap_web := (ap_web a)\<lparr>w_auth := s\<rparr>\<rparr>)
      | (Thrown _, s) \<Rightarrow> a\<lparr>ap_web := (ap_web a)\<lparr>w_auth := s\<rparr>\<rparr>)"

definition run_task :: "string option \<Rightarrow> task \<Rightarrow> net_result \<Rightarrow> app \<Rightarrow> app" where
  "run_task xsrf t res a = (case t of
       Validating token r \<Rightarrow> validate_reply token r res a
     | LoginTok v l p r \<Rightarrow> login_tok_reply xsrf v l p r res a
     | LoginUser v tok r \<Rightarrow> login_user_reply v tok r res a
     | RegPost v u e p r \<Rightarrow> reg_post_reply xsrf v u e p r res a
     | RegTok v l p r \<Rightarrow> reg_tok_reply xsrf v l p r res a
     | RegUser v tok r \<Rightarrow> reg_user_reply v tok r res a)"

text \<open>The effect of \<open>App\<close> after a render.\<close>

definition auth_effect :: "app \<Rightarrow> app" where
  "auth_effect a =
     (let now = is_authenticated (w_auth (ap_web a)) in
      a\<lparr>ap_clears := (if ap_prev_auth a \<and> \<not> now then Suc (ap_clears a) else ap_clears a), ap_prev_auth := now\<rparr>)"

definition drop_task :: "nat \<Rightarrow> app \<Rightarrow> app" where
  "drop_task i a = a\<lparr>ap_tasks := take i (ap_tasks a) @ drop (Suc i) (ap_tasks a)\<rparr>"

definition other_reply :: "endpoint \<Rightarrow> request \<Rightarrow> net_result \<Rightarrow> app \<Rightarrow> app" where
  "other_reply e r res a = a\<lparr>ap_web := snd (api_receive e r res (ap_web a))\<rparr>"

text \<open>
  One step: a form is submitted (the button is disabled while the form is loading), a reply
  arrives for a task or for some other call, the user follows a link or signs out, or the page is
  loaded anew. \<open>ok t res\<close> restricts the replies, for properties that need an honest server.
\<close>

inductive app_step :: "string option \<Rightarrow> (task \<Rightarrow> net_result \<Rightarrow> bool) \<Rightarrow> app \<Rightarrow> app \<Rightarrow> bool"
  for xsrf :: "string option" and ok :: "task \<Rightarrow> net_result \<Rightarrow> bool" where
  login: "ap_ready a \<Longrightarrow> page_at (w_pathname (ap_web a)) = Some LoginPage \<Longrightarrow> \<not> f_loading (ap_login a) \<Longrightarrow>
    app_step xsrf ok a (auth_effect (submit_login xsrf l p a))"
| register: "ap_ready a \<Longrightarrow> page_at (w_pathname (ap_web a)) = Some RegisterPage \<Longrightarrow>
    \<not> f_loading (ap_register a) \<Longrightarrow> \<not> submit_disabled u p \<Longrightarrow>
    app_step xsrf ok a (auth_effect (submit_register xsrf u m p a))"
| reply: "i < length (ap_tasks a) \<Longrightarrow> ok (ap_tasks a ! i) res \<Longrightarrow>
    app_step xsrf ok a (auth_effect (run_task xsrf (ap_tasks a ! i) res (drop_task i a)))"
| other: "ap_ready a \<Longrightarrow> app_step xsrf ok a (auth_effect (other_reply e r res a))"
| follow: "ap_ready a \<Longrightarrow> app_step xsrf ok a (auth_effect (navigate_to path a))"
| logout: "ap_ready a \<Longrightarrow> app_step xsrf ok a (auth_effect (handleLogout a))"
| reload: "load_page xsrf True (disk (w_auth (ap_web a))) path = Some a' \<Longrightarrow> app_step xsrf ok a a'"

inductive reachable :: "string option \<Rightarrow> (task \<Rightarrow> net_result \<Rightarrow> bool) \<Rightarrow> local_storage \<Rightarrow> app \<Rightarrow> bool"
  for xsrf :: "string option" and ok :: "task \<Rightarrow> net_result \<Rightarrow> bool" and d :: local_storage where
  start: "load_page xsrf True d path = Some a \<Longrightarrow> reachable xsrf ok d a"
| step: "reachable xsrf ok d a \<Longrightarrow> app_step xsrf ok a b \<Longrightarrow> reachable xsrf ok d b"

inductive_cases app_stepE: "app_step xsrf ok a b"

text \<open>What \<open>SLUG_RE\<close> matches.\<close>

lemma slug_lang:
  "s \<in> rx_lang SLUG_RE \<longleftrightarrow> s \<noteq> [] \<and> (\<forall>c \<in> set s. slug_char c \<or> c = CHR ''-'') \<and> slug_char (hd s) \<and> slug_char (last s)"
proof -
  let ?any = "\<lambda>c. slug_char c \<or> c = CHR ''-''"
  have tail: "u \<in> rx_lang (RSeq (RStar (RSet ?any)) (RSet slug_char)) \<longleftrightarrow>
      u \<noteq> [] \<and> (\<forall>c \<in> set u. ?any c) \<and> slug_char (last u)" for u
  proof (cases u rule: rev_cases)
    case (snoc v c)
    then show ?thesis
      using rx_star_set_lang [of v ?any] by (auto simp only: rx_lang.simps) (auto simp: rx_star_set_lang simp del: rx_lang.simps(6))
  qed auto
  show ?thesis
  proof (cases s)
    case (Cons c u)
    then show ?thesis
      unfolding SLUG_RE_def by (simp only: seq_Cons rx_opt_lang insert_iff tail) (auto split: if_splits)
  qed (auto simp: SLUG_RE_def)
qed

end
