(* ===== verification/AuthFlowFacts.thy ===== *)
theory AuthFlowFacts
  imports AuthFlow
begin

text \<open>
  What holds of \<open>AuthFlow\<close>: the handlers keep hydration, sessions stay consistent under an honest
  server, a form loads exactly while a reply is outstanding, the replies run out; and the
  properties of start-up, sign in, sign out and registration.
\<close>

section \<open>What the handlers keep\<close>

lemma store_ops_keep [simp]:
  "has_hydrated (snd (store_login t u s)) = has_hydrated s"
  "has_hydrated (snd (auth_logout s)) = has_hydrated s"
  "persist_api (snd (store_login t u s)) = persist_api s"
  "persist_api (snd (auth_logout s)) = persist_api s"
  by (simp_all add: store_login_def auth_logout_def)

lemma store_ops_keep' :
  "store_login t u s = (r, s') \<Longrightarrow> has_hydrated s' = has_hydrated s \<and> persist_api s' = persist_api s"
  "auth_logout s = (r, s') \<Longrightarrow> has_hydrated s' = has_hydrated s \<and> persist_api s' = persist_api s"
  by (metis store_ops_keep snd_conv)+

lemma receive_auth: "w_auth (snd (api_receive e r res w)) \<in> {w_auth w, snd (auth_logout (w_auth w))}"
  by (auto simp: api_receive_eq on_rejected_def split: sum.splits prod.splits outcome.splits)

lemma receive_keeps:
  "api_receive e r res w = (x, w') \<Longrightarrow>
    has_hydrated (w_auth w') = has_hydrated (w_auth w) \<and> persist_api (w_auth w') = persist_api (w_auth w)"
  using receive_auth [of e r res w] by auto

lemma send_keeps:
  assumes "app_endpoint e" and "api_send xsrf e w = (x, w')"
  shows "w' = w \<and> (\<exists>r. x = Inr (r, xhr_send xsrf r))"
  using api_send_eq [OF assms(1), of xsrf w] assms(2) by auto

lemma send_simp:
  assumes "app_endpoint e"
  obtains r where "api_send xsrf e w = (Inr (r, xhr_send xsrf r), w)"
  using api_send_eq [OF assms] by blast

lemmas task_defs = run_task_def validate_reply_def login_tok_reply_def login_user_reply_def reg_post_reply_def
  reg_tok_reply_def reg_user_reply_def login_failed_def register_failed_def

abbreviation hydrated :: "app \<Rightarrow> bool" where
  "hydrated a \<equiv> has_hydrated (w_auth (ap_web a))"

lemma navigate_keeps [simp]:
  "w_auth (ap_web (navigate_to path a)) = w_auth (ap_web a)" "ap_ready (navigate_to path a) = ap_ready a"
  "ap_tasks (navigate_to path a) = ap_tasks a"
  by (simp_all add: navigate_to_def Let_def)

lemma run_task_hydrated [simp]: "hydrated (run_task xsrf t res a) = hydrated a"
  by (cases t)
    (auto simp: task_defs web_auth_def Let_def
      split: prod.splits sum.splits option.splits outcome.splits
      dest!: receive_keeps store_ops_keep' send_keeps [rotated])

lemma run_task_ready: "ap_ready a \<Longrightarrow> ap_ready (run_task xsrf t res a)"
  by (cases t)
    (auto simp: task_defs Let_def split: prod.splits sum.splits option.splits outcome.splits)

lemma submit_login_eq:
  obtains r where "submit_login xsrf l p a = a\<lparr>ap_login := \<lparr>f_error = None, f_loading = True\<rparr>,
    ap_tasks := ap_tasks a @ [LoginTok (ap_visit a) l p r]\<rparr>"
proof -
  obtain r where "api_send xsrf (api_login l p) (ap_web a) = (Inr (r, xhr_send xsrf r), ap_web a)"
    by (rule send_simp [of "api_login l p" xsrf "ap_web a"]) simp_all
  with that show ?thesis by (simp add: submit_login_def Let_def)
qed

lemma submit_register_eq:
  assumes "usernameError u = None"
  obtains r where "submit_register xsrf u m p a = a\<lparr>ap_register := \<lparr>f_error = None, f_loading = True\<rparr>,
    ap_tasks := ap_tasks a @ [RegPost (ap_visit a) u m p r]\<rparr>"
proof -
  obtain r where "api_send xsrf (api_register u m p) (ap_web a) = (Inr (r, xhr_send xsrf r), ap_web a)"
    by (rule send_simp [of "api_register u m p" xsrf "ap_web a"]) simp_all
  with that assms show ?thesis by (simp add: submit_register_def Let_def)
qed

lemma start_validation_eq:
  obtains "\<not> js_truthy (auth_field (w_auth (ap_web a)) ''token'')" "start_validation xsrf a = a\<lparr>ap_ready := True\<rparr>"
  | r where "js_truthy (auth_field (w_auth (ap_web a)) ''token'')"
      "start_validation xsrf a = a\<lparr>ap_tasks := ap_tasks a @ [Validating (auth_field (w_auth (ap_web a)) ''token'') r]\<rparr>"
proof (cases "js_truthy (auth_field (w_auth (ap_web a)) ''token'')")
  case True
  obtain r where "api_send xsrf (getCurrentUser None) (ap_web a) = (Inr (r, xhr_send xsrf r), ap_web a)"
    by (rule send_simp [of "getCurrentUser None" xsrf "ap_web a"]) simp_all
  with that(2) True show ?thesis by (simp add: start_validation_def Let_def)
qed (use that(1) in \<open>simp add: start_validation_def\<close>)

lemma logout_hydrated [simp]: "hydrated (handleLogout a) = hydrated a"
  by (auto simp: handleLogout_def split: prod.splits outcome.splits dest!: store_ops_keep')

lemma effect_keeps [simp]:
  "ap_web (auth_effect a) = ap_web a" "ap_ready (auth_effect a) = ap_ready a" "ap_tasks (auth_effect a) = ap_tasks a"
  "ap_login (auth_effect a) = ap_login a" "ap_register (auth_effect a) = ap_register a"
  "ap_waiting (auth_effect a) = ap_waiting a"
  by (simp_all add: auth_effect_def Let_def)

lemma drop_task_keeps [simp]:
  "ap_web (drop_task i a) = ap_web a" "ap_ready (drop_task i a) = ap_ready a"
  "ap_login (drop_task i a) = ap_login a" "ap_register (drop_task i a) = ap_register a"
  by (simp_all add: drop_task_def)

lemma load_page_state:
  assumes "load_page xsrf True d path = Some a"
  shows "ap_web a = \<lparr>w_auth = useAuthStore True d, w_pathname = path, w_hrefs = []\<rparr>"
    and "ap_ready a = hydrated a" and "\<not> hydrated a \<Longrightarrow> ap_tasks a = []"
    and "ap_waiting a = (\<not> hydrated a)" and "ap_login a = idle_form" and "ap_register a = idle_form"
    and "\<forall>t \<in> set (ap_tasks a). \<exists>r. t = Validating (auth_field (useAuthStore True d) ''token'') r"
    and "length (ap_tasks a) \<le> 1"
proof -
  let ?w = "\<lparr>w_auth = useAuthStore True d, w_pathname = path, w_hrefs = []\<rparr>"
  let ?a = "\<lparr>ap_web = ?w, ap_ready = has_hydrated (w_auth ?w), ap_waiting = False, ap_tasks = [], ap_visit = 0,
                 ap_login = idle_form, ap_register = idle_form,
                 ap_prev_auth = is_authenticated (w_auth ?w), ap_clears = 0\<rparr>"
  have a: "a = (if has_hydrated (w_auth ?w) then start_validation xsrf ?a else ?a\<lparr>ap_waiting := True\<rparr>)"
    using assms by (auto simp: load_page_def mount_app_def Let_def split: if_splits)
  show "ap_web a = ?w" "ap_ready a = hydrated a" "\<not> hydrated a \<Longrightarrow> ap_tasks a = []"
    "ap_waiting a = (\<not> hydrated a)" "ap_login a = idle_form" "ap_register a = idle_form"
    "\<forall>t \<in> set (ap_tasks a). \<exists>r. t = Validating (auth_field (useAuthStore True d) ''token'') r"
    "length (ap_tasks a) \<le> 1"
  proof -
    let ?tok = "auth_field (useAuthStore True d) ''token''"
    consider "\<not> has_hydrated (w_auth ?w)" "a = ?a\<lparr>ap_waiting := True\<rparr>"
      | "has_hydrated (w_auth ?w)" "a = ?a\<lparr>ap_ready := True\<rparr>"
      | r where "has_hydrated (w_auth ?w)" "a = ?a\<lparr>ap_tasks := [Validating ?tok r]\<rparr>"
    proof (cases "has_hydrated (w_auth ?w)")
      case True
      with a have start: "a = start_validation xsrf ?a" by (simp only: if_True)
      show ?thesis
        by (rule start_validation_eq [of ?a xsrf]) (use start True that(2,3) in simp_all)
    next
      case False
      then have "a = ?a\<lparr>ap_waiting := True\<rparr>" using a by (simp only: if_False)
      with False show ?thesis by (rule that(1))
    qed
    note shape = this
    show "ap_web a = ?w" using shape by cases simp_all
    show "ap_ready a = hydrated a" using shape by cases simp_all
    show "\<not> hydrated a \<Longrightarrow> ap_tasks a = []" using shape by cases simp_all
    show "ap_waiting a = (\<not> hydrated a)" using shape by cases simp_all
    show "ap_login a = idle_form" "ap_register a = idle_form" using shape by (cases; simp)+
    show "\<forall>t \<in> set (ap_tasks a). \<exists>r. t = Validating ?tok r" using shape by cases simp_all
    show "length (ap_tasks a) \<le> 1" using shape by cases simp_all
  qed
qed

lemma step_ready_hydrated:
  assumes "app_step xsrf ok a b" and "ap_ready a = hydrated a" and "\<not> hydrated a \<longrightarrow> ap_tasks a = []"
  shows "ap_ready b = hydrated b \<and> (\<not> hydrated b \<longrightarrow> ap_tasks b = [])"
  using assms
proof cases
  case (login l p)
  then show ?thesis using assms by (cases rule: submit_login_eq [of xsrf l p a]) auto
next
  case (register u p m)
  then have "usernameError u = None" by (simp add: submit_disabled_def)
  then show ?thesis using register assms by (cases rule: submit_register_eq [of u xsrf m p a]) auto
next
  case (reply i res)
  then have "hydrated a" using assms by auto
  with reply assms show ?thesis by (simp add: run_task_ready)
next
  case (other e r res)
  then show ?thesis
    using assms receive_keeps [of e r res "ap_web a"] by (cases "api_receive e r res (ap_web a)") (simp add: other_reply_def)
next
  case (logout)
  moreover have "ap_ready (handleLogout a) = ap_ready a"
    by (auto simp: handleLogout_def split: prod.splits outcome.splits)
  ultimately show ?thesis using assms by simp
next
  case (reload path)
  from load_page_state [OF this] show ?thesis by simp
qed simp

lemma reachable_ready: "reachable xsrf ok d a \<Longrightarrow> ap_ready a = hydrated a \<and> (\<not> hydrated a \<longrightarrow> ap_tasks a = [])"
proof (induction rule: reachable.induct)
  case (start path a)
  from load_page_state [OF this] show ?case by simp
next
  case (step a b)
  then show ?case using step_ready_hydrated by blast
qed

section \<open>Sessions under an honest server\<close>

text \<open>
  What the application relies on: an accepted answer of the login endpoint carries a token, and one
  of the user endpoint a user.
\<close>

definition reply_data :: "request \<Rightarrow> net_result \<Rightarrow> json option option" where
  "reply_data r res = (case xhr_receive r res of
       Inl e \<Rightarrow> None
     | Inr p \<Rightarrow> (case unwrap p of Inl e \<Rightarrow> None | Inr d \<Rightarrow> Some d))"

definition gives_user :: "json option option \<Rightarrow> bool" where
  "gives_user d = (case d of None \<Rightarrow> True | Some x \<Rightarrow> (case x of None \<Rightarrow> False | Some u \<Rightarrow> json_ok u))"

definition good_token :: "json option \<Rightarrow> bool" where
  "good_token t = (case t of None \<Rightarrow> False | Some j \<Rightarrow> json_truthy j \<and> json_ok j)"

definition gives_token :: "json option option \<Rightarrow> bool" where
  "gives_token d = (case d of None \<Rightarrow> True | Some x \<Rightarrow>
     (case token_of x of None \<Rightarrow> True | Some t \<Rightarrow> good_token t))"

definition honest :: "task \<Rightarrow> net_result \<Rightarrow> bool" where
  "honest t res = (case t of
       Validating tok r \<Rightarrow> gives_user (reply_data r res)
     | LoginTok v l p r \<Rightarrow> gives_token (reply_data r res)
     | LoginUser v tok r \<Rightarrow> gives_user (reply_data r res)
     | RegPost v u e p r \<Rightarrow> True
     | RegTok v l p r \<Rightarrow> gives_token (reply_data r res)
     | RegUser v tok r \<Rightarrow> gives_user (reply_data r res))"

definition task_good :: "task \<Rightarrow> bool" where
  "task_good t = (case t of
       Validating tok r \<Rightarrow> \<exists>j. tok = Data j \<and> good_token (Some j)
     | LoginUser v tok r \<Rightarrow> good_token tok
     | RegUser v tok r \<Rightarrow> good_token tok
     | _ \<Rightarrow> True)"

definition web_inv :: "web \<Rightarrow> bool" where
  "web_inv w = (\<exists>m p. auth_inv m p (w_auth w))"

lemma receive_data:
  assumes "api_receive e r res w = (Inr d, w')" and "e_read e = unwrap"
  shows "reply_data r res = Some d" and "w' = w"
  using assms by (auto simp: api_receive_eq reply_data_def on_rejected_def
      split: sum.splits prod.splits outcome.splits if_splits)

lemma endpoint_reads [simp]:
  "e_read (api_login l p) = unwrap" "e_read (api_register u m p) = unwrap" "e_read (getCurrentUser t) = unwrap"
  by (simp_all add: endpoint_defs)

lemma logout_inv: "auth_inv m p s \<Longrightarrow> \<exists>m' p'. auth_inv m' p' (snd (auth_logout s))"
proof -
  assume inv: "auth_inv m p s"
  obtain r s' where step: "auth_step Logout s = (r, s')" by force
  have "op_good Logout" by (simp add: op_good_def)
  from auth_step_inv [OF inv this step] step show ?thesis by (auto simp: auth_step_def)
qed

lemma login_inv:
  assumes "auth_inv m p s" and "good_token (Some t)" and "json_ok u" and "store_login (Data t) (Data u) s = (r, s')"
  shows "\<exists>m' p'. auth_inv m' p' s'"
proof -
  have step: "auth_step (Login t u) s = (r, s')"
    using assms(4) by (simp add: auth_step_def auth_login_def store_login_def)
  have "op_good (Login t u)" using assms(2,3) by (simp add: op_good_def session_good_def good_token_def)
  from auth_step_inv [OF assms(1) this step] show ?thesis by blast
qed

lemma receive_inv: "web_inv w \<Longrightarrow> api_receive e r res w = (x, w') \<Longrightarrow> web_inv w'"
  using receive_auth [of e r res w] logout_inv by (fastforce simp: web_inv_def)

lemma web_inv_logout: "web_inv w \<Longrightarrow> web_inv (web_auth (snd \<circ> auth_logout) w)"
  using logout_inv by (fastforce simp: web_inv_def web_auth_def)

lemma web_inv_login:
  assumes "web_inv w" and "good_token (Some t)" and "json_ok u" and "store_login (Data t) (Data u) (w_auth w) = (r, s')"
  shows "web_inv (w\<lparr>w_auth := s'\<rparr>)"
  using assms login_inv by (fastforce simp: web_inv_def)

lemma navigate_web_inv [simp]: "web_inv (ap_web (navigate_to path a)) = web_inv (ap_web a)"
  by (simp add: web_inv_def)

lemma failed_keeps [simp]:
  "ap_web (login_failed v a) = ap_web a" "ap_web (register_failed v e a) = ap_web a"
  "ap_tasks (login_failed v a) = ap_tasks a" "ap_tasks (register_failed v e a) = ap_tasks a"
  by (simp_all add: login_failed_def register_failed_def)

lemma user_reply_cases:
  assumes "api_receive (getCurrentUser q) r res w = (Inr d, w')" and "gives_user (reply_data r res)"
  obtains u where "d = Some u" and "json_ok u" and "w' = w"
  using receive_data [OF assms(1)] assms(2) by (auto simp: gives_user_def split: option.splits)

lemma token_reply_cases:
  assumes "api_receive (api_login l p) r res w = (Inr d, w')" and "gives_token (reply_data r res)"
    and "token_of d = Some tok"
  shows "good_token tok" and "w' = w"
  using receive_data [OF assms(1)] assms(2,3) by (auto simp: gives_token_def)

definition flow_inv :: "app \<Rightarrow> bool" where
  "flow_inv a \<longleftrightarrow> web_inv (ap_web a) \<and> list_all task_good (ap_tasks a)"

lemma validate_inv:
  assumes "web_inv (ap_web a)" and "task_good (Validating tok r)" and "honest (Validating tok r) res"
  shows "web_inv (ap_web (validate_reply tok r res a))"
proof -
  obtain x w where rec: "api_receive (getCurrentUser None) r res (ap_web a) = (x, w)" by force
  have w: "web_inv w" by (rule receive_inv [OF assms(1) rec])
  obtain j where j: "tok = Data j" "good_token (Some j)" using assms(2) by (auto simp: task_good_def)
  show ?thesis
  proof (cases x)
    case (Inl e)
    with rec w web_inv_logout show ?thesis by (simp add: validate_reply_def)
  next
    case (Inr d)
    with rec assms(3) obtain u where u: "d = Some u" "json_ok u" 
      by (auto simp: honest_def elim: user_reply_cases)
    obtain q s where st: "store_login (Data j) (Data u) (w_auth w) = (q, s)" by force
    note logged = web_inv_login [OF w j(2) u(2) st]
    show ?thesis
      using Inr rec st u j(1) logged web_inv_logout [OF logged]
      by (cases q) (simp_all add: validate_reply_def js_of_def)
  qed
qed

lemma user_reply_inv:
  assumes "web_inv w" and "good_token tok" and "gives_user (reply_data r res)"
    and "api_receive (getCurrentUser tok) r res w = (Inr d, w')"
    and "store_login (js_of tok) (js_of d) (w_auth w') = (q, s)"
  shows "web_inv (w'\<lparr>w_auth := s\<rparr>)"
proof -
  obtain j where "tok = Some j" using assms(2) by (auto simp: good_token_def split: option.splits)
  moreover obtain u where "d = Some u" "json_ok u" using assms(4,3) by (rule user_reply_cases)
  ultimately show ?thesis
    using web_inv_login [OF receive_inv [OF assms(1,4)], of j u] assms(2,5) by (simp add: js_of_def)
qed

lemma run_task_inv:
  assumes "flow_inv a" and "task_good t" and "honest t res"
  shows "flow_inv (run_task xsrf t res a)"
proof -
  have w: "web_inv (ap_web a)" and ts: "list_all task_good (ap_tasks a)" using assms(1) by (auto simp: flow_inv_def)
  show ?thesis
  proof (cases t)
    case (Validating tok r)
    then show ?thesis
      using validate_inv [OF w] assms(2,3) ts by (simp add: run_task_def flow_inv_def) (simp add: validate_reply_def Let_def split: prod.splits)
  next
    case (LoginTok v l p r)
    then have h: "gives_token (reply_data r res)" using assms(3) by (simp add: honest_def)
    show ?thesis
      using LoginTok ts receive_inv [OF w] token_reply_cases [OF _ h]
      by (auto simp: run_task_def login_tok_reply_def flow_inv_def task_good_def Let_def split: prod.splits sum.splits option.splits
          dest!: send_keeps [rotated])
  next
    case (LoginUser v tok r)
    then have h: "gives_user (reply_data r res)" "good_token tok" using assms(2,3) by (simp_all add: honest_def task_good_def)
    show ?thesis
      using LoginUser ts receive_inv [OF w] user_reply_inv [OF w h(2,1)]
      by (auto simp: run_task_def login_user_reply_def flow_inv_def Let_def split: prod.splits sum.splits outcome.splits)
  next
    case (RegPost v u m p r)
    then show ?thesis
      using ts receive_inv [OF w]
      by (auto simp: run_task_def reg_post_reply_def flow_inv_def task_good_def Let_def split: prod.splits sum.splits
          dest!: send_keeps [rotated])
  next
    case (RegTok v l p r)
    then have h: "gives_token (reply_data r res)" using assms(3) by (simp add: honest_def)
    show ?thesis
      using RegTok ts receive_inv [OF w] token_reply_cases [OF _ h]
      by (auto simp: run_task_def reg_tok_reply_def flow_inv_def task_good_def Let_def split: prod.splits sum.splits option.splits
          dest!: send_keeps [rotated])
  next
    case (RegUser v tok r)
    then have h: "gives_user (reply_data r res)" "good_token tok" using assms(2,3) by (simp_all add: honest_def task_good_def)
    show ?thesis
      using RegUser ts receive_inv [OF w] user_reply_inv [OF w h(2,1)]
      by (auto simp: run_task_def reg_user_reply_def flow_inv_def Let_def split: prod.splits sum.splits outcome.splits)
  qed
qed

lemma session_token_good: "auth_inv m p s \<Longrightarrow> js_truthy (auth_field s ''token'') \<Longrightarrow> \<exists>j. auth_field s ''token'' = Data j \<and> good_token (Some j)"
  by (cases m) (auto simp: auth_inv_def auth_field_def state_is_def session_fields_def js_truthy_def
      json_truthy_def session_good_def good_token_def)

lemma load_page_inv:
  assumes "load_page xsrf True d path = Some a" and "\<forall>u. p = Some u \<longrightarrow> session_good u" and "disk_is p d"
  shows "flow_inv a"
proof -
  let ?s = "useAuthStore True d"
  have "session_good (case p of None \<Rightarrow> Anonymous | Some u \<Rightarrow> u)"
    using assms(2) by (auto simp: session_good_def split: option.splits)
  with reload_session [OF assms(2,3)] assms(2,3) have inv: "auth_inv (case p of None \<Rightarrow> Anonymous | Some u \<Rightarrow> u) p ?s"
    by (simp add: auth_inv_def)
  note page = load_page_state [OF assms(1)]
  have "task_good t" if t: "t \<in> set (ap_tasks a)" for t
  proof -
    have "js_truthy (auth_field ?s ''token'')"
    proof (rule ccontr)
      assume n: "\<not> js_truthy (auth_field ?s ''token'')"
      have h: "has_hydrated ?s" using reload_session(2) [OF assms(2,3)] .
      let ?a = "\<lparr>ap_web = ap_web a, ap_ready = True, ap_waiting = False, ap_tasks = [], ap_visit = 0,
                 ap_login = idle_form, ap_register = idle_form,
                 ap_prev_auth = is_authenticated ?s, ap_clears = 0\<rparr>"
      have "a = start_validation xsrf ?a"
        using assms(1) h page(1) by (auto simp: load_page_def mount_app_def Let_def split: if_splits)
      with n page(1) have "ap_tasks a = []" by (simp add: start_validation_def Let_def)
      with t show False by simp
    qed
    with page(7) t session_token_good [OF inv] show ?thesis by (fastforce simp: task_good_def)
  qed
  with inv page(1) show ?thesis by (auto simp: flow_inv_def web_inv_def list_all_iff)
qed

lemma step_flow_inv:
  assumes "app_step xsrf honest a b" and "flow_inv a"
  shows "flow_inv b"
  using assms(1)
proof cases
  case (login l p)
  then show ?thesis using assms(2) by (cases rule: submit_login_eq [of xsrf l p a]) (auto simp: flow_inv_def task_good_def)
next
  case (register u p m)
  then have "usernameError u = None" by (simp add: submit_disabled_def)
  then show ?thesis using register assms(2)
    by (cases rule: submit_register_eq [of u xsrf m p a]) (auto simp: flow_inv_def task_good_def)
next
  case (reply i res)
  then have t: "task_good (ap_tasks a ! i)" using assms(2) by (auto simp: flow_inv_def list_all_length)
  have "flow_inv (drop_task i a)"
    using assms(2) by (auto simp: flow_inv_def drop_task_def list_all_iff dest: in_set_takeD in_set_dropD)
  from run_task_inv [OF this t reply(3)] reply show ?thesis by (simp add: flow_inv_def)
next
  case (other e r res)
  then show ?thesis
    using assms(2) receive_inv [of "ap_web a" e r res]
    by (cases "api_receive e r res (ap_web a)") (simp add: other_reply_def flow_inv_def)
next
  case (follow path)
  then show ?thesis using assms(2) by (simp add: flow_inv_def)
next
  case logout
  then show ?thesis
    using assms(2) logout_inv
    by (fastforce simp: handleLogout_def flow_inv_def web_inv_def split: prod.splits outcome.splits)
next
  case (reload path)
  from assms(2) obtain m p where "auth_inv m p (w_auth (ap_web a))" by (auto simp: flow_inv_def web_inv_def)
  then show ?thesis using load_page_inv [OF reload] by (auto simp: auth_inv_def)
qed

section \<open>Pending forms\<close>

definition login_of :: "nat \<Rightarrow> task \<Rightarrow> bool" where
  "login_of v t = (case t of LoginTok u _ _ _ \<Rightarrow> u = v | LoginUser u _ _ \<Rightarrow> u = v | _ \<Rightarrow> False)"

definition register_of :: "nat \<Rightarrow> task \<Rightarrow> bool" where
  "register_of v t = (case t of RegPost u _ _ _ _ \<Rightarrow> u = v | RegTok u _ _ _ \<Rightarrow> u = v | RegUser u _ _ \<Rightarrow> u = v | _ \<Rightarrow> False)"

definition task_visit :: "task \<Rightarrow> nat" where
  "task_visit t = (case t of Validating _ _ \<Rightarrow> 0 | LoginTok v _ _ _ \<Rightarrow> v | LoginUser v _ _ \<Rightarrow> v
     | RegPost v _ _ _ _ \<Rightarrow> v | RegTok v _ _ _ \<Rightarrow> v | RegUser v _ _ \<Rightarrow> v)"

definition count_if :: "('a \<Rightarrow> bool) \<Rightarrow> 'a list \<Rightarrow> nat" where
  "count_if P xs = length (filter P xs)"

text \<open>Each form of the visit waits for exactly one reply while it is loading, and for none otherwise.\<close>

definition forms_ok :: "app \<Rightarrow> bool" where
  "forms_ok a \<longleftrightarrow>
     count_if (login_of (ap_visit a)) (ap_tasks a) = (if f_loading (ap_login a) then 1 else 0)
     \<and> count_if (register_of (ap_visit a)) (ap_tasks a) = (if f_loading (ap_register a) then 1 else 0)
     \<and> (\<forall>t \<in> set (ap_tasks a). task_visit t \<le> ap_visit a)"

lemma count_simps [simp]:
  "count_if P [] = 0" "count_if P (xs @ ys) = count_if P xs + count_if P ys"
  "count_if P (x # xs) = (if P x then Suc (count_if P xs) else count_if P xs)"
  by (simp_all add: count_if_def)

lemma count_none: "(\<forall>x \<in> set xs. \<not> P x) \<Longrightarrow> count_if P xs = 0"
  by (simp add: count_if_def filter_empty_conv)

lemma count_drop:
  "i < length xs \<Longrightarrow> count_if P xs = (if P (xs ! i) then 1 else 0) + count_if P (take i xs @ drop (Suc i) xs)"
  by (subst id_take_nth_drop [of i xs]) simp_all

lemma fresh_visit:
  "\<forall>t \<in> set ts. task_visit t \<le> v \<Longrightarrow> count_if (login_of (Suc v)) ts = 0 \<and> count_if (register_of (Suc v)) ts = 0"
  by (force simp: login_of_def register_of_def task_visit_def intro!: count_none split: task.splits)

lemma navigate_forms: "forms_ok a \<Longrightarrow> forms_ok (navigate_to path a)"
  using fresh_visit [of "ap_tasks a" "ap_visit a"]
  by (auto simp: forms_ok_def navigate_to_def idle_form_def Let_def)

text \<open>A task that has been taken out, and what its handler leaves.\<close>

definition forms_with :: "task \<Rightarrow> app \<Rightarrow> bool" where
  "forms_with t a \<longleftrightarrow>
     count_if (login_of (ap_visit a)) (t # ap_tasks a) = (if f_loading (ap_login a) then 1 else 0)
     \<and> count_if (register_of (ap_visit a)) (t # ap_tasks a) = (if f_loading (ap_register a) then 1 else 0)
     \<and> (\<forall>t \<in> set (t # ap_tasks a). task_visit t \<le> ap_visit a)"

lemma forms_drop: "forms_ok a \<Longrightarrow> i < length (ap_tasks a) \<Longrightarrow> forms_with (ap_tasks a ! i) (drop_task i a)"
  using count_drop [of i "ap_tasks a" "login_of (ap_visit a)"] count_drop [of i "ap_tasks a" "register_of (ap_visit a)"]
  by (auto simp: forms_ok_def forms_with_def drop_task_def dest: in_set_takeD in_set_dropD split: if_splits)

lemmas kind_defs = login_of_def register_of_def task_visit_def

lemma forms_swap:
  assumes "forms_with t a" and "\<forall>v. login_of v t' = login_of v t \<and> register_of v t' = register_of v t"
    and "task_visit t' = task_visit t"
  shows "forms_ok (a\<lparr>ap_web := w, ap_tasks := ap_tasks a @ [t']\<rparr>)"
  using assms by (auto simp: forms_ok_def forms_with_def split: if_splits)

lemma login_failed_forms:
  assumes "forms_with t a" and "\<forall>u. login_of u t = (u = v) \<and> \<not> register_of u t"
  shows "forms_ok (login_failed v (a\<lparr>ap_web := w\<rparr>))"
  using assms by (auto simp: forms_ok_def forms_with_def login_failed_def split: if_splits)

lemma register_failed_forms:
  assumes "forms_with t a" and "\<forall>u. register_of u t = (u = v) \<and> \<not> login_of u t"
  shows "forms_ok (register_failed v e (a\<lparr>ap_web := w\<rparr>))"
  using assms by (auto simp: forms_ok_def forms_with_def register_failed_def split: if_splits)

lemma other_forms: "forms_with t a \<Longrightarrow> \<forall>v. \<not> login_of v t \<and> \<not> register_of v t \<Longrightarrow> forms_ok (a\<lparr>ap_web := w, ap_ready := x\<rparr>)"
  by (auto simp: forms_ok_def forms_with_def)

text \<open>A success leaves the page of the form, unless it is shown no more.\<close>

lemma home_page: "page_at ''/'' = Some HomePage"
  by code_simp

definition form_pages :: "app \<Rightarrow> bool" where
  "form_pages a \<longleftrightarrow>
     (f_loading (ap_login a) \<longrightarrow> page_at (w_pathname (ap_web a)) = Some LoginPage)
     \<and> (f_loading (ap_register a) \<longrightarrow> page_at (w_pathname (ap_web a)) = Some RegisterPage)"

lemma leave_forms:
  assumes "forms_with t a" and "form_pages a" and "w_pathname w = w_pathname (ap_web a)"
  shows "forms_ok (navigate_to ''/'' (a\<lparr>ap_web := w\<rparr>))"
proof -
  let ?a = "a\<lparr>ap_web := w\<rparr>"
  have old: "\<forall>t \<in> set (ap_tasks a). task_visit t \<le> ap_visit a" using assms(1) by (simp add: forms_with_def)
  show ?thesis
  proof (cases "page_at ''/'' = page_at (w_pathname w)")
    case True
    then have "\<not> f_loading (ap_login a)" "\<not> f_loading (ap_register a)"
      using assms(2,3) home_page by (auto simp: form_pages_def)
    with True old assms(1) show ?thesis
      by (auto simp: forms_with_def forms_ok_def navigate_to_def Let_def split: if_splits)
  next
    case False
    with old fresh_visit [OF old] show ?thesis
      by (auto simp: forms_ok_def navigate_to_def idle_form_def Let_def)
  qed
qed

lemma receive_pathname: "api_receive e r res w = (x, w') \<Longrightarrow> w_pathname w' = w_pathname w"
  by (auto simp: api_receive_eq on_rejected_def split: sum.splits prod.splits outcome.splits if_splits)

lemma run_task_forms:
  assumes "forms_with t a" and "form_pages a"
  shows "forms_ok (run_task xsrf t res a)"
proof (cases t)
  case (Validating tok r)
  then show ?thesis
    using other_forms [OF assms(1)] by (simp add: run_task_def validate_reply_def kind_defs Let_def split: prod.splits)
next
  case (LoginTok v l p r)
  with forms_swap [OF assms(1)] login_failed_forms [OF assms(1), of v] show ?thesis
    by (auto simp: run_task_def login_tok_reply_def kind_defs Let_def split: prod.splits sum.splits option.splits)
next
  case (LoginUser v tok r)
  with leave_forms [OF assms] login_failed_forms [OF assms(1), of v] show ?thesis
    by (auto simp: run_task_def login_user_reply_def kind_defs Let_def dest: receive_pathname
        split: prod.splits sum.splits outcome.splits)
next
  case (RegPost v u m p r)
  with forms_swap [OF assms(1)] register_failed_forms [OF assms(1), of v] show ?thesis
    by (auto simp: run_task_def reg_post_reply_def kind_defs Let_def split: prod.splits sum.splits)
next
  case (RegTok v l p r)
  with forms_swap [OF assms(1)] register_failed_forms [OF assms(1), of v] show ?thesis
    by (auto simp: run_task_def reg_tok_reply_def kind_defs Let_def split: prod.splits sum.splits option.splits)
next
  case (RegUser v tok r)
  with leave_forms [OF assms] register_failed_forms [OF assms(1), of v] show ?thesis
    by (auto simp: run_task_def reg_user_reply_def kind_defs Let_def dest: receive_pathname
        split: prod.splits sum.splits outcome.splits)
qed

lemma navigate_pages: "form_pages a \<Longrightarrow> form_pages (navigate_to path a)"
  by (auto simp: form_pages_def navigate_to_def idle_form_def Let_def)

lemma pages_cong:
  "form_pages a \<Longrightarrow> w_pathname (ap_web b) = w_pathname (ap_web a) \<Longrightarrow>
    f_loading (ap_login b) \<longrightarrow> f_loading (ap_login a) \<Longrightarrow> f_loading (ap_register b) \<longrightarrow> f_loading (ap_register a) \<Longrightarrow>
    form_pages b"
  by (auto simp: form_pages_def)

lemma send_pathname: "api_send xsrf e w = (x, w') \<Longrightarrow> app_endpoint e \<Longrightarrow> w_pathname w' = w_pathname w"
  using send_keeps by blast

lemma run_task_pages:
  assumes "form_pages a"
  shows "form_pages (run_task xsrf t res a)"
proof (cases t)
  case (Validating tok r)
  then show ?thesis
    by (auto intro!: pages_cong [OF assms] simp: run_task_def validate_reply_def web_auth_def Let_def
        split: prod.splits sum.splits outcome.splits dest: receive_pathname)
next
  case (LoginTok v l p r)
  then show ?thesis
    by (auto intro!: pages_cong [OF assms] simp: run_task_def login_tok_reply_def login_failed_def Let_def
        split: prod.splits sum.splits option.splits dest: receive_pathname dest!: send_pathname)
next
  case (LoginUser v tok r)
  then show ?thesis
    by (auto intro!: navigate_pages pages_cong [OF assms] simp: run_task_def login_user_reply_def login_failed_def Let_def
        split: prod.splits sum.splits outcome.splits dest: receive_pathname)
next
  case (RegPost v u m p r)
  then show ?thesis
    by (auto intro!: pages_cong [OF assms] simp: run_task_def reg_post_reply_def register_failed_def Let_def
        split: prod.splits sum.splits dest: receive_pathname dest!: send_pathname)
next
  case (RegTok v l p r)
  then show ?thesis
    by (auto intro!: pages_cong [OF assms] simp: run_task_def reg_tok_reply_def register_failed_def Let_def
        split: prod.splits sum.splits option.splits dest: receive_pathname dest!: send_pathname)
next
  case (RegUser v tok r)
  then show ?thesis
    by (auto intro!: navigate_pages pages_cong [OF assms] simp: run_task_def reg_user_reply_def register_failed_def Let_def
        split: prod.splits sum.splits outcome.splits dest: receive_pathname)
qed

lemma drop_task_pages: "form_pages (drop_task i a) = form_pages a"
  by (simp add: form_pages_def)

lemma step_forms:
  assumes "app_step xsrf ok a b" and "forms_ok a" and "form_pages a"
  shows "forms_ok b \<and> form_pages b"
  using assms(1)
proof cases
  case (login l p)
  then show ?thesis
    using assms(2,3) by (cases rule: submit_login_eq [of xsrf l p a]) (auto simp: forms_ok_def form_pages_def kind_defs auth_effect_def Let_def)
next
  case (register u p m)
  then have "usernameError u = None" by (simp add: submit_disabled_def)
  then show ?thesis using register assms(2,3)
    by (cases rule: submit_register_eq [of u xsrf m p a]) (auto simp: forms_ok_def form_pages_def kind_defs auth_effect_def Let_def)
next
  case (reply i res)
  have "forms_ok (run_task xsrf (ap_tasks a ! i) res (drop_task i a))"
    using forms_drop [OF assms(2) reply(2)] assms(3) by (intro run_task_forms) (simp_all add: drop_task_pages)
  moreover have "form_pages (run_task xsrf (ap_tasks a ! i) res (drop_task i a))"
    using assms(3) by (intro run_task_pages) (simp add: drop_task_pages)
  ultimately show ?thesis using reply by (simp add: forms_ok_def form_pages_def auth_effect_def Let_def)
next
  case (other e r res)
  then show ?thesis
    using assms(2,3) receive_pathname [of e r res "ap_web a"]
    by (cases "api_receive e r res (ap_web a)") (auto simp: other_reply_def forms_ok_def form_pages_def auth_effect_def Let_def)
next
  case (follow path)
  then show ?thesis
    using navigate_forms [OF assms(2), of path] navigate_pages [OF assms(3), of path]
    by (simp add: forms_ok_def form_pages_def auth_effect_def Let_def)
next
  case logout
  obtain r s where out: "auth_logout (w_auth (ap_web a)) = (r, s)" by force
  let ?b = "a\<lparr>ap_web := (ap_web a)\<lparr>w_auth := s\<rparr>\<rparr>"
  have "forms_ok ?b" "form_pages ?b" using assms(2,3) by (simp_all add: forms_ok_def form_pages_def)
  then have "forms_ok (handleLogout a) \<and> form_pages (handleLogout a)"
    using out navigate_forms [of ?b "''/login''"] navigate_pages [of ?b "''/login''"]
    by (cases r) (simp_all add: handleLogout_def)
  then show ?thesis using logout by (simp add: forms_ok_def form_pages_def auth_effect_def Let_def)
next
  case (reload path)
  note page = load_page_state [OF reload]
  have z: "count_if P (ap_tasks b) = 0" if "\<And>tok r. \<not> P (Validating tok r)" for P
    using page(7) that by (intro count_none) auto
  show ?thesis
    using page(5,6) page(7) z [of "login_of (ap_visit b)"] z [of "register_of (ap_visit b)"]
    by (auto simp: forms_ok_def form_pages_def idle_form_def kind_defs)
qed

lemma reachable_forms: "reachable xsrf ok d a \<Longrightarrow> forms_ok a \<and> form_pages a"
proof (induction rule: reachable.induct)
  case (start path a)
  note page = load_page_state [OF start]
  have z: "count_if P (ap_tasks a) = 0" if "\<And>tok r. \<not> P (Validating tok r)" for P
    using page(7) that by (intro count_none) auto
  show ?case
    using page(5,6) page(7) z [of "login_of (ap_visit a)"] z [of "register_of (ap_visit a)"]
    by (auto simp: forms_ok_def form_pages_def idle_form_def kind_defs)
next
  case (step a b)
  then show ?case using step_forms by blast
qed

section \<open>Replies run out\<close>

text \<open>How many replies a task can still need.\<close>

definition task_rank :: "task \<Rightarrow> nat" where
  "task_rank t = (case t of Validating _ _ \<Rightarrow> 1 | LoginTok _ _ _ _ \<Rightarrow> 2 | LoginUser _ _ _ \<Rightarrow> 1
     | RegPost _ _ _ _ _ \<Rightarrow> 3 | RegTok _ _ _ _ \<Rightarrow> 2 | RegUser _ _ _ \<Rightarrow> 1)"

definition pending :: "app \<Rightarrow> nat" where
  "pending a = sum_list (map task_rank (ap_tasks a))"

lemma run_task_pending: "pending (run_task xsrf t res a) < pending a + task_rank t"
  by (cases t)
    (auto simp: task_defs pending_def task_rank_def navigate_to_def Let_def
      split: prod.splits sum.splits option.splits outcome.splits)

lemma drop_task_pending: "i < length (ap_tasks a) \<Longrightarrow> pending a = pending (drop_task i a) + task_rank (ap_tasks a ! i)"
  unfolding pending_def drop_task_def
  by (subst id_take_nth_drop [of i "ap_tasks a"]) simp_all

section \<open>Properties\<close>

lemma reachable_flow:
  "reachable xsrf honest d a \<Longrightarrow> \<forall>u. p = Some u \<longrightarrow> session_good u \<Longrightarrow> disk_is p d \<Longrightarrow> flow_inv a \<and> hydrated a"
proof (induction rule: reachable.induct)
  case (start path a)
  then show ?case
    using load_page_inv load_page_state(1) [OF start(1)] reload_session(2) [OF start(2,3)] by simp
next
  case (step a b)
  then have inv: "flow_inv a" and h: "hydrated a" by auto
  have b: "flow_inv b" using step.hyps(2) inv by (rule step_flow_inv)
  have "ap_ready a = hydrated a \<and> (\<not> hydrated a \<longrightarrow> ap_tasks a = [])"
    using step.hyps(1) by (rule reachable_ready)
  from inv obtain m q where q: "\<forall>u. q = Some u \<longrightarrow> session_good u" "disk_is q (disk (w_auth (ap_web a)))"
    by (auto simp: flow_inv_def web_inv_def auth_inv_def)
  from step.hyps(2) have "hydrated b"
  proof cases
    case (login l p)
    then show ?thesis using h by (cases rule: submit_login_eq [of xsrf l p a]) auto
  next
    case (register u p m)
    then have "usernameError u = None" by (simp add: submit_disabled_def)
    then show ?thesis using register h by (cases rule: submit_register_eq [of u xsrf m p a]) auto
  next
    case (other e r res)
    then show ?thesis
      using h receive_keeps [of e r res "ap_web a"] by (cases "api_receive e r res (ap_web a)") (simp add: other_reply_def)
  next
    case (reload path)
    then show ?thesis using load_page_state(1) [OF reload] reload_session(2) [OF q] by simp
  qed (use h in simp_all)
  with b show ?case by simp
qed

text \<open>C8. With an honest server and a stored entry that the application wrote (or none), whatever
  happens in whatever order - submitted forms, replies, sign outs, expired tokens, page loads, a
  full storage - the application is ready, and the flag \<open>isAuthenticated\<close> is true exactly when
  the store holds a token.\<close>

theorem session_consistent:
  assumes "reachable xsrf honest d a" and "\<forall>u. p = Some u \<longrightarrow> session_good u" and "disk_is p d"
  shows "ap_ready a \<and> auth_field (w_auth (ap_web a)) ''isAuthenticated''
    = Data (JBool (js_truthy (auth_field (w_auth (ap_web a)) ''token'')))"
proof -
  from reachable_flow [OF assms] obtain m q where "auth_inv m q (w_auth (ap_web a))" and "hydrated a"
    by (auto simp: flow_inv_def web_inv_def)
  with auth_inv_fields reachable_ready [OF assms(1)] show ?thesis by fastforce
qed

lemma session_consistent_witness:
  "\<exists>a. load_page None True empty_disk ''/login'' = Some a \<and> ap_ready a \<and>
    auth_field (w_auth (ap_web a)) ''isAuthenticated'' = Data (JBool (js_truthy (auth_field (w_auth (ap_web a)) ''token'')))"
proof -
  have "load_page None True empty_disk ''/login'' \<noteq> None" by code_simp
  then obtain a where a: "load_page None True empty_disk ''/login'' = Some a" by auto
  have "disk_is None empty_disk" by (simp add: disk_is_def empty_disk_def ls_getItem_def)
  with session_consistent [OF reachable.start [OF a], of None] a show ?thesis by simp
qed

text \<open>A stored entry that is not JSON blocks the application for ever: in every reachable state it
  is not ready, nothing is pending, and the entry is still there, so that loading the page again
  does not help.\<close>

theorem corrupt_never_ready:
  assumes "reachable xsrf ok d a" and "json_getItem ''gforce-auth'' d = Thrown e"
  shows "\<not> ap_ready a \<and> ap_tasks a = [] \<and> disk (w_auth (ap_web a)) = d"
proof -
  have load: "\<not> ap_ready b \<and> ap_tasks b = [] \<and> disk (w_auth (ap_web b)) = d \<and> \<not> hydrated b"
    if "load_page xsrf True d path = Some b" for path b
    using load_page_state [OF that] createStore_corrupt [of auth_options d e auth_config] assms(2)
    by (simp add: useAuthStore_def auth_options_def)
  from assms(1) have "\<not> ap_ready a \<and> ap_tasks a = [] \<and> disk (w_auth (ap_web a)) = d"
  proof (induction rule: reachable.induct)
    case (start path a)
    then show ?case using load by blast
  next
    case (step a b)
    from step.hyps(2) step.IH load show ?case by cases auto
  qed
  then show ?thesis .
qed

lemma corrupt_never_ready_witness:
  "\<exists>a. load_page None True \<lparr>ls_items = [(''gforce-auth'', ''{'')], ls_quota = 200\<rparr> ''/'' = Some a \<and> \<not> ap_ready a"
proof -
  let ?d = "\<lparr>ls_items = [(''gforce-auth'', ''{'')], ls_quota = 200\<rparr>"
  have "load_page None True ?d ''/'' \<noteq> None" by code_simp
  then obtain a where a: "load_page None True ?d ''/'' = Some a" by auto
  have "json_getItem ''gforce-auth'' ?d = Thrown SyntaxError" by code_simp
  from corrupt_never_ready [OF reachable.start [OF a] this] a show ?thesis by auto
qed

text \<open>Rendering is not held back until the token is validated: when the browser holds a session,
  the first render is already ready and signed in, while the request that validates the token is
  still on its way.\<close>

theorem rehydration_not_blocking:
  assumes "session_good (Session t u)" and "disk_is (Some (Session t u)) d"
  shows "\<exists>a r. load_page xsrf True d path = Some a \<and> ap_ready a \<and> ap_tasks a = [Validating (Data t) r]
    \<and> is_authenticated (w_auth (ap_web a))"
proof -
  let ?s = "useAuthStore True d"
  let ?w = "\<lparr>w_auth = ?s, w_pathname = path, w_hrefs = []\<rparr>"
  note made = reload_session [OF _ assms(2)]
  have h: "persist_api ?s" "has_hydrated ?s" and "\<exists>st. state ?s = Some st \<and> state_is (Session t u) st"
    using made assms(1) by auto
  then have f: "auth_field ?s ''token'' = Data t" "auth_field ?s ''isAuthenticated'' = Data (JBool True)"
    by (auto simp: auth_field_def state_is_def session_fields_def)
  have t: "js_truthy (Data t)" using assms(1) by (simp add: js_truthy_def session_good_def)
  let ?a = "\<lparr>ap_web = ?w, ap_ready = True, ap_waiting = False, ap_tasks = [], ap_visit = 0, ap_login = idle_form,
    ap_register = idle_form, ap_prev_auth = is_authenticated ?s, ap_clears = 0\<rparr>"
  have a: "load_page xsrf True d path = Some (start_validation xsrf ?a)"
    using h by (simp add: load_page_def mount_app_def)
  show ?thesis
    by (rule start_validation_eq [of ?a xsrf])
      (use a f t in \<open>auto simp: is_authenticated_def js_truthy_def json_truthy_def\<close>)
qed

lemma rehydration_not_blocking_witness:
  "\<exists>a r. load_page None True (disk (snd (auth_login (JStr ''t'') (JStr ''u'') (useAuthStore True empty_disk)))) ''/'' = Some a
    \<and> ap_ready a \<and> ap_tasks a = [Validating (Data (JStr ''t'')) r] \<and> is_authenticated (w_auth (ap_web a))"
proof (rule rehydration_not_blocking)
  show "session_good (Session (JStr ''t'') (JStr ''u''))" by (simp add: session_good_def json_truthy_def)
  show "disk_is (Some (Session (JStr ''t'') (JStr ''u'')))
    (disk (snd (auth_login (JStr ''t'') (JStr ''u'') (useAuthStore True empty_disk))))"
    unfolding disk_is_def by code_simp
qed

lemma logout_auth: "w_auth (ap_web (handleLogout a)) = snd (auth_logout (w_auth (ap_web a)))"
  by (auto simp: handleLogout_def split: prod.splits outcome.splits)

lemma logout_tasks: "ap_tasks (handleLogout a) = ap_tasks a"
  by (auto simp: handleLogout_def navigate_to_def Let_def split: prod.splits outcome.splits)

lemma receive_accepted: "reply_data r res = Some u \<Longrightarrow> e_read e = unwrap \<Longrightarrow> api_receive e r res w = (Inr u, w)"
  by (auto simp: reply_data_def api_receive_eq split: sum.splits)

text \<open>Only a token that is there is validated.\<close>

lemma run_task_validating: "Validating tok r \<in> set (ap_tasks (run_task xsrf t res a)) \<Longrightarrow> Validating tok r \<in> set (ap_tasks a)"
  by (cases t) (auto simp: task_defs navigate_to_def Let_def split: prod.splits sum.splits option.splits outcome.splits if_splits)

lemma load_validating:
  assumes "load_page xsrf True d path = Some a" and "Validating tok r \<in> set (ap_tasks a)"
  shows "js_truthy tok"
proof -
  have "js_truthy tok" if "Validating tok r \<in> set (ap_tasks (start_validation xsrf b))" "ap_tasks b = []" for b
    using that by (cases rule: start_validation_eq [of b xsrf]) auto
  with assms show ?thesis by (auto simp: load_page_def mount_app_def Let_def split: if_splits)
qed

lemma reachable_truthy: "reachable xsrf ok d a \<Longrightarrow> Validating tok r \<in> set (ap_tasks a) \<Longrightarrow> js_truthy tok"
proof (induction arbitrary: tok r rule: reachable.induct)
  case (start path a)
  then show ?case by (rule load_validating)
next
  case (step a b)
  from step.hyps(2) show ?case
  proof cases
    case (login l p)
    then show ?thesis using step.IH step.prems by (cases rule: submit_login_eq [of xsrf l p a]) auto
  next
    case (register u p m)
    then have "usernameError u = None" by (simp add: submit_disabled_def)
    then show ?thesis using register step.IH step.prems by (cases rule: submit_register_eq [of u xsrf m p a]) auto
  next
    case (reply i res)
    then have "Validating tok r \<in> set (ap_tasks (drop_task i a))" using step.prems run_task_validating by auto
    then have "Validating tok r \<in> set (ap_tasks a)" by (auto simp: drop_task_def dest: in_set_takeD in_set_dropD)
    then show ?thesis by (rule step.IH)
  next
    case (reload path)
    then show ?thesis using load_validating step.prems by blast
  qed (use step.IH step.prems in \<open>auto simp: other_reply_def navigate_to_def logout_tasks Let_def split: if_splits\<close>)
qed

text \<open>C40. Signing out while the token is being validated is undone. In any state the application can reach in
  which the request that validates a token is out, a sign out empties the session and leaves the
  request pending; when its reply then accepts the token, and the storage takes the entry, the store
  holds the token again and the user is signed in.\<close>

theorem logout_undone:
  fixes xsrf :: "string option"
  assumes "reachable xsrf ok d a" and "i < length (ap_tasks a)" and "ap_tasks a ! i = Validating token r"
    and "reply_data r res = Some user" and "ok (Validating token r) res"
    and "fst (store_login token (js_of user) (w_auth (ap_web (auth_effect (handleLogout a))))) = Returned ()"
  defines "b \<equiv> auth_effect (handleLogout a)"
  defines "c \<equiv> auth_effect (run_task xsrf (ap_tasks b ! i) res (drop_task i b))"
  shows "app_step xsrf ok a b \<and> auth_field (w_auth (ap_web b)) ''token'' = Data JNull \<and> \<not> is_authenticated (w_auth (ap_web b))
    \<and> ap_tasks b ! i = Validating token r
    \<and> app_step xsrf ok b c \<and> auth_field (w_auth (ap_web c)) ''token'' = token \<and> js_truthy token
    \<and> is_authenticated (w_auth (ap_web c))"
proof (intro conjI)
  have "ap_ready a" using reachable_ready [OF assms(1)] assms(2) by auto
  then show "app_step xsrf ok a b" unfolding b_def by (rule app_step.logout)
  have tasks: "ap_tasks b = ap_tasks a" by (simp add: b_def logout_tasks)
  then show "ap_tasks b ! i = Validating token r" using assms(3) by simp
  show "auth_field (w_auth (ap_web b)) ''token'' = Data JNull" "\<not> is_authenticated (w_auth (ap_web b))"
    by (simp_all add: b_def logout_auth logout_fields)
  show "app_step xsrf ok b c" unfolding c_def using assms(2,3,5) by (intro app_step.reply) (simp_all add: tasks)
  show "js_truthy token" using reachable_truthy [OF assms(1)] assms(2,3) by (metis nth_mem)
  obtain s where s: "store_login token (js_of user) (w_auth (ap_web b)) = (Returned (), s)"
    using assms(6) unfolding b_def by (metis prod.collapse)
  have "w_auth (ap_web c) = s"
    using assms(3,4) s by (simp add: c_def tasks run_task_def validate_reply_def receive_accepted)
  with s store_login_fields [of token "js_of user" "w_auth (ap_web b)"]
  show "auth_field (w_auth (ap_web c)) ''token'' = token" "is_authenticated (w_auth (ap_web c))" by simp_all
qed

lemma persisted_load: "persist_api (useAuthStore available d) \<Longrightarrow> load_page xsrf available d path \<noteq> None"
  by (simp add: load_page_def mount_app_def Let_def)

definition session_disk :: local_storage where
  "session_disk = disk (snd (auth_login (JStr ''t'') (JStr ''u'') (useAuthStore True empty_disk)))"

definition signed_in :: app where
  "signed_in = the (load_page None True session_disk ''/'')"

lemma signed_in_load: "load_page None True session_disk ''/'' = Some signed_in"
proof -
  have "persist_api (useAuthStore True session_disk)" by code_simp
  from persisted_load [OF this, of None "''/''"] show ?thesis by (auto simp: signed_in_def)
qed

lemma logout_undone_witness:
  "\<exists>b c. is_authenticated (w_auth (ap_web signed_in)) \<and> app_step None (\<lambda>t res. True) signed_in b \<and> \<not> is_authenticated (w_auth (ap_web b))
    \<and> app_step None (\<lambda>t res. True) b c \<and> is_authenticated (w_auth (ap_web c))
    \<and> auth_field (w_auth (ap_web c)) ''token'' = Data (JStr ''t'')"
proof -
  let ?res = "NetResponse 200 (json_print (JObj [(''data'', JStr ''u'')]))"
  have good: "session_good (Session (JStr ''t'') (JStr ''u''))" "disk_is (Some (Session (JStr ''t'') (JStr ''u''))) session_disk"
    unfolding disk_is_def session_disk_def by (simp add: session_good_def json_truthy_def) code_simp
  from rehydration_not_blocking [OF this, of None "''/''"] signed_in_load
  obtain r where r: "ap_tasks signed_in = [Validating (Data (JStr ''t'')) r]" "is_authenticated (w_auth (ap_web signed_in))" by auto
  have "transformResponse (json_print (JObj [(''data'', JStr ''u'')])) = JObj [(''data'', JStr ''u'')]" by code_simp
  then have reply: "reply_data r ?res = Some (Some (JStr ''u''))"
    by (simp add: reply_data_def xhr_receive_def settle_def validateStatus_def unwrap_def json_prop_def)
  have "w_auth (ap_web signed_in) = useAuthStore True session_disk" using load_page_state(1) [OF signed_in_load] by simp
  moreover have "fst (store_login (Data (JStr ''t'')) (js_of (Some (JStr ''u''))) (snd (auth_logout (useAuthStore True session_disk)))) = Returned ()"
    unfolding session_disk_def by code_simp
  ultimately have stored: "fst (store_login (Data (JStr ''t'')) (js_of (Some (JStr ''u'')))
      (w_auth (ap_web (auth_effect (handleLogout signed_in))))) = Returned ()" by (simp add: logout_auth)
  have reach: "reachable None (\<lambda>t res. True) session_disk signed_in" by (rule reachable.start [OF signed_in_load])
  have "0 < length (ap_tasks signed_in)" "ap_tasks signed_in ! 0 = Validating (Data (JStr ''t'')) r" using r(1) by simp_all
  from logout_undone [OF reach this reply TrueI stored] r(2) show ?thesis by blast
qed

text \<open>Any failure of the validating request ends the session, not only a rejected token: a network
  error, a timeout or a server error empties the store all the same. The application is ready
  afterwards.\<close>

theorem validation_failure_ends_session:
  fixes xsrf :: "string option" and token :: js_value and a :: app
  assumes "xhr_receive r res = Inl e" and "is_user_endpoint (r_url r)"
  defines "b \<equiv> run_task xsrf (Validating token r) res a"
  shows "auth_field (w_auth (ap_web b)) ''token'' = Data JNull \<and> \<not> is_authenticated (w_auth (ap_web b)) \<and> ap_ready b"
proof -
  have "\<not> ends_session e (ap_web a)"
    using assms(1,2) by (auto simp: xhr_receive_def settle_def ends_session_def split: net_result.splits if_splits)
  then have rec: "api_receive (getCurrentUser None) r res (ap_web a) = (Inl e, ap_web a)"
    using assms(1) by (simp add: api_receive_eq on_rejected_def)
  have "state (snd (auth_logout (w_auth (ap_web a)))) = Some (js_assign (case state (w_auth (ap_web a)) of None \<Rightarrow> [] | Some x \<Rightarrow> x)
      [(''token'', Data JNull), (''user'', Data JNull), (''isAuthenticated'', Data (JBool False))])"
    by (simp add: auth_logout_def config_set_state)
  with rec show ?thesis
    by (simp add: b_def run_task_def validate_reply_def web_auth_def auth_field_def js_read_assign
        is_authenticated_def js_truthy_def json_truthy_def)
qed

definition user_probe :: request where
  "user_probe = probe\<lparr>r_url := ''/user''\<rparr>"

lemma validation_failure_ends_session_witness:
  "\<not> is_authenticated (w_auth (ap_web (run_task None (Validating (Data (JStr ''t'')) user_probe) NetError signed_in)))"
  using validation_failure_ends_session [of user_probe NetError]
  by (simp add: xhr_receive_def user_probe_def is_user_endpoint_def)

text \<open>A failed sign in changes nothing but the form: on the login page, a reply of either request
  that is not accepted leaves the session, the address and every other pending call as they were,
  and shows the message.\<close>

theorem login_failure_only_message:
  assumes "xhr_receive r res = Inl e" and "starts_with (w_pathname (ap_web a)) ''/login''"
    and "t = LoginTok (ap_visit a) l p r \<or> t = LoginUser (ap_visit a) tok r"
  shows "run_task xsrf t res a = a\<lparr>ap_login := \<lparr>f_error = Some (JStr login_message), f_loading = False\<rparr>\<rparr>"
proof -
  have "\<not> ends_session e (ap_web a)"
    using assms(2) by (cases e) (auto simp: ends_session_def split: option.splits)
  then have "api_receive ep r res (ap_web a) = (Inl e, ap_web a)" for ep
    using assms(1) by (simp add: api_receive_eq on_rejected_def)
  with assms(3) show ?thesis by (auto simp: task_defs)
qed

lemma login_failure_only_message_witness:
  "\<exists>a. starts_with (w_pathname (ap_web a)) ''/login'' \<and>
    f_error (ap_login (run_task None (LoginTok (ap_visit a) ''ada'' ''x'' probe) (NetResponse 401 []) a)) = Some (JStr login_message)"
proof -
  let ?a = "signed_in\<lparr>ap_web := (ap_web signed_in)\<lparr>w_pathname := ''/login''\<rparr>\<rparr>"
  have "starts_with (w_pathname (ap_web ?a)) ''/login''" by simp
  with login_failure_only_message [OF receive_401 this, of "LoginTok (ap_visit ?a) ''ada'' ''x'' probe"] show ?thesis
    by (intro exI [of _ ?a]) simp
qed

text \<open>C39. A form shows its spinner exactly while a reply for it is outstanding: in every reachable
  state the login form (and likewise the registration form) of the page that is shown is loading
  if and only if one of its tasks is pending.\<close>

theorem loading_iff_pending:
  assumes "reachable xsrf ok d a"
  shows "(f_loading (ap_login a) \<longleftrightarrow> (\<exists>t \<in> set (ap_tasks a). login_of (ap_visit a) t))
    \<and> (f_loading (ap_register a) \<longleftrightarrow> (\<exists>t \<in> set (ap_tasks a). register_of (ap_visit a) t))"
proof -
  have "count_if P xs = 0 \<longleftrightarrow> \<not> (\<exists>x \<in> set xs. P x)" for P and xs :: "task list"
    by (auto simp: count_if_def filter_empty_conv)
  with reachable_forms [OF assms] show ?thesis by (metis forms_ok_def zero_neq_one)
qed

lemma loading_iff_pending_witness:
  "\<exists>a. reachable None (\<lambda>t res. True) empty_disk a \<and> f_loading (ap_login a) \<and> (\<exists>t \<in> set (ap_tasks a). login_of (ap_visit a) t)"
proof -
  have l: "load_page None True empty_disk ''/login'' \<noteq> None" by code_simp
  then obtain a where a: "load_page None True empty_disk ''/login'' = Some a" by auto
  have r: "ap_ready (the (load_page None True empty_disk ''/login''))"
    "page_at (w_pathname (ap_web (the (load_page None True empty_disk ''/login'')))) = Some LoginPage" by code_simp+
  let ?b = "auth_effect (submit_login None ''ada'' ''pw'' a)"
  have "app_step None (\<lambda>t res. True) a ?b"
    using a r load_page_state(5) [OF a] by (intro app_step.login) (simp_all add: idle_form_def)
  then have reach: "reachable None (\<lambda>t res. True) empty_disk ?b"
    using reachable.start [OF a] reachable.step by blast
  have "f_loading (ap_login ?b)" by (rule submit_login_eq [of None "''ada''" "''pw''" a]) simp
  with loading_iff_pending [OF reach] reach show ?thesis by blast
qed

text \<open>Replies run out: whichever pending task is answered, and however, the number of replies that
  the pending tasks can still need falls. So a submitted form waits for at most three replies.\<close>

theorem replies_terminate:
  assumes "i < length (ap_tasks a)"
  shows "pending (run_task xsrf (ap_tasks a ! i) res (drop_task i a)) < pending a"
  using run_task_pending [of xsrf "ap_tasks a ! i" res "drop_task i a"] drop_task_pending [OF assms] by simp

lemma replies_terminate_witness:
  "pending (run_task None (ap_tasks (submit_login None ''ada'' ''pw'' signed_in) ! 0) NetError
     (drop_task 0 (submit_login None ''ada'' ''pw'' signed_in))) < pending (submit_login None ''ada'' ''pw'' signed_in)"
proof (rule replies_terminate)
  show "0 < length (ap_tasks (submit_login None ''ada'' ''pw'' signed_in))"
    by (rule submit_login_eq [of None "''ada''" "''pw''" signed_in]) simp
qed

text \<open>The registration form accepts exactly the names that are made of lower case letters, digits
  and hyphens and neither start nor end with a hyphen (the empty name gets no message).\<close>

theorem usernameError_spec:
  "usernameError username = None \<longleftrightarrow>
     (if username = [] then True
      else list_all (\<lambda>c. c = CHR ''-'' \<or> slug_char c) username \<and> hd username \<noteq> CHR ''-'' \<and> last username \<noteq> CHR ''-'')"
proof -
  have h: "\<not> slug_char CHR ''-''" by code_simp
  show ?thesis
  proof (cases "username = []")
    case False
    then have "hd username \<in> set username" "last username \<in> set username" by simp_all
    with h have "username \<in> rx_lang SLUG_RE \<longleftrightarrow>
        list_all (\<lambda>c. c = CHR ''-'' \<or> slug_char c) username \<and> hd username \<noteq> CHR ''-'' \<and> last username \<noteq> CHR ''-''"
      unfolding slug_lang list_all_iff using False by metis
    with False show ?thesis by (simp add: usernameError_def rx_match_lang)
  qed (simp add: usernameError_def)
qed

end
