(* ===== verification/QueryData.thy ===== *)
theory QueryData
  imports JsJson
begin

text \<open>
  The data functions of the query library (\<open>hashKey\<close>, \<open>partialMatchKey\<close>, \<open>replaceEqualDeep\<close>,
  \<open>shallowEqualObjects\<close>) on JavaScript values. Every array and object carries the reference that
  \<open>===\<close> compares; \<open>replaceEqualDeep\<close> takes the references of its copies from a counter. Numbers are
  integers, arrays have no holes. \<open>None\<close> is a \<open>TypeError\<close>.
\<close>

section \<open>Values\<close>

datatype jsv =
    VUndef
  | VNull
  | VBool bool
  | VNum int
  | VStr string
  | VFun string
  | VArr nat "jsv list"
  | VObj nat "(string \<times> jsv) list"

definition ref_of :: "jsv \<Rightarrow> nat option" where
  "ref_of v = (case v of VArr l _ \<Rightarrow> Some l | VObj l _ \<Rightarrow> Some l | _ \<Rightarrow> None)"

text \<open>\<open>a === b\<close>.\<close>

definition same :: "jsv \<Rightarrow> jsv \<Rightarrow> bool" where
  "same a b = (case (ref_of a, ref_of b) of
       (Some l, Some m) \<Rightarrow> l = m
     | (None, None) \<Rightarrow> a = b
     | _ \<Rightarrow> False)"

definition typeof :: "jsv \<Rightarrow> string" where
  "typeof v = (case v of VUndef \<Rightarrow> ''undefined'' | VBool _ \<Rightarrow> ''boolean'' | VNum _ \<Rightarrow> ''number''
     | VStr _ \<Rightarrow> ''string'' | VFun _ \<Rightarrow> ''function'' | _ \<Rightarrow> ''object'')"

definition value_truthy :: "jsv \<Rightarrow> bool" where
  "value_truthy v = (v \<noteq> VUndef \<and> v \<noteq> VNull \<and> v \<noteq> VBool False \<and> v \<noteq> VNum 0 \<and> v \<noteq> VStr [])"

text \<open>The enumerable own properties, which \<open>Object.keys\<close> lists.\<close>

definition own_props :: "jsv \<Rightarrow> (string \<times> jsv) list" where
  "own_props v = (case v of
       VArr _ xs \<Rightarrow> zip (map show_nat [0..<length xs]) xs
     | VObj _ ms \<Rightarrow> ms
     | _ \<Rightarrow> [])"

definition array_prototype :: "string list" where
  "array_prototype = [''at'', ''concat'', ''copyWithin'', ''entries'', ''every'', ''fill'', ''filter'', ''find'',
     ''findIndex'', ''findLast'', ''findLastIndex'', ''flat'', ''flatMap'', ''forEach'', ''includes'', ''indexOf'',
     ''join'', ''keys'', ''lastIndexOf'', ''map'', ''pop'', ''push'', ''reduce'', ''reduceRight'', ''reverse'',
     ''shift'', ''slice'', ''some'', ''sort'', ''splice'', ''toLocaleString'', ''toReversed'', ''toSorted'',
     ''toSpliced'', ''toString'', ''unshift'', ''values'', ''with'']"

text \<open>
  \<open>v[k]\<close> of an array or object. The inherited functions are told apart by name only; the
  prototype itself, which \<open>__proto__\<close> reads, stands among them.
\<close>

definition read_prop :: "jsv \<Rightarrow> string \<Rightarrow> jsv" where
  "read_prop v k = (case al_get (own_props v) k of
       Some x \<Rightarrow> x
     | None \<Rightarrow> (case v of
           VArr _ xs \<Rightarrow>
             if k = ''length'' then VNum (int (length xs))
             else if k \<in> set array_prototype \<or> k \<in> set object_prototype then VFun k else VUndef
         | _ \<Rightarrow> if k \<in> set object_prototype then VFun k else VUndef))"

text \<open>
  \<open>isPlainObject\<close>: an own property \<open>constructor\<close> is taken for the constructor. Reading \<open>prototype\<close>
  of \<open>null\<close> throws, and so does calling a \<open>hasOwnProperty\<close> that is no function.
\<close>

definition isPlainObject :: "jsv \<Rightarrow> bool option" where
  "isPlainObject v = (case v of
       VObj _ ms \<Rightarrow> (case al_get ms ''constructor'' of
           None \<Rightarrow> Some True
         | Some VUndef \<Rightarrow> Some True
         | Some VNull \<Rightarrow> None
         | Some (VObj _ cs) \<Rightarrow> (case al_get cs ''prototype'' of
               Some (VObj _ ps) \<Rightarrow>
                 if al_has ps ''hasOwnProperty'' then None else Some (al_has ps ''isPrototypeOf'')
             | _ \<Rightarrow> Some False)
         | _ \<Rightarrow> Some False)
     | _ \<Rightarrow> Some False)"

section \<open>Structural sharing\<close>

text \<open>
  One item of the loop: what \<open>a\<close> has at the key, whether it has it, and what \<open>b\<close> has.
\<close>

type_synonym item = "jsv \<times> bool \<times> jsv"

definition arr_items :: "jsv list \<Rightarrow> jsv list \<Rightarrow> item list" where
  "arr_items as bs =
     map (\<lambda>(i, y). (if i < length as then as ! i else VUndef, i < length as, y)) (zip [0..<length bs] bs)"

definition obj_items :: "jsv \<Rightarrow> (string \<times> jsv) list \<Rightarrow> item list" where
  "obj_items a bm = map (\<lambda>(k, y). (read_prop a k, al_has (own_props a) k, y)) bm"

text \<open>\<open>copy[key] = v\<close> for a fresh object: the key \<open>__proto__\<close> sets the prototype.\<close>

definition make_copy :: "string list \<Rightarrow> jsv list \<Rightarrow> (string \<times> jsv) list" where
  "make_copy ks vs = filter (\<lambda>m. fst m \<noteq> ''__proto__'') (zip ks vs)"

text \<open>\<open>isPlainObject(a) && isPlainObject(b)\<close>.\<close>

definition both_plain :: "jsv \<Rightarrow> jsv \<Rightarrow> bool option" where
  "both_plain a b = (case isPlainObject a of Some True \<Rightarrow> isPlainObject b | r \<Rightarrow> r)"

definition isPlainArray :: "jsv \<Rightarrow> bool" where
  "isPlainArray v = (case v of VArr _ _ \<Rightarrow> True | _ \<Rightarrow> False)"

definition elems :: "jsv \<Rightarrow> jsv list" where
  "elems v = (case v of VArr _ xs \<Rightarrow> xs | _ \<Rightarrow> [])"

definition item_size :: "item \<Rightarrow> nat" where
  "item_size p = size (snd (snd p))"

lemma item_size_Pair [simp]: "item_size (x, p, y) = size y"
  by (simp add: item_size_def)

lemma isPlainArrayE: "isPlainArray b \<Longrightarrow> \<exists>l xs. b = VArr l xs"
  by (cases b) (auto simp: isPlainArray_def)

lemma both_plainE: "both_plain a b = Some True \<Longrightarrow> \<exists>l am m bm. a = VObj l am \<and> b = VObj m bm"
  by (cases a; cases b) (auto simp: both_plain_def isPlainObject_def split: option.splits bool.splits)

lemma arr_items_third: "map (\<lambda>p. snd (snd p)) (arr_items as bs) = bs"
  by (simp add: arr_items_def comp_def case_prod_beta)

lemma arr_items_size: "size_list item_size (arr_items as bs) = size_list size bs"
proof -
  have "size_list item_size (arr_items as bs) = size_list size (map (\<lambda>p. snd (snd p)) (arr_items as bs))"
    by (simp add: size_list_map comp_def item_size_def [abs_def])
  then show ?thesis by (simp add: arr_items_third)
qed

lemma obj_items_size: "size_list item_size (obj_items a bm) = size_list (\<lambda>m. size (snd m)) bm"
  by (simp add: obj_items_def size_list_map comp_def case_prod_beta item_size_def)

lemma member_size: "size_list (\<lambda>m. size (snd m)) (ms :: (string \<times> jsv) list) \<le> size_list (size_prod (\<lambda>x. 0) size) ms"
  by (induction ms) auto

function replaceEqualDeep :: "nat \<Rightarrow> jsv \<Rightarrow> jsv \<Rightarrow> nat \<Rightarrow> (jsv \<times> nat) option"
  and replace_items :: "nat \<Rightarrow> item list \<Rightarrow> nat \<Rightarrow> (jsv list \<times> nat \<times> nat) option"
where
  "replaceEqualDeep depth a b n =
     (if same a b then Some (a, n)
      else if 500 < depth then Some (b, n)
      else if isPlainArray a \<and> isPlainArray b then
        (case replace_items depth (arr_items (elems a) (elems b)) (Suc n) of
           None \<Rightarrow> None
         | Some (vs, equalItems, n') \<Rightarrow>
             Some (if length (elems a) = length (elems b) \<and> equalItems = length (elems a) then a
                   else VArr n vs, n'))
      else (case both_plain a b of
          None \<Rightarrow> None
        | Some False \<Rightarrow> Some (b, n)
        | Some True \<Rightarrow>
            (case replace_items depth (obj_items a (own_props b)) (Suc n) of
               None \<Rightarrow> None
             | Some (vs, equalItems, n') \<Rightarrow>
                 Some (if length (own_props a) = length (own_props b) \<and> equalItems = length (own_props a) then a
                       else VObj n (make_copy (map fst (own_props b)) vs), n'))))"
| "replace_items depth [] n = Some ([], 0, n)"
| "replace_items depth ((x, present, y) # ps) n =
     (if same x y then
        (case replace_items depth ps n of
           None \<Rightarrow> None
         | Some (vs, e, n') \<Rightarrow> Some (x # vs, if present then Suc e else e, n'))
      else if x = VNull \<or> y = VNull \<or> typeof x \<noteq> ''object'' \<or> typeof y \<noteq> ''object'' then
        (case replace_items depth ps n of
           None \<Rightarrow> None
         | Some (vs, e, n') \<Rightarrow> Some (y # vs, e, n'))
      else (case replaceEqualDeep (Suc depth) x y n of
           None \<Rightarrow> None
         | Some (v, n1) \<Rightarrow>
             (case replace_items depth ps n1 of
                None \<Rightarrow> None
              | Some (vs, e, n') \<Rightarrow> Some (v # vs, if same v x then Suc e else e, n'))))"
  by pat_completeness auto
termination
  by (relation "measure (case_sum (\<lambda>(d, a, b, n). size b) (\<lambda>(d, ps, n). size_list item_size ps))")
    (auto dest!: isPlainArrayE both_plainE simp: arr_items_size obj_items_size elems_def own_props_def
      less_Suc_eq_le member_size)

declare replaceEqualDeep.simps [simp del]

section \<open>Keys\<close>

text \<open>
  \<open>hashKey\<close>: what \<open>JSON.stringify\<close> prints after the replacer has rebuilt every plain object with its
  keys in order. \<open>sort\<close> compares code units; an object lists integer keys first, by value. Undefined
  values and functions are left out of objects and printed as \<open>null\<close> in arrays; a key that is
  itself undefined hashes to \<open>undefined\<close> (\<open>Some None\<close>).
\<close>

definition index_key :: "string \<Rightarrow> bool" where
  "index_key k = (k \<noteq> [] \<and> list_all is_digit k \<and> (k = ''0'' \<or> hd k \<noteq> CHR ''0'') \<and> digits_nat k < 2 ^ 32 - 1)"

definition object_order :: "(string \<times> 'v) list \<Rightarrow> (string \<times> 'v) list" where
  "object_order ms =
     sort_key (\<lambda>m. digits_nat (fst m)) (filter (\<lambda>m. index_key (fst m)) ms) @ filter (\<lambda>m. \<not> index_key (fst m)) ms"

definition sorted_object :: "(string \<times> 'v) list \<Rightarrow> (string \<times> 'v) list" where
  "sorted_object ms = object_order (filter (\<lambda>m. fst m \<noteq> ''__proto__'') (sort_key fst ms))"

fun drop_undefined :: "(string \<times> 'v option) list \<Rightarrow> (string \<times> 'v) list" where
  "drop_undefined [] = []"
| "drop_undefined ((k, None) # ms) = drop_undefined ms"
| "drop_undefined ((k, Some v) # ms) = (k, v) # drop_undefined ms"

fun all_some :: "'a option list \<Rightarrow> 'a list option" where
  "all_some [] = Some []"
| "all_some (x # xs) = (case x of None \<Rightarrow> None | Some y \<Rightarrow> map_option (Cons y) (all_some xs))"

definition or_null :: "json option \<Rightarrow> json" where
  "or_null v = (case v of None \<Rightarrow> JNull | Some j \<Rightarrow> j)"

definition lift_value :: "string \<times> 'a option \<Rightarrow> (string \<times> 'a) option" where
  "lift_value m = map_option (Pair (fst m)) (snd m)"

fun canon :: "jsv \<Rightarrow> json option option" where
  "canon VUndef = Some None"
| "canon (VFun f) = Some None"
| "canon VNull = Some (Some JNull)"
| "canon (VBool b) = Some (Some (JBool b))"
| "canon (VNum i) = Some (Some (JNum i))"
| "canon (VStr s) = Some (Some (JStr s))"
| "canon (VArr l xs) = map_option (\<lambda>ys. Some (JArr (map or_null ys))) (all_some (map canon xs))"
| "canon (VObj l ms) = (case isPlainObject (VObj l ms) of
       None \<Rightarrow> None
     | Some plain \<Rightarrow>
         map_option (\<lambda>ns. Some (JObj (drop_undefined ns)))
           (all_some (map lift_value (let ns = map (\<lambda>m. (fst m, canon (snd m))) ms
                                      in if plain then sorted_object ns else ns))))"

definition hashKey :: "jsv \<Rightarrow> string option option" where
  "hashKey queryKey = map_option (map_option json_print) (canon queryKey)"

function partialMatchKey :: "jsv \<Rightarrow> jsv \<Rightarrow> bool" where
  "partialMatchKey a b =
     (if same a b then True
      else if typeof a \<noteq> typeof b then False
      else if value_truthy a \<and> value_truthy b \<and> typeof a = ''object'' \<and> typeof b = ''object'' then
        list_all (\<lambda>m. partialMatchKey (read_prop a (fst m)) (snd m)) (own_props b)
      else False)"
  by pat_completeness auto

lemma own_props_size: "m \<in> set (own_props b) \<Longrightarrow> size (snd m) < size b"
proof (cases b)
  case (VArr l xs)
  assume "m \<in> set (own_props b)"
  with VArr have "snd m \<in> set xs" by (cases m) (auto simp: own_props_def dest: set_zip_rightD)
  then have "size (snd m) \<le> size_list size xs" by (simp add: size_list_estimation')
  with VArr show ?thesis by simp
next
  case (VObj l ms)
  assume m: "m \<in> set (own_props b)"
  with VObj have "m \<in> set ms" by (simp add: own_props_def)
  then have "size (snd m) \<le> size_list (\<lambda>m. size (snd m)) ms" by (intro size_list_estimation' [OF _ order_refl]) simp
  with VObj member_size [of ms] show ?thesis by simp
qed (simp_all add: own_props_def)

termination partialMatchKey
  by (relation "measure (\<lambda>(a, b). size b)") (auto dest: own_props_size)

declare partialMatchKey.simps [simp del]

text \<open>\<open>shallowEqualObjects\<close> of two objects; the second may be missing.\<close>

definition shallowEqualObjects :: "jsv \<Rightarrow> jsv \<Rightarrow> bool" where
  "shallowEqualObjects a b =
     (if \<not> value_truthy b \<or> length (own_props a) \<noteq> length (own_props b) then False
      else list_all (\<lambda>m. same (snd m) (read_prop b (fst m))) (own_props a))"

text \<open>\<open>addToEnd\<close> and \<open>addToStart\<close> of the infinite queries; a limit of 0 is none.\<close>

definition addToEnd :: "'a list \<Rightarrow> 'a \<Rightarrow> nat \<Rightarrow> 'a list" where
  "addToEnd items item limit = (let newItems = items @ [item] in
     if limit \<noteq> 0 \<and> limit < length newItems then tl newItems else newItems)"

definition addToStart :: "'a list \<Rightarrow> 'a \<Rightarrow> nat \<Rightarrow> 'a list" where
  "addToStart items item limit = (let newItems = item # items in
     if limit \<noteq> 0 \<and> limit < length newItems then butlast newItems else newItems)"

text \<open>\<open>replaceData\<close>: the default, a function (a parameter), or no sharing.\<close>

datatype sharing = Share | ShareWith "jsv \<Rightarrow> jsv \<Rightarrow> nat \<Rightarrow> (jsv \<times> nat) option" | NoShare

definition replaceData :: "jsv \<Rightarrow> jsv \<Rightarrow> sharing \<Rightarrow> nat \<Rightarrow> (jsv \<times> nat) option" where
  "replaceData prevData data sh n = (case sh of
       ShareWith f \<Rightarrow> f prevData data n
     | Share \<Rightarrow> replaceEqualDeep 0 prevData data n
     | NoShare \<Rightarrow> Some (data, n))"

section \<open>Sharing: what is shared and what is equal\<close>

text \<open>
  Equality of values up to references and the order of keys, the specification of both \<open>hashKey\<close>
  and \<open>replaceEqualDeep\<close>.
\<close>

function veq :: "jsv \<Rightarrow> jsv \<Rightarrow> bool" where
  "veq a b = (case (a, b) of
       (VArr _ xs, VArr _ ys) \<Rightarrow> length xs = length ys \<and> list_all (\<lambda>(x, y). veq x y) (zip xs ys)
     | (VObj _ ms, VObj _ ns) \<Rightarrow> length ms = length ns \<and>
         list_all (\<lambda>(k, y). case al_get ms k of Some x \<Rightarrow> veq x y | None \<Rightarrow> False) ns
     | _ \<Rightarrow> a = b)"
  by pat_completeness auto
termination
proof (relation "measure (\<lambda>(a, b). size b)", goal_cases)
  case (2 a b x y x1 xs x2 ys z u v)
  then have "v \<in> set ys" by (auto dest: set_zip_rightD)
  then have "size v \<le> size_list size ys" by (simp add: size_list_estimation')
  with 2 show ?case by (cases z) auto
next
  case (3 a b x y x1 ms x2 ns z k v w)
  then have "size v \<le> size_list (\<lambda>m. size (snd m)) ns"
    using size_list_estimation' [of z ns "size v" "\<lambda>m. size (snd m)"] by (cases z) auto
  with 3 member_size [of ns] show ?case by (cases z) auto
qed simp

declare veq.simps [simp del]

text \<open>The arrays and objects inside a value, itself included.\<close>

fun nodes :: "jsv \<Rightarrow> jsv set" where
  "nodes (VArr l xs) = insert (VArr l xs) (\<Union>x \<in> set xs. nodes x)"
| "nodes (VObj l ms) = insert (VObj l ms) (\<Union>m \<in> set ms. nodes (snd m))"
| "nodes v = {}"

text \<open>A reference belongs to one array or object; all references are below the counter.\<close>

definition coherent :: "jsv set \<Rightarrow> bool" where
  "coherent S = (\<forall>x \<in> S. \<forall>y \<in> S. ref_of x = ref_of y \<longrightarrow> x = y)"

definition below :: "nat \<Rightarrow> jsv \<Rightarrow> bool" where
  "below n v = (\<forall>x \<in> nodes v. case ref_of x of Some l \<Rightarrow> l < n | None \<Rightarrow> True)"

text \<open>Objects as \<open>JSON.parse\<close> makes them, without the two keys that the object protocol uses.\<close>

fun plain :: "jsv \<Rightarrow> bool" where
  "plain (VArr l xs) = list_all plain xs"
| "plain (VObj l ms) = (distinct (map fst ms) \<and> al_get ms ''constructor'' = None \<and>
     al_get ms ''__proto__'' = None \<and> list_all (\<lambda>m. plain (snd m)) ms)"
| "plain v = True"

fun depth :: "jsv \<Rightarrow> nat" where
  "depth (VArr l xs) = Suc (foldr max (map depth xs) 0)"
| "depth (VObj l ms) = Suc (foldr max (map (\<lambda>m. depth (snd m)) ms) 0)"
| "depth v = 0"

lemma veq_Arr [simp]: "veq (VArr l xs) (VArr m ys) \<longleftrightarrow> list_all2 veq xs ys"
  by (subst veq.simps) (auto simp: list_all2_iff list_all_iff)

lemma veq_Obj [simp]: "veq (VObj l ms) (VObj m ns) \<longleftrightarrow> length ms = length ns \<and>
     (\<forall>(k, y) \<in> set ns. \<exists>x. al_get ms k = Some x \<and> veq x y)"
  by (subst veq.simps) (fastforce simp: list_all_iff split: option.splits)

lemma veq_mixed [simp]: "\<not> veq (VArr l xs) (VObj m ns)" "\<not> veq (VObj m ns) (VArr l xs)"
  by (subst veq.simps, simp)+

lemma veq_prim: "ref_of a = None \<Longrightarrow> veq a b \<longleftrightarrow> a = b" "ref_of b = None \<Longrightarrow> veq a b \<longleftrightarrow> a = b"
  by (subst veq.simps, simp add: ref_of_def split: jsv.splits)+

lemma veq_refl: "plain a \<Longrightarrow> veq a a"
proof (induction a rule: plain.induct)
  case (1 l xs)
  then show ?case by (auto simp: list_all_iff intro: list_all2_refl list.rel_refl_strong)
next
  case (2 l ms)
  then have "al_get ms (fst m) = Some (snd m) \<and> veq (snd m) (snd m)" if "m \<in> set ms" for m
    using that by (cases m) (auto simp: al_get_map_of list_all_iff)
  then show ?case by fastforce
qed (simp_all add: veq_prim ref_of_def)

lemma same_eq:
  assumes "coherent (nodes a \<union> nodes b)" and "same a b"
  shows "a = b"
proof (cases "ref_of a")
  case (Some l)
  with assms(2) have "ref_of b = Some l" by (simp add: same_def split: option.splits)
  moreover from Some have "a \<in> nodes a" by (cases a) (simp_all add: ref_of_def)
  moreover from calculation have "b \<in> nodes b" by (cases b) (simp_all add: ref_of_def)
  ultimately show ?thesis using assms(1) Some by (auto simp: coherent_def)
qed (use assms(2) in \<open>simp add: same_def split: option.splits\<close>)

lemma same_prim: "ref_of a = None \<Longrightarrow> same a b \<longleftrightarrow> a = b" "ref_of b = None \<Longrightarrow> same a b \<longleftrightarrow> a = b"
  by (auto simp: same_def split: option.splits)

lemma same_refl [simp]: "same a a"
  by (simp add: same_def split: option.splits)

lemma same_sym: "same a b \<longleftrightarrow> same b a"
  by (auto simp: same_def split: option.splits)

lemma object_refs: "typeof a \<noteq> ''object'' \<or> a = VNull \<longleftrightarrow> ref_of a = None"
  by (cases a) (simp_all add: typeof_def ref_of_def)

lemma nodes_mono:
  "x \<in> set xs \<Longrightarrow> nodes x \<subseteq> nodes (VArr l xs)" "m \<in> set ms \<Longrightarrow> nodes (snd m) \<subseteq> nodes (VObj l ms)"
  by auto

lemma below_nodes: "nodes x \<subseteq> nodes y \<Longrightarrow> below n y \<Longrightarrow> below n x"
  by (auto simp: below_def)

lemma below_le: "below n x \<Longrightarrow> n \<le> m \<Longrightarrow> below m x"
  by (fastforce simp: below_def split: option.splits)

lemma coherent_subset: "coherent S \<Longrightarrow> T \<subseteq> S \<Longrightarrow> coherent T"
  by (auto simp: coherent_def)

lemma not_same_fresh: "below n a \<Longrightarrow> \<not> same (VArr n vs) a \<and> \<not> same (VObj n ms) a"
  by (cases a) (auto simp: below_def same_def ref_of_def)

lemma depth_elem: "x \<in> set xs \<Longrightarrow> depth x < depth (VArr l xs)" "m \<in> set ms \<Longrightarrow> depth (snd m) < depth (VObj l ms)"
proof -
  have "f x \<le> foldr max (map f xs) 0" if "x \<in> set xs" for f :: "'a \<Rightarrow> nat" and x xs
    using that by (induction xs) auto
  from this [of x xs depth] this [of m ms "\<lambda>m. depth (snd m)"]
  show "x \<in> set xs \<Longrightarrow> depth x < depth (VArr l xs)" "m \<in> set ms \<Longrightarrow> depth (snd m) < depth (VObj l ms)"
    by (simp_all add: less_Suc_eq_le)
qed

text \<open>What the loop gets: both sides plain and coherent, and absent items that are no objects.\<close>

definition good :: "nat \<Rightarrow> jsv \<Rightarrow> jsv \<Rightarrow> bool" where
  "good n a b = (below n a \<and> below n b \<and> coherent (nodes a \<union> nodes b) \<and> plain a \<and> plain b)"

definition item_good :: "nat \<Rightarrow> item \<Rightarrow> bool" where
  "item_good n p = (case p of (x, present, y) \<Rightarrow> good n x y \<and> (ref_of x \<noteq> None \<longrightarrow> present))"

definition shared_items :: "nat \<Rightarrow> item list \<Rightarrow> bool" where
  "shared_items d ps = list_all (\<lambda>(x, present, y). present \<and> veq x y \<and> Suc d + depth y \<le> 501) ps"

lemma good_le: "good n a b \<Longrightarrow> n \<le> m \<Longrightarrow> good m a b"
  by (auto simp: good_def intro: below_le)

lemma item_good_le: "list_all (item_good n) ps \<Longrightarrow> n \<le> m \<Longrightarrow> list_all (item_good m) ps"
  by (auto simp: list_all_iff item_good_def intro: good_le)

definition replace_post :: "nat \<Rightarrow> jsv \<Rightarrow> jsv \<Rightarrow> nat \<Rightarrow> (jsv \<times> nat) option \<Rightarrow> bool" where
  "replace_post d a b n r = (case r of None \<Rightarrow> False | Some (v, n') \<Rightarrow>
     n \<le> n' \<and> veq v b \<and> (same v a \<longrightarrow> v = a) \<and> (veq a b \<longrightarrow> d + depth b \<le> 501 \<longrightarrow> v = a))"

definition items_post :: "nat \<Rightarrow> item list \<Rightarrow> nat \<Rightarrow> (jsv list \<times> nat \<times> nat) option \<Rightarrow> bool" where
  "items_post d ps n r = (case r of None \<Rightarrow> False | Some (vs, e, n') \<Rightarrow>
     n \<le> n' \<and> list_all2 (\<lambda>v p. veq v (snd (snd p))) vs ps \<and> e \<le> length ps \<and>
     (e = length ps \<longrightarrow> vs = map fst ps \<and> list_all (\<lambda>p. fst (snd p)) ps) \<and>
     (shared_items d ps \<longrightarrow> e = length ps))"

lemma absent_items:
  "item_good n (x, present, y) \<Longrightarrow> same x y \<Longrightarrow> x = y"
  by (auto simp: item_good_def good_def intro: same_eq)

lemma items_post_Cons:
  assumes "items_post d ps m (Some (vs, e, n'))" and "n \<le> m" and "veq v y"
    and "c \<longrightarrow> v = x \<and> present" and "present \<and> veq x y \<and> Suc d + depth y \<le> 501 \<longrightarrow> c"
  shows "items_post d ((x, present, y) # ps) n (Some (v # vs, if c then Suc e else e, n'))"
  using assms by (auto simp: items_post_def shared_items_def)

lemma arr_items_nth:
  "i < length bs \<Longrightarrow> arr_items as bs ! i = (if i < length as then as ! i else VUndef, i < length as, bs ! i)"
  by (simp add: arr_items_def)

lemma arr_items_length [simp]: "length (arr_items as bs) = length bs"
  by (simp add: arr_items_def)

lemma good_sub:
  assumes "good n a b" and "nodes x \<subseteq> nodes a" and "nodes y \<subseteq> nodes b" and "plain x" and "plain y"
  shows "good n x y"
  using assms below_nodes [of x a n] below_nodes [of y b n] coherent_subset [of "nodes a \<union> nodes b" "nodes x \<union> nodes y"]
  by (auto simp: good_def)

lemma read_prop_own: "al_get (own_props a) k = Some x \<Longrightarrow> read_prop a k = x"
  by (simp add: read_prop_def)

lemma read_prop_absent: "al_get (own_props a) k = None \<Longrightarrow> ref_of (read_prop a k) = None"
  by (auto simp: read_prop_def ref_of_def split: jsv.splits)

lemma absent_plain: "ref_of x = None \<Longrightarrow> plain x \<and> nodes x = {}"
  by (cases x) (simp_all add: ref_of_def)

lemma arr_items_good:
  assumes "good n (VArr l as) (VArr m bs)"
  shows "list_all (item_good (Suc n)) (arr_items as bs)"
proof (unfold list_all_length, intro allI impI)
  fix i assume "i < length (arr_items as bs)"
  then have i: "i < length bs" by simp
  have "good n x y" if "x \<in> set as \<or> x = VUndef" "y \<in> set bs" for x y
    using that assms nodes_mono(1) [of x as l] nodes_mono(1) [of y bs m]
    by (intro good_sub [OF assms]) (auto simp: good_def list_all_iff)
  then have "good n (if i < length as then as ! i else VUndef) (bs ! i)" using i by simp
  then show "item_good (Suc n) (arr_items as bs ! i)"
    using i by (auto simp: arr_items_nth item_good_def ref_of_def intro: good_le)
qed

lemma obj_items_good:
  assumes "good n (VObj l am) (VObj m bm)"
  shows "list_all (item_good (Suc n)) (obj_items (VObj l am) bm)"
proof (unfold list_all_iff, intro ballI)
  fix p assume "p \<in> set (obj_items (VObj l am) bm)"
  then obtain k y where p: "p = (read_prop (VObj l am) k, al_has am k, y)" and y: "(k, y) \<in> set bm"
    by (auto simp: obj_items_def own_props_def)
  have y': "nodes y \<subseteq> nodes (VObj m bm)" "plain y"
    using assms y nodes_mono(2) [of "(k, y)" bm m] by (auto simp: good_def list_all_iff)
  have "good n (read_prop (VObj l am) k) y \<and> (ref_of (read_prop (VObj l am) k) \<noteq> None \<longrightarrow> al_has am k)"
  proof (cases "al_get am k")
    case (Some x)
    then have "(k, x) \<in> set am" by (simp add: al_get_map_of map_of_SomeD)
    then have "nodes x \<subseteq> nodes (VObj l am)" "plain x"
      using assms nodes_mono(2) [of "(k, x)" am l] by (auto simp: good_def list_all_iff)
    moreover have "read_prop (VObj l am) k = x" by (rule read_prop_own) (simp add: own_props_def Some)
    ultimately show ?thesis
      using Some good_sub [OF assms _ y'(1) _ y'(2), of x] by (simp add: al_has_def)
  next
    case None
    then have r: "ref_of (read_prop (VObj l am) k) = None" by (intro read_prop_absent) (simp add: own_props_def)
    then show ?thesis
      using good_sub [OF assms _ y'(1) _ y'(2)] absent_plain [OF r] by simp
  qed
  then show "item_good (Suc n) p" by (auto simp: p item_good_def intro: good_le)
qed

lemma post_arr:
  assumes g: "good n (VArr l as) (VArr m bs)"
    and post: "items_post d (arr_items as bs) (Suc n) (Some (vs, e, n'))"
  shows "replace_post d (VArr l as) (VArr m bs) n
    (Some (if length as = length bs \<and> e = length as then VArr l as else VArr n vs, n'))"
proof -
  have le: "n \<le> n'" and each: "list_all2 (\<lambda>v p. veq v (snd (snd p))) vs (arr_items as bs)"
    and full: "e = length bs \<Longrightarrow> vs = map fst (arr_items as bs)"
    using post by (simp_all add: items_post_def)
  have "list_all2 veq vs (map (\<lambda>p. snd (snd p)) (arr_items as bs))"
    using each by (simp add: list_all2_conv_all_nth)
  then have eq: "list_all2 veq vs bs" by (simp add: arr_items_third)
  have vs: "vs = as" if "length as = length bs" "e = length as"
    using that full by (intro nth_equalityI) (auto simp: arr_items_nth)
  have share: "length as = length bs \<and> e = length as"
    if "veq (VArr l as) (VArr m bs)" "d + depth (VArr m bs) \<le> 501"
  proof -
    from that(1) have v: "list_all2 veq as bs" by simp
    have "Suc d + depth (bs ! i) \<le> 501" if "i < length bs" for i
      using that depth_elem(1) [of "bs ! i" bs m] \<open>d + _ \<le> 501\<close> by simp
    with v have "shared_items d (arr_items as bs)"
      by (simp add: shared_items_def list_all_length arr_items_nth list_all2_conv_all_nth)
    with post v show ?thesis by (auto simp: items_post_def list_all2_lengthD)
  qed
  have "\<not> same (VArr n vs) (VArr l as)" using g not_same_fresh unfolding good_def by blast
  with le eq vs share show ?thesis by (auto simp: replace_post_def)
qed

lemma obj_items_nth:
  "i < length bm \<Longrightarrow> obj_items a bm ! i = (read_prop a (fst (bm ! i)), al_has (own_props a) (fst (bm ! i)), snd (bm ! i))"
  by (simp add: obj_items_def case_prod_beta)

lemma obj_items_length [simp]: "length (obj_items a bm) = length bm"
  by (simp add: obj_items_def)

lemma al_get_zip: "distinct ks \<Longrightarrow> length ks = length vs \<Longrightarrow> i < length vs \<Longrightarrow> al_get (zip ks vs) (ks ! i) = Some (vs ! i)"
  by (simp add: al_get_map_of map_of_zip_nth)

lemma make_copy_plain:
  assumes "al_get bm ''__proto__'' = None"
  shows "make_copy (map fst bm) vs = zip (map fst bm) vs"
proof -
  have "''__proto__'' \<notin> set (map fst bm)" using assms by (simp add: al_get_map_of map_of_eq_None_iff)
  then show ?thesis unfolding make_copy_def by (auto intro!: filter_True dest: set_zip_leftD)
qed

lemma post_obj:
  assumes g: "good n (VObj l am) (VObj m bm)"
    and post: "items_post d (obj_items (VObj l am) bm) (Suc n) (Some (vs, e, n'))"
  shows "replace_post d (VObj l am) (VObj m bm) n
    (Some (if length am = length bm \<and> e = length am then VObj l am else VObj n (make_copy (map fst bm) vs), n'))"
proof -
  let ?ps = "obj_items (VObj l am) bm"
  have own: "own_props (VObj l am) = am" by (simp add: own_props_def)
  from g have d: "distinct (map fst am)" "distinct (map fst bm)" and proto: "al_get bm ''__proto__'' = None"
    by (simp_all add: good_def)
  have le: "n \<le> n'" and each: "list_all2 (\<lambda>v p. veq v (snd (snd p))) vs ?ps"
    and full: "e = length bm \<Longrightarrow> vs = map fst ?ps \<and> list_all (\<lambda>p. fst (snd p)) ?ps"
    using post by (simp_all add: items_post_def)
  have len: "length vs = length bm" using each by (auto dest: list_all2_lengthD)
  have nth: "veq (vs ! i) (snd (bm ! i))" if "i < length bm" for i
    using each that len by (simp add: list_all2_conv_all_nth obj_items_nth)
  have "\<exists>x. al_get (zip (map fst bm) vs) k = Some x \<and> veq x y" if "(k, y) \<in> set bm" for k y
  proof -
    from that obtain i where i: "i < length bm" "bm ! i = (k, y)" by (auto simp: in_set_conv_nth)
    with al_get_zip [OF d(2), of vs i] len have "al_get (zip (map fst bm) vs) k = Some (vs ! i)" by simp
    with nth [OF i(1)] i(2) show ?thesis by simp
  qed
  then have copy: "veq (VObj n (make_copy (map fst bm) vs)) (VObj m bm)"
    using len by (auto simp: make_copy_plain [OF proto])
  have kept: "veq (VObj l am) (VObj m bm)" if c: "length am = length bm" "e = length am"
  proof -
    have "\<exists>x. al_get am k = Some x \<and> veq x y" if ky: "(k, y) \<in> set bm" for k y
    proof -
      from ky obtain i where i: "i < length bm" "bm ! i = (k, y)" by (auto simp: in_set_conv_nth)
      from full c have v: "vs = map fst ?ps" and pres: "list_all (\<lambda>p. fst (snd p)) ?ps" by simp_all
      from pres i have "al_has am k" by (auto simp: list_all_length obj_items_nth own)
      then obtain x where x: "al_get am k = Some x" by (auto simp: al_has_def)
      then have "read_prop (VObj l am) k = x" by (intro read_prop_own) (simp add: own)
      with v i nth [of i] have "veq x y" by (simp add: obj_items_nth)
      with x show ?thesis by blast
    qed
    with c show ?thesis by auto
  qed
  have share: "length am = length bm \<and> e = length am"
    if v: "veq (VObj l am) (VObj m bm)" and dep: "d + depth (VObj m bm) \<le> 501"
  proof -
    have "fst (snd (?ps ! i)) \<and> veq (fst (?ps ! i)) (snd (snd (?ps ! i))) \<and> Suc d + depth (snd (snd (?ps ! i))) \<le> 501"
      if i: "i < length bm" for i
    proof -
      obtain k y where ky: "bm ! i = (k, y)" by force
      with i have mem: "(k, y) \<in> set bm" by (auto simp: in_set_conv_nth)
      with v obtain x where x: "al_get am k = Some x" "veq x y" by auto
      then have "read_prop (VObj l am) k = x" by (intro read_prop_own) (simp add: own)
      with x depth_elem(2) [OF mem, of m] dep i ky show ?thesis
        by (simp add: obj_items_nth own al_has_def)
    qed
    then have "shared_items d ?ps" by (auto simp: shared_items_def list_all_length case_prod_beta)
    with post v show ?thesis by (simp add: items_post_def)
  qed
  have "\<not> same (VObj n (make_copy (map fst bm) vs)) (VObj l am)" using g not_same_fresh unfolding good_def by blast
  with le copy kept share show ?thesis by (auto simp: replace_post_def)
qed

lemma both_plain_obj: "plain (VObj l am) \<Longrightarrow> plain (VObj m bm) \<Longrightarrow> both_plain (VObj l am) (VObj m bm) = Some True"
  by (simp add: both_plain_def isPlainObject_def)

lemma not_both_objects:
  assumes "good n a b" and "\<not> same a b" and "\<not> (isPlainArray a \<and> isPlainArray b)"
    and "\<not> (\<exists>l am m bm. a = VObj l am \<and> b = VObj m bm)"
  shows "\<not> veq a b" "both_plain a b = Some False"
proof -
  have "ref_of a = None \<Longrightarrow> \<not> veq a b" "ref_of b = None \<Longrightarrow> \<not> veq a b"
    using assms(2) by (auto simp: veq_prim)
  with assms(3,4) show "\<not> veq a b"
    by (cases a; cases b; simp add: isPlainArray_def ref_of_def)
  show "both_plain a b = Some False"
    using assms(1,3,4) by (cases a; cases b) (simp_all add: both_plain_def isPlainObject_def good_def)
qed

lemma replace_main:
  "good n a b \<Longrightarrow> replace_post d a b n (replaceEqualDeep d a b n)"
  "list_all (item_good n) ps \<Longrightarrow> items_post d ps n (replace_items d ps n)"
proof (induction d a b n and d ps n rule: replaceEqualDeep_replace_items.induct)
  case (1 d a b n)
  have refl: "plain a" "plain b" using 1(3) by (simp_all add: good_def)
  show ?case
  proof (cases "same a b")
    case True
    then have "a = b" using 1(3) by (auto simp: good_def intro: same_eq)
    with True refl show ?thesis by (simp add: replaceEqualDeep.simps replace_post_def veq_refl)
  next
    case ns: False
    then have nb: "\<not> same b a" by (simp add: same_sym)
    show ?thesis
    proof (cases "500 < d")
      case True
      have "0 < depth b \<or> \<not> veq a b" using ns by (cases b) (simp_all add: veq_prim ref_of_def same_prim)
      with True ns nb refl show ?thesis
        by (auto simp: replaceEqualDeep.simps replace_post_def veq_refl)
    next
      case dep: False
      consider (arr) "isPlainArray a \<and> isPlainArray b" | (obj) "\<exists>l am m bm. a = VObj l am \<and> b = VObj m bm"
        | (none) "\<not> (isPlainArray a \<and> isPlainArray b)" "\<not> (\<exists>l am m bm. a = VObj l am \<and> b = VObj m bm)"
        by blast
      then show ?thesis
      proof cases
        case arr
        then obtain l as m bs where ab: "a = VArr l as" "b = VArr m bs" by (auto dest!: isPlainArrayE)
        with 1(3) have "list_all (item_good (Suc n)) (arr_items as bs)" by (auto intro: arr_items_good)
        then have "items_post d (arr_items as bs) (Suc n) (replace_items d (arr_items as bs) (Suc n))"
          using 1(1) [OF ns dep arr] ab by (simp add: elems_def)
        moreover then obtain vs e n' where r: "replace_items d (arr_items as bs) (Suc n) = Some (vs, e, n')"
          by (auto simp: items_post_def split: option.splits)
        ultimately show ?thesis
          using post_arr [of n l as m bs d vs e n'] 1(3) ns dep arr ab by (simp add: replaceEqualDeep.simps elems_def)
      next
        case obj
        then obtain l am m bm where ab: "a = VObj l am" "b = VObj m bm" by blast
        have bp: "both_plain a b = Some True" using refl unfolding ab by (rule both_plain_obj)
        have na: "\<not> (isPlainArray a \<and> isPlainArray b)" by (simp add: ab isPlainArray_def)
        from 1(3) ab have "list_all (item_good (Suc n)) (obj_items a bm)" by (auto intro: obj_items_good)
        then have "items_post d (obj_items a bm) (Suc n) (replace_items d (obj_items a bm) (Suc n))"
          using 1(2) [OF ns dep na bp] ab by (simp add: own_props_def)
        moreover then obtain vs e n' where r: "replace_items d (obj_items a bm) (Suc n) = Some (vs, e, n')"
          by (auto simp: items_post_def split: option.splits)
        moreover have "replaceEqualDeep d a b n =
            Some (if length am = length bm \<and> e = length am then VObj l am else VObj n (make_copy (map fst bm) vs), n')"
          using r ns dep na bp by (simp add: ab replaceEqualDeep.simps own_props_def isPlainArray_def)
        ultimately show ?thesis
          using post_obj [of n l am m bm d vs e n'] 1(3) ab by (simp only:)
      next
        case none
        show ?thesis
          using not_both_objects [OF 1(3) ns none] ns nb dep none(1) refl
          by (auto simp: replaceEqualDeep.simps replace_post_def veq_refl)
      qed
    qed
  qed
next
  case (2 d n)
  then show ?case by (simp add: items_post_def)
next
  case (3 d x present y ps n)
  from 3(5) have item: "good n x y" "ref_of x \<noteq> None \<longrightarrow> present" and rest: "list_all (item_good n) ps"
    by (auto simp: item_good_def [of n "(x, present, y)"])
  have plain: "plain y" using item(1) by (simp add: good_def)
  show ?case
  proof (cases "same x y")
    case True
    with item have "x = y" by (auto simp: good_def intro: same_eq)
    from 3(1) [OF True rest] obtain vs e n' where r: "replace_items d ps n = Some (vs, e, n')"
      by (auto simp: items_post_def split: option.splits)
    with 3(1) [OF True rest] True \<open>x = y\<close> plain show ?thesis
      using items_post_Cons [of d ps n vs e n' n x y present x present] by (simp add: veq_refl)
  next
    case ns: False
    show ?thesis
    proof (cases "x = VNull \<or> y = VNull \<or> typeof x \<noteq> ''object'' \<or> typeof y \<noteq> ''object''")
      case True
      then have "ref_of x = None \<or> ref_of y = None" using object_refs [of x] object_refs [of y] by metis
      then have "\<not> veq x y" using ns by (auto simp: veq_prim)
      from 3(2) [OF ns True rest] obtain vs e n' where r: "replace_items d ps n = Some (vs, e, n')"
        by (auto simp: items_post_def split: option.splits)
      with 3(2) [OF ns True rest] True ns \<open>\<not> veq x y\<close> plain show ?thesis
        using items_post_Cons [of d ps n vs e n' n y y False x present] by (simp add: veq_refl)
    next
      case obj: False
      then have p: "present" using item(2) object_refs [of x] by metis
      from 3(3) [OF ns obj item(1)] obtain v n1 where v: "replaceEqualDeep (Suc d) x y n = Some (v, n1)"
        and post: "replace_post (Suc d) x y n (Some (v, n1))"
        by (auto simp: replace_post_def split: option.splits)
      then have le: "n \<le> n1" by (simp add: replace_post_def)
      from 3(4) [OF ns obj v _ item_good_le [OF rest le]] obtain vs e n'
        where r: "replace_items d ps n1 = Some (vs, e, n')" and ip: "items_post d ps n1 (Some (vs, e, n'))"
        by (auto simp: items_post_def split: option.splits)
      have "items_post d ((x, present, y) # ps) n (Some (v # vs, if same v x then Suc e else e, n'))"
        using post p by (intro items_post_Cons [OF ip le]) (auto simp: replace_post_def)
      with ns obj v r show ?thesis by simp
    qed
  qed
qed

lemma replaceEqualDeep_defined:
  assumes "replaceEqualDeep d a b n = Some (v, n')" and "b \<noteq> VUndef"
  shows "v \<noteq> VUndef"
proof (cases "same a b \<or> 500 < d")
  case True
  have "same a b \<Longrightarrow> a \<noteq> VUndef" using assms(2) by (auto simp: same_prim ref_of_def)
  with True assms show ?thesis by (auto simp: replaceEqualDeep.simps [of d a b n] split: if_splits)
next
  case False
  show ?thesis
  proof (cases "isPlainArray a \<and> isPlainArray b")
    case True
    then have "a \<noteq> VUndef" by (auto dest: isPlainArrayE)
    with True False assms show ?thesis
      by (auto simp: replaceEqualDeep.simps [of d a b n] split: option.splits if_splits)
  next
    case arr: False
    have "both_plain a b = Some True \<Longrightarrow> a \<noteq> VUndef" by (auto dest: both_plainE)
    with arr False assms show ?thesis
      by (auto simp: replaceEqualDeep.simps [of d a b n] split: option.splits bool.splits if_splits)
  qed
qed

text \<open>C10. Structural sharing is correct: for plain data (what JSON.parse yields, without the two keys of
  the object protocol) it does not throw, its result has the value of the new data, it is the old
  data itself only when the two have the same value, and it is the old data itself whenever they
  have the same value and the nesting stays below the depth limit of 500.\<close>

theorem structural_sharing:
  assumes "below n a" and "below n b" and "coherent (nodes a \<union> nodes b)" and "plain a" and "plain b"
  shows "case replaceData a b Share n of
      None \<Rightarrow> False
    | Some (v, n') \<Rightarrow> veq v b \<and> (same v a \<longrightarrow> v = a \<and> veq a b) \<and> (depth b \<le> 501 \<and> veq a b \<longrightarrow> v = a)"
proof -
  have "good n a b" using assms by (simp add: good_def)
  from replace_main(1) [OF this, of 0] show ?thesis
    by (auto simp: replaceData_def replace_post_def split: option.splits)
qed

theorem structural_sharing_witness:
  "let a = VObj 0 [(''name'', VStr ''x''), (''tags'', VArr 1 [VNum 1, VNum 2])];
       b = VObj 2 [(''tags'', VArr 3 [VNum 1, VNum 2]), (''name'', VStr ''x'')];
       c = VObj 4 [(''tags'', VArr 5 [VNum 1, VNum 2]), (''name'', VStr ''y'')]
   in replaceData a b Share 9 = Some (a, 11) \<and>
      replaceData a c Share 9 = Some (VObj 9 [(''tags'', VArr 1 [VNum 1, VNum 2]), (''name'', VStr ''y'')], 11) \<and>
      (case replaceData a b Share 9 of
         None \<Rightarrow> False
       | Some (v, n') \<Rightarrow> veq v b \<and> (same v a \<longrightarrow> v = a \<and> veq a b) \<and> (depth b \<le> 501 \<and> veq a b \<longrightarrow> v = a))"
proof -
  let ?a = "VObj 0 [(''name'', VStr ''x''), (''tags'', VArr 1 [VNum 1, VNum 2])]"
  let ?b = "VObj 2 [(''tags'', VArr 3 [VNum 1, VNum 2]), (''name'', VStr ''x'')]"
  let ?c = "VObj 4 [(''tags'', VArr 5 [VNum 1, VNum 2]), (''name'', VStr ''y'')]"
  have "replaceData ?a ?b Share 9 = Some (?a, 11)" by code_simp
  moreover have "replaceData ?a ?c Share 9 =
      Some (VObj 9 [(''tags'', VArr 1 [VNum 1, VNum 2]), (''name'', VStr ''y'')], 11)" by code_simp
  moreover have "case replaceData ?a ?b Share 9 of
         None \<Rightarrow> False
       | Some (v, n') \<Rightarrow> veq v ?b \<and> (same v ?a \<longrightarrow> v = ?a \<and> veq ?a ?b) \<and> (depth ?b \<le> 501 \<and> veq ?a ?b \<longrightarrow> v = ?a)"
    by (rule structural_sharing) (auto simp: below_def coherent_def ref_of_def)
  ultimately show ?thesis unfolding Let_def by blast
qed

section \<open>Keys: the hash is a canonical form\<close>

text \<open>Keys without functions and undefined values, with numbers that print exactly.\<close>

fun key_data :: "jsv \<Rightarrow> bool" where
  "key_data (VArr l xs) = list_all key_data xs"
| "key_data (VObj l ms) = (plain (VObj l ms) \<and> list_all (\<lambda>m. key_data (snd m)) ms)"
| "key_data (VNum i) = (\<bar>i\<bar> < 10 ^ 15)"
| "key_data VUndef = False"
| "key_data (VFun f) = False"
| "key_data v = True"

fun canonical :: "jsv \<Rightarrow> json" where
  "canonical (VArr l xs) = JArr (map canonical xs)"
| "canonical (VObj l ms) = JObj (sorted_object (map (\<lambda>m. (fst m, canonical (snd m))) ms))"
| "canonical (VBool b) = JBool b"
| "canonical (VNum i) = JNum i"
| "canonical (VStr s) = JStr s"
| "canonical v = JNull"

lemma insort_key_map: "insort_key f (g x) (map g xs) = map g (insort_key (\<lambda>a. f (g a)) x xs)"
  by (induction xs) auto

lemma sort_key_map: "sort_key f (map g xs) = map g (sort_key (f \<circ> g) xs)"
  by (induction xs) (simp_all add: insort_key_map comp_def)

lemma sorted_object_map:
  "sorted_object (map (\<lambda>m. (fst m, f (snd m))) xs) = map (\<lambda>m. (fst m, f (snd m))) (sorted_object xs)"
  by (simp add: sorted_object_def object_order_def sort_key_map filter_map comp_def)

lemma sorted_object_set:
  "''__proto__'' \<notin> fst ` set xs \<Longrightarrow> set (sorted_object xs) = set xs"
  by (force simp: sorted_object_def object_order_def)

lemma sorted_object_distinct: "distinct (map fst xs) \<Longrightarrow> distinct (map fst (sorted_object xs))"
proof -
  assume d: "distinct (map fst xs)"
  have inj: "inj_on fst (set (sorted_object xs))"
    using d by (auto simp: sorted_object_def object_order_def distinct_map intro: inj_on_subset)
  have "distinct xs" using d by (simp add: distinct_map)
  then have "distinct (sorted_object xs)" by (auto simp: sorted_object_def object_order_def)
  with inj show ?thesis by (simp add: distinct_map)
qed

lemma sort_fst_unique:
  assumes "distinct (map fst xs)" and "distinct (map fst ys)" and "set xs = set ys"
  shows "sort_key fst xs = sort_key fst ys"
  using assms by (intro map_sorted_distinct_set_unique [of fst]) (auto simp: distinct_map inj_on_def)

lemma sorted_object_unique:
  "distinct (map fst xs) \<Longrightarrow> distinct (map fst ys) \<Longrightarrow> set xs = set ys \<Longrightarrow> sorted_object xs = sorted_object ys"
  by (simp add: sorted_object_def sort_fst_unique [of xs ys])

lemma all_some_Some: "all_some (map (\<lambda>x. Some (f x)) xs) = Some (map f xs)"
  by (induction xs) auto

lemma drop_undefined_Some: "drop_undefined (map (\<lambda>m. (fst m, Some (f (snd m)))) xs) = map (\<lambda>m. (fst m, f (snd m))) xs"
  by (induction xs) auto

lemma canon_canonical: "key_data v \<Longrightarrow> canon v = Some (Some (canonical v))"
proof (induction v rule: canonical.induct)
  case (1 l xs)
  then have "map canon xs = map (\<lambda>x. Some (Some (canonical x))) xs" by (auto simp: list_all_iff)
  then have "all_some (map canon xs) = Some (map (\<lambda>x. Some (canonical x)) xs)"
    by (simp only: all_some_Some [of "\<lambda>x. Some (canonical x)"])
  then show ?case by (simp add: comp_def or_null_def)
next
  case (2 l ms)
  then have m: "map (\<lambda>m. (fst m, canon (snd m))) ms = map (\<lambda>m. (fst m, Some (Some (canonical (snd m))))) ms"
    by (auto simp: list_all_iff)
  then have "sorted_object (map (\<lambda>m. (fst m, canon (snd m))) ms) =
      map (\<lambda>m. (fst m, Some (Some (canonical (snd m))))) (sorted_object ms)"
    by (simp only: m sorted_object_map [of "\<lambda>v. Some (Some (canonical v))"])
  moreover have "isPlainObject (VObj l ms) = Some True" using 2(2) by (simp add: isPlainObject_def)
  ultimately show ?case
    using drop_undefined_Some [of canonical "sorted_object ms"] sorted_object_map [of canonical ms]
    by (simp add: Let_def lift_value_def comp_def all_some_Some)
qed simp_all

lemma no_proto: "plain (VObj l ms) \<Longrightarrow> ''__proto__'' \<notin> fst ` set ms"
  by (simp add: al_get_map_of map_of_eq_None_iff)

lemma canonical_ok: "key_data v \<Longrightarrow> json_ok (canonical v)"
proof (induction v rule: canonical.induct)
  case (2 l ms)
  then have "distinct (map fst (sorted_object ms))" "set (sorted_object ms) = set ms"
    using no_proto [of l ms] by (simp_all add: sorted_object_distinct sorted_object_set)
  with 2 show ?case by (auto simp: sorted_object_map list_all_iff comp_def)
qed (auto simp: list_all_iff)

definition canonical_member :: "string \<times> jsv \<Rightarrow> string \<times> json" where
  "canonical_member m = (fst m, canonical (snd m))"

lemma canonical_Obj: "canonical (VObj l ms) = JObj (sorted_object (map canonical_member ms))"
  by (simp add: canonical_member_def [abs_def])

lemma canonical_member_fst [simp]: "fst (canonical_member m) = fst m" "fst \<circ> canonical_member = fst"
  by (simp_all add: canonical_member_def comp_def)

lemma canonical_obj:
  assumes "plain (VObj l ms)" and "plain (VObj m ns)"
  shows "canonical (VObj l ms) = canonical (VObj m ns) \<longleftrightarrow>
    canonical_member ` set ms = canonical_member ` set ns"
proof -
  have set: "set (sorted_object (map canonical_member xs)) = canonical_member ` set xs"
    if "plain (VObj k xs)" for k xs
    using sorted_object_set [of "map canonical_member xs"] no_proto [OF that]
    by (simp only: set_map image_image canonical_member_fst) simp
  have "sorted_object (map canonical_member ms) = sorted_object (map canonical_member ns)"
    if "canonical_member ` set ms = canonical_member ` set ns"
    using assms that by (intro sorted_object_unique) simp_all
  with set [OF assms(1)] set [OF assms(2)] show ?thesis
    unfolding canonical_Obj json.inject by metis
qed

lemma canonical_veq: "key_data a \<Longrightarrow> key_data b \<Longrightarrow> canonical a = canonical b \<longleftrightarrow> veq a b"
proof (induction b arbitrary: a rule: canonical.induct)
  case (1 l xs)
  show ?case
  proof (cases a)
    case (VArr m ys)
    have "map canonical ys = map canonical xs \<longleftrightarrow> list_all2 veq ys xs"
      using 1(1) 1(2,3) VArr by (auto simp: list_eq_iff_nth_eq list_all2_conv_all_nth list_all_length)
    with VArr show ?thesis by simp
  qed (simp_all add: veq_prim ref_of_def)
next
  case (2 l ns)
  show ?case
  proof (cases a)
    case (VObj m ms)
    have p: "plain (VObj m ms)" "plain (VObj l ns)" using 2(2,3) VObj by simp_all
    then have d: "distinct (map fst ms)" "distinct (map fst ns)" by simp_all
    have IH: "canonical x = canonical y \<longleftrightarrow> veq x y" if "(k, x) \<in> set ms" "(k', y) \<in> set ns" for k k' x y
    proof -
      have "key_data x" "key_data y" using 2(2,3) that VObj by (force simp: list_all_iff)+
      with 2(1) [OF that(2), of x] show ?thesis by simp
    qed
    have get: "al_get ms k = Some x \<longleftrightarrow> (k, x) \<in> set ms" for k x
      using d(1) by (simp add: al_get_map_of map_of_eq_Some_iff)
    have inj: "card (canonical_member ` set xs) = length xs" if "distinct (map fst xs)" for xs
    proof -
      have "inj_on canonical_member (set xs)"
        using that by (auto simp: distinct_map canonical_member_def inj_on_def)
      with that show ?thesis by (simp add: card_image distinct_map distinct_card)
    qed
    have "canonical_member ` set ms = canonical_member ` set ns \<longleftrightarrow>
        length ms = length ns \<and> canonical_member ` set ns \<subseteq> canonical_member ` set ms"
      using inj [OF d(1)] inj [OF d(2)] by (metis card_subset_eq finite_imageI finite_set order_refl)
    also have "canonical_member ` set ns \<subseteq> canonical_member ` set ms \<longleftrightarrow>
        (\<forall>(k, y) \<in> set ns. \<exists>x. (k, x) \<in> set ms \<and> canonical x = canonical y)"
      by (force simp: image_iff canonical_member_def)
    also have "\<dots> \<longleftrightarrow> (\<forall>(k, y) \<in> set ns. \<exists>x. al_get ms k = Some x \<and> veq x y)"
      using IH get by fastforce
    finally show ?thesis unfolding canonical_obj [OF p] VObj veq_Obj .
  qed (simp_all add: veq_prim ref_of_def)
next
  case (3 b)
  then show ?case by (cases a) (simp_all add: veq_prim ref_of_def)
next
  case (4 i)
  then show ?case by (cases a) (simp_all add: veq_prim ref_of_def)
next
  case (5 s)
  then show ?case by (cases a) (simp_all add: veq_prim ref_of_def)
next
  case "6_2"
  then show ?case by (cases a) (simp_all add: veq_prim ref_of_def)
qed simp_all

lemma hashKey_veq:
  assumes "key_data a" and "key_data b"
  shows "(hashKey a = hashKey b \<longleftrightarrow> veq a b) \<and> hashKey a \<noteq> None \<and> hashKey a \<noteq> Some None"
proof -
  have h: "hashKey v = Some (Some (json_print (canonical v)))" if "key_data v" for v
    using that by (simp add: hashKey_def canon_canonical)
  have "json_print (canonical a) = json_print (canonical b) \<longleftrightarrow> canonical a = canonical b"
    using json_parse_print [OF canonical_ok [OF assms(1)]] json_parse_print [OF canonical_ok [OF assms(2)]]
    by (metis option.inject)
  then show ?thesis by (simp add: h assms canonical_veq)
qed

text \<open>C9. Two query keys share a cache entry exactly when they are equal up to the order of object
  keys: hashKey is a canonical form, for keys of strings, integers, booleans, null, arrays and
  plain objects.\<close>

theorem hashKey_canonical:
  assumes "key_data a" and "key_data b"
  shows "(hashKey a = hashKey b \<longleftrightarrow> veq a b) \<and> hashKey a \<noteq> None \<and> hashKey a \<noteq> Some None"
  using assms by (rule hashKey_veq)

theorem hashKey_canonical_witness:
  "let a = VArr 0 [VStr ''commits'', VObj 1 [(''ref'', VStr ''main''), (''page'', VNum 1)]];
       b = VArr 2 [VStr ''commits'', VObj 3 [(''page'', VNum 1), (''ref'', VStr ''main'')]]
   in hashKey a = hashKey b \<and>
      hashKey a = Some (Some (''['' @ json_quote ''commits'' @ '',{'' @ json_quote ''page'' @ '':1,'' @
        json_quote ''ref'' @ '':'' @ json_quote ''main'' @ ''}]''))"
proof -
  let ?a = "VArr 0 [VStr ''commits'', VObj 1 [(''ref'', VStr ''main''), (''page'', VNum 1)]]"
  let ?b = "VArr 2 [VStr ''commits'', VObj 3 [(''page'', VNum 1), (''ref'', VStr ''main'')]]"
  have "key_data ?a" "key_data ?b" "veq ?a ?b" by (simp_all add: veq_prim ref_of_def)
  then have "hashKey ?a = hashKey ?b" using hashKey_canonical [of ?a ?b] by simp
  moreover have "hashKey ?a = Some (Some (''['' @ json_quote ''commits'' @ '',{'' @ json_quote ''page'' @ '':1,'' @
        json_quote ''ref'' @ '':'' @ json_quote ''main'' @ ''}]''))" by code_simp
  ultimately show ?thesis unfolding Let_def by blast
qed

section \<open>Partial matching of keys\<close>

lemma show_nat_inj: "show_nat i = show_nat j \<longleftrightarrow> i = j"
  by (metis digits_nat_show)

lemma index_get:
  "al_get (zip (map show_nat [0..<length xs]) xs) (show_nat i) = (if i < length xs then Some (xs ! i) else None)"
proof (cases "i < length xs")
  case True
  have "distinct (map show_nat [0..<length xs])"
    by (simp add: distinct_map inj_on_def show_nat_inj)
  with True al_get_zip [of "map show_nat [0..<length xs]" xs i] show ?thesis by simp
next
  case False
  then have "show_nat i \<notin> set (map show_nat [0..<length xs])" by (auto simp: show_nat_inj)
  then have "show_nat i \<notin> fst ` set (zip (map show_nat [0..<length xs]) xs)" by (auto dest: set_zip_leftD)
  with False show ?thesis by (simp add: al_get_map_of map_of_eq_None_iff)
qed

lemma show_nat_no_name: "show_nat i \<noteq> ''length'' \<and> show_nat i \<notin> set array_prototype \<and> show_nat i \<notin> set object_prototype"
proof -
  have names: "list_all (\<lambda>k. \<not> is_digit (hd k)) (''length'' # array_prototype @ object_prototype)" by code_simp
  have "is_digit (hd (show_nat i))" using show_nat_digits [of "hd (show_nat i)" i] by simp
  with names show ?thesis unfolding list_all_iff by auto
qed

lemma read_prop_index: "read_prop (VArr l xs) (show_nat i) = (if i < length xs then xs ! i else VUndef)"
  using show_nat_no_name [of i] by (simp add: read_prop_def own_props_def index_get)

lemma partialMatchKey_prim: "ref_of y = None \<Longrightarrow> partialMatchKey x y \<longleftrightarrow> x = y"
proof (cases "same x y")
  case False
  assume y: "ref_of y = None"
  then have "\<not> (value_truthy y \<and> typeof y = ''object'')"
    using object_refs [of y] by (auto simp: value_truthy_def)
  with False y show ?thesis by (auto simp: partialMatchKey.simps [of x y] same_prim)
next
  case True
  assume "ref_of y = None"
  with True have "x = y" by (simp add: same_prim)
  then show ?thesis by (simp add: partialMatchKey.simps [of y y])
qed

text \<open>Filtering by a query key selects the keys it is a prefix of, for filters of strings,
  numbers, booleans and null.\<close>

theorem partialMatchKey_prefix:
  assumes "l \<noteq> m" and "list_all (\<lambda>y. ref_of y = None \<and> y \<noteq> VUndef) ys"
  shows "partialMatchKey (VArr l xs) (VArr m ys) \<longleftrightarrow> prefix ys xs"
proof -
  let ?a = "VArr l xs" and ?b = "VArr m ys"
  have "partialMatchKey ?a ?b \<longleftrightarrow> list_all (\<lambda>p. partialMatchKey (read_prop ?a (fst p)) (snd p)) (own_props ?b)"
    using assms(1) by (simp add: partialMatchKey.simps [of ?a ?b] same_def ref_of_def typeof_def value_truthy_def)
  also have "\<dots> \<longleftrightarrow> (\<forall>i < length ys. partialMatchKey (read_prop ?a (show_nat i)) (ys ! i))"
    by (simp add: own_props_def list_all_length)
  also have "\<dots> \<longleftrightarrow> (\<forall>i < length ys. i < length xs \<and> xs ! i = ys ! i)"
    using assms(2) by (intro all_cong1 imp_cong refl) (auto simp: list_all_length partialMatchKey_prim read_prop_index)
  also have "\<dots> \<longleftrightarrow> prefix ys xs"
  proof
    assume all: "\<forall>i < length ys. i < length xs \<and> xs ! i = ys ! i"
    then have "length ys \<le> length xs" by (meson leI less_irrefl)
    with all have "take (length ys) xs = ys" by (intro nth_equalityI) auto
    then show "prefix ys xs" by (metis take_is_prefix)
  qed (auto simp: prefix_def nth_append)
  finally show ?thesis .
qed

theorem partialMatchKey_prefix_witness:
  "partialMatchKey (VArr 0 [VStr ''commits'', VStr ''o'', VStr ''r'', VStr ''main'', VNum 1])
     (VArr 1 [VStr ''commits'', VStr ''o'', VStr ''r'']) \<and>
   \<not> partialMatchKey (VArr 0 [VStr ''commits'', VStr ''o'']) (VArr 1 [VStr ''commits'', VStr ''o'', VStr ''r''])"
  using partialMatchKey_prefix [of 0 1 "[VStr ''commits'', VStr ''o'', VStr ''r'']"]
  by (simp add: ref_of_def)

end
