(* ===== verification/QueryCore.thy ===== *)
theory QueryCore
  imports QueryData
begin

text \<open>
  The query library: queries with their reducer, the retrier, garbage collection, the cache, the
  client and the observers that components read. Objects live in three lists and are named by
  their position: queries, retriers (one per started fetch) and observers. What runs between two
  turns of the event loop is one definition; promises are cut where they wait: a retrier waits for
  the query function (\<open>Running\<close>), for a timer (\<open>Sleeping\<close>), for focus or network (\<open>PausedStart\<close>,
  \<open>PausedRetry\<close>), and after it has settled the \<open>fetch\<close> that awaits it runs on (\<open>resume\<close>).

  Options are values (no option is a function of the query); query defaults per key, persisters,
  infinite queries, placeholder data, \<open>select\<close>, suspense and callbacks of the cache are left out: the
  application uses none of them. \<open>Date.now()\<close> is the field \<open>c_now\<close>.
\<close>

section \<open>State\<close>

datatype qerror = FnError string | NoQueryFn | DataUndefined | SharingError | Cancelled bool bool

definition e_revert :: "qerror \<Rightarrow> bool" where
  "e_revert e = (case e of Cancelled r s \<Rightarrow> r | _ \<Rightarrow> False)"

definition e_silent :: "qerror \<Rightarrow> bool" where
  "e_silent e = (case e of Cancelled r s \<Rightarrow> s | _ \<Rightarrow> False)"

datatype qstatus = StPending | StError | StSuccess
datatype fetch_status = Fetching | Paused | FIdle

record qstate =
  s_data :: jsv
  s_dataUpdateCount :: nat
  s_dataUpdatedAt :: nat
  s_error :: "qerror option"
  s_errorUpdateCount :: nat
  s_errorUpdatedAt :: nat
  s_failureCount :: nat
  s_failureReason :: "qerror option"
  s_meta :: jsv
  s_invalidated :: bool
  s_status :: qstatus
  s_fetch :: fetch_status

datatype net_mode = Online | Always | OfflineFirst
datatype stale_time = StaleMs nat | StaleNever | StaleStatic
datatype retry_option = RetryBool bool | RetryNum nat | RetryFn "nat \<Rightarrow> qerror \<Rightarrow> bool"
datatype delay_option = DelayMs nat | DelayFn "nat \<Rightarrow> qerror \<Rightarrow> nat"
datatype gc_time = GcMs nat | GcNever
datatype refetch_option = RefetchNo | RefetchStale | RefetchAlways
datatype query_fn = NoFn | SkipToken | Fn

record qoptions =
  o_key :: jsv
  o_hash :: "string option"
  o_fn :: query_fn
  o_enabled :: bool
  o_staleTime :: stale_time
  o_retry :: "retry_option option"
  o_retryDelay :: "delay_option option"
  o_networkMode :: "net_mode option"
  o_gcTime :: "gc_time option"
  o_onMount :: refetch_option
  o_onFocus :: refetch_option
  o_onReconnect :: refetch_option
  o_retryOnMount :: bool
  o_initialData :: jsv
  o_initialDataUpdatedAt :: "nat option"
  o_sharing :: sharing

datatype settled = NotSettled | Fulfilled jsv | Rejected qerror
datatype phase = Running | Sleeping nat qerror | PausedStart | PausedRetry qerror | Done

record retryer =
  rt_query :: nat
  rt_status :: settled
  rt_phase :: phase
  rt_failures :: nat
  rt_stopped :: bool
  rt_calls :: nat
  rt_resumed :: bool
  rt_retry :: "retry_option option"
  rt_delay :: "delay_option option"
  rt_mode :: "net_mode option"

record query =
  q_key :: jsv
  q_hash :: "string option"
  q_options :: qoptions
  q_observers :: "nat list"
  q_state :: qstate
  q_initial :: qstate
  q_revert :: "qstate option"
  q_retryer :: "nat option"
  q_signal :: bool
  q_gcTime :: gc_time
  q_gcTimer :: bool

text \<open>What \<open>createResult\<close> computes; the flags are functions of these fields.\<close>

record qresult =
  re_status :: qstatus
  re_fetch :: fetch_status
  re_data :: jsv
  re_dataUpdatedAt :: nat
  re_error :: "qerror option"
  re_errorUpdatedAt :: nat
  re_failureCount :: nat
  re_failureReason :: "qerror option"
  re_errorUpdateCount :: nat
  re_isFetched :: bool
  re_fetchedAfterMount :: bool
  re_isStale :: bool
  re_isEnabled :: bool

record observer =
  ob_query :: nat
  ob_options :: qoptions
  ob_listening :: bool
  ob_initial :: qstate
  ob_result :: qresult
  ob_timer :: bool

record client =
  c_cache :: "(string option \<times> nat) list"
  c_queries :: "query list"
  c_retryers :: "retryer list"
  c_observers :: "observer list"
  c_now :: nat
  c_online :: bool
  c_focused :: bool
  c_next :: nat

definition upd_query :: "nat \<Rightarrow> (query \<Rightarrow> query) \<Rightarrow> client \<Rightarrow> client" where
  "upd_query i f c = c\<lparr>c_queries := (c_queries c)[i := f (c_queries c ! i)]\<rparr>"

definition upd_retryer :: "nat \<Rightarrow> (retryer \<Rightarrow> retryer) \<Rightarrow> client \<Rightarrow> client" where
  "upd_retryer r f c = c\<lparr>c_retryers := (c_retryers c)[r := f (c_retryers c ! r)]\<rparr>"

definition upd_observer :: "nat \<Rightarrow> (observer \<Rightarrow> observer) \<Rightarrow> client \<Rightarrow> client" where
  "upd_observer b f c = c\<lparr>c_observers := (c_observers c)[b := f (c_observers c ! b)]\<rparr>"

section \<open>The reducer\<close>

definition canFetch :: "bool \<Rightarrow> net_mode option \<Rightarrow> bool" where
  "canFetch online m = (case m of None \<Rightarrow> online | Some Online \<Rightarrow> online | _ \<Rightarrow> True)"

definition fetchState :: "bool \<Rightarrow> qoptions \<Rightarrow> jsv \<Rightarrow> qstate \<Rightarrow> qstate" where
  "fetchState online opts data s =
     (let s1 = s\<lparr>s_failureCount := 0, s_failureReason := None,
                 s_fetch := (if canFetch online (o_networkMode opts) then Fetching else Paused)\<rparr>
      in if data = VUndef then s1\<lparr>s_error := None, s_status := StPending\<rparr> else s1)"

definition successState :: "nat \<Rightarrow> jsv \<Rightarrow> nat option \<Rightarrow> qstate \<Rightarrow> qstate" where
  "successState now data dataUpdatedAt s =
     s\<lparr>s_data := data, s_dataUpdatedAt := (case dataUpdatedAt of None \<Rightarrow> now | Some t \<Rightarrow> t),
       s_error := None, s_invalidated := False, s_status := StSuccess\<rparr>"

definition getDefaultState :: "nat \<Rightarrow> qoptions \<Rightarrow> qstate" where
  "getDefaultState now opts =
     (let data = o_initialData opts; hasData = data \<noteq> VUndef
      in \<lparr>s_data = data, s_dataUpdateCount = 0,
          s_dataUpdatedAt = (if hasData then (case o_initialDataUpdatedAt opts of None \<Rightarrow> now | Some t \<Rightarrow> t) else 0),
          s_error = None, s_errorUpdateCount = 0, s_errorUpdatedAt = 0, s_failureCount = 0,
          s_failureReason = None, s_meta = VNull, s_invalidated = False,
          s_status = (if hasData then StSuccess else StPending), s_fetch = FIdle\<rparr>)"

datatype action =
    AFailed nat qerror
  | APause
  | AContinue
  | AFetch jsv
  | ASuccess jsv "nat option" bool
  | AError qerror
  | AInvalidate
  | ASetState "qstate \<Rightarrow> qstate"

definition nullish_null :: "jsv \<Rightarrow> jsv" where
  "nullish_null v = (if v = VUndef then VNull else v)"

fun reducer :: "nat \<Rightarrow> bool \<Rightarrow> qoptions \<Rightarrow> action \<Rightarrow> qstate \<Rightarrow> qstate" where
  "reducer now online opts (AFailed n e) s = s\<lparr>s_failureCount := n, s_failureReason := Some e\<rparr>"
| "reducer now online opts APause s = s\<lparr>s_fetch := Paused\<rparr>"
| "reducer now online opts AContinue s = s\<lparr>s_fetch := Fetching\<rparr>"
| "reducer now online opts (AFetch meta) s = (fetchState online opts (s_data s) s)\<lparr>s_meta := nullish_null meta\<rparr>"
| "reducer now online opts (ASuccess data t manual) s =
     (let s1 = (successState now data t s)\<lparr>s_dataUpdateCount := s_dataUpdateCount s + 1\<rparr>
      in if manual then s1 else s1\<lparr>s_fetch := FIdle, s_failureCount := 0, s_failureReason := None\<rparr>)"
| "reducer now online opts (AError e) s =
     s\<lparr>s_error := Some e, s_errorUpdateCount := s_errorUpdateCount s + 1, s_errorUpdatedAt := now,
       s_failureCount := s_failureCount s + 1, s_failureReason := Some e, s_fetch := FIdle,
       s_status := StError, s_invalidated := True\<rparr>"
| "reducer now online opts AInvalidate s = s\<lparr>s_invalidated := True\<rparr>"
| "reducer now online opts (ASetState f) s = f s"

definition reduce_revert :: "action \<Rightarrow> qstate \<Rightarrow> qstate option \<Rightarrow> qstate option" where
  "reduce_revert act s' rv = (case act of
       ASuccess data t manual \<Rightarrow> if manual then Some s' else None
     | _ \<Rightarrow> rv)"

section \<open>Staleness\<close>

definition timeUntilStale :: "nat \<Rightarrow> nat \<Rightarrow> nat \<Rightarrow> nat" where
  "timeUntilStale now updatedAt staleTime = updatedAt + staleTime - now"

definition isStaleByTime :: "nat \<Rightarrow> qstate \<Rightarrow> stale_time \<Rightarrow> bool" where
  "isStaleByTime now s st =
     (if s_data s = VUndef then True
      else if st = StaleStatic then False
      else if s_invalidated s then True
      else (case st of StaleMs t \<Rightarrow> timeUntilStale now (s_dataUpdatedAt s) t = 0 | _ \<Rightarrow> False))"

definition isStale :: "nat \<Rightarrow> qstate \<Rightarrow> qoptions \<Rightarrow> bool" where
  "isStale now s opts = (o_enabled opts \<and> isStaleByTime now s (o_staleTime opts))"

definition shouldLoadOnMount :: "qstate \<Rightarrow> qoptions \<Rightarrow> bool" where
  "shouldLoadOnMount s opts =
     (o_enabled opts \<and> s_data s = VUndef \<and> \<not> (s_status s = StError \<and> \<not> o_retryOnMount opts))"

definition shouldFetchOn :: "nat \<Rightarrow> qstate \<Rightarrow> qoptions \<Rightarrow> refetch_option \<Rightarrow> bool" where
  "shouldFetchOn now s opts field =
     (if o_enabled opts \<and> o_staleTime opts \<noteq> StaleStatic
      then field = RefetchAlways \<or> (field \<noteq> RefetchNo \<and> isStale now s opts)
      else False)"

definition shouldFetchOnMount :: "nat \<Rightarrow> qstate \<Rightarrow> qoptions \<Rightarrow> bool" where
  "shouldFetchOnMount now s opts =
     (shouldLoadOnMount s opts \<or> (s_data s \<noteq> VUndef \<and> shouldFetchOn now s opts (o_onMount opts)))"

text \<open>\<open>changed\<close>: the observer has moved to another query.\<close>

definition shouldFetchOptionally :: "nat \<Rightarrow> qstate \<Rightarrow> bool \<Rightarrow> qoptions \<Rightarrow> qoptions \<Rightarrow> bool" where
  "shouldFetchOptionally now s changed opts prev =
     ((changed \<or> \<not> o_enabled prev) \<and> isStale now s opts)"

section \<open>Results of observers\<close>

definition isFetched :: "qstate \<Rightarrow> bool" where
  "isFetched s = (s_dataUpdateCount s + s_errorUpdateCount s > 0)"

definition createResult :: "nat \<Rightarrow> qstate \<Rightarrow> qstate \<Rightarrow> qstate \<Rightarrow> qoptions \<Rightarrow> qresult" where
  "createResult now s newState initial opts =
     \<lparr>re_status = s_status newState, re_fetch = s_fetch newState, re_data = s_data newState,
      re_dataUpdatedAt = s_dataUpdatedAt newState, re_error = s_error newState,
      re_errorUpdatedAt = s_errorUpdatedAt newState, re_failureCount = s_failureCount newState,
      re_failureReason = s_failureReason newState, re_errorUpdateCount = s_errorUpdateCount newState,
      re_isFetched = isFetched s,
      re_fetchedAfterMount = (s_dataUpdateCount initial < s_dataUpdateCount newState \<or>
        s_errorUpdateCount initial < s_errorUpdateCount newState),
      re_isStale = isStale now s opts, re_isEnabled = o_enabled opts\<rparr>"

definition isPending :: "qresult \<Rightarrow> bool" where "isPending r = (re_status r = StPending)"
definition isFetching :: "qresult \<Rightarrow> bool" where "isFetching r = (re_fetch r = Fetching)"
definition isLoading :: "qresult \<Rightarrow> bool" where "isLoading r = (isPending r \<and> isFetching r)"
definition isLoadingError :: "qresult \<Rightarrow> bool" where
  "isLoadingError r = (re_status r = StError \<and> re_data r = VUndef)"
definition isRefetchError :: "qresult \<Rightarrow> bool" where
  "isRefetchError r = (re_status r = StError \<and> re_data r \<noteq> VUndef)"

definition updateResult :: "nat \<Rightarrow> client \<Rightarrow> client" where
  "updateResult b c =
     (let ob = c_observers c ! b; s = q_state (c_queries c ! ob_query ob)
      in upd_observer b (\<lambda>ob. ob\<lparr>ob_result := createResult (c_now c) s s (ob_initial ob) (ob_options ob)\<rparr>) c)"

text \<open>\<open>updateStaleTimeout\<close>; the timer itself fires in \<open>stale_timer\<close>.\<close>

definition updateTimers :: "nat \<Rightarrow> client \<Rightarrow> client" where
  "updateTimers b c =
     upd_observer b (\<lambda>ob. ob\<lparr>ob_timer :=
       (\<not> re_isStale (ob_result ob) \<and> (case o_staleTime (ob_options ob) of StaleMs t \<Rightarrow> True | _ \<Rightarrow> False))\<rparr>) c"

definition onQueryUpdate :: "nat \<Rightarrow> client \<Rightarrow> client" where
  "onQueryUpdate b c =
     (let c1 = updateResult b c in if ob_listening (c_observers c1 ! b) then updateTimers b c1 else c1)"

definition stale_timer :: "nat \<Rightarrow> client \<Rightarrow> client" where
  "stale_timer b c =
     (let c1 = upd_observer b (\<lambda>ob. ob\<lparr>ob_timer := False\<rparr>) c
      in if re_isStale (ob_result (c_observers c ! b)) then c1 else updateResult b c1)"

section \<open>Queries\<close>

definition dispatch :: "nat \<Rightarrow> action \<Rightarrow> client \<Rightarrow> client" where
  "dispatch i act c =
     (let q = c_queries c ! i; s' = reducer (c_now c) (c_online c) (q_options q) act (q_state q)
      in fold onQueryUpdate (q_observers q)
           (upd_query i (\<lambda>q. q\<lparr>q_state := s', q_revert := reduce_revert act s' (q_revert q)\<rparr>) c))"

definition gc_max :: "gc_time \<Rightarrow> gc_time \<Rightarrow> gc_time" where
  "gc_max a b = (case (a, b) of (GcMs m, GcMs n) \<Rightarrow> GcMs (max m n) | _ \<Rightarrow> GcNever)"

definition updateGcTime :: "gc_time option \<Rightarrow> query \<Rightarrow> query" where
  "updateGcTime newGcTime q =
     q\<lparr>q_gcTime := gc_max (q_gcTime q) (case newGcTime of None \<Rightarrow> GcMs (5 * 60 * 1000) | Some t \<Rightarrow> t)\<rparr>"

definition scheduleGc :: "query \<Rightarrow> query" where
  "scheduleGc q = q\<lparr>q_gcTimer := (q_gcTime q \<noteq> GcNever)\<rparr>"

definition clearGcTimeout :: "query \<Rightarrow> query" where
  "clearGcTimeout q = q\<lparr>q_gcTimer := False\<rparr>"

text \<open>\<open>setOptions\<close>: initial data are adopted while there are none.\<close>

definition query_setOptions :: "nat \<Rightarrow> qoptions \<Rightarrow> client \<Rightarrow> client" where
  "query_setOptions i opts c =
     (let c1 = upd_query i (\<lambda>q. updateGcTime (o_gcTime opts) (q\<lparr>q_options := opts\<rparr>)) c;
          d = getDefaultState (c_now c) opts
      in if s_data (q_state (c_queries c1 ! i)) = VUndef \<and> s_data d \<noteq> VUndef
         then upd_query i (\<lambda>q. q\<lparr>q_initial := d\<rparr>)
                (dispatch i (ASetState (successState (c_now c) (s_data d) (Some (s_dataUpdatedAt d)))) c1)
         else c1)"

definition new_query :: "nat \<Rightarrow> qoptions \<Rightarrow> query" where
  "new_query now opts =
     (let d = getDefaultState now opts
      in scheduleGc (updateGcTime (o_gcTime opts)
           \<lparr>q_key = o_key opts, q_hash = o_hash opts, q_options = opts, q_observers = [], q_state = d, q_initial = d,
            q_revert = None, q_retryer = None, q_signal = False, q_gcTime = GcMs 0, q_gcTimer = False\<rparr>))"

definition isActive :: "query \<Rightarrow> client \<Rightarrow> bool" where
  "isActive q c = list_ex (\<lambda>b. o_enabled (ob_options (c_observers c ! b))) (q_observers q)"

definition isDisabled :: "query \<Rightarrow> client \<Rightarrow> bool" where
  "isDisabled q c =
     (if q_observers q \<noteq> [] then \<not> isActive q c
      else o_fn (q_options q) = SkipToken \<or> \<not> isFetched (q_state q))"

definition isStatic :: "query \<Rightarrow> client \<Rightarrow> bool" where
  "isStatic q c =
     (if q_observers q \<noteq> []
      then list_ex (\<lambda>b. o_staleTime (ob_options (c_observers c ! b)) = StaleStatic) (q_observers q) else False)"

definition query_isStale :: "query \<Rightarrow> client \<Rightarrow> bool" where
  "query_isStale q c =
     (if q_observers q \<noteq> [] then list_ex (\<lambda>b. re_isStale (ob_result (c_observers c ! b))) (q_observers q)
      else s_data (q_state q) = VUndef \<or> s_invalidated (q_state q))"

text \<open>\<open>setData\<close>: structural sharing may throw, then nothing is dispatched.\<close>

definition setData :: "nat \<Rightarrow> jsv \<Rightarrow> nat option \<Rightarrow> bool \<Rightarrow> client \<Rightarrow> qerror option \<times> client" where
  "setData i newData updatedAt manual c =
     (let q = c_queries c ! i in
      case replaceData (s_data (q_state q)) newData (o_sharing (q_options q)) (c_next c) of
        None \<Rightarrow> (Some SharingError, c)
      | Some (data, n) \<Rightarrow> (None, dispatch i (ASuccess data updatedAt manual) (c\<lparr>c_next := n\<rparr>)))"

definition invalidate :: "nat \<Rightarrow> client \<Rightarrow> client" where
  "invalidate i c = (if s_invalidated (q_state (c_queries c ! i)) then c else dispatch i AInvalidate c)"

section \<open>The retrier\<close>

definition defaultRetryDelay :: "nat \<Rightarrow> nat" where
  "defaultRetryDelay failureCount = min (1000 * 2 ^ failureCount) 30000"

definition canContinue :: "client \<Rightarrow> retryer \<Rightarrow> bool" where
  "canContinue c rt = (c_focused c \<and> (rt_mode rt = Some Always \<or> c_online c))"

definition shouldRetry :: "retryer \<Rightarrow> qerror \<Rightarrow> bool" where
  "shouldRetry rt e = (case rt_retry rt of
       None \<Rightarrow> rt_failures rt < 3
     | Some (RetryBool b) \<Rightarrow> b
     | Some (RetryNum n) \<Rightarrow> rt_failures rt < n
     | Some (RetryFn f) \<Rightarrow> f (rt_failures rt) e)"

definition retry_delay :: "retryer \<Rightarrow> qerror \<Rightarrow> nat" where
  "retry_delay rt e = (case rt_delay rt of
       None \<Rightarrow> defaultRetryDelay (rt_failures rt)
     | Some (DelayMs n) \<Rightarrow> n
     | Some (DelayFn f) \<Rightarrow> f (rt_failures rt) e)"

text \<open>
  Settling calls \<open>continueFn\<close> first: a pause that may end does, and what follows it finds the
  retrier settled.
\<close>

definition end_pause :: "client \<Rightarrow> retryer \<Rightarrow> retryer" where
  "end_pause c rt = (case rt_phase rt of
       PausedStart \<Rightarrow> if canContinue c rt then rt\<lparr>rt_phase := Done\<rparr> else rt
     | PausedRetry e \<Rightarrow> if canContinue c rt then rt\<lparr>rt_phase := Done\<rparr> else rt
     | _ \<Rightarrow> rt)"

definition rt_reject :: "nat \<Rightarrow> qerror \<Rightarrow> client \<Rightarrow> client" where
  "rt_reject r e c =
     (if rt_status (c_retryers c ! r) \<noteq> NotSettled then c
      else upd_retryer r (\<lambda>rt. (end_pause c rt)\<lparr>rt_status := Rejected e\<rparr>) c)"

definition rt_resolve :: "nat \<Rightarrow> jsv \<Rightarrow> client \<Rightarrow> client" where
  "rt_resolve r v c =
     (if rt_status (c_retryers c ! r) \<noteq> NotSettled then c
      else upd_retryer r (\<lambda>rt. (end_pause c rt)\<lparr>rt_status := Fulfilled v\<rparr>) c)"

text \<open>
  \<open>run\<close> calls \<open>fetchFn\<close>, which resets the mark of a consumed abort signal; the query function is
  looked up in the options of the query. A missing one is a rejected promise.
\<close>

definition finish :: "nat \<Rightarrow> client \<Rightarrow> client" where
  "finish r c = upd_retryer r (\<lambda>rt. rt\<lparr>rt_phase := Done\<rparr>) c"

definition rt_run :: "nat \<Rightarrow> client \<Rightarrow> client" where
  "rt_run r c =
     (let rt = c_retryers c ! r in
      if rt_status rt \<noteq> NotSettled then finish r c
      else upd_query (rt_query rt) (\<lambda>q. q\<lparr>q_signal := False\<rparr>)
             (upd_retryer r (\<lambda>rt. rt\<lparr>rt_phase := Running, rt_calls := rt_calls rt + 1\<rparr>) c))"

definition rt_pause :: "nat \<Rightarrow> phase \<Rightarrow> client \<Rightarrow> client" where
  "rt_pause r ph c = dispatch (rt_query (c_retryers c ! r)) APause (upd_retryer r (\<lambda>rt. rt\<lparr>rt_phase := ph\<rparr>) c)"

definition rt_start :: "nat \<Rightarrow> client \<Rightarrow> client" where
  "rt_start r c =
     (if canFetch (c_online c) (rt_mode (c_retryers c ! r)) then rt_run r c else rt_pause r PausedStart c)"

text \<open>The end of a pause: \<open>onContinue\<close> unless settled, then \<open>run\<close>, or the error when retrying has stopped.\<close>

definition rt_continued :: "nat \<Rightarrow> client \<Rightarrow> client" where
  "rt_continued r c =
     (let rt = c_retryers c ! r;
          c1 = (if rt_status rt = NotSettled then dispatch (rt_query rt) AContinue c else c)
      in case rt_phase rt of
           PausedRetry e \<Rightarrow>
             if rt_stopped rt then finish r (rt_reject r e c1) else rt_run r c1
         | _ \<Rightarrow> rt_run r c1)"

definition rt_continue :: "nat \<Rightarrow> client \<Rightarrow> client" where
  "rt_continue r c =
     (let rt = c_retryers c ! r;
          paused = (case rt_phase rt of PausedStart \<Rightarrow> True | PausedRetry e \<Rightarrow> True | _ \<Rightarrow> False)
      in if paused \<and> (rt_status rt \<noteq> NotSettled \<or> canContinue c rt) then rt_continued r c else c)"

text \<open>The answer of the query function.\<close>

definition rt_answer :: "nat \<Rightarrow> jsv + qerror \<Rightarrow> client \<Rightarrow> client" where
  "rt_answer r x c =
     (let rt = c_retryers c ! r in
      case x of
        Inl v \<Rightarrow> finish r (rt_resolve r v c)
      | Inr e \<Rightarrow>
          if rt_status rt \<noteq> NotSettled then finish r c
          else if rt_stopped rt \<or> \<not> shouldRetry rt e then finish r (rt_reject r e c)
          else dispatch (rt_query rt) (AFailed (rt_failures rt + 1) e)
                 (upd_retryer r (\<lambda>rt'. rt'\<lparr>rt_failures := rt_failures rt + 1,
                    rt_phase := Sleeping (retry_delay rt e) e\<rparr>) c))"

text \<open>The timer after a failure.\<close>

definition rt_wake :: "nat \<Rightarrow> client \<Rightarrow> client" where
  "rt_wake r c =
     (let rt = c_retryers c ! r in
      case rt_phase rt of
        Sleeping d e \<Rightarrow>
          if \<not> canContinue c rt then rt_pause r (PausedRetry e) c
          else if rt_stopped rt then finish r (rt_reject r e c)
          else rt_run r c
      | _ \<Rightarrow> c)"

text \<open>\<open>cancel\<close> with \<open>onCancel\<close> of the query; spreading an undefined \<open>revertState\<close> adds nothing.\<close>

definition rt_cancel :: "nat \<Rightarrow> bool \<Rightarrow> bool \<Rightarrow> client \<Rightarrow> client" where
  "rt_cancel r revert silent c =
     (if rt_status (c_retryers c ! r) \<noteq> NotSettled then c
      else
        let c1 = rt_reject r (Cancelled revert silent) c; i = rt_query (c_retryers c ! r) in
        if revert then
          dispatch i (ASetState (\<lambda>s. (case q_revert (c_queries c ! i) of None \<Rightarrow> s | Some s0 \<Rightarrow> s0)\<lparr>s_fetch := FIdle\<rparr>)) c1
        else c1)"

definition query_cancel :: "nat \<Rightarrow> bool \<Rightarrow> bool \<Rightarrow> client \<Rightarrow> client" where
  "query_cancel i revert silent c =
     (case q_retryer (c_queries c ! i) of None \<Rightarrow> c | Some r \<Rightarrow> rt_cancel r revert silent c)"

definition query_destroy :: "nat \<Rightarrow> client \<Rightarrow> client" where
  "query_destroy i c = query_cancel i False True (upd_query i clearGcTimeout c)"

definition query_reset :: "nat \<Rightarrow> client \<Rightarrow> client" where
  "query_reset i c =
     (let c1 = query_destroy i c in dispatch i (ASetState (\<lambda>s. q_initial (c_queries c1 ! i))) c1)"

section \<open>Fetching\<close>

definition new_retryer :: "nat \<Rightarrow> qoptions \<Rightarrow> retryer" where
  "new_retryer i opts = \<lparr>rt_query = i, rt_status = NotSettled, rt_phase = PausedStart, rt_failures = 0, rt_stopped = False,
     rt_calls = 0, rt_resumed = False, rt_retry = o_retry opts, rt_delay = o_retryDelay opts,
     rt_mode = o_networkMode opts\<rparr>"

definition retryer_rejected :: "client \<Rightarrow> query \<Rightarrow> bool" where
  "retryer_rejected c q = (case q_retryer q of
       None \<Rightarrow> False
     | Some r \<Rightarrow> (case rt_status (c_retryers c ! r) of Rejected e \<Rightarrow> True | _ \<Rightarrow> False))"

definition borrow_options :: "nat \<Rightarrow> client \<Rightarrow> client" where
  "borrow_options i c =
     (let q = c_queries c ! i in
      if o_fn (q_options q) \<noteq> NoFn then c
      else (case find (\<lambda>b. o_fn (ob_options (c_observers c ! b)) \<noteq> NoFn) (q_observers q) of
          None \<Rightarrow> c
        | Some b \<Rightarrow> query_setOptions i (ob_options (c_observers c ! b)) c))"

definition begin_fetch :: "nat \<Rightarrow> jsv \<Rightarrow> client \<Rightarrow> client" where
  "begin_fetch i fmeta c =
     (let c1 = upd_query i (\<lambda>q. q\<lparr>q_revert := Some (q_state q)\<rparr>) c;
          s = q_state (c_queries c1 ! i);
          c2 = (if s_fetch s = FIdle \<or> \<not> same (s_meta s) fmeta then dispatch i (AFetch fmeta) c1 else c1);
          r = length (c_retryers c2);
          c3 = c2\<lparr>c_retryers := c_retryers c2 @ [new_retryer i (q_options (c_queries c2 ! i))]\<rparr>
      in rt_start r (upd_query i (\<lambda>q. q\<lparr>q_retryer := Some r\<rparr>) c3))"

definition start_fetch :: "nat \<Rightarrow> qoptions option \<Rightarrow> bool \<Rightarrow> jsv \<Rightarrow> client \<Rightarrow> client" where
  "start_fetch i opts cancel_first fmeta c =
     (let c1 = (if cancel_first then query_cancel i False True c else c);
          c2 = (case opts of None \<Rightarrow> c1 | Some os \<Rightarrow> query_setOptions i os c1)
      in begin_fetch i fmeta (borrow_options i c2))"

definition fetch :: "nat \<Rightarrow> qoptions option \<Rightarrow> bool \<Rightarrow> jsv \<Rightarrow> client \<Rightarrow> client" where
  "fetch i opts cancelRefetch fmeta c =
     (let q = c_queries c ! i;
          busy = (s_fetch (q_state q) \<noteq> FIdle \<and> \<not> retryer_rejected c q);
          restart = (s_data (q_state q) \<noteq> VUndef \<and> cancelRefetch)
      in case (busy \<and> \<not> restart, q_retryer q) of
           (True, Some r) \<Rightarrow> upd_retryer r (\<lambda>rt. rt\<lparr>rt_stopped := False\<rparr>) c
         | _ \<Rightarrow> start_fetch i opts (busy \<and> restart) fmeta c)"

text \<open>What \<open>fetch\<close> does after the \<open>await\<close>: its \<open>try\<close>, \<open>catch\<close> and \<open>finally\<close>.\<close>

definition fetch_failed :: "nat \<Rightarrow> qerror \<Rightarrow> client \<Rightarrow> client" where
  "fetch_failed i e c = (if e_silent e \<or> e_revert e then c else dispatch i (AError e) c)"

definition fetch_resume :: "nat \<Rightarrow> client \<Rightarrow> client" where
  "fetch_resume r c =
     (let rt = c_retryers c ! r; i = rt_query rt; c0 = upd_retryer r (\<lambda>rt. rt\<lparr>rt_resumed := True\<rparr>) c;
          c1 = (case rt_status rt of
                  NotSettled \<Rightarrow> c0
                | Fulfilled v \<Rightarrow>
                    if v = VUndef then fetch_failed i DataUndefined c0
                    else (case setData i v None False c0 of
                            (None, c') \<Rightarrow> c'
                          | (Some e, c') \<Rightarrow> fetch_failed i e c')
                | Rejected e \<Rightarrow> fetch_failed i e c0)
      in upd_query i scheduleGc c1)"

section \<open>The cache\<close>

definition cache_build :: "qoptions \<Rightarrow> client \<Rightarrow> nat \<times> client" where
  "cache_build opts c = (case al_get (c_cache c) (o_hash opts) of
       Some i \<Rightarrow> (i, c)
     | None \<Rightarrow> (let i = length (c_queries c) in
         (i, c\<lparr>c_queries := c_queries c @ [new_query (c_now c) opts], c_cache := al_set (c_cache c) (o_hash opts) i\<rparr>)))"

definition cache_remove :: "nat \<Rightarrow> client \<Rightarrow> client" where
  "cache_remove i c = (let h = q_hash (c_queries c ! i) in
     case al_get (c_cache c) h of
       None \<Rightarrow> c
     | Some j \<Rightarrow> let c1 = query_destroy i c in
         if j = i then c1\<lparr>c_cache := al_del (c_cache c1) h\<rparr> else c1)"

definition getAll :: "client \<Rightarrow> nat list" where
  "getAll c = map snd (c_cache c)"

definition cache_clear :: "client \<Rightarrow> client" where
  "cache_clear c = fold cache_remove (getAll c) c"

definition optionalRemove :: "nat \<Rightarrow> client \<Rightarrow> client" where
  "optionalRemove i c =
     (let q = c_queries c ! i in
      if q_observers q = [] \<and> s_fetch (q_state q) = FIdle then cache_remove i c else c)"

definition gc_timer :: "nat \<Rightarrow> client \<Rightarrow> client" where
  "gc_timer i c = optionalRemove i (upd_query i clearGcTimeout c)"

definition addObserver :: "nat \<Rightarrow> nat \<Rightarrow> client \<Rightarrow> client" where
  "addObserver i b c =
     (if b \<in> set (q_observers (c_queries c ! i)) then c
      else upd_query i (\<lambda>q. clearGcTimeout (q\<lparr>q_observers := q_observers q @ [b]\<rparr>)) c)"

definition isInitialPausedFetch :: "qstate \<Rightarrow> bool" where
  "isInitialPausedFetch s = (s_fetch s = Paused \<and> s_status s = StPending)"

definition removeObserver :: "nat \<Rightarrow> nat \<Rightarrow> client \<Rightarrow> client" where
  "removeObserver i b c =
     (if b \<notin> set (q_observers (c_queries c ! i)) then c
      else
        let c1 = upd_query i (\<lambda>q. q\<lparr>q_observers := filter (\<lambda>x. x \<noteq> b) (q_observers q)\<rparr>) c;
            q = c_queries c1 ! i
        in if q_observers q \<noteq> [] then c1
           else upd_query i scheduleGc
             (case q_retryer q of
                None \<Rightarrow> c1
              | Some r \<Rightarrow>
                  if q_signal q \<or> isInitialPausedFetch (q_state q) then rt_cancel r True False c1
                  else upd_retryer r (\<lambda>rt. rt\<lparr>rt_stopped := True\<rparr>) c1))"

section \<open>Observers\<close>

definition updateQuery :: "nat \<Rightarrow> client \<Rightarrow> client" where
  "updateQuery b c =
     (let ob = c_observers c ! b in
      case cache_build (ob_options ob) c of (i, c1) \<Rightarrow>
        if i = ob_query ob then c1
        else
          let c2 = upd_observer b (\<lambda>ob. ob\<lparr>ob_query := i, ob_initial := q_state (c_queries c1 ! i)\<rparr>) c1
          in if ob_listening ob then addObserver i b (removeObserver (ob_query ob) b c2) else c2)"

definition executeFetch :: "nat \<Rightarrow> bool \<Rightarrow> client \<Rightarrow> client" where
  "executeFetch b cancelRefetch c =
     (let c1 = updateQuery b c; ob = c_observers c1 ! b
      in fetch (ob_query ob) (Some (ob_options ob)) cancelRefetch VUndef c1)"

definition observer_setOptions :: "nat \<Rightarrow> qoptions \<Rightarrow> client \<Rightarrow> client" where
  "observer_setOptions b opts c =
     (let prev = c_observers c ! b; mounted = ob_listening prev;
          c1 = updateQuery b (upd_observer b (\<lambda>ob. ob\<lparr>ob_options := opts\<rparr>) c);
          i = ob_query (c_observers c1 ! b); changed = (i \<noteq> ob_query prev);
          c2 = query_setOptions i opts c1;
          c3 = (if mounted \<and> shouldFetchOptionally (c_now c2) (q_state (c_queries c2 ! i)) changed opts (ob_options prev)
                then executeFetch b False c2 else c2);
          c4 = updateResult b c3
      in if mounted \<and> (changed \<or> o_enabled opts \<noteq> o_enabled (ob_options prev) \<or>
             o_staleTime opts \<noteq> o_staleTime (ob_options prev))
         then updateTimers b c4 else c4)"

text \<open>\<open>new QueryObserver\<close>.\<close>

definition new_observer :: "qoptions \<Rightarrow> client \<Rightarrow> nat \<times> client" where
  "new_observer opts c =
     (case cache_build opts c of (i, c1) \<Rightarrow>
        let s = q_state (c_queries c1 ! i); b = length (c_observers c1);
            ob = \<lparr>ob_query = i, ob_options = opts, ob_listening = False, ob_initial = s,
                  ob_result = createResult (c_now c) s s s opts, ob_timer = False\<rparr>;
            c2 = query_setOptions i opts (c1\<lparr>c_observers := c_observers c1 @ [ob]\<rparr>)
        in (b, updateResult b c2))"

definition observer_subscribe :: "nat \<Rightarrow> client \<Rightarrow> client" where
  "observer_subscribe b c =
     (let c1 = upd_observer b (\<lambda>ob. ob\<lparr>ob_listening := True\<rparr>) c; ob = c_observers c1 ! b; i = ob_query ob;
          c2 = addObserver i b c1;
          c3 = (if shouldFetchOnMount (c_now c2) (q_state (c_queries c2 ! i)) (ob_options ob)
                then executeFetch b False c2 else updateResult b c2)
      in updateResult b (updateTimers b c3))"

definition observer_unsubscribe :: "nat \<Rightarrow> client \<Rightarrow> client" where
  "observer_unsubscribe b c =
     (let c1 = upd_observer b (\<lambda>ob. ob\<lparr>ob_listening := False, ob_timer := False\<rparr>) c
      in removeObserver (ob_query (c_observers c1 ! b)) b c1)"

text \<open>\<open>getOptimisticResult\<close>: what a component shows in the render that may start a fetch.\<close>

definition optimistic_result :: "nat \<Rightarrow> qoptions \<Rightarrow> client \<Rightarrow> qresult" where
  "optimistic_result b opts c =
     (case cache_build opts c of (i, c1) \<Rightarrow>
        let ob = c_observers c1 ! b; q = c_queries c1 ! i; s = q_state q; changed = (i \<noteq> ob_query ob);
            will = (if ob_listening ob then shouldFetchOptionally (c_now c1) s changed opts (ob_options ob)
                    else shouldFetchOnMount (c_now c1) s opts);
            s' = (if will then fetchState (c_online c1) (q_options q) (s_data s) s else s)
        in createResult (c_now c1) s s' (if changed then s else ob_initial ob) opts)"

section \<open>The client\<close>

datatype query_type = AllQueries | ActiveQueries | InactiveQueries

record filters =
  f_key :: "jsv option"
  f_exact :: bool
  f_type :: "query_type option"
  f_stale :: "bool option"
  f_fetchStatus :: "fetch_status option"

definition matchQuery :: "filters \<Rightarrow> client \<Rightarrow> nat \<Rightarrow> bool" where
  "matchQuery f c i =
     (let q = c_queries c ! i in
      (case f_key f of
         None \<Rightarrow> True
       | Some k \<Rightarrow> if f_exact f then hashKey k = Some (q_hash q) else partialMatchKey (q_key q) k) \<and>
      (case f_type f of
         Some ActiveQueries \<Rightarrow> isActive q c
       | Some InactiveQueries \<Rightarrow> \<not> isActive q c
       | _ \<Rightarrow> True) \<and>
      (case f_stale f of None \<Rightarrow> True | Some b \<Rightarrow> query_isStale q c = b) \<and>
      (case f_fetchStatus f of None \<Rightarrow> True | Some st \<Rightarrow> st = s_fetch (q_state q)))"

definition findAll :: "filters \<Rightarrow> client \<Rightarrow> nat list" where
  "findAll f c = filter (matchQuery f c) (getAll c)"

definition refetchQueries :: "filters \<Rightarrow> bool \<Rightarrow> client \<Rightarrow> client" where
  "refetchQueries f cancelRefetch c =
     fold (\<lambda>i. fetch i None cancelRefetch VUndef)
       (filter (\<lambda>i. \<not> isDisabled (c_queries c ! i) c \<and> \<not> isStatic (c_queries c ! i) c) (findAll f c)) c"

text \<open>\<open>invalidateQueries\<close> with the default \<open>refetchType\<close>: the active ones are fetched again.\<close>

definition invalidateQueries :: "filters \<Rightarrow> client \<Rightarrow> client" where
  "invalidateQueries f c =
     refetchQueries (f\<lparr>f_type := Some (case f_type f of None \<Rightarrow> ActiveQueries | Some t \<Rightarrow> t)\<rparr>) True
       (fold invalidate (findAll f c) c)"

definition removeQueries :: "filters \<Rightarrow> client \<Rightarrow> client" where
  "removeQueries f c = fold cache_remove (findAll f c) c"

definition resetQueries :: "filters \<Rightarrow> client \<Rightarrow> client" where
  "resetQueries f c =
     refetchQueries (f\<lparr>f_type := Some (case f_type f of None \<Rightarrow> ActiveQueries | Some t \<Rightarrow> t)\<rparr>) True
       (fold query_reset (findAll f c) c)"

definition cancelQueries :: "filters \<Rightarrow> client \<Rightarrow> client" where
  "cancelQueries f c = fold (\<lambda>i. query_cancel i True False) (findAll f c) c"

definition getQueryData :: "string option \<Rightarrow> client \<Rightarrow> jsv" where
  "getQueryData h c = (case al_get (c_cache c) h of None \<Rightarrow> VUndef | Some i \<Rightarrow> s_data (q_state (c_queries c ! i)))"

text \<open>
  \<open>defaultQueryOptions\<close>: the client's defaults under the options of the call, then what is still
  undefined. \<open>None\<close> when hashing the key throws.
\<close>

record call_options =
  u_fn :: "query_fn option"
  u_enabled :: "bool option"
  u_staleTime :: "stale_time option"
  u_retry :: "retry_option option"
  u_retryDelay :: "delay_option option"
  u_networkMode :: "net_mode option"
  u_gcTime :: "gc_time option"
  u_onMount :: "refetch_option option"
  u_onFocus :: "refetch_option option"
  u_onReconnect :: "refetch_option option"
  u_retryOnMount :: "bool option"
  u_initialData :: jsv
  u_initialDataUpdatedAt :: "nat option"
  u_sharing :: "sharing option"

definition over :: "'a option \<Rightarrow> 'a option \<Rightarrow> 'a option" where
  "over a b = (case b of None \<Rightarrow> a | Some x \<Rightarrow> Some x)"

definition option_default :: "'a \<Rightarrow> 'a option \<Rightarrow> 'a" where
  "option_default d x = (case x of None \<Rightarrow> d | Some y \<Rightarrow> y)"

definition defaultQueryOptions :: "call_options \<Rightarrow> jsv \<Rightarrow> call_options \<Rightarrow> qoptions option" where
  "defaultQueryOptions d queryKey u =
     (case hashKey queryKey of
        None \<Rightarrow> None
      | Some h \<Rightarrow>
          let fn = option_default NoFn (over (u_fn d) (u_fn u)); mode = over (u_networkMode d) (u_networkMode u)
          in Some \<lparr>o_key = queryKey, o_hash = h, o_fn = fn,
               o_enabled = (if fn = SkipToken then False else option_default True (over (u_enabled d) (u_enabled u))),
               o_staleTime = option_default (StaleMs 0) (over (u_staleTime d) (u_staleTime u)),
               o_retry = over (u_retry d) (u_retry u), o_retryDelay = over (u_retryDelay d) (u_retryDelay u),
               o_networkMode = mode, o_gcTime = over (u_gcTime d) (u_gcTime u),
               o_onMount = option_default RefetchStale (over (u_onMount d) (u_onMount u)),
               o_onFocus = option_default RefetchStale (over (u_onFocus d) (u_onFocus u)),
               o_onReconnect = option_default (if mode = Some Always then RefetchNo else RefetchStale)
                 (over (u_onReconnect d) (u_onReconnect u)),
               o_retryOnMount = option_default True (over (u_retryOnMount d) (u_retryOnMount u)),
               o_initialData = (if u_initialData u = VUndef then u_initialData d else u_initialData u),
               o_initialDataUpdatedAt = over (u_initialDataUpdatedAt d) (u_initialDataUpdatedAt u),
               o_sharing = option_default Share (over (u_sharing d) (u_sharing u))\<rparr>)"

definition setQueryData :: "qoptions \<Rightarrow> (jsv \<Rightarrow> jsv) \<Rightarrow> nat option \<Rightarrow> client \<Rightarrow> client" where
  "setQueryData opts updater updatedAt c =
     (let data = updater (getQueryData (o_hash opts) c) in
      if data = VUndef then c
      else (case cache_build opts c of (i, c1) \<Rightarrow> snd (setData i data updatedAt True c1)))"

text \<open>\<open>onFocus\<close> and \<open>onOnline\<close> of the cache.\<close>

definition query_wakeup :: "(qoptions \<Rightarrow> refetch_option) \<Rightarrow> nat \<Rightarrow> client \<Rightarrow> client" where
  "query_wakeup field i c =
     (let q = c_queries c ! i;
          c1 = (case find (\<lambda>b. let os = ob_options (c_observers c ! b) in
                    shouldFetchOn (c_now c) (q_state (c_queries c ! ob_query (c_observers c ! b))) os (field os)) (q_observers q) of
                  None \<Rightarrow> c
                | Some b \<Rightarrow> executeFetch b False c)
      in case q_retryer (c_queries c1 ! i) of None \<Rightarrow> c1 | Some r \<Rightarrow> rt_continue r c1)"

definition set_focused :: "bool \<Rightarrow> client \<Rightarrow> client" where
  "set_focused b c =
     (let c1 = c\<lparr>c_focused := b\<rparr> in if b then fold (query_wakeup o_onFocus) (getAll c1) c1 else c1)"

definition set_online :: "bool \<Rightarrow> client \<Rightarrow> client" where
  "set_online b c =
     (if c_online c = b then c
      else let c1 = c\<lparr>c_online := b\<rparr> in if b then fold (query_wakeup o_onReconnect) (getAll c1) c1 else c1)"

section \<open>Events\<close>

text \<open>
  Everything that can happen to a client between two turns of the event loop. The first group needs
  nothing but what is already under way: answers, timers and resumed promises. The second is what
  components and the page do.
\<close>

datatype event =
    EAnswer nat "jsv + qerror"
  | EWake nat
  | EResume nat
  | EGc nat
  | EStale nat
  | ETick nat
  | EFocus bool
  | EOnline bool
  | EMount qoptions
  | ESubscribe nat
  | EOptions nat qoptions
  | EUnsubscribe nat
  | ERefetch nat bool
  | EInvalidate filters
  | ESetData qoptions "jsv \<Rightarrow> jsv" "nat option"
  | ERemove filters
  | EReset filters
  | ECancel filters
  | EClear
  | EReadSignal nat

fun handle :: "event \<Rightarrow> client \<Rightarrow> client" where
  "handle (EAnswer r x) c = rt_answer r x c"
| "handle (EWake r) c = rt_wake r c"
| "handle (EResume r) c = fetch_resume r c"
| "handle (EGc i) c = gc_timer i c"
| "handle (EStale b) c = stale_timer b c"
| "handle (ETick n) c = c\<lparr>c_now := c_now c + n\<rparr>"
| "handle (EFocus b) c = set_focused b c"
| "handle (EOnline b) c = set_online b c"
| "handle (EMount opts) c = snd (new_observer opts c)"
| "handle (ESubscribe b) c = observer_subscribe b c"
| "handle (EOptions b opts) c = observer_setOptions b opts c"
| "handle (EUnsubscribe b) c = observer_unsubscribe b c"
| "handle (ERefetch b restart) c = executeFetch b restart c"
| "handle (EInvalidate f) c = invalidateQueries f c"
| "handle (ESetData opts g t) c = setQueryData opts g t c"
| "handle (ERemove f) c = removeQueries f c"
| "handle (EReset f) c = resetQueries f c"
| "handle (ECancel f) c = cancelQueries f c"
| "handle EClear c = cache_clear c"
| "handle (EReadSignal i) c = upd_query i (\<lambda>q. q\<lparr>q_signal := True\<rparr>) c"

text \<open>
  When an event can happen: an answer to a call that is out (query functions do not throw
  cancellations), a timer that is set, a settled retrier whose \<open>fetch\<close> has not run on, an observer that
  exists. A function as \<open>structuralSharing\<close> may return anything and is excluded.
\<close>

definition sharing_ok :: "qoptions \<Rightarrow> bool" where
  "sharing_ok opts = (case o_sharing opts of ShareWith f \<Rightarrow> False | _ \<Rightarrow> True)"

fun possible :: "client \<Rightarrow> event \<Rightarrow> bool" where
  "possible c (EAnswer r x) = (r < length (c_retryers c) \<and> rt_phase (c_retryers c ! r) = Running \<and>
     (case x of Inr (Cancelled revert silent) \<Rightarrow> False | _ \<Rightarrow> True))"
| "possible c (EMount opts) = sharing_ok opts"
| "possible c (ESetData opts g t) = sharing_ok opts"
| "possible c (EWake r) = (r < length (c_retryers c) \<and>
     (case rt_phase (c_retryers c ! r) of Sleeping d e \<Rightarrow> True | _ \<Rightarrow> False))"
| "possible c (EResume r) = (r < length (c_retryers c) \<and> rt_status (c_retryers c ! r) \<noteq> NotSettled \<and>
     \<not> rt_resumed (c_retryers c ! r))"
| "possible c (EGc i) = (i < length (c_queries c) \<and> q_gcTimer (c_queries c ! i))"
| "possible c (EStale b) = (b < length (c_observers c) \<and> ob_timer (c_observers c ! b))"
| "possible c (ESubscribe b) = (b < length (c_observers c) \<and> \<not> ob_listening (c_observers c ! b))"
| "possible c (EOptions b opts) = (b < length (c_observers c) \<and> sharing_ok opts)"
| "possible c (EUnsubscribe b) = (b < length (c_observers c) \<and> ob_listening (c_observers c ! b))"
| "possible c (ERefetch b restart) = (b < length (c_observers c))"
| "possible c (EReadSignal i) = (i < length (c_queries c))"
| "possible c _ = True"

text \<open>The client of a page that has just been loaded: no queries and no observers.\<close>

definition fresh_client :: "nat \<Rightarrow> bool \<Rightarrow> bool \<Rightarrow> client" where
  "fresh_client now online focused = \<lparr>c_cache = [], c_queries = [], c_retryers = [], c_observers = [],
     c_now = now, c_online = online, c_focused = focused, c_next = 0\<rparr>"

inductive client_step :: "client \<Rightarrow> client \<Rightarrow> bool" where
  "possible c e \<Longrightarrow> client_step c (handle e c)"

inductive client_reachable :: "client \<Rightarrow> bool" where
  start: "client_reachable (fresh_client now online focused)"
| step: "client_reachable c \<Longrightarrow> client_step c c' \<Longrightarrow> client_reachable c'"

end
