(* ===== verification/QueryFacts.thy ===== *)
theory QueryFacts
  imports QueryCore
begin

text \<open>
  The invariant of the query client and what follows from it: the states components see are
  consistent, retries are bounded, and a cleared cache stays free of what was requested before.
\<close>

section \<open>The invariant\<close>

definition status_ok :: "qstate \<Rightarrow> bool" where
  "status_ok s = ((s_status s = StSuccess \<longrightarrow> s_data s \<noteq> VUndef) \<and> (s_status s = StPending \<longrightarrow> s_data s = VUndef) \<and>
     (s_status s = StError \<longleftrightarrow> s_error s \<noteq> None))"

definition result_ok :: "qresult \<Rightarrow> bool" where
  "result_ok r = ((re_status r = StSuccess \<longrightarrow> re_data r \<noteq> VUndef) \<and> (re_status r = StPending \<longrightarrow> re_data r = VUndef) \<and>
     (re_status r = StError \<longleftrightarrow> re_error r \<noteq> None))"

definition retry_limit :: "retry_option option \<Rightarrow> nat option" where
  "retry_limit x = (case x of
       None \<Rightarrow> Some 3
     | Some (RetryNum n) \<Rightarrow> Some n
     | Some (RetryBool False) \<Rightarrow> Some 0
     | _ \<Rightarrow> None)"

definition within_limit :: "retry_option option \<Rightarrow> nat \<Rightarrow> bool" where
  "within_limit x n = (case retry_limit x of None \<Rightarrow> True | Some k \<Rightarrow> n \<le> k)"

text \<open>How often the query function has been called, and how often it has failed; what is done is settled.\<close>

definition retry_ok :: "retryer \<Rightarrow> bool" where
  "retry_ok rt = ((case rt_phase rt of
         Running \<Rightarrow> rt_calls rt = rt_failures rt + 1
       | Sleeping d e \<Rightarrow> rt_calls rt = rt_failures rt
       | PausedRetry e \<Rightarrow> rt_calls rt = rt_failures rt
       | PausedStart \<Rightarrow> rt_calls rt = 0 \<and> rt_failures rt = 0
       | Done \<Rightarrow> rt_calls rt \<le> rt_failures rt + 1 \<and> rt_status rt \<noteq> NotSettled) \<and>
     within_limit (rt_retry rt) (rt_failures rt))"

definition query_ok :: "client \<Rightarrow> query \<Rightarrow> bool" where
  "query_ok c q = (status_ok (q_state q) \<and> status_ok (q_initial q) \<and> (\<forall>s. q_revert q = Some s \<longrightarrow> status_ok s) \<and>
     sharing_ok (q_options q) \<and> (\<forall>r. q_retryer q = Some r \<longrightarrow> r < length (c_retryers c)) \<and>
     (\<forall>b \<in> set (q_observers q). b < length (c_observers c)))"

definition observer_ok :: "client \<Rightarrow> observer \<Rightarrow> bool" where
  "observer_ok c ob = (ob_query ob < length (c_queries c) \<and> result_ok (ob_result ob) \<and> sharing_ok (ob_options ob))"

definition retryer_ok :: "client \<Rightarrow> retryer \<Rightarrow> bool" where
  "retryer_ok c rt = (rt_query rt < length (c_queries c) \<and> retry_ok rt)"

definition cache_ok :: "client \<Rightarrow> bool" where
  "cache_ok c = (distinct (map fst (c_cache c)) \<and>
     (\<forall>(h, i) \<in> set (c_cache c). i < length (c_queries c) \<and> q_hash (c_queries c ! i) = h))"

definition client_ok :: "client \<Rightarrow> bool" where
  "client_ok c = (list_all (query_ok c) (c_queries c) \<and> list_all (observer_ok c) (c_observers c) \<and>
     list_all (retryer_ok c) (c_retryers c) \<and> cache_ok c)"

text \<open>How a client may change: lists only grow, retriers keep their query, the cache gets new queries only.\<close>

definition grows :: "client \<Rightarrow> client \<Rightarrow> bool" where
  "grows c c' = (length (c_queries c) \<le> length (c_queries c') \<and> length (c_retryers c) \<le> length (c_retryers c') \<and>
     length (c_observers c) \<le> length (c_observers c') \<and>
     (\<forall>r < length (c_retryers c). rt_query (c_retryers c' ! r) = rt_query (c_retryers c ! r)) \<and>
     (\<forall>h i. al_get (c_cache c') h = Some i \<longrightarrow> al_get (c_cache c) h = Some i \<or> length (c_queries c) \<le> i))"

definition safe :: "client \<Rightarrow> client \<Rightarrow> bool" where
  "safe c c' = (client_ok c' \<and> grows c c')"

lemma grows_refl: "grows c c"
  by (simp add: grows_def)

lemma grows_trans: "grows a b \<Longrightarrow> grows b c \<Longrightarrow> grows a c"
  unfolding grows_def by (smt (verit) le_trans less_le_trans)

lemma safe_refl: "client_ok c \<Longrightarrow> safe c c"
  by (simp add: safe_def grows_refl)

lemma safe_then: "safe a b \<Longrightarrow> (client_ok b \<Longrightarrow> safe b c) \<Longrightarrow> safe a c"
  unfolding safe_def by (blast intro: grows_trans)

lemma safe_trans: "safe a b \<Longrightarrow> safe b c \<Longrightarrow> safe a c"
  unfolding safe_def by (blast intro: grows_trans)

lemma safe_ok: "safe a b \<Longrightarrow> client_ok b"
  by (simp add: safe_def)

lemma safe_queries: "safe a b \<Longrightarrow> i < length (c_queries a) \<Longrightarrow> i < length (c_queries b)"
  by (auto simp: safe_def grows_def)

lemma safe_retryers: "safe a b \<Longrightarrow> r < length (c_retryers a) \<Longrightarrow> r < length (c_retryers b)"
  by (auto simp: safe_def grows_def)

lemma safe_observers: "safe a b \<Longrightarrow> i < length (c_observers a) \<Longrightarrow> i < length (c_observers b)"
  by (auto simp: safe_def grows_def)

lemma client_okD:
  assumes "client_ok c"
  shows "i < length (c_queries c) \<Longrightarrow> query_ok c (c_queries c ! i)"
    and "b < length (c_observers c) \<Longrightarrow> observer_ok c (c_observers c ! b)"
    and "r < length (c_retryers c) \<Longrightarrow> retryer_ok c (c_retryers c ! r)"
    and "cache_ok c"
  using assms by (simp_all add: client_ok_def list_all_length)

text \<open>A change of one query, retrier or observer.\<close>

lemma upd_query_safe:
  assumes "client_ok c"
    and "\<And>q. query_ok c q \<Longrightarrow> query_ok c (f q) \<and> q_hash (f q) = q_hash q"
  shows "safe c (upd_query i f c)"
proof -
  have "query_ok c ((c_queries c)[i := f (c_queries c ! i)] ! j) \<and>
      q_hash ((c_queries c)[i := f (c_queries c ! i)] ! j) = q_hash (c_queries c ! j)" if "j < length (c_queries c)" for j
    using that client_okD(1) [OF assms(1)] assms(2) by (cases "j = i") auto
  with assms(1) show ?thesis
    by (auto simp: safe_def grows_def client_ok_def upd_query_def list_all_length query_ok_def observer_ok_def
        retryer_ok_def cache_ok_def)
qed

lemma upd_retryer_safe:
  assumes "client_ok c"
    and "\<And>rt. r < length (c_retryers c) \<Longrightarrow> rt = c_retryers c ! r \<Longrightarrow> retryer_ok c rt \<Longrightarrow>
      retryer_ok c (f rt) \<and> rt_query (f rt) = rt_query rt"
  shows "safe c (upd_retryer r f c)"
proof -
  have "retryer_ok c ((c_retryers c)[r := f (c_retryers c ! r)] ! j) \<and>
      rt_query ((c_retryers c)[r := f (c_retryers c ! r)] ! j) = rt_query (c_retryers c ! j)" if "j < length (c_retryers c)" for j
    using that client_okD(3) [OF assms(1)] assms(2) by (cases "j = r") auto
  with assms(1) show ?thesis
    by (auto simp: safe_def grows_def client_ok_def upd_retryer_def list_all_length query_ok_def observer_ok_def
        retryer_ok_def cache_ok_def)
qed

lemma upd_observer_safe:
  assumes "client_ok c"
    and "\<And>ob. b < length (c_observers c) \<Longrightarrow> ob = c_observers c ! b \<Longrightarrow> observer_ok c ob \<Longrightarrow> observer_ok c (f ob)"
  shows "safe c (upd_observer b f c)"
proof -
  have "observer_ok c ((c_observers c)[b := f (c_observers c ! b)] ! j)" if "j < length (c_observers c)" for j
    using that client_okD(2) [OF assms(1)] assms(2) by (cases "j = b") auto
  with assms(1) show ?thesis
    by (auto simp: safe_def grows_def client_ok_def upd_observer_def list_all_length query_ok_def observer_ok_def
        retryer_ok_def cache_ok_def)
qed

lemma safe_fold:
  assumes "client_ok c" and "\<And>x c'. x \<in> set xs \<Longrightarrow> safe c c' \<Longrightarrow> safe c' (f x c')"
  shows "safe c (fold f xs c)"
  using assms
proof (induction xs arbitrary: c)
  case (Cons x xs)
  have first: "safe c (f x c)" using Cons.prems(2) [of x c] Cons.prems(1) safe_refl by simp
  have "safe (f x c) (fold f xs (f x c))"
    by (rule Cons.IH [OF safe_ok [OF first]]) (auto intro: Cons.prems(2) safe_trans [OF first])
  with first show ?case by (auto intro: safe_trans)
qed (simp add: safe_refl)

section \<open>Every operation keeps the invariant\<close>

definition action_ok :: "action \<Rightarrow> bool" where
  "action_ok act = (case act of
       ASuccess d t manual \<Rightarrow> d \<noteq> VUndef
     | ASetState f \<Rightarrow> (\<forall>s. status_ok s \<longrightarrow> status_ok (f s))
     | _ \<Rightarrow> True)"

lemma reducer_ok: "status_ok s \<Longrightarrow> action_ok act \<Longrightarrow> status_ok (reducer now online opts act s)"
  by (cases act) (auto simp: status_ok_def action_ok_def fetchState_def successState_def Let_def)

lemma createResult_ok: "status_ok s' \<Longrightarrow> result_ok (createResult now s s' initial opts)"
  by (simp add: createResult_def result_ok_def status_ok_def)

lemma default_state_ok: "status_ok (getDefaultState now opts)"
  by (simp add: getDefaultState_def status_ok_def Let_def)

lemma updateResult_safe: "client_ok c \<Longrightarrow> safe c (updateResult b c)"
  unfolding updateResult_def Let_def
  by (rule upd_observer_safe) (auto simp: observer_ok_def query_ok_def dest!: client_okD(1) intro!: createResult_ok)

lemma updateTimers_safe: "client_ok c \<Longrightarrow> safe c (updateTimers b c)"
  unfolding updateTimers_def by (rule upd_observer_safe) (simp_all add: observer_ok_def)

lemma onQueryUpdate_safe: "client_ok c \<Longrightarrow> safe c (onQueryUpdate b c)"
  unfolding onQueryUpdate_def Let_def
  by (auto intro: updateResult_safe safe_then updateTimers_safe)

lemma stale_timer_safe:
  assumes "client_ok c"
  shows "safe c (stale_timer b c)"
proof -
  have "safe c (upd_observer b (\<lambda>ob. ob\<lparr>ob_timer := False\<rparr>) c)"
    using assms by (rule upd_observer_safe) (simp add: observer_ok_def)
  then show ?thesis
    unfolding stale_timer_def Let_def by (auto intro: safe_then updateResult_safe)
qed

lemma dispatch_safe:
  assumes "client_ok c" and "action_ok act"
  shows "safe c (dispatch i act c)"
  unfolding dispatch_def Let_def
proof (rule safe_then [OF _ safe_fold])
  show "safe c (upd_query i (\<lambda>q. q\<lparr>q_state := reducer (c_now c) (c_online c) (q_options (c_queries c ! i)) act (q_state (c_queries c ! i)),
     q_revert := reduce_revert act (reducer (c_now c) (c_online c) (q_options (c_queries c ! i)) act (q_state (c_queries c ! i))) (q_revert q)\<rparr>) c)"
    (is "safe c (upd_query i ?f c)")
  proof (cases "i < length (c_queries c)")
    case True
    from client_okD(1) [OF assms(1) True] have "status_ok (q_state (c_queries c ! i))" by (simp add: query_ok_def)
    then have "status_ok (reducer (c_now c) (c_online c) (q_options (c_queries c ! i)) act (q_state (c_queries c ! i)))"
      using assms(2) by (rule reducer_ok)
    then show ?thesis
      by (intro upd_query_safe assms(1)) (auto simp: query_ok_def reduce_revert_def split: action.splits if_splits)
  next
    case False
    then have "upd_query i ?f c = c" by (simp add: upd_query_def list_update_beyond)
    with assms(1) show ?thesis by (simp add: safe_refl)
  qed
qed (auto intro: onQueryUpdate_safe dest: safe_ok)

lemma scheduleGc_safe [simp]: "client_ok c \<Longrightarrow> safe c (upd_query i scheduleGc c)"
  by (rule upd_query_safe) (simp_all add: query_ok_def scheduleGc_def)

lemma clearGc_safe [simp]: "client_ok c \<Longrightarrow> safe c (upd_query i clearGcTimeout c)"
  by (rule upd_query_safe) (simp_all add: query_ok_def clearGcTimeout_def)

lemma success_action: "d \<noteq> VUndef \<Longrightarrow> action_ok (ASetState (successState now d t))"
  by (simp add: action_ok_def successState_def status_ok_def)

lemma query_setOptions_safe:
  assumes "client_ok c" and "sharing_ok opts"
  shows "safe c (query_setOptions i opts c)"
proof -
  let ?c1 = "upd_query i (\<lambda>q. updateGcTime (o_gcTime opts) (q\<lparr>q_options := opts\<rparr>)) c"
  have one: "safe c ?c1"
    using assms by (intro upd_query_safe) (simp_all add: query_ok_def updateGcTime_def)
  moreover have "safe ?c1 (upd_query i (\<lambda>q. q\<lparr>q_initial := getDefaultState (c_now c) opts\<rparr>)
      (dispatch i (ASetState (successState t d u)) ?c1))" if "d \<noteq> VUndef" for t d u
    by (rule safe_then [OF dispatch_safe [OF safe_ok [OF one] success_action [OF that]] upd_query_safe])
      (simp_all add: query_ok_def default_state_ok)
  ultimately show ?thesis
    unfolding query_setOptions_def Let_def by (auto intro: safe_trans)
qed

lemma new_query_ok: "sharing_ok opts \<Longrightarrow> query_ok c (new_query now opts)"
  by (simp add: new_query_def query_ok_def default_state_ok scheduleGc_def updateGcTime_def Let_def)

lemma setData_safe:
  assumes "client_ok c" and "newData \<noteq> VUndef" and "i < length (c_queries c)"
  shows "safe c (snd (setData i newData t manual c))"
proof -
  have next_ok: "safe c (c\<lparr>c_next := n\<rparr>)" for n
    using assms(1) by (simp add: safe_def grows_def client_ok_def query_ok_def [abs_def] observer_ok_def [abs_def]
        retryer_ok_def [abs_def] cache_ok_def)
  have sh: "sharing_ok (q_options (c_queries c ! i))"
    using client_okD(1) [OF assms(1,3)] by (simp add: query_ok_def)
  have "v \<noteq> VUndef" if "replaceData a newData (o_sharing (q_options (c_queries c ! i))) k = Some (v, n)" for a k v n
    using that sh replaceEqualDeep_defined [OF _ assms(2)] assms(2) unfolding replaceData_def sharing_ok_def
    by (auto split: sharing.splits)
  then show ?thesis
    unfolding setData_def Let_def
    by (auto simp: assms(1) safe_refl action_ok_def intro!: safe_trans [OF next_ok dispatch_safe [OF safe_ok [OF next_ok]]]
        split: option.splits)
qed

lemma retry_done: "retry_ok rt \<Longrightarrow> rt_status rt \<noteq> NotSettled \<Longrightarrow> retry_ok (rt\<lparr>rt_phase := Done\<rparr>)"
  by (auto simp: retry_ok_def split: phase.splits option.splits)

lemma retry_ok_update [simp]:
  "retry_ok (rt\<lparr>rt_stopped := b\<rparr>) = retry_ok rt" "retry_ok (rt\<lparr>rt_resumed := b\<rparr>) = retry_ok rt"
  by (simp_all add: retry_ok_def split: phase.splits option.splits)

lemma settle_ok:
  "retryer_ok c rt \<Longrightarrow> s \<noteq> NotSettled \<Longrightarrow> retryer_ok c ((end_pause c' rt)\<lparr>rt_status := s\<rparr>) \<and>
     rt_query ((end_pause c' rt)\<lparr>rt_status := s\<rparr>) = rt_query rt"
  by (auto simp: retryer_ok_def retry_ok_def end_pause_def split: phase.splits option.splits)

lemma rt_reject_safe: "client_ok c \<Longrightarrow> safe c (rt_reject r e c)"
  unfolding rt_reject_def by (simp add: safe_refl) (intro impI upd_retryer_safe settle_ok; simp)

lemma rt_resolve_safe: "client_ok c \<Longrightarrow> safe c (rt_resolve r v c)"
  unfolding rt_resolve_def by (simp add: safe_refl) (intro impI upd_retryer_safe settle_ok; simp)

lemma settled_after:
  "r < length (c_retryers c) \<Longrightarrow> rt_status (c_retryers (rt_reject r e c) ! r) \<noteq> NotSettled"
  "r < length (c_retryers c) \<Longrightarrow> rt_status (c_retryers (rt_resolve r v c) ! r) \<noteq> NotSettled"
  by (simp_all add: rt_reject_def rt_resolve_def upd_retryer_def)

lemma settle_length [simp]:
  "length (c_retryers (rt_reject r e c)) = length (c_retryers c)" "length (c_retryers (rt_resolve r v c)) = length (c_retryers c)"
  by (simp_all add: rt_reject_def rt_resolve_def upd_retryer_def)

lemma finish_safe:
  "client_ok c \<Longrightarrow> (r < length (c_retryers c) \<Longrightarrow> rt_status (c_retryers c ! r) \<noteq> NotSettled) \<Longrightarrow> safe c (finish r c)"
  unfolding finish_def by (rule upd_retryer_safe) (simp_all add: retryer_ok_def retry_done)

lemma finish_settled_safe:
  "client_ok c \<Longrightarrow> safe c (finish r (rt_reject r e c))" "client_ok c \<Longrightarrow> safe c (finish r (rt_resolve r v c))"
  by (rule safe_then [OF rt_reject_safe finish_safe], auto simp: settled_after)
    (rule safe_then [OF rt_resolve_safe finish_safe], auto simp: settled_after)

lemma rt_stopped_safe: "client_ok c \<Longrightarrow> safe c (upd_retryer r (\<lambda>rt. rt\<lparr>rt_stopped := b\<rparr>) c)"
  by (rule upd_retryer_safe) (simp_all add: retryer_ok_def)

lemma rt_resumed_safe: "client_ok c \<Longrightarrow> safe c (upd_retryer r (\<lambda>rt. rt\<lparr>rt_resumed := b\<rparr>) c)"
  by (rule upd_retryer_safe) (simp_all add: retryer_ok_def)

lemma signal_safe: "client_ok c \<Longrightarrow> safe c (upd_query i (\<lambda>q. q\<lparr>q_signal := b\<rparr>) c)"
  by (rule upd_query_safe) (simp_all add: query_ok_def)

text \<open>A retrier may run when as many calls have failed as were made.\<close>

definition may_run :: "retryer \<Rightarrow> bool" where
  "may_run rt = (rt_calls rt = rt_failures rt \<and>
     within_limit (rt_retry rt) (rt_failures rt))"

lemma rt_run_safe:
  assumes "client_ok c" and "rt_status (c_retryers c ! r) = NotSettled \<Longrightarrow> r < length (c_retryers c) \<Longrightarrow> may_run (c_retryers c ! r)"
  shows "safe c (rt_run r c)"
proof (cases "rt_status (c_retryers c ! r) = NotSettled")
  case True
  have "safe c (upd_retryer r (\<lambda>rt. rt\<lparr>rt_phase := Running, rt_calls := rt_calls rt + 1\<rparr>) c)"
    using assms True by (intro upd_retryer_safe) (auto simp: retryer_ok_def retry_ok_def may_run_def)
  then show ?thesis using True
    by (auto simp: rt_run_def Let_def intro: safe_then signal_safe)
next
  case False
  then show ?thesis using assms(1) by (simp add: rt_run_def Let_def finish_safe)
qed

lemma rt_pause_safe:
  assumes "client_ok c" and "\<And>rt. retryer_ok c rt \<Longrightarrow> rt = c_retryers c ! r \<Longrightarrow> retry_ok (rt\<lparr>rt_phase := ph\<rparr>)"
  shows "safe c (rt_pause r ph c)"
  unfolding rt_pause_def
  by (rule safe_then [OF upd_retryer_safe dispatch_safe]) (use assms in \<open>auto simp: retryer_ok_def action_ok_def\<close>)

lemma dispatch_retryers [simp]: "c_retryers (dispatch i act c) = c_retryers c"
proof -
  have "c_retryers (fold onQueryUpdate bs c) = c_retryers c" for bs c
    by (induction bs arbitrary: c)
      (simp_all add: onQueryUpdate_def updateResult_def updateTimers_def upd_observer_def Let_def)
  then show ?thesis by (simp add: dispatch_def upd_query_def Let_def)
qed

lemma rt_start_safe:
  assumes "client_ok c" and "may_run (c_retryers c ! r)" and "rt_failures (c_retryers c ! r) = 0"
  shows "safe c (rt_start r c)"
  unfolding rt_start_def using assms
  by (auto intro!: rt_run_safe rt_pause_safe simp: may_run_def retry_ok_def)

lemma rt_continued_safe:
  assumes "client_ok c"
    and "case rt_phase (c_retryers c ! r) of PausedStart \<Rightarrow> True | PausedRetry e \<Rightarrow> True | _ \<Rightarrow> False"
  shows "safe c (rt_continued r c)"
proof -
  let ?rt = "c_retryers c ! r"
  let ?c1 = "if rt_status ?rt = NotSettled then dispatch (rt_query ?rt) AContinue c else c"
  have one: "safe c ?c1" using assms(1) by (simp add: dispatch_safe action_ok_def safe_refl)
  then have ok: "client_ok ?c1" by (rule safe_ok)
  have same: "c_retryers ?c1 = c_retryers c" by simp
  have run: "safe ?c1 (rt_run r ?c1)"
  proof (rule rt_run_safe [OF ok])
    assume "r < length (c_retryers ?c1)"
    then have "retry_ok ?rt" using client_okD(3) [OF assms(1), of r] unfolding same by (simp add: retryer_ok_def)
    with assms(2) show "may_run (c_retryers ?c1 ! r)"
      by (auto simp: same may_run_def retry_ok_def split: phase.splits option.splits)
  qed
  have stop: "safe ?c1 (finish r (rt_reject r e ?c1))" for e
    by (rule finish_settled_safe(1) [OF ok])
  show ?thesis
    using safe_trans [OF one run] safe_trans [OF one stop]
    unfolding rt_continued_def Let_def by (auto split: phase.splits)
qed

lemma rt_continue_safe: "client_ok c \<Longrightarrow> safe c (rt_continue r c)"
  unfolding rt_continue_def Let_def
  by (auto simp: safe_refl intro!: rt_continued_safe split: phase.splits)

lemma rt_answer_safe:
  assumes "client_ok c" and r: "r < length (c_retryers c)" "rt_phase (c_retryers c ! r) = Running"
  shows "safe c (rt_answer r x c)"
proof -
  let ?rt = "c_retryers c ! r"
  have ok: "retryer_ok c ?rt" using client_okD(3) [OF assms(1) r(1)] .
  have "safe c (upd_retryer r (\<lambda>rt'. rt'\<lparr>rt_failures := rt_failures ?rt + 1, rt_phase := Sleeping d e\<rparr>) c)"
    if "shouldRetry ?rt e" for d e
    using ok r(2) that
    by (intro upd_retryer_safe assms(1))
      (auto simp: retryer_ok_def retry_ok_def within_limit_def retry_limit_def shouldRetry_def
        split: option.splits retry_option.splits bool.splits)
  then have "safe c (dispatch j (AFailed k e) (upd_retryer r (\<lambda>rt'. rt'\<lparr>rt_failures := rt_failures ?rt + 1,
      rt_phase := Sleeping d e\<rparr>) c))" if "shouldRetry ?rt e" for d e j k
    by (rule safe_then [OF _ dispatch_safe]) (use that in \<open>simp_all add: action_ok_def\<close>)
  then show ?thesis
    using assms(1) unfolding rt_answer_def Let_def
    by (auto simp: finish_settled_safe finish_safe split: sum.splits)
qed

lemma rt_wake_safe:
  assumes "client_ok c" and r: "r < length (c_retryers c)"
  shows "safe c (rt_wake r c)"
proof -
  let ?rt = "c_retryers c ! r"
  have ok: "retry_ok ?rt" using client_okD(3) [OF assms] by (simp add: retryer_ok_def)
  show ?thesis
  proof (cases "rt_phase ?rt")
    case (Sleeping d e)
    with ok have run: "may_run ?rt" by (simp add: retry_ok_def may_run_def)
    have "safe c (rt_pause r (PausedRetry e) c)"
      using run by (intro rt_pause_safe assms(1)) (simp add: retry_ok_def may_run_def)
    moreover have "safe c (finish r (rt_reject r e c))" by (rule finish_settled_safe(1) [OF assms(1)])
    moreover have "safe c (rt_run r c)" using run by (intro rt_run_safe assms(1))
    ultimately show ?thesis using Sleeping by (simp add: rt_wake_def Let_def)
  qed (use assms(1) in \<open>simp_all add: rt_wake_def Let_def safe_refl\<close>)
qed

lemma rt_cancel_safe:
  assumes "client_ok c" and r: "r < length (c_retryers c)"
  shows "safe c (rt_cancel r revert silent c)"
proof -
  let ?i = "rt_query (c_retryers c ! r)"
  have i: "?i < length (c_queries c)" using client_okD(3) [OF assms] by (simp add: retryer_ok_def)
  have "action_ok (ASetState (\<lambda>s. (case q_revert (c_queries c ! ?i) of None \<Rightarrow> s | Some s0 \<Rightarrow> s0)\<lparr>s_fetch := FIdle\<rparr>))"
    using client_okD(1) [OF assms(1) i]
    by (auto simp: action_ok_def query_ok_def status_ok_def split: option.splits)
  then show ?thesis
    using safe_then [OF rt_reject_safe [OF assms(1)] dispatch_safe] rt_reject_safe [OF assms(1)] safe_refl [OF assms(1)]
    by (simp add: rt_cancel_def Let_def)
qed

lemma query_retryer: "client_ok c \<Longrightarrow> i < length (c_queries c) \<Longrightarrow> q_retryer (c_queries c ! i) = Some r \<Longrightarrow> r < length (c_retryers c)"
  by (drule (1) client_okD(1)) (simp add: query_ok_def)

lemma query_cancel_safe:
  "client_ok c \<Longrightarrow> i < length (c_queries c) \<Longrightarrow> safe c (query_cancel i revert silent c)"
  unfolding query_cancel_def by (auto simp: safe_refl query_retryer intro: rt_cancel_safe split: option.splits)

lemma query_destroy_safe:
  "client_ok c \<Longrightarrow> i < length (c_queries c) \<Longrightarrow> safe c (query_destroy i c)"
  unfolding query_destroy_def
  by (rule safe_then [OF clearGc_safe query_cancel_safe]) (auto dest: safe_queries [OF clearGc_safe])

lemma query_reset_safe:
  assumes "client_ok c" and "i < length (c_queries c)"
  shows "safe c (query_reset i c)"
proof -
  have d: "safe c (query_destroy i c)" using assms by (rule query_destroy_safe)
  then have "query_ok (query_destroy i c) (c_queries (query_destroy i c) ! i)"
    using assms(2) by (intro client_okD(1)) (auto dest: safe_ok safe_queries)
  then have "action_ok (ASetState (\<lambda>s. q_initial (c_queries (query_destroy i c) ! i)))"
    by (simp add: action_ok_def query_ok_def)
  then show ?thesis
    unfolding query_reset_def Let_def by (auto intro: safe_then [OF d] dispatch_safe)
qed

lemma invalidate_safe: "client_ok c \<Longrightarrow> safe c (invalidate i c)"
  unfolding invalidate_def by (simp add: safe_refl dispatch_safe action_ok_def)

lemma addObserver_safe:
  "client_ok c \<Longrightarrow> b < length (c_observers c) \<Longrightarrow> safe c (addObserver i b c)"
  unfolding addObserver_def
  by (auto simp: safe_refl query_ok_def clearGcTimeout_def intro!: upd_query_safe)

lemma removeObserver_safe:
  assumes "client_ok c" and i: "i < length (c_queries c)"
  shows "safe c (removeObserver i b c)"
proof -
  let ?c1 = "upd_query i (\<lambda>q. q\<lparr>q_observers := filter (\<lambda>x. x \<noteq> b) (q_observers q)\<rparr>) c"
  have one: "safe c ?c1" using assms(1) by (rule upd_query_safe) (simp add: query_ok_def)
  then have ok: "client_ok ?c1" and i1: "i < length (c_queries ?c1)"
    using i by (auto dest: safe_ok safe_queries)
  have two: "safe ?c1 (case q_retryer (c_queries ?c1 ! i) of
      None \<Rightarrow> ?c1
    | Some r \<Rightarrow> if q_signal (c_queries ?c1 ! i) \<or> isInitialPausedFetch (q_state (c_queries ?c1 ! i))
        then rt_cancel r True False ?c1 else upd_retryer r (\<lambda>rt. rt\<lparr>rt_stopped := True\<rparr>) ?c1)"
    using ok query_retryer [OF ok i1]
    by (auto simp: safe_refl intro: rt_cancel_safe rt_stopped_safe split: option.splits)
  show ?thesis
    unfolding removeObserver_def Let_def
    using safe_refl [OF assms(1)] one safe_trans [OF one safe_then [OF two scheduleGc_safe]] by auto
qed

section \<open>Fetching, the cache and the observers keep the invariant\<close>

lemma append_retryer_safe:
  assumes "client_ok c" and "i < length (c_queries c)"
  shows "safe c (c\<lparr>c_retryers := c_retryers c @ [new_retryer i opts]\<rparr>)"
proof -
  have "retry_ok (new_retryer i opts)"
    by (simp add: retry_ok_def new_retryer_def within_limit_def split: option.splits)
  then show ?thesis using assms
    by (auto simp: safe_def grows_def client_ok_def list_all_length query_ok_def observer_ok_def retryer_ok_def
        cache_ok_def nth_append new_retryer_def less_Suc_eq)
qed

lemma begin_fetch_safe:
  assumes "client_ok c" and i: "i < length (c_queries c)"
  shows "safe c (begin_fetch i fmeta c)"
proof -
  let ?c1 = "upd_query i (\<lambda>q. q\<lparr>q_revert := Some (q_state q)\<rparr>) c"
  let ?s = "q_state (c_queries ?c1 ! i)"
  let ?c2 = "if s_fetch ?s = FIdle \<or> \<not> same (s_meta ?s) fmeta then dispatch i (AFetch fmeta) ?c1 else ?c1"
  let ?r = "length (c_retryers ?c2)"
  let ?c3 = "?c2\<lparr>c_retryers := c_retryers ?c2 @ [new_retryer i (q_options (c_queries ?c2 ! i))]\<rparr>"
  let ?c4 = "upd_query i (\<lambda>q. q\<lparr>q_retryer := Some ?r\<rparr>) ?c3"
  have one: "safe c ?c1" using assms(1) by (rule upd_query_safe) (simp add: query_ok_def)
  have two: "safe c ?c2" using one safe_then [OF one dispatch_safe] by (simp add: action_ok_def)
  have three: "safe c ?c3" using two i by (intro safe_then [OF two append_retryer_safe]) (auto dest: safe_queries)
  have four: "safe c ?c4" by (rule safe_then [OF three upd_query_safe]) (simp_all add: query_ok_def)
  have "c_retryers ?c4 ! ?r = new_retryer i (q_options (c_queries ?c2 ! i))"
    by (simp add: upd_query_def)
  then have "safe ?c4 (rt_start ?r ?c4)"
    by (intro rt_start_safe safe_ok [OF four]) (simp_all add: may_run_def new_retryer_def within_limit_def split: option.splits)
  with four show ?thesis unfolding begin_fetch_def Let_def by (rule safe_trans)
qed

lemma borrow_options_safe:
  assumes "client_ok c" and i: "i < length (c_queries c)"
  shows "safe c (borrow_options i c)"
proof -
  have "sharing_ok (ob_options (c_observers c ! b))" if "b \<in> set (q_observers (c_queries c ! i))" for b
    using client_okD(1) [OF assms] client_okD(2) [OF assms(1), of b] that by (simp add: query_ok_def observer_ok_def)
  then show ?thesis
    using assms(1) unfolding borrow_options_def Let_def
    by (auto simp: safe_refl find_Some_iff intro!: query_setOptions_safe split: option.splits)
qed

lemma start_fetch_safe:
  assumes "client_ok c" and i: "i < length (c_queries c)" and "\<forall>os. opts = Some os \<longrightarrow> sharing_ok os"
  shows "safe c (start_fetch i opts b fmeta c)"
proof -
  have start: "safe c (begin_fetch i fmeta (borrow_options i c2))" if "safe c c2" for c2
    using that i by (intro safe_then [OF that safe_then [OF borrow_options_safe begin_fetch_safe]])
      (auto dest: safe_queries safe_ok safe_queries [OF borrow_options_safe])
  have opts: "safe c (case opts of None \<Rightarrow> c1 | Some os \<Rightarrow> query_setOptions i os c1)" if "safe c c1" for c1
    using that assms(3) by (auto intro: safe_then query_setOptions_safe split: option.splits)
  have "safe c (if b then query_cancel i False True c else c)"
    using assms(1) i by (simp add: query_cancel_safe safe_refl)
  from start [OF opts [OF this]] show ?thesis unfolding start_fetch_def Let_def .
qed

lemma fetch_safe:
  assumes "client_ok c" and "i < length (c_queries c)" and "\<forall>os. opts = Some os \<longrightarrow> sharing_ok os"
  shows "safe c (fetch i opts cancelRefetch fmeta c)"
  unfolding fetch_def Let_def
  using rt_stopped_safe [OF assms(1)] start_fetch_safe [OF assms] by (auto split: option.splits bool.splits)

lemma fetch_failed_safe: "client_ok c \<Longrightarrow> safe c (fetch_failed i e c)"
  unfolding fetch_failed_def by (simp add: safe_refl dispatch_safe action_ok_def)

lemma fetch_resume_safe:
  assumes "client_ok c" and r: "r < length (c_retryers c)"
  shows "safe c (fetch_resume r c)"
proof -
  let ?i = "rt_query (c_retryers c ! r)" and ?c0 = "upd_retryer r (\<lambda>rt. rt\<lparr>rt_resumed := True\<rparr>) c"
  have zero: "safe c ?c0" using assms(1) by (rule rt_resumed_safe)
  have i: "?i < length (c_queries ?c0)"
    using client_okD(3) [OF assms] safe_queries [OF zero] by (simp add: retryer_ok_def)
  have failed: "safe c (fetch_failed ?i e ?c0)" for e
    by (rule safe_then [OF zero fetch_failed_safe])
  have data: "safe c (snd (setData ?i v None False ?c0))" if "v \<noteq> VUndef" for v
    by (rule safe_then [OF zero setData_safe]) (use that i in auto)
  have thrown: "safe c (fetch_failed ?i e (snd (setData ?i v None False ?c0)))" if "v \<noteq> VUndef" for e v
    using that by (intro safe_then [OF data fetch_failed_safe])
  have "safe c (case rt_status (c_retryers c ! r) of
      NotSettled \<Rightarrow> ?c0
    | Fulfilled v \<Rightarrow> if v = VUndef then fetch_failed ?i DataUndefined ?c0
        else (case setData ?i v None False ?c0 of (None, c') \<Rightarrow> c' | (Some e, c') \<Rightarrow> fetch_failed ?i e c')
    | Rejected e \<Rightarrow> fetch_failed ?i e ?c0)"
    using zero failed data thrown by (auto split: settled.splits option.splits prod.splits) (metis snd_conv)+
  then show ?thesis
    unfolding fetch_resume_def Let_def by (rule safe_then [OF _ scheduleGc_safe])
qed

lemma cache_build_safe:
  assumes "client_ok c" and "sharing_ok opts"
  shows "safe c (snd (cache_build opts c)) \<and> fst (cache_build opts c) < length (c_queries (snd (cache_build opts c)))"
proof (cases "al_get (c_cache c) (o_hash opts)")
  case None
  let ?c1 = "c\<lparr>c_queries := c_queries c @ [new_query (c_now c) opts], c_cache := al_set (c_cache c) (o_hash opts) (length (c_queries c))\<rparr>"
  have fresh: "o_hash opts \<notin> fst ` set (c_cache c)"
    using None by (simp add: al_get_map_of map_of_eq_None_iff)
  have cache: "c_cache ?c1 = c_cache c @ [(o_hash opts, length (c_queries c))]"
    using None by (simp add: al_set_order_new al_has_def)
  have "q_hash (new_query (c_now c) opts) = o_hash opts"
    by (simp add: new_query_def scheduleGc_def updateGcTime_def Let_def)
  with assms fresh have "cache_ok ?c1"
    unfolding cache_ok_def cache by (auto simp: client_ok_def cache_ok_def nth_append less_Suc_eq)
  moreover have "list_all (query_ok ?c1) (c_queries ?c1)"
    using assms new_query_ok [OF assms(2), of c] by (auto simp: client_ok_def list_all_iff query_ok_def)
  ultimately have "client_ok ?c1"
    using assms(1) by (auto simp: client_ok_def list_all_iff observer_ok_def retryer_ok_def)
  moreover have "grows c ?c1" by (auto simp: grows_def)
  ultimately show ?thesis using None by (simp add: cache_build_def safe_def Let_def)
next
  case (Some i)
  then have "(o_hash opts, i) \<in> set (c_cache c)" by (simp add: al_get_map_of map_of_SomeD)
  with Some assms(1) show ?thesis
    by (auto simp: cache_build_def safe_refl client_ok_def cache_ok_def)
qed

lemma getAll_valid: "client_ok c \<Longrightarrow> i \<in> set (getAll c) \<Longrightarrow> i < length (c_queries c)"
  by (auto simp: getAll_def client_ok_def cache_ok_def)

lemma cache_remove_safe:
  assumes "client_ok c" and "i < length (c_queries c)"
  shows "safe c (cache_remove i c)"
proof -
  have one: "safe c (query_destroy i c)" using assms by (rule query_destroy_safe)
  have "safe c' (c'\<lparr>c_cache := al_del (c_cache c') h\<rparr>)" if "client_ok c'" for c' h
  proof -
    have "set (al_del (c_cache c') h) \<subseteq> set (c_cache c')" "distinct (map fst (al_del (c_cache c') h))"
      using that by (auto simp: al_del_def distinct_map_filter client_ok_def cache_ok_def)
    with that show ?thesis
      by (auto simp: safe_def grows_def client_ok_def query_ok_def [abs_def] observer_ok_def [abs_def]
          retryer_ok_def [abs_def] cache_ok_def)
  qed
  with one safe_refl [OF assms(1)] show ?thesis
    unfolding cache_remove_def Let_def by (auto intro: safe_then split: option.splits)
qed

lemma fold_getAll_safe:
  assumes "client_ok c" and "set xs \<subseteq> set (getAll c)"
    and "\<And>i c'. client_ok c' \<Longrightarrow> i < length (c_queries c') \<Longrightarrow> safe c' (f i c')"
  shows "safe c (fold f xs c)"
proof (rule safe_fold [OF assms(1)])
  fix i c' assume "i \<in> set xs" and "safe c c'"
  then show "safe c' (f i c')"
    using assms(2) getAll_valid [OF assms(1), of i] by (intro assms(3)) (auto dest: safe_queries safe_ok)
qed

lemma cache_clear_safe: "client_ok c \<Longrightarrow> safe c (cache_clear c)"
  unfolding cache_clear_def by (rule fold_getAll_safe) (auto intro: cache_remove_safe)

lemma optionalRemove_safe: "client_ok c \<Longrightarrow> i < length (c_queries c) \<Longrightarrow> safe c (optionalRemove i c)"
  unfolding optionalRemove_def Let_def by (simp add: safe_refl cache_remove_safe)

lemma gc_timer_safe: "client_ok c \<Longrightarrow> i < length (c_queries c) \<Longrightarrow> safe c (gc_timer i c)"
  unfolding gc_timer_def
  by (rule safe_then [OF clearGc_safe optionalRemove_safe]) (auto dest: safe_queries [OF clearGc_safe])

lemma observer_sharing: "client_ok c \<Longrightarrow> b < length (c_observers c) \<Longrightarrow>
    sharing_ok (ob_options (c_observers c ! b)) \<and> ob_query (c_observers c ! b) < length (c_queries c)"
  by (drule (1) client_okD(2)) (simp add: observer_ok_def)

lemma cache_build_observers [simp]: "c_observers (snd (cache_build opts c)) = c_observers c"
  by (simp add: cache_build_def Let_def split: option.splits)

lemma updateQuery_safe:
  assumes "client_ok c" and b: "b < length (c_observers c)"
  shows "safe c (updateQuery b c)"
proof -
  let ?ob = "c_observers c ! b"
  obtain i c1 where build: "cache_build (ob_options ?ob) c = (i, c1)" by force
  have one: "safe c c1" and i: "i < length (c_queries c1)"
    using cache_build_safe [OF assms(1), of "ob_options ?ob"] observer_sharing [OF assms] build by simp_all
  let ?c2 = "upd_observer b (\<lambda>ob. ob\<lparr>ob_query := i, ob_initial := q_state (c_queries c1 ! i)\<rparr>) c1"
  have two: "safe c ?c2"
    by (rule safe_then [OF one upd_observer_safe]) (use i in \<open>simp_all add: observer_ok_def\<close>)
  have old: "ob_query ?ob < length (c_queries ?c2)"
    using observer_sharing [OF assms] safe_queries [OF two] by simp
  have three: "safe c (removeObserver (ob_query ?ob) b ?c2)"
    by (rule safe_then [OF two removeObserver_safe [OF _ old]])
  have "safe c (addObserver i b (removeObserver (ob_query ?ob) b ?c2))"
    by (rule safe_then [OF three addObserver_safe]) (use b safe_observers [OF three] in auto)
  with one two show ?thesis by (simp add: updateQuery_def build Let_def)
qed

lemma executeFetch_safe:
  assumes "client_ok c" and b: "b < length (c_observers c)"
  shows "safe c (executeFetch b restart c)"
proof -
  have one: "safe c (updateQuery b c)" using assms by (rule updateQuery_safe)
  then have "b < length (c_observers (updateQuery b c))" using b by (auto dest: safe_observers)
  from observer_sharing [OF safe_ok [OF one] this] one show ?thesis
    unfolding executeFetch_def Let_def by (intro safe_then [OF one fetch_safe]) auto
qed

lemma observer_setOptions_safe:
  assumes "client_ok c" and b: "b < length (c_observers c)" and "sharing_ok opts"
  shows "safe c (observer_setOptions b opts c)"
proof -
  let ?c0 = "upd_observer b (\<lambda>ob. ob\<lparr>ob_options := opts\<rparr>) c"
  have zero: "safe c ?c0" using assms(1) by (rule upd_observer_safe) (use assms(3) in \<open>simp add: observer_ok_def\<close>)
  have one: "safe c (updateQuery b ?c0)"
    by (rule safe_then [OF zero updateQuery_safe]) (use b safe_observers [OF zero] in auto)
  let ?c1 = "updateQuery b ?c0"
  let ?c2 = "query_setOptions (ob_query (c_observers ?c1 ! b)) opts ?c1"
  have two: "safe c ?c2" by (rule safe_then [OF one query_setOptions_safe [OF _ assms(3)]])
  have three: "safe c (if x then executeFetch b False ?c2 else ?c2)" for x
    using two safe_then [OF two executeFetch_safe] safe_observers [OF two b] by auto
  have four: "safe c (updateResult b (if x then executeFetch b False ?c2 else ?c2))" for x
    by (rule safe_then [OF three updateResult_safe])
  show ?thesis
    unfolding observer_setOptions_def Let_def using four safe_then [OF four updateTimers_safe] by auto
qed

lemma new_observer_safe:
  assumes "client_ok c" and "sharing_ok opts"
  shows "safe c (snd (new_observer opts c))"
proof -
  obtain i c1 where build: "cache_build opts c = (i, c1)" by force
  have one: "safe c c1" and i: "i < length (c_queries c1)"
    using cache_build_safe [OF assms] build by simp_all
  let ?s = "q_state (c_queries c1 ! i)"
  let ?ob = "\<lparr>ob_query = i, ob_options = opts, ob_listening = False, ob_initial = ?s,
      ob_result = createResult (c_now c) ?s ?s ?s opts, ob_timer = False\<rparr>"
  let ?c2 = "c1\<lparr>c_observers := c_observers c1 @ [?ob]\<rparr>"
  have "status_ok ?s" using client_okD(1) [OF safe_ok [OF one] i] by (simp add: query_ok_def)
  then have "observer_ok c1 ?ob" using i assms(2) by (simp add: observer_ok_def createResult_ok)
  with safe_ok [OF one] have two: "safe c1 ?c2"
    by (auto simp: safe_def grows_def client_ok_def list_all_iff query_ok_def observer_ok_def retryer_ok_def
        cache_ok_def intro: less_SucI)
  have "safe c1 (updateResult b (query_setOptions i opts ?c2))" for b
    by (rule safe_then [OF safe_then [OF two query_setOptions_safe [OF _ assms(2)]] updateResult_safe])
  with one show ?thesis by (auto simp: new_observer_def build Let_def intro: safe_trans)
qed

lemma subscribe_safe:
  assumes "client_ok c" and b: "b < length (c_observers c)"
  shows "safe c (observer_subscribe b c)"
proof -
  let ?c1 = "upd_observer b (\<lambda>ob. ob\<lparr>ob_listening := True\<rparr>) c"
  have one: "safe c ?c1" using assms(1) by (rule upd_observer_safe) (simp add: observer_ok_def)
  let ?c2 = "addObserver (ob_query (c_observers ?c1 ! b)) b ?c1"
  have two: "safe c ?c2"
    by (rule safe_then [OF one addObserver_safe]) (use b safe_observers [OF one] in auto)
  have three: "safe c (if x then executeFetch b False ?c2 else updateResult b ?c2)" for x
    using safe_then [OF two updateResult_safe] safe_then [OF two executeFetch_safe] b safe_observers [OF two] by auto
  show ?thesis
    unfolding observer_subscribe_def Let_def
    by (rule safe_then [OF safe_then [OF three updateTimers_safe] updateResult_safe])
qed

lemma unsubscribe_safe:
  assumes "client_ok c" and b: "b < length (c_observers c)"
  shows "safe c (observer_unsubscribe b c)"
proof -
  let ?c1 = "upd_observer b (\<lambda>ob. ob\<lparr>ob_listening := False, ob_timer := False\<rparr>) c"
  have one: "safe c ?c1" using assms(1) by (rule upd_observer_safe) (simp add: observer_ok_def)
  have "ob_query (c_observers ?c1 ! b) < length (c_queries ?c1)"
    using observer_sharing [OF safe_ok [OF one]] safe_observers [OF one b] by simp
  then show ?thesis unfolding observer_unsubscribe_def Let_def by (intro safe_then [OF one removeObserver_safe])
qed

section \<open>The client and its events keep the invariant\<close>

lemma findAll_sub: "set (findAll f c) \<subseteq> set (getAll c)"
  by (auto simp: findAll_def)

lemma refetchQueries_safe: "client_ok c \<Longrightarrow> safe c (refetchQueries f restart c)"
  unfolding refetchQueries_def by (rule fold_getAll_safe) (auto simp: findAll_def intro: fetch_safe)

lemma invalidateQueries_safe:
  assumes "client_ok c"
  shows "safe c (invalidateQueries f c)"
proof -
  have "safe c (fold invalidate (findAll f c) c)"
    using assms findAll_sub by (rule fold_getAll_safe) (rule invalidate_safe)
  then show ?thesis unfolding invalidateQueries_def by (rule safe_then) (rule refetchQueries_safe)
qed

lemma resetQueries_safe:
  assumes "client_ok c"
  shows "safe c (resetQueries f c)"
proof -
  have "safe c (fold query_reset (findAll f c) c)"
    using assms findAll_sub by (rule fold_getAll_safe) (rule query_reset_safe)
  then show ?thesis unfolding resetQueries_def by (rule safe_then) (rule refetchQueries_safe)
qed

lemma removeQueries_safe: "client_ok c \<Longrightarrow> safe c (removeQueries f c)"
  unfolding removeQueries_def by (rule fold_getAll_safe [OF _ findAll_sub]) (auto intro: cache_remove_safe)

lemma cancelQueries_safe: "client_ok c \<Longrightarrow> safe c (cancelQueries f c)"
  unfolding cancelQueries_def by (rule fold_getAll_safe [OF _ findAll_sub]) (auto intro: query_cancel_safe)

lemma setQueryData_safe:
  assumes "client_ok c" and "sharing_ok opts"
  shows "safe c (setQueryData opts g t c)"
  using cache_build_safe [OF assms] assms(1)
  by (auto simp: setQueryData_def Let_def safe_refl split: prod.splits intro!: safe_then [OF _ setData_safe])

lemma query_wakeup_safe:
  assumes "client_ok c" and i: "i < length (c_queries c)"
  shows "safe c (query_wakeup field i c)"
proof -
  let ?find = "find (\<lambda>b. let os = ob_options (c_observers c ! b) in
      shouldFetchOn (c_now c) (q_state (c_queries c ! ob_query (c_observers c ! b))) os (field os))
      (q_observers (c_queries c ! i))"
  have "b < length (c_observers c)" if "?find = Some b" for b
    using that client_okD(1) [OF assms] by (auto simp: find_Some_iff query_ok_def)
  then have one: "safe c (case ?find of None \<Rightarrow> c | Some b \<Rightarrow> executeFetch b False c)"
    using assms(1) by (auto simp: safe_refl executeFetch_safe split: option.splits)
  have "safe c (case x of None \<Rightarrow> c' | Some r \<Rightarrow> rt_continue r c')" if "safe c c'" for x c'
    using that safe_then [OF that rt_continue_safe] by (auto split: option.splits)
  from this [OF one] show ?thesis unfolding query_wakeup_def Let_def .
qed

lemma fields_safe:
  assumes "client_ok c"
  shows "safe c (c\<lparr>c_focused := b\<rparr>)" "safe c (c\<lparr>c_online := b\<rparr>)" "safe c (c\<lparr>c_now := n\<rparr>)"
  using assms by (simp_all add: safe_def grows_def client_ok_def query_ok_def [abs_def] observer_ok_def [abs_def]
      retryer_ok_def [abs_def] cache_ok_def)

lemma set_focused_safe: "client_ok c \<Longrightarrow> safe c (set_focused b c)"
  unfolding set_focused_def Let_def
  by (auto intro!: safe_then [OF fields_safe(1) fold_getAll_safe [OF _ order_refl]] fields_safe(1) query_wakeup_safe)

lemma set_online_safe: "client_ok c \<Longrightarrow> safe c (set_online b c)"
  unfolding set_online_def Let_def
  by (auto intro!: safe_then [OF fields_safe(2) fold_getAll_safe [OF _ order_refl]] fields_safe(2) query_wakeup_safe
      simp: safe_refl)

lemma handle_safe: "client_ok c \<Longrightarrow> possible c e \<Longrightarrow> safe c (handle e c)"
  by (cases e)
    (auto intro: rt_answer_safe rt_wake_safe fetch_resume_safe gc_timer_safe stale_timer_safe fields_safe
      set_focused_safe set_online_safe new_observer_safe subscribe_safe observer_setOptions_safe unsubscribe_safe
      executeFetch_safe invalidateQueries_safe setQueryData_safe removeQueries_safe resetQueries_safe
      cancelQueries_safe cache_clear_safe signal_safe)

lemma fresh_ok: "client_ok (fresh_client now online focused)"
  by (simp add: fresh_client_def client_ok_def cache_ok_def)

lemma client_step_safe: "client_step c c' \<Longrightarrow> client_ok c \<Longrightarrow> safe c c'"
  by (auto elim!: client_step.cases intro: handle_safe)

lemma reachable_ok: "client_reachable c \<Longrightarrow> client_ok c"
  by (induction rule: client_reachable.induct) (auto simp: fresh_ok dest: client_step_safe safe_ok)

lemma steps_safe: "rtranclp client_step c c' \<Longrightarrow> client_ok c \<Longrightarrow> safe c c'"
  by (induction rule: rtranclp_induct) (auto simp: safe_refl intro: safe_trans dest: client_step_safe safe_ok)

section \<open>A sample run\<close>

text \<open>One component has mounted and its request is out; then the request fails and is repeated.\<close>

definition so :: qoptions where
  "so = \<lparr>o_key = VArr 0 [VStr ''my-repos''], o_hash = Some ''[my-repos]'', o_fn = Fn, o_enabled = True,
     o_staleTime = StaleMs 30000, o_retry = Some (RetryNum 1), o_retryDelay = None, o_networkMode = None,
     o_gcTime = None, o_onMount = RefetchStale, o_onFocus = RefetchNo, o_onReconnect = RefetchStale,
     o_retryOnMount = True, o_initialData = VUndef, o_initialDataUpdatedAt = None, o_sharing = Share\<rparr>"

definition ss0 :: qstate where
  "ss0 = getDefaultState 0 so"

definition ss1 :: qstate where
  "ss1 = ss0\<lparr>s_fetch := Fetching\<rparr>"

definition sq0 :: query where
  "sq0 = new_query 0 so"

definition sq1 :: query where
  "sq1 = sq0\<lparr>q_observers := [0], q_state := ss1, q_revert := Some ss0, q_retryer := Some 0, q_gcTimer := False\<rparr>"

definition sob0 :: observer where
  "sob0 = \<lparr>ob_query = 0, ob_options = so, ob_listening = False, ob_initial = ss0,
     ob_result = createResult 0 ss0 ss0 ss0 so, ob_timer = False\<rparr>"

definition sob1 :: observer where
  "sob1 = sob0\<lparr>ob_listening := True, ob_result := createResult 0 ss1 ss1 ss0 so\<rparr>"

definition srt :: retryer where
  "srt = (new_retryer 0 so)\<lparr>rt_phase := Running, rt_calls := 1\<rparr>"

definition sample_with :: "query \<Rightarrow> retryer list \<Rightarrow> observer \<Rightarrow> client" where
  "sample_with q rts ob = \<lparr>c_cache = [(Some ''[my-repos]'', 0)], c_queries = [q], c_retryers = rts, c_observers = [ob],
     c_now = 0, c_online = True, c_focused = True, c_next = 0\<rparr>"

lemma so_sel [simp]:
  "o_key so = VArr 0 [VStr ''my-repos'']" "o_hash so = Some ''[my-repos]''" "o_fn so = Fn" "o_enabled so"
  "o_staleTime so = StaleMs 30000" "o_retry so = Some (RetryNum 1)" "o_retryDelay so = None"
  "o_networkMode so = None" "o_gcTime so = None" "o_onMount so = RefetchStale" "o_initialData so = VUndef"
  "o_retryOnMount so" "o_sharing so = Share"
  by (simp_all add: so_def)

lemma ss_sel [simp]:
  "s_data ss0 = VUndef" "s_fetch ss0 = FIdle" "s_status ss0 = StPending" "s_error ss0 = None" "s_meta ss0 = VNull"
  "s_data ss1 = VUndef" "s_fetch ss1 = Fetching" "s_status ss1 = StPending" "s_error ss1 = None"
  by (simp_all add: ss0_def ss1_def getDefaultState_def)

lemma sq_sel [simp]:
  "q_options sq0 = so" "q_state sq0 = ss0" "q_observers sq0 = []" "q_retryer sq0 = None" "q_initial sq0 = ss0"
  "q_gcTime sq0 = GcMs 300000" "q_signal sq0 = False" "q_hash sq0 = Some ''[my-repos]''"
  by (simp_all add: sq0_def new_query_def ss0_def scheduleGc_def updateGcTime_def gc_max_def Let_def)

lemma sample_sel [simp]:
  "c_cache (sample_with q rts ob) = [(Some ''[my-repos]'', 0)]" "c_queries (sample_with q rts ob) = [q]"
  "c_retryers (sample_with q rts ob) = rts" "c_observers (sample_with q rts ob) = [ob]" "c_now (sample_with q rts ob) = 0"
  "c_online (sample_with q rts ob)" "c_focused (sample_with q rts ob)"
  by (simp_all add: sample_with_def)

lemma sample_upd [simp]:
  "upd_query 0 f (sample_with q rts ob) = sample_with (f q) rts ob"
  "upd_retryer 0 g (sample_with q [rt] ob) = sample_with q [g rt] ob"
  "upd_observer 0 h (sample_with q rts ob) = sample_with q rts (h ob)"
  "(sample_with q rts ob)\<lparr>c_retryers := rts'\<rparr> = sample_with q rts' ob"
  by (simp_all add: sample_with_def upd_query_def upd_retryer_def upd_observer_def)

lemma sample_stale [simp]: "s_data s = VUndef \<Longrightarrow> isStale now s so"
  by (simp add: isStale_def isStaleByTime_def)

lemma sample_build [simp]: "cache_build so (sample_with q rts ob) = (0, sample_with q rts ob)"
  by (simp add: cache_build_def)

lemma sample_setOptions:
  assumes "s_data (q_state q) = VUndef" and "q_options q = so" and "q_gcTime q = GcMs 300000"
  shows "query_setOptions 0 so (sample_with q rts ob) = sample_with q rts ob"
  using assms by (cases q) (simp add: query_setOptions_def Let_def updateGcTime_def gc_max_def getDefaultState_def)

lemma sample_mount: "handle (EMount so) (fresh_client 0 True True) = sample_with sq0 [] sob0"
proof -
  have "cache_build so (fresh_client 0 True True) =
      (0, (fresh_client 0 True True)\<lparr>c_queries := [sq0], c_cache := [(Some ''[my-repos]'', 0)]\<rparr>)"
    by (simp add: cache_build_def fresh_client_def sq0_def Let_def)
  moreover have "(fresh_client 0 True True)\<lparr>c_queries := [sq0], c_cache := [(Some ''[my-repos]'', 0)], c_observers := [sob0]\<rparr>
      = sample_with sq0 [] sob0"
    by (simp add: fresh_client_def sample_with_def)
  ultimately show ?thesis
    by (simp add: new_observer_def Let_def fresh_client_def sample_setOptions updateResult_def flip: sob0_def)
      (simp add: sob0_def)
qed

lemma sample_subscribe: "handle (ESubscribe 0) (sample_with sq0 [] sob0) = sample_with sq1 [srt] sob1"
proof -
  let ?ob = "sob0\<lparr>ob_listening := True\<rparr>" and ?q = "sq0\<lparr>q_observers := [0], q_gcTimer := False\<rparr>"
  have obs: "ob_query ?ob = 0" "ob_options ?ob = so" "ob_initial ?ob = ss0" "ob_listening ?ob" by (simp_all add: sob0_def)
  have one: "addObserver 0 0 (sample_with sq0 [] ?ob) = sample_with ?q [] ?ob"
    by (simp add: addObserver_def clearGcTimeout_def)
  have fetched: "dispatch 0 (AFetch VUndef) (sample_with q [] ?ob) = sample_with (q\<lparr>q_state := ss1\<rparr>) [] sob1"
    if "q_options q = so" "q_observers q = [0]" "q_state q = ss0" for q
    using that
    by (simp add: dispatch_def Let_def onQueryUpdate_def updateResult_def updateTimers_def obs fetchState_def canFetch_def
        nullish_null_def reduce_revert_def) (simp add: sob0_def sob1_def ss1_def ss0_def getDefaultState_def createResult_def)
  have started: "begin_fetch 0 VUndef (sample_with ?q [] ?ob) = sample_with sq1 [srt] sob1"
    by (simp add: begin_fetch_def Let_def fetched rt_start_def canFetch_def rt_run_def new_retryer_def)
      (simp add: new_retryer_def srt_def sq1_def sq0_def new_query_def scheduleGc_def updateGcTime_def Let_def)
  have "updateQuery 0 (sample_with ?q [] ?ob) = sample_with ?q [] ?ob"
    by (simp add: updateQuery_def obs Let_def)
  then have exec: "executeFetch 0 False (sample_with ?q [] ?ob) = sample_with sq1 [srt] sob1"
    by (simp add: executeFetch_def Let_def obs fetch_def start_fetch_def sample_setOptions borrow_options_def started)
  have final: "updateResult 0 (updateTimers 0 (sample_with sq1 [srt] sob1)) = sample_with sq1 [srt] sob1"
    by (simp add: updateResult_def updateTimers_def) (simp add: sob1_def sob0_def sq1_def createResult_def)
  show ?thesis
    by (simp add: observer_subscribe_def Let_def obs one exec final shouldFetchOnMount_def shouldLoadOnMount_def)
qed

lemma sample_reachable: "client_reachable (sample_with sq1 [srt] sob1)"
proof -
  let ?c0 = "fresh_client 0 True True"
  have "client_step ?c0 (sample_with sq0 [] sob0)"
    using client_step.intros [of ?c0 "EMount so"] by (simp only: sample_mount) (simp add: sharing_ok_def)
  moreover have "client_step (sample_with sq0 [] sob0) (sample_with sq1 [srt] sob1)"
    using client_step.intros [of "sample_with sq0 [] sob0" "ESubscribe 0"]
    by (simp only: sample_subscribe) (simp add: sob0_def)
  ultimately show ?thesis by (blast intro: client_reachable.intros)
qed

section \<open>What components see\<close>

lemma fetchState_ok: "status_ok s \<Longrightarrow> status_ok (fetchState online opts (s_data s) s)"
  by (auto simp: fetchState_def status_ok_def Let_def)

lemma optimistic_ok:
  assumes "client_ok c" and "sharing_ok opts"
  shows "result_ok (optimistic_result b opts c)"
proof -
  obtain i c1 where build: "cache_build opts c = (i, c1)" by force
  then have "client_ok c1" and "i < length (c_queries c1)"
    using cache_build_safe [OF assms] by (auto dest: safe_ok)
  then have "status_ok (q_state (c_queries c1 ! i))" using client_okD(1) by (simp add: query_ok_def)
  then show ?thesis
    by (simp add: optimistic_result_def build Let_def createResult_ok fetchState_ok)
qed

text \<open>C3. In every state the query client can reach, the result a component reads, also the one
  computed during a render, is consistent: a success has data, a pending one has none, and there is
  an error exactly in the error state.\<close>

theorem query_results_consistent:
  assumes "client_reachable c" and "b < length (c_observers c)" and "sharing_ok opts"
    and "r = ob_result (c_observers c ! b) \<or> r = optimistic_result b opts c"
  shows "(re_status r = StSuccess \<longrightarrow> re_data r \<noteq> VUndef) \<and> (re_status r = StPending \<longrightarrow> re_data r = VUndef) \<and>
    (re_status r = StError \<longleftrightarrow> re_error r \<noteq> None)"
  using client_okD(2) [OF reachable_ok [OF assms(1)] assms(2)] optimistic_ok [OF reachable_ok [OF assms(1)] assms(3)]
    assms(4)
  by (auto simp: observer_ok_def result_ok_def)

theorem query_results_consistent_witness:
  "let c = sample_with sq1 [srt] sob1 in isLoading (ob_result (c_observers c ! 0)) \<and> re_data (ob_result (c_observers c ! 0)) = VUndef"
proof -
  let ?c = "sample_with sq1 [srt] sob1"
  have "0 < length (c_observers ?c)" and sh: "sharing_ok so"
    and p: "isLoading (ob_result (c_observers ?c ! 0))"
    by (simp_all add: sharing_ok_def isLoading_def isPending_def isFetching_def sob1_def createResult_def)
  from query_results_consistent [OF sample_reachable this(1) sh disjI1 [OF refl]] p show ?thesis
    by (simp add: Let_def isLoading_def isPending_def)
qed

section \<open>Retries\<close>

text \<open>C16. One fetch calls the query function at most once more than the retry limit allows failures;
  with the application's options that is two requests, or one where retry is off.\<close>

theorem retries_bounded:
  assumes "client_reachable c" and "r < length (c_retryers c)" and "retry_limit (rt_retry (c_retryers c ! r)) = Some k"
  shows "rt_failures (c_retryers c ! r) \<le> k \<and> rt_calls (c_retryers c ! r) \<le> k + 1"
  using client_okD(3) [OF reachable_ok [OF assms(1)] assms(2)] assms(3)
  by (auto simp: retryer_ok_def retry_ok_def within_limit_def split: phase.splits)

lemma dispatch_env [simp]:
  "c_cache (dispatch i act c) = c_cache c" "c_now (dispatch i act c) = c_now c" "c_online (dispatch i act c) = c_online c"
  "c_focused (dispatch i act c) = c_focused c" "length (c_queries (dispatch i act c)) = length (c_queries c)"
  "length (c_observers (dispatch i act c)) = length (c_observers c)" "c_next (dispatch i act c) = c_next c"
proof -
  have "c_cache (fold onQueryUpdate bs c) = c_cache c \<and> c_now (fold onQueryUpdate bs c) = c_now c \<and>
      c_online (fold onQueryUpdate bs c) = c_online c \<and> c_focused (fold onQueryUpdate bs c) = c_focused c \<and>
      c_queries (fold onQueryUpdate bs c) = c_queries c \<and> c_next (fold onQueryUpdate bs c) = c_next c \<and>
      length (c_observers (fold onQueryUpdate bs c)) = length (c_observers c)" for bs c
    by (induction bs arbitrary: c)
      (simp_all add: onQueryUpdate_def updateResult_def updateTimers_def upd_observer_def Let_def)
  then show "c_cache (dispatch i act c) = c_cache c" "c_now (dispatch i act c) = c_now c" "c_online (dispatch i act c) = c_online c"
    "c_focused (dispatch i act c) = c_focused c" "length (c_queries (dispatch i act c)) = length (c_queries c)"
    "length (c_observers (dispatch i act c)) = length (c_observers c)" "c_next (dispatch i act c) = c_next c"
    by (simp_all add: dispatch_def upd_query_def Let_def)
qed

lemma srt_sel [simp]:
  "rt_query srt = 0" "rt_status srt = NotSettled" "rt_phase srt = Running" "rt_failures srt = 0" "\<not> rt_stopped srt"
  "rt_calls srt = 1" "\<not> rt_resumed srt" "rt_retry srt = Some (RetryNum 1)" "rt_mode srt = None" "rt_delay srt = None"
  by (simp_all add: srt_def new_retryer_def)

theorem retries_bounded_witness:
  "let c = handle (EWake 0) (handle (EAnswer 0 (Inr (FnError ''Network Error''))) (sample_with sq1 [srt] sob1))
   in rt_calls (c_retryers c ! 0) = 2 \<and> rt_failures (c_retryers c ! 0) \<le> 1 \<and> rt_calls (c_retryers c ! 0) \<le> 2"
proof -
  let ?e = "FnError ''Network Error''"
  let ?c1 = "handle (EAnswer 0 (Inr ?e)) (sample_with sq1 [srt] sob1)"
  let ?c = "handle (EWake 0) ?c1"
  have rts: "c_retryers ?c1 = [srt\<lparr>rt_failures := 1, rt_phase := Sleeping 1000 ?e\<rparr>]" and env: "c_online ?c1" "c_focused ?c1"
    by (simp_all add: rt_answer_def Let_def shouldRetry_def retry_delay_def defaultRetryDelay_def)
  have rts2: "c_retryers ?c = [srt\<lparr>rt_failures := 1, rt_phase := Running, rt_calls := 2\<rparr>]"
    using env rts by (simp add: rt_wake_def canContinue_def rt_run_def Let_def upd_retryer_def upd_query_def)
  have "client_step (sample_with sq1 [srt] sob1) ?c1" by (rule client_step.intros) simp
  moreover have "client_step ?c1 ?c" by (rule client_step.intros) (use rts in simp)
  ultimately have "client_reachable ?c" using sample_reachable by (blast intro: client_reachable.intros)
  moreover have "0 < length (c_retryers ?c)" "retry_limit (rt_retry (c_retryers ?c ! 0)) = Some 1"
    unfolding rts2 by (simp_all add: retry_limit_def)
  ultimately have "rt_failures (c_retryers ?c ! 0) \<le> 1 \<and> rt_calls (c_retryers ?c ! 0) \<le> 1 + 1"
    by (rule retries_bounded)
  then show ?thesis unfolding Let_def rts2 by simp
qed

section \<open>What happened before a clear stays outside the cache\<close>

text \<open>Only query \<open>i\<close> changes, and not the cache.\<close>

definition only :: "nat \<Rightarrow> client \<Rightarrow> client \<Rightarrow> bool" where
  "only i c c' = (c_cache c' = c_cache c \<and> (\<forall>j. j \<noteq> i \<longrightarrow> c_queries c' ! j = c_queries c ! j))"

lemma only_refl: "only i c c" by (simp add: only_def)
lemma only_trans: "only i a b \<Longrightarrow> only i b c \<Longrightarrow> only i a c" by (simp add: only_def)

lemma only_upd [simp]:
  "only i c (upd_query i f c)" "only i c (upd_retryer r g c)" "only i c (upd_observer b h c)"
  by (simp_all add: only_def upd_query_def upd_retryer_def upd_observer_def)

lemma dispatch_queries:
  "c_queries (dispatch i act c) = (c_queries c)[i := (c_queries c ! i)
     \<lparr>q_state := reducer (c_now c) (c_online c) (q_options (c_queries c ! i)) act (q_state (c_queries c ! i)),
      q_revert := reduce_revert act
        (reducer (c_now c) (c_online c) (q_options (c_queries c ! i)) act (q_state (c_queries c ! i)))
        (q_revert (c_queries c ! i))\<rparr>]"
proof -
  have "c_queries (fold onQueryUpdate bs c) = c_queries c" for bs c
    by (induction bs arbitrary: c)
      (simp_all add: onQueryUpdate_def updateResult_def updateTimers_def upd_observer_def Let_def)
  then show ?thesis by (simp add: dispatch_def upd_query_def Let_def)
qed

lemma only_dispatch [simp]: "only i c (dispatch i act c)"
  by (simp add: only_def dispatch_queries)

lemma only_dispatch_after: "only i c c' \<Longrightarrow> only i c (dispatch i act c')"
  by (auto intro: only_trans)

lemma only_reject: "only i c (rt_reject r e c)" and only_resolve: "only i c (rt_resolve r v c)"
  by (simp_all add: rt_reject_def rt_resolve_def only_refl)

lemma only_setData: "only i c (snd (setData i v t manual c))"
  by (auto simp: setData_def Let_def only_def dispatch_queries split: option.splits)

lemma only_failed: "only i c (fetch_failed i e c)"
  by (simp add: fetch_failed_def only_refl)

lemma upd_retryer_query:
  "\<forall>rt. rt_query (f rt) = rt_query rt \<Longrightarrow> rt_query (c_retryers (upd_retryer r f c) ! j) = rt_query (c_retryers c ! j)"
  by (cases "r < length (c_retryers c)"; cases "j = r") (simp_all add: upd_retryer_def list_update_beyond)

lemma only_finish: "only i c c' \<Longrightarrow> only i c (finish r c')"
  unfolding finish_def by (rule only_trans [OF _ only_upd(2)])

lemma only_run: "only (rt_query (c_retryers c ! r)) c (rt_run r c)"
  by (auto simp: rt_run_def Let_def only_finish only_refl intro: only_trans [OF only_upd(2) only_upd(1)])

lemma only_answer: "only (rt_query (c_retryers c ! r)) c (rt_answer r x c)"
  unfolding rt_answer_def Let_def
  by (auto simp: only_refl intro: only_finish only_resolve only_reject only_dispatch_after split: sum.splits)

lemma only_wake: "only (rt_query (c_retryers c ! r)) c (rt_wake r c)"
proof -
  have q: "rt_query (c_retryers (upd_retryer r (\<lambda>rt. rt\<lparr>rt_phase := ph\<rparr>) c) ! r) = rt_query (c_retryers c ! r)" for ph
    by (rule upd_retryer_query) simp
  show ?thesis
    unfolding rt_wake_def Let_def rt_pause_def
    by (auto simp: only_refl only_run intro: only_finish only_reject only_dispatch_after split: phase.splits)
qed

lemma only_resume: "only (rt_query (c_retryers c ! r)) c (fetch_resume r c)"
proof -
  let ?i = "rt_query (c_retryers c ! r)" and ?c0 = "upd_retryer r (\<lambda>rt. rt\<lparr>rt_resumed := True\<rparr>) c"
  have failed: "only ?i c (fetch_failed ?i e ?c0)" for e by (rule only_trans [OF only_upd(2) only_failed])
  have data: "only ?i c (snd (setData ?i v None False ?c0))" for v by (rule only_trans [OF only_upd(2) only_setData])
  have thrown: "only ?i c (fetch_failed ?i e (snd (setData ?i v None False ?c0)))" for e v
    by (rule only_trans [OF data only_failed])
  have "only ?i c (case rt_status (c_retryers c ! r) of
      NotSettled \<Rightarrow> ?c0
    | Fulfilled v \<Rightarrow> if v = VUndef then fetch_failed ?i DataUndefined ?c0
        else (case setData ?i v None False ?c0 of (None, c') \<Rightarrow> c' | (Some e, c') \<Rightarrow> fetch_failed ?i e c')
    | Rejected e \<Rightarrow> fetch_failed ?i e ?c0)"
    using failed data thrown by (auto split: settled.splits option.splits prod.splits) (metis snd_conv)+
  then show ?thesis unfolding fetch_resume_def Let_def by (rule only_trans) simp
qed

lemma destroy_cache: "c_cache (query_destroy i c) = c_cache c"
  by (simp add: query_destroy_def query_cancel_def rt_cancel_def rt_reject_def upd_query_def upd_retryer_def Let_def
      split: option.splits)

lemma cache_remove_head:
  assumes "c_cache c = (h, i) # xs" and "client_ok c"
  shows "c_cache (cache_remove i c) = xs"
proof -
  have "q_hash (c_queries c ! i) = h" and d: "h \<notin> fst ` set xs"
    using assms by (auto simp: client_ok_def cache_ok_def)
  moreover from d have "al_del xs h = xs" by (auto simp: al_del_def intro!: filter_True)
  ultimately show ?thesis
    using assms(1) by (simp add: cache_remove_def Let_def destroy_cache al_del_def)
qed

lemma cache_clear_empty: "client_ok c \<Longrightarrow> c_cache (cache_clear c) = []"
proof -
  have "c_cache (fold cache_remove (map snd xs) c) = []" if "c_cache c = xs" "client_ok c" for xs c
    using that
  proof (induction xs arbitrary: c)
    case (Cons x xs)
    obtain h i where x: "x = (h, i)" by force
    have "i < length (c_queries c)" using Cons.prems x by (auto simp: client_ok_def cache_ok_def)
    then have "client_ok (cache_remove i c)" using Cons.prems by (auto dest: cache_remove_safe safe_ok)
    with Cons.IH [of "cache_remove i c"] cache_remove_head [of c h i xs] Cons.prems x show ?case by simp
  qed simp
  then show "client_ok c \<Longrightarrow> c_cache (cache_clear c) = []" by (simp add: cache_clear_def getAll_def)
qed

text \<open>The state the cache holds for a hash.\<close>

definition cached_state :: "string option \<Rightarrow> client \<Rightarrow> qstate option" where
  "cached_state h c = map_option (\<lambda>i. q_state (c_queries c ! i)) (al_get (c_cache c) h)"

text \<open>C2. Clearing the cache (which the application does at sign out) separates what came before
  from what comes after: the cache is empty, and whatever happens next, an answer, a retry timer or
  a resumed fetch of a request that was begun before the clear changes nothing in the cache.\<close>

theorem clear_isolates:
  assumes "client_reachable c" and "rtranclp client_step (cache_clear c) c'"
    and "r < length (c_retryers (cache_clear c))" and "e = EAnswer r x \<or> e = EWake r \<or> e = EResume r"
  shows "c_cache (cache_clear c) = [] \<and> cached_state h (handle e c') = cached_state h c'"
proof -
  let ?c1 = "cache_clear c"
  have ok: "client_ok c" using assms(1) by (rule reachable_ok)
  have ok1: "client_ok ?c1" using safe_ok [OF cache_clear_safe [OF ok]] .
  have empty: "c_cache ?c1 = []" using ok by (rule cache_clear_empty)
  have grow: "grows ?c1 c'" using steps_safe [OF assms(2) ok1] by (simp add: safe_def)
  let ?i = "rt_query (c_retryers c' ! r)"
  have "?i < length (c_queries ?c1)"
    using grow assms(3) client_okD(3) [OF ok1 assms(3)] by (simp add: grows_def retryer_ok_def)
  moreover have "length (c_queries ?c1) \<le> j" if "al_get (c_cache c') h = Some j" for j
    using grow empty that unfolding grows_def by fastforce
  ultimately have "al_get (c_cache c') h \<noteq> Some ?i" by fastforce
  moreover have "only ?i c' (handle e c')"
    using assms(4) only_answer only_wake only_resume by auto
  ultimately have "cached_state h (handle e c') = cached_state h c'"
    by (auto simp: cached_state_def only_def intro!: option.map_cong)
  with empty show ?thesis by simp
qed

theorem clear_isolates_witness:
  "let c = sample_with sq1 [srt] sob1; c' = handle (EMount so) (cache_clear c)
   in c_cache (cache_clear c) = [] \<and> al_has (c_cache c') (o_hash so) \<and>
      cached_state (o_hash so) (handle (EResume 0) c') = cached_state (o_hash so) c'"
proof -
  let ?c = "sample_with sq1 [srt] sob1"
  let ?c' = "handle (EMount so) (cache_clear ?c)"
  have "client_step (cache_clear ?c) ?c'" by (rule client_step.intros) (simp add: sharing_ok_def)
  then have steps: "rtranclp client_step (cache_clear ?c) ?c'" by (rule r_into_rtranclp)
  have "0 < length (c_retryers ?c)" by simp
  then have "0 < length (c_retryers (cache_clear ?c))"
    using safe_retryers [OF cache_clear_safe [OF reachable_ok [OF sample_reachable]]] by blast
  from clear_isolates [OF sample_reachable steps this disjI2 [OF disjI2 [OF refl]]]
  have iso: "c_cache (cache_clear ?c) = [] \<and> cached_state (o_hash so) (handle (EResume 0) ?c') = cached_state (o_hash so) ?c'" .
  then have "c_cache ?c' = [(o_hash so, length (c_queries (cache_clear ?c)))]"
    by (simp add: new_observer_def cache_build_def Let_def query_setOptions_def updateResult_def upd_observer_def upd_query_def
        getDefaultState_def)
  with iso show ?thesis by (simp add: Let_def al_has_def)
qed

end
