(* ===== verification/QueryProgress.thy ===== *)
theory QueryProgress
  imports QueryFacts
begin

text \<open>
  The progress of the query library: what answers and timers alone bring about. Every fetch comes to
  an end when its retry limit exists, and what was mounted when the cache was cleared does not.
\<close>

section \<open>What is mounted at a clear waits for ever\<close>

text \<open>The events that need no component: answers, timers, focus and network.\<close>

definition late :: "event \<Rightarrow> bool" where
  "late e = (case e of EAnswer r x \<Rightarrow> True | EWake r \<Rightarrow> True | EResume r \<Rightarrow> True | EGc i \<Rightarrow> True | EStale b \<Rightarrow> True
     | ETick n \<Rightarrow> True | EFocus b \<Rightarrow> True | EOnline b \<Rightarrow> True | _ \<Rightarrow> False)"

definition rt_over :: "retryer \<Rightarrow> bool" where
  "rt_over rt = (rt_status rt = Rejected (Cancelled False True) \<or> (rt_status rt \<noteq> NotSettled \<and> rt_resumed rt))"

definition stranded :: "nat \<Rightarrow> client \<Rightarrow> bool" where
  "stranded i c = (c_cache c = [] \<and> s_fetch (q_state (c_queries c ! i)) \<noteq> FIdle \<and>
     list_all (\<lambda>rt. rt_query rt = i \<longrightarrow> rt_over rt) (c_retryers c) \<and>
     list_all (\<lambda>b. ob_query (c_observers c ! b) = i \<and> re_fetch (ob_result (c_observers c ! b)) \<noteq> FIdle)
       (q_observers (c_queries c ! i)))"

text \<open>Changes that leave it so.\<close>

definition keeps :: "nat \<Rightarrow> client \<Rightarrow> client \<Rightarrow> bool" where
  "keeps i c c' = ((c_cache c = [] \<longrightarrow> c_cache c' = []) \<and> length (c_retryers c') = length (c_retryers c) \<and>
     q_observers (c_queries c' ! i) = q_observers (c_queries c ! i) \<and>
     (s_fetch (q_state (c_queries c ! i)) \<noteq> FIdle \<longrightarrow> s_fetch (q_state (c_queries c' ! i)) \<noteq> FIdle) \<and>
     (\<forall>r. rt_query (c_retryers c' ! r) = rt_query (c_retryers c ! r) \<and>
        (rt_query (c_retryers c ! r) = i \<longrightarrow> rt_over (c_retryers c ! r) \<longrightarrow> rt_over (c_retryers c' ! r))) \<and>
     (\<forall>b. ob_query (c_observers c' ! b) = ob_query (c_observers c ! b) \<and>
        (s_fetch (q_state (c_queries c ! i)) \<noteq> FIdle \<longrightarrow> ob_query (c_observers c ! b) = i \<longrightarrow>
         re_fetch (ob_result (c_observers c ! b)) \<noteq> FIdle \<longrightarrow> re_fetch (ob_result (c_observers c' ! b)) \<noteq> FIdle)))"

lemma keeps_refl: "keeps i c c"
  by (simp add: keeps_def)

lemma keeps_trans: "keeps i a b \<Longrightarrow> keeps i b c \<Longrightarrow> keeps i a c"
  by (simp add: keeps_def)

lemma keeps_stranded: "keeps i c c' \<Longrightarrow> stranded i c \<Longrightarrow> stranded i c'"
  by (simp add: keeps_def stranded_def list_all_length list_all_iff)

lemma nth_update_cases: "xs[k := y] ! j = (if j = k \<and> k < length xs then y else xs ! j)"
  by (cases "j = k"; cases "k < length xs") (simp_all add: list_update_beyond)

lemma keeps_query:
  "\<forall>q. q_observers (f q) = q_observers q \<and> q_state (f q) = q_state q \<Longrightarrow> keeps i c (upd_query k f c)"
  by (simp add: keeps_def upd_query_def nth_update_cases)

lemma keeps_retryer:
  "\<forall>rt. rt_query (f rt) = rt_query rt \<and> (rt_over rt \<longrightarrow> rt_over (f rt)) \<Longrightarrow> keeps i c (upd_retryer r f c)"
  by (simp add: keeps_def upd_retryer_def nth_update_cases)

lemma keeps_retryer_other:
  "rt_query (c_retryers c ! r) \<noteq> i \<Longrightarrow> \<forall>rt. rt_query (f rt) = rt_query rt \<Longrightarrow> keeps i c (upd_retryer r f c)"
  by (simp add: keeps_def upd_retryer_def nth_update_cases)

lemma keeps_updateResult: "keeps i c (updateResult b c)"
  by (simp add: keeps_def updateResult_def upd_observer_def nth_update_cases Let_def createResult_def)

lemma keeps_onQueryUpdate: "keeps i c (onQueryUpdate b c)"
proof -
  have "keeps i c' (updateTimers b c')" for c'
    by (simp add: keeps_def updateTimers_def upd_observer_def nth_update_cases)
  from keeps_trans [OF keeps_updateResult this] show ?thesis
    unfolding onQueryUpdate_def Let_def using keeps_updateResult by simp
qed

lemma keeps_dispatch:
  assumes "k \<noteq> i \<or> act = APause"
  shows "keeps i c (dispatch k act c)"
proof -
  have fold: "keeps i c' (fold onQueryUpdate bs c')" for bs c'
    by (induction bs arbitrary: c') (auto simp: keeps_refl intro: keeps_trans keeps_onQueryUpdate)
  show ?thesis
    unfolding dispatch_def Let_def
    by (rule keeps_trans [OF _ fold]) (use assms in \<open>auto simp: keeps_def upd_query_def nth_update_cases\<close>)
qed

lemma rt_over_end: "rt_over rt \<Longrightarrow> rt_status rt \<noteq> NotSettled"
  by (auto simp: rt_over_def)

lemma end_pause_fields [simp]:
  "rt_query (end_pause c rt) = rt_query rt" "rt_status (end_pause c rt) = rt_status rt"
  "rt_resumed (end_pause c rt) = rt_resumed rt"
  by (simp_all add: end_pause_def split: phase.splits)

lemma phase_over [simp]: "rt_over (rt\<lparr>rt_phase := p\<rparr>) = rt_over rt"
  by (simp add: rt_over_def)

lemma keeps_settle_other:
  assumes "rt_query (c_retryers c ! r) \<noteq> i"
  shows "keeps i c (rt_reject r e c)" "keeps i c (rt_resolve r v c)"
  using assms by (auto simp: rt_reject_def rt_resolve_def keeps_refl intro!: keeps_retryer_other)

lemma settled_noop:
  "rt_status (c_retryers c ! r) \<noteq> NotSettled \<Longrightarrow> rt_reject r e c = c"
  "rt_status (c_retryers c ! r) \<noteq> NotSettled \<Longrightarrow> rt_resolve r v c = c"
  by (simp_all add: rt_reject_def rt_resolve_def)



lemma keeps_failed_other: "rt_query (c_retryers c ! r) \<noteq> i \<Longrightarrow> keeps i c (fetch_failed (rt_query (c_retryers c ! r)) e c)"
  by (simp add: fetch_failed_def keeps_refl keeps_dispatch)

lemma keeps_clock: "keeps i c (c\<lparr>c_now := n\<rparr>)" "keeps i c (c\<lparr>c_next := n\<rparr>)" "keeps i c (c\<lparr>c_focused := b\<rparr>)" "keeps i c (c\<lparr>c_online := b\<rparr>)"
  by (simp_all add: keeps_def)

lemma keeps_setData_other: "k \<noteq> i \<Longrightarrow> keeps i c (snd (setData k v t m c))"
  unfolding setData_def Let_def
  by (auto simp: keeps_refl split: option.splits intro: keeps_trans [OF keeps_clock(2) keeps_dispatch])

lemma keeps_finish: "keeps i c (finish r c)"
  by (simp add: finish_def keeps_retryer)

lemma keeps_run:
  assumes "rt_query (c_retryers c ! r) = i \<longrightarrow> rt_over (c_retryers c ! r)"
  shows "keeps i c (rt_run r c)"
proof (cases "rt_status (c_retryers c ! r) = NotSettled")
  case True
  with assms have "rt_query (c_retryers c ! r) \<noteq> i" using rt_over_end by blast
  with True show ?thesis
    unfolding rt_run_def Let_def
    by (auto intro!: keeps_trans [OF keeps_retryer_other keeps_query])
next
  case False
  then show ?thesis by (simp add: rt_run_def Let_def keeps_finish)
qed

lemma keeps_wake:
  assumes "rt_query (c_retryers c ! r) = i \<longrightarrow> rt_over (c_retryers c ! r)"
  shows "keeps i c (rt_wake r c)"
proof -
  have phase: "keeps i c (upd_retryer r (\<lambda>rt. rt\<lparr>rt_phase := p\<rparr>) c)" for p
    by (simp add: keeps_retryer)
  have pause: "keeps i c (rt_pause r p c)" for p
    unfolding rt_pause_def by (rule keeps_trans [OF phase keeps_dispatch]) simp
  have "keeps i c (rt_reject r e c)" for e
  proof (cases "rt_query (c_retryers c ! r) = i")
    case True
    with assms have "rt_status (c_retryers c ! r) \<noteq> NotSettled" using rt_over_end by blast
    then show ?thesis by (simp add: settled_noop keeps_refl)
  qed (rule keeps_settle_other(1))
  note reject = keeps_trans [OF this keeps_finish]
  show ?thesis
    unfolding rt_wake_def Let_def using pause reject keeps_run [OF assms]
    by (auto simp: keeps_refl split: phase.splits)
qed

lemma keeps_answer:
  assumes "rt_query (c_retryers c ! r) = i \<longrightarrow> rt_over (c_retryers c ! r)"
  shows "keeps i c (rt_answer r x c)"
proof -
  show ?thesis
  proof (cases "rt_status (c_retryers c ! r) = NotSettled")
    case False
    then show ?thesis
      by (auto simp: rt_answer_def Let_def settled_noop keeps_finish split: sum.splits)
  next
    case True
    with assms have other: "rt_query (c_retryers c ! r) \<noteq> i" using rt_over_end by blast
    note settle = keeps_trans [OF keeps_settle_other(1) [OF this] keeps_finish]
      keeps_trans [OF keeps_settle_other(2) [OF this] keeps_finish]
    show ?thesis
      unfolding rt_answer_def Let_def using True other settle
      by (auto split: sum.splits intro!: keeps_trans [OF keeps_retryer_other keeps_dispatch])
  qed
qed

lemma keeps_resume:
  assumes over: "rt_query (c_retryers c ! r) = i \<longrightarrow> rt_over (c_retryers c ! r)"
    and "possible c (EResume r)"
  shows "keeps i c (fetch_resume r c)"
proof -
  let ?i = "rt_query (c_retryers c ! r)" and ?c0 = "upd_retryer r (\<lambda>rt. rt\<lparr>rt_resumed := True\<rparr>) c"
  have c0: "keeps i c ?c0" by (rule keeps_retryer) (auto simp: rt_over_def)
  have failed: "?i \<noteq> i \<Longrightarrow> keeps i c' (fetch_failed ?i e c')" for e c'
    by (simp add: fetch_failed_def keeps_refl keeps_dispatch)
  have silent: "?i = i \<Longrightarrow> rt_status (c_retryers c ! r) = Rejected (Cancelled False True)"
    using over assms(2) by (auto simp: rt_over_def)
  have c1: "keeps i c (case rt_status (c_retryers c ! r) of
      NotSettled \<Rightarrow> ?c0
    | Fulfilled v \<Rightarrow> if v = VUndef then fetch_failed ?i DataUndefined ?c0
        else (case setData ?i v None False ?c0 of (None, c') \<Rightarrow> c' | (Some e, c') \<Rightarrow> fetch_failed ?i e c')
    | Rejected e \<Rightarrow> fetch_failed ?i e ?c0)"
  proof (cases "?i = i")
    case True
    then show ?thesis using silent c0 by (simp add: fetch_failed_def e_silent_def)
  next
    case False
    have data: "keeps i c (snd (setData ?i v None False ?c0))" for v
      by (rule keeps_trans [OF c0 keeps_setData_other [OF False]])
    then show ?thesis
      using c0 False failed keeps_trans by (auto split: settled.splits option.splits prod.splits) (metis snd_conv)+
  qed
  show ?thesis
    unfolding fetch_resume_def Let_def
    by (rule keeps_trans [OF c1 keeps_query]) (simp add: scheduleGc_def)
qed

lemma remove_empty: "c_cache c = [] \<Longrightarrow> cache_remove i c = c"
  by (simp add: cache_remove_def Let_def)

lemma keeps_late:
  assumes "stranded i c" and "late e" and "possible c e"
  shows "keeps i c (handle e c)"
proof -
  have over: "rt_query (c_retryers c ! r) = i \<longrightarrow> rt_over (c_retryers c ! r)" if "r < length (c_retryers c)" for r
    using assms(1) that by (simp add: stranded_def list_all_length)
  have empty: "c_cache c = []" using assms(1) by (simp add: stranded_def)
  show ?thesis
  proof (cases e)
    case (EGc k)
    have gc: "keeps i c (upd_query k clearGcTimeout c)"
      by (rule keeps_query) (simp add: clearGcTimeout_def)
    have "c_cache (upd_query k clearGcTimeout c) = []" using empty by (simp add: upd_query_def)
    with EGc gc show ?thesis by (simp add: gc_timer_def optionalRemove_def Let_def remove_empty)
  next
    case (EStale b)
    have "keeps i c (upd_observer b (\<lambda>ob. ob\<lparr>ob_timer := False\<rparr>) c)"
      by (simp add: keeps_def upd_observer_def nth_update_cases)
    from this keeps_trans [OF this keeps_updateResult] EStale show ?thesis by (simp add: stale_timer_def Let_def)
  qed (use assms over empty keeps_clock in \<open>auto simp: late_def set_focused_def set_online_def Let_def getAll_def keeps_refl
      intro: keeps_answer keeps_wake keeps_resume\<close>)
qed

lemma keeps_cancel_silent: "keeps i c (rt_cancel r False True c)"
  by (simp add: rt_cancel_def rt_reject_def Let_def keeps_refl) (simp add: keeps_retryer rt_over_def)

lemma keeps_remove: "keeps i c (cache_remove k c)"
proof -
  have "keeps i c (query_destroy k c)"
    unfolding query_destroy_def query_cancel_def
    by (rule keeps_trans [OF keeps_query [where f = clearGcTimeout and k = k]])
      (auto simp: clearGcTimeout_def keeps_refl keeps_cancel_silent split: option.split)
  moreover from this have "keeps i c ((query_destroy k c)\<lparr>c_cache := al_del (c_cache (query_destroy k c)) h\<rparr>)" for h
    by (simp add: keeps_def al_del_def)
  ultimately show ?thesis by (auto simp: cache_remove_def Let_def keeps_refl split: option.split)
qed

lemma keeps_clear: "keeps i c (cache_clear c)"
proof -
  have "keeps i c (fold cache_remove js c)" for js c
    by (induction js arbitrary: c) (auto simp: keeps_refl intro: keeps_trans keeps_remove)
  then show ?thesis by (simp add: cache_clear_def)
qed

text \<open>What a retrier of a removed query comes to: settled silently.\<close>

definition rt_open :: "retryer \<Rightarrow> bool" where
  "rt_open rt = (rt_status rt = NotSettled \<or> rt_over rt)"

lemma cancel_open:
  "rt_open (c_retryers c ! r) \<Longrightarrow> rt_open (c_retryers (rt_cancel k False True c) ! r)"
  by (auto simp: rt_cancel_def rt_reject_def rt_open_def rt_over_def Let_def upd_retryer_def nth_update_cases)

lemma cancel_over:
  "r < length (c_retryers c) \<Longrightarrow> rt_open (c_retryers c ! r) \<Longrightarrow> rt_over (c_retryers (rt_cancel r False True c) ! r)"
  by (auto simp: rt_cancel_def rt_reject_def rt_open_def rt_over_def Let_def upd_retryer_def)

lemma cancel_queries [simp]: "c_queries (rt_cancel k False True c) = c_queries c"
  by (simp add: rt_cancel_def rt_reject_def Let_def upd_retryer_def)

lemma destroy_retryer: "q_retryer (c_queries (query_destroy k c) ! i) = q_retryer (c_queries c ! i)"
  by (simp add: query_destroy_def query_cancel_def upd_query_def clearGcTimeout_def nth_update_cases split: option.split)

lemma destroy_open:
  "rt_open (c_retryers c ! r) \<Longrightarrow> rt_open (c_retryers (query_destroy k c) ! r)"
  by (simp add: query_destroy_def query_cancel_def upd_query_def cancel_open split: option.split)

lemma destroy_over:
  assumes "r < length (c_retryers c)" "rt_open (c_retryers c ! r)" "q_retryer (c_queries c ! i) = Some r" "i < length (c_queries c)"
  shows "rt_over (c_retryers (query_destroy i c) ! r)"
  using assms by (simp add: query_destroy_def query_cancel_def upd_query_def clearGcTimeout_def cancel_over)

lemma cache_remove_first:
  assumes "c_cache c = (h, i) # xs" and "client_ok c"
  shows "c_queries (cache_remove i c) = c_queries (query_destroy i c)"
    and "c_retryers (cache_remove i c) = c_retryers (query_destroy i c)"
proof -
  have "q_hash (c_queries c ! i) = h" using assms by (auto simp: client_ok_def cache_ok_def)
  with assms(1) show "c_queries (cache_remove i c) = c_queries (query_destroy i c)"
    and "c_retryers (cache_remove i c) = c_retryers (query_destroy i c)"
    by (simp_all add: cache_remove_def Let_def)
qed

lemma clear_over:
  assumes "client_ok c" "i \<in> set (getAll c)" "q_retryer (c_queries c ! i) = Some r" "rt_open (c_retryers c ! r)"
  shows "rt_over (c_retryers (cache_clear c) ! r)"
proof -
  have fold: "rt_over (c_retryers (fold cache_remove js c) ! r)" if "rt_over (c_retryers c ! r)" for js c
    using that
  proof (induction js arbitrary: c)
    case (Cons j js)
    have "keeps (rt_query (c_retryers c ! r)) c (cache_remove j c)" by (rule keeps_remove)
    with Cons show ?case by (simp add: keeps_def)
  qed simp
  have "rt_over (c_retryers (fold cache_remove (map snd xs) c) ! r)"
    if "c_cache c = xs" "client_ok c" "i \<in> snd ` set xs" "q_retryer (c_queries c ! i) = Some r" "rt_open (c_retryers c ! r)" for xs c
    using that
  proof (induction xs arbitrary: c)
    case (Cons x xs)
    obtain h j where x: "x = (h, j)" by force
    with Cons.prems have c: "c_cache c = (h, j) # xs" by simp
    note first = cache_remove_first [OF c \<open>client_ok c\<close>]
    have j: "j < length (c_queries c)" using Cons.prems x by (auto simp: client_ok_def cache_ok_def)
    then have ok: "client_ok (cache_remove j c)" using Cons.prems by (auto dest: cache_remove_safe safe_ok)
    show ?case
    proof (cases "j = i")
      case True
      have "r < length (c_retryers c)" using query_retryer [OF \<open>client_ok c\<close> j] Cons.prems True by simp
      then have "rt_over (c_retryers (query_destroy j c) ! r)"
        using destroy_over [of r c j] Cons.prems True j by simp
      then have "rt_over (c_retryers (cache_remove j c) ! r)" by (simp only: first)
      from fold [OF this] show ?thesis by (simp add: x)
    next
      case False
      with Cons.prems x have "i \<in> snd ` set xs" by auto
      with Cons.IH [of "cache_remove j c"] ok cache_remove_head [OF c \<open>client_ok c\<close>] Cons.prems
      show ?thesis by (simp add: x first destroy_retryer destroy_open)
    qed
  qed simp
  from this [OF refl assms(1)] assms(2-4) show ?thesis by (simp add: cache_clear_def getAll_def)
qed

text \<open>What happens with no component acting.\<close>

inductive late_step :: "client \<Rightarrow> client \<Rightarrow> bool" where
  "possible c e \<Longrightarrow> late e \<Longrightarrow> late_step c (handle e c)"

lemma late_steps_stranded: "rtranclp late_step c c' \<Longrightarrow> stranded i c \<Longrightarrow> keeps i c c'"
proof (induction rule: rtranclp_induct)
  case (step y z)
  then have "keeps i y z" by (auto elim!: late_step.cases intro!: keeps_late dest: keeps_stranded)
  with step show ?case using keeps_trans by blast
qed (rule keeps_refl)

text \<open>C27. Clearing the cache while a component waits for data (the application clears it whenever the
  session ends) leaves that component waiting: if its request is still out, then no answer, timer,
  focus or network event ever ends its loading, until the component itself is rendered again. The
  clear cancels the request silently, so nothing is dispatched to the query the component holds.\<close>

theorem clear_strands_mounted:
  assumes "client_reachable c" and "i \<in> set (getAll c)" and "s_fetch (q_state (c_queries c ! i)) \<noteq> FIdle"
    and "q_retryer (c_queries c ! i) = Some r" and "rt_status (c_retryers c ! r) = NotSettled"
    and "list_all (\<lambda>k. rt_query (c_retryers c ! k) = i \<longrightarrow> k \<noteq> r \<longrightarrow> rt_over (c_retryers c ! k)) [0..<length (c_retryers c)]"
    and "list_all (\<lambda>b. ob_query (c_observers c ! b) = i \<and> re_fetch (ob_result (c_observers c ! b)) \<noteq> FIdle)
           (q_observers (c_queries c ! i))"
    and "rtranclp late_step (cache_clear c) c'"
  shows "s_fetch (q_state (c_queries c' ! i)) \<noteq> FIdle \<and> q_observers (c_queries c' ! i) = q_observers (c_queries c ! i) \<and>
    list_all (\<lambda>b. re_fetch (ob_result (c_observers c' ! b)) \<noteq> FIdle) (q_observers (c_queries c' ! i))"
proof -
  have ok: "client_ok c" using assms(1) by (rule reachable_ok)
  have keep: "keeps i c (cache_clear c)" by (rule keeps_clear)
  have r: "rt_over (c_retryers (cache_clear c) ! r)"
    using clear_over [OF ok assms(2,4)] assms(5) by (simp add: rt_open_def)
  have "rt_over (c_retryers (cache_clear c) ! k)"
    if "k < length (c_retryers (cache_clear c))" "rt_query (c_retryers (cache_clear c) ! k) = i" for k
    using that keep r assms(6) by (cases "k = r") (simp_all add: keeps_def list_all_length)
  then have "stranded i (cache_clear c)"
    using keep assms(3,7) cache_clear_empty [OF ok] by (simp add: stranded_def keeps_def list_all_length)
  note this late_steps_stranded [OF assms(8) this]
  then have "stranded i c'" and "keeps i (cache_clear c) c'" using keeps_stranded by blast+
  then show ?thesis using keep by (simp add: stranded_def keeps_def list_all_length)
qed

theorem clear_strands_mounted_witness:
  "let c = sample_with sq1 [srt] sob1; c' = handle (EResume 0) (cache_clear c)
   in late_step (cache_clear c) c' \<and> re_fetch (ob_result (c_observers c' ! 0)) = Fetching"
proof -
  let ?c = "sample_with sq1 [srt] sob1"
  let ?c' = "handle (EResume 0) (cache_clear ?c)"
  have q: "q_retryer sq1 = Some 0" and s: "s_fetch (q_state sq1) = Fetching" and b: "q_observers sq1 = [0]"
    by (simp_all add: sq1_def ss1_def)
  have rt: "rt_status srt = NotSettled" "rt_resumed srt = False" "rt_query srt = 0" by (simp_all add: srt_def new_retryer_def)
  have ob: "ob_query sob1 = 0" "re_fetch (ob_result sob1) = Fetching"
    by (simp_all add: sob1_def sob0_def createResult_def ss1_def)
  have clear: "c_retryers (cache_clear ?c) = [srt\<lparr>rt_status := Rejected (Cancelled False True)\<rparr>]"
    and obs: "c_observers (cache_clear ?c) = [sob1]"
    by (simp_all add: cache_clear_def getAll_def sample_with_def cache_remove_def Let_def query_destroy_def query_cancel_def
        upd_query_def clearGcTimeout_def q rt_cancel_def rt_reject_def rt upd_retryer_def end_pause_def)
      (simp_all add: srt_def sq1_def sq0_def new_query_def Let_def scheduleGc_def updateGcTime_def)
  have step: "late_step (cache_clear ?c) ?c'"
    by (rule late_step.intros) (simp_all add: clear rt late_def)
  have "s_fetch (q_state (c_queries ?c' ! 0)) \<noteq> FIdle \<and> q_observers (c_queries ?c' ! 0) = q_observers (c_queries ?c ! 0) \<and>
    list_all (\<lambda>b. re_fetch (ob_result (c_observers ?c' ! b)) \<noteq> FIdle) (q_observers (c_queries ?c' ! 0))"
    by (rule clear_strands_mounted [OF sample_reachable, where i = 0 and r = 0 and c' = ?c'])
      (use step in \<open>auto simp: getAll_def sample_with_def q s b rt ob\<close>)
  then have "re_fetch (ob_result (c_observers ?c' ! 0)) \<noteq> FIdle" by (auto simp: b list_all_iff simp del: handle.simps)
  moreover have "c_observers ?c' = [sob1]"
    by (simp add: fetch_resume_def clear Let_def rt fetch_failed_def e_silent_def upd_query_def upd_retryer_def obs)
  ultimately show ?thesis using step ob by (simp add: Let_def)
qed

section \<open>What is under way comes to an end\<close>

text \<open>The events that are under way by themselves: answers, retry timers, fetches that run on.\<close>

definition own :: "event \<Rightarrow> bool" where
  "own e = (case e of EAnswer r x \<Rightarrow> True | EWake r \<Rightarrow> True | EResume r \<Rightarrow> True | _ \<Rightarrow> False)"

inductive own_step :: "client \<Rightarrow> client \<Rightarrow> bool" where
  "possible c e \<Longrightarrow> own e \<Longrightarrow> own_step c (handle e c)"

definition limited :: "client \<Rightarrow> bool" where
  "limited c = list_all (\<lambda>rt. retry_limit (rt_retry rt) \<noteq> None) (c_retryers c)"

text \<open>A bound on the events a retrier can still take part in.\<close>

definition rt_work :: "retryer \<Rightarrow> nat" where
  "rt_work rt = 3 * ((case retry_limit (rt_retry rt) of None \<Rightarrow> 0 | Some k \<Rightarrow> k) - rt_failures rt) +
     (case rt_phase rt of Running \<Rightarrow> 3 | Sleeping d e \<Rightarrow> 4 | PausedRetry e \<Rightarrow> 1 | _ \<Rightarrow> 0) +
     (if rt_resumed rt then 0 else 1)"

definition work :: "client \<Rightarrow> nat" where
  "work c = sum_list (map rt_work (c_retryers c))"

definition at_rest :: "retryer \<Rightarrow> bool" where
  "at_rest rt = (case rt_phase rt of
       Done \<Rightarrow> rt_status rt \<noteq> NotSettled \<and> rt_resumed rt
     | PausedStart \<Rightarrow> rt_status rt = NotSettled \<or> rt_resumed rt
     | PausedRetry e \<Rightarrow> rt_status rt = NotSettled \<or> rt_resumed rt
     | _ \<Rightarrow> False)"

definition lowers :: "nat \<Rightarrow> client \<Rightarrow> client \<Rightarrow> bool" where
  "lowers r c c' = (\<exists>rt. c_retryers c' = (c_retryers c)[r := rt] \<and> rt_retry rt = rt_retry (c_retryers c ! r) \<and>
     rt_work rt < rt_work (c_retryers c ! r))"

lemma lowers_work:
  assumes "lowers r c c'" and "r < length (c_retryers c)" and "limited c"
  shows "work c' < work c \<and> limited c'"
proof -
  obtain rt where rt: "c_retryers c' = (c_retryers c)[r := rt]" "rt_retry rt = rt_retry (c_retryers c ! r)"
      "rt_work rt < rt_work (c_retryers c ! r)"
    using assms(1) by (auto simp: lowers_def)
  have "rt_work (c_retryers c ! r) \<le> sum_list (map rt_work (c_retryers c))"
    using assms(2) by (intro member_le_sum_list) auto
  with rt assms(2) have "work c' < work c"
    by (simp add: work_def map_update sum_list_update)
  moreover have "limited c'"
    using assms(2,3) rt(1,2) by (auto simp: limited_def list_all_length nth_list_update)
  ultimately show ?thesis ..
qed

lemma retryers_frame [simp]:
  "c_retryers (upd_query i f c) = c_retryers c" "c_retryers (snd (setData k v t m c)) = c_retryers c"
  "c_retryers (fetch_failed k e c) = c_retryers c"
  by (auto simp: upd_query_def setData_def fetch_failed_def Let_def split: option.split)

lemma lowersI:
  "c_retryers c' = (c_retryers c)[r := rt] \<Longrightarrow> rt_retry rt = rt_retry (c_retryers c ! r) \<Longrightarrow>
   rt_work rt < rt_work (c_retryers c ! r) \<Longrightarrow> lowers r c c'"
  by (auto simp: lowers_def)

definition settling :: "settled \<Rightarrow> client \<Rightarrow> retryer \<Rightarrow> retryer" where
  "settling s c rt = (if rt_status rt = NotSettled then (end_pause c rt)\<lparr>rt_status := s\<rparr> else rt)"

lemma settle_retryers:
  "c_retryers (rt_resolve r v c) = (c_retryers c)[r := settling (Fulfilled v) c (c_retryers c ! r)]"
  "c_retryers (rt_reject r e c) = (c_retryers c)[r := settling (Rejected e) c (c_retryers c ! r)]"
  by (simp_all add: rt_resolve_def rt_reject_def settling_def upd_retryer_def)

lemma finish_retryers: "c_retryers (finish r c) = (c_retryers c)[r := (c_retryers c ! r)\<lparr>rt_phase := Done\<rparr>]"
  by (simp add: finish_def upd_retryer_def)

lemma settle_fields [simp]:
  "rt_retry (settling s c rt) = rt_retry rt" "rt_failures (settling s c rt) = rt_failures rt" "rt_resumed (settling s c rt) = rt_resumed rt"
  by (simp_all add: settling_def end_pause_def split: phase.splits)

lemma lowers_done:
  assumes "c_retryers c' = (c_retryers c)[r := rt\<lparr>rt_phase := Done\<rparr>]" and "r < length (c_retryers c)"
    and "rt_retry rt = rt_retry (c_retryers c ! r)" "rt_failures rt = rt_failures (c_retryers c ! r)"
      "rt_resumed rt = rt_resumed (c_retryers c ! r)"
    and "rt_phase (c_retryers c ! r) = Running \<or> (\<exists>d e. rt_phase (c_retryers c ! r) = Sleeping d e)"
  shows "lowers r c c'"
  using assms(1) by (rule lowersI) (use assms(3-) in \<open>auto simp: rt_work_def\<close>)

lemma lowers_finish:
  assumes "r < length (c_retryers c)"
    and "rt_phase (c_retryers c ! r) = Running \<or> (\<exists>d e. rt_phase (c_retryers c ! r) = Sleeping d e)"
  shows "lowers r c (finish r c)" "lowers r c (finish r (rt_resolve r v c))" "lowers r c (finish r (rt_reject r e c))"
proof -
  show "lowers r c (finish r c)" by (rule lowers_done [OF finish_retryers]) (use assms in simp_all)
  show "lowers r c (finish r (rt_resolve r v c))"
    by (rule lowers_done [where rt = "settling (Fulfilled v) c (c_retryers c ! r)"])
      (use assms in \<open>simp_all add: finish_retryers settle_retryers\<close>)
  show "lowers r c (finish r (rt_reject r e c))"
    by (rule lowers_done [where rt = "settling (Rejected e) c (c_retryers c ! r)"])
      (use assms in \<open>simp_all add: finish_retryers settle_retryers\<close>)
qed

lemma lowers_answer:
  assumes "possible c (EAnswer r x)" and "limited c"
  shows "lowers r c (rt_answer r x c)"
proof -
  let ?rt = "c_retryers c ! r"
  have r: "r < length (c_retryers c)" "rt_phase ?rt = Running" using assms(1) by simp_all
  obtain k where k: "retry_limit (rt_retry ?rt) = Some k" using assms(2) r by (auto simp: limited_def list_all_length)
  have less: "rt_failures ?rt < k" if "shouldRetry ?rt e" for e
    using that k by (auto simp: shouldRetry_def retry_limit_def split: option.splits retry_option.splits bool.splits)
  have again: "lowers r c (dispatch i a (upd_retryer r (\<lambda>rt'. rt'\<lparr>rt_failures := rt_failures ?rt + 1, rt_phase := Sleeping d e\<rparr>) c))"
    if "shouldRetry ?rt e" for i a d e
    by (rule lowersI [where rt = "?rt\<lparr>rt_failures := rt_failures ?rt + 1, rt_phase := Sleeping d e\<rparr>"])
      (use less [OF that] k r in \<open>simp_all add: upd_retryer_def rt_work_def\<close>)
  show ?thesis
  proof (cases x)
    case (Inr e)
    then show ?thesis
      using lowers_finish [OF r(1) disjI1 [OF r(2)]] again [of e] by (simp add: rt_answer_def Let_def)
  qed (use lowers_finish [OF r(1) disjI1 [OF r(2)]] in \<open>simp add: rt_answer_def Let_def\<close>)
qed

lemma lowers_wake:
  assumes "possible c (EWake r)"
  shows "lowers r c (rt_wake r c)"
proof -
  let ?rt = "c_retryers c ! r"
  obtain d e where r: "r < length (c_retryers c)" and p: "rt_phase ?rt = Sleeping d e"
    using assms by (auto split: phase.splits)
  then have asleep: "rt_phase ?rt = Running \<or> (\<exists>d e. rt_phase ?rt = Sleeping d e)" by simp
  have pause: "lowers r c (rt_pause r (PausedRetry e) c)"
    by (rule lowersI [where rt = "?rt\<lparr>rt_phase := PausedRetry e\<rparr>"])
      (use p in \<open>simp_all add: rt_pause_def upd_retryer_def rt_work_def\<close>)
  have run: "lowers r c (rt_run r c)"
  proof (cases "rt_status ?rt = NotSettled")
    case True
    show ?thesis
      by (rule lowersI [where rt = "?rt\<lparr>rt_phase := Running, rt_calls := rt_calls ?rt + 1\<rparr>"])
        (use p True in \<open>simp_all add: rt_run_def Let_def upd_retryer_def rt_work_def\<close>)
  qed (simp add: rt_run_def Let_def lowers_finish(1) [OF r asleep])
  show ?thesis
    using pause run lowers_finish(3) [OF r asleep] by (simp add: rt_wake_def Let_def p)
qed

lemma resume_retryers: "c_retryers (fetch_resume r c) = (c_retryers c)[r := (c_retryers c ! r)\<lparr>rt_resumed := True\<rparr>]"
proof -
  let ?c0 = "upd_retryer r (\<lambda>rt. rt\<lparr>rt_resumed := True\<rparr>) c"
  have "c_retryers (case setData i v None False ?c0 of (None, c') \<Rightarrow> c' | (Some e, c') \<Rightarrow> fetch_failed i e c') = c_retryers ?c0" for i v
    using retryers_frame(2) [of i v None False ?c0] by (cases "setData i v None False ?c0") (auto split: option.split)
  then have "c_retryers (fetch_resume r c) = c_retryers ?c0"
    unfolding fetch_resume_def Let_def by (simp split: settled.split)
  then show ?thesis by (simp add: upd_retryer_def)
qed

lemma lowers_resume: "possible c (EResume r) \<Longrightarrow> lowers r c (fetch_resume r c)"
  by (rule lowersI [OF resume_retryers]) (simp_all add: rt_work_def)

lemma own_step_lowers:
  assumes "own_step c c'" and "client_ok c" and "limited c"
  shows "work c' < work c \<and> limited c' \<and> client_ok c'"
proof -
  obtain e where e: "possible c e" "own e" "c' = handle e c" using assms(1) by (auto elim: own_step.cases)
  then obtain r where r: "r < length (c_retryers c)" and "(\<exists>x. e = EAnswer r x) \<or> e = EWake r \<or> e = EResume r"
    by (cases e) (auto simp: own_def)
  then have "lowers r c c'"
    using e lowers_answer lowers_wake lowers_resume assms(3) by auto
  with r assms e show ?thesis using lowers_work handle_safe safe_ok by blast
qed

lemma own_steps_lower:
  "(own_step ^^ n) c c' \<Longrightarrow> client_ok c \<Longrightarrow> limited c \<Longrightarrow> work c' + n \<le> work c \<and> limited c' \<and> client_ok c'"
proof (induction n arbitrary: c')
  case (Suc n)
  then obtain d where "(own_step ^^ n) c d" and step: "own_step d c'" by auto
  with Suc have "work d + n \<le> work c \<and> limited d \<and> client_ok d" by blast
  with own_step_lowers [OF step] show ?case by auto
qed simp

text \<open>C5. Requests come to an end: when the retry options give a limit, at most \<open>work c\<close> answers, retry
  timers and resumed fetches can follow one another before nothing is under way any more, and then
  every request is settled with its result handed on, or it waits for the network or for focus.\<close>

theorem requests_come_to_rest:
  assumes "client_reachable c" and "limited c" and "(own_step ^^ n) c c'"
  shows "n \<le> work c \<and> ((\<forall>e. own e \<longrightarrow> \<not> possible c' e) \<longrightarrow> list_all at_rest (c_retryers c'))"
proof -
  have run: "work c' + n \<le> work c \<and> limited c' \<and> client_ok c'"
    using own_steps_lower [OF assms(3) reachable_ok [OF assms(1)] assms(2)] .
  have "at_rest (c_retryers c' ! r)" if "\<forall>e. own e \<longrightarrow> \<not> possible c' e" and r: "r < length (c_retryers c')" for r
  proof -
    have "own (EAnswer r (Inl VNull))" "own (EWake r)" "own (EResume r)" by (simp_all add: own_def)
    with that(1) have "\<not> possible c' (EAnswer r (Inl VNull))" "\<not> possible c' (EWake r)" "\<not> possible c' (EResume r)"
      by blast+
    moreover have "retry_ok (c_retryers c' ! r)" using client_okD(3) r run by (simp add: retryer_ok_def)
    ultimately show ?thesis using r by (auto simp: at_rest_def retry_ok_def split: phase.splits)
  qed
  with run show ?thesis by (simp add: list_all_length)
qed

theorem requests_come_to_rest_witness:
  "let c = sample_with sq1 [srt] sob1; c' = handle (EWake 0) (handle (EAnswer 0 (Inr (FnError ''Network Error''))) c)
   in (own_step ^^ 2) c c' \<and> 2 \<le> work c \<and> work c = 7"
proof -
  let ?c = "sample_with sq1 [srt] sob1" and ?e = "FnError ''Network Error''"
  let ?c1 = "handle (EAnswer 0 (Inr ?e)) ?c"
  have rts: "c_retryers ?c1 = [srt\<lparr>rt_failures := 1, rt_phase := Sleeping 1000 ?e\<rparr>]"
    by (simp add: rt_answer_def Let_def shouldRetry_def retry_delay_def defaultRetryDelay_def)
  have "own_step ?c ?c1" by (rule own_step.intros) (simp_all add: own_def)
  moreover have "own_step ?c1 (handle (EWake 0) ?c1)"
    by (rule own_step.intros) (use rts in \<open>simp_all add: own_def\<close>)
  ultimately have steps: "(own_step ^^ 2) ?c (handle (EWake 0) ?c1)"
    by (auto simp: numeral_2_eq_2 simp del: handle.simps)
  have "limited ?c" by (simp add: limited_def retry_limit_def)
  from requests_come_to_rest [OF sample_reachable this steps] have "2 \<le> work ?c" by blast
  moreover have "work ?c = 7" by (simp add: work_def rt_work_def retry_limit_def)
  ultimately show ?thesis using steps by (simp add: Let_def del: handle.simps)
qed

end
