(* ===== verification/JsDate.thy ===== *)
theory JsDate
  imports JsJson "HOL-Library.Monad_Syntax"
begin

text \<open>
  The \<open>Date\<close> objects of JavaScript, after the algorithms of the ECMAScript standard: the calendar, time
  values, getters, setters, \<open>toISOString\<close> and \<open>Date.parse\<close>. A time value counts milliseconds; \<open>None\<close> is
  \<open>NaN\<close>, and arithmetic with \<open>NaN\<close> is the option monad. The rules of the local time zone are an argument:
  the offset from UTC in milliseconds, at a time in UTC and at a local time; offsets of the time before
  zones were standardised have seconds.
\<close>

section \<open>The calendar\<close>

definition msPerDay :: int where "msPerDay = 86400000"

definition Day :: "int \<Rightarrow> int" where "Day t = t div msPerDay"
definition TimeWithinDay :: "int \<Rightarrow> int" where "TimeWithinDay t = t mod msPerDay"

definition leap :: "int \<Rightarrow> bool" where
  "leap y = (y mod 4 = 0 \<and> (y mod 100 \<noteq> 0 \<or> y mod 400 = 0))"

definition DayFromYear :: "int \<Rightarrow> int" where
  "DayFromYear y = 365 * (y - 1970) + (y - 1969) div 4 - (y - 1901) div 100 + (y - 1601) div 400"

text \<open>The year of a day: the last one that starts no later (\<open>year_of_day\<close> below).\<close>

definition YearFromDay :: "int \<Rightarrow> int" where
  "YearFromDay d = (let n = d + 719162; a = n div 146097; r = n mod 146097;
       c = min 3 (r div 36524); r = r - 36524 * c; q = r div 1461; r = r - 1461 * q; y = min 3 (r div 365)
     in 400 * a + 100 * c + 4 * q + y + 1)"

definition YearFromTime :: "int \<Rightarrow> int" where "YearFromTime t = YearFromDay (Day t)"

definition DayWithinYear :: "int \<Rightarrow> int" where
  "DayWithinYear t = Day t - DayFromYear (YearFromTime t)"

text \<open>The day of the year on which a month starts.\<close>

definition month_start :: "bool \<Rightarrow> int \<Rightarrow> int" where
  "month_start l m = [0, 31, 59, 90, 120, 151, 181, 212, 243, 273, 304, 334, 365] ! nat m + (if l \<and> 2 \<le> m then 1 else 0)"

text \<open>The last month, from \<open>m\<close> on, that starts no later than a day of the year.\<close>

function month_from :: "bool \<Rightarrow> int \<Rightarrow> int \<Rightarrow> int" where
  "month_from l d m = (if 11 \<le> m \<or> d < month_start l (m + 1) then m else month_from l d (m + 1))"
  by auto
termination by (relation "measure (\<lambda>(l, d, m). nat (11 - m))") auto

declare month_from.simps [simp del]

definition month_of_day :: "bool \<Rightarrow> int \<Rightarrow> int" where
  "month_of_day l d = month_from l d 0"

definition MonthFromTime :: "int \<Rightarrow> int" where
  "MonthFromTime t = month_of_day (leap (YearFromTime t)) (DayWithinYear t)"

definition DateFromTime :: "int \<Rightarrow> int" where
  "DateFromTime t = DayWithinYear t - month_start (leap (YearFromTime t)) (MonthFromTime t) + 1"

definition WeekDay :: "int \<Rightarrow> int" where "WeekDay t = (Day t + 4) mod 7"
definition HourFromTime :: "int \<Rightarrow> int" where "HourFromTime t = t div 3600000 mod 24"
definition MinFromTime :: "int \<Rightarrow> int" where "MinFromTime t = t div 60000 mod 60"
definition SecFromTime :: "int \<Rightarrow> int" where "SecFromTime t = t div 1000 mod 60"
definition msFromTime :: "int \<Rightarrow> int" where "msFromTime t = t mod 1000"

definition MakeTime :: "int \<Rightarrow> int \<Rightarrow> int \<Rightarrow> int \<Rightarrow> int" where
  "MakeTime h m s ms = h * 3600000 + m * 60000 + s * 1000 + ms"

definition MakeDay :: "int \<Rightarrow> int \<Rightarrow> int \<Rightarrow> int" where
  "MakeDay y m d = (let ym = y + m div 12; mn = m mod 12 in DayFromYear ym + month_start (leap ym) mn + d - 1)"

definition MakeDate :: "int \<Rightarrow> int \<Rightarrow> int" where "MakeDate d t = d * msPerDay + t"

section \<open>Time values and the time zone\<close>

type_synonym js_date = "int option"

definition max_time :: int where "max_time = 8640000000000000"

definition TimeClip :: "int \<Rightarrow> js_date" where
  "TimeClip t = (if \<bar>t\<bar> \<le> max_time then Some t else None)"

record zone =
  tz_utc :: "int \<Rightarrow> int"
  tz_local :: "int \<Rightarrow> int"

definition LocalTime :: "zone \<Rightarrow> int \<Rightarrow> int" where "LocalTime z t = t + tz_utc z t"
definition UTC :: "zone \<Rightarrow> int \<Rightarrow> int" where "UTC z t = t - tz_local z t"

text \<open>A zone without summer time, \<open>m\<close> minutes ahead, and UTC itself.\<close>

definition fixed_zone :: "int \<Rightarrow> zone" where
  "fixed_zone m = \<lparr>tz_utc = \<lambda>t. m * 60000, tz_local = \<lambda>t. m * 60000\<rparr>"

definition utc_zone :: zone where "utc_zone = fixed_zone 0"

section \<open>Getters and setters\<close>

definition js_getFullYear :: "zone \<Rightarrow> js_date \<Rightarrow> int option" where
  "js_getFullYear z d = map_option (\<lambda>t. YearFromTime (LocalTime z t)) d"
definition js_getMonth :: "zone \<Rightarrow> js_date \<Rightarrow> int option" where
  "js_getMonth z d = map_option (\<lambda>t. MonthFromTime (LocalTime z t)) d"
definition js_getDate :: "zone \<Rightarrow> js_date \<Rightarrow> int option" where
  "js_getDate z d = map_option (\<lambda>t. DateFromTime (LocalTime z t)) d"
definition js_getDay :: "zone \<Rightarrow> js_date \<Rightarrow> int option" where
  "js_getDay z d = map_option (\<lambda>t. WeekDay (LocalTime z t)) d"
definition js_getHours :: "zone \<Rightarrow> js_date \<Rightarrow> int option" where
  "js_getHours z d = map_option (\<lambda>t. HourFromTime (LocalTime z t)) d"
definition js_getMinutes :: "zone \<Rightarrow> js_date \<Rightarrow> int option" where
  "js_getMinutes z d = map_option (\<lambda>t. MinFromTime (LocalTime z t)) d"
definition js_getSeconds :: "zone \<Rightarrow> js_date \<Rightarrow> int option" where
  "js_getSeconds z d = map_option (\<lambda>t. SecFromTime (LocalTime z t)) d"
definition js_getMilliseconds :: "zone \<Rightarrow> js_date \<Rightarrow> int option" where
  "js_getMilliseconds z d = map_option (\<lambda>t. msFromTime (LocalTime z t)) d"

text \<open>The minutes of an offset, cut: 57 for the 57 minutes and 44 seconds that \<open>date-fns\<close> mentions.\<close>

definition whole_minutes :: "int \<Rightarrow> int" where "whole_minutes ms = sgn ms * (\<bar>ms\<bar> div 60000)"

definition js_getTimezoneOffset :: "zone \<Rightarrow> js_date \<Rightarrow> int option" where
  "js_getTimezoneOffset z d = map_option (\<lambda>t. - whole_minutes (tz_utc z t)) d"

text \<open>\<open>getTime\<close>, \<open>valueOf\<close> and unary plus are the time value itself.\<close>

definition js_setTime :: "zone \<Rightarrow> int \<Rightarrow> int \<Rightarrow> js_date" where
  "js_setTime z d t = TimeClip (UTC z (MakeDate d t))"

text \<open>A setter with fewer arguments keeps the other fields; \<open>setFullYear\<close> alone revives an invalid date.\<close>

definition js_setFullYear3 :: "zone \<Rightarrow> js_date \<Rightarrow> int \<Rightarrow> int \<Rightarrow> int \<Rightarrow> js_date" where
  "js_setFullYear3 z d y m dt = (let t = (case d of None \<Rightarrow> 0 | Some t \<Rightarrow> LocalTime z t)
     in js_setTime z (MakeDay y m dt) (TimeWithinDay t))"

definition js_setFullYear :: "zone \<Rightarrow> js_date \<Rightarrow> int \<Rightarrow> js_date" where
  "js_setFullYear z d y = (let t = (case d of None \<Rightarrow> 0 | Some t \<Rightarrow> LocalTime z t)
     in js_setTime z (MakeDay y (MonthFromTime t) (DateFromTime t)) (TimeWithinDay t))"

definition js_setMonth2 :: "zone \<Rightarrow> js_date \<Rightarrow> int \<Rightarrow> int \<Rightarrow> js_date" where
  "js_setMonth2 z d m dt = do {
     t \<leftarrow> map_option (LocalTime z) d;
     js_setTime z (MakeDay (YearFromTime t) m dt) (TimeWithinDay t)}"

definition js_setMonth :: "zone \<Rightarrow> js_date \<Rightarrow> int \<Rightarrow> js_date" where
  "js_setMonth z d m = do {
     t \<leftarrow> map_option (LocalTime z) d;
     js_setTime z (MakeDay (YearFromTime t) m (DateFromTime t)) (TimeWithinDay t)}"

definition js_setDate :: "zone \<Rightarrow> js_date \<Rightarrow> int \<Rightarrow> js_date" where
  "js_setDate z d dt = do {
     t \<leftarrow> map_option (LocalTime z) d;
     js_setTime z (MakeDay (YearFromTime t) (MonthFromTime t) dt) (TimeWithinDay t)}"

definition js_setHours4 :: "zone \<Rightarrow> js_date \<Rightarrow> int \<Rightarrow> int \<Rightarrow> int \<Rightarrow> int \<Rightarrow> js_date" where
  "js_setHours4 z d h m s ms = do {
     t \<leftarrow> map_option (LocalTime z) d;
     js_setTime z (Day t) (MakeTime h m s ms)}"

definition js_setHours :: "zone \<Rightarrow> js_date \<Rightarrow> int \<Rightarrow> js_date" where
  "js_setHours z d h = do {
     t \<leftarrow> map_option (LocalTime z) d;
     js_setTime z (Day t) (MakeTime h (MinFromTime t) (SecFromTime t) (msFromTime t))}"

definition js_setMinutes3 :: "zone \<Rightarrow> js_date \<Rightarrow> int \<Rightarrow> int \<Rightarrow> int \<Rightarrow> js_date" where
  "js_setMinutes3 z d m s ms = do {
     t \<leftarrow> map_option (LocalTime z) d;
     js_setTime z (Day t) (MakeTime (HourFromTime t) m s ms)}"

definition js_setMinutes :: "zone \<Rightarrow> js_date \<Rightarrow> int \<Rightarrow> js_date" where
  "js_setMinutes z d m = do {
     t \<leftarrow> map_option (LocalTime z) d;
     js_setTime z (Day t) (MakeTime (HourFromTime t) m (SecFromTime t) (msFromTime t))}"

definition js_setSeconds2 :: "zone \<Rightarrow> js_date \<Rightarrow> int \<Rightarrow> int \<Rightarrow> js_date" where
  "js_setSeconds2 z d s ms = do {
     t \<leftarrow> map_option (LocalTime z) d;
     js_setTime z (Day t) (MakeTime (HourFromTime t) (MinFromTime t) s ms)}"

definition js_setSeconds :: "zone \<Rightarrow> js_date \<Rightarrow> int \<Rightarrow> js_date" where
  "js_setSeconds z d s = do {
     t \<leftarrow> map_option (LocalTime z) d;
     js_setTime z (Day t) (MakeTime (HourFromTime t) (MinFromTime t) s (msFromTime t))}"

definition js_setMilliseconds :: "zone \<Rightarrow> js_date \<Rightarrow> int \<Rightarrow> js_date" where
  "js_setMilliseconds z d ms = do {
     t \<leftarrow> map_option (LocalTime z) d;
     js_setTime z (Day t) (MakeTime (HourFromTime t) (MinFromTime t) (SecFromTime t) ms)}"

text \<open>\<open>Date.UTC\<close> and \<open>new Date(y, m, d)\<close>; a year from 0 to 99 means the twentieth century.\<close>

definition full_year :: "int \<Rightarrow> int" where
  "full_year y = (if 0 \<le> y \<and> y \<le> 99 then 1900 + y else y)"

definition js_UTC :: "int \<Rightarrow> int \<Rightarrow> int \<Rightarrow> int \<Rightarrow> int \<Rightarrow> int \<Rightarrow> int \<Rightarrow> js_date" where
  "js_UTC y m d h mi s ms = TimeClip (MakeDate (MakeDay (full_year y) m d) (MakeTime h mi s ms))"

definition js_new_Date :: "zone \<Rightarrow> int \<Rightarrow> int \<Rightarrow> int \<Rightarrow> js_date" where
  "js_new_Date z y m d = js_setTime z (MakeDay (full_year y) m d) 0"

section \<open>Texts\<close>

text \<open>\<open>s.padStart(n, '0')\<close>.\<close>

definition pad_zeros :: "nat \<Rightarrow> string \<Rightarrow> string" where
  "pad_zeros n s = replicate (n - length s) (CHR ''0'') @ s"

definition iso_year :: "int \<Rightarrow> string" where
  "iso_year y = (if 0 \<le> y \<and> y \<le> 9999 then pad_zeros 4 (show_int y)
     else (if y < 0 then ''-'' else ''+'') @ pad_zeros 6 (show_int \<bar>y\<bar>))"

definition iso_text :: "int \<Rightarrow> string" where
  "iso_text t = iso_year (YearFromTime t) @ ''-'' @ pad_zeros 2 (show_int (MonthFromTime t + 1)) @ ''-''
     @ pad_zeros 2 (show_int (DateFromTime t)) @ ''T'' @ pad_zeros 2 (show_int (HourFromTime t)) @ '':''
     @ pad_zeros 2 (show_int (MinFromTime t)) @ '':'' @ pad_zeros 2 (show_int (SecFromTime t)) @ ''.''
     @ pad_zeros 3 (show_int (msFromTime t)) @ ''Z''"

text \<open>\<open>None\<close> is the \<open>RangeError\<close> of an invalid date.\<close>

definition js_toISOString :: "js_date \<Rightarrow> string option" where
  "js_toISOString d = map_option iso_text d"

text \<open>
  \<open>Date.parse\<close> on the date-time format of the standard: a date of four digits for the year, or a sign
  and six, with month and day optional; then optionally a time with a zone. Without a zone a date is in
  UTC and a date with a time is local. A fraction may have any number of digits, of which three count.
  What is not in the format (or out of bounds) is up to the engine, which is the first argument.
\<close>

definition take_digits :: "nat \<Rightarrow> string \<Rightarrow> (int \<times> string) option" where
  "take_digits n s = (if n \<le> length s \<and> list_all is_digit (take n s) then Some (int (digits_nat (take n s)), drop n s) else None)"

definition take_char :: "char \<Rightarrow> string \<Rightarrow> string option" where
  "take_char c s = (case s of [] \<Rightarrow> None | x # xs \<Rightarrow> if x = c then Some xs else None)"

definition read_iso_year :: "string \<Rightarrow> (int \<times> string) option" where
  "read_iso_year s = (case s of [] \<Rightarrow> None
     | c # r \<Rightarrow> if c = CHR ''+'' then take_digits 6 r
         else if c = CHR ''-'' then do {(y, r) \<leftarrow> take_digits 6 r; if y = 0 then None else Some (- y, r)}
         else take_digits 4 s)"

text \<open>A part that may be missing: a sign and two digits, or nothing.\<close>

definition read_iso_part :: "char \<Rightarrow> int \<Rightarrow> string \<Rightarrow> (int \<times> string) option" where
  "read_iso_part c missing s = (case take_char c s of None \<Rightarrow> Some (missing, s) | Some r \<Rightarrow> take_digits 2 r)"

definition read_iso_date :: "string \<Rightarrow> (int \<times> int \<times> int \<times> string) option" where
  "read_iso_date s = do {
     (y, r) \<leftarrow> read_iso_year s;
     (m, r1) \<leftarrow> read_iso_part (CHR ''-'') 1 r;
     (d, r2) \<leftarrow> (if r1 = r then Some (1, r1) else read_iso_part (CHR ''-'') 1 r1);
     Some (y, m, d, r2)}"

definition read_fraction :: "string \<Rightarrow> (int \<times> string) option" where
  "read_fraction s = (case take_char (CHR ''.'') s of
       None \<Rightarrow> Some (0, s)
     | Some r \<Rightarrow> let ds = takeWhile is_digit r in
         if ds = [] then None else Some (int (digits_nat (take 3 (ds @ ''00''))), drop (length ds) r))"

text \<open>The offset in minutes, or \<open>None\<close> within \<open>Some\<close> for local time.\<close>

definition read_offset :: "string \<Rightarrow> int option option" where
  "read_offset s = (case s of
       [] \<Rightarrow> Some None
     | c # r \<Rightarrow> if c = CHR ''Z'' then (if r = [] then Some (Some 0) else None)
         else if c = CHR ''+'' \<or> c = CHR ''-'' then do {
           (h, r) \<leftarrow> take_digits 2 r;
           r \<leftarrow> take_char (CHR '':'') r;
           (m, r) \<leftarrow> take_digits 2 r;
           if r = [] \<and> h \<le> 23 \<and> m \<le> 59 then Some (Some ((if c = CHR ''-'' then - 1 else 1) * (60 * h + m))) else None}
         else None)"

definition read_iso_time :: "string \<Rightarrow> (int \<times> int option) option" where
  "read_iso_time s = do {
     (h, r) \<leftarrow> take_digits 2 s;
     r \<leftarrow> take_char (CHR '':'') r;
     (mi, r) \<leftarrow> take_digits 2 r;
     (sec, r') \<leftarrow> read_iso_part (CHR '':'') 0 r;
     (ms, r'') \<leftarrow> (if r' = r then Some (0, r') else read_fraction r');
     off \<leftarrow> read_offset r'';
     if mi \<le> 59 \<and> sec \<le> 59 \<and> (h \<le> 23 \<or> h = 24 \<and> mi = 0 \<and> sec = 0 \<and> ms = 0)
     then Some (MakeTime h mi sec ms, off) else None}"

definition days_in_month :: "int \<Rightarrow> int \<Rightarrow> int" where
  "days_in_month y m = month_start (leap y) (m + 1) - month_start (leap y) m"

definition read_iso :: "zone \<Rightarrow> string \<Rightarrow> js_date option" where
  "read_iso z s = do {
     (y, m, d, r) \<leftarrow> read_iso_date s;
     if 1 \<le> m \<and> m \<le> 12 \<and> 1 \<le> d \<and> d \<le> days_in_month y (m - 1) then
       (let day = MakeDay y (m - 1) d in case r of
          [] \<Rightarrow> Some (TimeClip (MakeDate day 0))
        | c # r \<Rightarrow> if c = CHR ''T'' then do {
            (t, off) \<leftarrow> read_iso_time r;
            Some (case off of None \<Rightarrow> js_setTime z day t | Some n \<Rightarrow> TimeClip (MakeDate day t - n * 60000))}
          else None)
     else None}"

definition js_parse :: "(string \<Rightarrow> js_date) \<Rightarrow> zone \<Rightarrow> string \<Rightarrow> js_date" where
  "js_parse engine z s = (case read_iso z s of None \<Rightarrow> engine s | Some d \<Rightarrow> d)"

section \<open>The calendar is the Gregorian calendar\<close>

lemma div_within: "0 \<le> r \<Longrightarrow> r < (b :: int) \<Longrightarrow> (b * a + r) div b = a" "0 \<le> r \<Longrightarrow> r < (b :: int) \<Longrightarrow> (b * a + r) mod b = r"
  by (auto simp: div_add1_eq)

lemma dvd_small:
  assumes "0 < r" "r \<le> (b :: int)"
  shows "b dvd b * k + r \<longleftrightarrow> r = b"
  using assms zdvd_imp_le [of b r] by (auto simp: dvd_add_right_iff)

lemma div_shift: "0 < b \<Longrightarrow> (y - b * k) div b = y div b - (k :: int)"
  using div_mult_self2 [of b y "- k"] by simp

lemma div_pred: "0 < (b :: int) \<Longrightarrow> (y - 1) div b = y div b - (if y mod b = 0 then 1 else 0)"
proof -
  assume b: "0 < b"
  define q r where "q = y div b" and "r = y mod b"
  then have y: "y = b * q + r" and r: "0 \<le> r" "r < b" using b by simp_all
  show ?thesis
  proof (cases "r = 0")
    case True
    with y have "y - 1 = b * (q - 1) + (b - 1)" by (simp add: algebra_simps)
    with b have "(y - 1) div b = q - 1" by (simp only: div_within(1))
    with True show ?thesis by (simp add: q_def r_def)
  next
    case False
    with r y have "y - 1 = b * q + (r - 1)" "0 \<le> r - 1" "r - 1 < b" by simp_all
    then have "(y - 1) div b = q" by (simp only: div_within(1))
    with False show ?thesis by (simp add: q_def r_def)
  qed
qed

lemma div_gap: "y div 4 - (y - 1) div 4 = (if 4 dvd y then 1 else (0 :: int))"
    "y div 100 - (y - 1) div 100 = (if 100 dvd y then 1 else (0 :: int))"
    "y div 400 - (y - 1) div 400 = (if 400 dvd y then 1 else (0 :: int))"
  using div_pred [of 4 y] div_pred [of 100 y] div_pred [of 400 y] by (simp_all only: dvd_eq_mod_eq_0)

lemma DayFromYear_div: "DayFromYear (y + 1) = 365 * (y - 1969) + y div 4 - y div 100 + y div 400 - 477"
proof -
  have "y + 1 - 1969 = y - 4 * 492" "y + 1 - 1901 = y - 100 * 19" "y + 1 - 1601 = y - 400 * 4" "y + 1 - 1970 = y - 1969" by simp_all
  then have "DayFromYear (y + 1) = 365 * (y - 1969) + (y div 4 - 492) - (y div 100 - 19) + (y div 400 - 4)"
    by (simp only: DayFromYear_def div_shift zero_less_numeral)
  then show ?thesis by simp
qed

lemma DayFromYear_parts:
  assumes "0 \<le> c" "c \<le> 3" "0 \<le> q" "q \<le> 24" "0 \<le> y" "y \<le> 3"
  shows "DayFromYear (400 * a + 100 * c + 4 * q + y + 1) = 146097 * a + 36524 * c + 1461 * q + 365 * y - 719162"
proof -
  define n where "n = 400 * a + 100 * c + 4 * q + y"
  have n: "n = 4 * (100 * a + 25 * c + q) + y" "n = 100 * (4 * a + c) + (4 * q + y)" "n = 400 * a + (100 * c + 4 * q + y)"
    by (simp_all add: n_def)
  have "n div 4 = 100 * a + 25 * c + q" unfolding n(1) by (rule div_within(1)) (use assms in auto)
  moreover have "n div 100 = 4 * a + c" unfolding n(2) by (rule div_within(1)) (use assms in auto)
  moreover have "n div 400 = a" unfolding n(3) by (rule div_within(1)) (use assms in auto)
  ultimately have "DayFromYear (n + 1) = 365 * (n - 1969) + (100 * a + 25 * c + q) - (4 * a + c) + a - 477"
    by (simp only: DayFromYear_div)
  then show ?thesis by (simp add: n_def)
qed

lemma DayFromYear_step: "DayFromYear (y + 1) = DayFromYear y + (if leap y then 366 else 365)"
proof -
  have dvd: "400 dvd y \<Longrightarrow> 100 dvd y" "100 dvd y \<Longrightarrow> 4 dvd y"
    using dvd_trans [of 100 400 y] dvd_trans [of 4 100 y] by simp_all
  have "DayFromYear (y + 1) - DayFromYear y
      = 365 + (y div 4 - (y - 1) div 4) - (y div 100 - (y - 1) div 100) + (y div 400 - (y - 1) div 400)"
    using DayFromYear_div [of y] DayFromYear_div [of "y - 1", unfolded diff_add_cancel] by (simp add: algebra_simps)
  also have "\<dots> = 365 + (if 4 dvd y then 1 else 0) - (if 100 dvd y then 1 else 0) + (if 400 dvd y then 1 else 0)"
    by (simp only: div_gap)
  also have "\<dots> = (if leap y then 366 else 365)"
    using dvd unfolding leap_def dvd_eq_mod_eq_0 [symmetric]
    by (cases "4 dvd y"; cases "100 dvd y"; cases "400 dvd y") (simp_all only: if_True if_False simp_thms)
  finally show ?thesis by linarith
qed

lemma leap_parts:
  assumes "0 \<le> c" "c \<le> 3" "0 \<le> q" "q \<le> 24" "0 \<le> y" "y \<le> 3"
  shows "leap (400 * a + 100 * c + 4 * q + y + 1) \<longleftrightarrow> y = 3 \<and> (q < 24 \<or> c = 3)"
proof -
  define n where "n = 400 * a + 100 * c + 4 * q + y + 1"
  have n: "n = 4 * (100 * a + 25 * c + q) + (y + 1)" "n = 100 * (4 * a + c) + (4 * q + y + 1)"
    "n = 400 * a + (100 * c + 4 * q + y + 1)" by (simp_all add: n_def)
  have "4 dvd n \<longleftrightarrow> y + 1 = 4" unfolding n(1) by (rule dvd_small) (use assms in auto)
  moreover have "100 dvd n \<longleftrightarrow> 4 * q + y + 1 = 100" unfolding n(2) by (rule dvd_small) (use assms in auto)
  moreover have "400 dvd n \<longleftrightarrow> 100 * c + 4 * q + y + 1 = 400" unfolding n(3) by (rule dvd_small) (use assms in auto)
  moreover have "leap n \<longleftrightarrow> 4 dvd n \<and> (\<not> 100 dvd n \<or> 400 dvd n)" by (simp add: leap_def dvd_eq_mod_eq_0)
  ultimately have "leap n \<longleftrightarrow> y + 1 = 4 \<and> (4 * q + y + 1 \<noteq> 100 \<or> 100 * c + 4 * q + y + 1 = 400)" by blast
  also have "\<dots> \<longleftrightarrow> y = 3 \<and> (q < 24 \<or> c = 3)"
    using assms by (cases "y = 3"; cases "q = 24") auto
  finally show ?thesis unfolding n_def .
qed

lemma DayFromYear_mono: "y < y' \<Longrightarrow> DayFromYear y + 365 \<le> DayFromYear y'"
proof (induction "nat (y' - y)" arbitrary: y')
  case (Suc n)
  show ?case
  proof (cases "y' = y + 1")
    case False
    with Suc have "DayFromYear y + 365 \<le> DayFromYear (y' - 1)" by (intro Suc.hyps) auto
    with DayFromYear_step [of "y' - 1"] show ?thesis by (simp split: if_splits)
  qed (simp add: DayFromYear_step)
qed simp

theorem year_of_day: "DayFromYear (YearFromDay d) \<le> d \<and> d < DayFromYear (YearFromDay d + 1)"
proof -
  define a r where "a = (d + 719162) div 146097" and "r = (d + 719162) mod 146097"
  define c r1 where "c = min 3 (r div 36524)" and "r1 = r - 36524 * c"
  define q r2 where "q = r1 div 1461" and "r2 = r1 - 1461 * q"
  define y where "y = min 3 (r2 div 365)"
  have Y: "YearFromDay d = 400 * a + 100 * c + 4 * q + y + 1"
    by (simp only: YearFromDay_def Let_def a_def r_def c_def r1_def q_def r2_def y_def)
  have d: "d = 146097 * a + r - 719162" by (simp add: a_def r_def)
  have r: "0 \<le> r" "r < 146097" by (simp_all add: r_def)
  define k w where "k = r div 36524" and "w = r mod 36524"
  then have k: "r div 36524 = k" "r = 36524 * k + w" "0 \<le> w" "w < 36524" by simp_all
  have c: "0 \<le> c" "c \<le> 3" "0 \<le> r1" "r1 \<le> (if c = 3 then 36524 else 36523)"
    using r k unfolding r1_def c_def by (auto simp: min_def)
  define v where "v = r1 mod 1461"
  then have v: "r1 = 1461 * q + v" "0 \<le> v" "v < 1461" by (simp_all add: q_def)
  then have "r2 = v" by (simp add: r2_def)
  with v c have q: "0 \<le> q" "q \<le> 24" "0 \<le> r2" "r2 \<le> 1460" "q = 24 \<Longrightarrow> c < 3 \<Longrightarrow> r2 \<le> 1459"
    by (auto split: if_splits)
  define m u where "m = r2 div 365" and "u = r2 mod 365"
  then have m: "r2 div 365 = m" "r2 = 365 * m + u" "0 \<le> u" "u < 365" by simp_all
  have y: "0 \<le> y" "y \<le> 3" "365 * y \<le> r2" "y < 3 \<Longrightarrow> r2 < 365 * (y + 1)"
    using q m unfolding y_def by (auto simp: min_def split: if_splits)
  have now: "DayFromYear (YearFromDay d) = 146097 * a + 36524 * c + 1461 * q + 365 * y - 719162"
    unfolding Y by (rule DayFromYear_parts) (use c q y in auto)
  then have le: "DayFromYear (YearFromDay d) \<le> d"
    using d y(3) by (simp add: r1_def r2_def)
  have "leap (YearFromDay d) \<longleftrightarrow> y = 3 \<and> (q < 24 \<or> c = 3)"
    unfolding Y by (rule leap_parts) (use c q y in auto)
  then have "DayFromYear (YearFromDay d + 1) = DayFromYear (YearFromDay d) + (if y = 3 \<and> (q < 24 \<or> c = 3) then 366 else 365)"
    by (simp add: DayFromYear_step)
  moreover have "d = DayFromYear (YearFromDay d) + (r2 - 365 * y)" unfolding now using d by (simp add: r1_def r2_def)
  moreover have "r2 - 365 * y < (if y = 3 \<and> (q < 24 \<or> c = 3) then 366 else 365)"
  proof (cases "y = 3")
    case True
    then show ?thesis using q(2,4,5) c(2) by (cases "q = 24"; cases "c = 3") auto
  next
    case False
    then show ?thesis using y(2,4) by auto
  qed
  ultimately have "d < DayFromYear (YearFromDay d + 1)" by linarith
  with le show ?thesis ..
qed

lemma DayFromYear_le: "y \<le> y' \<Longrightarrow> DayFromYear y \<le> DayFromYear y'"
  using DayFromYear_mono [of y y'] by (cases "y = y'") auto

lemma YearFromDay_unique:
  assumes "DayFromYear y \<le> d" "d < DayFromYear (y + 1)"
  shows "YearFromDay d = y"
proof (rule ccontr)
  assume "YearFromDay d \<noteq> y"
  then consider "y + 1 \<le> YearFromDay d" | "YearFromDay d + 1 \<le> y" by linarith
  then show False
  proof cases
    case 1
    then have "DayFromYear (y + 1) \<le> DayFromYear (YearFromDay d)"
      by (rule DayFromYear_le)
    with assms(2) year_of_day [of d] show False by linarith
  next
    case 2
    then have "DayFromYear (YearFromDay d + 1) \<le> DayFromYear y"
      by (rule DayFromYear_le)
    with assms(1) year_of_day [of d] show False by linarith
  qed
qed

definition year_length :: "int \<Rightarrow> int" where "year_length y = (if leap y then 366 else 365)"

lemma day_within: "0 \<le> DayWithinYear t" "DayWithinYear t < year_length (YearFromTime t)"
  using year_of_day [of "Day t"] DayFromYear_step [of "YearFromTime t"]
  by (auto simp: DayWithinYear_def YearFromTime_def year_length_def split: if_splits)

text \<open>A number from 0 to 11, as the cases of the proofs that follow.\<close>

lemma month_cases:
  fixes m :: int
  assumes "0 \<le> m" "m \<le> 11"
  obtains "m = 0" | "m = 1" | "m = 2" | "m = 3" | "m = 4" | "m = 5" | "m = 6" | "m = 7" | "m = 8" | "m = 9" | "m = 10" | "m = 11"
proof -
  have "m = 0 \<or> m = 1 \<or> m = 2 \<or> m = 3 \<or> m = 4 \<or> m = 5 \<or> m = 6 \<or> m = 7 \<or> m = 8 \<or> m = 9 \<or> m = 10 \<or> m = 11"
    using assms by presburger
  then show thesis using that by blast
qed

lemma month_from:
  "0 \<le> m \<Longrightarrow> m \<le> 11 \<Longrightarrow> month_start l m \<le> d \<Longrightarrow> d < month_start l 12 \<Longrightarrow>
   m \<le> month_from l d m \<and> month_from l d m \<le> 11 \<and> month_start l (month_from l d m) \<le> d \<and> d < month_start l (month_from l d m + 1)"
proof (induction l d m rule: month_from.induct)
  case (1 l d m)
  show ?case
  proof (cases "11 \<le> m \<or> d < month_start l (m + 1)")
    case True
    then have "month_from l d m = m" by (subst month_from.simps) simp
    moreover have "d < month_start l (m + 1)" using True 1 by (cases "m = 11") auto
    ultimately show ?thesis using 1 by simp
  next
    case False
    then have "month_from l d m = month_from l d (m + 1)" by (subst month_from.simps) simp
    with False 1 show ?thesis by fastforce
  qed
qed

lemma month_of_day:
  assumes "0 \<le> d" "d < (if l then 366 else 365)"
  shows "0 \<le> month_of_day l d \<and> month_of_day l d \<le> 11 \<and> month_start l (month_of_day l d) \<le> d
    \<and> d < month_start l (month_of_day l d + 1)"
proof -
  have "month_start l 0 \<le> d" "d < month_start l 12" using assms by (auto simp: month_start_def)
  with month_from [of 0 l d] show ?thesis unfolding month_of_day_def by simp
qed

lemma month_start_step: "0 \<le> m \<Longrightarrow> m \<le> 11 \<Longrightarrow> month_start l m + 28 \<le> month_start l (m + 1)"
  by (cases m rule: month_cases) (simp_all add: month_start_def)

lemma month_start_mono: "0 \<le> m \<Longrightarrow> m \<le> n \<Longrightarrow> n \<le> 12 \<Longrightarrow> month_start l m \<le> month_start l n"
proof (induction "nat (n - m)" arbitrary: n)
  case (Suc k)
  then have "month_start l m \<le> month_start l (n - 1)" by (intro Suc.hyps(1)) auto
  moreover have "month_start l (n - 1) + 28 \<le> month_start l n" using Suc month_start_step [of "n - 1" l] by simp
  ultimately show ?case by linarith
qed simp

lemma month_of_day_start:
  assumes "0 \<le> m" "m \<le> 11" "month_start l m \<le> d" "d < month_start l (m + 1)"
  shows "month_of_day l d = m"
proof -
  let ?n = "month_of_day l d"
  have "0 \<le> d" "d < (if l then 366 else 365)"
    using assms month_start_mono [of 0 m l] month_start_mono [of "m + 1" 12 l] by (auto simp: month_start_def)
  then have n: "0 \<le> ?n" "?n \<le> 11" "month_start l ?n \<le> d" "d < month_start l (?n + 1)"
    using month_of_day by blast+
  consider "?n = m" | "?n + 1 \<le> m" | "m + 1 \<le> ?n" by linarith
  then show ?thesis
  proof cases
    case 2
    with month_start_mono [of "?n + 1" m l] assms n show ?thesis by linarith
  next
    case 3
    with month_start_mono [of "m + 1" ?n l] assms n show ?thesis by linarith
  qed
qed

lemma month_start_bounds: "0 \<le> m \<Longrightarrow> m \<le> 11 \<Longrightarrow> 0 \<le> month_start l m \<and> month_start l (m + 1) \<le> (if l then 366 else 365)"
  by (cases m rule: month_cases) (simp_all add: month_start_def)

lemma days_in_month_bounds: "0 \<le> m \<Longrightarrow> m \<le> 11 \<Longrightarrow> 28 \<le> days_in_month y m \<and> days_in_month y m \<le> 31"
  by (cases m rule: month_cases) (simp_all add: month_start_def days_in_month_def)

text \<open>Year, month and day of the month name a day, and every day has exactly one such name.\<close>

lemma fields_bounds: "0 \<le> MonthFromTime t" "MonthFromTime t \<le> 11" "1 \<le> DateFromTime t"
    "DateFromTime t \<le> days_in_month (YearFromTime t) (MonthFromTime t)"
  using month_of_day [of "DayWithinYear t" "leap (YearFromTime t)"] day_within [of t]
  by (auto simp: MonthFromTime_def DateFromTime_def days_in_month_def year_length_def)

lemma MakeDay_fields: "MakeDay (YearFromTime t) (MonthFromTime t) (DateFromTime t) = Day t"
  using fields_bounds [of t] by (simp add: MakeDay_def Let_def DateFromTime_def DayWithinYear_def)

lemma fields_MakeDay:
  assumes "Day t = MakeDay y m d" "0 \<le> m" "m \<le> 11" "1 \<le> d" "d \<le> days_in_month y m"
  shows "YearFromTime t = y" "MonthFromTime t = m" "DateFromTime t = d"
proof -
  have day: "Day t = DayFromYear y + (month_start (leap y) m + d - 1)"
    using assms(1-3) by (simp add: MakeDay_def Let_def)
  have w: "0 \<le> month_start (leap y) m + d - 1" "month_start (leap y) m + d - 1 < year_length y"
      "month_start (leap y) m + d - 1 < month_start (leap y) (m + 1)"
    using month_start_bounds [OF assms(2,3), of "leap y"] assms(4,5) by (auto simp: days_in_month_def year_length_def)
  show y: "YearFromTime t = y"
    unfolding YearFromTime_def by (rule YearFromDay_unique)
      (use day w(1,2) in \<open>simp_all add: DayFromYear_step year_length_def split: if_splits\<close>)
  have dw: "DayWithinYear t = month_start (leap y) m + d - 1" by (simp add: DayWithinYear_def y day)
  show m: "MonthFromTime t = m"
    unfolding MonthFromTime_def y dw by (rule month_of_day_start) (use assms w(3) in auto)
  show "DateFromTime t = d" by (simp add: DateFromTime_def y m dw)
qed

lemma MakeDay_carry: "MakeDay y m d = MakeDay (y + m div 12) (m mod 12) d"
  by (simp add: MakeDay_def Let_def)

lemma Day_MakeDate [simp]: "0 \<le> t \<Longrightarrow> t < msPerDay \<Longrightarrow> Day (MakeDate d t) = d"
    "0 \<le> t \<Longrightarrow> t < msPerDay \<Longrightarrow> TimeWithinDay (MakeDate d t) = t"
  by (auto simp: Day_def TimeWithinDay_def MakeDate_def msPerDay_def)

lemma MakeDate_Day [simp]: "MakeDate (Day t) (TimeWithinDay t) = t"
  by (simp add: Day_def TimeWithinDay_def MakeDate_def msPerDay_def)

lemma time_within: "0 \<le> TimeWithinDay t" "TimeWithinDay t < msPerDay"
  by (simp_all add: TimeWithinDay_def msPerDay_def)

lemma clock_fields:
  "0 \<le> HourFromTime t" "HourFromTime t \<le> 23" "0 \<le> MinFromTime t" "MinFromTime t \<le> 59"
  "0 \<le> SecFromTime t" "SecFromTime t \<le> 59" "0 \<le> msFromTime t" "msFromTime t \<le> 999"
  using pos_mod_bound [of 24 "t div 3600000"] pos_mod_bound [of 60 "t div 60000"] pos_mod_bound [of 60 "t div 1000"]
    pos_mod_bound [of 1000 t]
  by (simp_all add: HourFromTime_def MinFromTime_def SecFromTime_def msFromTime_def)

lemma MakeTime_fields: "MakeTime (HourFromTime t) (MinFromTime t) (SecFromTime t) (msFromTime t) = TimeWithinDay t"
proof -
  have "t div 60000 = t div 1000 div 60" "t div 3600000 = t div 1000 div 60 div 60"
    "t div 86400000 = t div 1000 div 60 div 60 div 24"
    by (simp_all add: zdiv_zmult2_eq [symmetric])
  then show ?thesis
    unfolding MakeTime_def HourFromTime_def MinFromTime_def SecFromTime_def msFromTime_def TimeWithinDay_def msPerDay_def
      minus_mult_div_eq_mod [symmetric] by simp
qed

lemma MakeTime_within:
  "0 \<le> h \<Longrightarrow> h \<le> 23 \<Longrightarrow> 0 \<le> m \<Longrightarrow> m \<le> 59 \<Longrightarrow> 0 \<le> s \<Longrightarrow> s \<le> 59 \<Longrightarrow> 0 \<le> ms \<Longrightarrow> ms \<le> 999 \<Longrightarrow>
   0 \<le> MakeTime h m s ms \<and> MakeTime h m s ms < msPerDay"
  by (simp add: MakeTime_def msPerDay_def)

end
