(* ===== verification/DateFns.thy ===== *)
theory DateFns
  imports JsDate
begin

text \<open>
  The date library (\<open>ui/.vite/deps/date-fns.js\<close>): its calculations with dates. A number is an integer or
  \<open>NaN\<close> (\<open>None\<close>), a quotient is exact before it is rounded. Dates are \<open>Date\<close> objects; a function that
  changes the copy \<open>toDate\<close> has made returns it. What a call depends on besides its arguments is the
  environment: the time zone, \<open>Date.now()\<close>, and the default options.
\<close>

section \<open>Numbers, options, and copies of dates\<close>

type_synonym date_num = "int option"

definition num_eq :: "date_num \<Rightarrow> date_num \<Rightarrow> bool" where "num_eq a b = (a \<noteq> None \<and> a = b)"

definition num_lt :: "date_num \<Rightarrow> date_num \<Rightarrow> bool" where
  "num_lt a b = (case (a, b) of (Some x, Some y) \<Rightarrow> x < y | _ \<Rightarrow> False)"

definition num_le :: "date_num \<Rightarrow> date_num \<Rightarrow> bool" where
  "num_le a b = (case (a, b) of (Some x, Some y) \<Rightarrow> x \<le> y | _ \<Rightarrow> False)"

definition num_neg :: "date_num \<Rightarrow> date_num" where "num_neg n = map_option uminus n"
definition num_times :: "int \<Rightarrow> date_num \<Rightarrow> date_num" where "num_times k n = map_option ((*) k) n"

definition num_minus :: "date_num \<Rightarrow> date_num \<Rightarrow> date_num" where "num_minus a b = do {x \<leftarrow> a; y \<leftarrow> b; Some (x - y)}"
definition num_plus :: "date_num \<Rightarrow> date_num \<Rightarrow> date_num" where "num_plus a b = do {x \<leftarrow> a; y \<leftarrow> b; Some (x + y)}"

text \<open>\<open>Math.trunc\<close>, \<open>Math.round\<close>, \<open>Math.ceil\<close> and \<open>Math.floor\<close> of a quotient with a positive divisor.\<close>

definition trunc_div :: "int \<Rightarrow> int \<Rightarrow> int" where "trunc_div a b = sgn a * (\<bar>a\<bar> div b)"
definition round_div :: "int \<Rightarrow> int \<Rightarrow> int" where "round_div a b = (2 * a + b) div (2 * b)"
definition ceil_div :: "int \<Rightarrow> int \<Rightarrow> int" where "ceil_div a b = - (- a div b)"

text \<open>JavaScript's remainder has the sign of the dividend.\<close>

definition js_rem :: "int \<Rightarrow> int \<Rightarrow> int" where "js_rem a b = a - b * trunc_div a b"

record locale_options =
  lo_weekStartsOn :: "int option"
  lo_firstWeekContainsDate :: "int option"

record week_options =
  wo_weekStartsOn :: "int option"
  wo_firstWeekContainsDate :: "int option"
  wo_locale :: "locale_options option"

record date_env =
  de_zone :: zone
  de_now :: int
  de_default :: week_options

definition no_week_options :: week_options where
  "no_week_options = \<lparr>wo_weekStartsOn = None, wo_firstWeekContainsDate = None, wo_locale = None\<rparr>"

definition iso_week :: "week_options option" where
  "iso_week = Some (no_week_options\<lparr>wo_weekStartsOn := Some 1\<rparr>)"

text \<open>The first value of \<open>a ?? b ?? ...\<close> that is there.\<close>

fun first_defined :: "'a option list \<Rightarrow> 'a \<Rightarrow> 'a" where
  "first_defined [] d = d"
| "first_defined (None # xs) d = first_defined xs d"
| "first_defined (Some x # xs) d = x"

definition weekStartsOn :: "date_env \<Rightarrow> week_options option \<Rightarrow> int" where
  "weekStartsOn E opts = first_defined [do {w \<leftarrow> opts; wo_weekStartsOn w}, do {w \<leftarrow> opts; l \<leftarrow> wo_locale w; lo_weekStartsOn l},
     wo_weekStartsOn (de_default E), do {l \<leftarrow> wo_locale (de_default E); lo_weekStartsOn l}] 0"

definition firstWeekContainsDate :: "date_env \<Rightarrow> week_options option \<Rightarrow> int" where
  "firstWeekContainsDate E opts = first_defined [do {w \<leftarrow> opts; wo_firstWeekContainsDate w},
     do {w \<leftarrow> opts; l \<leftarrow> wo_locale w; lo_firstWeekContainsDate l},
     wo_firstWeekContainsDate (de_default E), do {l \<leftarrow> wo_locale (de_default E); lo_firstWeekContainsDate l}] 1"

text \<open>What \<open>toDate\<close> is given: a date, a number, a text, or something else.\<close>

datatype date_arg = ADate js_date | ANumber date_num | AString string | AOther

definition new_Date :: "date_num \<Rightarrow> js_date" where "new_Date n = Option.bind n TimeClip"

definition toDate :: "(string \<Rightarrow> js_date) \<Rightarrow> date_env \<Rightarrow> date_arg \<Rightarrow> js_date" where
  "toDate engine E a = (case a of ADate d \<Rightarrow> new_Date d | ANumber n \<Rightarrow> new_Date n
     | AString s \<Rightarrow> js_parse engine (de_zone E) s | AOther \<Rightarrow> None)"

definition constructFrom :: "js_date \<Rightarrow> date_num \<Rightarrow> js_date" where "constructFrom d v = new_Date v"

definition constructNow :: "date_env \<Rightarrow> js_date \<Rightarrow> js_date" where
  "constructNow E d = constructFrom d (Some (de_now E))"

definition isDate :: "date_arg \<Rightarrow> bool" where
  "isDate a = (case a of ADate d \<Rightarrow> True | _ \<Rightarrow> False)"

definition isValid :: "date_arg \<Rightarrow> bool" where
  "isValid a = (case a of ADate d \<Rightarrow> new_Date d \<noteq> None | ANumber n \<Rightarrow> new_Date n \<noteq> None | _ \<Rightarrow> False)"

section \<open>Adding\<close>

definition addDays :: "date_env \<Rightarrow> js_date \<Rightarrow> date_num \<Rightarrow> js_date" where
  "addDays E d amount = do {
     n \<leftarrow> amount;
     if n = 0 then d else do {dt \<leftarrow> js_getDate (de_zone E) d; js_setDate (de_zone E) d (dt + n)}}"

definition addMonths :: "date_env \<Rightarrow> js_date \<Rightarrow> date_num \<Rightarrow> js_date" where
  "addMonths E d amount = do {
     n \<leftarrow> amount;
     if n = 0 then d else do {
       let z = de_zone E;
       dayOfMonth \<leftarrow> js_getDate z d;
       m \<leftarrow> js_getMonth z d;
       let endOfDesiredMonth = js_setMonth2 z (constructFrom d d) (m + n + 1) 0;
       daysInMonth \<leftarrow> js_getDate z endOfDesiredMonth;
       if dayOfMonth \<ge> daysInMonth then endOfDesiredMonth
       else do {
         y' \<leftarrow> js_getFullYear z endOfDesiredMonth;
         m' \<leftarrow> js_getMonth z endOfDesiredMonth;
         js_setFullYear3 z d y' m' dayOfMonth}}}"

record duration =
  du_years :: "int option"
  du_months :: "int option"
  du_weeks :: "int option"
  du_days :: "int option"
  du_hours :: "int option"
  du_minutes :: "int option"
  du_seconds :: "int option"

definition no_duration :: duration where
  "no_duration = \<lparr>du_years = None, du_months = None, du_weeks = None, du_days = None, du_hours = None,
     du_minutes = None, du_seconds = None\<rparr>"

definition or_zero :: "int option \<Rightarrow> int" where "or_zero n = (case n of None \<Rightarrow> 0 | Some x \<Rightarrow> x)"

definition df_add :: "date_env \<Rightarrow> js_date \<Rightarrow> duration \<Rightarrow> js_date" where
  "df_add E d u = (let
     years = or_zero (du_years u); months = or_zero (du_months u); weeks = or_zero (du_weeks u); days = or_zero (du_days u);
     hours = or_zero (du_hours u); minutes = or_zero (du_minutes u); seconds = or_zero (du_seconds u);
     dateWithMonths = (if months \<noteq> 0 \<or> years \<noteq> 0 then addMonths E d (Some (months + years * 12)) else d);
     dateWithDays = (if days \<noteq> 0 \<or> weeks \<noteq> 0 then addDays E dateWithMonths (Some (days + weeks * 7)) else dateWithMonths);
     minutesToAdd = minutes + hours * 60; secondsToAdd = seconds + minutesToAdd * 60; msToAdd = secondsToAdd * 1000
   in constructFrom d (num_plus dateWithDays (Some msToAdd)))"

definition on_day :: "date_env \<Rightarrow> int list \<Rightarrow> js_date \<Rightarrow> bool" where
  "on_day E ds d = (case js_getDay (de_zone E) d of None \<Rightarrow> False | Some n \<Rightarrow> n \<in> set ds)"

definition isSaturday :: "date_env \<Rightarrow> js_date \<Rightarrow> bool" where "isSaturday E d = on_day E [6] d"
definition isSunday :: "date_env \<Rightarrow> js_date \<Rightarrow> bool" where "isSunday E d = on_day E [0] d"
definition isWeekend :: "date_env \<Rightarrow> js_date \<Rightarrow> bool" where "isWeekend E d = on_day E [0, 6] d"

definition step_days :: "date_env \<Rightarrow> js_date \<Rightarrow> int \<Rightarrow> js_date" where
  "step_days E d n = do {dt \<leftarrow> js_getDate (de_zone E) d; js_setDate (de_zone E) d (dt + n)}"

text \<open>
  The loop of \<open>addBusinessDays\<close>: whether it ends depends on the time zone; \<open>None\<close> stands for a loop that
  does not.
\<close>

partial_function (option) business_loop :: "date_env \<Rightarrow> int \<Rightarrow> int \<Rightarrow> js_date \<Rightarrow> js_date option" where
  "business_loop E sign rest d = (if rest > 0 then
       (let d' = step_days E d sign in business_loop E sign (if isWeekend E d' then rest else rest - 1) d')
     else Some d)"

declare business_loop.simps [code]

definition addBusinessDays :: "date_env \<Rightarrow> js_date \<Rightarrow> date_num \<Rightarrow> js_date option" where
  "addBusinessDays E d amount = (let z = de_zone E; startedOnWeekend = isWeekend E d in
     case amount of None \<Rightarrow> Some None
     | Some n \<Rightarrow> do {
         let hours = js_getHours z d;
         let sign = (if n < 0 then - 1 else 1);
         let d1 = step_days E d (trunc_div n 5 * 7);
         d2 \<leftarrow> business_loop E sign \<bar>js_rem n 5\<bar> d1;
         let weekend = (startedOnWeekend \<and> isWeekend E d2 \<and> n \<noteq> 0);
         let d3 = (if weekend \<and> isSaturday E d2 then step_days E d2 (if sign < 0 then 2 else - 1) else d2);
         let d4 = (if weekend \<and> isSunday E d3 then step_days E d3 (if sign < 0 then 1 else - 2) else d3);
         Some (do {h \<leftarrow> hours; js_setHours z d4 h})})"

definition addMilliseconds :: "js_date \<Rightarrow> date_num \<Rightarrow> js_date" where
  "addMilliseconds d amount = constructFrom d (num_plus d amount)"

definition millisecondsInWeek :: int where "millisecondsInWeek = 604800000"
definition millisecondsInDay :: int where "millisecondsInDay = 86400000"
definition millisecondsInMinute :: int where "millisecondsInMinute = 60000"
definition millisecondsInHour :: int where "millisecondsInHour = 3600000"
definition minutesInYear :: int where "minutesInYear = 525600"
definition minutesInMonth :: int where "minutesInMonth = 43200"
definition minutesInDay :: int where "minutesInDay = 1440"
definition secondsInHour :: int where "secondsInHour = 3600"
definition secondsInDay :: int where "secondsInDay = secondsInHour * 24"
definition secondsInWeek :: int where "secondsInWeek = secondsInDay * 7"
definition secondsInYear :: int where "secondsInYear = 31556952"
definition secondsInMonth :: int where "secondsInMonth = secondsInYear div 12"
definition secondsInQuarter :: int where "secondsInQuarter = secondsInMonth * 3"

definition addHours :: "js_date \<Rightarrow> date_num \<Rightarrow> js_date" where
  "addHours d amount = addMilliseconds d (num_times millisecondsInHour amount)"

section \<open>Weeks and days\<close>

definition startOfWeek :: "date_env \<Rightarrow> js_date \<Rightarrow> week_options option \<Rightarrow> js_date" where
  "startOfWeek E d opts = do {
     let z = de_zone E;
     let start = weekStartsOn E opts;
     day \<leftarrow> js_getDay z d;
     dt \<leftarrow> js_getDate z d;
     let diff = (if day < start then 7 else 0) + day - start;
     js_setHours4 z (js_setDate z d (dt - diff)) 0 0 0 0}"

definition startOfISOWeek :: "date_env \<Rightarrow> js_date \<Rightarrow> js_date" where
  "startOfISOWeek E d = startOfWeek E d iso_week"

text \<open>Midnight of a day, on a date made from 0 (the years of \<open>setFullYear\<close> are numbers).\<close>

definition midnight :: "date_env \<Rightarrow> int \<Rightarrow> int \<Rightarrow> int \<Rightarrow> js_date" where
  "midnight E y m dt = js_setHours4 (de_zone E) (js_setFullYear3 (de_zone E) (Some 0) y m dt) 0 0 0 0"

definition getISOWeekYear :: "date_env \<Rightarrow> js_date \<Rightarrow> date_num" where
  "getISOWeekYear E d = do {
     year \<leftarrow> js_getFullYear (de_zone E) d;
     let startOfNextYear = startOfISOWeek E (midnight E (year + 1) 0 4);
     let startOfThisYear = startOfISOWeek E (midnight E year 0 4);
     Some (if num_le startOfNextYear d then year + 1 else if num_le startOfThisYear d then year else year - 1)}"

definition startOfDay :: "date_env \<Rightarrow> js_date \<Rightarrow> js_date" where
  "startOfDay E d = js_setHours4 (de_zone E) d 0 0 0 0"

definition getTimezoneOffsetInMilliseconds :: "date_env \<Rightarrow> js_date \<Rightarrow> date_num" where
  "getTimezoneOffsetInMilliseconds E d = do {
     let z = de_zone E;
     y \<leftarrow> js_getFullYear z d; mo \<leftarrow> js_getMonth z d; dt \<leftarrow> js_getDate z d; h \<leftarrow> js_getHours z d;
     mi \<leftarrow> js_getMinutes z d; s \<leftarrow> js_getSeconds z d; ms \<leftarrow> js_getMilliseconds z d;
     let utcDate = js_setFullYear utc_zone (js_UTC y mo dt h mi s ms) y;
     num_minus d utcDate}"

definition without_offset :: "date_env \<Rightarrow> js_date \<Rightarrow> date_num" where
  "without_offset E d = num_minus d (getTimezoneOffsetInMilliseconds E d)"

definition differenceInCalendarDays :: "date_env \<Rightarrow> js_date \<Rightarrow> js_date \<Rightarrow> date_num" where
  "differenceInCalendarDays E l r = do {
     x \<leftarrow> num_minus (without_offset E (startOfDay E l)) (without_offset E (startOfDay E r));
     Some (round_div x millisecondsInDay)}"

definition startOfISOWeekYear :: "date_env \<Rightarrow> js_date \<Rightarrow> js_date" where
  "startOfISOWeekYear E d = do {year \<leftarrow> getISOWeekYear E d; startOfISOWeek E (midnight E year 0 4)}"

definition setISOWeekYear :: "date_env \<Rightarrow> js_date \<Rightarrow> date_num \<Rightarrow> js_date" where
  "setISOWeekYear E d weekYear = do {
     diff \<leftarrow> differenceInCalendarDays E d (startOfISOWeekYear E d);
     wy \<leftarrow> weekYear;
     step_days E (startOfISOWeekYear E (midnight E wy 0 4)) diff}"

definition addISOWeekYears :: "date_env \<Rightarrow> js_date \<Rightarrow> date_num \<Rightarrow> js_date" where
  "addISOWeekYears E d amount = setISOWeekYear E d (num_plus (getISOWeekYear E d) amount)"

definition addMinutes :: "js_date \<Rightarrow> date_num \<Rightarrow> js_date" where
  "addMinutes d amount = addMilliseconds d (num_times millisecondsInMinute amount)"
definition addQuarters :: "date_env \<Rightarrow> js_date \<Rightarrow> date_num \<Rightarrow> js_date" where
  "addQuarters E d amount = addMonths E d (num_times 3 amount)"
definition addSeconds :: "js_date \<Rightarrow> date_num \<Rightarrow> js_date" where
  "addSeconds d amount = addMilliseconds d (num_times 1000 amount)"
definition addWeeks :: "date_env \<Rightarrow> js_date \<Rightarrow> date_num \<Rightarrow> js_date" where
  "addWeeks E d amount = addDays E d (num_times 7 amount)"
definition addYears :: "date_env \<Rightarrow> js_date \<Rightarrow> date_num \<Rightarrow> js_date" where
  "addYears E d amount = addMonths E d (num_times 12 amount)"

section \<open>Intervals and comparisons\<close>

record date_interval =
  iv_start :: js_date
  iv_end :: js_date

text \<open>\<open>[a, b].sort((a, b) => a - b)\<close>: a difference that is \<open>NaN\<close> leaves the order.\<close>

definition sort2 :: "date_num \<Rightarrow> date_num \<Rightarrow> date_num \<times> date_num" where
  "sort2 a b = (if num_lt b a then (b, a) else (a, b))"

definition areIntervalsOverlapping :: "date_interval \<Rightarrow> date_interval \<Rightarrow> bool \<Rightarrow> bool" where
  "areIntervalsOverlapping l r inclusive = (let
     (ls, le) = sort2 (iv_start l) (iv_end l);
     (rs, re) = sort2 (iv_start r) (iv_end r)
   in if inclusive then num_le ls re \<and> num_le rs le else num_lt ls re \<and> num_lt rs le)"

definition max_step :: "js_date option \<Rightarrow> js_date \<Rightarrow> js_date option" where
  "max_step result d = (case result of None \<Rightarrow> Some d
     | Some r \<Rightarrow> if num_lt r d \<or> d = None then Some d else result)"

definition df_max :: "js_date list \<Rightarrow> js_date" where
  "df_max dates = (case foldl max_step None dates of None \<Rightarrow> None | Some r \<Rightarrow> r)"

definition min_step :: "js_date option \<Rightarrow> js_date \<Rightarrow> js_date option" where
  "min_step result d = (case result of None \<Rightarrow> Some d
     | Some r \<Rightarrow> if num_lt d r \<or> d = None then Some d else result)"

definition df_min :: "js_date list \<Rightarrow> js_date" where
  "df_min dates = (case foldl min_step None dates of None \<Rightarrow> None | Some r \<Rightarrow> r)"

definition clamp :: "js_date \<Rightarrow> date_interval \<Rightarrow> js_date" where
  "clamp d i = df_min [df_max [d, iv_start i], iv_end i]"

text \<open>
  The search of \<open>closestIndexTo\<close> and \<open>closestTo\<close>: nothing yet (\<open>undefined\<close>), an invalid date met (after
  which nothing is closer), or the best so far with its distance.
\<close>

datatype 'a closest = Nothing | Invalid | Best 'a int

definition closest_step :: "int \<Rightarrow> 'a closest \<Rightarrow> 'a \<times> js_date \<Rightarrow> 'a closest" where
  "closest_step t res p = (case snd p of None \<Rightarrow> Invalid
     | Some u \<Rightarrow> (case res of Nothing \<Rightarrow> Best (fst p) \<bar>t - u\<bar> | Invalid \<Rightarrow> Invalid
         | Best x m \<Rightarrow> if \<bar>t - u\<bar> < m then Best (fst p) \<bar>t - u\<bar> else res))"

definition closestIndexTo :: "js_date \<Rightarrow> js_date list \<Rightarrow> nat closest" where
  "closestIndexTo d dates = (case d of None \<Rightarrow> Invalid
     | Some t \<Rightarrow> foldl (closest_step t) Nothing (zip [0..<length dates] dates))"

definition closestTo :: "js_date \<Rightarrow> js_date list \<Rightarrow> js_date closest" where
  "closestTo d dates = (case d of None \<Rightarrow> Invalid
     | Some t \<Rightarrow> foldl (closest_step t) Nothing (zip dates dates))"

definition compareAsc :: "js_date \<Rightarrow> js_date \<Rightarrow> date_num" where
  "compareAsc l r = do {diff \<leftarrow> num_minus l r; Some (if diff < 0 then - 1 else if diff > 0 then 1 else diff)}"

definition compareDesc :: "js_date \<Rightarrow> js_date \<Rightarrow> date_num" where
  "compareDesc l r = do {diff \<leftarrow> num_minus l r; Some (if diff > 0 then - 1 else if diff < 0 then 1 else diff)}"

definition daysToWeeks :: "int \<Rightarrow> int" where "daysToWeeks days = trunc_div days 7"

definition isSameDay :: "date_env \<Rightarrow> js_date \<Rightarrow> js_date \<Rightarrow> bool" where
  "isSameDay E l r = num_eq (startOfDay E l) (startOfDay E r)"

text \<open>The loop of \<open>differenceInBusinessDays\<close>; it does not end where the days go past each other.\<close>

partial_function (option) business_days :: "date_env \<Rightarrow> int \<Rightarrow> js_date \<Rightarrow> js_date \<Rightarrow> int \<Rightarrow> int option" where
  "business_days E sign l r result = (if isSameDay E l r then Some result
     else business_days E sign l (addDays E r (Some sign)) (result + (if isWeekend E r then 0 else sign)))"

declare business_days.simps [code]

definition differenceInBusinessDays :: "date_env \<Rightarrow> js_date \<Rightarrow> js_date \<Rightarrow> date_num option" where
  "differenceInBusinessDays E l r = (if l = None \<or> r = None then Some None
     else (case differenceInCalendarDays E l r of None \<Rightarrow> None
       | Some calendarDifference \<Rightarrow> let
           sign = (if calendarDifference < 0 then - 1 else 1);
           weeks = trunc_div calendarDifference 7
         in map_option Some (business_days E sign l (addDays E r (Some (weeks * 7))) (weeks * 5))))"

section \<open>Differences\<close>

definition differenceInCalendarISOWeekYears :: "date_env \<Rightarrow> js_date \<Rightarrow> js_date \<Rightarrow> date_num" where
  "differenceInCalendarISOWeekYears E l r = num_minus (getISOWeekYear E l) (getISOWeekYear E r)"

definition differenceInCalendarISOWeeks :: "date_env \<Rightarrow> js_date \<Rightarrow> js_date \<Rightarrow> date_num" where
  "differenceInCalendarISOWeeks E l r = do {
     x \<leftarrow> num_minus (without_offset E (startOfISOWeek E l)) (without_offset E (startOfISOWeek E r));
     Some (round_div x millisecondsInWeek)}"

definition differenceInCalendarMonths :: "date_env \<Rightarrow> js_date \<Rightarrow> js_date \<Rightarrow> date_num" where
  "differenceInCalendarMonths E l r = do {
     yearDiff \<leftarrow> num_minus (js_getFullYear (de_zone E) l) (js_getFullYear (de_zone E) r);
     monthDiff \<leftarrow> num_minus (js_getMonth (de_zone E) l) (js_getMonth (de_zone E) r);
     Some (yearDiff * 12 + monthDiff)}"

definition getQuarter :: "date_env \<Rightarrow> js_date \<Rightarrow> date_num" where
  "getQuarter E d = do {m \<leftarrow> js_getMonth (de_zone E) d; Some (trunc_div m 3 + 1)}"

definition differenceInCalendarQuarters :: "date_env \<Rightarrow> js_date \<Rightarrow> js_date \<Rightarrow> date_num" where
  "differenceInCalendarQuarters E l r = do {
     yearDiff \<leftarrow> num_minus (js_getFullYear (de_zone E) l) (js_getFullYear (de_zone E) r);
     quarterDiff \<leftarrow> num_minus (getQuarter E l) (getQuarter E r);
     Some (yearDiff * 4 + quarterDiff)}"

definition differenceInCalendarWeeks :: "date_env \<Rightarrow> js_date \<Rightarrow> js_date \<Rightarrow> week_options option \<Rightarrow> date_num" where
  "differenceInCalendarWeeks E l r opts = do {
     x \<leftarrow> num_minus (without_offset E (startOfWeek E l opts)) (without_offset E (startOfWeek E r opts));
     Some (round_div x millisecondsInWeek)}"

definition differenceInCalendarYears :: "date_env \<Rightarrow> js_date \<Rightarrow> js_date \<Rightarrow> date_num" where
  "differenceInCalendarYears E l r = num_minus (js_getFullYear (de_zone E) l) (js_getFullYear (de_zone E) r)"

text \<open>\<open>a || b || ...\<close> on differences: the first that is not 0 (all are \<open>NaN\<close> when one is).\<close>

fun first_nonzero :: "int list \<Rightarrow> int" where
  "first_nonzero [] = 0"
| "first_nonzero (x # xs) = (if x \<noteq> 0 then x else first_nonzero xs)"

definition compareLocalAsc :: "date_env \<Rightarrow> js_date \<Rightarrow> js_date \<Rightarrow> date_num" where
  "compareLocalAsc E l r = do {
     let z = de_zone E;
     a \<leftarrow> num_minus (js_getFullYear z l) (js_getFullYear z r);
     b \<leftarrow> num_minus (js_getMonth z l) (js_getMonth z r);
     c \<leftarrow> num_minus (js_getDate z l) (js_getDate z r);
     d \<leftarrow> num_minus (js_getHours z l) (js_getHours z r);
     e \<leftarrow> num_minus (js_getMinutes z l) (js_getMinutes z r);
     f \<leftarrow> num_minus (js_getSeconds z l) (js_getSeconds z r);
     g \<leftarrow> num_minus (js_getMilliseconds z l) (js_getMilliseconds z r);
     let diff = first_nonzero [a, b, c, d, e, f, g];
     Some (if diff < 0 then - 1 else if diff > 0 then 1 else diff)}"

definition differenceInDays :: "date_env \<Rightarrow> js_date \<Rightarrow> js_date \<Rightarrow> date_num" where
  "differenceInDays E l r = do {
     sign \<leftarrow> compareLocalAsc E l r;
     n \<leftarrow> differenceInCalendarDays E l r;
     let difference = \<bar>n\<bar>;
     let l' = step_days E l (- (sign * difference));
     let isLastDayNotFull = (if compareLocalAsc E l' r = Some (- sign) then 1 else 0);
     Some (sign * (difference - isLastDayNotFull))}"

text \<open>\<open>getRoundingMethod\<close> for a quotient.\<close>

datatype rounding = Trunc | Round | Ceil | Floor

definition round_with :: "rounding option \<Rightarrow> int \<Rightarrow> int \<Rightarrow> int" where
  "round_with method a b = (case method of None \<Rightarrow> trunc_div a b | Some Trunc \<Rightarrow> trunc_div a b
     | Some Round \<Rightarrow> round_div a b | Some Ceil \<Rightarrow> ceil_div a b | Some Floor \<Rightarrow> a div b)"

definition differenceInMilliseconds :: "js_date \<Rightarrow> js_date \<Rightarrow> date_num" where
  "differenceInMilliseconds l r = num_minus l r"

definition difference_rounded :: "int \<Rightarrow> rounding option \<Rightarrow> date_num \<Rightarrow> date_num" where
  "difference_rounded b method x = map_option (\<lambda>a. round_with method a b) x"

definition differenceInHours :: "js_date \<Rightarrow> js_date \<Rightarrow> rounding option \<Rightarrow> date_num" where
  "differenceInHours l r m = difference_rounded millisecondsInHour m (differenceInMilliseconds l r)"

definition subISOWeekYears :: "date_env \<Rightarrow> js_date \<Rightarrow> date_num \<Rightarrow> js_date" where
  "subISOWeekYears E d amount = addISOWeekYears E d (num_neg amount)"

definition differenceInISOWeekYears :: "date_env \<Rightarrow> js_date \<Rightarrow> js_date \<Rightarrow> date_num" where
  "differenceInISOWeekYears E l r = do {
     sign \<leftarrow> compareAsc l r;
     n \<leftarrow> differenceInCalendarISOWeekYears E l r;
     let difference = \<bar>n\<bar>;
     let l' = subISOWeekYears E l (Some (sign * difference));
     let isLastISOWeekYearNotFull = (if compareAsc l' r = Some (- sign) then 1 else 0);
     Some (sign * (difference - isLastISOWeekYearNotFull))}"

definition differenceInMinutes :: "js_date \<Rightarrow> js_date \<Rightarrow> rounding option \<Rightarrow> date_num" where
  "differenceInMinutes l r m = difference_rounded millisecondsInMinute m (differenceInMilliseconds l r)"

definition endOfDay :: "date_env \<Rightarrow> js_date \<Rightarrow> js_date" where
  "endOfDay E d = js_setHours4 (de_zone E) d 23 59 59 999"

text \<open>\<open>setFullYear(getFullYear(), getMonth() + k, 0)\<close>.\<close>

definition month_end :: "date_env \<Rightarrow> js_date \<Rightarrow> int \<Rightarrow> js_date" where
  "month_end E d k = do {
     y \<leftarrow> js_getFullYear (de_zone E) d;
     m \<leftarrow> js_getMonth (de_zone E) d;
     js_setFullYear3 (de_zone E) d y (m + k) 0}"

definition endOfMonth :: "date_env \<Rightarrow> js_date \<Rightarrow> js_date" where
  "endOfMonth E d = js_setHours4 (de_zone E) (month_end E d 1) 23 59 59 999"

definition isLastDayOfMonth :: "date_env \<Rightarrow> js_date \<Rightarrow> bool" where
  "isLastDayOfMonth E d = num_eq (endOfDay E d) (endOfMonth E d)"

definition differenceInMonths :: "date_env \<Rightarrow> js_date \<Rightarrow> js_date \<Rightarrow> date_num" where
  "differenceInMonths E l r = do {
     let z = de_zone E;
     sign \<leftarrow> compareAsc l r;
     n \<leftarrow> differenceInCalendarMonths E l r;
     let difference = \<bar>n\<bar>;
     if difference < 1 then Some 0
     else do {
       month \<leftarrow> js_getMonth z l;
       dt \<leftarrow> js_getDate z l;
       let l1 = (if month = 1 \<and> dt > 27 then js_setDate z l 30 else l);
       let l2 = do {m1 \<leftarrow> js_getMonth z l1; js_setMonth z l1 (m1 - sign * difference)};
       let isLastMonthNotFull = (compareAsc l2 r = Some (- sign));
       let isLastMonthNotFull = (if isLastDayOfMonth E l \<and> difference = 1 \<and> compareAsc l r = Some 1 then False
                                 else isLastMonthNotFull);
       Some (sign * (difference - (if isLastMonthNotFull then 1 else 0)))}}"

definition differenceInQuarters :: "date_env \<Rightarrow> js_date \<Rightarrow> js_date \<Rightarrow> rounding option \<Rightarrow> date_num" where
  "differenceInQuarters E l r m = difference_rounded 3 m (differenceInMonths E l r)"

definition differenceInSeconds :: "js_date \<Rightarrow> js_date \<Rightarrow> rounding option \<Rightarrow> date_num" where
  "differenceInSeconds l r m = difference_rounded 1000 m (differenceInMilliseconds l r)"

definition differenceInWeeks :: "date_env \<Rightarrow> js_date \<Rightarrow> js_date \<Rightarrow> rounding option \<Rightarrow> date_num" where
  "differenceInWeeks E l r m = difference_rounded 7 m (differenceInDays E l r)"

definition differenceInYears :: "date_env \<Rightarrow> js_date \<Rightarrow> js_date \<Rightarrow> date_num" where
  "differenceInYears E l r = do {
     sign \<leftarrow> compareAsc l r;
     n \<leftarrow> differenceInCalendarYears E l r;
     let difference = \<bar>n\<bar>;
     let l' = js_setFullYear (de_zone E) l 1584;
     let r' = js_setFullYear (de_zone E) r 1584;
     let isLastYearNotFull = (if compareAsc l' r' = Some (- sign) then 1 else 0);
     Some (sign * (difference - isLastYearNotFull))}"

section \<open>Starts and ends\<close>

definition startOfMinute :: "date_env \<Rightarrow> js_date \<Rightarrow> js_date" where
  "startOfMinute E d = js_setSeconds2 (de_zone E) d 0 0"

definition startOfQuarter :: "date_env \<Rightarrow> js_date \<Rightarrow> js_date" where
  "startOfQuarter E d = do {
     currentMonth \<leftarrow> js_getMonth (de_zone E) d;
     js_setHours4 (de_zone E) (js_setMonth2 (de_zone E) d (currentMonth - js_rem currentMonth 3) 1) 0 0 0 0}"

definition startOfMonth :: "date_env \<Rightarrow> js_date \<Rightarrow> js_date" where
  "startOfMonth E d = js_setHours4 (de_zone E) (js_setDate (de_zone E) d 1) 0 0 0 0"

text \<open>\<open>setFullYear(y, m, d)\<close> with what is computed from the year of a date, and then a time of the day.\<close>

definition on_year :: "date_env \<Rightarrow> js_date \<Rightarrow> (int \<Rightarrow> int \<times> int \<times> int) \<Rightarrow> int \<times> int \<times> int \<times> int \<Rightarrow> js_date" where
  "on_year E d f t = do {
     year \<leftarrow> js_getFullYear (de_zone E) d;
     let (y, m, dt) = f year;
     let (h, mi, s, ms) = t;
     js_setHours4 (de_zone E) (js_setFullYear3 (de_zone E) d y m dt) h mi s ms}"

definition endOfYear :: "date_env \<Rightarrow> js_date \<Rightarrow> js_date" where
  "endOfYear E d = on_year E d (\<lambda>year. (year + 1, 0, 0)) (23, 59, 59, 999)"

definition startOfYear :: "date_env \<Rightarrow> js_date \<Rightarrow> js_date" where
  "startOfYear E d = do {y \<leftarrow> js_getFullYear (de_zone E) d; midnight E y 0 1}"

definition endOfDecade :: "date_env \<Rightarrow> js_date \<Rightarrow> js_date" where
  "endOfDecade E d = on_year E d (\<lambda>year. (9 + year div 10 * 10, 11, 31)) (23, 59, 59, 999)"

definition endOfHour :: "date_env \<Rightarrow> js_date \<Rightarrow> js_date" where
  "endOfHour E d = js_setMinutes3 (de_zone E) d 59 59 999"

definition endOfWeek :: "date_env \<Rightarrow> js_date \<Rightarrow> week_options option \<Rightarrow> js_date" where
  "endOfWeek E d opts = do {
     let z = de_zone E;
     let start = weekStartsOn E opts;
     day \<leftarrow> js_getDay z d;
     dt \<leftarrow> js_getDate z d;
     let diff = (if day < start then - 7 else 0) + 6 - (day - start);
     js_setHours4 z (js_setDate z d (dt + diff)) 23 59 59 999}"

definition endOfISOWeek :: "date_env \<Rightarrow> js_date \<Rightarrow> js_date" where
  "endOfISOWeek E d = endOfWeek E d iso_week"

definition endOfISOWeekYear :: "date_env \<Rightarrow> js_date \<Rightarrow> js_date" where
  "endOfISOWeekYear E d = do {
     year \<leftarrow> getISOWeekYear E d;
     let d' = startOfISOWeek E (midnight E (year + 1) 0 4);
     ms \<leftarrow> js_getMilliseconds (de_zone E) d';
     js_setMilliseconds (de_zone E) d' (ms - 1)}"

definition endOfMinute :: "date_env \<Rightarrow> js_date \<Rightarrow> js_date" where
  "endOfMinute E d = js_setSeconds2 (de_zone E) d 59 999"

definition endOfQuarter :: "date_env \<Rightarrow> js_date \<Rightarrow> js_date" where
  "endOfQuarter E d = do {
     currentMonth \<leftarrow> js_getMonth (de_zone E) d;
     js_setHours4 (de_zone E) (js_setMonth2 (de_zone E) d (currentMonth - js_rem currentMonth 3 + 3) 0) 23 59 59 999}"

definition endOfSecond :: "date_env \<Rightarrow> js_date \<Rightarrow> js_date" where
  "endOfSecond E d = js_setMilliseconds (de_zone E) d 999"

definition endOfToday :: "date_env \<Rightarrow> js_date" where
  "endOfToday E = endOfDay E (new_Date (Some (de_now E)))"

text \<open>The day \<open>k\<close> days after today, at a time of the day.\<close>

definition day_from_today :: "date_env \<Rightarrow> int \<Rightarrow> int \<times> int \<times> int \<times> int \<Rightarrow> js_date" where
  "day_from_today E k t = do {
     let z = de_zone E;
     let now = new_Date (Some (de_now E));
     year \<leftarrow> js_getFullYear z now; month \<leftarrow> js_getMonth z now; day \<leftarrow> js_getDate z now;
     let (h, mi, s, ms) = t;
     js_setHours4 z (js_setFullYear3 z (Some 0) year month (day + k)) h mi s ms}"

definition endOfTomorrow :: "date_env \<Rightarrow> js_date" where
  "endOfTomorrow E = day_from_today E 1 (23, 59, 59, 999)"
definition endOfYesterday :: "date_env \<Rightarrow> js_date" where
  "endOfYesterday E = day_from_today E (- 1) (23, 59, 59, 999)"

section \<open>The dates of an interval\<close>

text \<open>
  The loop of these functions: as long as the current date is not after the end, it is pushed and
  replaced by the next. It does not return when the dates do not grow (\<open>None\<close>).
\<close>

partial_function (option) each_loop :: "(js_date \<Rightarrow> js_date) \<Rightarrow> (js_date \<Rightarrow> js_date) \<Rightarrow> date_num \<Rightarrow> js_date \<Rightarrow> js_date list option" where
  "each_loop pushed following end_time cur = (if num_le cur end_time then do {
       ds \<leftarrow> each_loop pushed following end_time (following cur);
       Some (pushed cur # ds)}
     else Some [])"

declare each_loop.simps [code]

text \<open>
  What they share: which of the ends comes first, the step (1 unless given, a negative one reverses the
  list, 0 gives none) and the order of the result. \<open>begins\<close> makes the first date, \<open>ends\<close> the end.
\<close>

definition each_of_interval :: "date_interval \<Rightarrow> int option \<Rightarrow> (js_date \<Rightarrow> js_date) \<Rightarrow> (js_date \<Rightarrow> date_num) \<Rightarrow>
    (js_date \<Rightarrow> js_date) \<Rightarrow> (int \<Rightarrow> js_date \<Rightarrow> js_date) \<Rightarrow> js_date list option" where
  "each_of_interval i step_opt begins ends pushed following = (let
     reversed = num_lt (iv_end i) (iv_start i);
     end_time = ends (if reversed then iv_start i else iv_end i);
     cur = begins (if reversed then iv_end i else iv_start i);
     step = (case step_opt of None \<Rightarrow> 1 | Some s \<Rightarrow> s)
   in if step = 0 then Some []
      else do {
        ds \<leftarrow> each_loop pushed (following \<bar>step\<bar>) end_time cur;
        Some (if reversed \<noteq> (step < 0) then rev ds else ds)})"

definition eachDayOfInterval :: "date_env \<Rightarrow> date_interval \<Rightarrow> int option \<Rightarrow> js_date list option" where
  "eachDayOfInterval E i step = each_of_interval i step (startOfDay E) id id
     (\<lambda>n d. startOfDay E (step_days E d n))"

definition eachHourOfInterval :: "date_env \<Rightarrow> date_interval \<Rightarrow> int option \<Rightarrow> js_date list option" where
  "eachHourOfInterval E i step = each_of_interval i step (\<lambda>d. js_setMinutes3 (de_zone E) d 0 0 0) id id
     (\<lambda>n d. addHours d (Some n))"

text \<open>Here the start of the interval is cut to its minute before the ends are compared.\<close>

definition eachMinuteOfInterval :: "date_env \<Rightarrow> date_interval \<Rightarrow> int option \<Rightarrow> js_date list option" where
  "eachMinuteOfInterval E i step = each_of_interval (i\<lparr>iv_start := startOfMinute E (iv_start i)\<rparr>) step id id id
     (\<lambda>n d. addMinutes d (Some n))"

definition step_months :: "date_env \<Rightarrow> int \<Rightarrow> js_date \<Rightarrow> js_date" where
  "step_months E n d = do {m \<leftarrow> js_getMonth (de_zone E) d; js_setMonth (de_zone E) d (m + n)}"

definition eachMonthOfInterval :: "date_env \<Rightarrow> date_interval \<Rightarrow> int option \<Rightarrow> js_date list option" where
  "eachMonthOfInterval E i step = each_of_interval i step (\<lambda>d. js_setDate (de_zone E) (startOfDay E d) 1) id id
     (step_months E)"

definition eachQuarterOfInterval :: "date_env \<Rightarrow> date_interval \<Rightarrow> int option \<Rightarrow> js_date list option" where
  "eachQuarterOfInterval E i step = each_of_interval i step (startOfQuarter E) (startOfQuarter E) id
     (\<lambda>n d. addQuarters E d (Some n))"

definition eachWeekOfInterval :: "date_env \<Rightarrow> date_interval \<Rightarrow> week_options option \<Rightarrow> int option \<Rightarrow> js_date list option" where
  "eachWeekOfInterval E i opts step = (let at = (\<lambda>h d. js_setHours (de_zone E) d h) in
     each_of_interval i step (\<lambda>d. at 15 (startOfWeek E d opts)) (\<lambda>d. at 15 (startOfWeek E d opts)) (at 0)
       (\<lambda>n d. at 15 (addWeeks E (at 0 d) (Some n))))"

definition eachWeekendOfInterval :: "date_env \<Rightarrow> date_interval \<Rightarrow> js_date list option" where
  "eachWeekendOfInterval E i = map_option (filter (isWeekend E)) (eachDayOfInterval E i None)"

definition eachWeekendOfMonth :: "date_env \<Rightarrow> js_date \<Rightarrow> js_date list option" where
  "eachWeekendOfMonth E d = eachWeekendOfInterval E \<lparr>iv_start = startOfMonth E d, iv_end = endOfMonth E d\<rparr>"

definition eachWeekendOfYear :: "date_env \<Rightarrow> js_date \<Rightarrow> js_date list option" where
  "eachWeekendOfYear E d = eachWeekendOfInterval E \<lparr>iv_start = startOfYear E d, iv_end = endOfYear E d\<rparr>"

definition eachYearOfInterval :: "date_env \<Rightarrow> date_interval \<Rightarrow> int option \<Rightarrow> js_date list option" where
  "eachYearOfInterval E i step = each_of_interval i step (\<lambda>d. js_setMonth2 (de_zone E) (startOfDay E d) 0 1) id id
     (\<lambda>n d. do {y \<leftarrow> js_getFullYear (de_zone E) d; js_setFullYear (de_zone E) d (y + n)})"

section \<open>Weeks of the year\<close>

definition getDayOfYear :: "date_env \<Rightarrow> js_date \<Rightarrow> date_num" where
  "getDayOfYear E d = do {diff \<leftarrow> differenceInCalendarDays E d (startOfYear E d); Some (diff + 1)}"

definition getISOWeek :: "date_env \<Rightarrow> js_date \<Rightarrow> date_num" where
  "getISOWeek E d = do {
     diff \<leftarrow> num_minus (startOfISOWeek E d) (startOfISOWeekYear E d);
     Some (round_div diff millisecondsInWeek + 1)}"

definition getWeekYear :: "date_env \<Rightarrow> js_date \<Rightarrow> week_options option \<Rightarrow> date_num" where
  "getWeekYear E d opts = do {
     year \<leftarrow> js_getFullYear (de_zone E) d;
     let f = firstWeekContainsDate E opts;
     let startOfNextYear = startOfWeek E (midnight E (year + 1) 0 f) opts;
     let startOfThisYear = startOfWeek E (midnight E year 0 f) opts;
     Some (if num_le startOfNextYear d then year + 1 else if num_le startOfThisYear d then year else year - 1)}"

definition startOfWeekYear :: "date_env \<Rightarrow> js_date \<Rightarrow> week_options option \<Rightarrow> js_date" where
  "startOfWeekYear E d opts = do {
     year \<leftarrow> getWeekYear E d opts;
     startOfWeek E (midnight E year 0 (firstWeekContainsDate E opts)) opts}"

definition getWeek :: "date_env \<Rightarrow> js_date \<Rightarrow> week_options option \<Rightarrow> date_num" where
  "getWeek E d opts = do {
     diff \<leftarrow> num_minus (startOfWeek E d opts) (startOfWeekYear E d opts);
     Some (round_div diff millisecondsInWeek + 1)}"

definition getDaysInMonth :: "date_env \<Rightarrow> js_date \<Rightarrow> date_num" where
  "getDaysInMonth E d = do {
     year \<leftarrow> js_getFullYear (de_zone E) d;
     monthIndex \<leftarrow> js_getMonth (de_zone E) d;
     js_getDate (de_zone E) (midnight E year (monthIndex + 1) 0)}"

definition leap_test :: "int \<Rightarrow> bool" where
  "leap_test year = (js_rem year 400 = 0 \<or> js_rem year 4 = 0 \<and> js_rem year 100 \<noteq> 0)"

definition isLeapYear :: "date_env \<Rightarrow> js_date \<Rightarrow> bool" where
  "isLeapYear E d = (case js_getFullYear (de_zone E) d of None \<Rightarrow> False | Some year \<Rightarrow> leap_test year)"

definition getDaysInYear :: "date_env \<Rightarrow> js_date \<Rightarrow> date_num" where
  "getDaysInYear E d = (if d = None then None else Some (if isLeapYear E d then 366 else 365))"

definition getDecade :: "date_env \<Rightarrow> js_date \<Rightarrow> date_num" where
  "getDecade E d = map_option (\<lambda>year. year div 10 * 10) (js_getFullYear (de_zone E) d)"

definition getISODay :: "date_env \<Rightarrow> js_date \<Rightarrow> date_num" where
  "getISODay E d = map_option (\<lambda>day. if day = 0 then 7 else day) (js_getDay (de_zone E) d)"

definition getISOWeeksInYear :: "date_env \<Rightarrow> js_date \<Rightarrow> date_num" where
  "getISOWeeksInYear E d = (let
     thisYear = startOfISOWeekYear E d;
     nextYear = startOfISOWeekYear E (addWeeks E thisYear (Some 60))
   in map_option (\<lambda>diff. round_div diff millisecondsInWeek) (num_minus nextYear thisYear))"

definition getOverlappingDaysInIntervals :: "date_env \<Rightarrow> date_interval \<Rightarrow> date_interval \<Rightarrow> date_num" where
  "getOverlappingDaysInIntervals E l r = (let
     (leftStart, leftEnd) = sort2 (iv_start l) (iv_end l);
     (rightStart, rightEnd) = sort2 (iv_start r) (iv_end r)
   in if \<not> (num_lt leftStart rightEnd \<and> num_lt rightStart leftEnd) then Some 0
      else let
        overlapLeft = (if num_lt rightStart leftStart then leftStart else rightStart);
        left = without_offset E (new_Date overlapLeft);
        overlapRight = (if num_lt leftEnd rightEnd then leftEnd else rightEnd);
        right = without_offset E (new_Date overlapRight)
      in map_option (\<lambda>x. ceil_div x millisecondsInDay) (num_minus right left))"

definition getUnixTime :: "js_date \<Rightarrow> date_num" where
  "getUnixTime d = map_option (\<lambda>t. trunc_div t 1000) d"

definition fromUnixTime :: "date_num \<Rightarrow> js_date" where
  "fromUnixTime n = new_Date (num_times 1000 n)"

definition getWeekOfMonth :: "date_env \<Rightarrow> js_date \<Rightarrow> week_options option \<Rightarrow> date_num" where
  "getWeekOfMonth E d opts = do {
     currentDayOfMonth \<leftarrow> js_getDate (de_zone E) d;
     startWeekDay \<leftarrow> js_getDay (de_zone E) (startOfMonth E d);
     let n = weekStartsOn E opts - startWeekDay;
     let lastDayOfFirstWeek = (if n \<le> 0 then n + 7 else n);
     Some (ceil_div (currentDayOfMonth - lastDayOfFirstWeek) 7 + 1)}"

definition lastDayOfMonth :: "date_env \<Rightarrow> js_date \<Rightarrow> js_date" where
  "lastDayOfMonth E d = js_setHours4 (de_zone E) (month_end E d 1) 0 0 0 0"

definition getWeeksInMonth :: "date_env \<Rightarrow> js_date \<Rightarrow> week_options option \<Rightarrow> date_num" where
  "getWeeksInMonth E d opts = map_option (\<lambda>n. n + 1) (differenceInCalendarWeeks E (lastDayOfMonth E d) (startOfMonth E d) opts)"

text \<open>A \<open>TypeError\<close> is its text.\<close>

definition df_interval :: "js_date \<Rightarrow> js_date \<Rightarrow> bool \<Rightarrow> string + date_interval" where
  "df_interval s e assertPositive =
     (if s = None then Inl ''Start date is invalid''
      else if e = None then Inl ''End date is invalid''
      else if assertPositive \<and> num_lt e s then Inl ''End date must be after start date''
      else Inr \<lparr>iv_start = s, iv_end = e\<rparr>)"

text \<open>\<open>if (n) duration.field = n\<close>: neither 0 nor \<open>NaN\<close> is stored.\<close>

definition nonzero :: "date_num \<Rightarrow> int option" where
  "nonzero n = (if n = Some 0 then None else n)"

definition intervalToDuration :: "date_env \<Rightarrow> date_interval \<Rightarrow> duration" where
  "intervalToDuration E i = (let
     years = nonzero (differenceInYears E (iv_end i) (iv_start i));
     remainingMonths = df_add E (iv_start i) (no_duration\<lparr>du_years := years\<rparr>);
     months = nonzero (differenceInMonths E (iv_end i) remainingMonths);
     remainingDays = df_add E remainingMonths (no_duration\<lparr>du_months := months\<rparr>);
     days = nonzero (differenceInDays E (iv_end i) remainingDays);
     remainingHours = df_add E remainingDays (no_duration\<lparr>du_days := days\<rparr>);
     hours = nonzero (differenceInHours (iv_end i) remainingHours None);
     remainingMinutes = df_add E remainingHours (no_duration\<lparr>du_hours := hours\<rparr>);
     minutes = nonzero (differenceInMinutes (iv_end i) remainingMinutes None);
     remainingSeconds = df_add E remainingMinutes (no_duration\<lparr>du_minutes := minutes\<rparr>);
     seconds = nonzero (differenceInSeconds (iv_end i) remainingSeconds None)
   in no_duration\<lparr>du_years := years, du_months := months, du_days := days, du_hours := hours,
        du_minutes := minutes, du_seconds := seconds\<rparr>)"

section \<open>Getters, setters and questions\<close>

definition getDate :: "date_env \<Rightarrow> js_date \<Rightarrow> date_num" where "getDate E d = js_getDate (de_zone E) d"
definition getDay :: "date_env \<Rightarrow> js_date \<Rightarrow> date_num" where "getDay E d = js_getDay (de_zone E) d"
definition getHours :: "date_env \<Rightarrow> js_date \<Rightarrow> date_num" where "getHours E d = js_getHours (de_zone E) d"
definition getMilliseconds :: "date_env \<Rightarrow> js_date \<Rightarrow> date_num" where "getMilliseconds E d = js_getMilliseconds (de_zone E) d"
definition getMinutes :: "date_env \<Rightarrow> js_date \<Rightarrow> date_num" where "getMinutes E d = js_getMinutes (de_zone E) d"
definition getMonth :: "date_env \<Rightarrow> js_date \<Rightarrow> date_num" where "getMonth E d = js_getMonth (de_zone E) d"
definition getSeconds :: "date_env \<Rightarrow> js_date \<Rightarrow> date_num" where "getSeconds E d = js_getSeconds (de_zone E) d"
definition getYear :: "date_env \<Rightarrow> js_date \<Rightarrow> date_num" where "getYear E d = js_getFullYear (de_zone E) d"
definition getTime :: "js_date \<Rightarrow> date_num" where "getTime d = d"

text \<open>The value and the unit \<open>intlFormatDistance\<close> hands to \<open>Intl.RelativeTimeFormat\<close>, which prints them.\<close>

datatype time_unit = USecond | UMinute | UHour | UDay | UWeek | UMonth | UQuarter | UYear

definition unit_value :: "date_env \<Rightarrow> js_date \<Rightarrow> js_date \<Rightarrow> time_unit \<Rightarrow> date_num" where
  "unit_value E l r u = (case u of USecond \<Rightarrow> differenceInSeconds l r None | UMinute \<Rightarrow> differenceInMinutes l r None
     | UHour \<Rightarrow> differenceInHours l r None | UDay \<Rightarrow> differenceInCalendarDays E l r
     | UWeek \<Rightarrow> differenceInCalendarWeeks E l r None | UMonth \<Rightarrow> differenceInCalendarMonths E l r
     | UQuarter \<Rightarrow> differenceInCalendarQuarters E l r | UYear \<Rightarrow> differenceInCalendarYears E l r)"

definition abs_lt :: "date_num \<Rightarrow> int \<Rightarrow> bool" where
  "abs_lt n k = (case n of None \<Rightarrow> False | Some x \<Rightarrow> \<bar>x\<bar> < k)"

definition distance_unit :: "date_env \<Rightarrow> js_date \<Rightarrow> js_date \<Rightarrow> time_unit option \<Rightarrow> time_unit" where
  "distance_unit E l r unit = (case unit of Some u \<Rightarrow> u
     | None \<Rightarrow> let diff = differenceInSeconds l r None; days = differenceInCalendarDays E l r in
         if abs_lt diff 60 then USecond
         else if abs_lt diff secondsInHour then UMinute
         else if abs_lt diff secondsInDay \<and> abs_lt days 1 then UHour
         else if abs_lt diff secondsInWeek \<and> days \<noteq> Some 0 \<and> abs_lt days 7 then UDay
         else if abs_lt diff secondsInMonth then UWeek
         else if abs_lt diff secondsInQuarter then UMonth
         else if abs_lt diff secondsInYear then
           (if num_lt (differenceInCalendarQuarters E l r) (Some 4) then UQuarter else UYear)
         else UYear)"

definition intlFormatDistance :: "date_env \<Rightarrow> js_date \<Rightarrow> js_date \<Rightarrow> time_unit option \<Rightarrow> date_num \<times> time_unit" where
  "intlFormatDistance E l r unit = (let u = distance_unit E l r unit in (unit_value E l r u, u))"

definition isAfter :: "js_date \<Rightarrow> js_date \<Rightarrow> bool" where "isAfter d e = num_lt e d"
definition isBefore :: "js_date \<Rightarrow> js_date \<Rightarrow> bool" where "isBefore d e = num_lt d e"
definition isEqual :: "js_date \<Rightarrow> js_date \<Rightarrow> bool" where "isEqual d e = num_eq d e"

definition isExists :: "date_env \<Rightarrow> int \<Rightarrow> int \<Rightarrow> int \<Rightarrow> bool" where
  "isExists E year month day = (let d = js_new_Date (de_zone E) year month day in
     js_getFullYear (de_zone E) d = Some year \<and> js_getMonth (de_zone E) d = Some month \<and> js_getDate (de_zone E) d = Some day)"

definition isFirstDayOfMonth :: "date_env \<Rightarrow> js_date \<Rightarrow> bool" where "isFirstDayOfMonth E d = (js_getDate (de_zone E) d = Some 1)"
definition isMonday :: "date_env \<Rightarrow> js_date \<Rightarrow> bool" where "isMonday E d = on_day E [1] d"
definition isTuesday :: "date_env \<Rightarrow> js_date \<Rightarrow> bool" where "isTuesday E d = on_day E [2] d"
definition isWednesday :: "date_env \<Rightarrow> js_date \<Rightarrow> bool" where "isWednesday E d = on_day E [3] d"
definition isThursday :: "date_env \<Rightarrow> js_date \<Rightarrow> bool" where "isThursday E d = on_day E [4] d"
definition isFriday :: "date_env \<Rightarrow> js_date \<Rightarrow> bool" where "isFriday E d = on_day E [5] d"
definition isFuture :: "date_env \<Rightarrow> js_date \<Rightarrow> bool" where "isFuture E d = num_lt (Some (de_now E)) d"
definition isPast :: "date_env \<Rightarrow> js_date \<Rightarrow> bool" where "isPast E d = num_lt d (Some (de_now E))"

text \<open>The constructor is \<open>Date\<close>.\<close>

definition transpose_date :: "date_env \<Rightarrow> js_date \<Rightarrow> js_date" where
  "transpose_date E d = do {
     let z = de_zone E;
     y \<leftarrow> js_getFullYear z d; m \<leftarrow> js_getMonth z d; dt \<leftarrow> js_getDate z d;
     h \<leftarrow> js_getHours z d; mi \<leftarrow> js_getMinutes z d; s \<leftarrow> js_getSeconds z d; ms \<leftarrow> js_getMilliseconds z d;
     js_setHours4 z (js_setFullYear3 z (Some 0) y m dt) h mi s ms}"

definition setWeek :: "date_env \<Rightarrow> js_date \<Rightarrow> int \<Rightarrow> week_options option \<Rightarrow> js_date" where
  "setWeek E d week opts = do {w \<leftarrow> getWeek E d opts; step_days E d (- ((w - week) * 7))}"

definition setISOWeek :: "date_env \<Rightarrow> js_date \<Rightarrow> int \<Rightarrow> js_date" where
  "setISOWeek E d week = do {w \<leftarrow> getISOWeek E d; step_days E d (- ((w - week) * 7))}"

definition setDay :: "date_env \<Rightarrow> js_date \<Rightarrow> int \<Rightarrow> week_options option \<Rightarrow> js_date" where
  "setDay E d day opts = do {
     currentDay \<leftarrow> js_getDay (de_zone E) d;
     let remainder = js_rem day 7;
     let dayIndex = js_rem (remainder + 7) 7;
     let delta = 7 - weekStartsOn E opts;
     let diff = (if day < 0 \<or> day > 6 then day - js_rem (currentDay + delta) 7
                 else js_rem (dayIndex + delta) 7 - js_rem (currentDay + delta) 7);
     addDays E d (Some diff)}"

definition setISODay :: "date_env \<Rightarrow> js_date \<Rightarrow> int \<Rightarrow> js_date" where
  "setISODay E d day = do {currentDay \<leftarrow> getISODay E d; addDays E d (Some (day - currentDay))}"

definition startOfHour :: "date_env \<Rightarrow> js_date \<Rightarrow> js_date" where
  "startOfHour E d = js_setMinutes3 (de_zone E) d 0 0 0"
definition startOfSecond :: "date_env \<Rightarrow> js_date \<Rightarrow> js_date" where
  "startOfSecond E d = js_setMilliseconds (de_zone E) d 0"

definition isSameHour :: "date_env \<Rightarrow> js_date \<Rightarrow> js_date \<Rightarrow> bool" where
  "isSameHour E l r = num_eq (startOfHour E l) (startOfHour E r)"
definition isSameMinute :: "date_env \<Rightarrow> js_date \<Rightarrow> js_date \<Rightarrow> bool" where
  "isSameMinute E l r = num_eq (startOfMinute E l) (startOfMinute E r)"
definition isSameQuarter :: "date_env \<Rightarrow> js_date \<Rightarrow> js_date \<Rightarrow> bool" where
  "isSameQuarter E l r = num_eq (startOfQuarter E l) (startOfQuarter E r)"
definition isSameSecond :: "date_env \<Rightarrow> js_date \<Rightarrow> js_date \<Rightarrow> bool" where
  "isSameSecond E l r = num_eq (startOfSecond E l) (startOfSecond E r)"
definition isSameWeek :: "date_env \<Rightarrow> js_date \<Rightarrow> js_date \<Rightarrow> week_options option \<Rightarrow> bool" where
  "isSameWeek E l r opts = num_eq (startOfWeek E l opts) (startOfWeek E r opts)"
definition isSameISOWeek :: "date_env \<Rightarrow> js_date \<Rightarrow> js_date \<Rightarrow> bool" where "isSameISOWeek E l r = isSameWeek E l r iso_week"
definition isSameISOWeekYear :: "date_env \<Rightarrow> js_date \<Rightarrow> js_date \<Rightarrow> bool" where
  "isSameISOWeekYear E l r = num_eq (startOfISOWeekYear E l) (startOfISOWeekYear E r)"
definition isSameYear :: "date_env \<Rightarrow> js_date \<Rightarrow> js_date \<Rightarrow> bool" where
  "isSameYear E l r = num_eq (js_getFullYear (de_zone E) l) (js_getFullYear (de_zone E) r)"
definition isSameMonth :: "date_env \<Rightarrow> js_date \<Rightarrow> js_date \<Rightarrow> bool" where
  "isSameMonth E l r = (isSameYear E l r \<and> num_eq (js_getMonth (de_zone E) l) (js_getMonth (de_zone E) r))"

definition isThisHour :: "date_env \<Rightarrow> js_date \<Rightarrow> bool" where "isThisHour E d = isSameHour E d (constructNow E d)"
definition isThisISOWeek :: "date_env \<Rightarrow> js_date \<Rightarrow> bool" where "isThisISOWeek E d = isSameISOWeek E d (constructNow E d)"
definition isThisMinute :: "date_env \<Rightarrow> js_date \<Rightarrow> bool" where "isThisMinute E d = isSameMinute E d (constructNow E d)"
definition isThisMonth :: "date_env \<Rightarrow> js_date \<Rightarrow> bool" where "isThisMonth E d = isSameMonth E d (constructNow E d)"
definition isThisQuarter :: "date_env \<Rightarrow> js_date \<Rightarrow> bool" where "isThisQuarter E d = isSameQuarter E d (constructNow E d)"
definition isThisSecond :: "date_env \<Rightarrow> js_date \<Rightarrow> bool" where "isThisSecond E d = isSameSecond E d (constructNow E d)"
definition isThisYear :: "date_env \<Rightarrow> js_date \<Rightarrow> bool" where "isThisYear E d = isSameYear E d (constructNow E d)"
definition isThisWeek :: "date_env \<Rightarrow> js_date \<Rightarrow> week_options option \<Rightarrow> bool" where
  "isThisWeek E d opts = isSameWeek E d (constructNow E d) opts"
definition subDays :: "date_env \<Rightarrow> js_date \<Rightarrow> date_num \<Rightarrow> js_date" where "subDays E d amount = addDays E d (num_neg amount)"
definition isToday :: "date_env \<Rightarrow> js_date \<Rightarrow> bool" where "isToday E d = isSameDay E d (constructNow E d)"
definition isTomorrow :: "date_env \<Rightarrow> js_date \<Rightarrow> bool" where
  "isTomorrow E d = isSameDay E d (addDays E (constructNow E d) (Some 1))"
definition isYesterday :: "date_env \<Rightarrow> js_date \<Rightarrow> bool" where
  "isYesterday E d = isSameDay E d (subDays E (constructNow E d) (Some 1))"

definition isWithinInterval :: "js_date \<Rightarrow> date_interval \<Rightarrow> bool" where
  "isWithinInterval d i = (let (s, e) = sort2 (iv_start i) (iv_end i) in num_le s d \<and> num_le d e)"

definition lastDayOfDecade :: "date_env \<Rightarrow> js_date \<Rightarrow> js_date" where
  "lastDayOfDecade E d = on_year E d (\<lambda>year. (9 + year div 10 * 10 + 1, 0, 0)) (0, 0, 0, 0)"

definition lastDayOfWeek :: "date_env \<Rightarrow> js_date \<Rightarrow> week_options option \<Rightarrow> js_date" where
  "lastDayOfWeek E d opts = do {
     let start = weekStartsOn E opts;
     day \<leftarrow> js_getDay (de_zone E) d;
     let diff = (if day < start then - 7 else 0) + 6 - (day - start);
     step_days E (startOfDay E d) diff}"

definition lastDayOfISOWeek :: "date_env \<Rightarrow> js_date \<Rightarrow> js_date" where
  "lastDayOfISOWeek E d = lastDayOfWeek E d iso_week"

definition lastDayOfISOWeekYear :: "date_env \<Rightarrow> js_date \<Rightarrow> js_date" where
  "lastDayOfISOWeekYear E d = do {
     year \<leftarrow> getISOWeekYear E d;
     step_days E (startOfISOWeek E (midnight E (year + 1) 0 4)) (- 1)}"

definition lastDayOfQuarter :: "date_env \<Rightarrow> js_date \<Rightarrow> js_date" where
  "lastDayOfQuarter E d = do {
     currentMonth \<leftarrow> js_getMonth (de_zone E) d;
     js_setHours4 (de_zone E) (js_setMonth2 (de_zone E) d (currentMonth - js_rem currentMonth 3 + 3) 0) 0 0 0 0}"

definition lastDayOfYear :: "date_env \<Rightarrow> js_date \<Rightarrow> js_date" where
  "lastDayOfYear E d = on_year E d (\<lambda>year. (year + 1, 0, 0)) (0, 0, 0, 0)"

definition nextDay :: "date_env \<Rightarrow> js_date \<Rightarrow> int \<Rightarrow> js_date" where
  "nextDay E d day = do {n \<leftarrow> getDay E d; let delta = day - n; addDays E d (Some (if delta \<le> 0 then delta + 7 else delta))}"

definition previousDay :: "date_env \<Rightarrow> js_date \<Rightarrow> int \<Rightarrow> js_date" where
  "previousDay E d day = do {n \<leftarrow> getDay E d; let delta = n - day; subDays E d (Some (if delta \<le> 0 then delta + 7 else delta))}"

definition nextFriday :: "date_env \<Rightarrow> js_date \<Rightarrow> js_date" where "nextFriday E d = nextDay E d 5"
definition nextMonday :: "date_env \<Rightarrow> js_date \<Rightarrow> js_date" where "nextMonday E d = nextDay E d 1"
definition nextSaturday :: "date_env \<Rightarrow> js_date \<Rightarrow> js_date" where "nextSaturday E d = nextDay E d 6"
definition nextSunday :: "date_env \<Rightarrow> js_date \<Rightarrow> js_date" where "nextSunday E d = nextDay E d 0"
definition nextThursday :: "date_env \<Rightarrow> js_date \<Rightarrow> js_date" where "nextThursday E d = nextDay E d 4"
definition nextTuesday :: "date_env \<Rightarrow> js_date \<Rightarrow> js_date" where "nextTuesday E d = nextDay E d 2"
definition nextWednesday :: "date_env \<Rightarrow> js_date \<Rightarrow> js_date" where "nextWednesday E d = nextDay E d 3"
definition previousFriday :: "date_env \<Rightarrow> js_date \<Rightarrow> js_date" where "previousFriday E d = previousDay E d 5"
definition previousMonday :: "date_env \<Rightarrow> js_date \<Rightarrow> js_date" where "previousMonday E d = previousDay E d 1"
definition previousSaturday :: "date_env \<Rightarrow> js_date \<Rightarrow> js_date" where "previousSaturday E d = previousDay E d 6"
definition previousSunday :: "date_env \<Rightarrow> js_date \<Rightarrow> js_date" where "previousSunday E d = previousDay E d 0"
definition previousThursday :: "date_env \<Rightarrow> js_date \<Rightarrow> js_date" where "previousThursday E d = previousDay E d 4"
definition previousTuesday :: "date_env \<Rightarrow> js_date \<Rightarrow> js_date" where "previousTuesday E d = previousDay E d 2"
definition previousWednesday :: "date_env \<Rightarrow> js_date \<Rightarrow> js_date" where "previousWednesday E d = previousDay E d 3"

definition setMonth :: "date_env \<Rightarrow> js_date \<Rightarrow> int \<Rightarrow> js_date" where
  "setMonth E d month = do {
     year \<leftarrow> js_getFullYear (de_zone E) d;
     day \<leftarrow> js_getDate (de_zone E) d;
     daysInMonth \<leftarrow> getDaysInMonth E (midnight E year month 15);
     js_setMonth2 (de_zone E) d month (min day daysInMonth)}"

record date_values =
  dv_year :: "int option"
  dv_month :: "int option"
  dv_date :: "int option"
  dv_hours :: "int option"
  dv_minutes :: "int option"
  dv_seconds :: "int option"
  dv_milliseconds :: "int option"

definition when_given :: "int option \<Rightarrow> (js_date \<Rightarrow> int \<Rightarrow> js_date) \<Rightarrow> js_date \<Rightarrow> js_date" where
  "when_given v f d = (case v of None \<Rightarrow> d | Some n \<Rightarrow> f d n)"

definition df_set :: "date_env \<Rightarrow> js_date \<Rightarrow> date_values \<Rightarrow> js_date" where
  "df_set E d v = (let z = de_zone E in if d = None then None else
     when_given (dv_milliseconds v) (js_setMilliseconds z) (when_given (dv_seconds v) (js_setSeconds z)
     (when_given (dv_minutes v) (js_setMinutes z) (when_given (dv_hours v) (js_setHours z)
     (when_given (dv_date v) (js_setDate z) (when_given (dv_month v) (setMonth E)
     (when_given (dv_year v) (js_setFullYear z) d)))))))"

definition setDayOfYear :: "date_env \<Rightarrow> js_date \<Rightarrow> int \<Rightarrow> js_date" where
  "setDayOfYear E d n = js_setDate (de_zone E) (js_setMonth (de_zone E) d 0) n"

definition setQuarter :: "date_env \<Rightarrow> js_date \<Rightarrow> int \<Rightarrow> js_date" where
  "setQuarter E d quarter = do {
     month \<leftarrow> js_getMonth (de_zone E) d;
     let oldQuarter = trunc_div month 3 + 1;
     setMonth E d (month + (quarter - oldQuarter) * 3)}"

definition setWeekYear :: "date_env \<Rightarrow> js_date \<Rightarrow> int \<Rightarrow> week_options option \<Rightarrow> js_date" where
  "setWeekYear E d weekYear opts = do {
     diff \<leftarrow> differenceInCalendarDays E d (startOfWeekYear E d opts);
     step_days E (startOfWeekYear E (midnight E weekYear 0 (firstWeekContainsDate E opts)) opts) diff}"

definition setYear :: "date_env \<Rightarrow> js_date \<Rightarrow> int \<Rightarrow> js_date" where
  "setYear E d year = (if d = None then None else js_setFullYear (de_zone E) d year)"

definition setDate :: "date_env \<Rightarrow> js_date \<Rightarrow> int \<Rightarrow> js_date" where "setDate E d n = js_setDate (de_zone E) d n"
definition setHours :: "date_env \<Rightarrow> js_date \<Rightarrow> int \<Rightarrow> js_date" where "setHours E d n = js_setHours (de_zone E) d n"
definition setMilliseconds :: "date_env \<Rightarrow> js_date \<Rightarrow> int \<Rightarrow> js_date" where "setMilliseconds E d n = js_setMilliseconds (de_zone E) d n"
definition setMinutes :: "date_env \<Rightarrow> js_date \<Rightarrow> int \<Rightarrow> js_date" where "setMinutes E d n = js_setMinutes (de_zone E) d n"
definition setSeconds :: "date_env \<Rightarrow> js_date \<Rightarrow> int \<Rightarrow> js_date" where "setSeconds E d n = js_setSeconds (de_zone E) d n"

definition startOfDecade :: "date_env \<Rightarrow> js_date \<Rightarrow> js_date" where
  "startOfDecade E d = on_year E d (\<lambda>year. (year div 10 * 10, 0, 1)) (0, 0, 0, 0)"

definition startOfToday :: "date_env \<Rightarrow> js_date" where "startOfToday E = startOfDay E (new_Date (Some (de_now E)))"
definition startOfTomorrow :: "date_env \<Rightarrow> js_date" where "startOfTomorrow E = day_from_today E 1 (0, 0, 0, 0)"
definition startOfYesterday :: "date_env \<Rightarrow> js_date" where "startOfYesterday E = day_from_today E (- 1) (0, 0, 0, 0)"

section \<open>Subtracting, and units\<close>

definition subMonths :: "date_env \<Rightarrow> js_date \<Rightarrow> date_num \<Rightarrow> js_date" where "subMonths E d amount = addMonths E d (num_neg amount)"

definition df_sub :: "date_env \<Rightarrow> js_date \<Rightarrow> duration \<Rightarrow> js_date" where
  "df_sub E d u = (let
     years = or_zero (du_years u); months = or_zero (du_months u); weeks = or_zero (du_weeks u); days = or_zero (du_days u);
     hours = or_zero (du_hours u); minutes = or_zero (du_minutes u); seconds = or_zero (du_seconds u);
     dateWithoutMonths = subMonths E d (Some (months + years * 12));
     dateWithoutDays = subDays E dateWithoutMonths (Some (days + weeks * 7));
     minutestoSub = minutes + hours * 60; secondstoSub = seconds + minutestoSub * 60; mstoSub = secondstoSub * 1000
   in constructFrom d (num_minus dateWithoutDays (Some mstoSub)))"

definition subBusinessDays :: "date_env \<Rightarrow> js_date \<Rightarrow> date_num \<Rightarrow> js_date option" where
  "subBusinessDays E d amount = addBusinessDays E d (num_neg amount)"
definition subHours :: "js_date \<Rightarrow> date_num \<Rightarrow> js_date" where "subHours d amount = addHours d (num_neg amount)"
definition subMilliseconds :: "js_date \<Rightarrow> date_num \<Rightarrow> js_date" where "subMilliseconds d amount = addMilliseconds d (num_neg amount)"
definition subMinutes :: "js_date \<Rightarrow> date_num \<Rightarrow> js_date" where "subMinutes d amount = addMinutes d (num_neg amount)"
definition subSeconds :: "js_date \<Rightarrow> date_num \<Rightarrow> js_date" where "subSeconds d amount = addSeconds d (num_neg amount)"
definition subQuarters :: "date_env \<Rightarrow> js_date \<Rightarrow> date_num \<Rightarrow> js_date" where "subQuarters E d amount = addQuarters E d (num_neg amount)"
definition subWeeks :: "date_env \<Rightarrow> js_date \<Rightarrow> date_num \<Rightarrow> js_date" where "subWeeks E d amount = addWeeks E d (num_neg amount)"
definition subYears :: "date_env \<Rightarrow> js_date \<Rightarrow> date_num \<Rightarrow> js_date" where "subYears E d amount = addYears E d (num_neg amount)"

definition hoursToMilliseconds :: "int \<Rightarrow> int" where "hoursToMilliseconds n = n * millisecondsInHour"
definition hoursToMinutes :: "int \<Rightarrow> int" where "hoursToMinutes n = n * 60"
definition hoursToSeconds :: "int \<Rightarrow> int" where "hoursToSeconds n = n * secondsInHour"
definition minutesToMilliseconds :: "int \<Rightarrow> int" where "minutesToMilliseconds n = n * millisecondsInMinute"
definition minutesToSeconds :: "int \<Rightarrow> int" where "minutesToSeconds n = n * 60"
definition quartersToMonths :: "int \<Rightarrow> int" where "quartersToMonths n = n * 3"
definition secondsToMilliseconds :: "int \<Rightarrow> int" where "secondsToMilliseconds n = n * 1000"
definition weeksToDays :: "int \<Rightarrow> int" where "weeksToDays n = n * 7"
definition yearsToMonths :: "int \<Rightarrow> int" where "yearsToMonths n = n * 12"
definition yearsToQuarters :: "int \<Rightarrow> int" where "yearsToQuarters n = n * 4"
definition millisecondsToHours :: "int \<Rightarrow> int" where "millisecondsToHours n = trunc_div n millisecondsInHour"
definition millisecondsToMinutes :: "int \<Rightarrow> int" where "millisecondsToMinutes n = trunc_div n millisecondsInMinute"
definition millisecondsToSeconds :: "int \<Rightarrow> int" where "millisecondsToSeconds n = trunc_div n 1000"
definition minutesToHours :: "int \<Rightarrow> int" where "minutesToHours n = trunc_div n 60"
definition monthsToQuarters :: "int \<Rightarrow> int" where "monthsToQuarters n = trunc_div n 3"
definition monthsToYears :: "int \<Rightarrow> int" where "monthsToYears n = trunc_div n 12"
definition quartersToYears :: "int \<Rightarrow> int" where "quartersToYears n = trunc_div n 4"
definition secondsToHours :: "int \<Rightarrow> int" where "secondsToHours n = trunc_div n secondsInHour"
definition secondsToMinutes :: "int \<Rightarrow> int" where "secondsToMinutes n = trunc_div n 60"

end
