(* ===== verification/DateFormat.thy ===== *)
theory DateFormat
  imports DateFns
begin

text \<open>
  How the date library (\<open>ui/.vite/deps/date-fns.js\<close>) prints and reads dates: the locale en-US, the
  formatters of \<open>format\<close> with its tokens, distances between dates, and the ISO formats. The locale of the
  options is en-US. \<open>None\<close> is a \<open>RangeError\<close>.
\<close>

section \<open>The locale\<close>

text \<open>\<open>s.replace(p, r)\<close> for texts: the first occurrence.\<close>

fun replace_first :: "string \<Rightarrow> string \<Rightarrow> string \<Rightarrow> string" where
  "replace_first p r [] = (if p = [] then r else [])"
| "replace_first p r (c # s) = (if starts_with (c # s) p then r @ drop (length p) (c # s) else c # replace_first p r s)"

datatype distance_text = Constant string | Counted string string

definition formatDistanceLocale :: "(string \<times> distance_text) list" where
  "formatDistanceLocale = [
     (''lessThanXSeconds'', Counted ''less than a second'' ''less than {{count}} seconds''),
     (''xSeconds'', Counted ''1 second'' ''{{count}} seconds''),
     (''halfAMinute'', Constant ''half a minute''),
     (''lessThanXMinutes'', Counted ''less than a minute'' ''less than {{count}} minutes''),
     (''xMinutes'', Counted ''1 minute'' ''{{count}} minutes''),
     (''aboutXHours'', Counted ''about 1 hour'' ''about {{count}} hours''),
     (''xHours'', Counted ''1 hour'' ''{{count}} hours''),
     (''xDays'', Counted ''1 day'' ''{{count}} days''),
     (''aboutXWeeks'', Counted ''about 1 week'' ''about {{count}} weeks''),
     (''xWeeks'', Counted ''1 week'' ''{{count}} weeks''),
     (''aboutXMonths'', Counted ''about 1 month'' ''about {{count}} months''),
     (''xMonths'', Counted ''1 month'' ''{{count}} months''),
     (''aboutXYears'', Counted ''about 1 year'' ''about {{count}} years''),
     (''xYears'', Counted ''1 year'' ''{{count}} years''),
     (''overXYears'', Counted ''over 1 year'' ''over {{count}} years''),
     (''almostXYears'', Counted ''almost 1 year'' ''almost {{count}} years'')]"

text \<open>The options of the locale's \<open>formatDistance\<close>: whether a suffix is added, and the comparison of the dates.\<close>

definition distance_suffix :: "bool \<Rightarrow> int \<Rightarrow> string \<Rightarrow> string" where
  "distance_suffix addSuffix comparison t =
     (if addSuffix then (if comparison > 0 then ''in '' @ t else t @ '' ago'') else t)"

definition locale_formatDistance :: "string \<Rightarrow> int \<Rightarrow> bool \<Rightarrow> int \<Rightarrow> string option" where
  "locale_formatDistance token count addSuffix comparison =
     map_option (\<lambda>v. distance_suffix addSuffix comparison (case v of
         Constant t \<Rightarrow> t
       | Counted one other \<Rightarrow> if count = 1 then one else replace_first ''{{count}}'' (show_int count) other))
     (al_get formatDistanceLocale token)"

datatype width = Narrow | Short | Abbreviated | Medium | Long | Wide | Full
datatype fmt_context = Formatting | Standalone

text \<open>The quote that escapes letters in a format.\<close>

definition quote :: char where "quote = CHR 0x27"

definition dateFormats :: "(width \<times> string) list" where
  "dateFormats = [(Full, ''EEEE, MMMM do, y''), (Long, ''MMMM do, y''), (Medium, ''MMM d, y''), (Short, ''MM/dd/yyyy'')]"

definition timeFormats :: "(width \<times> string) list" where
  "timeFormats = [(Full, ''h:mm:ss a zzzz''), (Long, ''h:mm:ss a z''), (Medium, ''h:mm:ss a''), (Short, ''h:mm a'')]"

definition dateTimeFormats :: "(width \<times> string) list" where
  "dateTimeFormats = [(Full, ''{{date}} '' @ [quote] @ ''at'' @ [quote] @ '' {{time}}''),
     (Long, ''{{date}} '' @ [quote] @ ''at'' @ [quote] @ '' {{time}}''), (Medium, ''{{date}}, {{time}}''), (Short, ''{{date}}, {{time}}'')]"

text \<open>\<open>buildFormatLongFn\<close>: the format of a width, or that of the default width.\<close>

definition buildFormatLongFn :: "(width \<times> string) list \<Rightarrow> width \<Rightarrow> width \<Rightarrow> string" where
  "buildFormatLongFn formats defaultWidth w = (case al_get formats w of Some f \<Rightarrow> f
     | None \<Rightarrow> (case al_get formats defaultWidth of Some f \<Rightarrow> f | None \<Rightarrow> []))"

definition formatLong_date :: "width \<Rightarrow> string" where "formatLong_date = buildFormatLongFn dateFormats Full"
definition formatLong_time :: "width \<Rightarrow> string" where "formatLong_time = buildFormatLongFn timeFormats Full"
definition formatLong_dateTime :: "width \<Rightarrow> string" where "formatLong_dateTime = buildFormatLongFn dateTimeFormats Full"

definition formatRelativeLocale :: "(string \<times> string) list" where
  "formatRelativeLocale = [(''lastWeek'', [quote] @ ''last'' @ [quote] @ '' eeee '' @ [quote] @ ''at'' @ [quote] @ '' p''),
     (''yesterday'', [quote] @ ''yesterday at'' @ [quote] @ '' p''), (''today'', [quote] @ ''today at'' @ [quote] @ '' p''),
     (''tomorrow'', [quote] @ ''tomorrow at'' @ [quote] @ '' p''), (''nextWeek'', ''eeee '' @ [quote] @ ''at'' @ [quote] @ '' p''),
     (''other'', ''P'')]"

text \<open>
  \<open>buildLocalizeFn\<close>: the values of a width, or of the default width; a context of its own when there are
  values for formatting.
\<close>

record 'k localize_args =
  la_values :: "(width \<times> ('k \<Rightarrow> string)) list"
  la_defaultWidth :: width
  la_formattingValues :: "(width \<times> ('k \<Rightarrow> string)) list option"

definition values_of :: "(width \<times> ('k \<Rightarrow> string)) list \<Rightarrow> width \<Rightarrow> width \<Rightarrow> 'k \<Rightarrow> string" where
  "values_of vs defaultWidth w = (case al_get vs w of Some f \<Rightarrow> f
     | None \<Rightarrow> (case al_get vs defaultWidth of Some f \<Rightarrow> f | None \<Rightarrow> (\<lambda>k. [])))"

definition buildLocalizeFn :: "'k localize_args \<Rightarrow> 'k \<Rightarrow> width \<Rightarrow> fmt_context \<Rightarrow> string" where
  "buildLocalizeFn args k w ctx = (case (ctx, la_formattingValues args) of
       (Formatting, Some vs) \<Rightarrow> values_of vs (la_defaultWidth args) w k
     | _ \<Rightarrow> values_of (la_values args) (la_defaultWidth args) w k)"

text \<open>An array indexed from 0; \<open>undefined\<close> joins as nothing.\<close>

definition array :: "string list \<Rightarrow> int \<Rightarrow> string" where
  "array xs i = (if 0 \<le> i \<and> nat i < length xs then xs ! nat i else [])"

definition eraValues :: "(width \<times> (int \<Rightarrow> string)) list" where
  "eraValues = [(Narrow, array [''B'', ''A'']), (Abbreviated, array [''BC'', ''AD'']), (Wide, array [''Before Christ'', ''Anno Domini''])]"

definition quarterValues :: "(width \<times> (int \<Rightarrow> string)) list" where
  "quarterValues = [(Narrow, array [''1'', ''2'', ''3'', ''4'']), (Abbreviated, array [''Q1'', ''Q2'', ''Q3'', ''Q4'']),
     (Wide, array [''1st quarter'', ''2nd quarter'', ''3rd quarter'', ''4th quarter''])]"

definition month_names :: "string list" where
  "month_names = [''January'', ''February'', ''March'', ''April'', ''May'', ''June'',
     ''July'', ''August'', ''September'', ''October'', ''November'', ''December'']"

definition month_abbreviations :: "string list" where
  "month_abbreviations = [''Jan'', ''Feb'', ''Mar'', ''Apr'', ''May'', ''Jun'', ''Jul'', ''Aug'', ''Sep'', ''Oct'', ''Nov'', ''Dec'']"

definition monthValues :: "(width \<times> (int \<Rightarrow> string)) list" where
  "monthValues = [(Narrow, array [''J'', ''F'', ''M'', ''A'', ''M'', ''J'', ''J'', ''A'', ''S'', ''O'', ''N'', ''D'']),
     (Abbreviated, array month_abbreviations), (Wide, array month_names)]"

definition dayValues :: "(width \<times> (int \<Rightarrow> string)) list" where
  "dayValues = [(Narrow, array [''S'', ''M'', ''T'', ''W'', ''T'', ''F'', ''S'']), (Short, array [''Su'', ''Mo'', ''Tu'', ''We'', ''Th'', ''Fr'', ''Sa'']),
     (Abbreviated, array [''Sun'', ''Mon'', ''Tue'', ''Wed'', ''Thu'', ''Fri'', ''Sat'']),
     (Wide, array [''Sunday'', ''Monday'', ''Tuesday'', ''Wednesday'', ''Thursday'', ''Friday'', ''Saturday''])]"

datatype day_period = Am | Pm | Midnight | Noon | Morning | Afternoon | Evening | Night

definition dayPeriodValues :: "(width \<times> (day_period \<Rightarrow> string)) list" where
  "dayPeriodValues =
     [(Narrow, case_day_period ''a'' ''p'' ''mi'' ''n'' ''morning'' ''afternoon'' ''evening'' ''night''),
      (Abbreviated, case_day_period ''AM'' ''PM'' ''midnight'' ''noon'' ''morning'' ''afternoon'' ''evening'' ''night''),
      (Wide, case_day_period ''a.m.'' ''p.m.'' ''midnight'' ''noon'' ''morning'' ''afternoon'' ''evening'' ''night'')]"

definition formattingDayPeriodValues :: "(width \<times> (day_period \<Rightarrow> string)) list" where
  "formattingDayPeriodValues =
     [(Narrow, case_day_period ''a'' ''p'' ''mi'' ''n'' ''in the morning'' ''in the afternoon'' ''in the evening'' ''at night''),
      (Abbreviated, case_day_period ''AM'' ''PM'' ''midnight'' ''noon'' ''in the morning'' ''in the afternoon'' ''in the evening'' ''at night''),
      (Wide, case_day_period ''a.m.'' ''p.m.'' ''midnight'' ''noon'' ''in the morning'' ''in the afternoon'' ''in the evening'' ''at night'')]"

definition show_num :: "date_num \<Rightarrow> string" where
  "show_num n = (case n of None \<Rightarrow> ''NaN'' | Some i \<Rightarrow> show_int i)"

definition ordinalNumber :: "date_num \<Rightarrow> string" where
  "ordinalNumber n = show_num n @ (case n of None \<Rightarrow> ''th'' | Some i \<Rightarrow> let rem100 = js_rem i 100; r = js_rem rem100 10 in
     if rem100 > 20 \<or> rem100 < 10 then (if r = 1 then ''st'' else if r = 2 then ''nd'' else if r = 3 then ''rd'' else ''th'') else ''th'')"

definition localize_era :: "int \<Rightarrow> width \<Rightarrow> fmt_context \<Rightarrow> string" where
  "localize_era = buildLocalizeFn \<lparr>la_values = eraValues, la_defaultWidth = Wide, la_formattingValues = None\<rparr>"
definition localize_quarter :: "int \<Rightarrow> width \<Rightarrow> fmt_context \<Rightarrow> string" where
  "localize_quarter q = buildLocalizeFn \<lparr>la_values = quarterValues, la_defaultWidth = Wide, la_formattingValues = None\<rparr> (q - 1)"
definition localize_month :: "int \<Rightarrow> width \<Rightarrow> fmt_context \<Rightarrow> string" where
  "localize_month = buildLocalizeFn \<lparr>la_values = monthValues, la_defaultWidth = Wide, la_formattingValues = None\<rparr>"
definition localize_day :: "int \<Rightarrow> width \<Rightarrow> fmt_context \<Rightarrow> string" where
  "localize_day = buildLocalizeFn \<lparr>la_values = dayValues, la_defaultWidth = Wide, la_formattingValues = None\<rparr>"
definition localize_dayPeriod :: "day_period \<Rightarrow> width \<Rightarrow> fmt_context \<Rightarrow> string" where
  "localize_dayPeriod = buildLocalizeFn \<lparr>la_values = dayPeriodValues, la_defaultWidth = Wide,
     la_formattingValues = Some formattingDayPeriodValues\<rparr>"

section \<open>The formatters\<close>

text \<open>The fields of a valid date.\<close>

definition yearOf :: "date_env \<Rightarrow> int \<Rightarrow> int" where "yearOf E t = YearFromTime (LocalTime (de_zone E) t)"
definition monthOf :: "date_env \<Rightarrow> int \<Rightarrow> int" where "monthOf E t = MonthFromTime (LocalTime (de_zone E) t)"
definition dateOf :: "date_env \<Rightarrow> int \<Rightarrow> int" where "dateOf E t = DateFromTime (LocalTime (de_zone E) t)"
definition dayOf :: "date_env \<Rightarrow> int \<Rightarrow> int" where "dayOf E t = WeekDay (LocalTime (de_zone E) t)"
definition hoursOf :: "date_env \<Rightarrow> int \<Rightarrow> int" where "hoursOf E t = HourFromTime (LocalTime (de_zone E) t)"
definition minutesOf :: "date_env \<Rightarrow> int \<Rightarrow> int" where "minutesOf E t = MinFromTime (LocalTime (de_zone E) t)"
definition secondsOf :: "date_env \<Rightarrow> int \<Rightarrow> int" where "secondsOf E t = SecFromTime (LocalTime (de_zone E) t)"
definition millisOf :: "date_env \<Rightarrow> int \<Rightarrow> int" where "millisOf E t = msFromTime (LocalTime (de_zone E) t)"
definition offsetOf :: "date_env \<Rightarrow> int \<Rightarrow> int" where "offsetOf E t = - whole_minutes (tz_utc (de_zone E) t)"

definition addLeadingZeros :: "date_num \<Rightarrow> nat \<Rightarrow> string" where
  "addLeadingZeros n len = (case n of None \<Rightarrow> pad_zeros len ''NaN''
     | Some i \<Rightarrow> (if i < 0 then ''-'' else []) @ pad_zeros len (show_int \<bar>i\<bar>))"

text \<open>Years before the first are counted from 1 again.\<close>

definition era_year :: "int \<Rightarrow> int" where "era_year y = (if y > 0 then y else 1 - y)"

definition light_y :: "date_env \<Rightarrow> int \<Rightarrow> string \<Rightarrow> string" where
  "light_y E t token = (let year = era_year (yearOf E t) in
     addLeadingZeros (Some (if token = ''yy'' then js_rem year 100 else year)) (length token))"
definition light_M :: "date_env \<Rightarrow> int \<Rightarrow> string \<Rightarrow> string" where
  "light_M E t token = (let month = monthOf E t in
     if token = ''M'' then show_int (month + 1) else addLeadingZeros (Some (month + 1)) 2)"
definition light_d :: "date_env \<Rightarrow> int \<Rightarrow> string \<Rightarrow> string" where
  "light_d E t token = addLeadingZeros (Some (dateOf E t)) (length token)"
definition light_a :: "date_env \<Rightarrow> int \<Rightarrow> string \<Rightarrow> string" where
  "light_a E t token = (let p = (if hoursOf E t \<ge> 12 then ''pm'' else ''am'') in
     if token = ''a'' \<or> token = ''aa'' then to_upper p
     else if token = ''aaa'' then p
     else if token = ''aaaaa'' then take 1 p
     else if p = ''am'' then ''a.m.'' else ''p.m.'')"
definition light_h :: "date_env \<Rightarrow> int \<Rightarrow> string \<Rightarrow> string" where
  "light_h E t token = (let h = js_rem (hoursOf E t) 12 in addLeadingZeros (Some (if h = 0 then 12 else h)) (length token))"
definition light_H :: "date_env \<Rightarrow> int \<Rightarrow> string \<Rightarrow> string" where
  "light_H E t token = addLeadingZeros (Some (hoursOf E t)) (length token)"
definition light_m :: "date_env \<Rightarrow> int \<Rightarrow> string \<Rightarrow> string" where
  "light_m E t token = addLeadingZeros (Some (minutesOf E t)) (length token)"
definition light_s :: "date_env \<Rightarrow> int \<Rightarrow> string \<Rightarrow> string" where
  "light_s E t token = addLeadingZeros (Some (secondsOf E t)) (length token)"

text \<open>\<open>Math.trunc(ms * Math.pow(10, n - 3))\<close>.\<close>

definition fraction_digits :: "int \<Rightarrow> nat \<Rightarrow> int" where
  "fraction_digits ms n = (if n \<ge> 3 then ms * 10 ^ (n - 3) else trunc_div ms (10 ^ (3 - n)))"
definition light_S :: "date_env \<Rightarrow> int \<Rightarrow> string \<Rightarrow> string" where
  "light_S E t token = addLeadingZeros (Some (fraction_digits (millisOf E t) (length token))) (length token)"

text \<open>
  \<open>formatters\<close>: one for each letter. The last argument is what \<open>format\<close> passes on of its options.
\<close>

definition formatter_G :: "date_env \<Rightarrow> int \<Rightarrow> string \<Rightarrow> string" where
  "formatter_G E t token = (let era = (if yearOf E t > 0 then 1 else 0) in
     localize_era era (if token \<in> {''G'', ''GG'', ''GGG''} then Abbreviated else if token = ''GGGGG'' then Narrow else Wide) Standalone)"
definition formatter_y :: "date_env \<Rightarrow> int \<Rightarrow> string \<Rightarrow> string" where
  "formatter_y E t token = (if token = ''yo'' then ordinalNumber (Some (era_year (yearOf E t))) else light_y E t token)"
definition formatter_Y :: "date_env \<Rightarrow> int \<Rightarrow> string \<Rightarrow> week_options option \<Rightarrow> string" where
  "formatter_Y E t token opts = (let weekYear = map_option era_year (getWeekYear E (Some t) opts) in
     if token = ''YY'' then addLeadingZeros (map_option (\<lambda>y. js_rem y 100) weekYear) 2
     else if token = ''Yo'' then ordinalNumber weekYear
     else addLeadingZeros weekYear (length token))"
definition formatter_R :: "date_env \<Rightarrow> int \<Rightarrow> string \<Rightarrow> string" where
  "formatter_R E t token = addLeadingZeros (getISOWeekYear E (Some t)) (length token)"
definition formatter_u :: "date_env \<Rightarrow> int \<Rightarrow> string \<Rightarrow> string" where
  "formatter_u E t token = addLeadingZeros (Some (yearOf E t)) (length token)"

definition formatter_Q :: "date_env \<Rightarrow> int \<Rightarrow> string \<Rightarrow> string" where
  "formatter_Q E t token = (let quarter = ceil_div (monthOf E t + 1) 3 in
     if token = ''Q'' then show_int quarter
     else if token = ''QQ'' then addLeadingZeros (Some quarter) 2
     else if token = ''Qo'' then ordinalNumber (Some quarter)
     else localize_quarter quarter (if token = ''QQQ'' then Abbreviated else if token = ''QQQQQ'' then Narrow else Wide) Formatting)"
definition formatter_q :: "date_env \<Rightarrow> int \<Rightarrow> string \<Rightarrow> string" where
  "formatter_q E t token = (let quarter = ceil_div (monthOf E t + 1) 3 in
     if token = ''q'' then show_int quarter
     else if token = ''qq'' then addLeadingZeros (Some quarter) 2
     else if token = ''qo'' then ordinalNumber (Some quarter)
     else localize_quarter quarter (if token = ''qqq'' then Abbreviated else if token = ''qqqqq'' then Narrow else Wide) Standalone)"
definition formatter_M :: "date_env \<Rightarrow> int \<Rightarrow> string \<Rightarrow> string" where
  "formatter_M E t token = (let month = monthOf E t in
     if token = ''M'' \<or> token = ''MM'' then light_M E t token
     else if token = ''Mo'' then ordinalNumber (Some (month + 1))
     else localize_month month (if token = ''MMM'' then Abbreviated else if token = ''MMMMM'' then Narrow else Wide) Formatting)"
definition formatter_L :: "date_env \<Rightarrow> int \<Rightarrow> string \<Rightarrow> string" where
  "formatter_L E t token = (let month = monthOf E t in
     if token = ''L'' then show_int (month + 1)
     else if token = ''LL'' then addLeadingZeros (Some (month + 1)) 2
     else if token = ''Lo'' then ordinalNumber (Some (month + 1))
     else localize_month month (if token = ''LLL'' then Abbreviated else if token = ''LLLLL'' then Narrow else Wide) Standalone)"
definition formatter_w :: "date_env \<Rightarrow> int \<Rightarrow> string \<Rightarrow> week_options option \<Rightarrow> string" where
  "formatter_w E t token opts = (let week = getWeek E (Some t) opts in
     if token = ''wo'' then ordinalNumber week else addLeadingZeros week (length token))"
definition formatter_I :: "date_env \<Rightarrow> int \<Rightarrow> string \<Rightarrow> string" where
  "formatter_I E t token = (let isoWeek = getISOWeek E (Some t) in
     if token = ''Io'' then ordinalNumber isoWeek else addLeadingZeros isoWeek (length token))"
definition formatter_d :: "date_env \<Rightarrow> int \<Rightarrow> string \<Rightarrow> string" where
  "formatter_d E t token = (if token = ''do'' then ordinalNumber (Some (dateOf E t)) else light_d E t token)"
definition formatter_D :: "date_env \<Rightarrow> int \<Rightarrow> string \<Rightarrow> string" where
  "formatter_D E t token = (let dayOfYear = getDayOfYear E (Some t) in
     if token = ''Do'' then ordinalNumber dayOfYear else addLeadingZeros dayOfYear (length token))"
definition formatter_E :: "date_env \<Rightarrow> int \<Rightarrow> string \<Rightarrow> string" where
  "formatter_E E t token = localize_day (dayOf E t)
     (if token \<in> {''E'', ''EE'', ''EEE''} then Abbreviated else if token = ''EEEEE'' then Narrow
      else if token = ''EEEEEE'' then Short else Wide) Formatting"

text \<open>\<open>(dayOfWeek - weekStartsOn + 8) % 7 || 7\<close>.\<close>

definition localDayOfWeek :: "date_env \<Rightarrow> int \<Rightarrow> week_options option \<Rightarrow> int" where
  "localDayOfWeek E t opts = (let r = js_rem (dayOf E t - weekStartsOn E opts + 8) 7 in if r = 0 then 7 else r)"

definition formatter_e :: "date_env \<Rightarrow> int \<Rightarrow> string \<Rightarrow> week_options option \<Rightarrow> string" where
  "formatter_e E t token opts = (let n = localDayOfWeek E t opts in
     if token = ''e'' then show_int n
     else if token = ''ee'' then addLeadingZeros (Some n) 2
     else if token = ''eo'' then ordinalNumber (Some n)
     else localize_day (dayOf E t) (if token = ''eee'' then Abbreviated else if token = ''eeeee'' then Narrow
       else if token = ''eeeeee'' then Short else Wide) Formatting)"
definition formatter_c :: "date_env \<Rightarrow> int \<Rightarrow> string \<Rightarrow> week_options option \<Rightarrow> string" where
  "formatter_c E t token opts = (let n = localDayOfWeek E t opts in
     if token = ''c'' then show_int n
     else if token = ''cc'' then addLeadingZeros (Some n) (length token)
     else if token = ''co'' then ordinalNumber (Some n)
     else localize_day (dayOf E t) (if token = ''ccc'' then Abbreviated else if token = ''ccccc'' then Narrow
       else if token = ''cccccc'' then Short else Wide) Standalone)"
definition formatter_i :: "date_env \<Rightarrow> int \<Rightarrow> string \<Rightarrow> string" where
  "formatter_i E t token = (let n = (if dayOf E t = 0 then 7 else dayOf E t) in
     if token = ''i'' then show_int n
     else if token = ''ii'' then addLeadingZeros (Some n) (length token)
     else if token = ''io'' then ordinalNumber (Some n)
     else localize_day (dayOf E t) (if token = ''iii'' then Abbreviated else if token = ''iiiii'' then Narrow
       else if token = ''iiiiii'' then Short else Wide) Formatting)"

text \<open>The widths of the tokens for periods of the day.\<close>

definition formatter_a :: "date_env \<Rightarrow> int \<Rightarrow> string \<Rightarrow> string" where
  "formatter_a E t token = (let p = (if hoursOf E t \<ge> 12 then Pm else Am) in
     if token = ''a'' \<or> token = ''aa'' then localize_dayPeriod p Abbreviated Formatting
     else if token = ''aaa'' then to_lower (localize_dayPeriod p Abbreviated Formatting)
     else if token = ''aaaaa'' then localize_dayPeriod p Narrow Formatting
     else localize_dayPeriod p Wide Formatting)"
definition formatter_b :: "date_env \<Rightarrow> int \<Rightarrow> string \<Rightarrow> string" where
  "formatter_b E t token = (let p = (if hoursOf E t = 12 then Noon else if hoursOf E t = 0 then Midnight
       else if hoursOf E t \<ge> 12 then Pm else Am) in
     if token = ''b'' \<or> token = ''bb'' then localize_dayPeriod p Abbreviated Formatting
     else if token = ''bbb'' then to_lower (localize_dayPeriod p Abbreviated Formatting)
     else if token = ''bbbbb'' then localize_dayPeriod p Narrow Formatting
     else localize_dayPeriod p Wide Formatting)"
definition formatter_B :: "date_env \<Rightarrow> int \<Rightarrow> string \<Rightarrow> string" where
  "formatter_B E t token = (let hours = hoursOf E t;
       p = (if hours \<ge> 17 then Evening else if hours \<ge> 12 then Afternoon else if hours \<ge> 4 then Morning else Night) in
     localize_dayPeriod p (if token \<in> {''B'', ''BB'', ''BBB''} then Abbreviated else if token = ''BBBBB'' then Narrow else Wide) Formatting)"
definition formatter_h :: "date_env \<Rightarrow> int \<Rightarrow> string \<Rightarrow> string" where
  "formatter_h E t token = (let h = js_rem (hoursOf E t) 12 in
     if token = ''ho'' then ordinalNumber (Some (if h = 0 then 12 else h)) else light_h E t token)"
definition formatter_H :: "date_env \<Rightarrow> int \<Rightarrow> string \<Rightarrow> string" where
  "formatter_H E t token = (if token = ''Ho'' then ordinalNumber (Some (hoursOf E t)) else light_H E t token)"
definition formatter_K :: "date_env \<Rightarrow> int \<Rightarrow> string \<Rightarrow> string" where
  "formatter_K E t token = (let h = js_rem (hoursOf E t) 12 in
     if token = ''Ko'' then ordinalNumber (Some h) else addLeadingZeros (Some h) (length token))"
definition formatter_k :: "date_env \<Rightarrow> int \<Rightarrow> string \<Rightarrow> string" where
  "formatter_k E t token = (let h = (if hoursOf E t = 0 then 24 else hoursOf E t) in
     if token = ''ko'' then ordinalNumber (Some h) else addLeadingZeros (Some h) (length token))"
definition formatter_m :: "date_env \<Rightarrow> int \<Rightarrow> string \<Rightarrow> string" where
  "formatter_m E t token = (if token = ''mo'' then ordinalNumber (Some (minutesOf E t)) else light_m E t token)"
definition formatter_s :: "date_env \<Rightarrow> int \<Rightarrow> string \<Rightarrow> string" where
  "formatter_s E t token = (if token = ''so'' then ordinalNumber (Some (secondsOf E t)) else light_s E t token)"
definition formatter_S :: "date_env \<Rightarrow> int \<Rightarrow> string \<Rightarrow> string" where
  "formatter_S E t token = light_S E t token"

text \<open>Offsets are in minutes, positive to the west; \<open>delimiter\<close> is empty unless given.\<close>

definition offset_sign :: "int \<Rightarrow> string" where "offset_sign offset = (if offset > 0 then ''-'' else ''+'')"

definition formatTimezoneShort :: "int \<Rightarrow> string \<Rightarrow> string" where
  "formatTimezoneShort offset delimiter = (let hours = trunc_div \<bar>offset\<bar> 60; minutes = js_rem \<bar>offset\<bar> 60 in
     if minutes = 0 then offset_sign offset @ show_int hours
     else offset_sign offset @ show_int hours @ delimiter @ addLeadingZeros (Some minutes) 2)"
definition formatTimezone :: "int \<Rightarrow> string \<Rightarrow> string" where
  "formatTimezone offset delimiter = offset_sign offset @ addLeadingZeros (Some (trunc_div \<bar>offset\<bar> 60)) 2 @ delimiter
     @ addLeadingZeros (Some (js_rem \<bar>offset\<bar> 60)) 2"
definition formatTimezoneWithOptionalMinutes :: "int \<Rightarrow> string \<Rightarrow> string" where
  "formatTimezoneWithOptionalMinutes offset delimiter =
     (if js_rem offset 60 = 0 then offset_sign offset @ addLeadingZeros (Some (trunc_div \<bar>offset\<bar> 60)) 2
      else formatTimezone offset delimiter)"

definition formatter_X :: "date_env \<Rightarrow> int \<Rightarrow> string \<Rightarrow> string" where
  "formatter_X E t token = (let off = offsetOf E t in
     if off = 0 then ''Z''
     else if token = ''X'' then formatTimezoneWithOptionalMinutes off []
     else if token = ''XXXX'' \<or> token = ''XX'' then formatTimezone off []
     else formatTimezone off '':'')"
definition formatter_x :: "date_env \<Rightarrow> int \<Rightarrow> string \<Rightarrow> string" where
  "formatter_x E t token = (let off = offsetOf E t in
     if token = ''x'' then formatTimezoneWithOptionalMinutes off []
     else if token = ''xxxx'' \<or> token = ''xx'' then formatTimezone off []
     else formatTimezone off '':'')"
definition formatter_O :: "date_env \<Rightarrow> int \<Rightarrow> string \<Rightarrow> string" where
  "formatter_O E t token = ''GMT'' @ (if token \<in> {''O'', ''OO'', ''OOO''} then formatTimezoneShort (offsetOf E t) '':''
     else formatTimezone (offsetOf E t) '':'')"
definition formatter_z :: "date_env \<Rightarrow> int \<Rightarrow> string \<Rightarrow> string" where
  "formatter_z E t token = ''GMT'' @ (if token \<in> {''z'', ''zz'', ''zzz''} then formatTimezoneShort (offsetOf E t) '':''
     else formatTimezone (offsetOf E t) '':'')"
definition formatter_t :: "date_env \<Rightarrow> int \<Rightarrow> string \<Rightarrow> string" where
  "formatter_t E t token = addLeadingZeros (Some (trunc_div t 1000)) (length token)"
definition formatter_T :: "date_env \<Rightarrow> int \<Rightarrow> string \<Rightarrow> string" where
  "formatter_T E t token = addLeadingZeros (Some t) (length token)"

text \<open>The formatter of a letter.\<close>

definition formatters :: "date_env \<Rightarrow> week_options option \<Rightarrow> (char \<times> (int \<Rightarrow> string \<Rightarrow> string)) list" where
  "formatters E opts = [(CHR ''G'', formatter_G E), (CHR ''y'', formatter_y E), (CHR ''Y'', \<lambda>t s. formatter_Y E t s opts),
     (CHR ''R'', formatter_R E), (CHR ''u'', formatter_u E), (CHR ''Q'', formatter_Q E), (CHR ''q'', formatter_q E),
     (CHR ''M'', formatter_M E), (CHR ''L'', formatter_L E), (CHR ''w'', \<lambda>t s. formatter_w E t s opts), (CHR ''I'', formatter_I E),
     (CHR ''d'', formatter_d E), (CHR ''D'', formatter_D E), (CHR ''E'', formatter_E E), (CHR ''e'', \<lambda>t s. formatter_e E t s opts),
     (CHR ''c'', \<lambda>t s. formatter_c E t s opts), (CHR ''i'', formatter_i E), (CHR ''a'', formatter_a E), (CHR ''b'', formatter_b E),
     (CHR ''B'', formatter_B E), (CHR ''h'', formatter_h E), (CHR ''H'', formatter_H E), (CHR ''K'', formatter_K E),
     (CHR ''k'', formatter_k E), (CHR ''m'', formatter_m E), (CHR ''s'', formatter_s E), (CHR ''S'', formatter_S E),
     (CHR ''X'', formatter_X E), (CHR ''x'', formatter_x E), (CHR ''O'', formatter_O E), (CHR ''z'', formatter_z E),
     (CHR ''t'', formatter_t E), (CHR ''T'', formatter_T E)]"

definition lightFormatters :: "date_env \<Rightarrow> (char \<times> (int \<Rightarrow> string \<Rightarrow> string)) list" where
  "lightFormatters E = [(CHR ''y'', light_y E), (CHR ''M'', light_M E), (CHR ''d'', light_d E), (CHR ''a'', light_a E),
     (CHR ''h'', light_h E), (CHR ''H'', light_H E), (CHR ''m'', light_m E), (CHR ''s'', light_s E), (CHR ''S'', light_S E)]"

section \<open>Formats\<close>

definition dateLongFormatter :: "string \<Rightarrow> string" where
  "dateLongFormatter pattern = formatLong_date (if pattern = ''P'' then Short else if pattern = ''PP'' then Medium
     else if pattern = ''PPP'' then Long else Full)"

definition timeLongFormatter :: "string \<Rightarrow> string" where
  "timeLongFormatter pattern = formatLong_time (if pattern = ''p'' then Short else if pattern = ''pp'' then Medium
     else if pattern = ''ppp'' then Long else Full)"

text \<open>The pattern is a run of \<open>P\<close>, perhaps followed by a run of \<open>p\<close>.\<close>

definition dateTimeLongFormatter :: "string \<Rightarrow> string" where
  "dateTimeLongFormatter pattern = (let
     datePattern = takeWhile (\<lambda>c. c = CHR ''P'') pattern;
     timePattern = takeWhile (\<lambda>c. c = CHR ''p'') (dropWhile (\<lambda>c. c = CHR ''P'') pattern)
   in if timePattern = [] then dateLongFormatter pattern
      else let dateTimeFormat = formatLong_dateTime (if datePattern = ''P'' then Short else if datePattern = ''PP'' then Medium
             else if datePattern = ''PPP'' then Long else Full)
        in replace_first ''{{time}}'' (timeLongFormatter timePattern)
             (replace_first ''{{date}}'' (dateLongFormatter datePattern) dateTimeFormat))"

definition isProtectedDayOfYearToken :: "string \<Rightarrow> bool" where
  "isProtectedDayOfYearToken token = (token \<noteq> [] \<and> list_all (\<lambda>c. c = CHR ''D'') token)"
definition isProtectedWeekYearToken :: "string \<Rightarrow> bool" where
  "isProtectedWeekYearToken token = (token \<noteq> [] \<and> list_all (\<lambda>c. c = CHR ''Y'') token)"

text \<open>The tokens that throw; the others are only warned about on the console.\<close>

definition throwTokens :: "string list" where "throwTokens = [''D'', ''DD'', ''YY'', ''YYYY'']"

text \<open>
  A text between quotes, from after the opening quote: pairs of quotes and other characters, as many as
  there are, then a closing quote or the end. The length, with the opening quote; there must be something.
\<close>

fun quoted_length :: "string \<Rightarrow> nat" where
  "quoted_length [] = 0"
| "quoted_length (c # s) = (if c \<noteq> quote then Suc (quoted_length s)
     else (case s of d # s' \<Rightarrow> if d = quote then Suc (Suc (quoted_length s')) else 0 | [] \<Rightarrow> 0))"

definition quoted_match :: "string \<Rightarrow> nat option" where
  "quoted_match s = (case quoted_length s of 0 \<Rightarrow> None
     | n \<Rightarrow> Some (1 + n + (if drop n s = [] then 0 else 1)))"

text \<open>What the alternatives the expressions share match at the start of a text: \<open>''\<close>, quotes, or any character.\<close>

definition rest_match :: "char \<Rightarrow> string \<Rightarrow> nat option" where
  "rest_match c s = (if c = quote \<and> s \<noteq> [] \<and> hd s = quote then Some 2
     else if c = quote \<and> quoted_match s \<noteq> None then quoted_match s
     else if is_line_terminator c then None else Some 1)"

definition run_of :: "char \<Rightarrow> string \<Rightarrow> nat" where "run_of c s = length (takeWhile (\<lambda>x. x = c) s)"

text \<open>\<open>longFormattingTokensRegExp\<close>, \<open>formattingTokensRegExp\<close> and that of \<open>lightFormat\<close>.\<close>

definition long_match :: "char \<Rightarrow> string \<Rightarrow> nat option" where
  "long_match c s = (if c = CHR ''P'' then
       (let n = run_of c s in Some (1 + n + run_of (CHR ''p'') (drop n s)))
     else if c = CHR ''p'' then Some (1 + run_of c s) else rest_match c s)"

definition ordinal_letters :: string where "ordinal_letters = ''yYqQMLwIdDecihHKkms''"

definition light_match :: "char \<Rightarrow> string \<Rightarrow> nat option" where
  "light_match c s = (if is_word_char c then Some (1 + run_of c s) else rest_match c s)"

definition format_match :: "char \<Rightarrow> string \<Rightarrow> nat option" where
  "format_match c s = (if c \<in> set ordinal_letters \<and> s \<noteq> [] \<and> hd s = CHR ''o'' then Some 2 else light_match c s)"

text \<open>\<open>s.match(re)\<close> for a global expression: all matches from left to right.\<close>

function all_matches :: "(char \<Rightarrow> string \<Rightarrow> nat option) \<Rightarrow> string \<Rightarrow> string list" where
  "all_matches m [] = []"
| "all_matches m (c # s) = (case m c s of None \<Rightarrow> all_matches m s
     | Some n \<Rightarrow> take n (c # s) # all_matches m (drop (n - 1) s))"
  by pat_completeness auto
termination by (relation "measure (\<lambda>(m, s). length s)") auto

declare all_matches.simps [simp del]

text \<open>\<open>input.match(/^'([^]*?)'?$/)[1].replace(/''/g, "'")\<close> of a text that starts with a quote.\<close>

fun single_quotes :: "string \<Rightarrow> string" where
  "single_quotes (c # d # s) = (if c = quote \<and> d = quote then quote # single_quotes s else c # single_quotes (d # s))"
| "single_quotes s = s"

definition cleanEscapedString :: "string \<Rightarrow> string" where
  "cleanEscapedString s = (let body = tl s in
     single_quotes (if body \<noteq> [] \<and> last body = quote then butlast body else body))"

datatype format_part = Literal string | Token string

definition is_latin :: "char \<Rightarrow> bool" where "is_latin c = (is_lower_az c \<or> is_upper_az c)"

definition format_part_of :: "char list \<Rightarrow> string \<Rightarrow> format_part option" where
  "format_part_of letters s = (if s = [quote, quote] then Some (Literal [quote])
     else if hd s = quote then Some (Literal (cleanEscapedString s))
     else if hd s \<in> set letters then Some (Token s)
     else if is_latin (hd s) then None
     else Some (Literal s))"

fun all_parts :: "'a option list \<Rightarrow> 'a list option" where
  "all_parts [] = Some []"
| "all_parts (None # xs) = None"
| "all_parts (Some x # xs) = map_option ((#) x) (all_parts xs)"

text \<open>The options of \<open>format\<close> besides those of weeks: whether the protected tokens are allowed.\<close>

record format_options =
  fo_week :: week_options
  fo_weekYearTokens :: bool
  fo_dayOfYearTokens :: bool

definition expand_long :: "string \<Rightarrow> string" where
  "expand_long s = (if s \<noteq> [] \<and> hd s = CHR ''p'' then timeLongFormatter s
     else if s \<noteq> [] \<and> hd s = CHR ''P'' then dateTimeLongFormatter s else s)"

definition format_parts :: "date_env \<Rightarrow> string \<Rightarrow> format_part list option" where
  "format_parts E formatStr = (case all_matches long_match formatStr of [] \<Rightarrow> None
     | longs \<Rightarrow> (case all_matches format_match (concat (map expand_long longs)) of [] \<Rightarrow> None
         | subs \<Rightarrow> all_parts (map (format_part_of (map fst (formatters E None))) subs)))"

definition format_piece :: "date_env \<Rightarrow> week_options option \<Rightarrow> bool \<Rightarrow> bool \<Rightarrow> int \<Rightarrow> format_part \<Rightarrow> string option" where
  "format_piece E opts weekYears daysOfYear t p = (case p of Literal s \<Rightarrow> Some s
     | Token token \<Rightarrow>
         if (\<not> weekYears \<and> isProtectedWeekYearToken token \<or> \<not> daysOfYear \<and> isProtectedDayOfYearToken token) \<and> token \<in> set throwTokens
         then None
         else map_option (\<lambda>f. f t token) (al_get (formatters E opts) (hd token)))"

definition df_format :: "date_env \<Rightarrow> js_date \<Rightarrow> string \<Rightarrow> format_options option \<Rightarrow> string option" where
  "df_format E d formatStr options = do {
     let wo = map_option fo_week options;
     t \<leftarrow> d;
     parts \<leftarrow> format_parts E formatStr;
     let opts = Some (no_week_options\<lparr>wo_weekStartsOn := Some (weekStartsOn E wo),
       wo_firstWeekContainsDate := Some (firstWeekContainsDate E wo)\<rparr>);
     let weekYears = (case options of None \<Rightarrow> False | Some f \<Rightarrow> fo_weekYearTokens f);
     let daysOfYear = (case options of None \<Rightarrow> False | Some f \<Rightarrow> fo_dayOfYearTokens f);
     map_option concat (all_parts (map (format_piece E opts weekYears daysOfYear t) parts))}"

definition lightFormat :: "date_env \<Rightarrow> js_date \<Rightarrow> string \<Rightarrow> string option" where
  "lightFormat E d formatStr = do {
     t \<leftarrow> d;
     map_option concat (all_parts (map (\<lambda>s. case format_part_of (map fst (lightFormatters E)) s of None \<Rightarrow> None
         | Some (Literal l) \<Rightarrow> Some l
         | Some (Token token) \<Rightarrow> map_option (\<lambda>f. f t token) (al_get (lightFormatters E) (hd token)))
       (all_matches light_match formatStr)))}"

section \<open>Distances\<close>

text \<open>
  \<open>formatDistance\<close>: the token of the locale and the count, from the difference in seconds, in minutes
  (without the change of the offset) and in months.
\<close>

definition distance_token :: "bool \<Rightarrow> int \<Rightarrow> int \<Rightarrow> date_num \<Rightarrow> string \<times> date_num" where
  "distance_token includeSeconds seconds minutes months =
     (if minutes < 2 then
        (if includeSeconds then
           (if seconds < 5 then (''lessThanXSeconds'', Some 5)
            else if seconds < 10 then (''lessThanXSeconds'', Some 10)
            else if seconds < 20 then (''lessThanXSeconds'', Some 20)
            else if seconds < 40 then (''halfAMinute'', Some 0)
            else if seconds < 60 then (''lessThanXMinutes'', Some 1)
            else (''xMinutes'', Some 1))
         else if minutes = 0 then (''lessThanXMinutes'', Some 1) else (''xMinutes'', Some minutes))
      else if minutes < 45 then (''xMinutes'', Some minutes)
      else if minutes < 90 then (''aboutXHours'', Some 1)
      else if minutes < minutesInDay then (''aboutXHours'', Some (round_div minutes 60))
      else if minutes < 2520 then (''xDays'', Some 1)
      else if minutes < minutesInMonth then (''xDays'', Some (round_div minutes minutesInDay))
      else if minutes < minutesInMonth * 2 then (''aboutXMonths'', Some (round_div minutes minutesInMonth))
      else if num_lt months (Some 12) then (''xMonths'', Some (round_div minutes minutesInMonth))
      else let monthsSinceStartOfYear = map_option (\<lambda>m. js_rem m 12) months; years = map_option (\<lambda>m. trunc_div m 12) months in
        if num_lt monthsSinceStartOfYear (Some 3) then (''aboutXYears'', years)
        else if num_lt monthsSinceStartOfYear (Some 9) then (''overXYears'', years)
        else (''almostXYears'', num_plus years (Some 1)))"

text \<open>The text of a count that may be \<open>NaN\<close>.\<close>

definition locale_distance :: "string \<times> date_num \<Rightarrow> bool \<Rightarrow> int \<Rightarrow> string option" where
  "locale_distance p addSuffix comparison = (case snd p of Some n \<Rightarrow> locale_formatDistance (fst p) n addSuffix comparison
     | None \<Rightarrow> map_option (\<lambda>v. distance_suffix addSuffix comparison (case v of Constant t \<Rightarrow> t
         | Counted one other \<Rightarrow> replace_first ''{{count}}'' ''NaN'' other)) (al_get formatDistanceLocale (fst p)))"

definition formatDistance :: "date_env \<Rightarrow> js_date \<Rightarrow> js_date \<Rightarrow> bool \<Rightarrow> bool \<Rightarrow> string option" where
  "formatDistance E d base addSuffix includeSeconds = do {
     comparison \<leftarrow> compareAsc d base;
     let l = (if comparison > 0 then base else d);
     let r = (if comparison > 0 then d else base);
     seconds \<leftarrow> differenceInSeconds r l None;
     offset \<leftarrow> num_minus (getTimezoneOffsetInMilliseconds E r) (getTimezoneOffsetInMilliseconds E l);
     let minutes = round_div (seconds * 1000 - offset) 60000;
     locale_distance (distance_token includeSeconds seconds minutes (differenceInMonths E r l)) addSuffix comparison}"

text \<open>\<open>formatDistanceStrict\<close>: one unit, given or chosen, and a rounded count of it.\<close>

definition strict_unit :: "int \<Rightarrow> int \<Rightarrow> time_unit" where
  "strict_unit ms dst_ms = (if ms < 60000 then USecond else if ms < 60 * 60000 then UMinute
     else if ms < minutesInDay * 60000 then UHour else if dst_ms < minutesInMonth * 60000 then UDay
     else if dst_ms < minutesInYear * 60000 then UMonth else UYear)"

definition formatDistanceStrict :: "date_env \<Rightarrow> js_date \<Rightarrow> js_date \<Rightarrow> bool \<Rightarrow> time_unit option \<Rightarrow> rounding option \<Rightarrow> string option" where
  "formatDistanceStrict E d base addSuffix defaultUnit method = do {
     comparison \<leftarrow> compareAsc d base;
     let l = (if comparison > 0 then base else d);
     let r = (if comparison > 0 then d else base);
     ms \<leftarrow> num_minus r l;
     offset \<leftarrow> num_minus (getTimezoneOffsetInMilliseconds E r) (getTimezoneOffsetInMilliseconds E l);
     let dst_ms = ms - offset;
     let rounded = round_with (Some (case method of None \<Rightarrow> Round | Some m \<Rightarrow> m));
     let unit = (case defaultUnit of None \<Rightarrow> strict_unit ms dst_ms | Some u \<Rightarrow> u);
     let text = (\<lambda>token n. locale_formatDistance token n addSuffix comparison);
     (case unit of
        USecond \<Rightarrow> text ''xSeconds'' (rounded ms 1000)
      | UMinute \<Rightarrow> text ''xMinutes'' (rounded ms 60000)
      | UHour \<Rightarrow> text ''xHours'' (rounded ms 3600000)
      | UDay \<Rightarrow> text ''xDays'' (rounded dst_ms (minutesInDay * 60000))
      | UMonth \<Rightarrow> let n = rounded dst_ms (minutesInMonth * 60000) in
          if n = 12 \<and> defaultUnit \<noteq> Some UMonth then text ''xYears'' 1 else text ''xMonths'' n
      | _ \<Rightarrow> text ''xYears'' (rounded dst_ms (minutesInYear * 60000)))}"

definition formatDistanceToNow :: "date_env \<Rightarrow> js_date \<Rightarrow> bool \<Rightarrow> bool \<Rightarrow> string option" where
  "formatDistanceToNow E d addSuffix includeSeconds = formatDistance E d (constructNow E d) addSuffix includeSeconds"

definition formatDistanceToNowStrict :: "date_env \<Rightarrow> js_date \<Rightarrow> bool \<Rightarrow> time_unit option \<Rightarrow> rounding option \<Rightarrow> string option" where
  "formatDistanceToNowStrict E d addSuffix unit method = formatDistanceStrict E d (constructNow E d) addSuffix unit method"

text \<open>A unit of a duration with the token \<open>formatDuration\<close> makes of its name.\<close>

definition duration_units :: "(string \<times> string \<times> (duration \<Rightarrow> int option)) list" where
  "duration_units = [(''years'', ''xYears'', du_years), (''months'', ''xMonths'', du_months), (''weeks'', ''xWeeks'', du_weeks),
     (''days'', ''xDays'', du_days), (''hours'', ''xHours'', du_hours), (''minutes'', ''xMinutes'', du_minutes),
     (''seconds'', ''xSeconds'', du_seconds)]"

definition defaultFormat :: "string list" where
  "defaultFormat = [''years'', ''months'', ''weeks'', ''days'', ''hours'', ''minutes'', ''seconds'']"

fun duration_texts :: "duration \<Rightarrow> bool \<Rightarrow> string list \<Rightarrow> string list" where
  "duration_texts u zero [] = []"
| "duration_texts u zero (name # names) = (case al_get duration_units name of
       Some (token, field) \<Rightarrow> (case field u of
           Some n \<Rightarrow> if zero \<or> n \<noteq> 0 then (case locale_formatDistance token n False 0 of Some t \<Rightarrow> [t] | None \<Rightarrow> []) else []
         | None \<Rightarrow> [])
     | None \<Rightarrow> []) @ duration_texts u zero names"

definition formatDuration :: "duration \<Rightarrow> string list option \<Rightarrow> bool \<Rightarrow> string option \<Rightarrow> string" where
  "formatDuration u format zero delimiter =
     join (case delimiter of None \<Rightarrow> '' '' | Some s \<Rightarrow> s)
       (duration_texts u zero (case format of None \<Rightarrow> defaultFormat | Some f \<Rightarrow> f))"

section \<open>ISO formats\<close>

datatype representation = Complete | DateOnly | TimeOnly

definition two :: "int \<Rightarrow> string" where "two n = addLeadingZeros (Some n) 2"

definition iso_date_part :: "date_env \<Rightarrow> bool \<Rightarrow> int \<Rightarrow> string" where
  "iso_date_part E extended t = (let dash = (if extended then ''-'' else []) in
     addLeadingZeros (Some (yearOf E t)) 4 @ dash @ two (monthOf E t + 1) @ dash @ two (dateOf E t))"

definition iso_time_part :: "date_env \<Rightarrow> bool \<Rightarrow> int \<Rightarrow> string" where
  "iso_time_part E extended t = join (if extended then '':'' else []) [two (hoursOf E t), two (minutesOf E t), two (secondsOf E t)]"

definition iso_offset :: "int \<Rightarrow> string" where
  "iso_offset off = (if off = 0 then ''Z''
     else (if off < 0 then ''+'' else ''-'') @ two (trunc_div \<bar>off\<bar> 60) @ '':'' @ two (js_rem \<bar>off\<bar> 60))"

definition formatISO :: "date_env \<Rightarrow> js_date \<Rightarrow> bool \<Rightarrow> representation \<Rightarrow> string option" where
  "formatISO E d extended repr = map_option (\<lambda>t.
     (if repr \<noteq> TimeOnly then iso_date_part E extended t else [])
     @ (if repr \<noteq> DateOnly then (if repr = TimeOnly then [] else ''T'') @ iso_time_part E extended t @ iso_offset (offsetOf E t) else [])) d"

definition formatISO9075 :: "date_env \<Rightarrow> js_date \<Rightarrow> bool \<Rightarrow> representation \<Rightarrow> string option" where
  "formatISO9075 E d extended repr = map_option (\<lambda>t.
     (if repr \<noteq> TimeOnly then iso_date_part E extended t else [])
     @ (if repr \<noteq> DateOnly then (if repr = TimeOnly then [] else '' '') @ iso_time_part E extended t else [])) d"

definition formatISODuration :: "duration \<Rightarrow> string" where
  "formatISODuration u = (let n = (\<lambda>v. show_int (or_zero v)) in ''P'' @ n (du_years u) @ ''Y'' @ n (du_months u) @ ''M'' @ n (du_days u)
     @ ''DT'' @ n (du_hours u) @ ''H'' @ n (du_minutes u) @ ''M'' @ n (du_seconds u) @ ''S'')"

definition formatRFC3339 :: "date_env \<Rightarrow> js_date \<Rightarrow> nat \<Rightarrow> string option" where
  "formatRFC3339 E d fractionDigits = map_option (\<lambda>t.
     show_int (yearOf E t) @ ''-'' @ two (monthOf E t + 1) @ ''-'' @ two (dateOf E t) @ ''T'' @ two (hoursOf E t) @ '':''
     @ two (minutesOf E t) @ '':'' @ two (secondsOf E t)
     @ (if fractionDigits > 0 then ''.'' @ addLeadingZeros (Some (fraction_digits (millisOf E t) fractionDigits)) fractionDigits else [])
     @ iso_offset (offsetOf E t)) d"

definition rfc_days :: "string list" where "rfc_days = [''Sun'', ''Mon'', ''Tue'', ''Wed'', ''Thu'', ''Fri'', ''Sat'']"

definition rfc_months :: "string list" where
  "rfc_months = [''Jan'', ''Feb'', ''Mar'', ''Apr'', ''May'', ''Jun'', ''Jul'', ''Aug'', ''Sep'', ''Oct'', ''Nov'', ''Dec'']"

definition formatRFC7231 :: "js_date \<Rightarrow> string option" where
  "formatRFC7231 d = map_option (\<lambda>t. array rfc_days (WeekDay t) @ '', '' @ two (DateFromTime t) @ '' '' @ array rfc_months (MonthFromTime t)
     @ '' '' @ show_int (YearFromTime t) @ '' '' @ two (HourFromTime t) @ '':'' @ two (MinFromTime t) @ '':'' @ two (SecFromTime t) @ '' GMT'') d"

definition en_US_options :: locale_options where
  "en_US_options = \<lparr>lo_weekStartsOn = Some 0, lo_firstWeekContainsDate = Some 1\<rparr>"

definition formatRelative :: "date_env \<Rightarrow> js_date \<Rightarrow> js_date \<Rightarrow> week_options option \<Rightarrow> string option" where
  "formatRelative E d base opts = do {
     diff \<leftarrow> differenceInCalendarDays E d base;
     let token = (if diff < - 6 then ''other'' else if diff < - 1 then ''lastWeek'' else if diff < 0 then ''yesterday''
       else if diff < 1 then ''today'' else if diff < 2 then ''tomorrow'' else if diff < 7 then ''nextWeek'' else ''other'');
     formatStr \<leftarrow> al_get formatRelativeLocale token;
     df_format E d formatStr (Some \<lparr>fo_week = no_week_options\<lparr>wo_weekStartsOn := Some (weekStartsOn E opts), wo_locale := Some en_US_options\<rparr>,
       fo_weekYearTokens = False, fo_dayOfYearTokens = False\<rparr>)}"

section \<open>Reading dates\<close>

text \<open>
  \<open>splitDateString\<close>: the date, the time and the zone of a text, as far as there are any.
\<close>

record date_strings =
  ds_date :: "string option"
  ds_time :: "string option"
  ds_timezone :: "string option"

fun split_when :: "(char \<Rightarrow> bool) \<Rightarrow> string \<Rightarrow> string list" where
  "split_when P [] = [[]]"
| "split_when P (c # s) = (if P c then [] # split_when P s
     else (case split_when P s of [] \<Rightarrow> [[c]] | w # ws \<Rightarrow> (c # w) # ws))"

definition timezone_exec :: "string \<Rightarrow> string option" where
  "timezone_exec s = (let r = dropWhile (\<lambda>c. c \<notin> set ''Z+-'') s in if r = [] then None else Some r)"

definition no_date_strings :: date_strings where
  "no_date_strings = \<lparr>ds_date = None, ds_time = None, ds_timezone = None\<rparr>"

definition splitDateString :: "string \<Rightarrow> date_strings" where
  "splitDateString s = (let
     parts = split_when (\<lambda>c. c \<in> set ''T '') s;
     zoned = (\<lambda>c. c \<in> set ''Zz '');
     (date, timeString) =
       (if CHR '':'' \<in> set (hd parts) then (None, Some (hd parts))
        else if list_ex zoned (hd parts) then
          (let d = hd (split_when zoned s) in (Some d, Some (drop (length d) s)))
        else (Some (hd parts), (case tl parts of [] \<Rightarrow> None | t # ts \<Rightarrow> Some t)))
   in if length parts > 2 then no_date_strings
      else (case timeString of None \<Rightarrow> no_date_strings\<lparr>ds_date := date\<rparr>
        | Some [] \<Rightarrow> no_date_strings\<lparr>ds_date := date\<rparr>
        | Some t \<Rightarrow> (case timezone_exec t of
            Some token \<Rightarrow> \<lparr>ds_date = date, ds_time = Some (replace_first token [] t), ds_timezone = Some token\<rparr>
          | None \<Rightarrow> \<lparr>ds_date = date, ds_time = Some t, ds_timezone = None\<rparr>)))"

text \<open>
  \<open>parseYear\<close>: four digits, or a sign and more, from the start; or two (or a sign and more) that are the
  whole text, for a century. \<open>None\<close> is \<open>NaN\<close>, with no rest.
\<close>

definition signed_digits :: "nat \<Rightarrow> nat \<Rightarrow> string \<Rightarrow> (int \<times> string) option" where
  "signed_digits plain signed s = (case s of
       [] \<Rightarrow> None
     | c # r \<Rightarrow> if c = CHR ''+'' then take_digits signed r
         else if c = CHR ''-'' then map_option (\<lambda>(n, r). (- n, r)) (take_digits signed r)
         else take_digits plain s)"

definition parseYear :: "string \<Rightarrow> nat \<Rightarrow> date_num \<times> string" where
  "parseYear s additionalDigits = (case signed_digits 4 (4 + additionalDigits) s of
       Some (y, r) \<Rightarrow> (Some y, r)
     | None \<Rightarrow> (case signed_digits 2 (2 + additionalDigits) s of
         Some (c, []) \<Rightarrow> (Some (c * 100), [])
       | _ \<Rightarrow> (None, [])))"

definition isLeapYearIndex2 :: "int \<Rightarrow> bool" where
  "isLeapYearIndex2 year = (js_rem year 400 = 0 \<or> js_rem year 4 = 0 \<and> js_rem year 100 \<noteq> 0)"

definition daysInMonths :: "int \<Rightarrow> int \<Rightarrow> int" where
  "daysInMonths year month = (if month = 1 then (if isLeapYearIndex2 year then 29 else 28)
     else [31, 0, 31, 30, 31, 30, 31, 31, 30, 31, 30, 31] ! nat month)"

definition validateDate :: "int \<Rightarrow> int \<Rightarrow> int \<Rightarrow> bool" where
  "validateDate year month date = (month \<ge> 0 \<and> month \<le> 11 \<and> date \<ge> 1 \<and> date \<le> daysInMonths year month)"

definition validateDayOfYearDate :: "int \<Rightarrow> int \<Rightarrow> bool" where
  "validateDayOfYearDate year dayOfYear = (dayOfYear \<ge> 1 \<and> dayOfYear \<le> (if isLeapYearIndex2 year then 366 else 365))"

definition validateWeekDate :: "int \<Rightarrow> int \<Rightarrow> bool" where
  "validateWeekDate week day = (week \<ge> 1 \<and> week \<le> 53 \<and> day \<ge> 0 \<and> day \<le> 6)"

definition dayOfISOWeekYear :: "int \<Rightarrow> int \<Rightarrow> int \<Rightarrow> js_date" where
  "dayOfISOWeekYear isoWeekYear week day = do {
     let d = js_setFullYear3 utc_zone (Some 0) isoWeekYear 0 4;
     wd \<leftarrow> js_getDay utc_zone d;
     dt \<leftarrow> js_getDate utc_zone d;
     let fourthOfJanuaryDay = (if wd = 0 then 7 else wd);
     js_setDate utc_zone d (dt + ((week - 1) * 7 + day + 1 - fourthOfJanuaryDay))}"

text \<open>The captures of \<open>dateRegex\<close>: nothing, a day of the year, a month with or without day, or a week.\<close>

datatype date_shape = YearOnly | YearDay int | MonthDay int "int option" | WeekShape int "int option"

definition optional_dash :: "string \<Rightarrow> string" where
  "optional_dash s = (case take_char (CHR ''-'') s of None \<Rightarrow> s | Some r \<Rightarrow> r)"

definition whole_digits :: "nat \<Rightarrow> string \<Rightarrow> int option" where
  "whole_digits n s = (case take_digits n s of Some (x, []) \<Rightarrow> Some x | _ \<Rightarrow> None)"

definition read_date_shape :: "string \<Rightarrow> date_shape option" where
  "read_date_shape s = (let r = optional_dash s in
     if r = [] then Some YearOnly
     else (case take_char (CHR ''W'') r of
         Some r1 \<Rightarrow> (case take_digits 2 r1 of
             None \<Rightarrow> None
           | Some (w, []) \<Rightarrow> Some (WeekShape w None)
           | Some (w, r2) \<Rightarrow> map_option (\<lambda>d. WeekShape w (Some d)) (whole_digits 1 (optional_dash r2)))
       | None \<Rightarrow> (case whole_digits 3 r of
             Some n \<Rightarrow> Some (YearDay n)
           | None \<Rightarrow> (case take_digits 2 r of
               None \<Rightarrow> None
             | Some (m, []) \<Rightarrow> Some (MonthDay m None)
             | Some (m, r2) \<Rightarrow> map_option (\<lambda>d. MonthDay m (Some d)) (whole_digits 2 (optional_dash r2))))))"

text \<open>
  \<open>parseDate\<close>. A unit that is missing counts as 1, so that the day is that of the year or of the month,
  whichever is given.
\<close>

definition parseDate :: "string \<Rightarrow> date_num \<Rightarrow> js_date" where
  "parseDate s year_num = do {
     shape \<leftarrow> read_date_shape s;
     year \<leftarrow> year_num;
     (case shape of
        WeekShape week d \<Rightarrow> let day = (case d of None \<Rightarrow> 1 | Some n \<Rightarrow> n) - 1 in
          if validateWeekDate week day then dayOfISOWeekYear year week day else None
      | _ \<Rightarrow> let
          dayOfYear = (case shape of YearDay n \<Rightarrow> n | _ \<Rightarrow> 1);
          month = (case shape of MonthDay m d \<Rightarrow> m | _ \<Rightarrow> 1) - 1;
          day = (case shape of MonthDay m (Some d) \<Rightarrow> d | _ \<Rightarrow> 1)
        in if \<not> validateDate year month day \<or> \<not> validateDayOfYearDate year dayOfYear then None
           else js_setFullYear3 utc_zone (Some 0) year month (max dayOfYear day))}"

text \<open>
  A unit of a time is two digits and perhaps a decimal fraction: a numerator over a power of ten. All ways
  in which the expression can read one, the longest first.
\<close>

type_synonym decimal = "int \<times> nat"

definition decimal_of :: "string \<Rightarrow> string \<Rightarrow> decimal" where
  "decimal_of whole frac = (int (digits_nat (whole @ frac)), length frac)"

definition unit_parses :: "string \<Rightarrow> (decimal \<times> string) list" where
  "unit_parses s = (let whole = take 2 s; r = drop 2 s in
     if length whole = 2 \<and> list_all is_digit whole then
       (if r \<noteq> [] \<and> hd r \<in> set ''.,'' then
          (let ds = takeWhile is_digit (tl r) in
           map (\<lambda>n. (decimal_of whole (take n ds), drop n (tl r))) (rev [0..<Suc (length ds)]))
        else []) @ [(decimal_of whole [], r)]
     else [])"

definition optional_colon :: "string \<Rightarrow> string" where
  "optional_colon s = (case take_char (CHR '':'') s of None \<Rightarrow> s | Some r \<Rightarrow> r)"

text \<open>A unit with a colon in front that may be missing; or no unit.\<close>

definition more_parses :: "string \<Rightarrow> (decimal \<times> string) list" where
  "more_parses s = unit_parses (optional_colon s) @ [((0, 0), s)]"

definition time_parses :: "string \<Rightarrow> (decimal \<times> decimal \<times> decimal) list" where
  "time_parses s = concat (map (\<lambda>(h, r). concat (map (\<lambda>(m, r1).
     concat (map (\<lambda>(sec, r2). if r2 = [] then [(h, m, sec)] else []) (more_parses r1))) (more_parses r))) (unit_parses s))"

definition decimal_lt :: "decimal \<Rightarrow> int \<Rightarrow> bool" where "decimal_lt d k = (fst d < k * 10 ^ snd d)"
definition decimal_eq :: "decimal \<Rightarrow> int \<Rightarrow> bool" where "decimal_eq d k = (fst d = k * 10 ^ snd d)"

definition validateTime :: "decimal \<Rightarrow> decimal \<Rightarrow> decimal \<Rightarrow> bool" where
  "validateTime h m s = (if decimal_eq h 24 then decimal_eq m 0 \<and> decimal_eq s 0
     else decimal_lt s 60 \<and> decimal_lt m 60 \<and> decimal_lt h 25)"

text \<open>The milliseconds of a time, as a decimal.\<close>

definition parseTime :: "string \<Rightarrow> decimal option" where
  "parseTime s = (case time_parses s of
       [] \<Rightarrow> None
     | (h, m, sec) # _ \<Rightarrow> if \<not> validateTime h m sec then None
         else (let k = snd h + snd m + snd sec; part = (\<lambda>d u. fst d * u * 10 ^ (k - snd d))
           in Some (part h millisecondsInHour + part m millisecondsInMinute + part sec 1000, k)))"

text \<open>\<open>parseTimezone\<close>: what is not an offset counts as none.\<close>

definition parseTimezone :: "string \<Rightarrow> date_num" where
  "parseTimezone s = (if s = ''Z'' then Some 0 else (case s of
       [] \<Rightarrow> Some 0
     | c # r \<Rightarrow> if c \<notin> set ''+-'' then Some 0
         else (case take_digits 2 r of
             None \<Rightarrow> Some 0
           | Some (h, r1) \<Rightarrow> (case (if r1 = [] then Some 0 else whole_digits 2 (optional_colon r1)) of
               None \<Rightarrow> Some 0
             | Some m \<Rightarrow> if 0 \<le> m \<and> m \<le> 59
                 then Some ((if c = CHR ''+'' then - 1 else 1) * (h * millisecondsInHour + m * millisecondsInMinute)) else None))))"

definition parseISO :: "date_env \<Rightarrow> string \<Rightarrow> nat option \<Rightarrow> js_date" where
  "parseISO E s additionalDigits = (let
     ds = splitDateString s;
     date = do {d \<leftarrow> ds_date ds; let (y, r) = parseYear d (case additionalDigits of None \<Rightarrow> 2 | Some n \<Rightarrow> n);
       if d = [] then None else parseDate r y};
     time = (case ds_time ds of None \<Rightarrow> Some (0, 0) | Some t \<Rightarrow> if t = [] then Some (0, 0) else parseTime t)
   in do {
     timestamp \<leftarrow> date;
     (n, k) \<leftarrow> time;
     let with_offset = (\<lambda>off. TimeClip (trunc_div ((timestamp + off) * 10 ^ k + n) (10 ^ k)));
     (case ds_timezone ds of
        Some tz \<Rightarrow> do {off \<leftarrow> parseTimezone tz; with_offset off}
      | None \<Rightarrow> do {
          dirtyDate \<leftarrow> with_offset 0;
          js_setHours4 (de_zone E)
            (js_setFullYear3 (de_zone E) (Some 0) (YearFromTime dirtyDate) (MonthFromTime dirtyDate) (DateFromTime dirtyDate))
            (HourFromTime dirtyDate) (MinFromTime dirtyDate) (SecFromTime dirtyDate) (msFromTime dirtyDate)})})"

text \<open>The expression of \<open>parseJSON\<close> at the start of a text.\<close>

definition json_date_fields :: "string \<Rightarrow> (int \<times> int \<times> int \<times> int \<times> int \<times> int \<times> string) option" where
  "json_date_fields s = do {
     (y, r) \<leftarrow> take_digits 4 s; r \<leftarrow> take_char (CHR ''-'') r;
     (m, r) \<leftarrow> take_digits 2 r; r \<leftarrow> take_char (CHR ''-'') r;
     (d, r) \<leftarrow> take_digits 2 r; r \<leftarrow> (case take_char (CHR ''T'') r of None \<Rightarrow> take_char (CHR '' '') r | Some x \<Rightarrow> Some x);
     (h, r) \<leftarrow> take_digits 2 r; r \<leftarrow> take_char (CHR '':'') r;
     (mi, r) \<leftarrow> take_digits 2 r; r \<leftarrow> take_char (CHR '':'') r;
     (sec, r) \<leftarrow> take_digits 2 r;
     Some (y, m, d, h, mi, sec, r)}"

text \<open>The fraction (up to seven digits), then the offset: its sign, hours and minutes.\<close>

definition json_date_fraction :: "string \<Rightarrow> string \<times> string" where
  "json_date_fraction r = (case take_char (CHR ''.'') r of None \<Rightarrow> ([], r)
     | Some x \<Rightarrow> let ds = take 7 (takeWhile is_digit x) in (ds, drop (length ds) x))"

definition json_date_offset :: "string \<Rightarrow> int \<times> int" where
  "json_date_offset r = (case r of
       [] \<Rightarrow> (0, 0)
     | c # x \<Rightarrow> if c = CHR ''Z'' \<or> is_line_terminator c then (0, 0)
         else (case take_digits 2 x of None \<Rightarrow> (0, 0)
           | Some (h, x1) \<Rightarrow> let m = (case take_digits 2 (optional_colon x1) of None \<Rightarrow> 0 | Some (n, x2) \<Rightarrow> n);
                sign = (if c = CHR ''-'' then - 1 else 1) in (h * sign, m * sign)))"

fun parseJSON :: "string \<Rightarrow> js_date" where
  "parseJSON [] = None"
| "parseJSON (c # s) = (case json_date_fields (c # s) of
       None \<Rightarrow> parseJSON s
     | Some (y, m, d, h, mi, sec, r) \<Rightarrow> let
         (frac, r1) = json_date_fraction r;
         (oh, om) = json_date_offset r1;
         ms = int (digits_nat (take 3 ((if frac = [] then ''0'' else frac) @ ''00'')))
       in js_UTC y (m - 1) d (h - oh) (mi - om) sec ms)"

end
