(* ===== verification/DateFacts.thy ===== *)
theory DateFacts
  imports DateFormat
begin

text \<open>
  What holds of dates and of \<open>DateFns\<close> and \<open>DateFormat\<close>: what the days of a time zone promise and the
  calendar functions that rest on it, the arithmetic of months, the texts of days, the ISO formats, and
  how far a distance in words is off.
\<close>

section \<open>The days of a time zone\<close>

text \<open>
  What the calendar functions need of a time zone: a local time before noon is a time of its day, the
  start of a day is before noon (clocks may be put forward at midnight), and the times from it on are
  those of that day and later ones.
\<close>

locale calendar_zone =
  fixes z :: zone
  assumes morning: "0 \<le> s \<Longrightarrow> 2 * s < msPerDay \<Longrightarrow> Day (LocalTime z (UTC z (MakeDate d s))) = d"
    and start_early: "2 * TimeWithinDay (LocalTime z (UTC z (MakeDate d 0))) < msPerDay"
    and start_least: "UTC z (MakeDate d 0) \<le> t \<longleftrightarrow> d \<le> Day (LocalTime z t)"
begin

lemma start_day: "Day (LocalTime z (UTC z (MakeDate d 0))) = d"
  by (rule morning) (simp_all add: msPerDay_def)

lemma start_mono: "UTC z (MakeDate d 0) \<le> UTC z (MakeDate d' 0) \<longleftrightarrow> d \<le> d'"
  by (simp add: start_least start_day)

lemma start_inj: "UTC z (MakeDate d 0) = UTC z (MakeDate d' 0) \<longleftrightarrow> d = d'"
  using start_day by metis

end

lemma Day_le: "d \<le> Day t \<longleftrightarrow> MakeDate d 0 \<le> t"
proof -
  define q r where "q = Day t" and "r = TimeWithinDay t"
  have "t = msPerDay * q + r" by (simp add: q_def r_def Day_def TimeWithinDay_def)
  moreover have "0 \<le> r" "r < msPerDay" using time_within [of t] by (simp_all add: r_def)
  ultimately show ?thesis unfolding q_def [symmetric] by (auto simp: MakeDate_def msPerDay_def)
qed

lemma zone_inverse [simp]: "LocalTime (fixed_zone m) (UTC (fixed_zone m) l) = l" "UTC (fixed_zone m) (LocalTime (fixed_zone m) t) = t"
  by (simp_all add: LocalTime_def UTC_def fixed_zone_def)

interpretation fixed: calendar_zone "fixed_zone m"
proof
  show "UTC (fixed_zone m) (MakeDate d 0) \<le> t \<longleftrightarrow> d \<le> Day (LocalTime (fixed_zone m) t)" for d t
    by (simp add: Day_le LocalTime_def UTC_def fixed_zone_def algebra_simps)
qed (simp_all add: msPerDay_def)

text \<open>A zone that puts its clocks forward by an hour at a full hour \<open>k\<close> of local time; that hour is skipped.\<close>

definition summer_zone :: "int \<Rightarrow> int \<Rightarrow> zone" where
  "summer_zone m k = \<lparr>tz_utc = \<lambda>t. (if t < 3600000 * k - m * 60000 then m else m + 60) * 60000,
     tz_local = \<lambda>l. (if l < 3600000 * (k + 1) then m else m + 60) * 60000\<rparr>"

lemma summer_local: "LocalTime (summer_zone m k) (UTC (summer_zone m k) l)
    = (if 3600000 * k \<le> l \<and> l < 3600000 * (k + 1) then l + 3600000 else l)"
  by (simp add: LocalTime_def UTC_def summer_zone_def)

lemma hour_of_midnight: "MakeDate d 0 < 3600000 * (k + 1) \<longleftrightarrow> MakeDate d 0 \<le> 3600000 * k"
proof -
  have "3600000 * (24 * d) < 3600000 * (k + 1) \<longleftrightarrow> 3600000 * (24 * d) \<le> 3600000 * k"
    by (simp only: mult_less_cancel_left_pos mult_le_cancel_left_pos zero_less_numeral zle_add1_eq_le)
  then show ?thesis by (simp add: MakeDate_def msPerDay_def mult.commute)
qed

lemma summer_start: "LocalTime (summer_zone m k) (UTC (summer_zone m k) (MakeDate d 0))
    = MakeDate d (if MakeDate d 0 = 3600000 * k then 3600000 else 0)"
  using hour_of_midnight [of d k] by (auto simp: summer_local MakeDate_def)

interpretation summer: calendar_zone "summer_zone m k"
proof
  show "Day (LocalTime (summer_zone m k) (UTC (summer_zone m k) (MakeDate d s))) = d" if "0 \<le> s" "2 * s < msPerDay" for d s
  proof -
    have "MakeDate d s + 3600000 = MakeDate d (s + 3600000)" by (simp add: MakeDate_def)
    with that show ?thesis by (simp add: summer_local msPerDay_def)
  qed
  show "UTC (summer_zone m k) (MakeDate d 0) \<le> t \<longleftrightarrow> d \<le> Day (LocalTime (summer_zone m k) t)" for d t
    using hour_of_midnight [of d k] unfolding Day_le LocalTime_def UTC_def summer_zone_def by auto
qed (simp add: summer_start msPerDay_def)

section \<open>Days\<close>

definition dayNumber :: "date_env \<Rightarrow> int \<Rightarrow> int" where
  "dayNumber E t = Day (LocalTime (de_zone E) t)"

text \<open>The start of a day of the zone, and that it is a time \<open>Date\<close> can hold.\<close>

definition day_start :: "date_env \<Rightarrow> int \<Rightarrow> int" where
  "day_start E d = UTC (de_zone E) (MakeDate d 0)"

definition in_range :: "int \<Rightarrow> bool" where "in_range t = (\<bar>t\<bar> \<le> max_time)"

lemma TimeClip_in_range [simp]: "in_range t \<Longrightarrow> TimeClip t = Some t"
  by (simp add: in_range_def TimeClip_def)

lemma startOfDay_eq: "in_range (day_start E (dayNumber E t)) \<Longrightarrow> startOfDay E (Some t) = Some (day_start E (dayNumber E t))"
  by (simp add: startOfDay_def js_setHours4_def js_setTime_def day_start_def dayNumber_def MakeTime_def)

lemma isSameDay_iff:
  assumes "calendar_zone (de_zone E)" "in_range (day_start E (dayNumber E a))" "in_range (day_start E (dayNumber E b))"
  shows "isSameDay E (Some a) (Some b) \<longleftrightarrow> dayNumber E a = dayNumber E b"
  using assms(2,3) calendar_zone.start_inj [OF assms(1)]
  by (simp add: isSameDay_def startOfDay_eq num_eq_def day_start_def)

lemma full_year_id: "100 \<le> y \<Longrightarrow> full_year y = y" by (simp add: full_year_def)

text \<open>From the year 100 on, \<open>Date.UTC\<close> reads the year as it is, and the offset is that of the zone.\<close>

lemma offset_eq:
  assumes "100 \<le> YearFromTime (LocalTime (de_zone E) t)" "in_range (LocalTime (de_zone E) t)"
  shows "getTimezoneOffsetInMilliseconds E (Some t) = Some (t - LocalTime (de_zone E) t)"
proof -
  let ?l = "LocalTime (de_zone E) t"
  have "js_UTC (YearFromTime ?l) (MonthFromTime ?l) (DateFromTime ?l) (HourFromTime ?l) (MinFromTime ?l) (SecFromTime ?l) (msFromTime ?l)
      = Some ?l"
    using assms by (simp add: js_UTC_def full_year_id MakeDay_fields MakeTime_fields)
  moreover have "js_setFullYear utc_zone (Some ?l) (YearFromTime ?l) = Some ?l"
    using assms(2) by (simp add: js_setFullYear_def js_setTime_def utc_zone_def LocalTime_def UTC_def fixed_zone_def MakeDay_fields)
  ultimately show ?thesis
    by (simp add: getTimezoneOffsetInMilliseconds_def js_getFullYear_def js_getMonth_def js_getDate_def js_getHours_def
        js_getMinutes_def js_getSeconds_def js_getMilliseconds_def num_minus_def Let_def)
qed

lemma day_start_local:
  assumes "calendar_zone (de_zone E)"
  shows "Day (LocalTime (de_zone E) (day_start E d)) = d" "2 * TimeWithinDay (LocalTime (de_zone E) (day_start E d)) < msPerDay"
  using calendar_zone.start_day [OF assms] calendar_zone.start_early [OF assms] by (simp_all add: day_start_def)

text \<open>A date whose day the calendar functions can work with.\<close>

definition ordinary :: "date_env \<Rightarrow> int \<Rightarrow> bool" where
  "ordinary E t = (in_range (day_start E (dayNumber E t)) \<and> in_range (LocalTime (de_zone E) (day_start E (dayNumber E t)))
     \<and> 100 \<le> YearFromDay (dayNumber E t))"

lemma start_without_offset:
  assumes "calendar_zone (de_zone E)" "ordinary E t"
  shows "without_offset E (startOfDay E (Some t)) = Some (LocalTime (de_zone E) (day_start E (dayNumber E t)))"
proof -
  have "100 \<le> YearFromTime (LocalTime (de_zone E) (day_start E (dayNumber E t)))"
    using assms day_start_local(1) [OF assms(1)] by (simp add: ordinary_def YearFromTime_def)
  with assms(2) show ?thesis
    by (simp add: without_offset_def startOfDay_eq ordinary_def offset_eq num_minus_def)
qed

lemma round_div_days:
  assumes "0 \<le> r" "2 * r < msPerDay" "0 \<le> s" "2 * s < msPerDay"
  shows "round_div (MakeDate a r - MakeDate b s) millisecondsInDay = a - b"
proof -
  have "2 * (MakeDate a r - MakeDate b s) + 86400000 = 172800000 * (a - b) + (2 * r - 2 * s + 86400000)"
    by (simp add: MakeDate_def msPerDay_def)
  moreover have "0 \<le> 2 * r - 2 * s + 86400000" "2 * r - 2 * s + 86400000 < 172800000"
    using assms by (simp_all add: msPerDay_def)
  ultimately show ?thesis by (simp only: round_div_def millisecondsInDay_def div_within(1)) (simp add: div_within(1))
qed

theorem calendar_days:
  assumes "calendar_zone (de_zone E)" "ordinary E a" "ordinary E b"
  shows "differenceInCalendarDays E (Some a) (Some b) = Some (dayNumber E a - dayNumber E b)"
proof -
  let ?l = "\<lambda>t. LocalTime (de_zone E) (day_start E (dayNumber E t))"
  have l: "?l t = MakeDate (dayNumber E t) (TimeWithinDay (?l t))" for t
    using day_start_local(1) [OF assms(1), of "dayNumber E t"] MakeDate_Day [of "?l t"] by simp
  have "round_div (?l a - ?l b) millisecondsInDay = dayNumber E a - dayNumber E b"
    using round_div_days [OF time_within(1) day_start_local(2) [OF assms(1)] time_within(1) day_start_local(2) [OF assms(1)]] l
    by metis
  then show ?thesis by (simp add: differenceInCalendarDays_def start_without_offset assms num_minus_def)
qed

lemma MakeDay_add: "MakeDay y m (d + n) = MakeDay y m d + n"
  by (simp add: MakeDay_def Let_def)

lemma step_days_eq: "step_days E (Some t) n =
    TimeClip (UTC (de_zone E) (MakeDate (dayNumber E t + n) (TimeWithinDay (LocalTime (de_zone E) t))))"
  by (simp add: step_days_def js_getDate_def js_setDate_def js_setTime_def MakeDay_add MakeDay_fields dayNumber_def)

definition days_in_range :: "date_env \<Rightarrow> int \<Rightarrow> int \<Rightarrow> bool" where
  "days_in_range E i j \<longleftrightarrow> (\<forall>d s. i \<le> d \<and> d \<le> j \<and> 0 \<le> s \<and> s < msPerDay \<longrightarrow> in_range (UTC (de_zone E) (MakeDate d s)))"

lemma days_in_rangeD: "days_in_range E i j \<Longrightarrow> i \<le> d \<Longrightarrow> d \<le> j \<Longrightarrow> 0 \<le> s \<Longrightarrow> s < msPerDay \<Longrightarrow>
    in_range (UTC (de_zone E) (MakeDate d s))"
  by (auto simp: days_in_range_def)

lemma dayNumber_start: "calendar_zone (de_zone E) \<Longrightarrow> dayNumber E (day_start E d) = d"
  by (simp add: dayNumber_def day_start_local)

text \<open>The day after: the next start of a day, unless \<open>Date\<close> cannot hold it.\<close>

lemma next_day:
  assumes "calendar_zone (de_zone E)"
  shows "startOfDay E (step_days E (Some (day_start E d)) 1) \<in> {None, Some (day_start E (d + 1))}"
    and "days_in_range E (d + 1) (d + 1) \<Longrightarrow> startOfDay E (step_days E (Some (day_start E d)) 1) = Some (day_start E (d + 1))"
proof -
  let ?s = "TimeWithinDay (LocalTime (de_zone E) (day_start E d))"
  let ?u = "UTC (de_zone E) (MakeDate (d + 1) ?s)"
  have s: "0 \<le> ?s" "2 * ?s < msPerDay" "?s < msPerDay"
    using time_within [of "LocalTime (de_zone E) (day_start E d)"] day_start_local(2) [OF assms] by simp_all
  have step: "step_days E (Some (day_start E d)) 1 = TimeClip ?u"
    by (simp add: step_days_eq dayNumber_start assms)
  have day: "dayNumber E ?u = d + 1"
    unfolding dayNumber_def using calendar_zone.morning [OF assms s(1,2)] .
  then have "startOfDay E (Some ?u) = TimeClip (day_start E (d + 1))"
    by (simp add: startOfDay_def js_setHours4_def js_setTime_def day_start_def dayNumber_def MakeTime_def)
  then show "startOfDay E (step_days E (Some (day_start E d)) 1) \<in> {None, Some (day_start E (d + 1))}"
    unfolding step by (auto simp: TimeClip_def startOfDay_def js_setHours4_def)
  assume r: "days_in_range E (d + 1) (d + 1)"
  then have "in_range ?u" "in_range (day_start E (d + 1))"
    using s by (auto simp: days_in_range_def day_start_def msPerDay_def)
  then show "startOfDay E (step_days E (Some (day_start E d)) 1) = Some (day_start E (d + 1))"
    unfolding step using \<open>startOfDay E (Some ?u) = _\<close> by simp
qed

lemma days_loop:
  assumes z: "calendar_zone (de_zone E)" and r: "days_in_range E i (dayNumber E b)"
  shows "i \<le> d \<Longrightarrow> d \<le> dayNumber E b \<Longrightarrow>
    each_loop id (\<lambda>d. startOfDay E (step_days E d 1)) (Some b) (Some (day_start E d))
      = Some (map (\<lambda>k. Some (day_start E k)) [d..dayNumber E b])"
proof (induction "nat (dayNumber E b - d)" arbitrary: d)
  case 0
  then have d: "d = dayNumber E b" by simp
  have "day_start E d \<le> b" "\<not> day_start E (d + 1) \<le> b"
    using calendar_zone.start_least [OF z] d by (simp_all add: day_start_def dayNumber_def)
  then have "\<not> num_le (startOfDay E (step_days E (Some (day_start E d)) 1)) (Some b)"
    using next_day(1) [OF z, of d] by (auto simp: num_le_def)
  then have "each_loop id (\<lambda>d. startOfDay E (step_days E d 1)) (Some b) (startOfDay E (step_days E (Some (day_start E d)) 1)) = Some []"
    by (subst each_loop.simps) simp
  with \<open>day_start E d \<le> b\<close> d show ?case
    by (subst each_loop.simps) (simp add: num_le_def)
next
  case (Suc n)
  then have "d + 1 \<le> dayNumber E b" by simp
  moreover have "day_start E d \<le> b"
    using calendar_zone.start_least [OF z] Suc.prems by (simp add: day_start_def dayNumber_def)
  moreover have "days_in_range E (d + 1) (d + 1)"
    using r Suc.prems \<open>d + 1 \<le> dayNumber E b\<close> by (auto simp: days_in_range_def)
  moreover have "each_loop id (\<lambda>d. startOfDay E (step_days E d 1)) (Some b) (Some (day_start E (d + 1)))
      = Some (map (\<lambda>k. Some (day_start E k)) [d + 1..dayNumber E b])"
    using Suc by (intro Suc.hyps(1)) auto
  ultimately show ?case
    using next_day(2) [OF z, of d] Suc.prems by (subst each_loop.simps) (simp add: num_le_def upto_rec1)
qed

text \<open>C36. \<open>eachDayOfInterval\<close> ends, and returns the starts of exactly the days from that of the start of the interval to that of
  its end, in order: none is skipped and none comes twice, also when the clocks are changed in between.\<close>

theorem each_day:
  assumes "calendar_zone (de_zone E)" "a \<le> b" "days_in_range E (dayNumber E a) (dayNumber E b)"
  shows "eachDayOfInterval E \<lparr>iv_start = Some a, iv_end = Some b\<rparr> None
    = Some (map (\<lambda>k. Some (day_start E k)) [dayNumber E a..dayNumber E b])"
proof -
  have le: "dayNumber E a \<le> dayNumber E b"
  proof -
    have "day_start E (dayNumber E a) \<le> a"
      using calendar_zone.start_least [OF assms(1)] by (simp add: day_start_def dayNumber_def)
    with assms(2) have "day_start E (dayNumber E a) \<le> b" by simp
    then show ?thesis
      using calendar_zone.start_least [OF assms(1)] by (simp add: day_start_def dayNumber_def)
  qed
  have "in_range (day_start E (dayNumber E a))"
    using days_in_rangeD [OF assms(3), of "dayNumber E a" 0] le by (simp add: day_start_def msPerDay_def)
  then have "startOfDay E (Some a) = Some (day_start E (dayNumber E a))" by (rule startOfDay_eq)
  with assms(2) days_loop [OF assms(1,3) order_refl le] show ?thesis
    by (simp add: eachDayOfInterval_def each_of_interval_def num_lt_def)
qed

text \<open>The night of the 31st of March 2024, when the clocks of Berlin were put forward.\<close>

definition berlin_spring :: date_env where
  "berlin_spring = \<lparr>de_zone = summer_zone 60 475514, de_now = 1711972800000, de_default = no_week_options\<rparr>"

theorem each_day_witness:
  "eachDayOfInterval berlin_spring \<lparr>iv_start = Some 1711800000000, iv_end = Some 1711972800000\<rparr> None
    = Some [Some 1711753200000, Some 1711839600000, Some 1711922400000]"
proof -
  have n: "dayNumber berlin_spring 1711800000000 = 19812" "dayNumber berlin_spring 1711972800000 = 19814"
    "map (\<lambda>k. Some (day_start berlin_spring k)) [19812..19814] = [Some 1711753200000, Some 1711839600000, Some 1711922400000]"
    by code_simp+
  have "days_in_range berlin_spring 19812 19814"
    by (auto simp: days_in_range_def berlin_spring_def summer_zone_def UTC_def MakeDate_def msPerDay_def in_range_def max_time_def)
  moreover have "calendar_zone (de_zone berlin_spring)"
    by (simp add: berlin_spring_def summer.calendar_zone_axioms)
  ultimately show ?thesis
    using each_day [of berlin_spring 1711800000000 1711972800000] n by simp
qed

section \<open>Months\<close>

lemma month_end_day:
  "MakeDay y (m + 1) 0 = MakeDay (y + m div 12) (m mod 12) (days_in_month (y + m div 12) (m mod 12))"
proof -
  define y' m' where "y' = y + m div 12" and "m' = m mod 12"
  have m': "0 \<le> m'" "m' \<le> 11" using pos_mod_bound [of 12 m] by (simp_all add: m'_def)
  have m: "m = 12 * (m div 12) + m'" by (simp add: m'_def)
  show ?thesis
  proof (cases "m' = 11")
    case True
    then have "m + 1 = 12 * (m div 12 + 1) + 0" using m by simp
    then have "(m + 1) div 12 = m div 12 + 1" "(m + 1) mod 12 = 0" by (simp_all only: div_within)
    then show ?thesis using True DayFromYear_step [of y']
      by (simp add: MakeDay_def Let_def days_in_month_def month_start_def y'_def [symmetric] m'_def [symmetric] add.assoc [symmetric])
  next
    case False
    then have "m + 1 = 12 * (m div 12) + (m' + 1)" "0 \<le> m' + 1" "m' + 1 < 12" using m m' by simp_all
    then have "(m + 1) div 12 = m div 12" "(m + 1) mod 12 = m' + 1" by (simp_all only: div_within)
    then show ?thesis using m'
      by (simp add: MakeDay_def Let_def days_in_month_def y'_def [symmetric] m'_def [symmetric])
  qed
qed

lemma TimeClip_Some: "TimeClip u = Some t \<longleftrightarrow> t = u \<and> in_range u"
  by (auto simp: TimeClip_def in_range_def)

lemma fixed_set:
  assumes "js_setTime (fixed_zone off) (MakeDay y m d) s = Some t" "0 \<le> s" "s < msPerDay"
    "0 \<le> m" "m \<le> 11" "1 \<le> d" "d \<le> days_in_month y m"
  shows "YearFromTime (LocalTime (fixed_zone off) t) = y" "MonthFromTime (LocalTime (fixed_zone off) t) = m"
    "DateFromTime (LocalTime (fixed_zone off) t) = d" "TimeWithinDay (LocalTime (fixed_zone off) t) = s"
proof -
  have l: "LocalTime (fixed_zone off) t = MakeDate (MakeDay y m d) s"
    using assms(1) by (auto simp: js_setTime_def TimeClip_Some)
  with assms(2,3) have "Day (LocalTime (fixed_zone off) t) = MakeDay y m d" "TimeWithinDay (LocalTime (fixed_zone off) t) = s"
    by simp_all
  then show "YearFromTime (LocalTime (fixed_zone off) t) = y" "MonthFromTime (LocalTime (fixed_zone off) t) = m"
    "DateFromTime (LocalTime (fixed_zone off) t) = d" "TimeWithinDay (LocalTime (fixed_zone off) t) = s"
    using fields_MakeDay [OF _ assms(4-7), of "LocalTime (fixed_zone off) t"] by simp_all
qed

text \<open>Months from the year 0 on.\<close>

definition monthNumber :: "date_env \<Rightarrow> int \<Rightarrow> int" where
  "monthNumber E t = 12 * yearOf E t + monthOf E t"

lemma add_months:
  assumes "de_zone E = fixed_zone off" "addMonths E (Some t) (Some n) = Some t'"
  shows "monthNumber E t' = monthNumber E t + n
    \<and> dateOf E t' = min (dateOf E t) (days_in_month (yearOf E t') (monthOf E t'))
    \<and> TimeWithinDay (LocalTime (de_zone E) t') = TimeWithinDay (LocalTime (de_zone E) t)"
proof (cases "n = 0")
  case True
  with assms(2) fields_bounds(4) [of "LocalTime (de_zone E) t"] show ?thesis
    by (simp add: addMonths_def monthNumber_def dateOf_def yearOf_def monthOf_def)
next
  case False
  let ?z = "fixed_zone off"
  define l where "l = LocalTime ?z t"
  define y m where "y = YearFromTime l + (MonthFromTime l + n) div 12" and "m = (MonthFromTime l + n) mod 12"
  have m: "0 \<le> m" "m \<le> 11" using pos_mod_bound [of 12 "MonthFromTime l + n"] by (simp_all add: m_def)
  have num: "12 * y + m = 12 * YearFromTime l + MonthFromTime l + n" by (simp add: y_def m_def)
  define e where "e = js_setMonth2 ?z (constructFrom (Some t) (Some t)) (MonthFromTime l + n + 1) 0"
  have "constructFrom (Some t) (Some t) = Some t"
    using assms(2) False unfolding addMonths_def by (auto simp: constructFrom_def new_Date_def TimeClip_def js_setMonth2_def js_getDate_def assms(1) Let_def bind_eq_Some_conv split: if_splits)
  then have e: "e = js_setTime ?z (MakeDay y m (days_in_month y m)) (TimeWithinDay l)"
    by (simp add: e_def js_setMonth2_def l_def [symmetric] month_end_day y_def m_def)
  have dim: "1 \<le> days_in_month y m" using days_in_month_bounds [OF m, of y] by simp
  from assms(2) False obtain u where u: "e = Some u"
    unfolding addMonths_def by (auto simp: assms(1) Let_def bind_eq_Some_conv e_def js_getDate_def js_getMonth_def l_def)
  note eu = fixed_set [OF e [unfolded u, symmetric] time_within m dim order_refl]
  have res: "Some t' = (if DateFromTime l \<ge> days_in_month y m then e else js_setTime ?z (MakeDay y m (DateFromTime l)) (TimeWithinDay l))"
  proof -
    have "addMonths E (Some t) (Some n) = do {
        k \<leftarrow> js_getDate ?z e;
        if DateFromTime l \<ge> k then e else do {y' \<leftarrow> js_getFullYear ?z e; m' \<leftarrow> js_getMonth ?z e; js_setFullYear3 ?z (Some t) y' m' (DateFromTime l)}}"
      unfolding e_def l_def using False by (simp add: addMonths_def assms(1) Let_def js_getDate_def js_getMonth_def)
    with u show ?thesis
      unfolding assms(2) by (simp add: js_getDate_def js_getMonth_def js_getFullYear_def js_setFullYear3_def eu l_def [symmetric])
  qed
  show ?thesis
  proof (cases "DateFromTime l \<ge> days_in_month y m")
    case True
    with res u have "t' = u" by simp
    with eu True num show ?thesis
      by (simp add: monthNumber_def dateOf_def yearOf_def monthOf_def assms(1) l_def [symmetric])
  next
    case False
    with res have t': "js_setTime ?z (MakeDay y m (DateFromTime l)) (TimeWithinDay l) = Some t'" by simp
    with fixed_set [OF t' time_within m fields_bounds(3)] False num show ?thesis
      by (simp add: monthNumber_def dateOf_def yearOf_def monthOf_def assms(1) l_def [symmetric])
  qed
qed

lemma fixed_add_days:
  assumes "de_zone E = fixed_zone off"
  shows "addDays E (Some t) (Some n) = (if n = 0 then Some t else TimeClip (t + n * msPerDay))"
proof -
  have "addDays E (Some t) (Some n) = (if n = 0 then Some t else step_days E (Some t) n)"
    by (simp add: addDays_def step_days_def js_getDate_def)
  moreover have "UTC (fixed_zone off) (MakeDate (Day (LocalTime (fixed_zone off) t) + n) (TimeWithinDay (LocalTime (fixed_zone off) t))) = t + n * msPerDay"
  proof -
    have "MakeDate (Day l + n) (TimeWithinDay l) = l + n * msPerDay" for l
      using MakeDate_Day [of l] by (simp add: MakeDate_def algebra_simps)
    then show ?thesis by (simp add: LocalTime_def UTC_def fixed_zone_def)
  qed
  ultimately show ?thesis by (simp add: step_days_eq assms dayNumber_def)
qed

section \<open>Texts of dates\<close>

lemma digits_nat_zeros: "digits_nat (replicate k (CHR ''0'') @ s) = digits_nat s"
proof (induction k)
  case (Suc k)
  have "(of_char (CHR ''0'') :: nat) = 48" by code_simp
  with Suc show ?case by (simp add: digits_nat_def)
qed simp

lemma pad_zeros_length: "length s \<le> n \<Longrightarrow> length (pad_zeros n s) = n"
  by (simp add: pad_zeros_def)

lemma pad_zeros_digits: "c \<in> set (pad_zeros n (show_nat k)) \<Longrightarrow> is_digit c"
  by (auto simp: pad_zeros_def is_digit_zero dest: show_nat_digits)

lemma show_int_nat: "0 \<le> i \<Longrightarrow> show_int i = show_nat (nat i)"
  by (simp add: show_int_def)

lemma padded_length:
  assumes "0 \<le> i" "i < 10 ^ n" "0 < n"
  shows "length (pad_zeros n (show_int i)) = n"
proof -
  have "nat i < 10 ^ n" using assms(1,2) by (simp add: nat_less_iff)
  with assms show ?thesis by (simp add: show_int_nat pad_zeros_length show_nat_length)
qed

lemma take_digits_padded:
  assumes "0 \<le> i" "i < 10 ^ n" "0 < n"
  shows "take_digits n (pad_zeros n (show_int i) @ r) = Some (i, r)"
proof -
  have "digits_nat (pad_zeros n (show_nat (nat i))) = nat i"
    by (simp add: pad_zeros_def digits_nat_zeros)
  then show ?thesis
    using assms padded_length [OF assms]
    by (auto simp: take_digits_def list_all_iff show_int_nat intro: pad_zeros_digits)
qed

lemma padded_start:
  assumes "0 \<le> i" "0 < n"
  obtains c s where "pad_zeros n (show_int i) = c # s" "is_digit c"
proof -
  have "pad_zeros n (show_int i) \<noteq> []" using assms by (simp add: pad_zeros_def show_int_nat)
  then obtain c s where cs: "pad_zeros n (show_int i) = c # s" by (cases "pad_zeros n (show_int i)") auto
  with assms pad_zeros_digits [of c n "nat i"] have "is_digit c" by (simp add: show_int_nat)
  with cs show thesis using that by blast
qed

lemma digit_no_sign: "is_digit c \<Longrightarrow> c \<noteq> CHR ''+'' \<and> c \<noteq> CHR ''-'' \<and> c \<noteq> CHR '':'' \<and> c \<noteq> CHR ''.'' \<and> c \<noteq> CHR '' ''"
proof -
  have "\<not> is_digit (CHR ''+'')" "\<not> is_digit (CHR ''-'')" "\<not> is_digit (CHR '':'')" "\<not> is_digit (CHR ''.'')" "\<not> is_digit (CHR '' '')"
    by code_simp+
  then show "is_digit c \<Longrightarrow> ?thesis" by auto
qed

lemma time_bounds:
  assumes "in_range t"
  shows "- 1000000 < YearFromTime t" "YearFromTime t < 1000000"
proof -
  have d: "- 100000001 < Day t" "Day t < 100000001"
    using assms by (auto simp: in_range_def max_time_def Day_def msPerDay_def)
  show "YearFromTime t < 1000000"
  proof (rule ccontr)
    assume "\<not> ?thesis"
    then have "DayFromYear 1000000 \<le> DayFromYear (YearFromTime t)" by (intro DayFromYear_le) simp
    with year_of_day [of "Day t"] d show False by (simp add: YearFromTime_def DayFromYear_def)
  qed
  show "- 1000000 < YearFromTime t"
  proof (rule ccontr)
    assume "\<not> ?thesis"
    then have "DayFromYear (YearFromTime t + 1) \<le> DayFromYear (- 999999)" by (intro DayFromYear_le) simp
    with year_of_day [of "Day t"] d show False by (simp add: YearFromTime_def DayFromYear_def)
  qed
qed

lemma read_iso_year_text:
  assumes "- 1000000 < y" "y < 1000000"
  shows "read_iso_year (iso_year y @ r) = Some (y, r)"
proof (cases "0 \<le> y \<and> y \<le> 9999")
  case True
  then obtain c s where c: "pad_zeros 4 (show_int y) = c # s" "is_digit c" using padded_start [of y 4] by auto
  have "take_digits 4 (pad_zeros 4 (show_int y) @ r) = Some (y, r)"
    using True by (intro take_digits_padded) auto
  with True c(1) digit_no_sign [OF c(2)] show ?thesis by (auto simp: read_iso_year_def iso_year_def split: list.split)
next
  case False
  have "take_digits 6 (pad_zeros 6 (show_int \<bar>y\<bar>) @ r) = Some (\<bar>y\<bar>, r)"
    using assms by (intro take_digits_padded) auto
  with False show ?thesis by (auto simp: read_iso_year_def iso_year_def)
qed

lemma read_iso_part_text: "0 \<le> i \<Longrightarrow> i < 100 \<Longrightarrow> read_iso_part c k (c # pad_zeros 2 (show_int i) @ r) = Some (i, r)"
  using take_digits_padded [of i 2 r] by (simp add: read_iso_part_def take_char_def)

text \<open>\<open>new Date(d.toISOString())\<close> is \<open>d\<close>.\<close>

lemma parse_iso_text:
  assumes "in_range t"
  shows "js_parse engine z (iso_text t) = Some t"
proof -
  note f = fields_bounds [of t] days_in_month_bounds [OF fields_bounds(1,2), of "YearFromTime t" t] clock_fields [of t]
  let ?ms = "pad_zeros 3 (show_int (msFromTime t))"
  have two: "take_digits 2 (pad_zeros 2 (show_int i) @ r) = Some (i, r)" if "0 \<le> i" "i < 100" for i r
    using that by (intro take_digits_padded) auto
  have three: "take 3 (?ms @ ''00'') = ?ms" "length ?ms = 3" "int (digits_nat ?ms) = msFromTime t"
    using padded_length [of "msFromTime t" 3] take_digits_padded [of "msFromTime t" 3 "[]"] f by (auto simp: take_digits_def split: if_splits)
  have run: "takeWhile is_digit (?ms @ ''Z'') = ?ms"
  proof -
    have "\<not> is_digit (CHR ''Z'')" by code_simp
    moreover have "\<forall>c \<in> set ?ms. is_digit c" using f pad_zeros_digits by (auto simp: show_int_nat)
    ultimately show ?thesis by (simp add: takeWhile_append2)
  qed
  have frac: "read_fraction (''.'' @ ?ms @ ''Z'') = Some (msFromTime t, ''Z'')"
    using three run by (auto simp: read_fraction_def take_char_def Let_def)
  have time: "read_iso_time (pad_zeros 2 (show_int (HourFromTime t)) @ '':'' @ pad_zeros 2 (show_int (MinFromTime t)) @ '':''
       @ pad_zeros 2 (show_int (SecFromTime t)) @ ''.'' @ ?ms @ ''Z'') = Some (TimeWithinDay t, Some 0)"
    using f frac by (simp add: read_iso_time_def two take_char_def read_iso_part_text read_offset_def MakeTime_fields)
  have date: "read_iso_date (iso_year (YearFromTime t) @ ''-'' @ pad_zeros 2 (show_int (MonthFromTime t + 1)) @ ''-''
       @ pad_zeros 2 (show_int (DateFromTime t)) @ r) = Some (YearFromTime t, MonthFromTime t + 1, DateFromTime t, r)" for r
    using f time_bounds [OF assms] by (simp add: read_iso_date_def read_iso_year_text read_iso_part_text)
  have "read_iso z (iso_text t) = Some (TimeClip (MakeDate (Day t) (TimeWithinDay t)))"
    unfolding read_iso_def iso_text_def using f time date [of "''T'' @ _"] by (simp add: MakeDay_fields)
  with assms show ?thesis by (simp add: js_parse_def)
qed

text \<open>The text of a day, \<open>MMMM d, yyyy\<close>, names the day: no two days after Christ have the same.\<close>

lemma day_format_parts: "format_parts E ''MMMM d, yyyy'' =
    Some [Token ''MMMM'', Literal '' '', Token ''d'', Literal '','', Literal '' '', Token ''yyyy'']"
proof -
  note defs = rest_match_def run_of_def quote_def is_line_terminator_def is_word_char_def is_lower_az_def is_upper_az_def is_digit_def
  have long: "all_matches long_match ''MMMM d, yyyy'' = map (\<lambda>c. [c]) ''MMMM d, yyyy''"
    by (simp add: all_matches.simps long_match_def defs)
  have tokens: "all_matches format_match ''MMMM d, yyyy'' = [''MMMM'', '' '', ''d'', '','', '' '', ''yyyy'']"
    by (simp add: all_matches.simps format_match_def light_match_def ordinal_letters_def defs)
  show ?thesis
    by (simp add: format_parts_def long expand_long_def tokens format_part_of_def formatters_def is_latin_def quote_def defs)
qed

definition day_text :: "date_env \<Rightarrow> int \<Rightarrow> string" where
  "day_text E t = array month_names (monthOf E t) @ '' '' @ addLeadingZeros (Some (dateOf E t)) 1 @ '','' @ '' ''
     @ addLeadingZeros (Some (era_year (yearOf E t))) 4"

lemma format_day: "df_format E (Some t) ''MMMM d, yyyy'' options = Some (day_text E t)"
proof -
  have M: "localize_month m Wide Formatting = array month_names m" for m
    by (simp add: localize_month_def buildLocalizeFn_def values_of_def monthValues_def)
  show ?thesis
    by (simp add: df_format_def Let_def day_format_parts format_piece_def isProtectedWeekYearToken_def isProtectedDayOfYearToken_def
        formatters_def formatter_M_def formatter_d_def formatter_y_def light_d_def light_y_def M day_text_def eval_nat_numeral)
qed

lemma month_name_words: "0 \<le> m \<Longrightarrow> m \<le> 11 \<Longrightarrow> takeWhile (\<lambda>c. c \<noteq> CHR '' '') (array month_names m @ CHR '' '' # r) = array month_names m
    \<and> dropWhile (\<lambda>c. c \<noteq> CHR '' '') (array month_names m @ CHR '' '' # r) = CHR '' '' # r"
  by (cases m rule: month_cases) (simp_all add: array_def month_names_def)

lemma month_name_inj:
  assumes "0 \<le> m" "m \<le> 11" "0 \<le> n" "n \<le> 11" "array month_names m = array month_names n"
  shows "m = n"
proof -
  have "distinct month_names" "length month_names = 12" by (simp_all add: month_names_def)
  moreover have "nat m < 12" "nat n < 12" using assms by simp_all
  ultimately show ?thesis using assms by (simp add: array_def nth_eq_iff_index_eq eq_nat_nat_iff)
qed

lemma number_comma: "0 \<le> i \<Longrightarrow> takeWhile (\<lambda>c. c \<noteq> CHR '','') (pad_zeros n (show_int i) @ CHR '','' # r) = pad_zeros n (show_int i)
    \<and> dropWhile (\<lambda>c. c \<noteq> CHR '','') (pad_zeros n (show_int i) @ CHR '','' # r) = CHR '','' # r"
proof -
  assume "0 \<le> i"
  have "\<not> is_digit (CHR '','')" by code_simp
  then have "\<forall>c \<in> set (pad_zeros n (show_int i)). c \<noteq> CHR '',''"
    using \<open>0 \<le> i\<close> pad_zeros_digits by (auto simp: show_int_nat)
  then show ?thesis by (auto simp: takeWhile_append2 dropWhile_append2)
qed

lemma padded_inj: "0 \<le> i \<Longrightarrow> 0 \<le> j \<Longrightarrow> pad_zeros n (show_int i) = pad_zeros n (show_int j) \<Longrightarrow> i = j"
proof -
  assume "0 \<le> i" "0 \<le> j" "pad_zeros n (show_int i) = pad_zeros n (show_int j)"
  then have "digits_nat (pad_zeros n (show_nat (nat i))) = digits_nat (pad_zeros n (show_nat (nat j)))"
    by (simp add: show_int_nat)
  with \<open>0 \<le> i\<close> \<open>0 \<le> j\<close> show "i = j" by (simp add: pad_zeros_def digits_nat_zeros)
qed

lemma month_fields: "0 \<le> monthOf E t" "monthOf E t \<le> 11" "1 \<le> dateOf E t" "dateOf E t \<le> 31"
  using fields_bounds [of "LocalTime (de_zone E) t"]
    days_in_month_bounds [of "MonthFromTime (LocalTime (de_zone E) t)" "YearFromTime (LocalTime (de_zone E) t)"]
  by (simp_all add: monthOf_def dateOf_def)

lemma dayNumber_fields: "dayNumber E t = MakeDay (yearOf E t) (monthOf E t) (dateOf E t)"
  by (simp add: dayNumber_def yearOf_def monthOf_def dateOf_def MakeDay_fields)

lemma fields_dayNumber:
  "dayNumber E a = dayNumber E b \<Longrightarrow> yearOf E a = yearOf E b \<and> monthOf E a = monthOf E b \<and> dateOf E a = dateOf E b"
  by (simp add: dayNumber_def yearOf_def monthOf_def dateOf_def YearFromTime_def MonthFromTime_def DateFromTime_def DayWithinYear_def)

theorem day_text_iff:
  assumes "1 \<le> yearOf E a" "1 \<le> yearOf E b"
  shows "day_text E a = day_text E b \<longleftrightarrow> dayNumber E a = dayNumber E b"
proof
  assume eq: "day_text E a = day_text E b"
  let ?rest = "\<lambda>t. pad_zeros 1 (show_int (dateOf E t)) @ CHR '','' # CHR '' '' # pad_zeros 4 (show_int (yearOf E t))"
  have shape: "day_text E t = array month_names (monthOf E t) @ CHR '' '' # ?rest t" if "1 \<le> yearOf E t" for t
    using that month_fields [of E t] by (simp add: day_text_def addLeadingZeros_def era_year_def)
  from eq have "array month_names (monthOf E a) @ CHR '' '' # ?rest a = array month_names (monthOf E b) @ CHR '' '' # ?rest b"
    using shape assms by simp
  note parts = arg_cong [OF this, of "takeWhile (\<lambda>c. c \<noteq> CHR '' '')"] arg_cong [OF this, of "dropWhile (\<lambda>c. c \<noteq> CHR '' '')"]
  have month: "array month_names (monthOf E a) = array month_names (monthOf E b)" and rest: "?rest a = ?rest b"
    using parts by (simp_all only: month_name_words [OF month_fields(1,2)] list.inject)
  have nonneg: "0 \<le> dateOf E t" for t using month_fields(3) [of E t] by simp
  note parts = arg_cong [OF rest, of "takeWhile (\<lambda>c. c \<noteq> CHR '','')"] arg_cong [OF rest, of "dropWhile (\<lambda>c. c \<noteq> CHR '','')"]
  have date: "pad_zeros 1 (show_int (dateOf E a)) = pad_zeros 1 (show_int (dateOf E b))"
    and year: "pad_zeros 4 (show_int (yearOf E a)) = pad_zeros 4 (show_int (yearOf E b))"
    using parts by (simp_all only: number_comma [OF nonneg] list.inject)
  from month have "monthOf E a = monthOf E b" by (rule month_name_inj [OF month_fields(1,2) month_fields(1,2)])
  moreover from date have "dateOf E a = dateOf E b"
    using month_fields [of E a] month_fields [of E b] by (intro padded_inj) auto
  moreover from year have "yearOf E a = yearOf E b" using assms by (intro padded_inj) auto
  ultimately show "dayNumber E a = dayNumber E b" by (simp add: dayNumber_fields)
next
  assume "dayNumber E a = dayNumber E b"
  from fields_dayNumber [OF this] show "day_text E a = day_text E b" by (simp add: day_text_def)
qed

section \<open>Distances\<close>

lemma round_div_bound: "0 < b \<Longrightarrow> 2 * (b * round_div a b - a) \<le> b" "0 < b \<Longrightarrow> - b \<le> 2 * (b * round_div a b - a)"
proof -
  assume b: "0 < b"
  define q r where "q = (2 * a + b) div (2 * b)" and "r = (2 * a + b) mod (2 * b)"
  have "2 * a + b = 2 * b * q + r" "0 \<le> r" "r < 2 * b" using b by (simp_all add: q_def r_def)
  moreover from this(1) have "2 * (b * q - a) = b - r" by (simp add: algebra_simps)
  ultimately show "2 * (b * round_div a b - a) \<le> b" "- b \<le> 2 * (b * round_div a b - a)"
    by (simp_all add: round_div_def q_def [symmetric])
qed

text \<open>The units of the texts for less than two months, in milliseconds.\<close>

definition distance_units :: "(string \<times> int) list" where
  "distance_units = [(''lessThanXMinutes'', 60000), (''xMinutes'', 60000), (''aboutXHours'', 3600000),
     (''xDays'', 86400000), (''aboutXMonths'', 2592000000)]"

lemma distance_token_bound:
  assumes s: "x \<le> ms" "ms < x + 1000" and "ms < 59 * 86400000" and "minutes = round_div x 60000"
  shows "\<exists>token n u. distance_token False seconds minutes months = (token, Some n)
    \<and> (token, u) \<in> set distance_units \<and> \<bar>n * u - ms\<bar> \<le> u + (if ms < 0 then 30000 else 0)"
proof -
  note m = round_div_bound [of 60000 x, folded assms(4), simplified]
  note h = round_div_bound [of 60 minutes, simplified]
  note d = round_div_bound [of 1440 minutes, simplified]
  note mo = round_div_bound [of 43200 minutes, simplified]
  define slack :: int where "slack = (if ms < 0 then 30000 else 0)"
  have slack: "0 \<le> slack" "ms < 0 \<Longrightarrow> slack = 30000" by (simp_all add: slack_def)
  note defs = distance_token_def minutesInDay_def minutesInMonth_def distance_units_def
  consider "minutes = 0" | "minutes \<noteq> 0" "minutes < 45" | "45 \<le> minutes" "minutes < 90" | "90 \<le> minutes" "minutes < 1440"
    | "1440 \<le> minutes" "minutes < 2520" | "2520 \<le> minutes" "minutes < 43200" | "43200 \<le> minutes" "minutes < 86400" | "86400 \<le> minutes"
    by linarith
  then show ?thesis
  proof cases
    case 1
    then have "distance_token False seconds minutes months = (''lessThanXMinutes'', Some 1)" by (simp add: defs)
    moreover have "\<bar>1 * 60000 - ms\<bar> \<le> 60000 + slack" using 1 m s slack unfolding abs_le_iff by (cases "ms < 0") linarith+
    ultimately show ?thesis by (auto simp: distance_units_def slack_def)
  next
    case 2
    then have "distance_token False seconds minutes months = (''xMinutes'', Some minutes)" by (simp add: defs)
    moreover have "\<bar>minutes * 60000 - ms\<bar> \<le> 60000 + slack" using m s slack(1) unfolding abs_le_iff by linarith
    ultimately show ?thesis by (auto simp: distance_units_def slack_def)
  next
    case 3
    then have "distance_token False seconds minutes months = (''aboutXHours'', Some 1)" by (simp add: defs)
    moreover have "\<bar>1 * 3600000 - ms\<bar> \<le> 3600000 + slack" using 3 m s slack(1) unfolding abs_le_iff by linarith
    ultimately show ?thesis by (auto simp: distance_units_def slack_def)
  next
    case 4
    then have "distance_token False seconds minutes months = (''aboutXHours'', Some (round_div minutes 60))" by (simp add: defs)
    moreover have "\<bar>round_div minutes 60 * 3600000 - ms\<bar> \<le> 3600000 + slack" using h m s slack(1) unfolding abs_le_iff by linarith
    ultimately show ?thesis by (auto simp: distance_units_def slack_def)
  next
    case 5
    then have "distance_token False seconds minutes months = (''xDays'', Some 1)" by (simp add: defs)
    moreover have "\<bar>1 * 86400000 - ms\<bar> \<le> 86400000 + slack" using 5 m s slack(1) unfolding abs_le_iff by linarith
    ultimately show ?thesis by (auto simp: distance_units_def slack_def)
  next
    case 6
    then have "distance_token False seconds minutes months = (''xDays'', Some (round_div minutes 1440))" by (simp add: defs)
    moreover have "\<bar>round_div minutes 1440 * 86400000 - ms\<bar> \<le> 86400000 + slack" using d m s slack(1) unfolding abs_le_iff by linarith
    ultimately show ?thesis by (auto simp: distance_units_def slack_def)
  next
    case 7
    then have "distance_token False seconds minutes months = (''aboutXMonths'', Some (round_div minutes 43200))" by (simp add: defs)
    moreover have "\<bar>round_div minutes 43200 * 2592000000 - ms\<bar> \<le> 2592000000 + slack" using mo m s slack(1) unfolding abs_le_iff by linarith
    ultimately show ?thesis by (auto simp: distance_units_def slack_def)
  next
    case 8
    with m s assms(3) show ?thesis by linarith
  qed
qed

text \<open>A date the library can compute with in a zone: a local time that \<open>Date\<close> can hold, from the year 100 on.\<close>

definition usual :: "date_env \<Rightarrow> int \<Rightarrow> bool" where
  "usual E t \<longleftrightarrow> in_range t \<and> in_range (LocalTime (de_zone E) t) \<and> 100 \<le> yearOf E t"

lemma usual_offset: "usual E t \<Longrightarrow> getTimezoneOffsetInMilliseconds E (Some t) = Some (- tz_utc (de_zone E) t)"
  using offset_eq [of E t] by (simp add: usual_def yearOf_def LocalTime_def)

text \<open>How far the clocks of the zone have been put forward from the earlier to the later of two times.\<close>

definition clock_change :: "date_env \<Rightarrow> int \<Rightarrow> int \<Rightarrow> int" where
  "clock_change E a b = tz_utc (de_zone E) (max a b) - tz_utc (de_zone E) (min a b)"

text \<open>C37. The age that pages show of a repository, a commit, a key or an activity is, up to its unit, how far
  the local clock has moved: the true distance and the change of the clocks in between. In every time
  zone, when that is less than 59 days, \<open>formatDistanceToNow\<close> prints a number of minutes, hours, days or
  months that differs from it by at most one of them, and says whether the time is past or to come. So
  the age is right when the clocks have not changed, and otherwise wrong by the change: when they have
  been put back by more than the distance it is a negative number of minutes, or less than a minute,
  right up to a minute and a half.\<close>

theorem distance_in_words:
  assumes u: "usual E t" "usual E (de_now E)"
    and close: "\<bar>t - de_now E\<bar> + clock_change E t (de_now E) < 59 * 86400000"
  shows "\<exists>token n u. formatDistanceToNow E (Some t) True False = locale_formatDistance token n True (sgn (t - de_now E))
    \<and> (token, u) \<in> set distance_units
    \<and> \<bar>n * u - (\<bar>t - de_now E\<bar> + clock_change E t (de_now E))\<bar>
        \<le> u + (if \<bar>t - de_now E\<bar> + clock_change E t (de_now E) < 0 then 30000 else 0)"
proof -
  let ?now = "de_now E" and ?ms = "\<bar>t - de_now E\<bar>" and ?ch = "clock_change E t (de_now E)"
  define l r where "l = min t ?now" and "r = max t ?now"
  have now: "constructNow E (Some t) = Some ?now" using u(2) by (simp add: constructNow_def constructFrom_def new_Date_def usual_def)
  have compare: "compareAsc (Some t) (Some ?now) = Some (sgn (t - ?now))"
    by (auto simp: compareAsc_def num_minus_def sgn_if)
  have ms: "r - l = ?ms" by (simp add: l_def r_def)
  have seconds: "differenceInSeconds (Some r) (Some l) None = Some (?ms div 1000)"
    by (simp add: differenceInSeconds_def differenceInMilliseconds_def difference_rounded_def round_with_def num_minus_def ms trunc_div_def sgn_if)
  have "usual E r" "usual E l" using u by (simp_all add: l_def r_def min_def max_def)
  then have off: "num_minus (getTimezoneOffsetInMilliseconds E (Some r)) (getTimezoneOffsetInMilliseconds E (Some l)) = Some (- ?ch)"
    by (simp add: usual_offset num_minus_def clock_change_def l_def r_def)
  have "?ms div 1000 * 1000 + ?ch \<le> ?ms + ?ch" "?ms + ?ch < ?ms div 1000 * 1000 + ?ch + 1000" by simp_all
  then obtain token n v where tok: "distance_token False (?ms div 1000) (round_div (?ms div 1000 * 1000 + ?ch) 60000)
        (differenceInMonths E (Some r) (Some l)) = (token, Some n)"
      "(token, v) \<in> set distance_units" "\<bar>n * v - (?ms + ?ch)\<bar> \<le> v + (if ?ms + ?ch < 0 then 30000 else 0)"
    using distance_token_bound [of "?ms div 1000 * 1000 + ?ch" "?ms + ?ch" _ "?ms div 1000" "differenceInMonths E (Some r) (Some l)"] close
    by blast
  have lr: "(if sgn (t - ?now) > 0 then Some ?now else Some t) = Some l" "(if sgn (t - ?now) > 0 then Some t else Some ?now) = Some r"
    by (auto simp: l_def r_def sgn_if min_def max_def)
  have "formatDistanceToNow E (Some t) True False = locale_distance (token, Some n) True (sgn (t - ?now))"
    unfolding formatDistanceToNow_def now formatDistance_def compare
    by (simp add: lr seconds off tok(1) Let_def del: sgn_greater)
  then have "formatDistanceToNow E (Some t) True False = locale_formatDistance token n True (sgn (t - ?now))"
    by (simp add: locale_distance_def)
  with tok(2,3) show ?thesis by blast
qed

text \<open>Noon of the 29th of February 2024 in Berlin.\<close>

definition berlin_winter :: date_env where
  "berlin_winter = \<lparr>de_zone = fixed_zone 60, de_now = 1709204400000, de_default = no_week_options\<rparr>"

text \<open>Berlin in the night in which its clocks are put back an hour, at three; a local time of the hour
  that comes twice is one before the change.\<close>

definition autumn_zone :: "int \<Rightarrow> int \<Rightarrow> zone" where
  "autumn_zone m k = \<lparr>tz_utc = \<lambda>t. (if t < 3600000 * k then m + 60 else m) * 60000,
     tz_local = \<lambda>l. (if l < 3600000 * (k + 1) + m * 60000 then m + 60 else m) * 60000\<rparr>"

definition berlin_autumn :: date_env where
  "berlin_autumn = \<lparr>de_zone = autumn_zone 60 480553, de_now = 1729991100000, de_default = no_week_options\<rparr>"

text \<open>Ten minutes across the change.\<close>

theorem autumn_minutes: "formatDistanceToNow berlin_autumn (Some 1729990500000) True False = Some ''-50 minutes ago''"
  by code_simp

theorem distance_in_words_witness:
  "\<exists>token n u. formatDistanceToNow berlin_autumn (Some 1729990500000) True False = locale_formatDistance token n True (- 1)
    \<and> (token, u) \<in> set distance_units \<and> \<bar>n * u - (600000 - 3600000)\<bar> \<le> u + 30000"
proof -
  have "usual berlin_autumn 1729990500000" "usual berlin_autumn (de_now berlin_autumn)"
    "\<bar>1729990500000 - de_now berlin_autumn\<bar> = 600000" "clock_change berlin_autumn 1729990500000 (de_now berlin_autumn) = - 3600000"
    "sgn (1729990500000 - de_now berlin_autumn) = - 1"
    by code_simp+
  then show ?thesis using distance_in_words [of berlin_autumn 1729990500000] by simp
qed

end
