(* ===== verification/DateTexts.thy ===== *)
theory DateTexts
  imports DateFacts
begin

text \<open>
  What \<open>formatISO\<close> prints is what \<open>parseISO\<close> reads: the texts of numbers in fixed widths, how a text is split
  into date, time and offset, and the round trip, in the extended and in the basic format and in every
  time zone.
\<close>

section \<open>Numbers of two digits\<close>

lemma two_padded: "0 \<le> i \<Longrightarrow> two i = pad_zeros 2 (show_int i)"
  by (simp add: two_def addLeadingZeros_def)

lemma take_two: "0 \<le> i \<Longrightarrow> i < 100 \<Longrightarrow> take_digits 2 (two i @ r) = Some (i, r)"
  by (simp add: two_padded take_digits_padded)

lemma two_digits: "0 \<le> i \<Longrightarrow> c \<in> set (two i) \<Longrightarrow> is_digit c"
  by (auto simp: two_padded show_int_nat intro: pad_zeros_digits)

lemma two_shape:
  assumes "0 \<le> i" "i < 100"
  obtains a b where "two i = [a, b]" "is_digit a" "is_digit b" "digits_nat [a, b] = nat i"
proof -
  have "length (two i) = 2" using assms by (simp add: two_padded padded_length)
  then obtain a b where ab: "two i = [a, b]" by (auto simp: numeral_2_eq_2 length_Suc_conv)
  moreover have "is_digit a" "is_digit b" using ab two_digits [OF assms(1), of a] two_digits [OF assms(1), of b] by auto
  moreover have "digits_nat [a, b] = nat i"
    using take_two [OF assms, of "[]"] ab by (auto simp: take_digits_def split: if_splits)
  ultimately show ?thesis using that by blast
qed

text \<open>Digits are none of the characters that separate the parts of a text.\<close>

lemma digit_no_separator:
  "is_digit c \<Longrightarrow> c \<noteq> CHR ''T'' \<and> c \<noteq> CHR '' '' \<and> c \<noteq> CHR ''Z'' \<and> c \<noteq> CHR ''z'' \<and> c \<noteq> CHR ''W'' \<and> c \<noteq> CHR '':''
    \<and> c \<noteq> CHR ''+'' \<and> c \<noteq> CHR ''-'' \<and> c \<noteq> CHR ''.'' \<and> c \<noteq> CHR '',''"
proof -
  have "\<not> is_digit (CHR ''T'')" "\<not> is_digit (CHR '' '')" "\<not> is_digit (CHR ''Z'')" "\<not> is_digit (CHR ''z'')" "\<not> is_digit (CHR ''W'')"
    "\<not> is_digit (CHR '':'')" "\<not> is_digit (CHR ''+'')" "\<not> is_digit (CHR ''-'')" "\<not> is_digit (CHR ''.'')" "\<not> is_digit (CHR '','')"
    by code_simp+
  then show "is_digit c \<Longrightarrow> ?thesis" by metis
qed

section \<open>Splitting a text\<close>

lemma split_when_none: "\<forall>c \<in> set s. \<not> P c \<Longrightarrow> split_when P s = [s]"
  by (induction s) auto

lemma split_when_at: "\<forall>c \<in> set s. \<not> P c \<Longrightarrow> P c \<Longrightarrow> split_when P (s @ c # r) = s # split_when P r"
  by (induction s) auto

lemma replace_first_end: "p \<noteq> [] \<Longrightarrow> hd p \<notin> set s \<Longrightarrow> replace_first p [] (s @ p) = s"
proof (induction s)
  case Nil
  then show ?case by (cases p) (auto simp: starts_with_prefix)
next
  case (Cons c s)
  then have "\<not> starts_with (c # s @ p) p" by (cases p) auto
  with Cons show ?case by simp
qed

lemma split_date_time:
  assumes "\<forall>c \<in> set d. is_digit c \<or> c = CHR ''-''" "\<forall>c \<in> set t. is_digit c \<or> c = CHR '':''" "t \<noteq> []"
    "\<forall>c \<in> set z. is_digit c \<or> c \<in> set '':+-Z''" "z \<noteq> []" "hd z \<in> set ''+-Z''"
  shows "splitDateString (d @ ''T'' @ t @ z) = \<lparr>ds_date = Some d, ds_time = Some t, ds_timezone = Some z\<rparr>"
proof -
  let ?P = "\<lambda>c. c \<in> set ''T ''"
  have "split_when ?P (d @ CHR ''T'' # t @ z) = d # split_when ?P (t @ z)"
    using assms(1) by (intro split_when_at) (auto dest: digit_no_separator)
  also have "split_when ?P (t @ z) = [t @ z]"
    using assms(2,4) by (intro split_when_none) (auto dest: digit_no_separator)
  finally have parts: "split_when ?P (d @ ''T'' @ t @ z) = [d, t @ z]" by simp
  have d: "CHR '':'' \<notin> set d" "\<not> list_ex (\<lambda>c. c \<in> set ''Zz '') d"
    using assms(1) by (auto simp: list_ex_iff dest: digit_no_separator)
  have "c \<notin> set ''Z+-''" if "c \<in> set t" for c
  proof -
    from assms(2) that have "is_digit c \<or> c = CHR '':''" by blast
    then show ?thesis using digit_no_separator [of c] by auto
  qed
  then have t: "hd z \<notin> set t" "\<forall>c \<in> set t. c \<notin> set ''Z+-''" using assms(6) by auto
  have "dropWhile (\<lambda>c. c \<notin> set ''Z+-'') (t @ z) = z"
  proof -
    have "dropWhile (\<lambda>c. c \<notin> set ''Z+-'') z = z" using assms(5,6) by (cases z) auto
    moreover have "dropWhile (\<lambda>c. c \<notin> set ''Z+-'') (t @ z) = dropWhile (\<lambda>c. c \<notin> set ''Z+-'') z"
      using t(2) by (intro dropWhile_append2) (rule bspec)
    ultimately show ?thesis by simp
  qed
  then have token: "timezone_exec (t @ z) = Some z" using assms(5) by (simp only: timezone_exec_def Let_def if_False)
  obtain c r where "t @ z = c # r" using assms(3) by (cases t) auto
  with token replace_first_end [OF assms(5) t(1)] show ?thesis
    unfolding splitDateString_def Let_def parts using d by simp
qed

section \<open>Dates\<close>

lemma day_in_range:
  assumes "0 \<le> y" "y \<le> 9999" "0 \<le> m" "m \<le> 11" "1 \<le> d" "d \<le> days_in_month y m"
  shows "in_range (MakeDate (MakeDay y m d) 0)"
proof -
  have "0 \<le> month_start (leap y) m" "month_start (leap y) m \<le> 366"
    using month_start_bounds [OF assms(3,4), of "leap y"] month_start_step [OF assms(3,4), of "leap y"] by (auto split: if_splits)
  moreover have "d \<le> 31" using assms days_in_month_bounds [of m y] by simp
  moreover have "DayFromYear 0 \<le> DayFromYear y" "DayFromYear y \<le> DayFromYear 9999"
    using assms(1,2) by (simp_all add: DayFromYear_le)
  ultimately show ?thesis
    using assms(3-5) by (simp add: in_range_def MakeDate_def MakeDay_def Let_def max_time_def msPerDay_def DayFromYear_def abs_le_iff)
qed

lemma js_rem_dvd: "0 < b \<Longrightarrow> js_rem a b = 0 \<longleftrightarrow> b dvd a"
proof -
  assume b: "0 < b"
  have "js_rem a b = sgn a * (\<bar>a\<bar> mod b)"
  proof -
    have "a = sgn a * \<bar>a\<bar>" by (simp add: sgn_mult_abs)
    then show ?thesis
      unfolding js_rem_def trunc_div_def minus_mult_div_eq_mod [symmetric] by (simp add: algebra_simps)
  qed
  then show ?thesis by (auto simp: sgn_0_0 mod_eq_0_iff_dvd)
qed

lemma leap_rem: "isLeapYearIndex2 y = leap y"
proof -
  have "400 dvd y \<Longrightarrow> 4 dvd y" by (rule dvd_trans [of 4 400]) simp_all
  then show ?thesis by (auto simp: isLeapYearIndex2_def js_rem_dvd leap_def mod_eq_0_iff_dvd)
qed

lemma days_rem: "0 \<le> m \<Longrightarrow> m \<le> 11 \<Longrightarrow> daysInMonths y m = days_in_month y m"
  by (cases m rule: month_cases) (simp_all add: daysInMonths_def days_in_month_def month_start_def leap_rem)

lemma read_year:
  assumes "0 \<le> y" "y \<le> 9999"
  shows "parseYear (pad_zeros 4 (show_int y) @ r) n = (Some y, r)"
proof -
  obtain c s where c: "pad_zeros 4 (show_int y) = c # s" "is_digit c" using assms(1) padded_start [of y 4] by auto
  have "take_digits 4 (pad_zeros 4 (show_int y) @ r) = Some (y, r)" using assms by (intro take_digits_padded) auto
  with c(1) digit_no_separator [OF c(2)] show ?thesis by (simp add: parseYear_def signed_digits_def)
qed

lemma read_month_day:
  assumes "0 \<le> m" "m < 100" "0 \<le> d" "d < 100"
  shows "read_date_shape ((if extended then ''-'' else []) @ two m @ (if extended then ''-'' else []) @ two d) = Some (MonthDay m (Some d))"
proof -
  obtain a b where m: "two m = [a, b]" "is_digit a" "is_digit b" using two_shape [OF assms(1,2)] .
  obtain a' b' where d: "two d = [a', b']" "is_digit a'" "is_digit b'" using two_shape [OF assms(3,4)] .
  note no = m(2,3) d(2,3) [THEN digit_no_separator]
  have w: "whole_digits 2 (two d) = Some d" using take_two [OF assms(3,4), of "[]"] by (simp add: whole_digits_def)
  show ?thesis
  proof (cases extended)
    case True
    have "\<not> is_digit (CHR ''-'')" by code_simp
    then have "whole_digits 3 (two m @ ''-'' @ two d) = None" by (simp add: m(1) whole_digits_def take_digits_def)
    with True w take_two [OF assms(1,2), of "''-'' @ two d"] digit_no_separator [OF m(2)] show ?thesis
      by (simp add: read_date_shape_def Let_def optional_dash_def take_char_def m(1))
  next
    case False
    have "whole_digits 3 (two m @ two d) = None" by (simp add: whole_digits_def take_digits_def m(1) d(1))
    with False w take_two [OF assms(1,2), of "two d"] digit_no_separator [OF m(2)] digit_no_separator [OF d(2)] show ?thesis
      by (simp add: read_date_shape_def Let_def optional_dash_def take_char_def m(1) d(1))
  qed
qed

lemma read_date:
  assumes "0 \<le> y" "y \<le> 9999" "0 \<le> m" "m \<le> 11" "1 \<le> d" "d \<le> days_in_month y m"
  shows "parseDate ((if extended then ''-'' else []) @ two (m + 1) @ (if extended then ''-'' else []) @ two d) (Some y)
    = Some (MakeDate (MakeDay y m d) 0)"
proof -
  have "d < 100" using assms days_in_month_bounds [of m y] by simp
  then have shape: "read_date_shape ((if extended then ''-'' else []) @ two (m + 1) @ (if extended then ''-'' else []) @ two d) = Some (MonthDay (m + 1) (Some d))"
    using assms by (intro read_month_day) auto
  have "in_range (MakeDate (MakeDay y m d) 0)" using assms by (rule day_in_range)
  then have "js_setFullYear3 utc_zone (Some 0) y m d = Some (MakeDate (MakeDay y m d) 0)"
    by (simp add: js_setFullYear3_def js_setTime_def utc_zone_def fixed_zone_def LocalTime_def UTC_def TimeWithinDay_def)
  with assms show ?thesis
    unfolding parseDate_def shape by (simp add: validateDate_def validateDayOfYearDate_def days_rem max_def)
qed

section \<open>Times\<close>

lemma unit_two:
  assumes "0 \<le> i" "i < 100" "r = [] \<or> hd r \<notin> set ''.,''"
  shows "unit_parses (two i @ r) = [((i, 0), r)]"
proof -
  obtain a b where "two i = [a, b]" "is_digit a" "is_digit b" "digits_nat [a, b] = nat i" using two_shape [OF assms(1,2)] .
  with assms(1,3) show ?thesis by (auto simp: unit_parses_def Let_def decimal_of_def numeral_2_eq_2)
qed

lemma more_two:
  assumes "0 \<le> i" "i < 100" "r = [] \<or> hd r \<notin> set ''.,''"
  shows "more_parses ((if extended then '':'' else []) @ two i @ r) = [((i, 0), r), ((0, 0), (if extended then '':'' else []) @ two i @ r)]"
proof -
  obtain a b where "two i = [a, b]" "is_digit a" "is_digit b" "digits_nat [a, b] = nat i" using two_shape [OF assms(1,2)] .
  then have "optional_colon ((if extended then '':'' else []) @ two i @ r) = two i @ r"
    by (auto simp: optional_colon_def take_char_def dest: digit_no_separator)
  then show ?thesis by (simp add: more_parses_def unit_two [OF assms])
qed

lemma read_time:
  assumes "0 \<le> h" "h \<le> 23" "0 \<le> m" "m \<le> 59" "0 \<le> s" "s \<le> 59"
  shows "parseTime (join (if extended then '':'' else []) [two h, two m, two s]) = Some (MakeTime h m s 0, 0)"
proof -
  let ?sep = "if extended then '':'' else []"
  let ?rs = "?sep @ two s" and ?rm = "?sep @ two m @ ?sep @ two s"
  have start: "?sep @ two i @ r \<noteq> [] \<and> hd (?sep @ two i @ r) \<notin> set ''.,''" if i: "0 \<le> i" "i < 100" for i r
  proof -
    obtain a b where ab: "two i = [a, b]" "is_digit a" "is_digit b" "digits_nat [a, b] = nat i" using two_shape [OF i] .
    then show ?thesis using digit_no_separator [OF ab(2)] by simp
  qed
  have rs: "?rs \<noteq> []" "hd ?rs \<notin> set ''.,''" using start [of s "[]"] assms by auto
  have rm: "?rm \<noteq> []" "hd ?rm \<notin> set ''.,''" using start [of m ?rs] assms by auto
  have "more_parses ?rs = [((s, 0), []), ((0, 0), ?rs)]" using more_two [of s "[]" extended] assms by simp
  moreover have "more_parses ?rm = [((m, 0), ?rs), ((0, 0), ?rm)]" using more_two [of m ?rs extended] rs(2) assms by simp
  moreover have "unit_parses (two h @ ?rm) = [((h, 0), ?rm)]" using unit_two [of h ?rm] rm(2) assms by simp
  ultimately have "time_parses (two h @ ?rm) = [((h, 0), (m, 0), (s, 0))]"
    using rs(1) rm(1) by (simp add: time_parses_def)
  moreover have "join ?sep [two h, two m, two s] = two h @ ?rm" by simp
  ultimately show ?thesis
    using assms by (simp add: parseTime_def validateTime_def decimal_eq_def decimal_lt_def MakeTime_def millisecondsInHour_def millisecondsInMinute_def)
qed

section \<open>Offsets\<close>

lemma offset_parts: "\<bar>off\<bar> < 6000 \<Longrightarrow> 0 \<le> trunc_div \<bar>off\<bar> 60 \<and> trunc_div \<bar>off\<bar> 60 < 100 \<and> 0 \<le> js_rem \<bar>off\<bar> 60 \<and> js_rem \<bar>off\<bar> 60 \<le> 59
    \<and> 60 * trunc_div \<bar>off\<bar> 60 + js_rem \<bar>off\<bar> 60 = \<bar>off\<bar>"
proof -
  assume "\<bar>off\<bar> < 6000"
  moreover have t: "trunc_div \<bar>off\<bar> 60 = \<bar>off\<bar> div 60" by (auto simp: trunc_div_def sgn_if)
  then have "js_rem \<bar>off\<bar> 60 = \<bar>off\<bar> mod 60" by (simp add: js_rem_def minus_mult_div_eq_mod)
  moreover have "0 \<le> \<bar>off\<bar> div 60" by (rule div_int_pos_iff [THEN iffD2]) simp
  moreover have "\<bar>off\<bar> mod 60 \<le> 59" using pos_mod_bound [of 60 "\<bar>off\<bar>"] by linarith
  moreover have "\<bar>off\<bar> div 60 < 100" using \<open>\<bar>off\<bar> < 6000\<close> by (simp add: div_less_iff_less_mult)
  ultimately show ?thesis using t by (simp add: mult.commute)
qed

lemma read_zone:
  assumes "\<bar>off\<bar> < 6000"
  shows "parseTimezone (iso_offset off) = Some (off * 60000)"
proof (cases "off = 0")
  case True
  then show ?thesis by (simp add: iso_offset_def parseTimezone_def)
next
  case False
  define h and m where "h = trunc_div \<bar>off\<bar> 60" and "m = js_rem \<bar>off\<bar> 60"
  note p = offset_parts [OF assms, folded h_def m_def]
  have shape: "iso_offset off = (if off < 0 then ''+'' else ''-'') @ two h @ '':'' @ two m"
    using False by (simp add: iso_offset_def h_def m_def del: abs_of_neg abs_of_nonneg abs_of_pos)
  have "take_digits 2 (two h @ '':'' @ two m) = Some (h, '':'' @ two m)" using p by (intro take_two) auto
  moreover have "whole_digits 2 (two m) = Some m" using take_two [of m "[]"] p by (simp add: whole_digits_def)
  ultimately show ?thesis
    using False p unfolding shape by (auto simp: parseTimezone_def optional_colon_def take_char_def millisecondsInHour_def millisecondsInMinute_def)
qed

lemma offset_chars: "\<bar>off\<bar> < 6000 \<Longrightarrow> iso_offset off \<noteq> [] \<and> hd (iso_offset off) \<in> set ''+-Z'' \<and> (\<forall>c \<in> set (iso_offset off). is_digit c \<or> c \<in> set '':+-Z'')"
  using offset_parts [of off] by (auto simp: iso_offset_def dest: two_digits [rotated])

section \<open>The round trip\<close>

lemma date_part_chars:
  assumes "0 \<le> yearOf E t"
  shows "\<forall>c \<in> set (iso_date_part E extended t). is_digit c \<or> c = CHR ''-''"
proof -
  note m = month_fields [of E t]
  have "is_digit c" if "c \<in> set (addLeadingZeros (Some (yearOf E t)) 4)" for c
    using that assms by (auto simp: addLeadingZeros_def show_int_nat intro: pad_zeros_digits)
  moreover have "is_digit c" if "c \<in> set (two (monthOf E t + 1)) \<union> set (two (dateOf E t))" for c
    using that m two_digits [of "monthOf E t + 1"] two_digits [of "dateOf E t"] by auto
  ultimately show ?thesis by (auto simp: iso_date_part_def Let_def)
qed

lemma time_part_chars: "\<forall>c \<in> set (iso_time_part E extended t). is_digit c \<or> c = CHR '':''" "iso_time_part E extended t \<noteq> []"
proof -
  note f = clock_fields [of "LocalTime (de_zone E) t", folded hoursOf_def minutesOf_def secondsOf_def]
  show "\<forall>c \<in> set (iso_time_part E extended t). is_digit c \<or> c = CHR '':''"
    using two_digits [OF f(1)] two_digits [OF f(3)] two_digits [OF f(5)] by (auto simp: iso_time_part_def)
  show "iso_time_part E extended t \<noteq> []"
    using f by (auto simp: iso_time_part_def two_padded pad_zeros_def show_int_nat)
qed

lemma read_date_part:
  assumes "0 \<le> yearOf E t" "yearOf E t \<le> 9999"
  shows "\<exists>r. parseYear (iso_date_part E extended t) n = (Some (yearOf E t), r)
    \<and> parseDate r (Some (yearOf E t)) = Some (MakeDate (dayNumber E t) 0)"
proof -
  let ?dash = "if extended then ''-'' else []"
  have "iso_date_part E extended t = pad_zeros 4 (show_int (yearOf E t)) @ ?dash @ two (monthOf E t + 1) @ ?dash @ two (dateOf E t)"
    using assms(1) by (simp add: iso_date_part_def Let_def addLeadingZeros_def)
  moreover have "dateOf E t \<le> days_in_month (yearOf E t) (monthOf E t)"
    using fields_bounds(4) by (simp add: dateOf_def yearOf_def monthOf_def)
  ultimately show ?thesis
    using read_year [OF assms] read_date [OF assms month_fields(1,2,3), of E t] by (simp add: dayNumber_fields)
qed

lemma year_in_range:
  assumes "0 \<le> yearOf E t" "yearOf E t \<le> 9999" "\<bar>x\<bar> < 1000000000000"
  shows "in_range (LocalTime (de_zone E) t + x)"
proof -
  define l where "l = LocalTime (de_zone E) t"
  note y = year_of_day [of "Day l", folded YearFromTime_def, folded yearOf_def [of E t, folded l_def]]
  have "DayFromYear 0 \<le> Day l" using y DayFromYear_le [OF assms(1)] by linarith
  moreover have "Day l < DayFromYear 10000" using y DayFromYear_le [of "yearOf E t + 1" 10000] assms(2) by linarith
  ultimately have "- 719528 \<le> Day l" "Day l < 2932897" by (simp_all add: DayFromYear_def)
  moreover have "l = Day l * 86400000 + TimeWithinDay l" using MakeDate_Day [of l] by (simp add: MakeDate_def msPerDay_def)
  moreover have "0 \<le> TimeWithinDay l" "TimeWithinDay l < 86400000" using time_within [of l] by (simp_all add: msPerDay_def)
  ultimately show ?thesis
    using assms(3) unfolding l_def [symmetric] in_range_def max_time_def abs_le_iff by linarith
qed

text \<open>What of an offset is not whole minutes.\<close>

lemma whole_minutes_bound: "\<bar>ms - whole_minutes ms * 60000\<bar> < 60000"
proof -
  have "\<bar>ms\<bar> = \<bar>ms\<bar> div 60000 * 60000 + \<bar>ms\<bar> mod 60000" "0 \<le> \<bar>ms\<bar> mod 60000" "\<bar>ms\<bar> mod 60000 < 60000" by simp_all
  then show ?thesis by (cases ms "0 :: int" rule: linorder_cases) (auto simp: whole_minutes_def)
qed

lemma whole_minutes_exact: "ms mod 60000 = 0 \<Longrightarrow> whole_minutes ms * 60000 = ms"
  by (auto simp: whole_minutes_def sgn_if mod_eq_0_iff_dvd abs_if)

lemma whole_minutes_less: "\<bar>ms\<bar> < n * 60000 \<Longrightarrow> \<bar>whole_minutes ms\<bar> < n"
  by (auto simp: whole_minutes_def abs_mult sgn_if div_less_iff_less_mult)

text \<open>C38. \<open>parseISO\<close> reads what \<open>formatISO\<close> prints, in the extended or the basic format, as the same instant, cut to
  the second, in every time zone whose offset at that time is of whole minutes, on both sides of a
  change of the clocks: the text carries the offset. Of an offset with seconds, as zones had before
  they were standardised, the text carries the whole minutes only, and the instant that is read back is
  later by the seconds left out, or earlier when the zone is west. This holds for the years 0 to 9999
  and offsets below a hundred hours.\<close>

theorem iso_roundtrip:
  assumes "0 \<le> yearOf E t" "yearOf E t \<le> 9999"
    and "\<bar>tz_utc (de_zone E) t\<bar> < 6000 * 60000" "tz_utc (de_zone E) t mod 1000 = 0"
  shows "\<exists>s. formatISO E (Some t) extended Complete = Some s
    \<and> parseISO E s digits = Some (t - t mod 1000 + (tz_utc (de_zone E) t - whole_minutes (tz_utc (de_zone E) t) * 60000))
    \<and> (tz_utc (de_zone E) t mod 60000 = 0 \<longrightarrow> parseISO E s digits = Some (t - t mod 1000))"
proof -
  define l and ofs where "l = LocalTime (de_zone E) t" and "ofs = tz_utc (de_zone E) t"
  let ?off = "offsetOf E t" and ?d = "iso_date_part E extended t" and ?t = "iso_time_part E extended t"
  have o: "?off = - whole_minutes ofs" "l = t + ofs" by (simp_all add: offsetOf_def l_def LocalTime_def ofs_def)
  have off: "\<bar>?off\<bar> < 6000" using whole_minutes_less [OF assms(3)] by (simp add: o(1) ofs_def)
  note z = offset_chars [OF off] and c = clock_fields [of l]
  have s: "formatISO E (Some t) extended Complete = Some (?d @ ''T'' @ ?t @ iso_offset ?off)" by (simp add: formatISO_def)
  have split: "splitDateString (?d @ ''T'' @ ?t @ iso_offset ?off) = \<lparr>ds_date = Some ?d, ds_time = Some ?t, ds_timezone = Some (iso_offset ?off)\<rparr>"
    using z by (intro split_date_time date_part_chars [OF assms(1)] time_part_chars) auto
  obtain r where r: "parseYear ?d (case digits of None \<Rightarrow> 2 | Some n \<Rightarrow> n) = (Some (yearOf E t), r)"
      "parseDate r (Some (yearOf E t)) = Some (MakeDate (Day l) 0)"
    using read_date_part [OF assms(1,2)] unfolding l_def dayNumber_def by blast
  have "?d \<noteq> []" using assms(1) by (auto simp: iso_date_part_def addLeadingZeros_def pad_zeros_def show_int_nat Let_def)
  have time: "parseTime ?t = Some (TimeWithinDay l - l mod 1000, 0)"
    using read_time [OF c(1-6), of extended] MakeTime_fields [of l]
    by (simp add: iso_time_part_def hoursOf_def minutesOf_def secondsOf_def l_def MakeTime_def msFromTime_def)
  have ms: "l mod 1000 = t mod 1000" using assms(4) by (simp add: o(2) ofs_def mod_add_eq [symmetric])
  let ?u = "t - t mod 1000 + (ofs - whole_minutes ofs * 60000)"
  have u: "MakeDate (Day l) 0 + ?off * 60000 + (TimeWithinDay l - l mod 1000) = ?u"
    using o ms MakeDate_Day [of l] by (simp add: MakeDate_def)
  have "\<bar>?off * 60000 - l mod 1000\<bar> < 1000000000000" using off pos_mod_bound [of 1000 l] pos_mod_sign [of 1000 l] by linarith
  then have "in_range (l + (?off * 60000 - l mod 1000))" unfolding l_def by (rule year_in_range [OF assms(1,2)])
  also have "l + (?off * 60000 - l mod 1000) = ?u" using o ms by simp
  finally have "TimeClip ?u = Some ?u" by simp
  moreover have "trunc_div x 1 = x" for x by (simp add: trunc_div_def sgn_mult_abs)
  then have "parseISO E (?d @ ''T'' @ ?t @ iso_offset ?off) digits
      = TimeClip (MakeDate (Day l) 0 + ?off * 60000 + (TimeWithinDay l - l mod 1000))"
    unfolding parseISO_def Let_def split using r \<open>?d \<noteq> []\<close> time time_part_chars(2) read_zone [OF off] by simp
  ultimately have "parseISO E (?d @ ''T'' @ ?t @ iso_offset ?off) digits = Some ?u" unfolding u by simp
  moreover from this have "ofs mod 60000 = 0 \<longrightarrow> parseISO E (?d @ ''T'' @ ?t @ iso_offset ?off) digits = Some (t - t mod 1000)"
    by (simp add: whole_minutes_exact)
  ultimately show ?thesis using s unfolding ofs_def by blast
qed

text \<open>A zone 57 minutes and 44 seconds ahead, as Prague was; and Berlin in the hour after its change.\<close>

definition old_prague :: date_env where
  "old_prague = berlin_winter\<lparr>de_zone := \<lparr>tz_utc = \<lambda>t. 3464000, tz_local = \<lambda>l. 3464000\<rparr>\<rparr>"

theorem iso_roundtrip_witness:
  "(\<exists>s. formatISO berlin_spring (Some 1711846800123) False Complete = Some s \<and> parseISO berlin_spring s None = Some 1711846800000)
   \<and> (\<exists>s. formatISO old_prague (Some (- 2524521600000)) True Complete = Some s \<and> parseISO old_prague s None = Some (- 2524521556000))"
proof
  have "0 \<le> yearOf berlin_spring 1711846800123" "yearOf berlin_spring 1711846800123 \<le> 9999"
    "\<bar>tz_utc (de_zone berlin_spring) 1711846800123\<bar> < 6000 * 60000" "tz_utc (de_zone berlin_spring) 1711846800123 mod 1000 = 0"
    "tz_utc (de_zone berlin_spring) 1711846800123 mod 60000 = 0"
    by code_simp+
  with iso_roundtrip [of berlin_spring 1711846800123 False None]
  show "\<exists>s. formatISO berlin_spring (Some 1711846800123) False Complete = Some s \<and> parseISO berlin_spring s None = Some 1711846800000"
    by auto
  have "0 \<le> yearOf old_prague (- 2524521600000)" "yearOf old_prague (- 2524521600000) \<le> 9999"
    "\<bar>tz_utc (de_zone old_prague) (- 2524521600000)\<bar> < 6000 * 60000" "tz_utc (de_zone old_prague) (- 2524521600000) mod 1000 = 0"
    "tz_utc (de_zone old_prague) (- 2524521600000) - whole_minutes (tz_utc (de_zone old_prague) (- 2524521600000)) * 60000 = 44000"
    by code_simp+
  with iso_roundtrip [of old_prague "- 2524521600000" True None]
  show "\<exists>s. formatISO old_prague (Some (- 2524521600000)) True Complete = Some s \<and> parseISO old_prague s None = Some (- 2524521556000)"
    by auto
qed

end
