(* ===== verification/AppQueries.thy ===== *)
theory AppQueries
  imports ApiClient QueryProgress
begin

text \<open>
  The queries of the application: the client's defaults (\<open>ui/src/main.tsx\<close>), the hooks
  (\<open>hooks/useRepo.ts\<close>, \<open>hooks/useFileTree.ts\<close>) and the queries the pages write out. A hook is a key,
  the options of the call and the endpoint the query function calls. The interval of the activity
  query is left out.
\<close>

section \<open>Defaults\<close>

definition no_options :: call_options where
  "no_options = \<lparr>u_fn = None, u_enabled = None, u_staleTime = None, u_retry = None, u_retryDelay = None,
     u_networkMode = None, u_gcTime = None, u_onMount = None, u_onFocus = None, u_onReconnect = None,
     u_retryOnMount = None, u_initialData = VUndef, u_initialDataUpdatedAt = None, u_sharing = None\<rparr>"

definition app_defaults :: call_options where
  "app_defaults = no_options\<lparr>u_staleTime := Some (StaleMs 30000), u_retry := Some (RetryNum 1),
     u_onFocus := Some RefetchNo\<rparr>"

section \<open>Hooks\<close>

record hook =
  h_key :: jsv
  h_call :: call_options
  h_endpoint :: endpoint

definition query_key :: "jsv list \<Rightarrow> jsv" where
  "query_key ks = VArr 0 ks"

definition strs :: "string list \<Rightarrow> jsv" where
  "strs ks = query_key (map VStr ks)"

definition plain_call :: call_options where
  "plain_call = no_options\<lparr>u_fn := Some Fn\<rparr>"

definition useRepo :: "string \<Rightarrow> string \<Rightarrow> hook" where
  "useRepo owner repo = \<lparr>h_key = strs [''repo'', owner, repo],
     h_call = plain_call\<lparr>u_retry := Some (RetryNum 1)\<rparr>, h_endpoint = getRepo owner repo\<rparr>"

definition useMyRepos :: hook where
  "useMyRepos = \<lparr>h_key = strs [''my-repos''], h_call = plain_call, h_endpoint = getMyRepos 30 0\<rparr>"

definition useUserRepos :: "string \<Rightarrow> hook" where
  "useUserRepos username = \<lparr>h_key = strs [''user-repos'', username],
     h_call = plain_call\<lparr>u_enabled := Some (username \<noteq> [])\<rparr>, h_endpoint = getReposByUser username 30 0\<rparr>"

definition useCommits :: "string \<Rightarrow> string \<Rightarrow> string \<Rightarrow> hook" where
  "useCommits owner repo ref = \<lparr>h_key = strs [''commits'', owner, repo, ref],
     h_call = plain_call\<lparr>u_enabled := Some (ref \<noteq> [])\<rparr>, h_endpoint = getCommits owner repo ref 30 0\<rparr>"

definition useBranches :: "string \<Rightarrow> string \<Rightarrow> hook" where
  "useBranches owner repo = \<lparr>h_key = strs [''branches'', owner, repo], h_call = plain_call,
     h_endpoint = getBranches owner repo\<rparr>"

definition useFileTree :: "string \<Rightarrow> string \<Rightarrow> string \<Rightarrow> string option \<Rightarrow> hook" where
  "useFileTree owner repo ref path =
     \<lparr>h_key = strs [''tree'', owner, repo, ref, case path of None \<Rightarrow> [] | Some p \<Rightarrow> p],
      h_call = plain_call\<lparr>u_enabled := Some (ref \<noteq> []), u_staleTime := Some (StaleMs 30000)\<rparr>,
      h_endpoint = getTree owner repo ref path\<rparr>"

definition useBlob :: "string \<Rightarrow> string \<Rightarrow> string \<Rightarrow> string \<Rightarrow> hook" where
  "useBlob owner repo ref path = \<lparr>h_key = strs [''blob'', owner, repo, ref, path],
     h_call = plain_call\<lparr>u_enabled := Some (path \<noteq> []), u_staleTime := Some (StaleMs 60000)\<rparr>,
     h_endpoint = getBlob owner repo ref path\<rparr>"

section \<open>Queries of the pages\<close>

text \<open>\<open>BranchSelector\<close>: asked for when the menu is open.\<close>

definition branches_query :: "string \<Rightarrow> string \<Rightarrow> bool \<Rightarrow> hook" where
  "branches_query owner repo is_open = \<lparr>h_key = strs [''branches'', owner, repo],
     h_call = plain_call\<lparr>u_enabled := Some is_open\<rparr>, h_endpoint = getBranches owner repo\<rparr>"

text \<open>\<open>RepoPage\<close>: the last commit, and the README found in the tree.\<close>

definition last_commit_query :: "string \<Rightarrow> string \<Rightarrow> string \<Rightarrow> bool \<Rightarrow> hook" where
  "last_commit_query owner repo branch has_repo =
     \<lparr>h_key = query_key (map VStr [''commits'', owner, repo, branch] @ [VNum 1]),
      h_call = plain_call\<lparr>u_enabled := Some has_repo, u_retry := Some (RetryBool False)\<rparr>,
      h_endpoint = getCommits owner repo branch 1 0\<rparr>"

definition readme_query :: "string \<Rightarrow> string \<Rightarrow> string \<Rightarrow> string option \<Rightarrow> hook" where
  "readme_query owner repo branch readme_path =
     \<lparr>h_key = strs [''readme'', owner, repo, branch],
      h_call = plain_call\<lparr>u_enabled := Some (readme_path \<noteq> None), u_retry := Some (RetryBool False)\<rparr>,
      h_endpoint = getBlob owner repo branch (the readme_path)\<rparr>"

definition activity_query :: "bool \<Rightarrow> hook" where
  "activity_query signed_in = \<lparr>h_key = strs [''my-activity''],
     h_call = plain_call\<lparr>u_enabled := Some signed_in\<rparr>, h_endpoint = getMyActivity 10\<rparr>"

definition getUserProfile :: "string \<Rightarrow> endpoint" where
  "getUserProfile username =
     \<lparr>e_config = method_config ''get'' (''/users/'' @ username) empty_config, e_read = unwrap\<rparr>"

definition profile_query :: "string \<Rightarrow> hook" where
  "profile_query username = \<lparr>h_key = strs [''user-profile'', username],
     h_call = plain_call\<lparr>u_enabled := Some (username \<noteq> []), u_retry := Some (RetryNum 1)\<rparr>,
     h_endpoint = getUserProfile username\<rparr>"

definition listKeys :: endpoint where
  "listKeys = \<lparr>e_config = method_config ''get'' ''/user/keys'' empty_config, e_read = or_empty \<circ> unwrap\<rparr>"

definition keys_query :: hook where
  "keys_query = \<lparr>h_key = strs [''ssh-keys''], h_call = plain_call, h_endpoint = listKeys\<rparr>"

definition tokens_query :: hook where
  "tokens_query = \<lparr>h_key = strs [''pats''], h_call = plain_call, h_endpoint = listPATs\<rparr>"

definition settings_repo_query :: "string \<Rightarrow> string \<Rightarrow> hook" where
  "settings_repo_query owner repo = \<lparr>h_key = strs [''repo'', owner, repo], h_call = plain_call,
     h_endpoint = getRepo owner repo\<rparr>"

text \<open>All of them, by where they are asked for.\<close>

datatype app_query =
    QRepo string string | QMyRepos | QUserRepos string | QCommits string string string
  | QAllBranches string string | QTree string string string "string option" | QBlob string string string string
  | QBranches string string bool | QLastCommit string string string bool | QReadme string string string "string option"
  | QActivity bool | QProfile string | QKeys | QTokens | QSettingsRepo string string

fun app_hook :: "app_query \<Rightarrow> hook" where
  "app_hook (QRepo u r) = useRepo u r"
| "app_hook QMyRepos = useMyRepos"
| "app_hook (QUserRepos u) = useUserRepos u"
| "app_hook (QCommits u r b) = useCommits u r b"
| "app_hook (QAllBranches u r) = useBranches u r"
| "app_hook (QTree u r b p) = useFileTree u r b p"
| "app_hook (QBlob u r b p) = useBlob u r b p"
| "app_hook (QBranches u r ok) = branches_query u r ok"
| "app_hook (QLastCommit u r b ok) = last_commit_query u r b ok"
| "app_hook (QReadme u r b p) = readme_query u r b p"
| "app_hook (QActivity ok) = activity_query ok"
| "app_hook (QProfile u) = profile_query u"
| "app_hook QKeys = keys_query"
| "app_hook QTokens = tokens_query"
| "app_hook (QSettingsRepo u r) = settings_repo_query u r"

text \<open>\<open>useQuery\<close>: the options with the defaults; hashing these keys does not throw.\<close>

definition hook_options :: "hook \<Rightarrow> qoptions option" where
  "hook_options h = defaultQueryOptions app_defaults (h_key h) (h_call h)"

section \<open>What a page reads of a result\<close>

record 'a shown =
  sh_data :: "'a option"
  sh_loading :: bool
  sh_error :: bool

text \<open>The types of the code are not checked at run time: \<open>decode\<close> is how the page reads the value.\<close>

definition shown :: "(jsv \<Rightarrow> 'a) \<Rightarrow> qresult \<Rightarrow> 'a shown" where
  "shown decode r = \<lparr>sh_data = (if re_data r = VUndef then None else Some (decode (re_data r))),
     sh_loading = isLoading r, sh_error = (re_error r \<noteq> None)\<rparr>"

lemmas hook_defs = useRepo_def useMyRepos_def useUserRepos_def useCommits_def useBranches_def useFileTree_def useBlob_def
  branches_query_def last_commit_query_def readme_query_def activity_query_def profile_query_def keys_query_def
  tokens_query_def settings_repo_query_def

section \<open>Keys and endpoints\<close>

lemma veq_str [simp]: "veq (VStr s) v \<longleftrightarrow> VStr s = v" "veq (VNum i) v \<longleftrightarrow> VNum i = v"
  by (simp_all add: veq_prim ref_of_def)

lemma veq_strs [simp]: "veq (strs ks) (strs ls) \<longleftrightarrow> ks = ls"
  by (simp add: strs_def query_key_def list_all2_map1 list_all2_map2 list.rel_eq)

lemma veq_strs_key [simp]:
  "veq (strs ks) (query_key (map VStr ls @ [VNum n])) \<longleftrightarrow> False"
  "veq (query_key (map VStr ls @ [VNum n])) (strs ks) \<longleftrightarrow> False"
  by (auto simp: strs_def query_key_def list_all2_append2 list_all2_append1 map_eq_append_conv list_all2_Cons1 list_all2_Cons2)

lemma veq_key [simp]:
  "veq (query_key (map VStr ks @ [VNum n])) (query_key (map VStr ls @ [VNum m])) \<longleftrightarrow> ks = ls \<and> n = m"
proof (cases "length ks = length ls")
  case True
  then show ?thesis by (simp add: query_key_def list_all2_append list_all2_map1 list_all2_map2 list.rel_eq)
next
  case False
  then show ?thesis by (auto simp: query_key_def dest: list_all2_lengthD)
qed

text \<open>What a key is made of: its strings, and whether the number 1 follows.\<close>

fun key_parts :: "app_query \<Rightarrow> string list \<times> bool" where
  "key_parts (QRepo u r) = ([''repo'', u, r], False)"
| "key_parts QMyRepos = ([''my-repos''], False)"
| "key_parts (QUserRepos u) = ([''user-repos'', u], False)"
| "key_parts (QCommits u r b) = ([''commits'', u, r, b], False)"
| "key_parts (QAllBranches u r) = ([''branches'', u, r], False)"
| "key_parts (QTree u r b p) = ([''tree'', u, r, b, case p of None \<Rightarrow> [] | Some x \<Rightarrow> x], False)"
| "key_parts (QBlob u r b p) = ([''blob'', u, r, b, p], False)"
| "key_parts (QBranches u r ok) = ([''branches'', u, r], False)"
| "key_parts (QLastCommit u r b ok) = ([''commits'', u, r, b], True)"
| "key_parts (QReadme u r b p) = ([''readme'', u, r, b], False)"
| "key_parts (QActivity ok) = ([''my-activity''], False)"
| "key_parts (QProfile u) = ([''user-profile'', u], False)"
| "key_parts QKeys = ([''ssh-keys''], False)"
| "key_parts QTokens = ([''pats''], False)"
| "key_parts (QSettingsRepo u r) = ([''repo'', u, r], False)"

definition parts_key :: "string list \<times> bool \<Rightarrow> jsv" where
  "parts_key p = (if snd p then query_key (map VStr (fst p) @ [VNum 1]) else strs (fst p))"

lemma key_of_parts: "h_key (app_hook q) = parts_key (key_parts q)"
  by (cases q) (simp_all add: parts_key_def hook_defs)

lemma parts_key_data: "key_data (parts_key p)"
  by (simp add: parts_key_def strs_def query_key_def list_all_iff)

lemma veq_parts: "veq (parts_key p) (parts_key q) \<longleftrightarrow> p = q"
  by (cases p; cases q) (simp add: parts_key_def del: map_append)

lemma app_hash_parts:
  "hashKey (h_key (app_hook p)) = hashKey (h_key (app_hook q)) \<longleftrightarrow> key_parts p = key_parts q"
  using hashKey_veq [OF parts_key_data parts_key_data, of "key_parts p" "key_parts q"]
  by (simp add: key_of_parts veq_parts)

lemma app_hash_exists: "\<exists>h. hashKey (h_key (app_hook q)) = Some (Some h)"
  using hashKey_veq [OF parts_key_data parts_key_data, of "key_parts q" "key_parts q"]
  by (auto simp: key_of_parts)

text \<open>C28. No two requests of the application are mixed up in the cache: queries whose keys hash alike
  call the same endpoint with the same parameters, wherever in the pages they are asked for; the
  README query is the exception.\<close>

theorem query_keys_faithful:
  assumes "hashKey (h_key (app_hook p)) = hashKey (h_key (app_hook q))"
    and "(case p of QReadme u r b x \<Rightarrow> False | _ \<Rightarrow> True)"
  shows "h_endpoint (app_hook p) = h_endpoint (app_hook q)"
proof -
  have "key_parts p = key_parts q" using assms(1) by (simp only: app_hash_parts)
  with assms(2) show ?thesis
    by (cases p; cases q) (auto simp: hook_defs getTree_def split: option.splits)
qed

theorem query_keys_faithful_witness:
  "h_endpoint (app_hook (QBranches ''ada'' ''web'' True)) = h_endpoint (app_hook (QAllBranches ''ada'' ''web''))"
  by (rule query_keys_faithful) (simp_all only: app_hash_parts key_parts.simps, simp)

section \<open>The README of another folder\<close>

lemma hook_options_fields:
  assumes "hook_options (app_hook q) = Some opts"
  shows "Some (o_hash opts) = hashKey (h_key (app_hook q))" and "o_sharing opts = Share"
    and "o_retry opts = over (Some (RetryNum 1)) (u_retry (h_call (app_hook q)))"
    and "o_initialData opts = VUndef" and "o_networkMode opts = None"
proof -
  obtain h where h: "hashKey (h_key (app_hook q)) = Some (Some h)" using app_hash_exists by blast
  have call: "u_sharing (h_call (app_hook q)) = None" "u_initialData (h_call (app_hook q)) = VUndef"
      "u_networkMode (h_call (app_hook q)) = None"
    by (cases q; simp add: hook_defs plain_call_def no_options_def)+
  show "Some (o_hash opts) = hashKey (h_key (app_hook q))" "o_sharing opts = Share"
    "o_retry opts = over (Some (RetryNum 1)) (u_retry (h_call (app_hook q)))" "o_initialData opts = VUndef"
    "o_networkMode opts = None"
    using assms call
    by (auto simp: hook_options_def defaultQueryOptions_def h Let_def app_defaults_def no_options_def over_def option_default_def)
qed

lemma hook_options_total: "\<exists>opts. hook_options (app_hook q) = Some opts"
  using app_hash_exists [of q] by (auto simp: hook_options_def defaultQueryOptions_def Let_def)

lemma optimistic_data:
  assumes "al_get (c_cache c) (o_hash opts) = Some i"
  shows "re_data (optimistic_result b opts c) = s_data (q_state (c_queries c ! i))"
  using assms by (simp add: optimistic_result_def cache_build_def Let_def createResult_def fetchState_def)

lemma getBlob_url: "c_url (e_config (getBlob u r b p)) = Some (''/repos/'' @ u @ ''/'' @ r @ ''/blob/'' @ b @ ''/'' @ p)"
  by (simp add: getBlob_def method_config_def mergeConfig_def)

text \<open>The README of one folder is shown in another. The key of the README query names the branch but
  not the folder, so what the cache holds for the README at one path is what the page shows for any
  other folder of the branch, also for a folder without a README, whose query is disabled.\<close>

theorem readme_of_another_folder:
  assumes "hook_options (app_hook (QReadme u r b (Some p))) = Some here"
    and "hook_options (app_hook (QReadme u r b p')) = Some there"
    and "al_get (c_cache c) (o_hash here) = Some i" and "s_data (q_state (c_queries c ! i)) = v" and "v \<noteq> VUndef"
  shows "sh_data (shown decode (optimistic_result ob there c)) = Some (decode v) \<and>
    (p' \<noteq> Some p \<longrightarrow> p' \<noteq> None \<longrightarrow>
      h_endpoint (app_hook (QReadme u r b (Some p))) \<noteq> h_endpoint (app_hook (QReadme u r b p')))"
proof -
  have "hashKey (h_key (app_hook (QReadme u r b (Some p)))) = hashKey (h_key (app_hook (QReadme u r b p')))"
    by (simp only: app_hash_parts key_parts.simps)
  with hook_options_fields(1) [OF assms(1)] hook_options_fields(1) [OF assms(2)] have "o_hash here = o_hash there"
    by (metis option.inject)
  with assms(3-5) have "re_data (optimistic_result ob there c) = v" using optimistic_data [of c there i ob] by simp
  with assms(5) show ?thesis
    by (auto simp: shown_def hook_defs getBlob_url dest: arg_cong [where f = "\<lambda>e. c_url (e_config e)"])
qed

theorem readme_of_another_folder_witness:
  "\<exists>here there. hook_options (app_hook (QReadme ''ada'' ''web'' ''main'' (Some ''README.md''))) = Some here \<and>
     hook_options (app_hook (QReadme ''ada'' ''web'' ''main'' None)) = Some there \<and>
     (let c = (fresh_client 0 True True)\<lparr>c_cache := [(o_hash here, 0)],
                c_queries := [(new_query 0 here)\<lparr>q_state := successState 0 (VStr ''# Web'') None ss0\<rparr>]\<rparr>
      in sh_data (shown id (optimistic_result 0 there c)) = Some (VStr ''# Web''))"
proof -
  let ?p = "QReadme ''ada'' ''web'' ''main'' (Some ''README.md'')" and ?q = "QReadme ''ada'' ''web'' ''main'' None"
  obtain here there where o: "hook_options (app_hook ?p) = Some here" "hook_options (app_hook ?q) = Some there"
    using hook_options_total by blast
  let ?c = "(fresh_client 0 True True)\<lparr>c_cache := [(o_hash here, 0)],
                c_queries := [(new_query 0 here)\<lparr>q_state := successState 0 (VStr ''# Web'') None ss0\<rparr>]\<rparr>"
  have "sh_data (shown id (optimistic_result 0 there ?c)) = Some (id (VStr ''# Web''))"
    using readme_of_another_folder [OF o, of ?c 0 "VStr ''# Web''" id 0] by (simp add: successState_def)
  with o show ?thesis by (auto simp: Let_def)
qed

end
