(* ===== verification/TwValidators.thy ===== *)
theory TwValidators
  imports JsRegex
begin

text \<open>
  The value validators of the bundled class merger (\<open>ui/.vite/deps/tailwind-merge.js\<close>): its
  regular expressions, \<open>Number(value)\<close> with the rounding to binary64 that \<open>Number.isInteger\<close>
  observes, and the predicates the class groups refer to. The predicates are named by the
  constructors of \<open>tw_validator\<close>, so that a configuration is data; \<open>run_validator\<close> is what
  calling the validator does.
\<close>

section \<open>Number(value)\<close>

text \<open>
  The result of converting a string to a number: not a number, an infinity, or a rational
  magnitude \<open>num / den\<close> with \<open>0 < den\<close> before rounding. The sign plays no role for the
  modelled code.
\<close>

datatype js_num = NaN | Infinite | Magnitude int int

definition rx_unsigned_decimal :: rx where
  "rx_unsigned_decimal = RSeq
     (RAlt (RSeq (rx_plus rx_digit) (rx_opt (RSeq (rx_chr CHR ''.'') (RStar rx_digit))))
           (RSeq (rx_chr CHR ''.'') (rx_plus rx_digit)))
     (rx_opt (rx_seqs [RSet (\<lambda>c. c = CHR ''e'' \<or> c = CHR ''E''),
        rx_opt (RSet (\<lambda>c. c = CHR ''+'' \<or> c = CHR ''-'')), rx_plus rx_digit]))"

definition digit_val :: "char \<Rightarrow> int" where
  "digit_val c =
     (if is_digit c then of_char c - 48
      else if is_lower_az c then of_char c - 87
      else of_char c - 55)"

definition digits_val :: "int \<Rightarrow> string \<Rightarrow> int" where
  "digits_val b s = foldl (\<lambda>n c. b * n + digit_val c) 0 s"

definition decimal_magnitude :: "string \<Rightarrow> js_num" where
  "decimal_magnitude s =
     (let ip = takeWhile is_digit s; r1 = dropWhile is_digit s;
          frac = (r1 \<noteq> [] \<and> hd r1 = CHR ''.'');
          fp = (if frac then takeWhile is_digit (tl r1) else []);
          r2 = (if frac then dropWhile is_digit (tl r1) else r1);
          neg = (r2 \<noteq> [] \<and> starts_with (tl r2) ''-'');
          ex = (if r2 = [] then 0 else digits_val 10 (filter is_digit (tl r2)));
          m = digits_val 10 (ip @ fp); k = (if neg then - ex else ex) - int (length fp)
      in if 0 \<le> k then Magnitude (m * 10 ^ nat k) 1 else Magnitude m (10 ^ nat (- k)))"

definition is_hex_digit :: "char \<Rightarrow> bool" where
  "is_hex_digit c = (is_digit c \<or> (let n = (of_char c :: int) in (65 \<le> n \<and> n \<le> 70) \<or> (97 \<le> n \<and> n \<le> 102)))"

definition radix_literal :: "string \<Rightarrow> js_num option" where
  "radix_literal s = (case s of
       CHR ''0'' # x # ds \<Rightarrow>
         (if ds = [] then None
          else if (x = CHR ''x'' \<or> x = CHR ''X'') \<and> list_all is_hex_digit ds
            then Some (Magnitude (digits_val 16 ds) 1)
          else if (x = CHR ''o'' \<or> x = CHR ''O'') \<and> list_all (\<lambda>c. is_digit c \<and> digit_val c < 8) ds
            then Some (Magnitude (digits_val 8 ds) 1)
          else if (x = CHR ''b'' \<or> x = CHR ''B'') \<and> list_all (\<lambda>c. is_digit c \<and> digit_val c < 2) ds
            then Some (Magnitude (digits_val 2 ds) 1)
          else None)
     | _ \<Rightarrow> None)"

definition strip_sign :: "string \<Rightarrow> string" where
  "strip_sign s = (case s of c # r \<Rightarrow> if c = CHR ''+'' \<or> c = CHR ''-'' then r else s | [] \<Rightarrow> [])"

definition js_Number :: "string \<Rightarrow> js_num" where
  "js_Number str =
     (let s = trim str in
      if s = [] then Magnitude 0 1
      else case radix_literal s of
          Some n \<Rightarrow> n
        | None \<Rightarrow>
           (let u = strip_sign s in
            if u = ''Infinity'' then Infinite
            else if rx_match rx_unsigned_decimal u then decimal_magnitude u
            else NaN))"

text \<open>
  \<open>Number.isInteger\<close> reads the binary64 value nearest to the magnitude (ties to even): below 1
  it is 0 or 1 for magnitudes at the ends of the interval, at \<open>2 ^ 52\<close> and above every finite
  value is an integer, and in between the 53-bit significand decides.
\<close>

fun ilog2 :: "int \<Rightarrow> int" where
  "ilog2 n = (if n < 2 then 0 else ilog2 (n div 2) + 1)"

declare ilog2.simps [simp del]

definition round_half_even :: "int \<Rightarrow> int \<Rightarrow> int" where
  "round_half_even a b =
     (let q = a div b; r = a mod b in
      if 2 * r < b then q else if b < 2 * r then q + 1 else if even q then q else q + 1)"

definition rounds_to_integer :: "int \<Rightarrow> int \<Rightarrow> bool" where
  "rounds_to_integer num den =
     (if num < den
      then num * 2 ^ 1075 \<le> den \<or> (2 ^ 54 - 1) * den \<le> num * 2 ^ 54
      else (let e = ilog2 (num div den) in
            if 52 \<le> e then num < (2 ^ 1024 - 2 ^ 970) * den
            else 2 ^ nat (52 - e) dvd round_half_even (num * 2 ^ nat (52 - e)) den))"

definition number_is_integer :: "js_num \<Rightarrow> bool" where
  "number_is_integer n = (case n of NaN \<Rightarrow> False | Infinite \<Rightarrow> False | Magnitude a b \<Rightarrow> rounds_to_integer a b)"

section \<open>Regular expressions\<close>

definition is_label_char :: "char \<Rightarrow> bool" where
  "is_label_char c = (is_lower_az c \<or> is_upper_az c \<or> c = CHR ''-'')"

definition arbitraryValueRegex :: rx where
  "arbitraryValueRegex = rx_seqs [rx_chr CHR ''['',
     rx_opt (RSeq (rx_plus (RSet is_label_char)) (rx_chr CHR '':'')), rx_plus rx_dot, rx_chr CHR '']'']"

text \<open>
  \<open>exec\<close> of this expression with its two groups. The label contains no colon, so the greedy
  first group is the longest run of label characters when a colon follows it; when nothing is
  left for the second group the optional prefix is given up and the second group is everything
  between the brackets.
\<close>

definition arbitrary_value_exec :: "string \<Rightarrow> (string option \<times> string) option" where
  "arbitrary_value_exec v =
     (if 3 \<le> length v \<and> hd v = CHR ''['' \<and> last v = CHR '']''
         \<and> list_all (\<lambda>c. \<not> is_line_terminator c) (butlast (tl v))
      then let inner = butlast (tl v); l = takeWhile is_label_char inner; r = dropWhile is_label_char inner
           in if l \<noteq> [] \<and> starts_with r '':'' \<and> tl r \<noteq> [] then Some (Some l, tl r)
              else Some (None, inner)
      else None)"

definition fractionRegex :: rx where
  "fractionRegex = rx_seqs [rx_plus rx_digit, rx_chr CHR ''/'', rx_plus rx_digit]"

definition stringLengths :: "string list" where
  "stringLengths = [''px'', ''full'', ''screen'']"

definition tshirtUnitRegex :: rx where
  "tshirtUnitRegex = RSeq
     (rx_opt (RSeq (rx_plus rx_digit) (rx_opt (RSeq (rx_chr CHR ''.'') (rx_plus rx_digit)))))
     (rx_alts (map rx_str [''xs'', ''sm'', ''md'', ''lg'', ''xl'']))"

definition rx_length_units :: rx where
  "rx_length_units = rx_alts
     [rx_str ''%'', rx_str ''px'', RSeq (rx_opt (rx_str ''r'')) (rx_str ''em''),
      rx_seqs [rx_opt (rx_alts (map rx_str [''s'', ''d'', ''l''])), rx_str ''v'',
        rx_alts (map rx_str [''h'', ''w'', ''i'', ''b'', ''min'', ''max''])],
      rx_str ''pt'', rx_str ''pc'', rx_str ''in'', rx_str ''cm'', rx_str ''mm'', rx_str ''cap'',
      rx_str ''ch'', rx_str ''ex'', RSeq (rx_opt (rx_str ''r'')) (rx_str ''lh''),
      RSeq (rx_str ''cq'') (rx_alts (map rx_str [''w'', ''h'', ''i'', ''b'', ''min'', ''max'']))]"

definition rx_length_function :: rx where
  "rx_length_function = rx_seqs [rx_alts (map rx_str [''calc'', ''min'', ''max'', ''clamp'']),
     rx_str ''('', rx_plus rx_dot, rx_str '')'']"

text \<open>
  The test of \<open>lengthUnitRegex\<close>, one disjunct per alternative. A word boundary before a letter
  is the start of the string or a preceding character that is no word character.
\<close>

definition lengthUnitRegex_test :: "string \<Rightarrow> bool" where
  "lengthUnitRegex_test v \<longleftrightarrow>
     rx_find (RSeq (rx_plus rx_digit) rx_length_units) v
     \<or> rx_find_start rx_length_function v
     \<or> rx_find (RSeq (RSet (\<lambda>c. \<not> is_word_char c)) rx_length_function) v
     \<or> v = ''0''"

definition colorFunctionRegex :: rx where
  "colorFunctionRegex = rx_seqs
     [rx_alts [RSeq (rx_str ''rgb'') (rx_opt (rx_str ''a'')), RSeq (rx_str ''hsl'') (rx_opt (rx_str ''a'')),
        rx_str ''hwb'', RSeq (rx_opt (rx_str ''ok'')) (rx_alts [rx_str ''lab'', rx_str ''lch'']),
        rx_str ''color-mix''],
      rx_str ''('', rx_plus rx_dot, rx_str '')'']"

definition rx_shadow_length :: rx where
  "rx_shadow_length = RAlt
     (rx_seqs [rx_opt (rx_plus rx_digit), rx_opt (rx_str ''.''), rx_plus rx_digit, rx_plus (RSet is_lower_az)])
     (rx_str ''0'')"

definition shadowRegex :: rx where
  "shadowRegex = rx_seqs [rx_opt (rx_str ''inset_''), rx_opt (rx_str ''-''), rx_shadow_length,
     rx_str ''_'', rx_opt (rx_str ''-''), rx_shadow_length]"

definition imageRegex :: rx where
  "imageRegex = rx_seqs
     [rx_alts [rx_str ''url'', rx_str ''image'', rx_str ''image-set'', rx_str ''cross-fade'', rx_str ''element'',
        rx_seqs [rx_opt (rx_str ''repeating-''),
          rx_alts [rx_str ''linear'', rx_str ''radial'', rx_str ''conic''], rx_str ''-gradient'']],
      rx_str ''('', rx_plus rx_dot, rx_str '')'']"

section \<open>The validators\<close>

definition isNumber :: "string \<Rightarrow> bool" where
  "isNumber v \<longleftrightarrow> v \<noteq> [] \<and> js_Number v \<noteq> NaN"

definition isInteger :: "string \<Rightarrow> bool" where
  "isInteger v \<longleftrightarrow> v \<noteq> [] \<and> number_is_integer (js_Number v)"

definition isLength :: "string \<Rightarrow> bool" where
  "isLength v \<longleftrightarrow> isNumber v \<or> v \<in> set stringLengths \<or> rx_match fractionRegex v"

definition isPercent :: "string \<Rightarrow> bool" where
  "isPercent v \<longleftrightarrow> ends_with v ''%'' \<and> isNumber (butlast v)"

definition isArbitraryValue :: "string \<Rightarrow> bool" where
  "isArbitraryValue v \<longleftrightarrow> rx_match arbitraryValueRegex v"

definition isTshirtSize :: "string \<Rightarrow> bool" where
  "isTshirtSize v \<longleftrightarrow> rx_match tshirtUnitRegex v"

definition isAny :: "string \<Rightarrow> bool" where
  "isAny v = True"

definition isNever :: "string \<Rightarrow> bool" where
  "isNever v = False"

definition isShadow :: "string \<Rightarrow> bool" where
  "isShadow v \<longleftrightarrow> rx_find_start shadowRegex v"

definition isImage :: "string \<Rightarrow> bool" where
  "isImage v \<longleftrightarrow> rx_match imageRegex v"

definition isLengthOnly :: "string \<Rightarrow> bool" where
  "isLengthOnly v \<longleftrightarrow> lengthUnitRegex_test v \<and> \<not> rx_match colorFunctionRegex v"

text \<open>The \<open>label\<close> argument is a string or a set of strings.\<close>

datatype tw_label = LStr string | LSet "string list"

definition getIsArbitraryValue :: "string \<Rightarrow> tw_label \<Rightarrow> (string \<Rightarrow> bool) \<Rightarrow> bool" where
  "getIsArbitraryValue v label testValue =
     (case arbitrary_value_exec v of
        None \<Rightarrow> False
      | Some (Some l, _) \<Rightarrow> (case label of LStr s \<Rightarrow> l = s | LSet ls \<Rightarrow> l \<in> set ls)
      | Some (None, r) \<Rightarrow> testValue r)"

definition sizeLabels :: "string list" where
  "sizeLabels = [''length'', ''size'', ''percentage'']"

definition imageLabels :: "string list" where
  "imageLabels = [''image'', ''url'']"

definition isArbitraryLength :: "string \<Rightarrow> bool" where
  "isArbitraryLength v = getIsArbitraryValue v (LStr ''length'') isLengthOnly"

definition isArbitraryNumber :: "string \<Rightarrow> bool" where
  "isArbitraryNumber v = getIsArbitraryValue v (LStr ''number'') isNumber"

definition isArbitrarySize :: "string \<Rightarrow> bool" where
  "isArbitrarySize v = getIsArbitraryValue v (LSet sizeLabels) isNever"

definition isArbitraryPosition :: "string \<Rightarrow> bool" where
  "isArbitraryPosition v = getIsArbitraryValue v (LStr ''position'') isNever"

definition isArbitraryImage :: "string \<Rightarrow> bool" where
  "isArbitraryImage v = getIsArbitraryValue v (LSet imageLabels) isImage"

definition isArbitraryShadow :: "string \<Rightarrow> bool" where
  "isArbitraryShadow v = getIsArbitraryValue v (LStr '''') isShadow"

datatype tw_validator =
    VIsAny | VIsArbitraryImage | VIsArbitraryLength | VIsArbitraryNumber | VIsArbitraryPosition
  | VIsArbitraryShadow | VIsArbitrarySize | VIsArbitraryValue | VIsInteger | VIsLength | VIsNumber
  | VIsPercent | VIsTshirtSize

fun run_validator :: "tw_validator \<Rightarrow> string \<Rightarrow> bool" where
  "run_validator VIsAny = isAny"
| "run_validator VIsArbitraryImage = isArbitraryImage"
| "run_validator VIsArbitraryLength = isArbitraryLength"
| "run_validator VIsArbitraryNumber = isArbitraryNumber"
| "run_validator VIsArbitraryPosition = isArbitraryPosition"
| "run_validator VIsArbitraryShadow = isArbitraryShadow"
| "run_validator VIsArbitrarySize = isArbitrarySize"
| "run_validator VIsArbitraryValue = isArbitraryValue"
| "run_validator VIsInteger = isInteger"
| "run_validator VIsLength = isLength"
| "run_validator VIsNumber = isNumber"
| "run_validator VIsPercent = isPercent"
| "run_validator VIsTshirtSize = isTshirtSize"

end
