(* ===== verification/TwConfig.thy ===== *)
theory TwConfig
  imports TwValidators
begin

text \<open>
  The configuration type of the class merger and its default value
  (\<open>ui/.vite/deps/tailwind-merge.js\<close>, \<open>getDefaultConfig\<close>), transcribed entry by entry in the
  order of the source. A class definition is a literal class part, a validator, a getter for a
  theme key, or an object from class parts to further definitions; the constants \<open>th_*\<close> are the
  theme getters \<open>getDefaultConfig\<close> creates first, the constants \<open>get*\<close> its local list builders,
  and \<open>groups_*\<close> the consecutive sections of \<open>classGroups\<close>.
\<close>

section \<open>Configurations\<close>

datatype tw_def =
    CStr string
  | CFun tw_validator
  | CTheme string
  | CObj "(string \<times> tw_def list) list"

definition fromTheme :: "string \<Rightarrow> tw_def" where
  "fromTheme key = CTheme key"

record tw_config =
  cacheSize :: int
  prefix_of :: "string option"
  separator :: string
  theme :: "(string \<times> tw_def list) list"
  classGroups :: "(string \<times> tw_def list) list"
  conflictingClassGroups :: "(string \<times> string list) list"
  conflictingClassGroupModifiers :: "(string \<times> string list) list"

section \<open>The default configuration\<close>

definition th_colors :: tw_def where
  "th_colors = fromTheme ''colors''"

definition th_spacing :: tw_def where
  "th_spacing = fromTheme ''spacing''"

definition th_blur :: tw_def where
  "th_blur = fromTheme ''blur''"

definition th_brightness :: tw_def where
  "th_brightness = fromTheme ''brightness''"

definition th_borderColor :: tw_def where
  "th_borderColor = fromTheme ''borderColor''"

definition th_borderRadius :: tw_def where
  "th_borderRadius = fromTheme ''borderRadius''"

definition th_borderSpacing :: tw_def where
  "th_borderSpacing = fromTheme ''borderSpacing''"

definition th_borderWidth :: tw_def where
  "th_borderWidth = fromTheme ''borderWidth''"

definition th_contrast :: tw_def where
  "th_contrast = fromTheme ''contrast''"

definition th_grayscale :: tw_def where
  "th_grayscale = fromTheme ''grayscale''"

definition th_hueRotate :: tw_def where
  "th_hueRotate = fromTheme ''hueRotate''"

definition th_invert :: tw_def where
  "th_invert = fromTheme ''invert''"

definition th_gap :: tw_def where
  "th_gap = fromTheme ''gap''"

definition th_gradientColorStops :: tw_def where
  "th_gradientColorStops = fromTheme ''gradientColorStops''"

definition th_gradientColorStopPositions :: tw_def where
  "th_gradientColorStopPositions = fromTheme ''gradientColorStopPositions''"

definition th_inset :: tw_def where
  "th_inset = fromTheme ''inset''"

definition th_margin :: tw_def where
  "th_margin = fromTheme ''margin''"

definition th_opacity :: tw_def where
  "th_opacity = fromTheme ''opacity''"

definition th_padding :: tw_def where
  "th_padding = fromTheme ''padding''"

definition th_saturate :: tw_def where
  "th_saturate = fromTheme ''saturate''"

definition th_scale :: tw_def where
  "th_scale = fromTheme ''scale''"

definition th_sepia :: tw_def where
  "th_sepia = fromTheme ''sepia''"

definition th_skew :: tw_def where
  "th_skew = fromTheme ''skew''"

definition th_space :: tw_def where
  "th_space = fromTheme ''space''"

definition th_translate :: tw_def where
  "th_translate = fromTheme ''translate''"

definition getOverscroll :: "tw_def list" where
  "getOverscroll = [CStr ''auto'', CStr ''contain'', CStr ''none'']"

definition getOverflow :: "tw_def list" where
  "getOverflow = [CStr ''auto'', CStr ''hidden'', CStr ''clip'', CStr ''visible'', CStr ''scroll'']"

definition getSpacingWithAutoAndArbitrary :: "tw_def list" where
  "getSpacingWithAutoAndArbitrary = [CStr ''auto'', CFun VIsArbitraryValue, th_spacing]"

definition getSpacingWithArbitrary :: "tw_def list" where
  "getSpacingWithArbitrary = [CFun VIsArbitraryValue, th_spacing]"

definition getLengthWithEmptyAndArbitrary :: "tw_def list" where
  "getLengthWithEmptyAndArbitrary = [CStr '''', CFun VIsLength, CFun VIsArbitraryLength]"

definition getNumberWithAutoAndArbitrary :: "tw_def list" where
  "getNumberWithAutoAndArbitrary = [CStr ''auto'', CFun VIsNumber, CFun VIsArbitraryValue]"

definition getPositions :: "tw_def list" where
  "getPositions = [CStr ''bottom'', CStr ''center'', CStr ''left'', CStr ''left-bottom'',
     CStr ''left-top'', CStr ''right'', CStr ''right-bottom'', CStr ''right-top'', CStr ''top'']"

definition getLineStyles :: "tw_def list" where
  "getLineStyles = [CStr ''solid'', CStr ''dashed'', CStr ''dotted'', CStr ''double'', CStr ''none'']"

definition getBlendModes :: "tw_def list" where
  "getBlendModes = [CStr ''normal'', CStr ''multiply'', CStr ''screen'', CStr ''overlay'',
     CStr ''darken'', CStr ''lighten'', CStr ''color-dodge'', CStr ''color-burn'',
     CStr ''hard-light'', CStr ''soft-light'', CStr ''difference'', CStr ''exclusion'',
     CStr ''hue'', CStr ''saturation'', CStr ''color'', CStr ''luminosity'']"

definition getAlign :: "tw_def list" where
  "getAlign = [CStr ''start'', CStr ''end'', CStr ''center'', CStr ''between'', CStr ''around'',
     CStr ''evenly'', CStr ''stretch'']"

definition getZeroAndEmpty :: "tw_def list" where
  "getZeroAndEmpty = [CStr '''', CStr ''0'', CFun VIsArbitraryValue]"

definition getBreaks :: "tw_def list" where
  "getBreaks = [CStr ''auto'', CStr ''avoid'', CStr ''all'', CStr ''avoid-page'', CStr ''page'',
     CStr ''left'', CStr ''right'', CStr ''column'']"

definition getNumberAndArbitrary :: "tw_def list" where
  "getNumberAndArbitrary = [CFun VIsNumber, CFun VIsArbitraryValue]"

definition default_theme :: "(string \<times> tw_def list) list" where
  "default_theme =
     [(''colors'', [CFun VIsAny]),
      (''spacing'', [CFun VIsLength, CFun VIsArbitraryLength]),
      (''blur'', [CStr ''none'', CStr '''', CFun VIsTshirtSize, CFun VIsArbitraryValue]),
      (''brightness'', getNumberAndArbitrary),
      (''borderColor'', [th_colors]),
      (''borderRadius'', [CStr ''none'', CStr '''', CStr ''full'', CFun VIsTshirtSize,
       CFun VIsArbitraryValue]),
      (''borderSpacing'', getSpacingWithArbitrary),
      (''borderWidth'', getLengthWithEmptyAndArbitrary),
      (''contrast'', getNumberAndArbitrary),
      (''grayscale'', getZeroAndEmpty),
      (''hueRotate'', getNumberAndArbitrary),
      (''invert'', getZeroAndEmpty),
      (''gap'', getSpacingWithArbitrary),
      (''gradientColorStops'', [th_colors]),
      (''gradientColorStopPositions'', [CFun VIsPercent, CFun VIsArbitraryLength]),
      (''inset'', getSpacingWithAutoAndArbitrary),
      (''margin'', getSpacingWithAutoAndArbitrary),
      (''opacity'', getNumberAndArbitrary),
      (''padding'', getSpacingWithArbitrary),
      (''saturate'', getNumberAndArbitrary),
      (''scale'', getNumberAndArbitrary),
      (''sepia'', getZeroAndEmpty),
      (''skew'', getNumberAndArbitrary),
      (''space'', getSpacingWithArbitrary),
      (''translate'', getSpacingWithArbitrary)]"

definition groups_layout1 :: "(string \<times> tw_def list) list" where
  "groups_layout1 =
     [(''aspect'', [CObj [(''aspect'', [CStr ''auto'', CStr ''square'', CStr ''video'',
       CFun VIsArbitraryValue])]]),
      (''container'', [CStr ''container'']),
      (''columns'', [CObj [(''columns'', [CFun VIsTshirtSize])]]),
      (''break-after'', [CObj [(''break-after'', getBreaks)]]),
      (''break-before'', [CObj [(''break-before'', getBreaks)]]),
      (''break-inside'', [CObj [(''break-inside'', [CStr ''auto'', CStr ''avoid'', CStr ''avoid-page'',
       CStr ''avoid-column''])]]),
      (''box-decoration'', [CObj [(''box-decoration'', [CStr ''slice'', CStr ''clone''])]]),
      (''box'', [CObj [(''box'', [CStr ''border'', CStr ''content''])]]),
      (''display'', [CStr ''block'', CStr ''inline-block'', CStr ''inline'', CStr ''flex'',
       CStr ''inline-flex'', CStr ''table'', CStr ''inline-table'', CStr ''table-caption'',
       CStr ''table-cell'', CStr ''table-column'', CStr ''table-column-group'',
       CStr ''table-footer-group'', CStr ''table-header-group'', CStr ''table-row-group'',
       CStr ''table-row'', CStr ''flow-root'', CStr ''grid'', CStr ''inline-grid'',
       CStr ''contents'', CStr ''list-item'', CStr ''hidden'']),
      (''float'', [CObj [(''float'', [CStr ''right'', CStr ''left'', CStr ''none'', CStr ''start'',
       CStr ''end''])]]),
      (''clear'', [CObj [(''clear'', [CStr ''left'', CStr ''right'', CStr ''both'', CStr ''none'',
       CStr ''start'', CStr ''end''])]]),
      (''isolation'', [CStr ''isolate'', CStr ''isolation-auto'']),
      (''object-fit'', [CObj [(''object'', [CStr ''contain'', CStr ''cover'', CStr ''fill'',
       CStr ''none'', CStr ''scale-down''])]]),
      (''object-position'', [CObj [(''object'', getPositions @ [CFun VIsArbitraryValue])]]),
      (''overflow'', [CObj [(''overflow'', getOverflow)]]),
      (''overflow-x'', [CObj [(''overflow-x'', getOverflow)]]),
      (''overflow-y'', [CObj [(''overflow-y'', getOverflow)]]),
      (''overscroll'', [CObj [(''overscroll'', getOverscroll)]]),
      (''overscroll-x'', [CObj [(''overscroll-x'', getOverscroll)]]),
      (''overscroll-y'', [CObj [(''overscroll-y'', getOverscroll)]]),
      (''position'', [CStr ''static'', CStr ''fixed'', CStr ''absolute'', CStr ''relative'',
       CStr ''sticky'']),
      (''inset'', [CObj [(''inset'', [th_inset])]])]"

definition groups_layout2 :: "(string \<times> tw_def list) list" where
  "groups_layout2 =
     [(''inset-x'', [CObj [(''inset-x'', [th_inset])]]),
      (''inset-y'', [CObj [(''inset-y'', [th_inset])]]),
      (''start'', [CObj [(''start'', [th_inset])]]),
      (''end'', [CObj [(''end'', [th_inset])]]),
      (''top'', [CObj [(''top'', [th_inset])]]),
      (''right'', [CObj [(''right'', [th_inset])]]),
      (''bottom'', [CObj [(''bottom'', [th_inset])]]),
      (''left'', [CObj [(''left'', [th_inset])]]),
      (''visibility'', [CStr ''visible'', CStr ''invisible'', CStr ''collapse'']),
      (''z'', [CObj [(''z'', [CStr ''auto'', CFun VIsInteger, CFun VIsArbitraryValue])]])]"

definition groups_flexbox_and_grid1 :: "(string \<times> tw_def list) list" where
  "groups_flexbox_and_grid1 =
     [(''basis'', [CObj [(''basis'', getSpacingWithAutoAndArbitrary)]]),
      (''flex-direction'', [CObj [(''flex'', [CStr ''row'', CStr ''row-reverse'', CStr ''col'',
       CStr ''col-reverse''])]]),
      (''flex-wrap'', [CObj [(''flex'', [CStr ''wrap'', CStr ''wrap-reverse'', CStr ''nowrap''])]]),
      (''flex'', [CObj [(''flex'', [CStr ''1'', CStr ''auto'', CStr ''initial'', CStr ''none'',
       CFun VIsArbitraryValue])]]),
      (''grow'', [CObj [(''grow'', getZeroAndEmpty)]]),
      (''shrink'', [CObj [(''shrink'', getZeroAndEmpty)]]),
      (''order'', [CObj [(''order'', [CStr ''first'', CStr ''last'', CStr ''none'', CFun VIsInteger,
       CFun VIsArbitraryValue])]]),
      (''grid-cols'', [CObj [(''grid-cols'', [CFun VIsAny])]]),
      (''col-start-end'', [CObj [(''col'', [CStr ''auto'', CObj [(''span'', [CStr ''full'',
       CFun VIsInteger, CFun VIsArbitraryValue])], CFun VIsArbitraryValue])]]),
      (''col-start'', [CObj [(''col-start'', getNumberWithAutoAndArbitrary)]]),
      (''col-end'', [CObj [(''col-end'', getNumberWithAutoAndArbitrary)]]),
      (''grid-rows'', [CObj [(''grid-rows'', [CFun VIsAny])]]),
      (''row-start-end'', [CObj [(''row'', [CStr ''auto'', CObj [(''span'', [CFun VIsInteger,
       CFun VIsArbitraryValue])], CFun VIsArbitraryValue])]]),
      (''row-start'', [CObj [(''row-start'', getNumberWithAutoAndArbitrary)]]),
      (''row-end'', [CObj [(''row-end'', getNumberWithAutoAndArbitrary)]]),
      (''grid-flow'', [CObj [(''grid-flow'', [CStr ''row'', CStr ''col'', CStr ''dense'',
       CStr ''row-dense'', CStr ''col-dense''])]]),
      (''auto-cols'', [CObj [(''auto-cols'', [CStr ''auto'', CStr ''min'', CStr ''max'', CStr ''fr'',
       CFun VIsArbitraryValue])]]),
      (''auto-rows'', [CObj [(''auto-rows'', [CStr ''auto'', CStr ''min'', CStr ''max'', CStr ''fr'',
       CFun VIsArbitraryValue])]]),
      (''gap'', [CObj [(''gap'', [th_gap])]]),
      (''gap-x'', [CObj [(''gap-x'', [th_gap])]])]"

definition groups_flexbox_and_grid2 :: "(string \<times> tw_def list) list" where
  "groups_flexbox_and_grid2 =
     [(''gap-y'', [CObj [(''gap-y'', [th_gap])]]),
      (''justify-content'', [CObj [(''justify'', [CStr ''normal''] @ getAlign)]]),
      (''justify-items'', [CObj [(''justify-items'', [CStr ''start'', CStr ''end'', CStr ''center'',
       CStr ''stretch''])]]),
      (''justify-self'', [CObj [(''justify-self'', [CStr ''auto'', CStr ''start'', CStr ''end'',
       CStr ''center'', CStr ''stretch''])]]),
      (''align-content'', [CObj [(''content'', [CStr ''normal''] @ getAlign @ [CStr ''baseline''])]]),
      (''align-items'', [CObj [(''items'', [CStr ''start'', CStr ''end'', CStr ''center'',
       CStr ''baseline'', CStr ''stretch''])]]),
      (''align-self'', [CObj [(''self'', [CStr ''auto'', CStr ''start'', CStr ''end'', CStr ''center'',
       CStr ''stretch'', CStr ''baseline''])]]),
      (''place-content'', [CObj [(''place-content'', getAlign @ [CStr ''baseline''])]]),
      (''place-items'', [CObj [(''place-items'', [CStr ''start'', CStr ''end'', CStr ''center'',
       CStr ''baseline'', CStr ''stretch''])]]),
      (''place-self'', [CObj [(''place-self'', [CStr ''auto'', CStr ''start'', CStr ''end'',
       CStr ''center'', CStr ''stretch''])]])]"

definition groups_spacing1 :: "(string \<times> tw_def list) list" where
  "groups_spacing1 =
     [(''p'', [CObj [(''p'', [th_padding])]]),
      (''px'', [CObj [(''px'', [th_padding])]]),
      (''py'', [CObj [(''py'', [th_padding])]]),
      (''ps'', [CObj [(''ps'', [th_padding])]]),
      (''pe'', [CObj [(''pe'', [th_padding])]]),
      (''pt'', [CObj [(''pt'', [th_padding])]]),
      (''pr'', [CObj [(''pr'', [th_padding])]]),
      (''pb'', [CObj [(''pb'', [th_padding])]]),
      (''pl'', [CObj [(''pl'', [th_padding])]]),
      (''m'', [CObj [(''m'', [th_margin])]]),
      (''mx'', [CObj [(''mx'', [th_margin])]]),
      (''my'', [CObj [(''my'', [th_margin])]]),
      (''ms'', [CObj [(''ms'', [th_margin])]]),
      (''me'', [CObj [(''me'', [th_margin])]]),
      (''mt'', [CObj [(''mt'', [th_margin])]]),
      (''mr'', [CObj [(''mr'', [th_margin])]]),
      (''mb'', [CObj [(''mb'', [th_margin])]]),
      (''ml'', [CObj [(''ml'', [th_margin])]]),
      (''space-x'', [CObj [(''space-x'', [th_space])]]),
      (''space-x-reverse'', [CStr ''space-x-reverse'']),
      (''space-y'', [CObj [(''space-y'', [th_space])]])]"

definition groups_spacing2 :: "(string \<times> tw_def list) list" where
  "groups_spacing2 =
     [(''space-y-reverse'', [CStr ''space-y-reverse''])]"

definition groups_sizing :: "(string \<times> tw_def list) list" where
  "groups_sizing =
     [(''w'', [CObj [(''w'', [CStr ''auto'', CStr ''min'', CStr ''max'', CStr ''fit'', CStr ''svw'',
       CStr ''lvw'', CStr ''dvw'', CFun VIsArbitraryValue, th_spacing])]]),
      (''min-w'', [CObj [(''min-w'', [CFun VIsArbitraryValue, th_spacing, CStr ''min'', CStr ''max'',
       CStr ''fit''])]]),
      (''max-w'', [CObj [(''max-w'', [CFun VIsArbitraryValue, th_spacing, CStr ''none'', CStr ''full'',
       CStr ''min'', CStr ''max'', CStr ''fit'', CStr ''prose'', CObj [(''screen'',
       [CFun VIsTshirtSize])], CFun VIsTshirtSize])]]),
      (''h'', [CObj [(''h'', [CFun VIsArbitraryValue, th_spacing, CStr ''auto'', CStr ''min'',
       CStr ''max'', CStr ''fit'', CStr ''svh'', CStr ''lvh'', CStr ''dvh''])]]),
      (''min-h'', [CObj [(''min-h'', [CFun VIsArbitraryValue, th_spacing, CStr ''min'', CStr ''max'',
       CStr ''fit'', CStr ''svh'', CStr ''lvh'', CStr ''dvh''])]]),
      (''max-h'', [CObj [(''max-h'', [CFun VIsArbitraryValue, th_spacing, CStr ''min'', CStr ''max'',
       CStr ''fit'', CStr ''svh'', CStr ''lvh'', CStr ''dvh''])]]),
      (''size'', [CObj [(''size'', [CFun VIsArbitraryValue, th_spacing, CStr ''auto'', CStr ''min'',
       CStr ''max'', CStr ''fit''])]])]"

definition groups_typography1 :: "(string \<times> tw_def list) list" where
  "groups_typography1 =
     [(''font-size'', [CObj [(''text'', [CStr ''base'', CFun VIsTshirtSize, CFun VIsArbitraryLength])]]),
      (''font-smoothing'', [CStr ''antialiased'', CStr ''subpixel-antialiased'']),
      (''font-style'', [CStr ''italic'', CStr ''not-italic'']),
      (''font-weight'', [CObj [(''font'', [CStr ''thin'', CStr ''extralight'', CStr ''light'',
       CStr ''normal'', CStr ''medium'', CStr ''semibold'', CStr ''bold'', CStr ''extrabold'',
       CStr ''black'', CFun VIsArbitraryNumber])]]),
      (''font-family'', [CObj [(''font'', [CFun VIsAny])]]),
      (''fvn-normal'', [CStr ''normal-nums'']),
      (''fvn-ordinal'', [CStr ''ordinal'']),
      (''fvn-slashed-zero'', [CStr ''slashed-zero'']),
      (''fvn-figure'', [CStr ''lining-nums'', CStr ''oldstyle-nums'']),
      (''fvn-spacing'', [CStr ''proportional-nums'', CStr ''tabular-nums'']),
      (''fvn-fraction'', [CStr ''diagonal-fractions'', CStr ''stacked-fractions'']),
      (''tracking'', [CObj [(''tracking'', [CStr ''tighter'', CStr ''tight'', CStr ''normal'',
       CStr ''wide'', CStr ''wider'', CStr ''widest'', CFun VIsArbitraryValue])]]),
      (''line-clamp'', [CObj [(''line-clamp'', [CStr ''none'', CFun VIsNumber,
       CFun VIsArbitraryNumber])]]),
      (''leading'', [CObj [(''leading'', [CStr ''none'', CStr ''tight'', CStr ''snug'', CStr ''normal'',
       CStr ''relaxed'', CStr ''loose'', CFun VIsLength, CFun VIsArbitraryValue])]]),
      (''list-image'', [CObj [(''list-image'', [CStr ''none'', CFun VIsArbitraryValue])]]),
      (''list-style-type'', [CObj [(''list'', [CStr ''none'', CStr ''disc'', CStr ''decimal'',
       CFun VIsArbitraryValue])]]),
      (''list-style-position'', [CObj [(''list'', [CStr ''inside'', CStr ''outside''])]]),
      (''placeholder-color'', [CObj [(''placeholder'', [th_colors])]]),
      (''placeholder-opacity'', [CObj [(''placeholder-opacity'', [th_opacity])]]),
      (''text-alignment'', [CObj [(''text'', [CStr ''left'', CStr ''center'', CStr ''right'',
       CStr ''justify'', CStr ''start'', CStr ''end''])]]),
      (''text-color'', [CObj [(''text'', [th_colors])]]),
      (''text-opacity'', [CObj [(''text-opacity'', [th_opacity])]]),
      (''text-decoration'', [CStr ''underline'', CStr ''overline'', CStr ''line-through'',
       CStr ''no-underline''])]"

definition groups_typography2 :: "(string \<times> tw_def list) list" where
  "groups_typography2 =
     [(''text-decoration-style'', [CObj [(''decoration'', getLineStyles @ [CStr ''wavy''])]]),
      (''text-decoration-thickness'', [CObj [(''decoration'', [CStr ''auto'', CStr ''from-font'',
       CFun VIsLength, CFun VIsArbitraryLength])]]),
      (''underline-offset'', [CObj [(''underline-offset'', [CStr ''auto'', CFun VIsLength,
       CFun VIsArbitraryValue])]]),
      (''text-decoration-color'', [CObj [(''decoration'', [th_colors])]]),
      (''text-transform'', [CStr ''uppercase'', CStr ''lowercase'', CStr ''capitalize'',
       CStr ''normal-case'']),
      (''text-overflow'', [CStr ''truncate'', CStr ''text-ellipsis'', CStr ''text-clip'']),
      (''text-wrap'', [CObj [(''text'', [CStr ''wrap'', CStr ''nowrap'', CStr ''balance'',
       CStr ''pretty''])]]),
      (''indent'', [CObj [(''indent'', getSpacingWithArbitrary)]]),
      (''vertical-align'', [CObj [(''align'', [CStr ''baseline'', CStr ''top'', CStr ''middle'',
       CStr ''bottom'', CStr ''text-top'', CStr ''text-bottom'', CStr ''sub'', CStr ''super'',
       CFun VIsArbitraryValue])]]),
      (''whitespace'', [CObj [(''whitespace'', [CStr ''normal'', CStr ''nowrap'', CStr ''pre'',
       CStr ''pre-line'', CStr ''pre-wrap'', CStr ''break-spaces''])]]),
      (''break'', [CObj [(''break'', [CStr ''normal'', CStr ''words'', CStr ''all'', CStr ''keep''])]]),
      (''hyphens'', [CObj [(''hyphens'', [CStr ''none'', CStr ''manual'', CStr ''auto''])]]),
      (''content'', [CObj [(''content'', [CStr ''none'', CFun VIsArbitraryValue])]])]"

definition groups_backgrounds :: "(string \<times> tw_def list) list" where
  "groups_backgrounds =
     [(''bg-attachment'', [CObj [(''bg'', [CStr ''fixed'', CStr ''local'', CStr ''scroll''])]]),
      (''bg-clip'', [CObj [(''bg-clip'', [CStr ''border'', CStr ''padding'', CStr ''content'',
       CStr ''text''])]]),
      (''bg-opacity'', [CObj [(''bg-opacity'', [th_opacity])]]),
      (''bg-origin'', [CObj [(''bg-origin'', [CStr ''border'', CStr ''padding'', CStr ''content''])]]),
      (''bg-position'', [CObj [(''bg'', getPositions @ [CFun VIsArbitraryPosition])]]),
      (''bg-repeat'', [CObj [(''bg'', [CStr ''no-repeat'', CObj [(''repeat'', [CStr '''', CStr ''x'',
       CStr ''y'', CStr ''round'', CStr ''space''])]])]]),
      (''bg-size'', [CObj [(''bg'', [CStr ''auto'', CStr ''cover'', CStr ''contain'',
       CFun VIsArbitrarySize])]]),
      (''bg-image'', [CObj [(''bg'', [CStr ''none'', CObj [(''gradient-to'', [CStr ''t'', CStr ''tr'',
       CStr ''r'', CStr ''br'', CStr ''b'', CStr ''bl'', CStr ''l'', CStr ''tl''])],
       CFun VIsArbitraryImage])]]),
      (''bg-color'', [CObj [(''bg'', [th_colors])]]),
      (''gradient-from-pos'', [CObj [(''from'', [th_gradientColorStopPositions])]]),
      (''gradient-via-pos'', [CObj [(''via'', [th_gradientColorStopPositions])]]),
      (''gradient-to-pos'', [CObj [(''to'', [th_gradientColorStopPositions])]]),
      (''gradient-from'', [CObj [(''from'', [th_gradientColorStops])]]),
      (''gradient-via'', [CObj [(''via'', [th_gradientColorStops])]]),
      (''gradient-to'', [CObj [(''to'', [th_gradientColorStops])]])]"

definition groups_borders1 :: "(string \<times> tw_def list) list" where
  "groups_borders1 =
     [(''rounded'', [CObj [(''rounded'', [th_borderRadius])]]),
      (''rounded-s'', [CObj [(''rounded-s'', [th_borderRadius])]]),
      (''rounded-e'', [CObj [(''rounded-e'', [th_borderRadius])]]),
      (''rounded-t'', [CObj [(''rounded-t'', [th_borderRadius])]]),
      (''rounded-r'', [CObj [(''rounded-r'', [th_borderRadius])]]),
      (''rounded-b'', [CObj [(''rounded-b'', [th_borderRadius])]]),
      (''rounded-l'', [CObj [(''rounded-l'', [th_borderRadius])]]),
      (''rounded-ss'', [CObj [(''rounded-ss'', [th_borderRadius])]]),
      (''rounded-se'', [CObj [(''rounded-se'', [th_borderRadius])]]),
      (''rounded-ee'', [CObj [(''rounded-ee'', [th_borderRadius])]]),
      (''rounded-es'', [CObj [(''rounded-es'', [th_borderRadius])]]),
      (''rounded-tl'', [CObj [(''rounded-tl'', [th_borderRadius])]]),
      (''rounded-tr'', [CObj [(''rounded-tr'', [th_borderRadius])]]),
      (''rounded-br'', [CObj [(''rounded-br'', [th_borderRadius])]]),
      (''rounded-bl'', [CObj [(''rounded-bl'', [th_borderRadius])]]),
      (''border-w'', [CObj [(''border'', [th_borderWidth])]]),
      (''border-w-x'', [CObj [(''border-x'', [th_borderWidth])]]),
      (''border-w-y'', [CObj [(''border-y'', [th_borderWidth])]]),
      (''border-w-s'', [CObj [(''border-s'', [th_borderWidth])]]),
      (''border-w-e'', [CObj [(''border-e'', [th_borderWidth])]]),
      (''border-w-t'', [CObj [(''border-t'', [th_borderWidth])]])]"

definition groups_borders2 :: "(string \<times> tw_def list) list" where
  "groups_borders2 =
     [(''border-w-r'', [CObj [(''border-r'', [th_borderWidth])]]),
      (''border-w-b'', [CObj [(''border-b'', [th_borderWidth])]]),
      (''border-w-l'', [CObj [(''border-l'', [th_borderWidth])]]),
      (''border-opacity'', [CObj [(''border-opacity'', [th_opacity])]]),
      (''border-style'', [CObj [(''border'', getLineStyles @ [CStr ''hidden''])]]),
      (''divide-x'', [CObj [(''divide-x'', [th_borderWidth])]]),
      (''divide-x-reverse'', [CStr ''divide-x-reverse'']),
      (''divide-y'', [CObj [(''divide-y'', [th_borderWidth])]]),
      (''divide-y-reverse'', [CStr ''divide-y-reverse'']),
      (''divide-opacity'', [CObj [(''divide-opacity'', [th_opacity])]]),
      (''divide-style'', [CObj [(''divide'', getLineStyles)]]),
      (''border-color'', [CObj [(''border'', [th_borderColor])]]),
      (''border-color-x'', [CObj [(''border-x'', [th_borderColor])]]),
      (''border-color-y'', [CObj [(''border-y'', [th_borderColor])]]),
      (''border-color-s'', [CObj [(''border-s'', [th_borderColor])]]),
      (''border-color-e'', [CObj [(''border-e'', [th_borderColor])]]),
      (''border-color-t'', [CObj [(''border-t'', [th_borderColor])]]),
      (''border-color-r'', [CObj [(''border-r'', [th_borderColor])]]),
      (''border-color-b'', [CObj [(''border-b'', [th_borderColor])]]),
      (''border-color-l'', [CObj [(''border-l'', [th_borderColor])]]),
      (''divide-color'', [CObj [(''divide'', [th_borderColor])]])]"

definition groups_borders3 :: "(string \<times> tw_def list) list" where
  "groups_borders3 =
     [(''outline-style'', [CObj [(''outline'', [CStr ''''] @ getLineStyles)]]),
      (''outline-offset'', [CObj [(''outline-offset'', [CFun VIsLength, CFun VIsArbitraryValue])]]),
      (''outline-w'', [CObj [(''outline'', [CFun VIsLength, CFun VIsArbitraryLength])]]),
      (''outline-color'', [CObj [(''outline'', [th_colors])]]),
      (''ring-w'', [CObj [(''ring'', getLengthWithEmptyAndArbitrary)]]),
      (''ring-w-inset'', [CStr ''ring-inset'']),
      (''ring-color'', [CObj [(''ring'', [th_colors])]]),
      (''ring-opacity'', [CObj [(''ring-opacity'', [th_opacity])]]),
      (''ring-offset-w'', [CObj [(''ring-offset'', [CFun VIsLength, CFun VIsArbitraryLength])]]),
      (''ring-offset-color'', [CObj [(''ring-offset'', [th_colors])]])]"

definition groups_effects :: "(string \<times> tw_def list) list" where
  "groups_effects =
     [(''shadow'', [CObj [(''shadow'', [CStr '''', CStr ''inner'', CStr ''none'', CFun VIsTshirtSize,
       CFun VIsArbitraryShadow])]]),
      (''shadow-color'', [CObj [(''shadow'', [CFun VIsAny])]]),
      (''opacity'', [CObj [(''opacity'', [th_opacity])]]),
      (''mix-blend'', [CObj [(''mix-blend'', getBlendModes @ [CStr ''plus-lighter'',
       CStr ''plus-darker''])]]),
      (''bg-blend'', [CObj [(''bg-blend'', getBlendModes)]])]"

definition groups_filters :: "(string \<times> tw_def list) list" where
  "groups_filters =
     [(''filter'', [CObj [(''filter'', [CStr '''', CStr ''none''])]]),
      (''blur'', [CObj [(''blur'', [th_blur])]]),
      (''brightness'', [CObj [(''brightness'', [th_brightness])]]),
      (''contrast'', [CObj [(''contrast'', [th_contrast])]]),
      (''drop-shadow'', [CObj [(''drop-shadow'', [CStr '''', CStr ''none'', CFun VIsTshirtSize,
       CFun VIsArbitraryValue])]]),
      (''grayscale'', [CObj [(''grayscale'', [th_grayscale])]]),
      (''hue-rotate'', [CObj [(''hue-rotate'', [th_hueRotate])]]),
      (''invert'', [CObj [(''invert'', [th_invert])]]),
      (''saturate'', [CObj [(''saturate'', [th_saturate])]]),
      (''sepia'', [CObj [(''sepia'', [th_sepia])]]),
      (''backdrop-filter'', [CObj [(''backdrop-filter'', [CStr '''', CStr ''none''])]]),
      (''backdrop-blur'', [CObj [(''backdrop-blur'', [th_blur])]]),
      (''backdrop-brightness'', [CObj [(''backdrop-brightness'', [th_brightness])]]),
      (''backdrop-contrast'', [CObj [(''backdrop-contrast'', [th_contrast])]]),
      (''backdrop-grayscale'', [CObj [(''backdrop-grayscale'', [th_grayscale])]]),
      (''backdrop-hue-rotate'', [CObj [(''backdrop-hue-rotate'', [th_hueRotate])]]),
      (''backdrop-invert'', [CObj [(''backdrop-invert'', [th_invert])]]),
      (''backdrop-opacity'', [CObj [(''backdrop-opacity'', [th_opacity])]]),
      (''backdrop-saturate'', [CObj [(''backdrop-saturate'', [th_saturate])]]),
      (''backdrop-sepia'', [CObj [(''backdrop-sepia'', [th_sepia])]])]"

definition groups_tables :: "(string \<times> tw_def list) list" where
  "groups_tables =
     [(''border-collapse'', [CObj [(''border'', [CStr ''collapse'', CStr ''separate''])]]),
      (''border-spacing'', [CObj [(''border-spacing'', [th_borderSpacing])]]),
      (''border-spacing-x'', [CObj [(''border-spacing-x'', [th_borderSpacing])]]),
      (''border-spacing-y'', [CObj [(''border-spacing-y'', [th_borderSpacing])]]),
      (''table-layout'', [CObj [(''table'', [CStr ''auto'', CStr ''fixed''])]]),
      (''caption'', [CObj [(''caption'', [CStr ''top'', CStr ''bottom''])]])]"

definition groups_transitions_and_animation :: "(string \<times> tw_def list) list" where
  "groups_transitions_and_animation =
     [(''transition'', [CObj [(''transition'', [CStr ''none'', CStr ''all'', CStr '''', CStr ''colors'',
       CStr ''opacity'', CStr ''shadow'', CStr ''transform'', CFun VIsArbitraryValue])]]),
      (''duration'', [CObj [(''duration'', getNumberAndArbitrary)]]),
      (''ease'', [CObj [(''ease'', [CStr ''linear'', CStr ''in'', CStr ''out'', CStr ''in-out'',
       CFun VIsArbitraryValue])]]),
      (''delay'', [CObj [(''delay'', getNumberAndArbitrary)]]),
      (''animate'', [CObj [(''animate'', [CStr ''none'', CStr ''spin'', CStr ''ping'', CStr ''pulse'',
       CStr ''bounce'', CFun VIsArbitraryValue])]])]"

definition groups_transforms :: "(string \<times> tw_def list) list" where
  "groups_transforms =
     [(''transform'', [CObj [(''transform'', [CStr '''', CStr ''gpu'', CStr ''none''])]]),
      (''scale'', [CObj [(''scale'', [th_scale])]]),
      (''scale-x'', [CObj [(''scale-x'', [th_scale])]]),
      (''scale-y'', [CObj [(''scale-y'', [th_scale])]]),
      (''rotate'', [CObj [(''rotate'', [CFun VIsInteger, CFun VIsArbitraryValue])]]),
      (''translate-x'', [CObj [(''translate-x'', [th_translate])]]),
      (''translate-y'', [CObj [(''translate-y'', [th_translate])]]),
      (''skew-x'', [CObj [(''skew-x'', [th_skew])]]),
      (''skew-y'', [CObj [(''skew-y'', [th_skew])]]),
      (''transform-origin'', [CObj [(''origin'', [CStr ''center'', CStr ''top'', CStr ''top-right'',
       CStr ''right'', CStr ''bottom-right'', CStr ''bottom'', CStr ''bottom-left'', CStr ''left'',
       CStr ''top-left'', CFun VIsArbitraryValue])]])]"

definition groups_interactivity1 :: "(string \<times> tw_def list) list" where
  "groups_interactivity1 =
     [(''accent'', [CObj [(''accent'', [CStr ''auto'', th_colors])]]),
      (''appearance'', [CObj [(''appearance'', [CStr ''none'', CStr ''auto''])]]),
      (''cursor'', [CObj [(''cursor'', [CStr ''auto'', CStr ''default'', CStr ''pointer'', CStr ''wait'',
       CStr ''text'', CStr ''move'', CStr ''help'', CStr ''not-allowed'', CStr ''none'',
       CStr ''context-menu'', CStr ''progress'', CStr ''cell'', CStr ''crosshair'',
       CStr ''vertical-text'', CStr ''alias'', CStr ''copy'', CStr ''no-drop'', CStr ''grab'',
       CStr ''grabbing'', CStr ''all-scroll'', CStr ''col-resize'', CStr ''row-resize'',
       CStr ''n-resize'', CStr ''e-resize'', CStr ''s-resize'', CStr ''w-resize'',
       CStr ''ne-resize'', CStr ''nw-resize'', CStr ''se-resize'', CStr ''sw-resize'',
       CStr ''ew-resize'', CStr ''ns-resize'', CStr ''nesw-resize'', CStr ''nwse-resize'',
       CStr ''zoom-in'', CStr ''zoom-out'', CFun VIsArbitraryValue])]]),
      (''caret-color'', [CObj [(''caret'', [th_colors])]]),
      (''pointer-events'', [CObj [(''pointer-events'', [CStr ''none'', CStr ''auto''])]]),
      (''resize'', [CObj [(''resize'', [CStr ''none'', CStr ''y'', CStr ''x'', CStr ''''])]]),
      (''scroll-behavior'', [CObj [(''scroll'', [CStr ''auto'', CStr ''smooth''])]]),
      (''scroll-m'', [CObj [(''scroll-m'', getSpacingWithArbitrary)]]),
      (''scroll-mx'', [CObj [(''scroll-mx'', getSpacingWithArbitrary)]]),
      (''scroll-my'', [CObj [(''scroll-my'', getSpacingWithArbitrary)]]),
      (''scroll-ms'', [CObj [(''scroll-ms'', getSpacingWithArbitrary)]]),
      (''scroll-me'', [CObj [(''scroll-me'', getSpacingWithArbitrary)]]),
      (''scroll-mt'', [CObj [(''scroll-mt'', getSpacingWithArbitrary)]]),
      (''scroll-mr'', [CObj [(''scroll-mr'', getSpacingWithArbitrary)]]),
      (''scroll-mb'', [CObj [(''scroll-mb'', getSpacingWithArbitrary)]]),
      (''scroll-ml'', [CObj [(''scroll-ml'', getSpacingWithArbitrary)]]),
      (''scroll-p'', [CObj [(''scroll-p'', getSpacingWithArbitrary)]]),
      (''scroll-px'', [CObj [(''scroll-px'', getSpacingWithArbitrary)]]),
      (''scroll-py'', [CObj [(''scroll-py'', getSpacingWithArbitrary)]]),
      (''scroll-ps'', [CObj [(''scroll-ps'', getSpacingWithArbitrary)]]),
      (''scroll-pe'', [CObj [(''scroll-pe'', getSpacingWithArbitrary)]])]"

definition groups_interactivity2 :: "(string \<times> tw_def list) list" where
  "groups_interactivity2 =
     [(''scroll-pt'', [CObj [(''scroll-pt'', getSpacingWithArbitrary)]]),
      (''scroll-pr'', [CObj [(''scroll-pr'', getSpacingWithArbitrary)]]),
      (''scroll-pb'', [CObj [(''scroll-pb'', getSpacingWithArbitrary)]]),
      (''scroll-pl'', [CObj [(''scroll-pl'', getSpacingWithArbitrary)]]),
      (''snap-align'', [CObj [(''snap'', [CStr ''start'', CStr ''end'', CStr ''center'',
       CStr ''align-none''])]]),
      (''snap-stop'', [CObj [(''snap'', [CStr ''normal'', CStr ''always''])]]),
      (''snap-type'', [CObj [(''snap'', [CStr ''none'', CStr ''x'', CStr ''y'', CStr ''both''])]]),
      (''snap-strictness'', [CObj [(''snap'', [CStr ''mandatory'', CStr ''proximity''])]]),
      (''touch'', [CObj [(''touch'', [CStr ''auto'', CStr ''none'', CStr ''manipulation''])]]),
      (''touch-x'', [CObj [(''touch-pan'', [CStr ''x'', CStr ''left'', CStr ''right''])]]),
      (''touch-y'', [CObj [(''touch-pan'', [CStr ''y'', CStr ''up'', CStr ''down''])]]),
      (''touch-pz'', [CStr ''touch-pinch-zoom'']),
      (''select'', [CObj [(''select'', [CStr ''none'', CStr ''text'', CStr ''all'', CStr ''auto''])]]),
      (''will-change'', [CObj [(''will-change'', [CStr ''auto'', CStr ''scroll'', CStr ''contents'',
       CStr ''transform'', CFun VIsArbitraryValue])]])]"

definition groups_svg :: "(string \<times> tw_def list) list" where
  "groups_svg =
     [(''fill'', [CObj [(''fill'', [th_colors, CStr ''none''])]]),
      (''stroke-w'', [CObj [(''stroke'', [CFun VIsLength, CFun VIsArbitraryLength,
       CFun VIsArbitraryNumber])]]),
      (''stroke'', [CObj [(''stroke'', [th_colors, CStr ''none''])]])]"

definition groups_accessibility :: "(string \<times> tw_def list) list" where
  "groups_accessibility =
     [(''sr'', [CStr ''sr-only'', CStr ''not-sr-only'']),
      (''forced-color-adjust'', [CObj [(''forced-color-adjust'', [CStr ''auto'', CStr ''none''])]])]"

definition default_class_groups :: "(string \<times> tw_def list) list" where
  "default_class_groups =
     groups_layout1 @
     groups_layout2 @
     groups_flexbox_and_grid1 @
     groups_flexbox_and_grid2 @
     groups_spacing1 @
     groups_spacing2 @
     groups_sizing @
     groups_typography1 @
     groups_typography2 @
     groups_backgrounds @
     groups_borders1 @
     groups_borders2 @
     groups_borders3 @
     groups_effects @
     groups_filters @
     groups_tables @
     groups_transitions_and_animation @
     groups_transforms @
     groups_interactivity1 @
     groups_interactivity2 @
     groups_svg @
     groups_accessibility"

definition default_conflicts :: "(string \<times> string list) list" where
  "default_conflicts =
     [(''overflow'', [''overflow-x'', ''overflow-y'']),
      (''overscroll'', [''overscroll-x'', ''overscroll-y'']),
      (''inset'', [''inset-x'', ''inset-y'', ''start'', ''end'', ''top'', ''right'', ''bottom'',
       ''left'']),
      (''inset-x'', [''right'', ''left'']),
      (''inset-y'', [''top'', ''bottom'']),
      (''flex'', [''basis'', ''grow'', ''shrink'']),
      (''gap'', [''gap-x'', ''gap-y'']),
      (''p'', [''px'', ''py'', ''ps'', ''pe'', ''pt'', ''pr'', ''pb'', ''pl'']),
      (''px'', [''pr'', ''pl'']),
      (''py'', [''pt'', ''pb'']),
      (''m'', [''mx'', ''my'', ''ms'', ''me'', ''mt'', ''mr'', ''mb'', ''ml'']),
      (''mx'', [''mr'', ''ml'']),
      (''my'', [''mt'', ''mb'']),
      (''size'', [''w'', ''h'']),
      (''font-size'', [''leading'']),
      (''fvn-normal'', [''fvn-ordinal'', ''fvn-slashed-zero'', ''fvn-figure'', ''fvn-spacing'',
       ''fvn-fraction'']),
      (''fvn-ordinal'', [''fvn-normal'']),
      (''fvn-slashed-zero'', [''fvn-normal'']),
      (''fvn-figure'', [''fvn-normal'']),
      (''fvn-spacing'', [''fvn-normal'']),
      (''fvn-fraction'', [''fvn-normal'']),
      (''line-clamp'', [''display'', ''overflow'']),
      (''rounded'', [''rounded-s'', ''rounded-e'', ''rounded-t'', ''rounded-r'', ''rounded-b'',
       ''rounded-l'', ''rounded-ss'', ''rounded-se'', ''rounded-ee'', ''rounded-es'',
       ''rounded-tl'', ''rounded-tr'', ''rounded-br'', ''rounded-bl'']),
      (''rounded-s'', [''rounded-ss'', ''rounded-es'']),
      (''rounded-e'', [''rounded-se'', ''rounded-ee'']),
      (''rounded-t'', [''rounded-tl'', ''rounded-tr'']),
      (''rounded-r'', [''rounded-tr'', ''rounded-br'']),
      (''rounded-b'', [''rounded-br'', ''rounded-bl'']),
      (''rounded-l'', [''rounded-tl'', ''rounded-bl'']),
      (''border-spacing'', [''border-spacing-x'', ''border-spacing-y'']),
      (''border-w'', [''border-w-s'', ''border-w-e'', ''border-w-t'', ''border-w-r'', ''border-w-b'',
       ''border-w-l'']),
      (''border-w-x'', [''border-w-r'', ''border-w-l'']),
      (''border-w-y'', [''border-w-t'', ''border-w-b'']),
      (''border-color'', [''border-color-s'', ''border-color-e'', ''border-color-t'', ''border-color-r'',
       ''border-color-b'', ''border-color-l'']),
      (''border-color-x'', [''border-color-r'', ''border-color-l'']),
      (''border-color-y'', [''border-color-t'', ''border-color-b'']),
      (''scroll-m'', [''scroll-mx'', ''scroll-my'', ''scroll-ms'', ''scroll-me'', ''scroll-mt'',
       ''scroll-mr'', ''scroll-mb'', ''scroll-ml'']),
      (''scroll-mx'', [''scroll-mr'', ''scroll-ml'']),
      (''scroll-my'', [''scroll-mt'', ''scroll-mb'']),
      (''scroll-p'', [''scroll-px'', ''scroll-py'', ''scroll-ps'', ''scroll-pe'', ''scroll-pt'',
       ''scroll-pr'', ''scroll-pb'', ''scroll-pl'']),
      (''scroll-px'', [''scroll-pr'', ''scroll-pl'']),
      (''scroll-py'', [''scroll-pt'', ''scroll-pb'']),
      (''touch'', [''touch-x'', ''touch-y'', ''touch-pz'']),
      (''touch-x'', [''touch'']),
      (''touch-y'', [''touch'']),
      (''touch-pz'', [''touch''])]"

definition default_conflict_modifiers :: "(string \<times> string list) list" where
  "default_conflict_modifiers =
     [(''font-size'', [''leading''])]"

definition getDefaultConfig :: tw_config where
  "getDefaultConfig =
     \<lparr>cacheSize = 500, prefix_of = None, separator = '':'', theme = default_theme,
      classGroups = default_class_groups, conflictingClassGroups = default_conflicts,
      conflictingClassGroupModifiers = default_conflict_modifiers\<rparr>"

lemmas tw_list_builders =
  getOverscroll_def getOverflow_def getSpacingWithAutoAndArbitrary_def getSpacingWithArbitrary_def
  getLengthWithEmptyAndArbitrary_def getNumberWithAutoAndArbitrary_def getPositions_def
  getLineStyles_def getBlendModes_def getAlign_def getZeroAndEmpty_def getBreaks_def
  getNumberAndArbitrary_def

end
