(* ===== verification/TwClassMap.thy ===== *)
theory TwClassMap
  imports TwConfig
begin

text \<open>
  The class map of the class merger (\<open>ui/.vite/deps/tailwind-merge.js\<close>): a trie over the parts
  of a class name between dashes. Every node keeps its children in insertion order, the
  validators for the rest of a name, and the class group of the name that ends here.
  \<open>createClassMap\<close> builds it from a configuration; \<open>getClassGroupId\<close> reads it.
\<close>

section \<open>Class parts\<close>

datatype class_part =
  ClassPart (next_part: "(string \<times> class_part) list")
    (part_validators: "(tw_validator \<times> string) list") (part_group: "string option")

definition new_part :: class_part where
  "new_part = ClassPart [] [] None"

definition set_group :: "string \<Rightarrow> class_part \<Rightarrow> class_part" where
  "set_group gid p = ClassPart (next_part p) (part_validators p) (Some gid)"

definition push_validator :: "tw_validator \<Rightarrow> string \<Rightarrow> class_part \<Rightarrow> class_part" where
  "push_validator v gid p =
     ClassPart (next_part p) (part_validators p @ [(v, gid)]) (part_group p)"

text \<open>
  \<open>getPart\<close> walks to the part at a path, creating missing parts, and the caller mutates it. The
  model reads the part (a new one where the path is missing) and stores the changed part back.
\<close>

fun get_part :: "string list \<Rightarrow> class_part \<Rightarrow> class_part" where
  "get_part [] p = p"
| "get_part (x # xs) p =
     get_part xs (case al_get (next_part p) x of None \<Rightarrow> new_part | Some q \<Rightarrow> q)"

fun set_part :: "string list \<Rightarrow> class_part \<Rightarrow> class_part \<Rightarrow> class_part" where
  "set_part [] q p = q"
| "set_part (x # xs) q p =
     ClassPart
       (al_set (next_part p) x
         (set_part xs q (case al_get (next_part p) x of None \<Rightarrow> new_part | Some r \<Rightarrow> r)))
       (part_validators p) (part_group p)"

definition part_path :: "string \<Rightarrow> string list" where
  "part_path s = split_on CHR ''-'' s"

section \<open>Building the map\<close>

definition theme_get :: "(string \<times> tw_def list) list \<Rightarrow> string \<Rightarrow> tw_def list" where
  "theme_get th key = (case al_get th key of None \<Rightarrow> [] | Some ds \<Rightarrow> ds)"

text \<open>
  \<open>processClassesRecursively\<close>. A theme getter is replaced by the theme's definitions, so a theme
  that refers to itself recurses for ever; the fuel counts nested theme getters, and \<open>None\<close> is
  the stack overflow of such a theme.
\<close>

function (sequential) process_classes ::
    "nat \<Rightarrow> (string \<times> tw_def list) list \<Rightarrow> tw_def list \<Rightarrow> string \<Rightarrow> class_part \<Rightarrow> class_part option"
and process_entries ::
    "nat \<Rightarrow> (string \<times> tw_def list) list \<Rightarrow> (string \<times> tw_def list) list \<Rightarrow> string \<Rightarrow> class_part
      \<Rightarrow> class_part option"
where
  "process_classes n th [] gid p = Some p"
| "process_classes n th (CStr s # ds) gid p =
     process_classes n th ds gid
       (if s = [] then set_group gid p
        else set_part (part_path s) (set_group gid (get_part (part_path s) p)) p)"
| "process_classes n th (CFun v # ds) gid p = process_classes n th ds gid (push_validator v gid p)"
| "process_classes n th (CTheme key # ds) gid p =
     (case n of
        0 \<Rightarrow> None
      | Suc m \<Rightarrow>
         (case process_classes m th (theme_get th key) gid p of
            None \<Rightarrow> None
          | Some p' \<Rightarrow> process_classes n th ds gid p'))"
| "process_classes n th (CObj es # ds) gid p =
     (case process_entries n th es gid p of
        None \<Rightarrow> None
      | Some p' \<Rightarrow> process_classes n th ds gid p')"
| "process_entries n th [] gid p = Some p"
| "process_entries n th ((key, ds) # es) gid p =
     (case process_classes n th ds gid (get_part (part_path key) p) of
        None \<Rightarrow> None
      | Some q \<Rightarrow> process_entries n th es gid (set_part (part_path key) q p))"
  by pat_completeness auto
termination
  by (relation "inv_image (less_than <*lex*> less_than)
      (case_sum (\<lambda>(n, th, ds, gid, p). (n, size_list size ds))
        (\<lambda>(n, th, es, gid, p). (n, size_list (size_prod (\<lambda>_. 0) (size_list size)) es)))")
    (auto simp: wf_inv_image wf_lex_prod)

definition prefix_def :: "string \<Rightarrow> tw_def \<Rightarrow> tw_def" where
  "prefix_def pre d = (case d of
       CStr s \<Rightarrow> CStr (pre @ s)
     | CObj es \<Rightarrow> CObj (map (\<lambda>(k, v). (pre @ k, v)) es)
     | _ \<Rightarrow> d)"

definition getPrefixedClassGroupEntries ::
    "(string \<times> tw_def list) list \<Rightarrow> string option \<Rightarrow> (string \<times> tw_def list) list" where
  "getPrefixedClassGroupEntries entries pre =
     (if pre = None \<or> pre = Some [] then entries
      else map (\<lambda>(gid, ds). (gid, map (prefix_def (the pre)) ds)) entries)"

fun process_groups ::
    "nat \<Rightarrow> (string \<times> tw_def list) list \<Rightarrow> (string \<times> tw_def list) list \<Rightarrow> class_part \<Rightarrow> class_part option"
where
  "process_groups n th [] p = Some p"
| "process_groups n th ((gid, ds) # gs) p =
     (case process_classes n th ds gid p of
        None \<Rightarrow> None
      | Some p' \<Rightarrow> process_groups n th gs p')"

definition createClassMap :: "tw_config \<Rightarrow> class_part option" where
  "createClassMap c =
     process_groups (Suc (length (theme c))) (theme c)
       (getPrefixedClassGroupEntries (classGroups c) (prefix_of c)) new_part"

section \<open>Reading the map\<close>

definition find_validator :: "(tw_validator \<times> string) list \<Rightarrow> string \<Rightarrow> string option" where
  "find_validator vs rest = map_option snd (find (\<lambda>(v, g). run_validator v rest) vs)"

definition truthy :: "string option \<Rightarrow> bool" where
  "truthy s = (case s of None \<Rightarrow> False | Some t \<Rightarrow> t \<noteq> [])"

fun getGroupRecursive :: "string list \<Rightarrow> class_part \<Rightarrow> string option" where
  "getGroupRecursive [] p = part_group p"
| "getGroupRecursive (x # xs) p =
     (let r = (case al_get (next_part p) x of None \<Rightarrow> None | Some q \<Rightarrow> getGroupRecursive xs q)
      in if truthy r then r
         else if part_validators p = [] then None
         else find_validator (part_validators p) (join ''-'' (x # xs)))"

definition getGroupIdForArbitraryProperty :: "string \<Rightarrow> string option" where
  "getGroupIdForArbitraryProperty cn =
     (if 3 \<le> length cn \<and> hd cn = CHR ''['' \<and> last cn = CHR '']''
         \<and> list_all (\<lambda>c. \<not> is_line_terminator c) (butlast (tl cn))
      then let inner = butlast (tl cn) in
        (case index_of inner CHR '':'' of
           None \<Rightarrow> None
         | Some i \<Rightarrow> if i = 0 then None else Some (''arbitrary..'' @ take i inner))
      else None)"

definition getClassGroupId :: "class_part \<Rightarrow> string \<Rightarrow> string option" where
  "getClassGroupId m cn =
     (let ps = part_path cn;
          ps' = (if hd ps = [] \<and> length ps \<noteq> 1 then tl ps else ps);
          r = getGroupRecursive ps' m
      in if truthy r then r else getGroupIdForArbitraryProperty cn)"

definition getConflictingClassGroupIds :: "tw_config \<Rightarrow> string \<Rightarrow> bool \<Rightarrow> string list" where
  "getConflictingClassGroupIds c gid hasPostfixModifier =
     (let conflicts = (case al_get (conflictingClassGroups c) gid of None \<Rightarrow> [] | Some gs \<Rightarrow> gs)
      in case al_get (conflictingClassGroupModifiers c) gid of
           Some ms \<Rightarrow> if hasPostfixModifier then conflicts @ ms else conflicts
         | None \<Rightarrow> conflicts)"

section \<open>The contract of the trie\<close>

text \<open>
  What the construction relies on: storing a part at a path changes what is read at and below
  that path and nothing else. \<open>info\<close> is what a node itself carries.
\<close>

locale part_store =
  fixes get :: "'k list \<Rightarrow> 'p \<Rightarrow> 'p"
    and set :: "'k list \<Rightarrow> 'p \<Rightarrow> 'p \<Rightarrow> 'p"
    and info :: "'p \<Rightarrow> 'i"
  assumes get_Nil: "get [] p = p"
    and get_append: "get (xs @ ys) p = get ys (get xs p)"
    and info_set: "info (get ys (set xs q p)) =
      (if prefix xs ys then info (get (drop (length xs) ys) q) else info (get ys p))"
begin

text \<open>Changing only what the node at \<open>xs\<close> itself carries.\<close>

lemma info_set_node:
  assumes "\<And>ys. ys \<noteq> [] \<Longrightarrow> get ys (f (get xs p)) = get ys (get xs p)"
  shows "info (get ys (set xs (f (get xs p)) p)) =
    (if ys = xs then info (f (get xs p)) else info (get ys p))"
proof (cases "prefix xs ys")
  case True
  then obtain zs where zs: "ys = xs @ zs" by (auto simp: prefix_def)
  show ?thesis
  proof (cases "zs = []")
    case True
    with zs show ?thesis by (simp add: info_set get_Nil)
  next
    case False
    then have "info (get ys (set xs (f (get xs p)) p)) = info (get zs (get xs p))"
      using zs assms [of zs] by (simp add: info_set)
    also have "\<dots> = info (get ys p)" using zs by (simp add: get_append)
    finally show ?thesis using False zs by simp
  qed
next
  case False
  then have "ys \<noteq> xs" by auto
  with False show ?thesis by (simp add: info_set)
qed

lemma info_set_below:
  "info (get (xs @ ys) (set xs q p)) = info (get ys q)"
  by (simp add: info_set)

lemma info_set_apart: "\<not> prefix xs ys \<Longrightarrow> info (get ys (set xs q p)) = info (get ys p)"
  by (simp add: info_set)

end

definition part_info :: "class_part \<Rightarrow> string option \<times> (tw_validator \<times> string) list" where
  "part_info p = (part_group p, part_validators p)"

lemma get_part_append: "get_part (xs @ ys) p = get_part ys (get_part xs p)"
  by (induction xs p rule: get_part.induct) auto

lemma set_part_info:
  "part_info (get_part ys (set_part xs q p)) =
     (if prefix xs ys then part_info (get_part (drop (length xs) ys) q)
      else part_info (get_part ys p))"
proof (induction xs arbitrary: ys p)
  case (Cons x xs)
  show ?case
  proof (cases ys)
    case Nil
    then show ?thesis by (simp add: part_info_def)
  next
    case (Cons y zs)
    with Cons.IH show ?thesis by (cases "al_get (next_part p) x") auto
  qed
qed simp

interpretation trie: part_store get_part set_part part_info
  by unfold_locales (simp_all add: get_part_append set_part_info)

section \<open>What a configuration says about a path\<close>

text \<open>
  The declarative reading of a configuration: scanning the definitions in order, the class group
  a path gets (a later definition wins) and the validators at the path (in order). No trie is
  built.
\<close>

type_synonym node_info = "string option \<times> (tw_validator \<times> string) list"

definition info_plus :: "node_info \<Rightarrow> node_info \<Rightarrow> node_info" where
  "info_plus a b = ((case fst b of None \<Rightarrow> fst a | Some g \<Rightarrow> Some g), snd a @ snd b)"

definition str_path :: "string \<Rightarrow> string list" where
  "str_path s = (if s = [] then [] else part_path s)"

function (sequential) scan_defs ::
    "nat \<Rightarrow> (string \<times> tw_def list) list \<Rightarrow> tw_def list \<Rightarrow> string \<Rightarrow> string list \<Rightarrow> node_info"
and scan_entries ::
    "nat \<Rightarrow> (string \<times> tw_def list) list \<Rightarrow> (string \<times> tw_def list) list \<Rightarrow> string \<Rightarrow> string list
      \<Rightarrow> node_info"
where
  "scan_defs n th [] gid ys = (None, [])"
| "scan_defs n th (CStr s # ds) gid ys =
     info_plus (if ys = str_path s then (Some gid, []) else (None, [])) (scan_defs n th ds gid ys)"
| "scan_defs n th (CFun v # ds) gid ys =
     info_plus (if ys = [] then (None, [(v, gid)]) else (None, [])) (scan_defs n th ds gid ys)"
| "scan_defs n th (CTheme key # ds) gid ys =
     info_plus (case n of 0 \<Rightarrow> (None, []) | Suc m \<Rightarrow> scan_defs m th (theme_get th key) gid ys)
       (scan_defs n th ds gid ys)"
| "scan_defs n th (CObj es # ds) gid ys =
     info_plus (scan_entries n th es gid ys) (scan_defs n th ds gid ys)"
| "scan_entries n th [] gid ys = (None, [])"
| "scan_entries n th ((key, ds) # es) gid ys =
     info_plus
       (let kp = part_path key in
        if starts_with ys kp then scan_defs n th ds gid (drop (length kp) ys) else (None, []))
       (scan_entries n th es gid ys)"
  by pat_completeness auto
termination
  by (relation "inv_image (less_than <*lex*> less_than)
      (case_sum (\<lambda>(n, th, ds, gid, ys). (n, size_list size ds))
        (\<lambda>(n, th, es, gid, ys). (n, size_list (size_prod (\<lambda>_. 0) (size_list size)) es)))")
    (auto simp: wf_inv_image wf_lex_prod)

fun scan_groups ::
    "nat \<Rightarrow> (string \<times> tw_def list) list \<Rightarrow> (string \<times> tw_def list) list \<Rightarrow> string list \<Rightarrow> node_info"
where
  "scan_groups n th [] ys = (None, [])"
| "scan_groups n th ((gid, ds) # gs) ys =
     info_plus (scan_defs n th ds gid ys) (scan_groups n th gs ys)"

lemma info_plus_assoc: "info_plus (info_plus a b) c = info_plus a (info_plus b c)"
  by (auto simp: info_plus_def split: option.splits)

lemma info_plus_unit [simp]: "info_plus (None, []) a = a" "info_plus a (None, []) = a"
  by (cases a; auto simp: info_plus_def split: option.splits)+

lemma scan_groups_append:
  "scan_groups n th (gs @ hs) ys = info_plus (scan_groups n th gs ys) (scan_groups n th hs ys)"
  by (induction gs) (auto simp: info_plus_assoc)

lemma get_part_set_group: "ys \<noteq> [] \<Longrightarrow> get_part ys (set_group g p) = get_part ys p"
  by (cases ys) (auto simp: set_group_def)

lemma get_part_push_validator: "ys \<noteq> [] \<Longrightarrow> get_part ys (push_validator v g p) = get_part ys p"
  by (cases ys) (auto simp: push_validator_def)

lemma info_set_group: "part_info (set_group g p) = info_plus (part_info p) (Some g, [])"
  by (simp add: part_info_def set_group_def info_plus_def)

lemma info_push_validator:
  "part_info (push_validator v g p) = info_plus (part_info p) (None, [(v, g)])"
  by (simp add: part_info_def push_validator_def info_plus_def)

text \<open>One literal definition, as the construction stores it.\<close>

lemma info_store_group:
  "part_info (get_part ys (set_part xs (set_group g (get_part xs p)) p)) =
     info_plus (part_info (get_part ys p)) (if ys = xs then (Some g, []) else (None, []))"
  using trie.info_set_node [of "set_group g" xs p ys]
  by (simp add: get_part_set_group info_set_group)

lemma info_push_root:
  "part_info (get_part ys (push_validator v g p)) =
     info_plus (part_info (get_part ys p)) (if ys = [] then (None, [(v, g)]) else (None, []))"
  by (cases "ys = []") (simp_all add: info_push_validator get_part_push_validator)

text \<open>The construction stores exactly what the scan reads.\<close>

lemma process_info:
  "process_classes n th ds gid p = Some p' \<Longrightarrow>
     part_info (get_part ys p') = info_plus (part_info (get_part ys p)) (scan_defs n th ds gid ys)"
  "process_entries n th es gid p = Some p' \<Longrightarrow>
     part_info (get_part ys p') = info_plus (part_info (get_part ys p)) (scan_entries n th es gid ys)"
proof (induction n th ds gid p and n th es gid p arbitrary: p' ys and p' ys
    rule: process_classes_process_entries.induct)
  case (2 n th s ds gid p)
  then show ?case
    using info_store_group [of ys "[]" gid p]
    by (auto simp: str_path_def info_store_group info_plus_assoc split: if_splits)
next
  case (3 n th v ds gid p)
  then show ?case by (simp add: info_push_root info_plus_assoc)
next
  case (4 n th key ds gid p)
  then obtain m q where n: "n = Suc m"
    and q: "process_classes m th (theme_get th key) gid p = Some q"
    and rest: "process_classes n th ds gid q = Some p'"
    by (cases n) (auto split: option.splits)
  from 4(1) [OF n q, of ys] 4(2) [OF n q rest, of ys] show ?case
    unfolding scan_defs.simps n nat.case by (simp only: info_plus_assoc)
next
  case (5 n th es ds gid p)
  then obtain q where q: "process_entries n th es gid p = Some q"
    and rest: "process_classes n th ds gid q = Some p'"
    by (auto split: option.splits)
  from 5(1) [OF q, of ys] 5(2) [OF q rest, of ys] show ?case
    by (simp only: scan_defs.simps info_plus_assoc)
next
  case (7 n th key ds es gid p)
  then obtain q where q: "process_classes n th ds gid (get_part (part_path key) p) = Some q"
    and rest: "process_entries n th es gid (set_part (part_path key) q p) = Some p'"
    by (auto split: option.splits)
  have "part_info (get_part ys (set_part (part_path key) q p)) =
      info_plus (part_info (get_part ys p))
        (if prefix (part_path key) ys then scan_defs n th ds gid (drop (length (part_path key)) ys)
         else (None, []))"
  proof (cases "prefix (part_path key) ys")
    case True
    then obtain zs where zs: "ys = part_path key @ zs" by (auto simp: prefix_def)
    have "part_info (get_part ys (set_part (part_path key) q p)) = part_info (get_part zs q)"
      unfolding zs by (rule trie.info_set_below)
    also have "\<dots> = info_plus (part_info (get_part zs (get_part (part_path key) p)))
        (scan_defs n th ds gid zs)"
      by (rule 7(1) [OF q])
    finally show ?thesis using zs by (simp add: get_part_append)
  next
    case False
    then show ?thesis by (simp add: trie.info_set_apart)
  qed
  with 7(2) [OF q rest, of ys] show ?case
    by (simp add: Let_def starts_with_prefix info_plus_assoc)
qed simp_all

lemma process_groups_info:
  "process_groups n th gs p = Some p' \<Longrightarrow>
     part_info (get_part ys p') = info_plus (part_info (get_part ys p)) (scan_groups n th gs ys)"
  by (induction gs arbitrary: p) (auto simp: process_info info_plus_assoc split: option.splits)

section \<open>Enough fuel\<close>

text \<open>Whether theme getters nest no deeper than the fuel, decided without building the map.\<close>

function (sequential) theme_ok :: "nat \<Rightarrow> (string \<times> tw_def list) list \<Rightarrow> tw_def list \<Rightarrow> bool"
and theme_ok_entries :: "nat \<Rightarrow> (string \<times> tw_def list) list \<Rightarrow> (string \<times> tw_def list) list \<Rightarrow> bool"
where
  "theme_ok n th [] = True"
| "theme_ok n th (CStr s # ds) = theme_ok n th ds"
| "theme_ok n th (CFun v # ds) = theme_ok n th ds"
| "theme_ok n th (CTheme key # ds) =
     ((case n of 0 \<Rightarrow> False | Suc m \<Rightarrow> theme_ok m th (theme_get th key)) \<and> theme_ok n th ds)"
| "theme_ok n th (CObj es # ds) = (theme_ok_entries n th es \<and> theme_ok n th ds)"
| "theme_ok_entries n th [] = True"
| "theme_ok_entries n th ((key, ds) # es) = (theme_ok n th ds \<and> theme_ok_entries n th es)"
  by pat_completeness auto
termination
  by (relation "inv_image (less_than <*lex*> less_than)
      (case_sum (\<lambda>(n, th, ds). (n, size_list size ds))
        (\<lambda>(n, th, es). (n, size_list (size_prod (\<lambda>_. 0) (size_list size)) es)))")
    (auto simp: wf_inv_image wf_lex_prod)

lemma process_total:
  "theme_ok n th ds \<Longrightarrow> \<exists>p'. process_classes n th ds gid p = Some p'"
  "theme_ok_entries n th es \<Longrightarrow> \<exists>p'. process_entries n th es gid p = Some p'"
proof (induction n th ds gid p and n th es gid p rule: process_classes_process_entries.induct)
  case (4 n th key ds gid p)
  then show ?case by (cases n) fastforce+
qed fastforce+

lemma process_groups_total:
  "list_all (\<lambda>(g, ds). theme_ok n th ds) gs \<Longrightarrow> \<exists>p'. process_groups n th gs p = Some p'"
proof (induction gs arbitrary: p)
  case (Cons g gs)
  obtain gid ds where g: "g = (gid, ds)" by force
  with Cons.prems have "theme_ok n th ds" by simp
  then obtain p' where "process_classes n th ds gid p = Some p'"
    using process_total(1) by blast
  with Cons g show ?case by simp
qed simp

section \<open>Lookup in the map is lookup in the configuration\<close>

fun ref_lookup :: "(string list \<Rightarrow> node_info) \<Rightarrow> string list \<Rightarrow> string list \<Rightarrow> string option" where
  "ref_lookup node pre [] = fst (node pre)"
| "ref_lookup node pre (x # xs) =
     (let r = ref_lookup node (pre @ [x]) xs in
      if truthy r then r else find_validator (snd (node pre)) (join ''-'' (x # xs)))"

lemma get_part_new: "get_part xs new_part = new_part"
  by (induction xs) (simp_all add: new_part_def)

lemma getGroupRecursive_new: "getGroupRecursive xs new_part = None"
  by (cases xs) (auto simp: new_part_def truthy_def)

lemma getGroupRecursive_ref:
  "getGroupRecursive xs (get_part pre p) = ref_lookup (\<lambda>ys. part_info (get_part ys p)) pre xs"
proof (induction xs arbitrary: pre)
  case Nil
  show ?case by (simp add: part_info_def)
next
  case (Cons x xs)
  let ?q = "get_part pre p"
  have child: "(case al_get (next_part ?q) x of None \<Rightarrow> None | Some r \<Rightarrow> getGroupRecursive xs r) =
      getGroupRecursive xs (get_part (pre @ [x]) p)"
    by (simp add: get_part_append getGroupRecursive_new split: option.splits)
  show ?case
    unfolding getGroupRecursive.simps ref_lookup.simps child Cons.IH [of "pre @ [x]"] Let_def
    by (simp add: part_info_def find_validator_def)
qed

lemma createClassMap_lookup:
  assumes "createClassMap c = Some m"
  shows "getGroupRecursive xs m =
    ref_lookup (scan_groups (Suc (length (theme c))) (theme c)
      (getPrefixedClassGroupEntries (classGroups c) (prefix_of c))) [] xs"
proof -
  let ?gs = "getPrefixedClassGroupEntries (classGroups c) (prefix_of c)"
  have "part_info (get_part ys m) = scan_groups (Suc (length (theme c))) (theme c) ?gs ys" for ys
    using process_groups_info [of "Suc (length (theme c))" "theme c" ?gs new_part m ys] assms
    by (simp add: createClassMap_def get_part_new) (simp add: part_info_def new_part_def)
  then show ?thesis
    using getGroupRecursive_ref [of xs "[]" m] by simp
qed

end
