(* ===== verification/TwMerge.thy ===== *)
theory TwMerge
  imports TwClassMap "HOL-Library.Multiset"
begin

text \<open>
  The class merger itself (\<open>ui/.vite/deps/tailwind-merge.js\<close>): the two-generation cache, the
  class name parser, the merge of a class list from right to left, the joining of arguments, and
  the lazily initialised, memoised \<open>twMerge\<close> that \<open>cn\<close> calls. Configuration merging is modelled
  at the end.
\<close>

section \<open>The cache\<close>

record lru =
  max_size :: int
  cache_size :: int
  cache :: "(string \<times> string) list"
  previous_cache :: "(string \<times> string) list"

definition createLruCache :: "int \<Rightarrow> lru" where
  "createLruCache n = \<lparr>max_size = n, cache_size = 0, cache = [], previous_cache = []\<rparr>"

definition lru_update :: "string \<Rightarrow> string \<Rightarrow> lru \<Rightarrow> lru" where
  "lru_update k v c =
     (let c' = c\<lparr>cache := al_set (cache c) k v, cache_size := cache_size c + 1\<rparr> in
      if max_size c < cache_size c'
      then c'\<lparr>cache_size := 0, previous_cache := cache c', cache := []\<rparr>
      else c')"

definition lru_get :: "string \<Rightarrow> lru \<Rightarrow> string option \<times> lru" where
  "lru_get k c =
     (if max_size c < 1 then (None, c)
      else case al_get (cache c) k of
          Some v \<Rightarrow> (Some v, c)
        | None \<Rightarrow>
           (case al_get (previous_cache c) k of
              Some v \<Rightarrow> (Some v, lru_update k v c)
            | None \<Rightarrow> (None, c)))"

definition lru_set :: "string \<Rightarrow> string \<Rightarrow> lru \<Rightarrow> lru" where
  "lru_set k v c =
     (if max_size c < 1 then c
      else if al_has (cache c) k then c\<lparr>cache := al_set (cache c) k v\<rparr>
      else lru_update k v c)"

section \<open>Parsing a class name\<close>

record parsed =
  modifiers :: "string list"
  hasImportantModifier :: bool
  baseClassName :: string
  maybePostfixModifierPosition :: "nat option"

primrec parse_loop ::
    "string \<Rightarrow> string \<Rightarrow> string \<Rightarrow> nat \<Rightarrow> int \<Rightarrow> nat \<Rightarrow> nat option \<Rightarrow> string list
      \<Rightarrow> string list \<times> nat \<times> nat option"
where
  "parse_loop sep cn [] index depth mstart post mods = (mods, mstart, post)"
| "parse_loop sep cn (c # r) index depth mstart post mods =
     (if depth = 0 \<and> sep \<noteq> [] \<and> c = hd sep
         \<and> (length sep = 1 \<or> str_slice index (index + length sep) cn = sep)
      then parse_loop sep cn r (Suc index) depth (index + length sep) post
             (mods @ [str_slice mstart index cn])
      else if depth = 0 \<and> c = CHR ''/''
      then parse_loop sep cn r (Suc index) depth mstart (Some index) mods
      else parse_loop sep cn r (Suc index)
             (if c = CHR ''['' then depth + 1 else if c = CHR '']'' then depth - 1 else depth)
             mstart post mods)"

definition parseClassName :: "string \<Rightarrow> string \<Rightarrow> parsed" where
  "parseClassName sep cn =
     (case parse_loop sep cn cn 0 0 0 None [] of (mods, mstart, post) \<Rightarrow>
       let base = (if mods = [] then cn else drop mstart cn);
           important = starts_with base ''!''
       in \<lparr>modifiers = mods, hasImportantModifier = important,
           baseClassName = (if important then tl base else base),
           maybePostfixModifierPosition =
             (case post of None \<Rightarrow> None | Some q \<Rightarrow> if mstart < q then Some (q - mstart) else None)\<rparr>)"

text \<open>
  \<open>sortModifiers\<close>: runs of ordinary modifiers are sorted by code units, arbitrary variants keep
  their place.
\<close>

fun sort_modifiers_loop :: "string list \<Rightarrow> string list \<Rightarrow> string list \<Rightarrow> string list" where
  "sort_modifiers_loop [] done todo = done @ sort todo"
| "sort_modifiers_loop (m # ms) done todo =
     (if starts_with m ''['' then sort_modifiers_loop ms (done @ sort todo @ [m]) []
      else sort_modifiers_loop ms done (todo @ [m]))"

definition sortModifiers :: "string list \<Rightarrow> string list" where
  "sortModifiers ms = (if length ms \<le> 1 then ms else sort_modifiers_loop ms [] [])"

section \<open>Merging a class list\<close>

text \<open>
  What the loop body of \<open>mergeClassList\<close> computes for one class name: \<open>None\<close> for a class of no
  known group, otherwise its class id and the ids it puts in conflict. \<open>groupId\<close> is the \<open>getClassGroupId\<close> of the
  utilities.
\<close>

definition classify ::
    "tw_config \<Rightarrow> (string \<Rightarrow> string option) \<Rightarrow> string \<Rightarrow> (string \<times> string list) option" where
  "classify cfg groupId cn =
     (let p = parseClassName (separator cfg) cn;
          base = baseClassName p;
          g = groupId
                (case maybePostfixModifierPosition p of None \<Rightarrow> base | Some q \<Rightarrow> take q base);
          (gid, postfix) =
            (if truthy g then (g, maybePostfixModifierPosition p \<noteq> None)
             else if maybePostfixModifierPosition p = None then (None, False)
             else (groupId base, False));
          variant = join '':'' (sortModifiers (modifiers p));
          modifierId = (if hasImportantModifier p then variant @ ''!'' else variant)
      in if truthy gid
         then Some (modifierId @ the gid,
                    map (\<lambda>h. modifierId @ h) (getConflictingClassGroupIds cfg (the gid) postfix))
         else None)"

definition prepend_class :: "string \<Rightarrow> string \<Rightarrow> string" where
  "prepend_class cn result = cn @ (if result \<noteq> [] then CHR '' '' # result else result)"

text \<open>The loop runs over the class names from the last to the first.\<close>

fun merge_loop ::
    "(string \<Rightarrow> (string \<times> string list) option) \<Rightarrow> string list \<Rightarrow> string list \<Rightarrow> string \<Rightarrow> string"
where
  "merge_loop cl [] inconflict result = result"
| "merge_loop cl (cn # cns) inconflict result =
     (case cl cn of
        None \<Rightarrow> merge_loop cl cns inconflict (prepend_class cn result)
      | Some (classId, conflicts) \<Rightarrow>
          if classId \<in> set inconflict then merge_loop cl cns inconflict result
          else merge_loop cl cns (inconflict @ classId # conflicts) (prepend_class cn result))"

definition class_names :: "string \<Rightarrow> string list" where
  "class_names classList = split_ws (trim classList)"

definition mergeClassList :: "tw_config \<Rightarrow> class_part \<Rightarrow> string \<Rightarrow> string" where
  "mergeClassList cfg m classList = merge_loop (classify cfg (getClassGroupId m)) (rev (class_names classList)) [] []"

section \<open>Joining arguments\<close>

text \<open>A class value: a string, a falsy value, or an array of class values.\<close>

datatype class_value = CVStr string | CVFalsy | CVArr "class_value list"

definition cv_truthy :: "class_value \<Rightarrow> bool" where
  "cv_truthy v = (case v of CVStr s \<Rightarrow> s \<noteq> [] | CVFalsy \<Rightarrow> False | CVArr _ \<Rightarrow> True)"

definition append_class :: "string \<Rightarrow> string \<Rightarrow> string" where
  "append_class acc r = (if r = [] then acc else (if acc = [] then acc else acc @ '' '') @ r)"

fun toValue :: "class_value \<Rightarrow> string" and toValues :: "class_value list \<Rightarrow> string \<Rightarrow> string" where
  "toValue (CVStr s) = s"
| "toValue CVFalsy = []"
| "toValue (CVArr vs) = toValues vs []"
| "toValues [] acc = acc"
| "toValues (v # vs) acc = toValues vs (if cv_truthy v then append_class acc (toValue v) else acc)"

definition twJoin :: "class_value list \<Rightarrow> string" where
  "twJoin args = toValues args []"

section \<open>The memoised merger\<close>

record tw_utils =
  u_config :: tw_config
  u_map :: class_part
  u_cache :: lru

text \<open>
  \<open>createTailwindMerge\<close> closes over \<open>configUtils\<close> and the function to call next. Before the first
  call the utilities do not exist; \<open>None\<close> as a result is the exception of a configuration whose
  class map cannot be built.
\<close>

datatype tw_instance = TwInit "tw_config" | TwReady tw_utils

definition createConfig :: "tw_config \<Rightarrow> (tw_config \<Rightarrow> tw_config) list \<Rightarrow> tw_config" where
  "createConfig first rest = foldl (\<lambda>c f. f c) first rest"

definition createTailwindMerge :: "tw_config \<Rightarrow> (tw_config \<Rightarrow> tw_config) list \<Rightarrow> tw_instance" where
  "createTailwindMerge first rest = TwInit (createConfig first rest)"

definition createConfigUtils :: "tw_config \<Rightarrow> tw_utils option" where
  "createConfigUtils cfg =
     map_option (\<lambda>m. \<lparr>u_config = cfg, u_map = m, u_cache = createLruCache (cacheSize cfg)\<rparr>)
       (createClassMap cfg)"

definition tailwindMerge :: "string \<Rightarrow> tw_utils \<Rightarrow> string \<times> tw_utils" where
  "tailwindMerge classList u =
     (case lru_get classList (u_cache u) of (cached, c) \<Rightarrow>
        if truthy cached then (the cached, u\<lparr>u_cache := c\<rparr>)
        else let result = mergeClassList (u_config u) (u_map u) classList
             in (result, u\<lparr>u_cache := lru_set classList result c\<rparr>))"

definition callTailwindMerge ::
    "class_value list \<Rightarrow> tw_instance \<Rightarrow> (string \<times> tw_instance) option" where
  "callTailwindMerge args inst =
     (case inst of
        TwReady u \<Rightarrow> (case tailwindMerge (twJoin args) u of (r, u') \<Rightarrow> Some (r, TwReady u'))
      | TwInit cfg \<Rightarrow>
         (case createConfigUtils cfg of
            None \<Rightarrow> None
          | Some u \<Rightarrow> (case tailwindMerge (twJoin args) u of (r, u') \<Rightarrow> Some (r, TwReady u'))))"

text \<open>A history of calls, each with the result it returned.\<close>

fun run_calls :: "class_value list list \<Rightarrow> tw_instance \<Rightarrow> (string list \<times> tw_instance) option" where
  "run_calls [] inst = Some ([], inst)"
| "run_calls (a # as) inst =
     (case callTailwindMerge a inst of
        None \<Rightarrow> None
      | Some (r, inst') \<Rightarrow> map_option (\<lambda>(rs, i). (r # rs, i)) (run_calls as inst'))"

definition twMerge_instance :: tw_instance where
  "twMerge_instance = createTailwindMerge getDefaultConfig []"

section \<open>Configuration merging\<close>

text \<open>
  The extension argument of \<open>mergeConfigs\<close>; an absent or undefined property is \<open>None\<close>. Overrides
  and extensions are given per configuration key.
\<close>

record tw_section =
  s_theme :: "(string \<times> tw_def list option) list"
  s_classGroups :: "(string \<times> tw_def list option) list"
  s_conflicts :: "(string \<times> string list option) list"
  s_conflict_modifiers :: "(string \<times> string list option) list"

record tw_extension =
  e_cacheSize :: "int option"
  e_prefix :: "string option"
  e_separator :: "string option"
  e_extend :: tw_section
  e_override :: tw_section

definition overrideProperty :: "(string \<times> 'a) list \<Rightarrow> string \<Rightarrow> 'a option \<Rightarrow> (string \<times> 'a) list" where
  "overrideProperty base key v = (case v of None \<Rightarrow> base | Some x \<Rightarrow> al_set base key x)"

fun overrideConfigProperties ::
    "(string \<times> 'a) list \<Rightarrow> (string \<times> 'a option) list \<Rightarrow> (string \<times> 'a) list" where
  "overrideConfigProperties base [] = base"
| "overrideConfigProperties base ((key, v) # es) =
     overrideConfigProperties (overrideProperty base key v) es"

fun mergeConfigProperties ::
    "(string \<times> 'a list) list \<Rightarrow> (string \<times> 'a list option) list \<Rightarrow> (string \<times> 'a list) list" where
  "mergeConfigProperties base [] = base"
| "mergeConfigProperties base ((key, v) # es) =
     mergeConfigProperties
       (case v of
          None \<Rightarrow> base
        | Some xs \<Rightarrow> al_set base key ((case al_get base key of None \<Rightarrow> [] | Some ys \<Rightarrow> ys) @ xs)) es"

definition mergeConfigs :: "tw_config \<Rightarrow> tw_extension \<Rightarrow> tw_config" where
  "mergeConfigs base e =
     (let b1 = base\<lparr>cacheSize := (case e_cacheSize e of None \<Rightarrow> cacheSize base | Some n \<Rightarrow> n),
                    prefix_of := (case e_prefix e of None \<Rightarrow> prefix_of base | Some p \<Rightarrow> Some p),
                    separator := (case e_separator e of None \<Rightarrow> separator base | Some s \<Rightarrow> s)\<rparr>;
          ov = e_override e; ex = e_extend e;
          b2 = b1\<lparr>theme := overrideConfigProperties (theme b1) (s_theme ov),
                  classGroups := overrideConfigProperties (classGroups b1) (s_classGroups ov),
                  conflictingClassGroups :=
                    overrideConfigProperties (conflictingClassGroups b1) (s_conflicts ov),
                  conflictingClassGroupModifiers :=
                    overrideConfigProperties (conflictingClassGroupModifiers b1)
                      (s_conflict_modifiers ov)\<rparr>
      in b2\<lparr>theme := mergeConfigProperties (theme b2) (s_theme ex),
            classGroups := mergeConfigProperties (classGroups b2) (s_classGroups ex),
            conflictingClassGroups := mergeConfigProperties (conflictingClassGroups b2) (s_conflicts ex),
            conflictingClassGroupModifiers :=
              mergeConfigProperties (conflictingClassGroupModifiers b2) (s_conflict_modifiers ex)\<rparr>)"

definition extendTailwindMerge :: "tw_extension \<Rightarrow> (tw_config \<Rightarrow> tw_config) list \<Rightarrow> tw_instance" where
  "extendTailwindMerge ext rest = createTailwindMerge (mergeConfigs getDefaultConfig ext) rest"

section \<open>The contract of a memo cache\<close>

text \<open>
  What \<open>tailwindMerge\<close> relies on: a cache invents nothing. \<open>holds c k v\<close> says that \<open>v\<close> is stored
  for \<open>k\<close> somewhere in \<open>c\<close>; reading returns only stored values and stores nothing new, writing adds
  one pair. Nothing is promised about how long an entry stays.
\<close>

locale memo_cache =
  fixes get :: "'k \<Rightarrow> 'c \<Rightarrow> 'v option \<times> 'c"
    and put :: "'k \<Rightarrow> 'v \<Rightarrow> 'c \<Rightarrow> 'c"
    and holds :: "'c \<Rightarrow> 'k \<Rightarrow> 'v \<Rightarrow> bool"
  assumes get_holds: "get k c = (Some v, c') \<Longrightarrow> holds c k v"
    and get_keeps: "get k c = (r, c') \<Longrightarrow> holds c' k' v' \<Longrightarrow> holds c k' v'"
    and put_adds: "holds (put k v c) k' v' \<Longrightarrow> (k' = k \<and> v' = v) \<or> holds c k' v'"
begin

lemma get_coherent:
  assumes "\<forall>k v. holds c k v \<longrightarrow> v = f k" and "get k c = (r, c')"
  shows "\<forall>k v. holds c' k v \<longrightarrow> v = f k"
  using assms get_keeps by blast

lemma put_coherent:
  assumes "\<forall>k v. holds c k v \<longrightarrow> v = f k"
  shows "\<forall>k' v. holds (put k (f k) c) k' v \<longrightarrow> v = f k'"
  using assms put_adds by blast

lemma get_answer:
  assumes "\<forall>k v. holds c k v \<longrightarrow> v = f k" and "get k c = (Some v, c')"
  shows "v = f k"
  using assms get_holds by blast

end

definition lru_holds :: "lru \<Rightarrow> string \<Rightarrow> string \<Rightarrow> bool" where
  "lru_holds c k v \<longleftrightarrow> al_get (cache c) k = Some v \<or> al_get (previous_cache c) k = Some v"

lemma lru_update_holds:
  "lru_holds (lru_update k v c) k' v' \<Longrightarrow> (k' = k \<and> v' = v) \<or> lru_holds c k' v'"
  by (auto simp: lru_holds_def lru_update_def Let_def split: if_splits)

interpretation lruc: memo_cache lru_get lru_set lru_holds
proof (unfold_locales, goal_cases)
  case (1 k c v c')
  then show ?case by (auto simp: lru_get_def lru_holds_def split: if_splits option.splits)
next
  case (2 k c r c' k' v')
  show ?case
  proof (cases "c' = c")
    case False
    with 2(1) obtain w where w: "al_get (previous_cache c) k = Some w" and c': "c' = lru_update k w c"
      by (cases "al_get (cache c) k"; cases "al_get (previous_cache c) k")
        (simp_all add: lru_get_def split: if_splits)
    from 2(2) c' have "(k' = k \<and> v' = w) \<or> lru_holds c k' v'"
      using lru_update_holds by blast
    with w show ?thesis by (auto simp: lru_holds_def)
  qed (use 2 in simp)
next
  case (3 k v c k' v')
  then show ?case
    by (auto simp: lru_set_def dest: lru_update_holds split: if_splits)
      (auto simp: lru_holds_def split: if_splits)
qed

text \<open>The cache is bounded, and counts the keys of its current generation.\<close>

definition lru_ok :: "lru \<Rightarrow> bool" where
  "lru_ok c \<longleftrightarrow> cache_size c = int (length (cache c)) \<and> (0 < max_size c \<longrightarrow> cache_size c \<le> max_size c)
     \<and> (max_size c \<le> 0 \<longrightarrow> cache c = [] \<and> previous_cache c = [])
     \<and> int (length (previous_cache c)) \<le> max 0 (max_size c) + 1"

lemma lru_update_ok:
  "lru_ok c \<Longrightarrow> 0 < max_size c \<Longrightarrow> \<not> al_has (cache c) k \<Longrightarrow> lru_ok (lru_update k v c)"
  by (auto simp: lru_ok_def lru_update_def Let_def al_set_length)

lemma lru_get_ok: "lru_ok c \<Longrightarrow> lru_ok (snd (lru_get k c))"
  by (auto simp: lru_get_def al_has_def intro!: lru_update_ok split: option.splits)

lemma lru_set_ok: "lru_ok c \<Longrightarrow> lru_ok (lru_set k v c)"
  by (auto simp: lru_set_def intro!: lru_update_ok) (auto simp: lru_ok_def al_set_length)

lemma lru_create_ok: "lru_ok (createLruCache n)"
  by (simp add: lru_ok_def createLruCache_def)

lemma lru_update_max [simp]: "max_size (lru_update k v c) = max_size c"
  by (simp add: lru_update_def Let_def)

lemma lru_get_max [simp]: "max_size (snd (lru_get k c)) = max_size c"
  by (simp add: lru_get_def split: option.splits)

lemma lru_set_max [simp]: "max_size (lru_set k v c) = max_size c"
  by (simp add: lru_set_def)

section \<open>The reference merge\<close>

text \<open>
  The declarative reading of the merge: going through the classes from the right, a class stays
  unless a class that stays further right has the same id or names it among its conflicts.
\<close>

definition blocked_ids :: "(string \<Rightarrow> (string \<times> string list) option) \<Rightarrow> string list \<Rightarrow> string set" where
  "blocked_ids cl ks = (\<Union>k \<in> set ks. case cl k of None \<Rightarrow> {} | Some (i, cs) \<Rightarrow> insert i (set cs))"

definition overridden ::
    "(string \<Rightarrow> (string \<times> string list) option) \<Rightarrow> string list \<Rightarrow> string \<Rightarrow> bool" where
  "overridden cl ks cn = (case cl cn of None \<Rightarrow> False | Some (i, cs) \<Rightarrow> i \<in> blocked_ids cl ks)"

definition ref_step ::
    "(string \<Rightarrow> (string \<times> string list) option) \<Rightarrow> string \<Rightarrow> string list \<Rightarrow> string list" where
  "ref_step cl cn ks = (if overridden cl ks cn then ks else cn # ks)"

definition ref_merge ::
    "(string \<Rightarrow> (string \<times> string list) option) \<Rightarrow> string list \<Rightarrow> string list" where
  "ref_merge cl cns = foldr (ref_step cl) cns []"

lemma ref_merge_simps [simp]:
  "ref_merge cl [] = []"
  "ref_merge cl (cn # cns) = ref_step cl cn (ref_merge cl cns)"
  by (simp_all add: ref_merge_def)

lemma ref_merge_subset: "set (ref_merge cl cns) \<subseteq> set cns"
  by (induction cns) (auto simp: ref_step_def)

lemma ref_merge_subseq: "subseq (ref_merge cl cns) cns"
  by (induction cns) (auto simp: ref_step_def)

lemma ref_merge_idem: "ref_merge cl (ref_merge cl cns) = ref_merge cl cns"
  by (induction cns) (auto simp: ref_step_def)

lemma ref_merge_conflict_free:
  "ref_merge cl cns = xs @ x # ys \<Longrightarrow> \<not> overridden cl ys x"
proof (induction cns arbitrary: xs)
  case (Cons cn cns)
  then show ?case
    by (cases xs) (auto simp: ref_step_def split: if_splits)
qed simp

text \<open>A dropped class is overridden by what stays to its right.\<close>

lemma ref_merge_dropped:
  assumes "cns = as @ cn # bs"
  shows "ref_merge cl cns = foldr (ref_step cl) as
    (if overridden cl (ref_merge cl bs) cn then ref_merge cl bs else cn # ref_merge cl bs)"
  using assms by (simp add: ref_merge_def ref_step_def)

text \<open>The loop computes the reference merge.\<close>

lemma prepend_join:
  "\<forall>k \<in> set ks. k \<noteq> [] \<Longrightarrow> prepend_class cn (join '' '' ks) = join '' '' (cn # ks)"
  by (cases ks) (auto simp: prepend_class_def join_Cons)

lemma blocked_ids_Cons:
  "blocked_ids cl (k # ks) =
     (case cl k of None \<Rightarrow> {} | Some (i, cs) \<Rightarrow> insert i (set cs)) \<union> blocked_ids cl ks"
  by (simp add: blocked_ids_def)

lemma merge_loop_ref:
  assumes "\<forall>k \<in> set ks. k \<noteq> []" and "\<forall>k \<in> set rcns. k \<noteq> []" and "set S = blocked_ids cl ks"
  shows "merge_loop cl rcns S (join '' '' ks) = join '' '' (foldr (ref_step cl) (rev rcns) ks)"
  using assms
proof (induction rcns arbitrary: S ks)
  case (Cons cn rcns)
  show ?case
  proof (cases "overridden cl ks cn")
    case True
    then obtain i cs where "cl cn = Some (i, cs)" "i \<in> set S"
      using Cons.prems(3) by (auto simp: overridden_def split: option.splits)
    with True Cons show ?thesis by (simp add: ref_step_def)
  next
    case False
    have keep: "ref_step cl cn ks = cn # ks" using False by (simp add: ref_step_def)
    show ?thesis
    proof (cases "cl cn")
      case None
      with Cons.prems have "set S = blocked_ids cl (cn # ks)" by (simp add: blocked_ids_Cons)
      with None keep Cons show ?thesis by (simp add: prepend_join)
    next
      case (Some p)
      obtain i cs where p: "p = (i, cs)" by force
      with False Some Cons.prems(3) have "i \<notin> set S" by (simp add: overridden_def)
      moreover have "set (S @ i # cs) = blocked_ids cl (cn # ks)"
        using Some p Cons.prems(3) by (auto simp: blocked_ids_Cons)
      ultimately show ?thesis
        using Some p keep Cons by (simp add: prepend_join)
    qed
  qed
qed simp

section \<open>Class names\<close>

lemma split_ws_pieces_nonempty:
  assumes "s \<noteq> []" and "\<not> is_space (hd s)" and "\<not> is_space (last s)"
  shows "\<forall>w \<in> set (split_ws s). w \<noteq> []"
  using assms
proof (induction s rule: split_ws.induct)
  case (1 s)
  let ?w = "takeWhile (\<lambda>c. \<not> is_space c) s" and ?r = "dropWhile (\<lambda>c. \<not> is_space c) s"
  let ?t = "dropWhile is_space ?r"
  have w: "?w \<noteq> []" using 1(2,3) by (cases s) auto
  have s: "s = ?w @ ?r" by simp
  show ?case
  proof (cases "?r = []")
    case True
    with w show ?thesis by (subst split_ws.simps) (simp add: Let_def)
  next
    case False
    have last_r: "last s = last ?r" using s False by (metis last_appendR)
    have t: "?t \<noteq> []"
    proof
      assume "?t = []"
      then have "\<forall>c \<in> set ?r. is_space c" by (simp only: dropWhile_eq_Nil_conv)
      then have "is_space (last ?r)" using last_in_set [OF False] by blast
      with last_r 1(4) show False by simp
    qed
    moreover have "\<not> is_space (hd ?t)" using hd_dropWhile [OF t] .
    moreover have "last ?t = last ?r"
      using t by (metis last_appendR takeWhile_dropWhile_id)
    ultimately have "\<forall>w \<in> set (split_ws ?t). w \<noteq> []"
      using 1(1) [OF refl refl False] last_r 1(4) by simp
    with w False show ?thesis by (subst split_ws.simps) (simp add: Let_def)
  qed
qed

lemma trim_ends:
  assumes "trim s \<noteq> []"
  shows "\<not> is_space (hd (trim s)) \<and> \<not> is_space (last (trim s))"
proof -
  let ?d = "dropWhile is_space s"
  have ne: "dropWhile is_space (rev ?d) \<noteq> []" using assms by (simp add: trim_def)
  then have last: "\<not> is_space (last (trim s))"
    using hd_dropWhile [OF ne] by (simp add: trim_def last_rev)
  have "?d \<noteq> []" using ne by (metis dropWhile.simps(1) rev.simps(1))
  then have "\<not> is_space (hd ?d)" by (rule hd_dropWhile)
  moreover have "prefix (trim s) ?d"
    by (metis suffix_dropWhile suffix_to_prefix rev_rev_ident trim_def)
  ultimately have "\<not> is_space (hd (trim s))"
    using assms by (metis hd_append2 prefix_def)
  with last show ?thesis by simp
qed

lemma class_names_blank: "trim s = [] \<Longrightarrow> class_names s = [[]]"
  by (simp add: class_names_def split_ws_no_space)

lemma class_names_nonempty: "trim s \<noteq> [] \<Longrightarrow> \<forall>w \<in> set (class_names s). w \<noteq> []"
  unfolding class_names_def using trim_ends split_ws_pieces_nonempty by blast

lemma class_names_no_space: "w \<in> set (class_names s) \<Longrightarrow> c \<in> set w \<Longrightarrow> \<not> is_space c"
  unfolding class_names_def by (rule split_ws_pieces)

lemma join_ends:
  assumes "ws \<noteq> []" and "\<forall>w \<in> set ws. w \<noteq> []"
  shows "join sep ws \<noteq> [] \<and> hd (join sep ws) = hd (hd ws) \<and> last (join sep ws) = last (last ws)"
  using assms
proof (induction sep ws rule: join.induct)
  case (3 sep x y ys)
  then show ?case by (simp add: hd_append)
qed auto

text \<open>Re-reading a joined list of class names gives the names back.\<close>

lemma class_names_join:
  assumes "ws \<noteq> []" and "\<forall>w \<in> set ws. w \<noteq> [] \<and> (\<forall>c \<in> set w. \<not> is_space c)"
  shows "class_names (join '' '' ws) = ws"
proof -
  have ends: "join '' '' ws \<noteq> [] \<and> hd (join '' '' ws) = hd (hd ws) \<and> last (join '' '' ws) = last (last ws)"
    using assms by (intro join_ends) auto
  have "hd (hd ws) \<in> set (hd ws)" "last (last ws) \<in> set (last ws)" using assms by auto
  then have "\<not> is_space (hd (hd ws))" "\<not> is_space (last (last ws))"
    using assms by (meson hd_in_set last_in_set)+
  with ends have "trim (join '' '' ws) = join '' '' ws" by (intro trim_id) simp
  with assms show ?thesis by (simp add: class_names_def split_ws_join)
qed

lemma mergeClassList_ref:
  "mergeClassList cfg m s = join '' '' (ref_merge (classify cfg (getClassGroupId m)) (class_names s))"
proof (cases "trim s = []")
  case True
  then have "class_names s = [[]]" by (rule class_names_blank)
  then show ?thesis
    by (auto simp: mergeClassList_def prepend_class_def ref_step_def split: option.splits)
next
  case False
  have "merge_loop (classify cfg (getClassGroupId m)) (rev (class_names s)) [] (join '' '' []) =
      join '' '' (foldr (ref_step (classify cfg (getClassGroupId m))) (rev (rev (class_names s))) [])"
    using class_names_nonempty [OF False] by (intro merge_loop_ref) (auto simp: blocked_ids_def)
  then show ?thesis by (simp add: mergeClassList_def ref_merge_def)
qed

lemma class_names_mergeClassList:
  assumes "trim s \<noteq> []"
  shows "class_names (mergeClassList cfg m s) = ref_merge (classify cfg (getClassGroupId m)) (class_names s)"
proof -
  let ?ks = "ref_merge (classify cfg (getClassGroupId m)) (class_names s)"
  have "?ks \<noteq> []"
  proof -
    obtain ws w where ws: "class_names s = ws @ [w]"
      by (metis class_names_def rev_exhaust split_ws_not_Nil)
    have "w \<in> set (foldr (ref_step (classify cfg (getClassGroupId m))) ws [w])"
      by (induction ws) (auto simp: ref_step_def)
    moreover have "ref_step (classify cfg (getClassGroupId m)) w [] = [w]"
      by (simp add: ref_step_def overridden_def blocked_ids_def split: option.splits)
    ultimately show ?thesis using ws by (auto simp: ref_merge_def)
  qed
  moreover have "\<forall>w \<in> set ?ks. w \<noteq> [] \<and> (\<forall>c \<in> set w. \<not> is_space c)"
    using ref_merge_subset [of "classify cfg (getClassGroupId m)" "class_names s"] class_names_nonempty [OF assms]
      class_names_no_space by blast
  ultimately show ?thesis
    unfolding mergeClassList_ref by (rule class_names_join)
qed

section \<open>Merging without the trie and without the cache\<close>

text \<open>
  \<open>config_group\<close> finds the class group of a class name by scanning the configuration, and
  \<open>config_classify\<close> is \<open>classify\<close> over it: the two together are a definition of the merge that
  mentions neither the class map nor the cache.
\<close>

definition config_node :: "tw_config \<Rightarrow> string list \<Rightarrow> node_info" where
  "config_node c = scan_groups (Suc (length (theme c))) (theme c)
     (getPrefixedClassGroupEntries (classGroups c) (prefix_of c))"

definition config_group :: "tw_config \<Rightarrow> string \<Rightarrow> string option" where
  "config_group c cn =
     (let ps = part_path cn;
          ps' = (if hd ps = [] \<and> length ps \<noteq> 1 then tl ps else ps);
          r = ref_lookup (config_node c) [] ps'
      in if truthy r then r else getGroupIdForArbitraryProperty cn)"

definition config_classify :: "tw_config \<Rightarrow> string \<Rightarrow> (string \<times> string list) option" where
  "config_classify c = classify c (config_group c)"

lemma getClassGroupId_config:
  "createClassMap c = Some m \<Longrightarrow> getClassGroupId m = config_group c"
  by (rule ext) (simp add: getClassGroupId_def config_group_def config_node_def createClassMap_lookup)

lemma classify_config:
  "createClassMap c = Some m \<Longrightarrow> classify c (getClassGroupId m) = config_classify c"
  by (simp add: config_classify_def getClassGroupId_config)

lemma default_theme_ok:
  "list_all (\<lambda>(g, ds). theme_ok (Suc (length default_theme)) default_theme ds) default_class_groups"
  unfolding default_class_groups_def list_all_append by (intro conjI; code_simp)

lemma default_class_map: "\<exists>m. createClassMap getDefaultConfig = Some m"
  unfolding createClassMap_def
  by (rule process_groups_total)
    (use default_theme_ok in \<open>simp add: getDefaultConfig_def getPrefixedClassGroupEntries_def\<close>)

text \<open>The pure merge of a configuration, and the state of an instance after any calls.\<close>

definition pure_merge :: "tw_config \<Rightarrow> string \<Rightarrow> string" where
  "pure_merge c s = join '' '' (ref_merge (config_classify c) (class_names s))"

definition instance_ok :: "tw_config \<Rightarrow> tw_instance \<Rightarrow> bool" where
  "instance_ok c inst =
     (case inst of
        TwInit c' \<Rightarrow> c' = c
      | TwReady u \<Rightarrow> u_config u = c \<and> createClassMap c = Some (u_map u)
          \<and> lru_ok (u_cache u) \<and> max_size (u_cache u) = cacheSize c
          \<and> (\<forall>k v. lru_holds (u_cache u) k v \<longrightarrow> v = pure_merge c k))"

lemma mergeClassList_pure: "createClassMap c = Some m \<Longrightarrow> mergeClassList c m s = pure_merge c s"
  by (simp add: mergeClassList_ref pure_merge_def classify_config)

lemma tailwindMerge_ok:
  assumes "instance_ok c (TwReady u)" and "tailwindMerge s u = (r, u')"
  shows "r = pure_merge c s \<and> instance_ok c (TwReady u')"
proof -
  obtain cached c1 where get: "lru_get s (u_cache u) = (cached, c1)" by force
  from assms(1) have coh: "\<forall>k v. lru_holds (u_cache u) k v \<longrightarrow> v = pure_merge c k"
    and ok: "lru_ok (u_cache u)" and cfg: "u_config u = c" and m: "createClassMap c = Some (u_map u)"
    and size: "max_size (u_cache u) = cacheSize c"
    by (auto simp: instance_ok_def)
  have c1: "\<forall>k v. lru_holds c1 k v \<longrightarrow> v = pure_merge c k" "lru_ok c1" "max_size c1 = cacheSize c"
    using lruc.get_coherent [OF coh get] lru_get_ok [OF ok, of s] lru_get_max [of s "u_cache u"] get size
    by auto
  show ?thesis
  proof (cases "truthy cached")
    case True
    then obtain v where "cached = Some v" by (auto simp: truthy_def split: option.splits)
    then have "v = pure_merge c s" using lruc.get_answer [OF coh] get by blast
    with True \<open>cached = Some v\<close> assms(2) get c1 cfg m show ?thesis
      by (auto simp: tailwindMerge_def instance_ok_def)
  next
    case False
    with assms(2) get cfg m have r: "r = pure_merge c s"
      and u': "u' = u\<lparr>u_cache := lru_set s (pure_merge c s) c1\<rparr>"
      by (auto simp: tailwindMerge_def mergeClassList_pure Let_def)
    from lruc.put_coherent [OF c1(1)] c1 r u' cfg m show ?thesis
      by (simp add: instance_ok_def lru_set_ok)
  qed
qed

lemma createConfigUtils_ok:
  "createConfigUtils c = Some u \<Longrightarrow> instance_ok c (TwReady u)"
  by (auto simp: createConfigUtils_def instance_ok_def lru_create_ok lru_holds_def)
    (auto simp: createLruCache_def)

lemma callTailwindMerge_ok:
  assumes "instance_ok c inst" and "callTailwindMerge args inst = Some (r, inst')"
  shows "r = pure_merge c (twJoin args) \<and> instance_ok c inst'"
proof (cases inst)
  case (TwInit c')
  with assms obtain u u' where "createConfigUtils c = Some u"
    and "tailwindMerge (twJoin args) u = (r, u')" "inst' = TwReady u'"
    by (auto simp: callTailwindMerge_def instance_ok_def split: option.splits prod.splits)
  then show ?thesis using tailwindMerge_ok createConfigUtils_ok by blast
next
  case (TwReady u)
  with assms obtain u' where "tailwindMerge (twJoin args) u = (r, u')" "inst' = TwReady u'"
    by (auto simp: callTailwindMerge_def split: prod.splits)
  with assms(1) TwReady show ?thesis using tailwindMerge_ok by blast
qed

lemma callTailwindMerge_total:
  assumes "instance_ok c inst" and "\<exists>m. createClassMap c = Some m"
  shows "\<exists>r inst'. callTailwindMerge args inst = Some (r, inst')"
  using assms
  by (cases inst) (auto simp: callTailwindMerge_def createConfigUtils_def instance_ok_def
      split: prod.splits)

lemma run_calls_pure:
  assumes "instance_ok c inst" and "\<exists>m. createClassMap c = Some m"
  shows "\<exists>inst'. run_calls as inst = Some (map (\<lambda>a. pure_merge c (twJoin a)) as, inst')
    \<and> instance_ok c inst'"
  using assms(1)
proof (induction as arbitrary: inst)
  case (Cons a as)
  obtain r inst1 where call: "callTailwindMerge a inst = Some (r, inst1)"
    using callTailwindMerge_total [OF Cons.prems assms(2)] by blast
  from callTailwindMerge_ok [OF Cons.prems call]
  have r: "r = pure_merge c (twJoin a)" and ok: "instance_ok c inst1" by auto
  from Cons.IH [OF ok] call r show ?case by auto
qed simp

lemma last_class_kept:
  "ref_merge cl (cns @ [cn]) = foldr (ref_step cl) cns [cn]"
  by (simp add: ref_merge_def ref_step_def overridden_def blocked_ids_def split: option.splits)

lemma foldr_step_keeps: "set ks \<subseteq> set (foldr (ref_step cl) cns ks)"
  by (induction cns) (auto simp: ref_step_def)

lemma blocked_ids_mono: "set ks \<subseteq> set ks' \<Longrightarrow> blocked_ids cl ks \<subseteq> blocked_ids cl ks'"
  by (auto simp: blocked_ids_def)

text \<open>A class is dropped when the last class has its id or names it in conflict.\<close>

lemma dropped_by_last:
  assumes "cl cn = Some (i, cs)" and "i \<in> blocked_ids cl [z]" and "cn \<noteq> z"
  shows "cn \<notin> set (ref_merge cl (cns @ [z]))"
proof -
  have "cn \<notin> set (foldr (ref_step cl) ys [z])" for ys
  proof (induction ys)
    case (Cons y ys)
    have "i \<in> blocked_ids cl (foldr (ref_step cl) ys [z])"
      using assms(2) blocked_ids_mono [OF foldr_step_keeps] by blast
    with assms(1) have "overridden cl (foldr (ref_step cl) ys [z]) cn"
      by (simp add: overridden_def)
    with Cons show ?case by (auto simp: ref_step_def [of cl y])
  qed (use assms(3) in simp)
  then show ?thesis by (simp add: last_class_kept)
qed

section \<open>The cache keeps recent entries\<close>

lemma lru_get_set: "0 < max_size c \<Longrightarrow> fst (lru_get k (lru_set k v c)) = Some v"
  by (auto simp: lru_get_def lru_set_def lru_update_def Let_def al_has_def split: option.splits)

section \<open>Reading back a class name\<close>

lemma drop_split_at:
  assumes "cs = drop i s" and "cs = c # r" and "m \<le> i"
  shows "drop m s = str_slice m i s @ c # drop (Suc i) s" and "r = drop (Suc i) s"
proof -
  have "drop m s = take (i - m) (drop m s) @ drop (i - m) (drop m s)"
    by (simp only: append_take_drop_id)
  also have "drop (i - m) (drop m s) = c # r" using assms by simp
  finally show "drop m s = str_slice m i s @ c # drop (Suc i) s"
    using assms by (simp add: str_slice_def) (metis drop_Suc list.sel(3) tl_drop)
  show "r = drop (Suc i) s" using assms by (metis drop_Suc list.sel(3) tl_drop)
qed

lemma join_snoc: "xs \<noteq> [] \<Longrightarrow> join sep (xs @ [y]) = join sep xs @ sep @ y"
  by (simp add: join_append)

lemma parse_loop_join:
  assumes "parse_loop [q] s cs i d m post mods = (mods', m', post')"
    and "cs = drop i s" and "m \<le> i" and "join [q] (mods @ [drop m s]) = s"
    and "mods = [] \<longrightarrow> m = 0"
  shows "join [q] (mods' @ [drop m' s]) = s \<and> (mods' = [] \<longrightarrow> m' = 0)"
  using assms
proof (induction cs arbitrary: i d m post mods)
  case (Cons c r)
  note split = drop_split_at [OF Cons.prems(2) refl Cons.prems(3)]
  show ?case
  proof (cases "d = 0 \<and> c = q")
    case True
    have "join [q] ((mods @ [str_slice m i s]) @ [drop (Suc i) s]) = s"
      using Cons.prems(4) True split(1)
        join_append [of "mods" "[str_slice m i s, drop (Suc i) s]" "[q]"]
        join_append [of "mods" "[drop m s]" "[q]"]
      by (cases "mods = []") simp_all
    with True Cons.prems Cons.IH [OF _ split(2)] show ?thesis by auto
  next
    case False
    with Cons.prems(1) obtain d2 post2
      where rest: "parse_loop [q] s r (Suc i) d2 m post2 mods = (mods', m', post')"
      by (auto simp: disj_commute split: if_splits)
    from Cons.IH [OF rest split(2)] Cons.prems show ?thesis by simp
  qed
qed auto

lemma parse_rejoin:
  "join [q] (modifiers (parseClassName [q] s)
     @ [(if hasImportantModifier (parseClassName [q] s) then ''!'' else '''')
        @ baseClassName (parseClassName [q] s)]) = s"
proof -
  obtain mods m post where p: "parse_loop [q] s s 0 0 0 None [] = (mods, m, post)"
    by (metis prod_cases3)
  have j: "join [q] (mods @ [drop m s]) = s \<and> (mods = [] \<longrightarrow> m = 0)"
    by (rule parse_loop_join [OF p]) auto
  have bang: "starts_with b ''!'' \<Longrightarrow> CHR ''!'' # tl b = b" for b :: string
    by (cases b) auto
  from p j show ?thesis
    by (cases "mods = []") (auto simp: parseClassName_def Let_def bang)
qed

section \<open>Sorting modifiers\<close>

lemma sort_modifiers_loop_mset:
  "mset (sort_modifiers_loop ms dn td) = mset ms + mset dn + mset td"
  by (induction ms dn td rule: sort_modifiers_loop.induct) auto

abbreviation arbitrary_variant :: "string \<Rightarrow> bool" where
  "arbitrary_variant m \<equiv> starts_with m ''[''"

text \<open>The arbitrary variants of a list, each at its place; the other modifiers are masked.\<close>

definition variant_mask :: "string list \<Rightarrow> string option list" where
  "variant_mask ms = map (\<lambda>m. if arbitrary_variant m then Some m else None) ms"

definition run_le :: "string \<Rightarrow> string \<Rightarrow> bool" where
  "run_le x y \<longleftrightarrow> arbitrary_variant x \<or> arbitrary_variant y \<or> x \<le> y"

lemma variant_mask_plain:
  "\<forall>x \<in> set xs. \<not> arbitrary_variant x \<Longrightarrow> variant_mask xs = replicate (length xs) None"
  by (induction xs) (auto simp: variant_mask_def)

lemma variant_mask_append [simp]: "variant_mask (xs @ ys) = variant_mask xs @ variant_mask ys"
  by (simp add: variant_mask_def)

lemma sort_modifiers_loop_mask:
  "\<forall>x \<in> set td. \<not> arbitrary_variant x \<Longrightarrow>
    variant_mask (sort_modifiers_loop ms dn td) = variant_mask dn @ variant_mask td @ variant_mask ms"
proof (induction ms dn td rule: sort_modifiers_loop.induct)
  case (1 dn td)
  then show ?case by (simp add: variant_mask_plain) (simp add: variant_mask_def)?
next
  case (2 m ms dn td)
  then show ?case by (simp add: variant_mask_plain) (simp add: variant_mask_def)
qed

lemma sorted_run: "sorted xs \<Longrightarrow> successively run_le xs"
  by (induction xs rule: induct_list012) (auto simp: run_le_def)

lemma sort_modifiers_loop_runs:
  assumes "\<forall>x \<in> set td. \<not> arbitrary_variant x" and "successively run_le dn"
    and "dn = [] \<or> arbitrary_variant (last dn)"
  shows "successively run_le (sort_modifiers_loop ms dn td)"
  using assms
proof (induction ms dn td rule: sort_modifiers_loop.induct)
  case (1 dn td)
  moreover have "successively run_le (dn @ sort td)"
    unfolding successively_append_iff using 1(2,3) by (auto simp: sorted_run) (simp add: run_le_def)
  ultimately show ?case by simp
next
  case (2 m ms dn td)
  show ?case
  proof (cases "arbitrary_variant m")
    case True
    have "successively run_le ((dn @ sort td) @ [m])"
      unfolding successively_append_iff using 2(4,5) True by (auto simp: sorted_run) (simp_all add: run_le_def)
    with 2(1) True show ?thesis by simp
  qed (use 2 in simp)
qed

lemma sortModifiers_facts:
  "mset (sortModifiers ms) = mset ms \<and> variant_mask (sortModifiers ms) = variant_mask ms
    \<and> successively run_le (sortModifiers ms)"
proof (cases "length ms \<le> 1")
  case True
  then have "ms = [] \<or> (\<exists>m. ms = [m])" by (cases ms) auto
  then show ?thesis by (auto simp: sortModifiers_def)
next
  case False
  then show ?thesis
    by (simp add: sortModifiers_def sort_modifiers_loop_mset sort_modifiers_loop_mask
        sort_modifiers_loop_runs) (simp add: variant_mask_def)
qed

section \<open>Properties\<close>

text \<open>Whatever classes a page has merged before, every call of the memoised merger returns the
  declarative merge of its joined arguments: the lazily built class map, the trie search, the
  loop over the class names and the two-generation cache change nothing about the result, and no
  call fails.\<close>

theorem twMerge_history:
  "\<exists>inst'. run_calls as twMerge_instance
     = Some (map (\<lambda>a. pure_merge getDefaultConfig (twJoin a)) as, inst')"
proof -
  have "instance_ok getDefaultConfig twMerge_instance"
    by (simp add: twMerge_instance_def createTailwindMerge_def createConfig_def instance_ok_def)
  from run_calls_pure [OF this default_class_map] show ?thesis by blast
qed

text \<open>C11. For every configuration whose class map can be built, merging a class list with the trie
  and the mutable conflict list keeps exactly the classes the declarative right-to-left reading of
  the configuration keeps.\<close>

theorem mergeClassList_declarative:
  assumes "createClassMap c = Some m"
  shows "mergeClassList c m s = join '' '' (ref_merge (config_classify c) (class_names s))"
  using mergeClassList_pure [OF assms] by (simp add: pure_merge_def)

definition tiny_config :: tw_config where
  "tiny_config = getDefaultConfig\<lparr>theme := [(''gap'', [CStr ''x''])],
     classGroups := [(''p'', [CObj [(''p'', [CStr ''1'', CStr ''2''])]]), (''px'', [CObj [(''px'', [CStr ''1''])]])],
     conflictingClassGroups := [(''p'', [''px''])]\<rparr>"

lemma mergeClassList_declarative_witness:
  "\<exists>m. createClassMap tiny_config = Some m \<and> mergeClassList tiny_config m ''p-1 px-1 p-2'' = ''p-2''"
proof -
  have "createClassMap tiny_config \<noteq> None" by code_simp
  then obtain m where m: "createClassMap tiny_config = Some m" by blast
  have "join '' '' (ref_merge (config_classify tiny_config) (class_names ''p-1 px-1 p-2'')) = ''p-2''"
    by code_simp
  with mergeClassList_declarative [OF m] m show ?thesis by simp
qed

text \<open>Merging is idempotent, whatever the configuration and the class map.\<close>

theorem mergeClassList_idem:
  "mergeClassList c m (mergeClassList c m s) = mergeClassList c m s"
proof (cases "trim s = []")
  case True
  then have "mergeClassList c m s = []"
    by (auto simp: mergeClassList_ref class_names_blank ref_step_def)
  then show ?thesis by (simp add: mergeClassList_ref class_names_blank ref_step_def trim_def)
next
  case False
  show ?thesis
    unfolding mergeClassList_ref [of c m "mergeClassList c m s"] class_names_mergeClassList [OF False]
      ref_merge_idem by (simp add: mergeClassList_ref)
qed

text \<open>C12. The classes of a merged list are a subsequence of the classes given, in their order, and
  none of them is overridden by those to its right.\<close>

theorem mergeClassList_conflict_free:
  assumes "trim s \<noteq> []"
  shows "subseq (class_names (mergeClassList c m s)) (class_names s)
    \<and> (\<forall>xs x ys. class_names (mergeClassList c m s) = xs @ x # ys
         \<longrightarrow> \<not> overridden (classify c (getClassGroupId m)) ys x)"
  unfolding class_names_mergeClassList [OF assms]
  using ref_merge_subseq ref_merge_conflict_free by blast

lemma mergeClassList_conflict_free_witness:
  "\<forall>c m. subseq (class_names (mergeClassList c m ''p-1 p-2'')) [''p-1'', ''p-2'']"
proof (intro allI)
  fix c m
  have "trim ''p-1 p-2'' \<noteq> []" by code_simp
  moreover have "class_names ''p-1 p-2'' = [''p-1'', ''p-2'']" by code_simp
  ultimately show "subseq (class_names (mergeClassList c m ''p-1 p-2'')) [''p-1'', ''p-2'']"
    using mergeClassList_conflict_free [of "''p-1 p-2''" c m] by simp
qed

text \<open>The modifiers and the base name the parser returns, joined with the separator and with the
  important mark put back, are the class name it was given.\<close>

theorem parseClassName_rejoin:
  "join [q] (modifiers (parseClassName [q] s)
     @ [(if hasImportantModifier (parseClassName [q] s) then ''!'' else '''')
        @ baseClassName (parseClassName [q] s)]) = s"
  by (rule parse_rejoin)

text \<open>Sorting the modifiers permutes them, leaves every arbitrary variant at its place, and
  leaves two neighbouring ordinary modifiers in order.\<close>

theorem sortModifiers_spec:
  "mset (sortModifiers ms) = mset ms \<and> variant_mask (sortModifiers ms) = variant_mask ms
    \<and> successively run_le (sortModifiers ms)"
  by (rule sortModifiers_facts)

text \<open>An entry just written is read back, and reading and writing keep the cache within its
  bounds: at most \<open>max_size\<close> entries in the current generation, one more in the previous one.\<close>

theorem lru_bounded_and_fresh:
  assumes "lru_ok c" and "0 < max_size c"
  shows "fst (lru_get k (lru_set k v c)) = Some v
    \<and> lru_ok (lru_set k v c) \<and> lru_ok (snd (lru_get k' c))"
  using assms lru_get_set lru_set_ok lru_get_ok by blast

lemma lru_bounded_and_fresh_witness:
  "fst (lru_get ''k'' (lru_set ''k'' ''v'' (createLruCache 1))) = Some ''v''"
  using lru_bounded_and_fresh [of "createLruCache 1" "''k''" "''v''" "''k''"] lru_create_ok
  by (simp add: createLruCache_def)

end
