(* ===== verification/LibUtils.thy ===== *)
theory LibUtils
  imports TwMerge "HOL-Library.Word"
begin

text \<open>
  The helpers every component uses: \<open>clsx\<close> (\<open>ui/.vite/deps/clsx.js\<close>) and
  \<open>ui/src/lib/utils.ts\<close>. \<open>cn\<close> threads the memoised class merger. \<open>truncate\<close> and \<open>avatarColor\<close>
  look at 16-bit code units; \<open>avatarColor\<close> computes in binary64, which is exact here because
  \<open>hash_bound\<close> keeps the numbers below \<open>2 ^ 53\<close>. The object literals are read with \<open>obj_get\<close>,
  which knows the properties every object inherits.
\<close>

section \<open>clsx\<close>

text \<open>
  The argument of \<open>clsx\<close>: a string, a non-zero integer, an array, an object whose values count
  only by their truth, \<open>true\<close>, or a falsy value.
\<close>

datatype class_arg =
    AStr string
  | ANum int
  | AArr "class_arg list"
  | AObj "(string \<times> bool) list"
  | ATrue
  | AFalsy

definition arg_truthy :: "class_arg \<Rightarrow> bool" where
  "arg_truthy a = (case a of AStr s \<Rightarrow> s \<noteq> [] | ANum n \<Rightarrow> n \<noteq> 0 | AFalsy \<Rightarrow> False | _ \<Rightarrow> True)"

fun obj_classes :: "(string \<times> bool) list \<Rightarrow> string \<Rightarrow> string" where
  "obj_classes [] n = n"
| "obj_classes ((f, v) # es) n =
     obj_classes es (if v then (if n \<noteq> [] then n @ '' '' else n) @ f else n)"

fun clsx_r :: "class_arg \<Rightarrow> string" and clsx_loop :: "class_arg list \<Rightarrow> string \<Rightarrow> string" where
  "clsx_r (AStr s) = s"
| "clsx_r (ANum n) = show_int n"
| "clsx_r (AArr es) = clsx_loop es []"
| "clsx_r (AObj es) = obj_classes es []"
| "clsx_r ATrue = []"
| "clsx_r AFalsy = []"
| "clsx_loop [] n = n"
| "clsx_loop (e # es) n = clsx_loop es (if arg_truthy e then append_class n (clsx_r e) else n)"

definition clsx :: "class_arg list \<Rightarrow> string" where
  "clsx args = clsx_loop args []"

section \<open>cn\<close>

text \<open>\<open>cn(...inputs)\<close> hands one array to \<open>clsx\<close> and one string to \<open>twMerge\<close>.\<close>

definition cn :: "class_arg list \<Rightarrow> tw_instance \<Rightarrow> (string \<times> tw_instance) option" where
  "cn inputs inst = callTailwindMerge [CVStr (clsx [AArr inputs])] inst"

definition cn_pure :: "class_arg list \<Rightarrow> string" where
  "cn_pure inputs = pure_merge getDefaultConfig (clsx [AArr inputs])"

section \<open>Text\<close>

type_synonym code_unit = "16 word"

text \<open>\<open>str.slice(0, n) + ellipsis\<close>; the ellipsis is one code unit.\<close>

definition truncate :: "code_unit list \<Rightarrow> nat \<Rightarrow> code_unit list" where
  "truncate str n = (if n < length str then take n str @ [0x2026] else str)"

definition shortSha :: "'a list \<Rightarrow> 'a list" where
  "shortSha sha = str_slice 0 7 sha"

text \<open>
  \<open>initials\<close>. Reading the first code unit of an empty part would be \<open>undefined\<close> and the sum of
  two \<open>undefined\<close> is not a string: that is \<open>None\<close>; one \<open>undefined\<close> would be printed.
\<close>

definition first_unit :: "string \<Rightarrow> string option" where
  "first_unit s = (case s of [] \<Rightarrow> None | c # _ \<Rightarrow> Some [c])"

definition undefined_str :: "string option \<Rightarrow> string" where
  "undefined_str s = (case s of None \<Rightarrow> ''undefined'' | Some t \<Rightarrow> t)"

definition initials :: "string \<Rightarrow> string option" where
  "initials name =
     (let parts = split_ws (trim name) in
      if length parts = 1 then Some (to_upper (str_slice 0 2 (hd parts)))
      else let a = first_unit (hd parts); b = first_unit (last parts)
           in if a = None \<and> b = None then None
              else Some (to_upper (undefined_str a @ undefined_str b)))"

section \<open>Colours\<close>

definition AVATAR_COLORS :: "string list" where
  "AVATAR_COLORS = [''#3fb950'', ''#58a6ff'', ''#d29922'', ''#bc8cff'', ''#f85149'',
     ''#79c0ff'', ''#56d364'', ''#e3b341'', ''#ff7b72'', ''#cae8ff'']"

text \<open>\<open>x << n\<close> converts \<open>x\<close> to a signed 32-bit integer and wraps the result.\<close>

definition to_int32 :: "int \<Rightarrow> int" where
  "to_int32 x = (x + 2 ^ 31) mod 2 ^ 32 - 2 ^ 31"

definition shift_left :: "int \<Rightarrow> nat \<Rightarrow> int" where
  "shift_left x n = to_int32 (to_int32 x * 2 ^ n)"

definition hash_step :: "int \<Rightarrow> code_unit \<Rightarrow> int" where
  "hash_step hash c = uint c + (shift_left hash 5 - hash)"

definition name_hash :: "code_unit list \<Rightarrow> int" where
  "name_hash username = foldl hash_step 0 username"

text \<open>An index outside the table would be \<open>undefined\<close>.\<close>

definition avatarColor :: "code_unit list \<Rightarrow> string option" where
  "avatarColor username =
     (let i = nat (\<bar>name_hash username\<bar> mod int (length AVATAR_COLORS))
      in if i < length AVATAR_COLORS then Some (AVATAR_COLORS ! i) else None)"

definition language_colors :: "(string \<times> string) list" where
  "language_colors =
     [(''Go'', ''#00ADD8''), (''TypeScript'', ''#3178C6''), (''JavaScript'', ''#F7DF1E''),
      (''Python'', ''#3572A5''), (''Rust'', ''#DEA584''), (''SQL'', ''#E38C00''),
      (''YAML'', ''#CB171E''), (''JSON'', ''#FFA500''), (''Shell'', ''#89E051''),
      (''Markdown'', ''#083fa1''), (''HTML'', ''#E34C26''), (''CSS'', ''#563D7C''),
      (''TOML'', ''#9C4121''), (''Dockerfile'', ''#384D54''), (''Ruby'', ''#701516''),
      (''Java'', ''#B07219''), (''Kotlin'', ''#A97BFF''), (''C++'', ''#f34b7d''),
      (''C'', ''#555555''), (''C#'', ''#178600''), (''Swift'', ''#F05138'')]"

text \<open>A read that finds no string (an inherited function, say) is \<open>None\<close>.\<close>

definition or_default :: "string \<Rightarrow> string js_prop \<Rightarrow> string option" where
  "or_default d p = (case p of Own s \<Rightarrow> Some s | Inherited \<Rightarrow> None | Absent \<Rightarrow> Some d)"

definition languageColor :: "string \<Rightarrow> string option" where
  "languageColor lang = or_default ''#8b949e'' (obj_get language_colors lang)"

section \<open>Sizes and languages\<close>

text \<open>
  \<open>(num / den).toFixed(1)\<close> for an exact quotient: the tenth nearest to it, the larger one in the
  middle.
\<close>

definition to_fixed1 :: "nat \<Rightarrow> nat \<Rightarrow> string" where
  "to_fixed1 num den =
     (let n = (20 * num + den) div (2 * den) in show_nat (n div 10) @ ''.'' @ show_nat (n mod 10))"

definition formatBytes :: "nat \<Rightarrow> string" where
  "formatBytes bytes =
     (if bytes < 1024 then show_nat bytes @ '' B''
      else if bytes < 1024 * 1024 then to_fixed1 bytes 1024 @ '' KB''
      else to_fixed1 bytes (1024 * 1024) @ '' MB'')"

text \<open>\<open>filename.split('.').pop()?.toLowerCase() ?? ''\<close>; \<open>split\<close> never yields an empty array.\<close>

definition file_ext :: "string \<Rightarrow> string" where
  "file_ext filename = to_lower (last (split_on CHR ''.'' filename))"

definition language_names :: "(string \<times> string) list" where
  "language_names =
     [(''go'', ''Go''), (''ts'', ''TypeScript''), (''tsx'', ''TypeScript''), (''js'', ''JavaScript''),
      (''jsx'', ''JavaScript''), (''py'', ''Python''), (''rs'', ''Rust''), (''sql'', ''SQL''),
      (''yaml'', ''YAML''), (''yml'', ''YAML''), (''json'', ''JSON''), (''sh'', ''Shell''),
      (''bash'', ''Shell''), (''md'', ''Markdown''), (''html'', ''HTML''), (''css'', ''CSS''),
      (''toml'', ''TOML''), (''dockerfile'', ''Dockerfile''), (''rb'', ''Ruby''),
      (''java'', ''Java''), (''kt'', ''Kotlin''), (''cpp'', ''C++''), (''c'', ''C''), (''cs'', ''C#''),
      (''swift'', ''Swift''), (''proto'', ''Protobuf'')]"

definition detectLanguage :: "string \<Rightarrow> string option" where
  "detectLanguage filename = or_default ''Text'' (obj_get language_names (file_ext filename))"

section \<open>Facts on the class merger\<close>

text \<open>
  A page calls \<open>cn\<close> again and again; whatever calls came before, the answer is the pure merge of
  the joined arguments.
\<close>

fun run_cn :: "class_arg list list \<Rightarrow> tw_instance \<Rightarrow> (string list \<times> tw_instance) option" where
  "run_cn [] inst = Some ([], inst)"
| "run_cn (a # as) inst =
     (case cn a inst of
        None \<Rightarrow> None
      | Some (r, inst') \<Rightarrow> map_option (\<lambda>(rs, i). (r # rs, i)) (run_cn as inst'))"

lemma twJoin_one [simp]: "twJoin [CVStr s] = s"
  by (simp add: twJoin_def cv_truthy_def append_class_def)

lemma cn_ok:
  assumes "instance_ok getDefaultConfig inst"
  shows "\<exists>inst'. cn a inst = Some (cn_pure a, inst') \<and> instance_ok getDefaultConfig inst'"
proof -
  obtain r inst' where "callTailwindMerge [CVStr (clsx [AArr a])] inst = Some (r, inst')"
    using callTailwindMerge_total [OF assms default_class_map] by blast
  with callTailwindMerge_ok [OF assms] show ?thesis by (fastforce simp: cn_def cn_pure_def)
qed

lemma run_cn_ok:
  "instance_ok getDefaultConfig inst \<Longrightarrow>
    \<exists>inst'. run_cn as inst = Some (map cn_pure as, inst') \<and> instance_ok getDefaultConfig inst'"
proof (induction as arbitrary: inst)
  case (Cons a as)
  from cn_ok [OF Cons.prems] obtain i where "cn a inst = Some (cn_pure a, i)"
    and "instance_ok getDefaultConfig i" by blast
  with Cons.IH [of i] show ?case by auto
qed simp

lemma instance_ok_init: "instance_ok getDefaultConfig twMerge_instance"
  by (simp add: twMerge_instance_def createTailwindMerge_def createConfig_def instance_ok_def)

lemma clsx_nested [simp]: "clsx [AArr as] = clsx as"
  by (simp add: clsx_def arg_truthy_def append_class_def)

text \<open>For strings and falsy values \<open>clsx\<close> is the join of the non-empty strings.\<close>

fun arg_strings :: "class_arg list \<Rightarrow> string list option" where
  "arg_strings [] = Some []"
| "arg_strings (AStr s # as) = map_option (\<lambda>ss. if s = [] then ss else s # ss) (arg_strings as)"
| "arg_strings (AFalsy # as) = arg_strings as"
| "arg_strings (_ # as) = None"

lemma append_class_join:
  "\<forall>s \<in> set ss. s \<noteq> [] \<Longrightarrow> s \<noteq> [] \<Longrightarrow> append_class (join '' '' ss) s = join '' '' (ss @ [s])"
  by (induction "'' ''" ss rule: join.induct) (auto simp: append_class_def join_Cons)

lemma clsx_loop_strings:
  assumes "arg_strings as = Some ss" and "\<forall>s \<in> set acc. s \<noteq> []"
  shows "clsx_loop as (join '' '' acc) = join '' '' (acc @ ss)"
  using assms
proof (induction as arbitrary: acc ss rule: arg_strings.induct)
  case (2 s as)
  then obtain ss' where ss: "arg_strings as = Some ss'" "ss = (if s = [] then ss' else s # ss')" by auto
  show ?case
  proof (cases "s = []")
    case False
    with 2 ss 2(1) [of ss' "acc @ [s]"] show ?thesis by (simp add: arg_truthy_def append_class_join)
  qed (use 2 ss in \<open>simp add: arg_truthy_def\<close>)
qed (auto simp: arg_truthy_def)

lemma clsx_strings: "arg_strings as = Some ss \<Longrightarrow> clsx as = join '' '' ss"
  using clsx_loop_strings [of as ss "[]"] by (simp add: clsx_def)

section \<open>Facts on the helpers\<close>

lemma to_int32_range: "- (2 ^ 31) \<le> to_int32 x \<and> to_int32 x < 2 ^ 31"
proof -
  have "0 \<le> (x + 2 ^ 31) mod 2 ^ 32" "(x + 2 ^ 31) mod 2 ^ 32 < (2 ^ 32 :: int)" by simp_all
  then show ?thesis unfolding to_int32_def by simp
qed

lemma hash_step_bound:
  "\<bar>h\<bar> \<le> k \<Longrightarrow> \<bar>hash_step h c\<bar> \<le> k + (2 ^ 31 + 2 ^ 16)"
proof -
  assume h: "\<bar>h\<bar> \<le> k"
  have "uint c < 2 ^ 16" "0 \<le> uint c" using uint_bounded [of c] by auto
  moreover have "- (2 ^ 31) \<le> shift_left h 5 \<and> shift_left h 5 < 2 ^ 31"
    by (simp only: shift_left_def to_int32_range simp_thms)
  ultimately show ?thesis using h unfolding hash_step_def by linarith
qed

lemma foldl_hash_bound:
  "\<bar>h\<bar> \<le> k \<Longrightarrow> \<bar>foldl hash_step h us\<bar> \<le> k + int (length us) * (2 ^ 31 + 2 ^ 16)"
proof (induction us arbitrary: h k)
  case (Cons u us)
  from Cons.IH [OF hash_step_bound [OF Cons.prems, of u]] show ?case by (simp add: algebra_simps)
qed simp

lemma name_hash_bound: "\<bar>name_hash us\<bar> \<le> int (length us) * (2 ^ 31 + 2 ^ 16)"
  using foldl_hash_bound [of 0 0 us] by (simp add: name_hash_def)

lemma avatarColor_in_table: "\<exists>c. avatarColor us = Some c \<and> c \<in> set AVATAR_COLORS"
proof -
  have "0 < length AVATAR_COLORS" by (simp add: AVATAR_COLORS_def)
  then have "nat (\<bar>name_hash us\<bar> mod int (length AVATAR_COLORS)) < length AVATAR_COLORS"
    by (simp add: nat_less_iff)
  then show ?thesis by (simp add: avatarColor_def Let_def)
qed

lemma initials_short: "\<exists>r. initials name = Some r \<and> length r \<le> 2"
proof -
  let ?ps = "split_ws (trim name)"
  have two: "\<exists>r. initials name = Some r \<and> length r \<le> 2" if len: "length ?ps \<noteq> 1"
  proof -
    have "trim name \<noteq> []" using len by (auto simp: split_ws_no_space)
    then have ne: "\<forall>w \<in> set ?ps. w \<noteq> []" using class_names_nonempty by (simp add: class_names_def)
    then have "hd ?ps \<noteq> []" "last ?ps \<noteq> []" using len by auto
    with len show ?thesis
      by (auto simp: initials_def Let_def first_unit_def undefined_str_def to_upper_def
          split: list.splits)
  qed
  then show ?thesis
    by (auto simp: initials_def Let_def str_slice_def to_upper_def)
qed

section \<open>Properties\<close>

text \<open>\<open>cn\<close> never fails, and in every history of calls on a page its answer depends on its
  arguments only: it is the declarative merge of the joined class values.\<close>

theorem cn_history:
  "\<exists>inst'. run_cn as twMerge_instance
     = Some (map (\<lambda>a. pure_merge getDefaultConfig (clsx a)) as, inst')"
  using run_cn_ok [OF instance_ok_init, of as] by (auto simp: cn_pure_def)

text \<open>\<open>avatarColor\<close> always finds a colour of its table, and the numbers its loop
  computes with stay within \<open>2 ^ 31 + 2 ^ 16\<close> per code unit, so they are exact in binary64 for
  names of up to two million code units.\<close>

theorem avatarColor_total:
  "(\<exists>c. avatarColor us = Some c \<and> c \<in> set AVATAR_COLORS)
    \<and> \<bar>name_hash us\<bar> \<le> int (length us) * (2 ^ 31 + 2 ^ 16)"
  using avatarColor_in_table name_hash_bound by blast

text \<open>\<open>initials\<close> never reads a missing code unit: for every name, blank ones included, it
  returns a string of at most two code units.\<close>

theorem initials_total: "\<exists>r. initials name = Some r \<and> length r \<le> 2"
  by (rule initials_short)

text \<open>The unit of \<open>formatBytes\<close> is chosen before the number is rounded: the last 51 sizes
  below a mebibyte are printed as 1024.0 KB.\<close>

theorem formatBytes_boundary:
  "\<forall>b \<in> {1048525 ..< 1048576}. formatBytes b = ''1024.0 KB''"
proof
  fix b :: nat
  assume "b \<in> {1048525 ..< 1048576}"
  then have b: "1048525 \<le> b" "b < 1048576" by auto
  then have "(20 * b + 1024) div (2 * 1024) = 10240" by (intro div_nat_eqI) auto
  moreover have "show_nat 1024 = ''1024''" "show_nat 0 = ''0''" by code_simp+
  ultimately have "to_fixed1 b 1024 = ''1024.0''" by (simp add: to_fixed1_def)
  with b show "formatBytes b = ''1024.0 KB''" by (simp add: formatBytes_def)
qed

lemma formatBytes_boundary_witness: "formatBytes 1048575 = ''1024.0 KB''"
  using formatBytes_boundary by simp

end
