(* ===== verification/Views.thy ===== *)
theory Views
  imports AppQueries AuthFlow LibUtils
begin

text \<open>
  What components render, the data types of the API (\<open>ui/src/types/api.ts\<close>) and the small components
  (\<open>ui/src/components/ui\<close>). A view is the tree a component returns, with what matters to a visitor:
  texts, links, buttons with the event a click causes, fields, classes computed by \<open>cn\<close>. Constant
  class names and styles are left out, and signs outside Latin-1 are icons. \<open>'e\<close> is the type of the
  events of a page; a handler that does several things is one event.
\<close>

section \<open>Views\<close>

datatype 'e view =
    Text string
  | Units "code_unit list"
  | Icon string
  | Markup string
  | El string "'e view list"
  | Styled "class_arg list" "'e view"
  | LinkTo string "'e view list"
  | Anchor string "'e view list"
  | Press bool 'e "'e view list"
  | Field string string "string \<Rightarrow> 'e"
  | Tick bool 'e "'e view list"
  | Form 'e "'e view list"
  | Redirect string
  | Throws

text \<open>The targets of the links of a view, where it redirects, what can be pressed, its texts.\<close>

fun links :: "'e view \<Rightarrow> string list" where
  "links (El t vs) = concat (map links vs)"
| "links (Styled c v) = links v"
| "links (LinkTo to vs) = to # concat (map links vs)"
| "links (Anchor h vs) = concat (map links vs)"
| "links (Press e ev vs) = concat (map links vs)"
| "links (Tick b ev vs) = concat (map links vs)"
| "links (Form ev vs) = concat (map links vs)"
| "links v = []"

fun redirects :: "'e view \<Rightarrow> string list" where
  "redirects (El t vs) = concat (map redirects vs)"
| "redirects (Styled c v) = redirects v"
| "redirects (LinkTo to vs) = concat (map redirects vs)"
| "redirects (Anchor h vs) = concat (map redirects vs)"
| "redirects (Press e ev vs) = concat (map redirects vs)"
| "redirects (Tick b ev vs) = concat (map redirects vs)"
| "redirects (Form ev vs) = concat (map redirects vs)"
| "redirects (Redirect to) = [to]"
| "redirects v = []"

text \<open>
  The events a visitor can cause now: enabled buttons, boxes, the submission of a form. A form is
  submitted through its submit button, so it is only offered when that button is enabled: the
  argument says so at the place where the form is built.
\<close>

fun offers :: "'e view \<Rightarrow> 'e list" where
  "offers (El t vs) = concat (map offers vs)"
| "offers (Styled c v) = offers v"
| "offers (LinkTo to vs) = concat (map offers vs)"
| "offers (Anchor h vs) = concat (map offers vs)"
| "offers (Press enabled ev vs) = (if enabled then [ev] else []) @ concat (map offers vs)"
| "offers (Tick b ev vs) = ev # concat (map offers vs)"
| "offers (Form ev vs) = ev # concat (map offers vs)"
| "offers v = []"

fun texts :: "'e view \<Rightarrow> string list" where
  "texts (Text s) = [s]"
| "texts (El t vs) = concat (map texts vs)"
| "texts (Styled c v) = texts v"
| "texts (LinkTo to vs) = concat (map texts vs)"
| "texts (Anchor h vs) = concat (map texts vs)"
| "texts (Press e ev vs) = concat (map texts vs)"
| "texts (Tick b ev vs) = concat (map texts vs)"
| "texts (Form ev vs) = concat (map texts vs)"
| "texts v = []"

fun crashes :: "'e view \<Rightarrow> bool" where
  "crashes (El t vs) = list_ex crashes vs"
| "crashes (Styled c v) = crashes v"
| "crashes (LinkTo to vs) = list_ex crashes vs"
| "crashes (Anchor h vs) = list_ex crashes vs"
| "crashes (Press e ev vs) = list_ex crashes vs"
| "crashes (Tick b ev vs) = list_ex crashes vs"
| "crashes (Form ev vs) = list_ex crashes vs"
| "crashes Throws = True"
| "crashes v = False"

text \<open>\<open>cond && view\<close> in a list of children.\<close>

definition when_view :: "bool \<Rightarrow> 'a \<Rightarrow> 'a list" where
  "when_view b v = (if b then [v] else [])"

lemma when_view_simps [simp]: "when_view True v = [v]" "when_view False v = []"
  by (simp_all add: when_view_def)

definition units :: "string \<Rightarrow> code_unit list" where
  "units s = map (\<lambda>c. of_nat (of_char c)) s"

section \<open>Data of the API\<close>

record user =
  us_id :: string
  us_username :: string
  us_email :: string
  us_display_name :: string
  us_avatar_url :: string
  us_bio :: string
  us_is_admin :: bool
  us_created_at :: string

record repository =
  rp_id :: string
  rp_name :: string
  rp_full_name :: string
  rp_description :: string
  rp_is_private :: bool
  rp_default_branch :: string
  rp_clone_url :: string
  rp_star_count :: int
  rp_fork_count :: int
  rp_owner :: user
  rp_created_at :: string
  rp_updated_at :: string

datatype entry_type = Blob | Tree

record tree_entry =
  en_name :: string
  en_path :: string
  en_type :: entry_type
  en_size :: nat
  en_sha :: string
  en_mode :: string

text \<open>\<open>entries\<close> may be missing or \<open>null\<close>: the pages guard against it.\<close>

record tree_response =
  tr_sha :: string
  tr_path :: string
  tr_entries :: "tree_entry list option"

record blob_response =
  bl_path :: string
  bl_content :: string
  bl_encoding :: string
  bl_size :: nat
  bl_sha :: string

record commit_author =
  ca_name :: string
  ca_email :: string
  ca_date :: string

record commit_response =
  co_sha :: string
  co_message :: string
  co_author :: commit_author
  co_committer :: commit_author
  co_parents :: "string list"
  co_html_url :: string

record branch_response =
  br_name :: string
  br_commit_sha :: string
  br_is_default :: bool

record ssh_key =
  sk_id :: string
  sk_title :: string
  sk_fingerprint :: string
  sk_last_used_at :: "string option"
  sk_created_at :: string

record activity_event =
  ae_id :: string
  ae_actor_id :: string
  ae_event_type :: string
  ae_repo_id :: "string option"
  ae_payload :: "(string \<times> json) list"
  ae_created_at :: string

record access_token =
  at_id :: string
  at_user_id :: string
  at_name :: string
  at_prefix :: string
  at_scopes :: "string list"
  at_last_used_at :: "string option"
  at_expires_at :: "string option"
  at_created_at :: string

record created_token = access_token +
  ct_token :: string
  ct_message :: string

text \<open>
  How dates are printed (\<open>format\<close> and \<open>formatDistanceToNow\<close> with a suffix); a date that is not valid
  makes both throw.
\<close>

record dates =
  d_format :: "string \<Rightarrow> string \<Rightarrow> string option"
  d_ago :: "string \<Rightarrow> string option"

definition or_throw :: "string option \<Rightarrow> 'e view" where
  "or_throw s = (case s of None \<Rightarrow> Throws | Some t \<Rightarrow> Text t)"

definition date_view :: "dates \<Rightarrow> string \<Rightarrow> string \<Rightarrow> 'e view" where
  "date_view d pattern t = or_throw (d_format d t pattern)"

definition ago_view :: "dates \<Rightarrow> string \<Rightarrow> 'e view" where
  "ago_view d t = or_throw (d_ago d t)"

section \<open>The small components\<close>

datatype ui_size = Xs | Sm | Md | Lg

definition or_class :: "string option \<Rightarrow> class_arg" where
  "or_class c = (case c of None \<Rightarrow> AFalsy | Some s \<Rightarrow> AStr s)"

definition spinner_sizes :: "ui_size \<Rightarrow> string" where
  "spinner_sizes s = (case s of Xs \<Rightarrow> ''w-3 h-3 border'' | Sm \<Rightarrow> ''w-4 h-4 border''
     | Md \<Rightarrow> ''w-6 h-6 border-2'' | Lg \<Rightarrow> ''w-8 h-8 border-2'')"

definition Spinner :: "ui_size \<Rightarrow> string option \<Rightarrow> 'e view" where
  "Spinner s className =
     Styled [AStr ''rounded-full border-current border-t-transparent animate-spin'', AStr (spinner_sizes s), or_class className]
       (Icon ''Loading'')"

definition FullPageSpinner :: "'e view" where
  "FullPageSpinner = El ''div'' [Spinner Md (Some ''text-secondary'')]"

datatype badge_variant = BDefault | BSuccess | BWarning | BError | BPurple | BMuted

definition badge_variants :: "badge_variant \<Rightarrow> string" where
  "badge_variants v = (case v of
       BDefault \<Rightarrow> ''bg-elevated border-line text-secondary''
     | BSuccess \<Rightarrow> ''bg-[rgba(63,185,80,0.15)] border-[rgba(63,185,80,0.4)] text-accent-green''
     | BWarning \<Rightarrow> ''bg-[rgba(210,153,34,0.15)] border-[rgba(210,153,34,0.4)] text-accent-orange''
     | BError \<Rightarrow> ''bg-[rgba(248,81,73,0.15)] border-[rgba(248,81,73,0.4)] text-accent-red''
     | BPurple \<Rightarrow> ''bg-[rgba(188,140,255,0.15)] border-[rgba(188,140,255,0.4)] text-accent-purple''
     | BMuted \<Rightarrow> ''bg-transparent border-line-muted text-muted'')"

definition Badge :: "badge_variant \<Rightarrow> 'e view list \<Rightarrow> 'e view" where
  "Badge v children =
     Styled [AStr ''inline-flex items-center border px-1.5 py-0.5 font-mono text-2xs leading-none'',
             AStr (badge_variants v), AFalsy] (El ''span'' children)"

datatype button_variant = Primary | Secondary | Ghost | Danger | Outline

definition button_base :: string where
  "button_base = ''inline-flex items-center justify-center gap-2 font-sans font-medium transition-colors duration-100 disabled:opacity-50 disabled:cursor-not-allowed focus-visible:outline-none focus-visible:ring-2 focus-visible:ring-accent-blue focus-visible:ring-offset-1 focus-visible:ring-offset-base''"

definition button_variants :: "button_variant \<Rightarrow> string" where
  "button_variants v = (case v of
       Primary \<Rightarrow> ''bg-accent-blue text-base hover:bg-[#79c0ff] border border-transparent''
     | Secondary \<Rightarrow> ''bg-elevated border border-line text-primary hover:border-[#3a3d45] hover:bg-[#1e2128]''
     | Ghost \<Rightarrow> ''bg-transparent border border-transparent text-secondary hover:text-primary hover:bg-elevated''
     | Danger \<Rightarrow> ''bg-accent-red text-white hover:bg-[#ff6b6b] border border-transparent''
     | Outline \<Rightarrow> ''bg-transparent border border-accent-blue text-accent-blue hover:bg-accent-blue hover:text-base'')"

definition button_sizes :: "ui_size \<Rightarrow> string" where
  "button_sizes s = (case s of Sm \<Rightarrow> ''h-7 px-3 text-xs'' | Lg \<Rightarrow> ''h-10 px-6 text-sm'' | _ \<Rightarrow> ''h-8 px-4 text-sm'')"

definition button_classes :: "button_variant \<Rightarrow> ui_size \<Rightarrow> string option \<Rightarrow> class_arg list" where
  "button_classes v s className = [AStr button_base, AStr (button_variants v), AStr (button_sizes s), or_class className]"

text \<open>A button is disabled while it is loading, and shows that it is.\<close>

definition Button :: "button_variant \<Rightarrow> ui_size \<Rightarrow> bool \<Rightarrow> bool \<Rightarrow> string option \<Rightarrow> 'e \<Rightarrow> 'e view list \<Rightarrow> 'e view" where
  "Button v s loading disabled className onClick children =
     Styled (button_classes v s className)
       (Press (\<not> (disabled \<or> loading)) onClick (when_view loading (Icon ''Loading'') @ children))"

definition avatar_sizes :: "ui_size \<Rightarrow> string" where
  "avatar_sizes s = (case s of Xs \<Rightarrow> ''w-5 h-5 text-2xs'' | Sm \<Rightarrow> ''w-7 h-7 text-xs'' | Md \<Rightarrow> ''w-9 h-9 text-sm''
     | Lg \<Rightarrow> ''w-12 h-12 text-base'')"

text \<open>\<open>a || b || c\<close> over strings that may be missing.\<close>

definition or_string :: "string option \<Rightarrow> string \<Rightarrow> string" where
  "or_string a b = (case a of None \<Rightarrow> b | Some s \<Rightarrow> if s = [] then b else s)"

definition Avatar :: "user option \<Rightarrow> string option \<Rightarrow> ui_size \<Rightarrow> string option \<Rightarrow> 'e view" where
  "Avatar u username s className =
     (let name = or_string (map_option us_display_name u) (or_string (map_option us_username u) (or_string username ''?''));
          avatarUrl = or_string (map_option us_avatar_url u) []
      in if avatarUrl \<noteq> []
         then Styled [AStr (avatar_sizes s), AStr ''rounded-none object-cover flex-shrink-0'', or_class className]
                (El ''img'' [Text avatarUrl, Text name])
         else Styled [AStr (avatar_sizes s),
                AStr ''flex items-center justify-center flex-shrink-0 font-mono font-semibold text-base select-none'',
                or_class className]
                (El ''div'' [or_throw (initials name)]))"

definition avatar_name :: "user option \<Rightarrow> string option \<Rightarrow> string" where
  "avatar_name u username = or_string (map_option us_username u) (or_string username ''?'')"

definition EmptyState :: "'e view option \<Rightarrow> string \<Rightarrow> string option \<Rightarrow> (string \<times> 'e) option \<Rightarrow> 'e view" where
  "EmptyState icon title description action =
     Styled [AStr ''flex flex-col items-center justify-center py-16 px-8 text-center'', AStr ''border border-dashed border-line'', AFalsy]
       (El ''div'' ((case icon of None \<Rightarrow> [] | Some v \<Rightarrow> [El ''div'' [v]]) @ [El ''h3'' [Text title]] @
          (case description of None \<Rightarrow> [] | Some t \<Rightarrow> when_view (t \<noteq> []) (El ''p'' [Text t])) @
          (case action of None \<Rightarrow> [] | Some (l, e) \<Rightarrow> [Button Primary Sm False False None e [Text l]])))"

definition input_id :: "string option \<Rightarrow> string option" where
  "input_id label = map_option (\<lambda>l. join ''-'' (split_ws (to_lower l))) label"

definition Input :: "string option \<Rightarrow> bool \<Rightarrow> string option \<Rightarrow> string option \<Rightarrow> string \<Rightarrow> (string \<Rightarrow> 'e) \<Rightarrow> 'e view" where
  "Input label monospace error className value onChange =
     El ''div'' ((case label of None \<Rightarrow> [] | Some l \<Rightarrow> when_view (l \<noteq> []) (El ''label'' [Text l])) @
       [Styled [AStr ''w-full bg-base border border-line text-primary placeholder:text-muted'',
           AStr ''h-8 px-3 text-sm focus:outline-none focus:ring-0'', AStr ''transition-colors duration-100'',
           AStr ''disabled:opacity-50 disabled:cursor-not-allowed'', if monospace then AStr ''font-mono'' else AFalsy, AFalsy,
           if error = None \<or> error = Some [] then AFalsy else AStr ''border-accent-red'', or_class className]
          (Field (or_string label []) value onChange)] @
       (case error of None \<Rightarrow> [] | Some e \<Rightarrow> when_view (e \<noteq> []) (El ''p'' [Text e])))"

definition Textarea :: "string option \<Rightarrow> string option \<Rightarrow> string option \<Rightarrow> string \<Rightarrow> (string \<Rightarrow> 'e) \<Rightarrow> 'e view" where
  "Textarea label error className value onChange =
     El ''div'' ((case label of None \<Rightarrow> [] | Some l \<Rightarrow> when_view (l \<noteq> []) (El ''label'' [Text l])) @
       [Styled [AStr ''w-full bg-base border border-line text-primary placeholder:text-muted'',
           AStr ''px-3 py-2 text-sm focus:outline-none focus:ring-0 resize-none'', AStr ''transition-colors duration-100'',
           if error = None \<or> error = Some [] then AFalsy else AStr ''border-accent-red'', or_class className]
          (Field (or_string label []) value onChange)] @
       (case error of None \<Rightarrow> [] | Some e \<Rightarrow> when_view (e \<noteq> []) (El ''p'' [Text e])))"

text \<open>
  \<open>CopyButton\<close>: the state is whether it shows that the text was copied; \<open>copies\<close> counts the timers
  that will reset it, one per successful copy.
\<close>

record copy_state =
  cp_copied :: bool
  cp_timers :: nat

datatype copy_event = CopyWritten | CopyFailed | CopyTimer

definition copy_start :: copy_state where
  "copy_start = \<lparr>cp_copied = False, cp_timers = 0\<rparr>"

text \<open>A rejected \<open>writeText\<close> leaves the handler; nothing is shown.\<close>

definition copy_step :: "copy_event \<Rightarrow> copy_state \<Rightarrow> copy_state" where
  "copy_step e s = (case e of
       CopyWritten \<Rightarrow> \<lparr>cp_copied = True, cp_timers = cp_timers s + 1\<rparr>
     | CopyFailed \<Rightarrow> s
     | CopyTimer \<Rightarrow> if cp_timers s = 0 then s else \<lparr>cp_copied = False, cp_timers = cp_timers s - 1\<rparr>)"

definition CopyButton :: "bool \<Rightarrow> string option \<Rightarrow> bool \<Rightarrow> 'e \<Rightarrow> 'e view" where
  "CopyButton copied className iconOnly onClick =
     Styled [AStr ''inline-flex items-center gap-1.5 text-xs transition-colors duration-150'',
             AStr ''text-secondary hover:text-primary'',
             AStr ''focus-visible:outline-none focus-visible:ring-1 focus-visible:ring-accent-blue'', or_class className]
       (Press True onClick
         (if copied then Icon ''Check'' # when_view (\<not> iconOnly) (Text ''Copied!'')
          else Icon ''Copy'' # when_view (\<not> iconOnly) (Text ''Copy'')))"

lemma view_leaf [simp]:
  "links (Spinner s c) = []" "redirects (Spinner s c) = []" "offers (Spinner s c) = []" "texts (Spinner s c) = []"
  "links (or_throw o1) = []" "redirects (or_throw o1) = []" "offers (or_throw o1) = []"
  "links (date_view d p t) = []" "redirects (date_view d p t) = []" "offers (date_view d p t) = []"
  "links (ago_view d t) = []" "redirects (ago_view d t) = []" "offers (ago_view d t) = []"
  "links (Avatar u n s c) = []" "redirects (Avatar u n s c) = []" "offers (Avatar u n s c) = []"
  by (simp_all add: Spinner_def or_throw_def date_view_def ago_view_def Avatar_def Let_def split: option.splits)

lemma view_badge [simp]:
  "links (Badge b vs) = concat (map links vs)" "redirects (Badge b vs) = concat (map redirects vs)"
  "offers (Badge b vs) = concat (map offers vs)"
  by (simp_all add: Badge_def)

lemma view_button [simp]:
  "links (Button v s l d c e vs) = concat (map links vs)" "redirects (Button v s l d c e vs) = concat (map redirects vs)"
  "offers (Button v s l d c e vs) = (if d \<or> l then [] else [e]) @ concat (map offers vs)"
  by (simp_all add: Button_def when_view_def)

lemma view_input [simp]:
  "links (Input l m err c v f) = []" "redirects (Input l m err c v f) = []" "offers (Input l m err c v f) = []"
  "links (Textarea l err c v f) = []" "redirects (Textarea l err c v f) = []" "offers (Textarea l err c v f) = []"
  by (auto simp: Input_def Textarea_def when_view_def split: option.splits)

lemma view_copy [simp]:
  "links (CopyButton b c i e) = []" "redirects (CopyButton b c i e) = []" "offers (CopyButton b c i e) = [e]"
  by (simp_all add: CopyButton_def when_view_def)

lemma view_empty [simp]:
  "links (EmptyState None t d None) = []" "redirects (EmptyState i t d None) = (case i of None \<Rightarrow> [] | Some v \<Rightarrow> redirects v)"
  "offers (EmptyState None t d None) = []" "links (EmptyState (Some (Icon n)) t d None) = []"
  by (auto simp: EmptyState_def when_view_def split: option.splits)

end
