(* ===== verification/RepoViews.thy ===== *)
theory RepoViews
  imports Views
begin

text \<open>
  The components of repositories (\<open>ui/src/components/repo\<close>), the tabs of \<open>Sidebar.tsx\<close> and
  \<open>ui/src/lib/highlight.ts\<close>. A component with state is a record, its view and a step function; what
  the browser or a library decides is an argument: the collation of \<open>localeCompare\<close>, the parser of
  \<open>URL\<close>, the highlighter.
\<close>

section \<open>Highlighting\<close>

definition SUPPORTED_LANGS :: "string list" where
  "SUPPORTED_LANGS =
     [''go'', ''typescript'', ''tsx'', ''javascript'', ''jsx'', ''python'', ''rust'',
      ''sql'', ''yaml'', ''json'', ''bash'', ''sh'', ''markdown'', ''html'', ''css'',
      ''toml'', ''dockerfile'', ''ruby'', ''java'', ''kotlin'', ''cpp'', ''c'', ''csharp'',
      ''swift'', ''protobuf'', ''text'']"

definition lang_ids :: "(string \<times> string) list" where
  "lang_ids =
     [(''go'', ''go''), (''ts'', ''typescript''), (''tsx'', ''tsx''), (''js'', ''javascript''),
      (''jsx'', ''jsx''), (''py'', ''python''), (''rs'', ''rust''), (''sql'', ''sql''),
      (''yaml'', ''yaml''), (''yml'', ''yaml''), (''json'', ''json''), (''sh'', ''bash''),
      (''bash'', ''bash''), (''md'', ''markdown''), (''html'', ''html''), (''css'', ''css''),
      (''toml'', ''toml''), (''dockerfile'', ''dockerfile''), (''rb'', ''ruby''),
      (''java'', ''java''), (''kt'', ''kotlin''), (''cpp'', ''cpp''), (''c'', ''c''),
      (''cs'', ''csharp''), (''swift'', ''swift''), (''proto'', ''protobuf'')]"

text \<open>\<open>None\<close>: an inherited property was found, no language id.\<close>

definition fileExtToLang :: "string \<Rightarrow> string option" where
  "fileExtToLang filename =
     (if to_lower filename = ''dockerfile'' then Some ''dockerfile''
      else or_default ''text'' (obj_get lang_ids (file_ext filename)))"

text \<open>
  The variables \<open>_highlighter\<close> and \<open>_loading\<close>: nothing asked for, a promise that is pending, fulfilled
  or rejected.
\<close>

datatype highlighter = Unloaded | Loading | Loaded | Broken

definition getHighlighter :: "highlighter \<Rightarrow> highlighter" where
  "getHighlighter h = (case h of Unloaded \<Rightarrow> Loading | _ \<Rightarrow> h)"

definition highlighter_settles :: "bool \<Rightarrow> highlighter \<Rightarrow> highlighter" where
  "highlighter_settles ok h = (case h of Loading \<Rightarrow> if ok then Loaded else Broken | _ \<Rightarrow> h)"

definition escape_html :: "string \<Rightarrow> string" where
  "escape_html code =
     (let a = concat (map (\<lambda>c. if c = CHR ''&'' then ''&amp;'' else [c]) code);
          b = concat (map (\<lambda>c. if c = CHR ''<'' then ''&lt;'' else [c]) a)
      in concat (map (\<lambda>c. if c = CHR ''>'' then ''&gt;'' else [c]) b))"

text \<open>
  \<open>highlight\<close> once the promise is settled (\<open>None\<close> while it waits): what the highlighter makes of the
  code, or the escaped text when there is none or it throws.
\<close>

definition highlight :: "(string \<Rightarrow> string option \<Rightarrow> string option) \<Rightarrow> highlighter \<Rightarrow> string \<Rightarrow> string \<Rightarrow> string option" where
  "highlight codeToHtml h code filename =
     (let fallback = ''<pre><code>'' @ escape_html code @ ''</code></pre>''
      in case h of
           Loaded \<Rightarrow> Some (case codeToHtml code (fileExtToLang filename) of None \<Rightarrow> fallback | Some html \<Rightarrow> html)
         | Broken \<Rightarrow> Some fallback
         | _ \<Rightarrow> None)"

section \<open>Base 64\<close>

text \<open>
  \<open>atob\<close>: white space is dropped, then up to two signs of padding when the length is a multiple of
  four; \<open>None\<close> where it throws. The result has one character per byte.
\<close>

definition b64_alphabet :: string where
  "b64_alphabet = ''ABCDEFGHIJKLMNOPQRSTUVWXYZabcdefghijklmnopqrstuvwxyz0123456789+/''"

definition b64_space :: "char \<Rightarrow> bool" where
  "b64_space c = (c \<in> {CHR 0x09, CHR 0x0A, CHR 0x0C, CHR 0x0D, CHR 0x20})"

definition strip_padding :: "string \<Rightarrow> string" where
  "strip_padding s =
     (if length s mod 4 \<noteq> 0 then s
      else if ends_with s ''=='' then take (length s - 2) s
      else if ends_with s ''='' then take (length s - 1) s else s)"

fun b64_bytes :: "nat list \<Rightarrow> nat list" where
  "b64_bytes (a # b # c # d # r) =
     (a * 4 + b div 16) # ((b mod 16) * 16 + c div 4) # ((c mod 4) * 64 + d) # b64_bytes r"
| "b64_bytes [a, b, c] = [a * 4 + b div 16, (b mod 16) * 16 + c div 4]"
| "b64_bytes [a, b] = [a * 4 + b div 16]"
| "b64_bytes _ = []"

definition atob :: "string \<Rightarrow> string option" where
  "atob data =
     (let s = strip_padding (filter (\<lambda>c. \<not> b64_space c) data) in
      if length s mod 4 = 1 \<or> \<not> list_all (\<lambda>c. c \<in> set b64_alphabet) s then None
      else Some (map char_of (b64_bytes (map (\<lambda>c. the (index_of b64_alphabet c)) s))))"

section \<open>The file viewer\<close>

text \<open>
  The state after the effect: the number of lines, and the highlighted text when there is any yet.
  The effect throws when the content is not base 64.
\<close>

record viewer =
  vw_lines :: nat
  vw_html :: "string option"

definition viewer_start :: viewer where
  "viewer_start = \<lparr>vw_lines = 0, vw_html = None\<rparr>"

definition viewer_effect :: "string \<Rightarrow> viewer \<Rightarrow> viewer option" where
  "viewer_effect content v = map_option (\<lambda>decoded. v\<lparr>vw_lines := length (split_on CHR 0x0A decoded)\<rparr>) (atob content)"

definition viewer_highlighted :: "string \<Rightarrow> viewer \<Rightarrow> viewer" where
  "viewer_highlighted html v = v\<lparr>vw_html := Some html\<rparr>"

definition FileViewer :: "viewer \<Rightarrow> nat \<Rightarrow> string \<Rightarrow> string option \<Rightarrow> 'e view" where
  "FileViewer v bytes sha rawUrl =
     El ''div''
       [El ''div'' [El ''span'' [Text (show_nat (vw_lines v) @ '' lines'')], El ''span'' [Text (formatBytes bytes)],
                    El ''span'' [Text (str_slice 0 7 sha)]],
        El ''div'' (case rawUrl of None \<Rightarrow> [] | Some u \<Rightarrow> when_view (u \<noteq> []) (Anchor u [Text ''Raw''])),
        (case vw_html v of None \<Rightarrow> Spinner Md (Some ''text-secondary'') | Some html \<Rightarrow> Markup html)]"

section \<open>The file tree\<close>

text \<open>
  A node with its state: whether it is open, its children once loaded, whether it is loading, and how
  many of its requests are out. The children of a folder are mounted while it is open; their state
  starts afresh when it opens again.
\<close>

datatype file_node =
  FileNode (fn_entry: tree_entry) (fn_open: bool) (fn_children: "file_node list option") (fn_loading: bool) (fn_pending: nat)

definition fresh_node :: "tree_entry \<Rightarrow> file_node" where
  "fresh_node e = FileNode e False None False 0"

definition restart_node :: "file_node \<Rightarrow> file_node" where
  "restart_node n = fresh_node (fn_entry n)"

text \<open>A node keeps its state while its key, the path, is in the list.\<close>

fun with_entry :: "tree_entry \<Rightarrow> file_node \<Rightarrow> file_node" where
  "with_entry e (FileNode e' is_open children loading n) = FileNode e is_open children loading n"

definition keep_nodes :: "file_node list \<Rightarrow> tree_entry list \<Rightarrow> file_node list" where
  "keep_nodes old entries =
     map (\<lambda>e. case find (\<lambda>n. en_path (fn_entry n) = en_path e) old of None \<Rightarrow> fresh_node e | Some n \<Rightarrow> with_entry e n) entries"

text \<open>
  \<open>handleClick\<close>: a file is shown; a folder that is closed and not loaded asks for its entries in the
  revision that is shown, and its handler has seen it closed; otherwise it is opened or closed.
\<close>

datatype node_effect = Navigate string | AskTree string string | NoEffect

definition blob_link :: "string \<Rightarrow> string \<Rightarrow> string \<Rightarrow> string \<Rightarrow> string" where
  "blob_link owner repo ref path = ''/'' @ owner @ ''/'' @ repo @ ''/blob/'' @ ref @ ''/'' @ path"

fun node_click :: "string \<Rightarrow> string \<Rightarrow> string \<Rightarrow> file_node \<Rightarrow> file_node \<times> node_effect" where
  "node_click owner repo ref (FileNode e is_open children loading n) =
     (if en_type e = Blob then (FileNode e is_open children loading n, Navigate (blob_link owner repo ref (en_path e)))
      else if \<not> is_open \<and> children = None then (FileNode e is_open children True (n + 1), AskTree ref (en_path e))
      else (FileNode e (\<not> is_open) (map_option (map restart_node) children) loading n, NoEffect))"

text \<open>An answer: \<open>setChildren\<close>, \<open>finally\<close>, then the folder opens; a failure leaves the handler after \<open>finally\<close>.\<close>

fun node_answer :: "tree_response option \<Rightarrow> file_node \<Rightarrow> file_node" where
  "node_answer r (FileNode e is_open children loading n) =
     (if n = 0 then FileNode e is_open children loading n
      else case r of
         None \<Rightarrow> FileNode e is_open children False (n - 1)
       | Some t \<Rightarrow> FileNode e True
           (Some (keep_nodes (case children of None \<Rightarrow> [] | Some cs \<Rightarrow> cs) (case tr_entries t of None \<Rightarrow> [] | Some es \<Rightarrow> es)))
           False (n - 1))"

text \<open>The node at a position of what is mounted.\<close>

fun at_node :: "nat list \<Rightarrow> (file_node \<Rightarrow> file_node) \<Rightarrow> file_node list \<Rightarrow> file_node list" where
  "at_node [] f ns = ns"
| "at_node [i] f ns = (if i < length ns then ns[i := f (ns ! i)] else ns)"
| "at_node (i # p) f ns =
     (if i < length ns
      then ns[i := (case ns ! i of FileNode e is_open children loading n \<Rightarrow>
             FileNode e is_open (if is_open then map_option (at_node p f) children else children) loading n)]
      else ns)"

lemma size_nth_list: "i < length (cs :: 'a :: size list) \<Longrightarrow> size (cs ! i) < Suc (size_list size cs)"
  by (simp add: less_Suc_eq_le size_list_estimation' [OF nth_mem])

text \<open>The event of a node is where it is in the tree.\<close>

function FileNode_view :: "nat list \<Rightarrow> file_node \<Rightarrow> nat list view" where
  "FileNode_view pos (FileNode e is_open children loading n) =
     El ''div'' (Press True pos
         ((if en_type e = Tree then [Icon ''ChevronRight'', Icon (if is_open then ''FolderOpen'' else ''Folder'')]
           else [Icon ''FileText'']) @
          [El ''span'' [Text (en_name e)]] @ when_view loading (Spinner Xs (Some ''ml-auto text-secondary''))) #
       (case children of
          None \<Rightarrow> []
        | Some cs \<Rightarrow> when_view (en_type e = Tree \<and> is_open)
            (El ''div'' (map (\<lambda>i. FileNode_view (pos @ [i]) (cs ! i)) [0..<length cs] @
               when_view (cs = []) (El ''p'' [Text ''Empty directory''])))))"
  by pat_completeness auto

termination
  by (relation "measure (\<lambda>(pos, n). size n)") (auto dest!: size_nth_list)

text \<open>\<open>sort\<close> with a comparison function is stable: the one sorted stable order.\<close>

fun insert_with :: "('a \<Rightarrow> 'a \<Rightarrow> int) \<Rightarrow> 'a \<Rightarrow> 'a list \<Rightarrow> 'a list" where
  "insert_with cmp x [] = [x]"
| "insert_with cmp x (y # ys) = (if cmp y x < 0 then y # insert_with cmp x ys else x # y # ys)"

definition js_sort :: "('a \<Rightarrow> 'a \<Rightarrow> int) \<Rightarrow> 'a list \<Rightarrow> 'a list" where
  "js_sort cmp xs = foldr (insert_with cmp) xs []"

definition compare_entries :: "(string \<Rightarrow> string \<Rightarrow> int) \<Rightarrow> tree_entry \<Rightarrow> tree_entry \<Rightarrow> int" where
  "compare_entries localeCompare a b =
     (if en_type a = en_type b then localeCompare (en_name a) (en_name b) else if en_type a = Tree then -1 else 1)"

definition sorted_entries :: "(string \<Rightarrow> string \<Rightarrow> int) \<Rightarrow> tree_entry list \<Rightarrow> tree_entry list" where
  "sorted_entries localeCompare entries = js_sort (compare_entries localeCompare) entries"

text \<open>
  What happens to a tree: it is rendered with the entries of a revision, a node is clicked, a node
  receives an answer.
\<close>

datatype tree_event = TreeShow "tree_entry list" | TreeClick "nat list" | TreeAnswer "nat list" "tree_response option"

definition tree_step :: "(string \<Rightarrow> string \<Rightarrow> int) \<Rightarrow> string \<Rightarrow> string \<Rightarrow> string \<Rightarrow> tree_event \<Rightarrow> file_node list \<Rightarrow> file_node list" where
  "tree_step localeCompare owner repo ref ev ns = (case ev of
       TreeShow entries \<Rightarrow> keep_nodes ns (sorted_entries localeCompare entries)
     | TreeClick pos \<Rightarrow> at_node pos (fst \<circ> node_click owner repo ref) ns
     | TreeAnswer pos r \<Rightarrow> at_node pos (node_answer r) ns)"

definition FileTree :: "file_node list \<Rightarrow> nat list view" where
  "FileTree ns =
     (if ns = [] then El ''div'' [Text ''No files yet'']
      else El ''div'' (map (\<lambda>i. FileNode_view [i] (ns ! i)) [0..<length ns]))"

section \<open>The breadcrumb\<close>

definition path_parts :: "string \<Rightarrow> string list" where
  "path_parts path = filter (\<lambda>s. s \<noteq> []) (split_on CHR ''/'' path)"

definition type_name :: "entry_type \<Rightarrow> string" where
  "type_name t = (case t of Blob \<Rightarrow> ''blob'' | Tree \<Rightarrow> ''tree'')"

definition crumb_link :: "string \<Rightarrow> string \<Rightarrow> string \<Rightarrow> entry_type \<Rightarrow> string list \<Rightarrow> nat \<Rightarrow> string" where
  "crumb_link owner repo branch t parts i =
     ''/'' @ owner @ ''/'' @ repo @ ''/'' @ type_name (if i = length parts - 1 then t else Tree) @ ''/'' @ branch @ ''/'' @
       join ''/'' (take (i + 1) parts)"

definition Breadcrumb :: "string \<Rightarrow> string \<Rightarrow> string \<Rightarrow> string \<Rightarrow> entry_type \<Rightarrow> 'e view" where
  "Breadcrumb owner repo branch path t =
     (let parts = path_parts path in
      El ''nav'' ([LinkTo (''/'' @ owner) [Text owner], Icon ''ChevronRight'',
          LinkTo (''/'' @ owner @ ''/'' @ repo) [Text repo]] @
        map (\<lambda>(i, segment). El ''span'' [Icon ''ChevronRight'',
            (if i = length parts - 1 then El ''span'' [Text segment]
             else LinkTo (crumb_link owner repo branch t parts i) [Text segment])])
          (zip [0..<length parts] parts)))"

section \<open>Commits\<close>

definition CommitRow :: "dates \<Rightarrow> bool \<Rightarrow> commit_response \<Rightarrow> string view" where
  "CommitRow d copied commit =
     El ''div''
       [Avatar None (Some (ca_name (co_author commit))) Xs (Some ''mt-0.5 flex-shrink-0''),
        El ''p'' [Units (LibUtils.truncate (units (hd (split_on CHR 0x0A (co_message commit)))) 100)],
        El ''span'' [Text (ca_name (co_author commit))],
        El ''span'' [date_view d ''PPpp'' (ca_date (co_author commit)), ago_view d (ca_date (co_author commit))],
        El ''span'' [Text (shortSha (co_sha commit))],
        CopyButton copied None True (co_sha commit), Icon ''GitCommit'']"

text \<open>\<open>groupByDate\<close>: a \<open>Map\<close> keeps the order in which keys first come; \<open>None\<close> when a date is not valid.\<close>

definition add_commit :: "string \<Rightarrow> 'c \<Rightarrow> (string \<times> 'c list) list \<Rightarrow> (string \<times> 'c list) list" where
  "add_commit key commit groups =
     al_set groups key ((case al_get groups key of None \<Rightarrow> [] | Some g \<Rightarrow> g) @ [commit])"

fun group_loop :: "('c \<Rightarrow> string option) \<Rightarrow> 'c list \<Rightarrow> (string \<times> 'c list) list \<Rightarrow> (string \<times> 'c list) list option" where
  "group_loop key [] groups = Some groups"
| "group_loop key (c # cs) groups =
     (case key c of None \<Rightarrow> None | Some k \<Rightarrow> group_loop key cs (add_commit k c groups))"

definition groupByDate :: "dates \<Rightarrow> commit_response list \<Rightarrow> (string \<times> commit_response list) list option" where
  "groupByDate d commits = group_loop (\<lambda>c. d_format d (ca_date (co_author c)) ''MMMM d, yyyy'') commits []"

definition CommitList :: "dates \<Rightarrow> (string \<Rightarrow> bool) \<Rightarrow> commit_response list \<Rightarrow> bool \<Rightarrow> string option \<Rightarrow> string view" where
  "CommitList d copied commits loading error =
     (if loading then Spinner Md (Some ''text-secondary mx-auto my-12'')
      else if error \<noteq> None \<and> error \<noteq> Some [] then El ''div'' [Text (the error)]
      else if commits = [] then
        EmptyState (Some (Icon ''GitCommit'')) ''No commits yet'' (Some ''This repository has no commit history.'') None
      else (case groupByDate d commits of
          None \<Rightarrow> Throws
        | Some groups \<Rightarrow> El ''div'' (map (\<lambda>(date, group).
            El ''div'' [El ''p'' [Text ''Commits on '', El ''span'' [Text date]],
              El ''div'' (map (\<lambda>c. CommitRow d (copied (co_sha c)) c) group)]) groups)))"

section \<open>Repository cards\<close>

definition RepoCard :: "dates \<Rightarrow> repository \<Rightarrow> 'e view" where
  "RepoCard d repo =
     El ''div''
       ([LinkTo (''/'' @ us_username (rp_owner repo) @ ''/'' @ rp_name repo) [Text (rp_name repo)],
         Badge (if rp_is_private repo then BMuted else BDefault)
           (if rp_is_private repo then [El ''span'' [Icon ''Lock'', Text ''Private'']] else [Text ''Public''])] @
        when_view (rp_description repo \<noteq> []) (El ''p'' [Text (rp_description repo)]) @
        [El ''span'' [or_throw (detectLanguage (rp_name repo))]] @
        when_view (rp_star_count repo > 0) (El ''span'' [Icon ''Star'', Text (show_int (rp_star_count repo))]) @
        when_view (rp_fork_count repo > 0) (El ''span'' [Icon ''GitFork'', Text (show_int (rp_fork_count repo))]) @
        [El ''span'' [Text ''Updated '', ago_view d (rp_updated_at repo)]])"

section \<open>The branch selector\<close>

record selector =
  bs_open :: bool
  bs_filter :: string

datatype selector_event = BsToggle | BsFilter string | BsSelect string | BsOutside

definition selector_start :: selector where
  "selector_start = \<lparr>bs_open = False, bs_filter = []\<rparr>"

text \<open>The second component is the branch that was selected.\<close>

definition selector_step :: "selector_event \<Rightarrow> selector \<Rightarrow> selector \<times> string option" where
  "selector_step e s = (case e of
       BsToggle \<Rightarrow> (s\<lparr>bs_open := \<not> bs_open s\<rparr>, None)
     | BsFilter t \<Rightarrow> (s\<lparr>bs_filter := t\<rparr>, None)
     | BsSelect name \<Rightarrow> (\<lparr>bs_open = False, bs_filter = []\<rparr>, Some name)
     | BsOutside \<Rightarrow> (\<lparr>bs_open = False, bs_filter = []\<rparr>, None))"

text \<open>Where a selection leads without \<open>onSelect\<close>.\<close>

definition branch_link :: "string \<Rightarrow> string \<Rightarrow> string \<Rightarrow> string" where
  "branch_link owner repo name = ''/'' @ owner @ ''/'' @ repo @ ''/tree/'' @ name"

definition filter_branches :: "string \<Rightarrow> branch_response list \<Rightarrow> branch_response list" where
  "filter_branches s branches = filter (\<lambda>b. str_includes (to_lower (br_name b)) (to_lower s)) branches"

definition or_nil :: "'a list option \<Rightarrow> 'a list" where
  "or_nil xs = (case xs of None \<Rightarrow> [] | Some ys \<Rightarrow> ys)"

definition BranchSelector :: "selector \<Rightarrow> string \<Rightarrow> branch_response list shown \<Rightarrow> selector_event view" where
  "BranchSelector s currentBranch q =
     (let filtered = filter_branches (bs_filter s) (or_nil (sh_data q)) in
      El ''div'' (Press True BsToggle [Icon ''GitBranch'', El ''span'' [Text currentBranch], Icon ''ChevronDown''] #
        when_view (bs_open s)
          (El ''div'' ([Field ''Find a branch...'' (bs_filter s) BsFilter] @
             when_view (sh_loading q) (Spinner Sm (Some ''text-secondary'')) @
             map (\<lambda>b. Press True (BsSelect (br_name b))
               ([Icon (if br_name b = currentBranch then ''Check'' else ''NoCheck''), El ''span'' [Text (br_name b)]] @
                when_view (br_is_default b) (El ''span'' [Text ''default'']))) filtered @
             when_view (\<not> sh_loading q \<and> filtered = []) (El ''p'' [Text ''No branches found''])))))"

section \<open>The clone button\<close>

datatype clone_tab = Https | Ssh

record clone_state =
  cl_open :: bool
  cl_tab :: clone_tab

datatype clone_event = ClToggle | ClTab clone_tab | ClOutside | ClCopy string

definition clone_start :: clone_state where
  "clone_start = \<lparr>cl_open = False, cl_tab = Https\<rparr>"

definition clone_step :: "clone_event \<Rightarrow> clone_state \<Rightarrow> clone_state" where
  "clone_step e s = (case e of
       ClToggle \<Rightarrow> s\<lparr>cl_open := \<not> cl_open s\<rparr>
     | ClTab t \<Rightarrow> s\<lparr>cl_tab := t\<rparr>
     | ClOutside \<Rightarrow> s\<lparr>cl_open := False\<rparr>
     | ClCopy t \<Rightarrow> s)"

definition SSH_PORT :: nat where
  "SSH_PORT = 2222"

text \<open>\<open>parse_url\<close> is \<open>new URL\<close>: host name and path, or the exception.\<close>

definition toSshUrl :: "(string \<Rightarrow> (string \<times> string) option) \<Rightarrow> string \<Rightarrow> string" where
  "toSshUrl parse_url cloneUrl = (case parse_url cloneUrl of
       None \<Rightarrow> cloneUrl
     | Some (hostname, pathname) \<Rightarrow> ''ssh://git@'' @ hostname @ '':'' @ show_nat SSH_PORT @ pathname)"

definition CloneButton :: "(string \<Rightarrow> (string \<times> string) option) \<Rightarrow> bool \<Rightarrow> clone_state \<Rightarrow> string \<Rightarrow> clone_event view" where
  "CloneButton parse_url copied s cloneUrl =
     (let displayUrl = (if cl_tab s = Https then cloneUrl else toSshUrl parse_url cloneUrl) in
      El ''div'' (Press True ClToggle [Icon ''Download'', Text ''Code''] #
        when_view (cl_open s)
          (El ''div'' ([El ''p'' [Text ''Clone''],
              El ''div'' [Press True (ClTab Https) [Text ''HTTPS''], Press True (ClTab Ssh) [Text ''SSH'']],
              El ''div'' [Text displayUrl, CopyButton copied None True (ClCopy displayUrl)]] @
            when_view (cl_tab s = Ssh)
              (El ''p'' [Text (''SSH port: '' @ show_nat SSH_PORT), LinkTo ''/settings/keys'' [Text ''Add your SSH key'']]) @
            [El ''p'' [Text (''$ git clone '' @ displayUrl)]]))))"

section \<open>The tabs of a repository\<close>

datatype repo_tab = TabCode | TabCommits | TabBranches

definition tab_href :: "string \<Rightarrow> string \<Rightarrow> repo_tab \<Rightarrow> string" where
  "tab_href owner repo t = ''/'' @ owner @ ''/'' @ repo @
     (case t of TabCode \<Rightarrow> [] | TabCommits \<Rightarrow> ''/commits/main'' | TabBranches \<Rightarrow> ''/branches'')"

definition RepoSidebar :: "string \<Rightarrow> string \<Rightarrow> 'e view" where
  "RepoSidebar owner repo =
     El ''div'' (map (\<lambda>(t, label). LinkTo (tab_href owner repo t) [Icon label, Text label])
       [(TabCode, ''Code''), (TabCommits, ''Commits''), (TabBranches, ''Branches'')])"

end
