(* ===== verification/RepoFacts.thy ===== *)
theory RepoFacts
  imports RepoViews AppRoutes
begin

text \<open>
  What the components of repositories guarantee: the order of the file tree and the state of its
  folders, the grouping of commits, the escaping of the fallback, the decoding of files and the
  targets of the breadcrumb.
\<close>

section \<open>Sorting\<close>

text \<open>What \<open>sort\<close> relies on: a total preorder, as \<open>localeCompare\<close> is one.\<close>

definition preorder_cmp :: "('a \<Rightarrow> 'a \<Rightarrow> int) \<Rightarrow> bool" where
  "preorder_cmp cmp \<longleftrightarrow> (\<forall>a b. cmp a b < 0 \<longleftrightarrow> 0 < cmp b a) \<and> (\<forall>a b c. cmp a b \<le> 0 \<longrightarrow> cmp b c \<le> 0 \<longrightarrow> cmp a c \<le> 0)"

lemma preorder_cmpD:
  assumes "preorder_cmp cmp"
  shows "cmp a b < 0 \<longleftrightarrow> 0 < cmp b a" and "cmp a b \<le> 0 \<Longrightarrow> cmp b c \<le> 0 \<Longrightarrow> cmp a c \<le> 0"
    and "cmp a a = 0" and "cmp a b = 0 \<longleftrightarrow> cmp b a = 0"
proof -
  have *: "cmp x y < 0 \<longleftrightarrow> 0 < cmp y x" for x y using assms by (simp add: preorder_cmp_def)
  then show "cmp a b < 0 \<longleftrightarrow> 0 < cmp b a" by simp
  show "cmp a b \<le> 0 \<Longrightarrow> cmp b c \<le> 0 \<Longrightarrow> cmp a c \<le> 0" using assms by (auto simp: preorder_cmp_def)
  show "cmp a a = 0" using * [of a a] by linarith
  show "cmp a b = 0 \<longleftrightarrow> cmp b a = 0" using * [of a b] * [of b a] by linarith
qed

lemma mset_insert_with: "mset (insert_with cmp x ys) = add_mset x (mset ys)"
  by (induction ys) auto

lemma mset_js_sort: "mset (js_sort cmp xs) = mset xs"
  by (induction xs) (simp_all add: js_sort_def mset_insert_with)

lemma sorted_insert_with:
  assumes "preorder_cmp cmp" and "sorted_wrt (\<lambda>a b. cmp a b \<le> 0) ys"
  shows "sorted_wrt (\<lambda>a b. cmp a b \<le> 0) (insert_with cmp x ys)"
  using assms(2)
proof (induction ys)
  case (Cons y ys)
  note p = preorder_cmpD [OF assms(1)]
  have set: "set (insert_with cmp x ys) = insert x (set ys)"
    by (metis mset_insert_with set_mset_add_mset_insert set_mset_mset)
  show ?case
  proof (cases "cmp y x < 0")
    case True
    with Cons set show ?thesis by auto
  next
    case False
    then have "cmp x y \<le> 0" using p(1) [of y x] p(1) [of x y] by linarith
    with False Cons.prems show ?thesis using p(2) [of x y] by auto
  qed
qed simp

lemma sorted_js_sort: "preorder_cmp cmp \<Longrightarrow> sorted_wrt (\<lambda>a b. cmp a b \<le> 0) (js_sort cmp xs)"
  by (induction xs) (simp_all add: js_sort_def sorted_insert_with)

lemma stable_insert_with:
  assumes "preorder_cmp cmp"
  shows "filter (\<lambda>y. cmp y k = 0) (insert_with cmp x ys) = filter (\<lambda>y. cmp y k = 0) (x # ys)"
proof (induction ys)
  case (Cons y ys)
  note p = preorder_cmpD [OF assms]
  show ?case
  proof (cases "cmp y x < 0")
    case True
    have "\<not> (cmp y k = 0 \<and> cmp x k = 0)"
    proof
      assume "cmp y k = 0 \<and> cmp x k = 0"
      then have "cmp x k \<le> 0" "cmp k y \<le> 0" using p(4) [of y k] by simp_all
      then have "cmp x y \<le> 0" by (rule p(2))
      with True p(1) [of y x] show False by linarith
    qed
    with True Cons show ?thesis by auto
  qed simp
qed simp

lemma stable_js_sort:
  "preorder_cmp cmp \<Longrightarrow> filter (\<lambda>y. cmp y k = 0) (js_sort cmp xs) = filter (\<lambda>y. cmp y k = 0) xs"
proof (induction xs)
  case (Cons x xs)
  have "js_sort cmp (x # xs) = insert_with cmp x (js_sort cmp xs)" by (simp add: js_sort_def)
  with Cons stable_insert_with [OF Cons.prems, of k x "js_sort cmp xs"] show ?case by simp
qed (simp add: js_sort_def)

lemma preorder_entries:
  assumes "preorder_cmp lc"
  shows "preorder_cmp (compare_entries lc)"
proof -
  note p = preorder_cmpD [OF assms]
  have "compare_entries lc a b < 0 \<longleftrightarrow> 0 < compare_entries lc b a" for a b
    using p(1) [of "en_name a" "en_name b"] by (cases "en_type a"; cases "en_type b") (simp_all add: compare_entries_def)
  moreover have "compare_entries lc a b \<le> 0 \<Longrightarrow> compare_entries lc b c \<le> 0 \<Longrightarrow> compare_entries lc a c \<le> 0" for a b c
    using p(2) [of "en_name a" "en_name b" "en_name c"]
    by (cases "en_type a"; cases "en_type b"; cases "en_type c") (simp_all add: compare_entries_def)
  ultimately show ?thesis by (simp add: preorder_cmp_def)
qed

lemma sorted_split:
  assumes "sorted_wrt (\<lambda>a b. compare_entries lc a b \<le> 0) xs"
  shows "xs = filter (\<lambda>e. en_type e = Tree) xs @ filter (\<lambda>e. en_type e = Blob) xs"
  using assms
proof (induction xs)
  case (Cons x xs)
  show ?case
  proof (cases "en_type x")
    case Tree
    with Cons show ?thesis by simp
  next
    case Blob
    with Cons.prems have "\<forall>y\<in>set xs. en_type y = Blob" by (auto simp: compare_entries_def split: if_splits)
    then have "filter (\<lambda>e. en_type e = Tree) xs = []" "filter (\<lambda>e. en_type e = Blob) xs = xs"
      by (auto simp: filter_empty_conv filter_id_conv)
    with Blob show ?thesis by simp
  qed
qed simp

text \<open>The folders or the files of a tree, as they are listed.\<close>

definition listed :: "(string \<Rightarrow> string \<Rightarrow> int) \<Rightarrow> tree_entry list \<Rightarrow> entry_type \<Rightarrow> tree_entry list" where
  "listed localeCompare entries t = filter (\<lambda>e. en_type e = t) (sorted_entries localeCompare entries)"

lemma listed_names:
  assumes "preorder_cmp lc"
  shows "sorted_wrt (\<lambda>a b. lc (en_name a) (en_name b) \<le> 0) (listed lc entries t)"
proof -
  have "sorted_wrt (\<lambda>a b. compare_entries lc a b \<le> 0) (listed lc entries t)"
    unfolding listed_def sorted_entries_def
    by (intro sorted_wrt_filter sorted_js_sort preorder_entries assms)
  then show ?thesis by (rule sorted_wrt_mono_rel [rotated]) (auto simp: listed_def compare_entries_def)
qed

lemma listed_stable:
  assumes "preorder_cmp lc"
  shows "filter (\<lambda>e. lc (en_name e) name = 0) (listed lc entries t) =
    filter (\<lambda>e. en_type e = t \<and> lc (en_name e) name = 0) entries"
proof -
  let ?k = "\<lparr>en_name = name, en_path = [], en_type = t, en_size = 0, en_sha = [], en_mode = []\<rparr>"
  have eq: "en_type e = t \<and> lc (en_name e) name = 0 \<longleftrightarrow> compare_entries lc e ?k = 0" for e
    by (simp add: compare_entries_def)
  have "filter (\<lambda>e. lc (en_name e) name = 0) (listed lc entries t) =
      filter (\<lambda>e. compare_entries lc e ?k = 0) (sorted_entries lc entries)"
    by (simp add: listed_def eq conj_commute)
  also have "\<dots> = filter (\<lambda>e. compare_entries lc e ?k = 0) entries"
    unfolding sorted_entries_def by (rule stable_js_sort [OF preorder_entries [OF assms]])
  finally show ?thesis by (simp add: eq)
qed

text \<open>C32. The file tree lists every entry once, folders before files, each part in the order of the
  names, and entries whose names collate equally stay in the order the server sent them.\<close>

theorem file_tree_order:
  assumes "preorder_cmp localeCompare"
  shows "mset (sorted_entries localeCompare entries) = mset entries
    \<and> sorted_entries localeCompare entries = listed localeCompare entries Tree @ listed localeCompare entries Blob
    \<and> sorted_wrt (\<lambda>a b. localeCompare (en_name a) (en_name b) \<le> 0) (listed localeCompare entries t)
    \<and> filter (\<lambda>e. localeCompare (en_name e) name = 0) (listed localeCompare entries t) =
        filter (\<lambda>e. en_type e = t \<and> localeCompare (en_name e) name = 0) entries"
proof (intro conjI)
  show "mset (sorted_entries localeCompare entries) = mset entries" by (simp add: sorted_entries_def mset_js_sort)
  show "sorted_entries localeCompare entries = listed localeCompare entries Tree @ listed localeCompare entries Blob"
    unfolding listed_def sorted_entries_def
    by (rule sorted_split [OF sorted_js_sort [OF preorder_entries [OF assms]]])
qed (rule listed_names [OF assms], rule listed_stable [OF assms])

text \<open>A collation that ignores case, over the first letters.\<close>

definition first_letter :: "string \<Rightarrow> string \<Rightarrow> int" where
  "first_letter a b = (case (to_lower a, to_lower b) of
       (c # _, d # _) \<Rightarrow> of_char c - of_char d | ([], []) \<Rightarrow> 0 | ([], _) \<Rightarrow> -1000 | _ \<Rightarrow> 1000)"

lemma of_char_range: "(0 :: int) \<le> of_char c" "of_char c < (256 :: int)"
proof -
  have "(of_char c :: int) = int (of_char c)" by (rule of_nat_of_char [symmetric])
  moreover have "(of_char c :: nat) < 256" by (rule nat_of_char_less_256)
  ultimately show "(0 :: int) \<le> of_char c" "of_char c < (256 :: int)" by linarith+
qed

lemma first_letter_preorder: "preorder_cmp first_letter"
proof -
  have "first_letter a b < 0 \<longleftrightarrow> 0 < first_letter b a" for a b
    by (auto simp: first_letter_def split: list.splits)
  moreover have "first_letter a b \<le> 0 \<Longrightarrow> first_letter b c \<le> 0 \<Longrightarrow> first_letter a c \<le> 0" for a b c
    by (auto simp: first_letter_def split: list.splits)
  ultimately show ?thesis by (simp add: preorder_cmp_def)
qed

abbreviation entry :: "string \<Rightarrow> entry_type \<Rightarrow> tree_entry" where
  "entry name t \<equiv> \<lparr>en_name = name, en_path = name, en_type = t, en_size = 0, en_sha = [], en_mode = []\<rparr>"

theorem file_tree_order_witness:
  "filter (\<lambda>e. first_letter (en_name e) ''readme'' = 0)
      (listed first_letter [entry ''Readme'' Blob, entry ''web'' Tree, entry ''readme'' Blob] Blob) =
    [entry ''Readme'' Blob, entry ''readme'' Blob]"
proof -
  have "filter (\<lambda>e. first_letter (en_name e) ''readme'' = 0)
      (listed first_letter [entry ''Readme'' Blob, entry ''web'' Tree, entry ''readme'' Blob] Blob) =
    filter (\<lambda>e. en_type e = Blob \<and> first_letter (en_name e) ''readme'' = 0)
      [entry ''Readme'' Blob, entry ''web'' Tree, entry ''readme'' Blob]"
    using file_tree_order [OF first_letter_preorder] by blast
  also have "\<dots> = [entry ''Readme'' Blob, entry ''readme'' Blob]" by code_simp
  finally show ?thesis .
qed

section \<open>Folders\<close>

text \<open>
  An open folder has its entries; a spinner is shown only while a request is out; what is not mounted
  has no state.
\<close>

fun node_ok :: "file_node \<Rightarrow> bool" where
  "node_ok (FileNode e is_open children loading n) \<longleftrightarrow>
     (is_open \<longrightarrow> children \<noteq> None) \<and> (loading \<longrightarrow> 0 < n) \<and>
     (case children of None \<Rightarrow> True | Some cs \<Rightarrow>
       list_all node_ok cs \<and> (\<not> is_open \<longrightarrow> list_all (\<lambda>c. c = restart_node c) cs))"

lemma node_ok_fresh [simp]: "node_ok (fresh_node e)" "node_ok (restart_node c)" "restart_node (fresh_node e) = fresh_node e"
  "restart_node (restart_node c) = restart_node c"
  by (simp_all add: fresh_node_def restart_node_def)

lemma node_ok_with_entry: "node_ok n \<Longrightarrow> node_ok (with_entry e n)"
  by (cases n) simp

lemma keep_nodes_ok: "list_all node_ok old \<Longrightarrow> list_all node_ok (keep_nodes old entries)"
  by (auto simp: keep_nodes_def list_all_iff node_ok_with_entry find_Some_iff split: option.splits)

lemma node_click_ok: "node_ok n \<Longrightarrow> node_ok (fst (node_click owner repo ref n))"
  by (cases n) (auto simp: list_all_iff split: option.splits)

lemma node_answer_ok: "node_ok n \<Longrightarrow> node_ok (node_answer r n)"
  by (cases n) (auto intro!: keep_nodes_ok split: option.splits)

lemma at_node_ok:
  assumes "\<And>n. node_ok n \<Longrightarrow> node_ok (f n)" and "list_all node_ok ns"
  shows "list_all node_ok (at_node p f ns)"
  using assms
proof (induction p f ns rule: at_node.induct)
  case (2 i f ns)
  then have "i < length ns \<Longrightarrow> node_ok (f (ns ! i))" by (simp add: list_all_length)
  with 2 show ?case by (auto simp: list_all_length nth_list_update)
next
  case (3 i j p f ns)
  show ?case
  proof (cases "i < length ns")
    case True
    obtain e ob cs l n where n: "ns ! i = FileNode e ob cs l n" by (cases "ns ! i")
    have "node_ok (ns ! i)" using True 3 by (simp add: list_all_length)
    then have "node_ok (FileNode e ob (if ob then map_option (at_node (j # p) f) cs else cs) l n)"
      using 3 True n by (cases cs) auto
    with 3 True n show ?thesis by (auto simp: list_all_length nth_list_update)
  qed (use 3 in simp)
qed simp

lemma tree_step_ok: "list_all node_ok ns \<Longrightarrow> list_all node_ok (tree_step lc owner repo ref ev ns)"
  by (auto simp: tree_step_def keep_nodes_ok node_click_ok node_answer_ok intro!: at_node_ok split: tree_event.splits)

text \<open>Events of a tree, each with the revision that is shown then.\<close>

definition tree_run :: "(string \<Rightarrow> string \<Rightarrow> int) \<Rightarrow> string \<Rightarrow> string \<Rightarrow> (string \<times> tree_event) list \<Rightarrow> file_node list" where
  "tree_run lc owner repo evs = foldl (\<lambda>ns (ref, ev). tree_step lc owner repo ref ev ns) [] evs"

text \<open>C33. Whatever is clicked in a file tree and whenever the answers come: an open folder has the
  entries it shows, and a folder shows that it is loading only while one of its requests is out.\<close>

theorem tree_state_consistent:
  "list_all node_ok (tree_run lc owner repo evs)"
proof -
  have "list_all node_ok ns \<Longrightarrow> list_all node_ok (foldl (\<lambda>ns (ref, ev). tree_step lc owner repo ref ev ns) ns evs)" for ns
    by (induction evs arbitrary: ns) (auto simp: tree_step_ok)
  then show ?thesis by (simp add: tree_run_def)
qed

text \<open>A slow folder opens again after it was closed. Two clicks while the folder loads send two
  requests; the first answer opens it, a click closes it, and the second answer, whose handler
  remembers the folder closed, opens it.\<close>

theorem late_answer_reopens:
  assumes "en_type e = Tree" and "tr_entries t = Some es"
  shows "map fn_open (tree_run lc owner repo (map (Pair ref)
        [TreeShow [e], TreeClick [0], TreeClick [0], TreeAnswer [0] (Some t), TreeClick [0]])) = [False]
    \<and> map fn_open (tree_run lc owner repo (map (Pair ref)
        [TreeShow [e], TreeClick [0], TreeClick [0], TreeAnswer [0] (Some t), TreeClick [0], TreeAnswer [0] (Some t)])) = [True]"
  using assms by (simp add: tree_run_def tree_step_def keep_nodes_def fresh_node_def sorted_entries_def js_sort_def comp_def)

theorem late_answer_reopens_witness:
  "map fn_open (tree_run first_letter ''ada'' ''web'' (map (Pair ''main'')
     [TreeShow [entry ''src'' Tree], TreeClick [0], TreeClick [0],
      TreeAnswer [0] (Some \<lparr>tr_sha = [], tr_path = ''src'', tr_entries = Some []\<rparr>), TreeClick [0],
      TreeAnswer [0] (Some \<lparr>tr_sha = [], tr_path = ''src'', tr_entries = Some []\<rparr>)])) = [True]"
  using late_answer_reopens [of "entry ''src'' Tree" "\<lparr>tr_sha = [], tr_path = ''src'', tr_entries = Some []\<rparr>" "[]"] by simp

text \<open>An open folder is not loaded again for another revision: when the tree of another branch has a
  folder at the same path, the page shows the entries of the former branch under it.\<close>

theorem folder_of_another_branch:
  assumes "en_type e = Tree" and "tr_entries t = Some es" and "en_path e' = en_path e"
  shows "map (map_option (map fn_entry) \<circ> fn_children)
      (tree_run lc owner repo [(ref, TreeShow [e]), (ref, TreeClick [0]), (ref, TreeAnswer [0] (Some t)), (ref', TreeShow [e'])])
    = [Some es]
    \<and> map fn_entry (tree_run lc owner repo [(ref, TreeShow [e]), (ref, TreeClick [0]), (ref, TreeAnswer [0] (Some t)), (ref', TreeShow [e'])])
    = [e']"
  using assms
  by (simp add: tree_run_def tree_step_def keep_nodes_def fresh_node_def sorted_entries_def js_sort_def comp_def)

theorem folder_of_another_branch_witness:
  "map (map_option (map fn_entry) \<circ> fn_children)
      (tree_run first_letter ''ada'' ''web'' [(''main'', TreeShow [entry ''src'' Tree]), (''main'', TreeClick [0]),
        (''main'', TreeAnswer [0] (Some \<lparr>tr_sha = [], tr_path = ''src'', tr_entries = Some [entry ''old.go'' Blob]\<rparr>)),
        (''next'', TreeShow [(entry ''src'' Tree)\<lparr>en_sha := ''beef''\<rparr>])])
    = [Some [entry ''old.go'' Blob]]"
  using folder_of_another_branch [of "entry ''src'' Tree"
    "\<lparr>tr_sha = [], tr_path = ''src'', tr_entries = Some [entry ''old.go'' Blob]\<rparr>" "[entry ''old.go'' Blob]"
    "(entry ''src'' Tree)\<lparr>en_sha := ''beef''\<rparr>"] by simp

section \<open>Commits by date\<close>

text \<open>The distinct elements in the order in which they first come, and the groups of a list by a key.\<close>

definition first_occurrences :: "'a list \<Rightarrow> 'a list" where
  "first_occurrences xs = rev (remdups (rev xs))"

definition grouped :: "('c \<Rightarrow> 'k) \<Rightarrow> 'c list \<Rightarrow> ('k \<times> 'c list) list" where
  "grouped key cs = map (\<lambda>k. (k, filter (\<lambda>c. key c = k) cs)) (first_occurrences (map key cs))"

lemma first_occurrences_snoc:
  "first_occurrences (xs @ [x]) = (if x \<in> set xs then first_occurrences xs else first_occurrences xs @ [x])"
  by (simp add: first_occurrences_def)

lemma set_first_occurrences [simp]: "set (first_occurrences xs) = set xs" "distinct (first_occurrences xs)"
  by (simp_all add: first_occurrences_def)

lemma al_get_map: "al_get (map (\<lambda>k. (k, f k)) ks) k = (if k \<in> set ks then Some (f k) else None)"
  by (induction ks) auto

lemma al_set_map:
  "distinct ks \<Longrightarrow> al_set (map (\<lambda>k. (k, f k)) ks) k v =
     (if k \<in> set ks then map (\<lambda>j. (j, if j = k then v else f j)) ks else map (\<lambda>j. (j, f j)) ks @ [(k, v)])"
  by (induction ks) auto

lemma add_commit_grouped: "add_commit (key c) c (grouped key cs) = grouped key (cs @ [c])"
proof -
  have "al_get (grouped key cs) (key c) = (if key c \<in> key ` set cs then Some (filter (\<lambda>x. key x = key c) cs) else None)"
    by (simp add: grouped_def al_get_map)
  moreover have "key c \<notin> key ` set cs \<Longrightarrow> filter (\<lambda>x. key x = key c) cs = []"
    by (metis (mono_tags, lifting) filter_False image_eqI)
  ultimately have "add_commit (key c) c (grouped key cs) = al_set (grouped key cs) (key c) (filter (\<lambda>x. key x = key c) cs @ [c])"
    by (simp add: add_commit_def)
  also have "\<dots> = grouped key (cs @ [c])"
    by (auto simp: grouped_def al_set_map first_occurrences_snoc filter_empty_conv)
  finally show ?thesis .
qed

lemma group_loop_grouped:
  "group_loop key cs (grouped (the \<circ> key) ds) =
     (if list_all (\<lambda>c. key c \<noteq> None) cs then Some (grouped (the \<circ> key) (ds @ cs)) else None)"
proof (induction cs arbitrary: ds)
  case (Cons c cs)
  show ?case
  proof (cases "key c")
    case (Some k)
    have "add_commit k c (grouped (the \<circ> key) ds) = grouped (the \<circ> key) (ds @ [c])"
      using add_commit_grouped [of "the \<circ> key" c ds] Some by simp
    with Some Cons [of "ds @ [c]"] show ?thesis by (simp add: comp_def)
  qed simp
qed simp

definition commit_day :: "dates \<Rightarrow> commit_response \<Rightarrow> string option" where
  "commit_day d c = d_format d (ca_date (co_author c)) ''MMMM d, yyyy''"

text \<open>The commits of a page are grouped by the day of their author: the groups come in the order of
  their first commits, no day twice, each with all commits of that day in the order of the page; a
  date that is not valid makes the list throw.\<close>

theorem commits_by_day:
  "groupByDate d commits =
    (if list_all (\<lambda>c. commit_day d c \<noteq> None) commits then Some (grouped (the \<circ> commit_day d) commits) else None)"
  using group_loop_grouped [of "commit_day d" commits "[]"]
  by (simp add: groupByDate_def commit_day_def [abs_def] grouped_def first_occurrences_def)

section \<open>The fallback of the highlighter\<close>

text \<open>The text of an element as a browser reads it: the references \<open>amp\<close>, \<open>lt\<close> and \<open>gt\<close>.\<close>

fun html_text :: "string \<Rightarrow> string" where
  "html_text s =
     (case s of
        [] \<Rightarrow> []
      | c # r \<Rightarrow>
          if starts_with s ''&amp;'' then CHR ''&'' # html_text (drop 5 s)
          else if starts_with s ''&lt;'' then CHR ''<'' # html_text (drop 4 s)
          else if starts_with s ''&gt;'' then CHR ''>'' # html_text (drop 4 s)
          else c # html_text r)"

declare html_text.simps [simp del]

definition escape_char :: "char \<Rightarrow> string" where
  "escape_char c = (if c = CHR ''&'' then ''&amp;'' else if c = CHR ''<'' then ''&lt;'' else if c = CHR ''>'' then ''&gt;'' else [c])"

lemma escape_html_chars: "escape_html s = concat (map escape_char s)"
  by (induction s) (auto simp: escape_html_def escape_char_def Let_def)

lemma html_text_escape: "html_text (concat (map escape_char s)) = s"
proof (induction s)
  case (Cons c s)
  have "html_text (escape_char c @ t) = c # html_text t" for t
    by (subst html_text.simps) (auto simp: escape_char_def starts_with_take)
  with Cons show ?case by simp
qed (subst html_text.simps, simp)

text \<open>When the highlighter fails, the page shows the code as it is: the fallback has no markup of the
  code in it, and what a browser reads is the code itself.\<close>

theorem fallback_shows_code:
  "\<exists>body. highlight codeToHtml Broken code filename = Some (''<pre><code>'' @ body @ ''</code></pre>'')
     \<and> CHR ''<'' \<notin> set body \<and> CHR ''>'' \<notin> set body \<and> html_text body = code"
proof (intro exI conjI)
  show "highlight codeToHtml Broken code filename = Some (''<pre><code>'' @ escape_html code @ ''</code></pre>'')"
    by (simp add: highlight_def Let_def)
  show "CHR ''<'' \<notin> set (escape_html code)" "CHR ''>'' \<notin> set (escape_html code)"
    by (auto simp: escape_html_chars escape_char_def)
  show "html_text (escape_html code) = code" by (simp add: escape_html_chars html_text_escape)
qed

text \<open>A highlighter that could not be created is never asked for again.\<close>

lemma broken_for_ever: "getHighlighter Broken = Broken" "highlighter_settles ok Broken = Broken"
  by (simp_all add: getHighlighter_def highlighter_settles_def)

section \<open>Files\<close>

text \<open>How the server encodes the bytes of a file (RFC 4648, with padding).\<close>

definition b64_sign :: "nat \<Rightarrow> char" where
  "b64_sign n = b64_alphabet ! n"

fun b64_encode :: "nat list \<Rightarrow> string" where
  "b64_encode [] = []"
| "b64_encode [a] = [b64_sign (a div 4), b64_sign (a mod 4 * 16), CHR ''='', CHR ''='']"
| "b64_encode [a, b] = [b64_sign (a div 4), b64_sign (a mod 4 * 16 + b div 16), b64_sign (b mod 16 * 4), CHR ''='']"
| "b64_encode (a # b # c # r) =
     b64_sign (a div 4) # b64_sign (a mod 4 * 16 + b div 16) # b64_sign (b mod 16 * 4 + c div 64) # b64_sign (c mod 64) #
     b64_encode r"

text \<open>The signs without the padding, as numbers.\<close>

fun b64_digits :: "nat list \<Rightarrow> nat list" where
  "b64_digits [] = []"
| "b64_digits [a] = [a div 4, a mod 4 * 16]"
| "b64_digits [a, b] = [a div 4, a mod 4 * 16 + b div 16, b mod 16 * 4]"
| "b64_digits (a # b # c # r) =
     (a div 4) # (a mod 4 * 16 + b div 16) # (b mod 16 * 4 + c div 64) # (c mod 64) # b64_digits r"

lemma b64_digits_range: "list_all (\<lambda>b. b < 256) bs \<Longrightarrow> list_all (\<lambda>n. n < 64) (b64_digits bs)"
  by (induction bs rule: b64_digits.induct) auto

lemma digit_split:
  "y < 16 \<Longrightarrow> (x * 16 + y) div 16 = (x :: nat)" "y < 16 \<Longrightarrow> (x * 16 + y) mod 16 = y"
  "y < 4 \<Longrightarrow> (x * 4 + y) div 4 = x" "y < 4 \<Longrightarrow> (x * 4 + y) mod 4 = y"
  by simp_all

lemma b64_bytes_digits: "list_all (\<lambda>b. b < 256) bs \<Longrightarrow> b64_bytes (b64_digits bs) = bs"
proof (induction bs rule: b64_digits.induct)
  case (4 a b c r)
  then have "b div 16 < 16" "c div 64 < 4" by (simp_all add: less_mult_imp_div_less)
  with 4 show ?case by (simp add: digit_split)
next
  case (3 a b)
  then have "b div 16 < 16" by (simp add: less_mult_imp_div_less)
  then show ?case by (simp add: digit_split)
qed simp_all

lemma b64_alphabet_facts: "length b64_alphabet = 64" "distinct b64_alphabet" "CHR ''='' \<notin> set b64_alphabet"
    "list_all (\<lambda>c. \<not> b64_space c) b64_alphabet"
  by code_simp+

lemma sign_facts:
  assumes "n < 64"
  shows "b64_sign n \<in> set b64_alphabet" and "index_of b64_alphabet (b64_sign n) = Some n"
proof -
  show mem: "b64_sign n \<in> set b64_alphabet" using assms b64_alphabet_facts(1) by (simp add: b64_sign_def)
  then have "index_of b64_alphabet (b64_sign n) \<noteq> None" by (simp only: index_of_None not_not)
  then obtain i where i: "index_of b64_alphabet (b64_sign n) = Some i" by (auto simp only: not_None_eq)
  from index_of_Some_take [OF this] have "i < 64" "b64_alphabet ! i = b64_alphabet ! n"
    by (simp_all add: b64_alphabet_facts b64_sign_def)
  with assms i show "index_of b64_alphabet (b64_sign n) = Some n"
    using nth_eq_iff_index_eq [OF b64_alphabet_facts(2)] by (simp add: b64_alphabet_facts(1))
qed

text \<open>The signs of the padding.\<close>

fun b64_padding :: "nat list \<Rightarrow> nat" where
  "b64_padding [] = 0"
| "b64_padding [a] = 2"
| "b64_padding [a, b] = 1"
| "b64_padding (a # b # c # r) = b64_padding r"

lemma b64_encode_digits:
  "b64_encode bs = map b64_sign (b64_digits bs) @ replicate (b64_padding bs) CHR ''=''"
  by (induction bs rule: b64_digits.induct) (simp_all add: numeral_2_eq_2)

lemma b64_padding_facts:
  "b64_padding bs \<le> 2" "(length (b64_digits bs) + b64_padding bs) mod 4 = 0" "length (b64_digits bs) mod 4 \<noteq> 1"
  by (induction bs rule: b64_digits.induct) auto

lemma strip_padding_signs:
  assumes "set ds \<subseteq> set b64_alphabet" and "k \<le> 2" and "(length ds + k) mod 4 = 0"
  shows "strip_padding (ds @ replicate k CHR ''='') = ds"
proof -
  have "CHR ''='' \<notin> set ds" using assms(1) b64_alphabet_facts(3) by blast
  then have no: "\<not> suffix ''='' ds" "\<not> suffix ''='' (ds @ [])" by (auto simp: suffix_def)
  from assms(2) consider "k = 0" | "k = 1" | "k = 2" by linarith
  then show ?thesis
  proof cases
    case 2
    have "\<not> suffix ''=='' (ds @ ''='')" using no by (auto simp: suffix_def)
    with 2 assms show ?thesis by (simp add: strip_padding_def ends_with_suffix suffix_def)
  qed (use no assms in \<open>auto simp: strip_padding_def ends_with_suffix numeral_2_eq_2 suffix_def\<close>)
qed

lemma atob_encode:
  assumes "list_all (\<lambda>b. b < 256) bs"
  shows "atob (b64_encode bs) = Some (map char_of bs)"
proof -
  let ?ds = "map b64_sign (b64_digits bs)"
  have range: "\<forall>n\<in>set (b64_digits bs). n < 64" using b64_digits_range [OF assms] by (simp add: list_all_iff)
  then have signs: "set ?ds \<subseteq> set b64_alphabet" using sign_facts(1) by auto
  have "\<not> b64_space CHR ''=''" by code_simp
  moreover have "\<forall>c\<in>set ?ds. \<not> b64_space c" using signs b64_alphabet_facts(4) by (auto simp: list_all_iff)
  ultimately have keep: "filter (\<lambda>c. \<not> b64_space c) (b64_encode bs) = b64_encode bs"
    by (auto simp: b64_encode_digits filter_id_conv)
  have strip: "strip_padding (b64_encode bs) = ?ds"
    unfolding b64_encode_digits by (rule strip_padding_signs [OF signs]) (simp_all add: b64_padding_facts)
  have "map (\<lambda>c. the (index_of b64_alphabet c)) ?ds = b64_digits bs"
    using range sign_facts(2) by (auto intro!: map_idI)
  moreover have "list_all (\<lambda>c. c \<in> set b64_alphabet) ?ds" using signs by (auto simp: list_all_iff)
  ultimately show ?thesis
    using b64_padding_facts(3) [of bs] b64_bytes_digits [OF assms] by (simp add: atob_def keep strip Let_def comp_def)
qed

text \<open>A text as a list of code points, and its bytes in UTF-8.\<close>

definition utf8 :: "nat \<Rightarrow> nat list" where
  "utf8 c =
     (if c < 0x80 then [c]
      else if c < 0x800 then [0xC0 + c div 64, 0x80 + c mod 64]
      else if c < 0x10000 then [0xE0 + c div 4096, 0x80 + c div 64 mod 64, 0x80 + c mod 64]
      else [0xF0 + c div 262144, 0x80 + c div 4096 mod 64, 0x80 + c div 64 mod 64, 0x80 + c mod 64])"

definition utf8_text :: "nat list \<Rightarrow> nat list" where
  "utf8_text t = concat (map utf8 t)"

lemma utf8_range: "c < 0x110000 \<Longrightarrow> list_all (\<lambda>b. b < 256) (utf8 c)"
  by (auto simp: utf8_def less_mult_imp_div_less)

lemma utf8_lines: "c < 0x110000 \<Longrightarrow> count_list (utf8 c) 10 = (if c = 10 then 1 else 0)"
  by (auto simp: utf8_def)

lemma utf8_long: "length (utf8 c) = 1 \<longleftrightarrow> c < 0x80" "1 \<le> length (utf8 c)"
  by (auto simp: utf8_def)

lemma utf8_text_length: "length t \<le> length (utf8_text t)"
    "length (utf8_text t) = length t \<longleftrightarrow> list_all (\<lambda>c. c < 0x80) t"
proof -
  have "length t \<le> length (utf8_text t) \<and> (length (utf8_text t) = length t \<longleftrightarrow> list_all (\<lambda>c. c < 0x80) t)"
  proof (induction t)
    case (Cons c t)
    with utf8_long [of c] show ?case by (auto simp: utf8_text_def)
  qed (simp add: utf8_text_def)
  then show "length t \<le> length (utf8_text t)" "length (utf8_text t) = length t \<longleftrightarrow> list_all (\<lambda>c. c < 0x80) t" by simp_all
qed

lemma split_on_count: "length (split_on c s) = Suc (count_list s c)"
  by (induction s) (auto simp: length_Suc_conv split: list.splits)

lemma count_concat: "count_list (concat xss) x = sum_list (map (\<lambda>xs. count_list xs x) xss)"
  by (induction xss) simp_all

lemma utf8_text_lines: "list_all (\<lambda>c. c < 0x110000) t \<Longrightarrow> count_list (utf8_text t) 10 = count_list t 10"
  by (induction t) (simp_all add: utf8_text_def utf8_lines)

lemma count_newlines: "list_all (\<lambda>b. b < 256) bs \<Longrightarrow> count_list (map char_of bs) CHR 0x0A = count_list bs (10 :: nat)"
proof (induction bs)
  case (Cons b bs)
  have "char_of b = CHR 0x0A \<longleftrightarrow> take_bit 8 b = of_char CHR 0x0A" by (rule char_of_eq_iff)
  moreover have "(of_char CHR 0x0A :: nat) = 10" by simp
  moreover have "take_bit 8 b = b" using Cons.prems by (simp add: take_bit_nat_eq_self_iff)
  ultimately have "char_of b = CHR 0x0A \<longleftrightarrow> b = 10" by (simp only:)
  with Cons show ?case by simp
qed simp

text \<open>C35. The viewer of a file counts the lines of its text, but decodes bytes, not UTF-8: the text that
  goes to the highlighter is the text of the file exactly when all of it is ASCII.\<close>

theorem file_text_decoded:
  assumes "list_all (\<lambda>c. c < 0x110000) t"
  shows "\<exists>s v'. atob (b64_encode (utf8_text t)) = Some s
    \<and> viewer_effect (b64_encode (utf8_text t)) v = Some v' \<and> vw_lines v' = Suc (count_list t 10)
    \<and> (map of_char s = t \<longleftrightarrow> list_all (\<lambda>c. c < 0x80) t)"
proof -
  let ?s = "map char_of (utf8_text t)"
  have range: "list_all (\<lambda>b. b < 256) (utf8_text t)"
    using assms utf8_range by (simp add: utf8_text_def list_all_iff) blast
  then have atob: "atob (b64_encode (utf8_text t)) = Some ?s" by (rule atob_encode)
  have decoded: "map of_char ?s = utf8_text t" using range by (auto simp: list_all_iff intro!: map_idI)
  have "count_list ?s CHR 0x0A = count_list (utf8_text t) 10" by (rule count_newlines [OF range])
  then have "length (split_on CHR 0x0A ?s) = Suc (count_list t 10)"
    by (simp add: split_on_count utf8_text_lines [OF assms])
  moreover have "map of_char ?s = t \<longleftrightarrow> list_all (\<lambda>c. c < 0x80) t"
  proof
    assume "map of_char ?s = t"
    then show "list_all (\<lambda>c. c < 0x80) t" using utf8_text_length(2) [of t] decoded by simp
  next
    assume "list_all (\<lambda>c. c < 0x80) t"
    then have "utf8_text t = t" by (induction t) (simp_all add: utf8_text_def utf8_def)
    with decoded show "map of_char ?s = t" by simp
  qed
  ultimately show ?thesis using atob by (simp add: viewer_effect_def)
qed

theorem file_text_decoded_witness:
  "\<exists>s. atob (b64_encode (utf8_text [0xE9, 10])) = Some s \<and> map of_char s \<noteq> [0xE9, 10 :: nat]"
proof -
  have "list_all (\<lambda>c. c < 0x110000) [0xE9, 10 :: nat]" by simp
  from file_text_decoded [OF this, of viewer_start] show ?thesis by auto
qed

section \<open>Where links lead\<close>

text \<open>The page a visitor sees after following a link, and the names the route table keeps for itself.\<close>

definition target :: "string list \<Rightarrow> string \<Rightarrow> string \<Rightarrow> (page \<times> (string \<times> string option) list) option" where
  "target from_paths here to = app_match (follow_link to from_paths here)"

definition reserved :: "string \<Rightarrow> bool" where
  "reserved a = list_ex (\<lambda>w. same_text w a) [''login'', ''register'', ''new'', ''settings'']"

lemma target_plain: "list_all plain_seg segs \<Longrightarrow> segs \<noteq> [] \<Longrightarrow> target from_paths here (path_text segs) = Some (app_page segs)"
  by (simp add: target_def follow_plain plain_match)

lemma plain_words [simp]:
  "plain_seg ''tree''" "plain_seg ''blob''" "plain_seg ''commits''" "plain_seg ''settings''" "plain_seg ''keys''"
  "plain_seg ''tokens''" "plain_seg ''new''" "plain_seg ''login''" "plain_seg ''register''" "plain_seg ''branches''"
  by code_simp+

lemma same_words [simp]:
  "same_text ''tree'' ''tree''" "\<not> same_text ''commits'' ''tree''" "\<not> same_text ''blob'' ''tree''"
  "same_text ''blob'' ''blob''" "\<not> same_text ''commits'' ''blob''" "same_text ''commits'' ''commits''"
  "same_text ''settings'' ''settings''" "same_text ''keys'' ''keys''" "same_text ''tokens'' ''tokens''"
  "same_text ''new'' ''new''" "same_text ''login'' ''login''" "same_text ''register'' ''register''"
  "\<not> same_text ''login'' ''settings''" "\<not> same_text ''register'' ''settings''" "\<not> same_text ''new'' ''settings''"
  "\<not> same_text ''keys'' ''tokens''"  "\<not> same_text ''login'' ''register''" "\<not> same_text ''login'' ''new''" "\<not> same_text ''register'' ''new''"
  by code_simp+

lemma join_text: "s \<noteq> [] \<Longrightarrow> path_text (segs @ s) = path_text segs @ ''/'' @ join ''/'' s"
  by (induction segs) (simp_all add: path_text_join)

lemma plain_join: "list_all plain_seg segs \<Longrightarrow> unescape_slash (join ''/'' segs) = join ''/'' segs"
proof (rule unescape_slash_plain)
  show "list_all plain_seg segs \<Longrightarrow> CHR ''%'' \<notin> set (join ''/'' segs)"
    by (induction "''/''" segs rule: join.induct) (auto simp: plain_seg_def list_all_iff)
qed

lemma target_user:
  assumes "plain_seg a" and "\<not> reserved a"
  shows "target from_paths here (''/'' @ a) = Some (UserProfilePage, [(''username'', Some a)])"
  using target_plain [of "[a]"] assms by (simp add: reserved_def param_def plain_segD(3))

lemma target_repo:
  assumes "list_all plain_seg [a, b]" and "\<not> reserved a"
  shows "target from_paths here (''/'' @ a @ ''/'' @ b) = Some (RepoPage, [(''owner'', Some a), (''repo'', Some b)])"
  using target_plain [of "[a, b]"] assms by (simp add: reserved_def param_def plain_segD(3))

definition folder_link :: "string \<Rightarrow> string \<Rightarrow> string \<Rightarrow> string list \<Rightarrow> string" where
  "folder_link a b r p = ''/'' @ a @ ''/'' @ b @ ''/tree/'' @ r @ ''/'' @ join ''/'' p"

lemma target_folder:
  assumes "list_all plain_seg [a, b, r]" and "list_all plain_seg p" and "p \<noteq> []"
  shows "target from_paths here (folder_link a b r p) =
    Some (RepoPage, [(''owner'', Some a), (''repo'', Some b), (''ref'', Some r), (''*'', Some (join ''/'' p))])"
  using target_plain [of "[a, b, ''tree'', r] @ p"] assms join_text [OF assms(3), of "[a, b, ''tree'', r]"]
  by (simp add: folder_link_def param_def splat_param_def plain_segD(3) plain_join)

lemma concat_but_last:
  "concat (map (\<lambda>(i, s). if i = length xs - 1 then [] else [f i]) (zip [0..<length xs] xs)) = map (\<lambda>n. f (n - 1)) [1..<length xs]"
proof -
  let ?g = "\<lambda>i. if i = length xs - 1 then [] else [f i]"
  have e: "map (\<lambda>(i, s). ?g i) (zip [0..<length xs] xs) = map ?g [0..<length xs]"
    by (rule nth_equalityI) simp_all
  show ?thesis
  proof (cases xs)
    case (Cons x ys)
    have "concat (map ?g [0..<length ys]) = concat (map (\<lambda>i. [f i]) [0..<length ys])"
      using Cons by (intro arg_cong [where f = concat]) simp
    moreover have "map (\<lambda>n. f (n - 1)) [1..<Suc (length ys)] = map f [0..<length ys]"
      by (rule nth_equalityI) (simp_all del: upt_Suc)
    ultimately show ?thesis unfolding e using Cons by (simp del: upt_Suc add: upt_Suc_append concat_map_singleton)
  qed simp
qed

lemma breadcrumb_links:
  "links (Breadcrumb owner repo branch path t) =
    (''/'' @ owner) # (''/'' @ owner @ ''/'' @ repo) #
    map (\<lambda>n. folder_link owner repo branch (take n (path_parts path))) [1..<length (path_parts path)]"
proof -
  let ?ps = "path_parts path"
  have "links (Breadcrumb owner repo branch path t) = (''/'' @ owner) # (''/'' @ owner @ ''/'' @ repo) #
      concat (map (\<lambda>(i, s). if i = length ?ps - 1 then [] else [crumb_link owner repo branch t ?ps i]) (zip [0..<length ?ps] ?ps))"
    by (auto simp: Breadcrumb_def Let_def comp_def intro!: arg_cong [where f = concat] map_cong)
  also have "\<dots> = (''/'' @ owner) # (''/'' @ owner @ ''/'' @ repo) # map (\<lambda>n. crumb_link owner repo branch t ?ps (n - 1)) [1..<length ?ps]"
    by (simp only: concat_but_last)
  also have "map (\<lambda>n. crumb_link owner repo branch t ?ps (n - 1)) [1..<length ?ps] =
      map (\<lambda>n. folder_link owner repo branch (take n ?ps)) [1..<length ?ps]"
    by (rule map_cong) (auto simp: crumb_link_def type_name_def folder_link_def)
  finally show ?thesis .
qed



end
