(* ===== verification/Pages.thy ===== *)
theory Pages
  imports RepoViews
begin

text \<open>
  The pages that show things (\<open>ui/src/pages\<close>), the forms to sign in and to register, the navigation
  bar and the shell. A page is a function from its parameters, its state and what it reads of its
  queries (\<open>shown\<close>) to a view; the state is a record with a step function where there is any. The
  events of a component inside a page are events of the page.
\<close>

lemma map_view_simps [simp]:
  "links (map_view f v) = links v" "redirects (map_view f v) = redirects v" "offers (map_view f v) = map f (offers v)"
  "texts (map_view f v) = texts v" "crashes (map_view f v) = crashes v"
  by (induction v) (auto simp: map_concat comp_def list_ex_iff cong: map_cong)

text \<open>A form is offered when its fields are filled in and its button is enabled.\<close>

definition form_view :: "bool \<Rightarrow> 'e \<Rightarrow> 'e view list \<Rightarrow> 'e view" where
  "form_view enabled onSubmit vs = (if enabled then Form onSubmit vs else El ''form'' vs)"

text \<open>A button of type \<open>submit\<close>: pressing it submits its form.\<close>

definition SubmitButton :: "button_variant \<Rightarrow> ui_size \<Rightarrow> bool \<Rightarrow> string option \<Rightarrow> 'e view list \<Rightarrow> 'e view" where
  "SubmitButton v s loading className children =
     Styled (button_classes v s className) (El ''button'' (when_view loading (Icon ''Loading'') @ children))"

text \<open>A value of the server as a child of an element; an object makes the page throw.\<close>

fun child_view :: "json \<Rightarrow> 'e view list" where
  "child_view JNull = []"
| "child_view (JBool b) = []"
| "child_view (JNum i) = [Text (show_int i)]"
| "child_view (JReal s) = [Text s]"
| "child_view (JStr s) = [Text s]"
| "child_view (JArr js) = concat (map child_view js)"
| "child_view (JObj ms) = [Throws]"

definition error_view :: "json option \<Rightarrow> 'e view list" where
  "error_view e = (case e of
       None \<Rightarrow> []
     | Some j \<Rightarrow> if js_truthy (Data j) then [El ''div'' (child_view j)] else child_view j)"

section \<open>Signing in and registering\<close>

record login_fields =
  lf_login :: string
  lf_password :: string

datatype login_event = LfLogin string | LfPassword string | LfSubmit

definition LoginForm :: "login_fields \<Rightarrow> form_state \<Rightarrow> login_event view" where
  "LoginForm f s =
     El ''div'' (error_view (f_error s) @
       [form_view (lf_login f \<noteq> [] \<and> lf_password f \<noteq> [] \<and> \<not> f_loading s) LfSubmit
          [Field ''username or email'' (lf_login f) LfLogin, Field ''password'' (lf_password f) LfPassword,
           SubmitButton Primary Md (f_loading s) (Some ''mt-2 font-mono'') [Text ''authenticate'']],
        LinkTo ''/register'' [Text ''register'']])"

record register_fields =
  rf_username :: string
  rf_email :: string
  rf_password :: string

datatype register_event = RfUsername string | RfEmail string | RfPassword string | RfSubmit

definition field_error :: "string option \<Rightarrow> 'e view list" where
  "field_error e = (case e of None \<Rightarrow> [] | Some t \<Rightarrow> [El ''p'' [Text t]])"

definition RegisterForm :: "register_fields \<Rightarrow> form_state \<Rightarrow> register_event view" where
  "RegisterForm f s =
     El ''div'' (error_view (f_error s) @
       [form_view (rf_username f \<noteq> [] \<and> rf_email f \<noteq> [] \<and> rf_password f \<noteq> [] \<and>
            \<not> submit_disabled (rf_username f) (rf_password f) \<and> \<not> f_loading s) RfSubmit
          (Field ''username'' (rf_username f) RfUsername # field_error (usernameError (rf_username f)) @
           [Field ''email'' (rf_email f) RfEmail, Field ''password (min 8 chars)'' (rf_password f) RfPassword] @
           field_error (passwordError (rf_password f)) @
           [SubmitButton Primary Md (f_loading s) (Some ''mt-2 font-mono'') [Text ''create account'']]),
        LinkTo ''/login'' [Text ''sign in'']])"

definition NotFoundPage_view :: "'e view" where
  "NotFoundPage_view =
     El ''div'' [El ''p'' [Text ''$ resolve: not found''], El ''p'' [Text ''404''],
       El ''p'' [Text (''The page you'' @ [CHR 0x27] @ ''re looking for doesn'' @ [CHR 0x27] @ ''t exist.'')], LinkTo ''/'' [Text ''Go home'']]"

section \<open>The navigation bar and the shell\<close>

record navbar =
  nb_user_menu :: bool
  nb_plus_menu :: bool

text \<open>A press of the mouse comes first: it closes the menus it is outside of.\<close>

datatype nav_event = NbUserMenu | NbPlusMenu | NbMouseDown bool bool | NbLogout

definition navbar_start :: navbar where
  "navbar_start = \<lparr>nb_user_menu = False, nb_plus_menu = False\<rparr>"

text \<open>The handler of the button \<open>Sign out\<close> is \<open>handleLogout\<close>; it leaves the menus as they are.\<close>

definition navbar_step :: "nav_event \<Rightarrow> navbar \<Rightarrow> navbar" where
  "navbar_step e s = (case e of
       NbUserMenu \<Rightarrow> s\<lparr>nb_user_menu := \<not> nb_user_menu s\<rparr>
     | NbPlusMenu \<Rightarrow> s\<lparr>nb_plus_menu := \<not> nb_plus_menu s\<rparr>
     | NbMouseDown in_user in_plus \<Rightarrow>
         \<lparr>nb_user_menu = nb_user_menu s \<and> in_user, nb_plus_menu = nb_plus_menu s \<and> in_plus\<rparr>
     | NbLogout \<Rightarrow> s)"

definition navbar_right :: "navbar \<Rightarrow> bool \<Rightarrow> user option \<Rightarrow> nav_event view" where
  "navbar_right s isAuthenticated u =
     (if \<not> isAuthenticated then El ''div'' [LinkTo ''/login'' [Text ''Sign in''], LinkTo ''/register'' [Text ''Register'']]
      else El ''div''
        [El ''div'' (Press True NbPlusMenu [Icon ''Plus'', Icon ''ChevronDown''] #
           when_view (nb_plus_menu s) (El ''div'' [LinkTo ''/new'' [Text ''New repository'']])),
         Icon ''Bell'',
         El ''div'' (Press True NbUserMenu [case u of None \<Rightarrow> El ''div'' [] | Some x \<Rightarrow> Avatar (Some x) None Xs None] #
           when_view (nb_user_menu s)
             (El ''div'' (El ''p'' [Text ''Signed in as''] #
                (case u of None \<Rightarrow> [Icon ''Ellipsis''] | Some x \<Rightarrow>
                   [El ''p'' [Text (us_username x)],
                    LinkTo (''/'' @ us_username x) [Text ''Your profile''],
                    LinkTo (''/'' @ us_username x) [Text ''Your repositories''],
                    LinkTo ''/settings'' [Text ''Settings''], LinkTo ''/settings/keys'' [Text ''SSH Keys''],
                    LinkTo ''/settings/tokens'' [Text ''Access Tokens'']]) @
                [Press True NbLogout [Text ''Sign out'']])))])"

definition Navbar :: "navbar \<Rightarrow> bool \<Rightarrow> user option \<Rightarrow> nav_event view" where
  "Navbar s isAuthenticated u =
     El ''nav'' [LinkTo ''/'' [Icon ''Anvil'', El ''span'' [Text ''GForce'']], Icon ''Search'', navbar_right s isAuthenticated u]"

definition AppShell_view :: "navbar \<Rightarrow> bool \<Rightarrow> user option \<Rightarrow> 'e view \<Rightarrow> (nav_event + 'e) view" where
  "AppShell_view s isAuthenticated u outlet =
     El ''div'' [map_view Inl (Navbar s isAuthenticated u), El ''main'' [map_view Inr outlet]]"

section \<open>The home page\<close>

datatype home_event = GoTo string | SetFilter string

definition HeroSection :: "home_event view" where
  "HeroSection =
     El ''div'' [El ''h1'' [Text ''G'', Text ''Force''], El ''p'' [Text ''The Git platform that speaks Kubernetes''],
       El ''p'' [Text ''Every repository is a Custom Resource. Every operation is observable.''],
       Button Primary Lg False False (Some ''font-mono'') (GoTo ''/register'') [Text ''Get Started''],
       Button Secondary Lg False False (Some ''font-mono'') (GoTo ''/login'') [Text ''Sign in''],
       El ''div'' [El ''span'' [Text ''$ git clone''], El ''span'' [Text ''kind: Repository''], El ''span'' [Text ''/metrics'']]]"

text \<open>\<open>String(a ?? b ?? '')\<close> over the payload of an event.\<close>

fun payload_text :: "(string \<times> json) list \<Rightarrow> string list \<Rightarrow> string" where
  "payload_text p [] = []"
| "payload_text p (k # ks) = (case al_get p k of
     None \<Rightarrow> payload_text p ks
   | Some j \<Rightarrow> if j = JNull then payload_text p ks else json_to_string j)"

definition eventLabel :: "activity_event \<Rightarrow> string \<times> string" where
  "eventLabel e =
     (let p = ae_payload e; t = ae_event_type e in
      if t = ''repo.create'' then (''$ repo.create'', payload_text p [''full_name'', ''repo_name''])
      else if t = ''repo.delete'' then (''$ repo.delete'', payload_text p [''repo_name''])
      else if t = ''git.push'' then (''$ git push'', payload_text p [''repo''])
      else if t = ''git.clone'' then (''$ git clone'', payload_text p [''repo''])
      else if t = ''repo.star'' then (''$ repo.star'', payload_text p [''repo_name''])
      else (''$ '' @ t, []))"

definition matches_filter :: "string \<Rightarrow> repository \<Rightarrow> bool" where
  "matches_filter s r \<longleftrightarrow> str_includes (to_lower (rp_name r)) (to_lower s) \<or> str_includes (to_lower (rp_description r)) (to_lower s)"

definition activity_view :: "dates \<Rightarrow> activity_event \<Rightarrow> 'e view" where
  "activity_view d e =
     (case eventLabel e of (cmd, detail) \<Rightarrow>
        El ''div'' (El ''p'' [Text cmd] #
          when_view (detail \<noteq> []) (El ''p'' [Icon ''Arrow'', LinkTo (''/'' @ detail) [Text detail]]) @
          [El ''p'' [ago_view d (ae_created_at e)]]))"

definition AuthenticatedHome :: "dates \<Rightarrow> string \<Rightarrow> repository list shown \<Rightarrow> activity_event list shown \<Rightarrow> home_event view" where
  "AuthenticatedHome d s q_repos q_activity =
     (let repos = or_nil (sh_data q_repos); activity = or_nil (sh_data q_activity); filtered = filter (matches_filter s) repos in
      El ''div''
        [El ''h2'' [Text ''Repositories''],
         Button Primary Sm False False (Some ''font-mono'') (GoTo ''/new'') [Icon ''Plus'', Text ''New''],
         Field ''Find a repository...'' s SetFilter,
         (if sh_loading q_repos then Spinner Md (Some ''text-secondary'')
          else if filtered = [] then
            El ''div'' (El ''p'' [Text (if repos = [] then ''No repositories yet.'' else ''No results.'')] #
              when_view (repos = []) (Button Primary Sm False False (Some ''mt-4 font-mono'') (GoTo ''/new'')
                [Text ''Create your first repository'']))
          else El ''div'' (map (RepoCard d) filtered)),
         El ''div'' (if activity = [] then [El ''p'' [Text ''$ no recent activity'']] else map (activity_view d) activity)])"

definition HomePage_view :: "dates \<Rightarrow> bool \<Rightarrow> string \<Rightarrow> repository list shown \<Rightarrow> activity_event list shown \<Rightarrow> home_event view" where
  "HomePage_view d isAuthenticated s q_repos q_activity =
     (if isAuthenticated then AuthenticatedHome d s q_repos q_activity else HeroSection)"

section \<open>The page of a user\<close>

definition UserProfilePage_view :: "dates \<Rightarrow> string \<Rightarrow> user shown \<Rightarrow> repository list shown \<Rightarrow> home_event view" where
  "UserProfilePage_view d s q_user q_repos =
     (let repos = or_nil (sh_data q_repos); filtered = filter (matches_filter s) repos in
      if sh_loading q_user then Spinner Md (Some ''text-secondary'')
      else case sh_data q_user of
        None \<Rightarrow> El ''div'' [Text ''User not found.'']
      | Some u \<Rightarrow>
          if sh_error q_user then El ''div'' [Text ''User not found.'']
          else El ''div''
            ([Avatar (Some u) None Lg (Some ''w-full h-auto aspect-square mb-4''),
              El ''h1'' [Text (if us_display_name u \<noteq> [] then us_display_name u else us_username u)],
              El ''p'' [Text ''@'', Text (us_username u)]] @
             when_view (us_bio u \<noteq> []) (El ''p'' [Text (us_bio u)]) @
             [El ''span'' [Text ''Joined '', date_view d ''MMMM yyyy'' (us_created_at u)],
              El ''span'' [Text (show_nat (length repos)), Text (if length repos = 1 then ''repository'' else ''repositories'')],
              El ''button'' [Icon ''GitBranch'', Text ''Repositories'', Text (show_nat (length repos))],
              Field ''Find a repository...'' s SetFilter,
              (if sh_loading q_repos then Spinner Md (Some ''text-secondary'')
               else if filtered = [] then
                 EmptyState (Some (Icon ''GitBranch''))
                   (if repos = [] then us_username u @ '' has no public repositories yet.'' else ''No repositories match your filter.'')
                   None None
               else El ''div'' (map (RepoCard d) filtered))]))"

section \<open>The page of a repository\<close>

record repo_page =
  pg_branch :: "string option"
  pg_selector :: selector
  pg_clone :: clone_state
  pg_tree :: "file_node list"

datatype repo_event = ReSelector selector_event | ReClone clone_event | ReNode "nat list" | ReCopy string

definition currentBranch :: "string option \<Rightarrow> string option \<Rightarrow> repository option \<Rightarrow> string" where
  "currentBranch branch routeRef repo = (case branch of Some b \<Rightarrow> b | None \<Rightarrow>
     (case routeRef of Some r \<Rightarrow> r | None \<Rightarrow> (case repo of Some r \<Rightarrow> rp_default_branch r | None \<Rightarrow> ''main'')))"

definition is_readme :: "tree_entry \<Rightarrow> bool" where
  "is_readme e \<longleftrightarrow> en_type e = Blob \<and>
     to_lower (en_name e) \<in> {''readme'', ''readme.md'', ''readme.txt'', ''readme.rst''}"

text \<open>\<open>tree?.entries.find\<close>; \<open>None\<close> when it throws.\<close>

definition readmeEntry :: "tree_response option \<Rightarrow> tree_entry option option" where
  "readmeEntry tree = (case tree of
       None \<Rightarrow> Some None
     | Some t \<Rightarrow> map_option (find is_readme) (tr_entries t))"

text \<open>The queries of the page.\<close>

definition repo_page_queries ::
    "string \<Rightarrow> string \<Rightarrow> string option \<Rightarrow> string \<Rightarrow> string option \<Rightarrow> repository option \<Rightarrow> tree_response option \<Rightarrow> app_query list" where
  "repo_page_queries owner repoName routeRef treePath branch repo tree =
     (let b = currentBranch branch routeRef repo in
      [QRepo owner repoName, QTree owner repoName b (if treePath = [] then None else Some treePath),
       QLastCommit owner repoName b (repo \<noteq> None)] @
      (case readmeEntry tree of None \<Rightarrow> [] | Some e \<Rightarrow> [QReadme owner repoName b (map_option en_path e)]))"

definition repo_header :: "string \<Rightarrow> string \<Rightarrow> repository \<Rightarrow> 'e view list" where
  "repo_header owner repoName repo =
     [LinkTo (''/'' @ owner) [Text owner], Text ''/'', Text repoName,
      Badge (if rp_is_private repo then BMuted else BDefault)
        [El ''span'' (if rp_is_private repo then [Icon ''Lock'', Text ''Private''] else [Icon ''Globe'', Text ''Public''])]] @
     when_view (rp_description repo \<noteq> []) (El ''p'' [Text (rp_description repo)]) @
     [El ''span'' [Icon ''Star'', Text (show_int (rp_star_count repo))],
      El ''span'' [Icon ''GitFork'', Text (show_int (rp_fork_count repo))],
      El ''span'' [Icon ''GitBranch'', Text (rp_default_branch repo)]]"

definition empty_repo_view :: "string \<Rightarrow> repository \<Rightarrow> 'e view" where
  "empty_repo_view repoName repo =
     El ''div'' [El ''p'' [Text ''This repository is empty.''],
       El ''p'' [Text ''Push an existing repository, or clone it and add files.''],
       El ''p'' [Text (''git clone '' @ rp_clone_url repo)], El ''p'' [Text (''cd '' @ repoName)],
       El ''p'' [Text (''echo \"# '' @ repoName @ ''\" > README.md'')],
       El ''p'' [Text ''git add . && git commit -m \"Initial commit\"''],
       El ''p'' [Text (''git push origin '' @ rp_default_branch repo)]]"

definition readme_view :: "blob_response option \<Rightarrow> 'e view" where
  "readme_view readme = (case readme of
       None \<Rightarrow> El ''div'' [El ''p'' [Text ''No README.md found''],
         El ''p'' [Text ''Add a README.md to help people understand your project.'']]
     | Some b \<Rightarrow> El ''div'' [El ''span'' [Text ''README.md''],
         (case atob (bl_content b) of None \<Rightarrow> Throws | Some t \<Rightarrow> Markup t)])"

definition repo_error_view :: "'e view" where
  "repo_error_view = El ''div'' [Text ''Repository not found or access denied.'']"

text \<open>\<open>copied\<close> is the state of the copy buttons.\<close>

definition RepoPage_view ::
    "dates \<Rightarrow> (string \<Rightarrow> (string \<times> string) option) \<Rightarrow> (string \<Rightarrow> bool) \<Rightarrow> repo_page \<Rightarrow> user option \<Rightarrow>
     string \<Rightarrow> string \<Rightarrow> string option \<Rightarrow> repository shown \<Rightarrow> tree_response shown \<Rightarrow> commit_response list shown \<Rightarrow>
     blob_response shown \<Rightarrow> branch_response list shown \<Rightarrow> repo_event view" where
  "RepoPage_view d parse_url copied s u owner repoName routeRef q_repo q_tree q_commits q_readme q_branches =
     (let branch = currentBranch (pg_branch s) routeRef (sh_data q_repo);
          entries = (case sh_data q_tree of None \<Rightarrow> None | Some t \<Rightarrow> tr_entries t);
          isEmpty = (\<not> sh_loading q_tree \<and> or_nil entries = []);
          count = (case sh_data q_commits of None \<Rightarrow> 0 | Some cs \<Rightarrow> length cs)
      in if readmeEntry (sh_data q_tree) = None then Throws
         else if sh_loading q_repo then Spinner Md (Some ''text-secondary'')
         else case sh_data q_repo of
           None \<Rightarrow> repo_error_view
         | Some repo \<Rightarrow>
             if sh_error q_repo then repo_error_view
             else El ''div'' (repo_header owner repoName repo @
               [map_view ReSelector (BranchSelector (pg_selector s) branch q_branches),
                LinkTo (''/'' @ owner @ ''/'' @ repoName @ ''/commits/'' @ branch)
                  [Icon ''GitBranch'', Text (show_nat count @ '' commit'' @
                     (if map_option length (sh_data q_commits) = Some 1 then [] else ''s''))],
                map_view ReClone (CloneButton parse_url (copied (rp_clone_url repo)) (pg_clone s) (rp_clone_url repo))] @
               (case u of None \<Rightarrow> [] | Some x \<Rightarrow> when_view (us_id x = us_id (rp_owner repo))
                  (LinkTo (''/'' @ owner @ ''/'' @ repoName @ ''/settings'') [Icon ''Settings'', Text ''Settings''])) @
               (if isEmpty then [empty_repo_view repoName repo]
                else
                  [El ''div'' ((case sh_data q_commits of
                        Some (c # cs) \<Rightarrow> [map_view ReCopy (CommitRow d (copied (co_sha c)) c)] | _ \<Rightarrow> []) @
                     [if sh_loading q_tree then Spinner Sm (Some ''text-secondary'') else map_view ReNode (FileTree (pg_tree s))]),
                   readme_view (sh_data q_readme)])))"

text \<open>
  Events of the page in a state that is shown with the tree \<open>q_tree\<close> at \<open>branch\<close>; the selector
  selects by \<open>setBranch\<close>.
\<close>

definition repo_page_step :: "string \<Rightarrow> string \<Rightarrow> string \<Rightarrow> repo_event \<Rightarrow> repo_page \<Rightarrow> repo_page" where
  "repo_page_step owner repoName branch e s = (case e of
       ReSelector ev \<Rightarrow> (case selector_step ev (pg_selector s) of (sel, chosen) \<Rightarrow>
         s\<lparr>pg_selector := sel, pg_branch := (case chosen of None \<Rightarrow> pg_branch s | Some b \<Rightarrow> Some b)\<rparr>)
     | ReClone ev \<Rightarrow> s\<lparr>pg_clone := clone_step ev (pg_clone s)\<rparr>
     | ReNode pos \<Rightarrow> s\<lparr>pg_tree := at_node pos (fst \<circ> node_click owner repoName branch) (pg_tree s)\<rparr>
     | ReCopy t \<Rightarrow> s)"

definition repo_page_start :: repo_page where
  "repo_page_start = \<lparr>pg_branch = None, pg_selector = selector_start, pg_clone = clone_start, pg_tree = []\<rparr>"

text \<open>
  What keeps its state over a render: nothing while the page shows no repository; the tree only while
  its entries are shown.
\<close>

definition repo_page_render ::
    "(string \<Rightarrow> string \<Rightarrow> int) \<Rightarrow> repository shown \<Rightarrow> tree_response shown \<Rightarrow> repo_page \<Rightarrow> repo_page" where
  "repo_page_render localeCompare q_repo q_tree s =
     (if sh_loading q_repo \<or> sh_error q_repo \<or> sh_data q_repo = None then repo_page_start\<lparr>pg_branch := pg_branch s\<rparr>
      else s\<lparr>pg_tree := (if sh_loading q_tree then []
        else keep_nodes (pg_tree s) (sorted_entries localeCompare
          (case sh_data q_tree of None \<Rightarrow> [] | Some t \<Rightarrow> or_nil (tr_entries t))))\<rparr>)"

section \<open>Commits and files\<close>

text \<open>The state of the page of commits: the branch, taken from the route when the page is first shown.\<close>

record commits_page =
  cs_branch :: string
  cs_selector :: selector

datatype commits_event = CsSelector selector_event | CsCopy string

definition commits_page_start :: "string option \<Rightarrow> commits_page" where
  "commits_page_start ref = \<lparr>cs_branch = (case ref of None \<Rightarrow> ''main'' | Some r \<Rightarrow> r), cs_selector = selector_start\<rparr>"

definition commits_page_step :: "commits_event \<Rightarrow> commits_page \<Rightarrow> commits_page" where
  "commits_page_step e s = (case e of
       CsSelector ev \<Rightarrow> (case selector_step ev (cs_selector s) of (sel, chosen) \<Rightarrow>
         s\<lparr>cs_selector := sel, cs_branch := (case chosen of None \<Rightarrow> cs_branch s | Some b \<Rightarrow> b)\<rparr>)
     | CsCopy t \<Rightarrow> s)"

definition commits_page_query :: "string \<Rightarrow> string \<Rightarrow> commits_page \<Rightarrow> app_query" where
  "commits_page_query owner repo s = QCommits owner repo (cs_branch s)"

definition RepoCommitsPage_view ::
    "dates \<Rightarrow> (string \<Rightarrow> bool) \<Rightarrow> commits_page \<Rightarrow> string \<Rightarrow> string \<Rightarrow> commit_response list shown \<Rightarrow>
     branch_response list shown \<Rightarrow> commits_event view" where
  "RepoCommitsPage_view d copied s owner repo q_commits q_branches =
     El ''div''
       [LinkTo (''/'' @ owner @ ''/'' @ repo) [Text (owner @ ''/'' @ repo)], Icon ''GitCommit'', Text ''Commits'',
        map_view CsSelector (BranchSelector (cs_selector s) (cs_branch s) q_branches),
        map_view CsCopy (CommitList d copied (or_nil (sh_data q_commits)) (sh_loading q_commits)
          (if sh_error q_commits then Some ''Failed to load commits. The repository may be empty.'' else None))]"

definition RepoFilePage_view :: "viewer \<Rightarrow> string \<Rightarrow> string \<Rightarrow> string \<Rightarrow> string \<Rightarrow> blob_response shown \<Rightarrow> 'e view" where
  "RepoFilePage_view v owner repo ref filePath q =
     El ''div'' ([Breadcrumb owner repo ref filePath Blob] @
       when_view (sh_loading q) (Spinner Md (Some ''text-secondary'')) @
       when_view (sh_error q) (El ''div'' [Text ''Failed to load file.'']) @
       (case sh_data q of None \<Rightarrow> [] | Some b \<Rightarrow>
          [FileViewer v (bl_size b) (bl_sha b)
             (Some (''/api/v1/repos/'' @ owner @ ''/'' @ repo @ ''/blob/'' @ ref @ ''/'' @ filePath @ ''?raw=true''))]))"

definition viewed_name :: "string \<Rightarrow> string" where
  "viewed_name filePath = (let parts = path_parts filePath in if parts = [] then filePath else last parts)"

end
