(* ===== verification/Mutations.thy ===== *)
theory Mutations
  imports QueryCore
begin

text \<open>
  Mutations of the query library: their reducer, \<open>execute\<close> with its retrier, the cache with its
  scopes, and the observers behind \<open>useMutation\<close>. Mutations and observers are named by their position
  in a list. \<open>execute\<close> is cut where it waits: before the start (\<open>MStarting\<close>), for the answer
  (\<open>MRunning\<close>), for a timer (\<open>MSleeping\<close>), for focus, network or its turn (\<open>MPausedStart\<close>,
  \<open>MPausedRetry\<close>). \<open>'w\<close> is the world the callbacks act on, \<open>'r\<close> what the mutation function sends.

  Mutation keys, restored mutations, \<open>onMutate\<close>, \<open>onSettled\<close>, callbacks of one call and of the cache are
  left out: the application uses none of them. \<open>retry\<close> is a number. Nothing cancels the retrier of a
  mutation.
\<close>

section \<open>State\<close>

datatype mstatus = MIdle | MPending | MSuccess | MError

record ('v, 'd, 'e) mstate =
  ms_data :: "'d option"
  ms_error :: "'e option"
  ms_failureCount :: nat
  ms_failureReason :: "'e option"
  ms_isPaused :: bool
  ms_status :: mstatus
  ms_variables :: "'v option"
  ms_submittedAt :: nat

text \<open>\<open>onSuccess\<close> may throw; an exception of \<open>onError\<close> is dropped.\<close>

record ('v, 'r, 'd, 'e, 'w) moptions =
  mo_fn :: "'v \<Rightarrow> 'r"
  mo_onSuccess :: "'d \<Rightarrow> 'v \<Rightarrow> 'w \<Rightarrow> 'w \<times> 'e option"
  mo_onError :: "'e \<Rightarrow> 'v \<Rightarrow> 'w \<Rightarrow> 'w"
  mo_retry :: "nat option"
  mo_retryDelay :: "nat option"
  mo_networkMode :: "net_mode option"
  mo_gcTime :: "gc_time option"
  mo_scope :: "string option"

datatype 'e mphase = MStarting | MRunning | MSleeping nat 'e | MPausedStart | MPausedRetry 'e | MEnded

text \<open>\<open>mu_variables\<close>, \<open>mu_retry\<close>, \<open>mu_delay\<close> and \<open>mu_mode\<close> are what \<open>execute\<close> has fixed for its retrier.\<close>

record ('v, 'r, 'd, 'e, 'w) mutation =
  mu_options :: "('v, 'r, 'd, 'e, 'w) moptions"
  mu_observers :: "nat list"
  mu_state :: "('v, 'd, 'e) mstate"
  mu_phase :: "'e mphase"
  mu_failures :: nat
  mu_variables :: 'v
  mu_retry :: nat
  mu_delay :: "nat option"
  mu_mode :: "net_mode option"
  mu_gcTime :: gc_time
  mu_gcTimer :: bool

record ('v, 'r, 'd, 'e, 'w) mobserver =
  mb_options :: "('v, 'r, 'd, 'e, 'w) moptions"
  mb_current :: "nat option"
  mb_listening :: bool
  mb_result :: "('v, 'd, 'e) mstate"

text \<open>\<open>mc_set\<close> and \<open>mc_scopes\<close> are the cache; \<open>mc_sent\<close> is what mutation functions have sent.\<close>

record ('v, 'r, 'd, 'e, 'w) mclient =
  mc_mutations :: "('v, 'r, 'd, 'e, 'w) mutation list"
  mc_set :: "nat list"
  mc_scopes :: "(string \<times> nat list) list"
  mc_observers :: "('v, 'r, 'd, 'e, 'w) mobserver list"
  mc_sent :: "(nat \<times> 'r) list"
  mc_world :: 'w
  mc_now :: nat
  mc_online :: bool
  mc_focused :: bool

definition upd_mutation :: "nat \<Rightarrow> (('v, 'r, 'd, 'e, 'w) mutation \<Rightarrow> ('v, 'r, 'd, 'e, 'w) mutation) \<Rightarrow>
    ('v, 'r, 'd, 'e, 'w) mclient \<Rightarrow> ('v, 'r, 'd, 'e, 'w) mclient" where
  "upd_mutation i f c = c\<lparr>mc_mutations := (mc_mutations c)[i := f (mc_mutations c ! i)]\<rparr>"

definition upd_mobserver :: "nat \<Rightarrow> (('v, 'r, 'd, 'e, 'w) mobserver \<Rightarrow> ('v, 'r, 'd, 'e, 'w) mobserver) \<Rightarrow>
    ('v, 'r, 'd, 'e, 'w) mclient \<Rightarrow> ('v, 'r, 'd, 'e, 'w) mclient" where
  "upd_mobserver b f c = c\<lparr>mc_observers := (mc_observers c)[b := f (mc_observers c ! b)]\<rparr>"

section \<open>The reducer\<close>

definition getDefaultState2 :: "('v, 'd, 'e) mstate" where
  "getDefaultState2 = \<lparr>ms_data = None, ms_error = None, ms_failureCount = 0, ms_failureReason = None, ms_isPaused = False,
     ms_status = MIdle, ms_variables = None, ms_submittedAt = 0\<rparr>"

datatype ('v, 'd, 'e) maction = MFailed nat 'e | MPause | MContinue | MDoPending 'v bool | MDoSuccess 'd | MDoError 'e

fun mreducer :: "nat \<Rightarrow> ('v, 'd, 'e) maction \<Rightarrow> ('v, 'd, 'e) mstate \<Rightarrow> ('v, 'd, 'e) mstate" where
  "mreducer now (MFailed n e) s = s\<lparr>ms_failureCount := n, ms_failureReason := Some e\<rparr>"
| "mreducer now MPause s = s\<lparr>ms_isPaused := True\<rparr>"
| "mreducer now MContinue s = s\<lparr>ms_isPaused := False\<rparr>"
| "mreducer now (MDoPending v paused) s =
     s\<lparr>ms_data := None, ms_failureCount := 0, ms_failureReason := None, ms_error := None, ms_isPaused := paused,
       ms_status := MPending, ms_variables := Some v, ms_submittedAt := now\<rparr>"
| "mreducer now (MDoSuccess d) s =
     s\<lparr>ms_data := Some d, ms_failureCount := 0, ms_failureReason := None, ms_error := None, ms_status := MSuccess,
       ms_isPaused := False\<rparr>"
| "mreducer now (MDoError e) s =
     s\<lparr>ms_data := None, ms_error := Some e, ms_failureCount := ms_failureCount s + 1, ms_failureReason := Some e,
       ms_isPaused := False, ms_status := MError\<rparr>"

section \<open>Observers of a mutation\<close>

definition mb_updateResult :: "nat \<Rightarrow> ('v, 'r, 'd, 'e, 'w) mclient \<Rightarrow> ('v, 'r, 'd, 'e, 'w) mclient" where
  "mb_updateResult b c = upd_mobserver b (\<lambda>ob. ob\<lparr>mb_result :=
     (case mb_current ob of None \<Rightarrow> getDefaultState2 | Some i \<Rightarrow> mu_state (mc_mutations c ! i))\<rparr>) c"

definition mu_dispatch :: "nat \<Rightarrow> ('v, 'd, 'e) maction \<Rightarrow> ('v, 'r, 'd, 'e, 'w) mclient \<Rightarrow> ('v, 'r, 'd, 'e, 'w) mclient" where
  "mu_dispatch i act c =
     fold mb_updateResult (mu_observers (mc_mutations c ! i))
       (upd_mutation i (\<lambda>m. m\<lparr>mu_state := mreducer (mc_now c) act (mu_state m)\<rparr>) c)"

definition mu_scheduleGc :: "('v, 'r, 'd, 'e, 'w) mutation \<Rightarrow> ('v, 'r, 'd, 'e, 'w) mutation" where
  "mu_scheduleGc m = m\<lparr>mu_gcTimer := (mu_gcTime m \<noteq> GcNever)\<rparr>"

definition mu_setOptions :: "('v, 'r, 'd, 'e, 'w) moptions \<Rightarrow> ('v, 'r, 'd, 'e, 'w) mutation \<Rightarrow> ('v, 'r, 'd, 'e, 'w) mutation" where
  "mu_setOptions opts m = m\<lparr>mu_options := opts,
     mu_gcTime := gc_max (mu_gcTime m) (case mo_gcTime opts of None \<Rightarrow> GcMs (5 * 60 * 1000) | Some t \<Rightarrow> t)\<rparr>"

definition mu_addObserver :: "nat \<Rightarrow> nat \<Rightarrow> ('v, 'r, 'd, 'e, 'w) mclient \<Rightarrow> ('v, 'r, 'd, 'e, 'w) mclient" where
  "mu_addObserver i b c =
     (if b \<in> set (mu_observers (mc_mutations c ! i)) then c
      else upd_mutation i (\<lambda>m. m\<lparr>mu_observers := mu_observers m @ [b], mu_gcTimer := False\<rparr>) c)"

definition mu_removeObserver :: "nat \<Rightarrow> nat \<Rightarrow> ('v, 'r, 'd, 'e, 'w) mclient \<Rightarrow> ('v, 'r, 'd, 'e, 'w) mclient" where
  "mu_removeObserver i b c =
     upd_mutation i (\<lambda>m. mu_scheduleGc (m\<lparr>mu_observers := filter (\<lambda>x. x \<noteq> b) (mu_observers m)\<rparr>)) c"

section \<open>The cache\<close>

definition scopeFor :: "('v, 'r, 'd, 'e, 'w) mclient \<Rightarrow> nat \<Rightarrow> string option" where
  "scopeFor c i = mo_scope (mu_options (mc_mutations c ! i))"

definition mcache_add :: "nat \<Rightarrow> ('v, 'r, 'd, 'e, 'w) mclient \<Rightarrow> ('v, 'r, 'd, 'e, 'w) mclient" where
  "mcache_add i c =
     (let c1 = c\<lparr>mc_set := mc_set c @ [i]\<rparr> in
      case scopeFor c i of
        None \<Rightarrow> c1
      | Some s \<Rightarrow> c1\<lparr>mc_scopes := al_set (mc_scopes c) s ((case al_get (mc_scopes c) s of None \<Rightarrow> [] | Some is \<Rightarrow> is) @ [i])\<rparr>)"

definition mcache_build :: "('v, 'r, 'd, 'e, 'w) moptions \<Rightarrow> 'v \<Rightarrow> ('v, 'r, 'd, 'e, 'w) mclient \<Rightarrow> ('v, 'r, 'd, 'e, 'w) mclient" where
  "mcache_build opts v c =
     mcache_add (length (mc_mutations c))
       (c\<lparr>mc_mutations := mc_mutations c @ [mu_scheduleGc (mu_setOptions opts
          \<lparr>mu_options = opts, mu_observers = [], mu_state = getDefaultState2, mu_phase = MStarting, mu_failures = 0,
           mu_variables = v, mu_retry = 0, mu_delay = None, mu_mode = None, mu_gcTime = GcMs 0, mu_gcTimer = False\<rparr>)]\<rparr>)"

definition mcache_remove :: "nat \<Rightarrow> ('v, 'r, 'd, 'e, 'w) mclient \<Rightarrow> ('v, 'r, 'd, 'e, 'w) mclient" where
  "mcache_remove i c =
     (if i \<notin> set (mc_set c) then c
      else
        let c1 = c\<lparr>mc_set := remove1 i (mc_set c)\<rparr> in
        case scopeFor c i of
          None \<Rightarrow> c1
        | Some s \<Rightarrow> (case al_get (mc_scopes c) s of
              None \<Rightarrow> c1
            | Some is \<Rightarrow>
                if length is > 1 then c1\<lparr>mc_scopes := al_set (mc_scopes c) s (remove1 i is)\<rparr>
                else if is = [i] then c1\<lparr>mc_scopes := al_del (mc_scopes c) s\<rparr> else c1))"

definition mu_pending :: "('v, 'r, 'd, 'e, 'w) mclient \<Rightarrow> nat \<Rightarrow> bool" where
  "mu_pending c i = (ms_status (mu_state (mc_mutations c ! i)) = MPending)"

definition canRun :: "('v, 'r, 'd, 'e, 'w) mclient \<Rightarrow> nat \<Rightarrow> bool" where
  "canRun c i = (case scopeFor c i of
       None \<Rightarrow> True
     | Some s \<Rightarrow> (case al_get (mc_scopes c) s of
           None \<Rightarrow> True
         | Some is \<Rightarrow> (case find (mu_pending c) is of None \<Rightarrow> True | Some j \<Rightarrow> j = i)))"

definition mu_optionalRemove :: "nat \<Rightarrow> ('v, 'r, 'd, 'e, 'w) mclient \<Rightarrow> ('v, 'r, 'd, 'e, 'w) mclient" where
  "mu_optionalRemove i c =
     (if mu_observers (mc_mutations c ! i) \<noteq> [] then c
      else if mu_pending c i then upd_mutation i mu_scheduleGc c else mcache_remove i c)"

definition mu_gc_timer :: "nat \<Rightarrow> ('v, 'r, 'd, 'e, 'w) mclient \<Rightarrow> ('v, 'r, 'd, 'e, 'w) mclient" where
  "mu_gc_timer i c = mu_optionalRemove i (upd_mutation i (\<lambda>m. m\<lparr>mu_gcTimer := False\<rparr>) c)"

text \<open>The part of \<open>QueryClient.clear\<close> that concerns mutations.\<close>

definition mcache_clear :: "('v, 'r, 'd, 'e, 'w) mclient \<Rightarrow> ('v, 'r, 'd, 'e, 'w) mclient" where
  "mcache_clear c = c\<lparr>mc_set := [], mc_scopes := []\<rparr>"

section \<open>The retrier of a mutation\<close>

definition mu_canStart :: "('v, 'r, 'd, 'e, 'w) mclient \<Rightarrow> nat \<Rightarrow> bool" where
  "mu_canStart c i = (canFetch (mc_online c) (mu_mode (mc_mutations c ! i)) \<and> canRun c i)"

definition mu_canContinue :: "('v, 'r, 'd, 'e, 'w) mclient \<Rightarrow> nat \<Rightarrow> bool" where
  "mu_canContinue c i = (mc_focused c \<and> (mu_mode (mc_mutations c ! i) = Some Always \<or> mc_online c) \<and> canRun c i)"

definition mu_set_phase :: "nat \<Rightarrow> 'e mphase \<Rightarrow> ('v, 'r, 'd, 'e, 'w) mclient \<Rightarrow> ('v, 'r, 'd, 'e, 'w) mclient" where
  "mu_set_phase i ph c = upd_mutation i (\<lambda>m. m\<lparr>mu_phase := ph\<rparr>) c"

text \<open>\<open>fn\<close> reads the options when it is called.\<close>

definition mu_run :: "nat \<Rightarrow> ('v, 'r, 'd, 'e, 'w) mclient \<Rightarrow> ('v, 'r, 'd, 'e, 'w) mclient" where
  "mu_run i c =
     (let m = mc_mutations c ! i in
      mu_set_phase i MRunning (c\<lparr>mc_sent := mc_sent c @ [(i, mo_fn (mu_options m) (mu_variables m))]\<rparr>))"

definition mu_start :: "nat \<Rightarrow> ('v, 'r, 'd, 'e, 'w) mclient \<Rightarrow> ('v, 'r, 'd, 'e, 'w) mclient" where
  "mu_start i c = (if mu_canStart c i then mu_run i c else mu_dispatch i MPause (mu_set_phase i MPausedStart c))"

definition mu_continue :: "nat \<Rightarrow> ('v, 'r, 'd, 'e, 'w) mclient \<Rightarrow> ('v, 'r, 'd, 'e, 'w) mclient" where
  "mu_continue i c =
     (let paused = (case mu_phase (mc_mutations c ! i) of MPausedStart \<Rightarrow> True | MPausedRetry e \<Rightarrow> True | _ \<Rightarrow> False)
      in if paused \<and> mu_canContinue c i then mu_run i (mu_dispatch i MContinue c) else c)"

definition runNext :: "nat \<Rightarrow> ('v, 'r, 'd, 'e, 'w) mclient \<Rightarrow> ('v, 'r, 'd, 'e, 'w) mclient" where
  "runNext i c = (case scopeFor c i of
       None \<Rightarrow> c
     | Some s \<Rightarrow> (case al_get (mc_scopes c) s of
           None \<Rightarrow> c
         | Some is \<Rightarrow> (case find (\<lambda>j. j \<noteq> i \<and> ms_isPaused (mu_state (mc_mutations c ! j))) is of
               None \<Rightarrow> c
             | Some j \<Rightarrow> mu_continue j c)))"

text \<open>As the client calls it: only while online.\<close>

definition resumePausedMutations :: "('v, 'r, 'd, 'e, 'w) mclient \<Rightarrow> ('v, 'r, 'd, 'e, 'w) mclient" where
  "resumePausedMutations c =
     (if mc_online c then fold mu_continue (filter (\<lambda>i. ms_isPaused (mu_state (mc_mutations c ! i))) (mc_set c)) c else c)"

section \<open>\<open>execute\<close>\<close>

text \<open>Up to its first \<open>await\<close>.\<close>

definition mu_execute :: "nat \<Rightarrow> ('v, 'r, 'd, 'e, 'w) mclient \<Rightarrow> ('v, 'r, 'd, 'e, 'w) mclient" where
  "mu_execute i c =
     (let c1 = upd_mutation i (\<lambda>m. m\<lparr>mu_retry := (case mo_retry (mu_options m) of None \<Rightarrow> 0 | Some n \<Rightarrow> n),
                 mu_delay := mo_retryDelay (mu_options m), mu_mode := mo_networkMode (mu_options m)\<rparr>) c
      in mu_dispatch i (MDoPending (mu_variables (mc_mutations c1 ! i)) (\<not> mu_canStart c1 i)) c1)"

text \<open>The \<open>catch\<close> with \<open>finally\<close>, and what follows a value.\<close>

definition mu_rejected :: "nat \<Rightarrow> 'e \<Rightarrow> ('v, 'r, 'd, 'e, 'w) mclient \<Rightarrow> ('v, 'r, 'd, 'e, 'w) mclient" where
  "mu_rejected i e c =
     (let m = mc_mutations c ! i in
      runNext i (mu_dispatch i (MDoError e) (c\<lparr>mc_world := mo_onError (mu_options m) e (mu_variables m) (mc_world c)\<rparr>)))"

definition mu_resolved :: "nat \<Rightarrow> 'd \<Rightarrow> ('v, 'r, 'd, 'e, 'w) mclient \<Rightarrow> ('v, 'r, 'd, 'e, 'w) mclient" where
  "mu_resolved i d c =
     (let m = mc_mutations c ! i in
      case mo_onSuccess (mu_options m) d (mu_variables m) (mc_world c) of
        (w, None) \<Rightarrow> runNext i (mu_dispatch i (MDoSuccess d) (c\<lparr>mc_world := w\<rparr>))
      | (w, Some e) \<Rightarrow> mu_rejected i e (c\<lparr>mc_world := w\<rparr>))"

definition mu_answer :: "nat \<Rightarrow> 'd + 'e \<Rightarrow> ('v, 'r, 'd, 'e, 'w) mclient \<Rightarrow> ('v, 'r, 'd, 'e, 'w) mclient" where
  "mu_answer i x c =
     (let m = mc_mutations c ! i in
      case x of
        Inl d \<Rightarrow> mu_resolved i d (mu_set_phase i MEnded c)
      | Inr e \<Rightarrow>
          if mu_failures m < mu_retry m then
            mu_dispatch i (MFailed (mu_failures m + 1) e)
              (upd_mutation i (\<lambda>m'. m'\<lparr>mu_failures := mu_failures m + 1,
                 mu_phase := MSleeping (case mu_delay m of None \<Rightarrow> defaultRetryDelay (mu_failures m) | Some t \<Rightarrow> t) e\<rparr>) c)
          else mu_rejected i e (mu_set_phase i MEnded c))"

definition mu_wake :: "nat \<Rightarrow> ('v, 'r, 'd, 'e, 'w) mclient \<Rightarrow> ('v, 'r, 'd, 'e, 'w) mclient" where
  "mu_wake i c = (case mu_phase (mc_mutations c ! i) of
       MSleeping t e \<Rightarrow>
         if mu_canContinue c i then mu_run i c else mu_dispatch i MPause (mu_set_phase i (MPausedRetry e) c)
     | _ \<Rightarrow> c)"

section \<open>Observers\<close>

definition new_mobserver :: "('v, 'r, 'd, 'e, 'w) moptions \<Rightarrow> ('v, 'r, 'd, 'e, 'w) mclient \<Rightarrow> ('v, 'r, 'd, 'e, 'w) mclient" where
  "new_mobserver opts c = c\<lparr>mc_observers := mc_observers c @
     [\<lparr>mb_options = opts, mb_current = None, mb_listening = False, mb_result = getDefaultState2\<rparr>]\<rparr>"

definition mb_setOptions :: "nat \<Rightarrow> ('v, 'r, 'd, 'e, 'w) moptions \<Rightarrow> ('v, 'r, 'd, 'e, 'w) mclient \<Rightarrow> ('v, 'r, 'd, 'e, 'w) mclient" where
  "mb_setOptions b opts c =
     (let c1 = upd_mobserver b (\<lambda>ob. ob\<lparr>mb_options := opts\<rparr>) c in
      case mb_current (mc_observers c ! b) of
        None \<Rightarrow> c1
      | Some i \<Rightarrow> if mu_pending c1 i then upd_mutation i (mu_setOptions opts) c1 else c1)"

definition mb_leave :: "nat \<Rightarrow> ('v, 'r, 'd, 'e, 'w) mclient \<Rightarrow> ('v, 'r, 'd, 'e, 'w) mclient" where
  "mb_leave b c = (case mb_current (mc_observers c ! b) of None \<Rightarrow> c | Some i \<Rightarrow> mu_removeObserver i b c)"

definition mb_subscribe :: "nat \<Rightarrow> ('v, 'r, 'd, 'e, 'w) mclient \<Rightarrow> ('v, 'r, 'd, 'e, 'w) mclient" where
  "mb_subscribe b c = upd_mobserver b (\<lambda>ob. ob\<lparr>mb_listening := True\<rparr>) c"

definition mb_unsubscribe :: "nat \<Rightarrow> ('v, 'r, 'd, 'e, 'w) mclient \<Rightarrow> ('v, 'r, 'd, 'e, 'w) mclient" where
  "mb_unsubscribe b c = mb_leave b (upd_mobserver b (\<lambda>ob. ob\<lparr>mb_listening := False\<rparr>) c)"

definition mb_reset :: "nat \<Rightarrow> ('v, 'r, 'd, 'e, 'w) mclient \<Rightarrow> ('v, 'r, 'd, 'e, 'w) mclient" where
  "mb_reset b c = mb_updateResult b (upd_mobserver b (\<lambda>ob. ob\<lparr>mb_current := None\<rparr>) (mb_leave b c))"

definition mutate :: "nat \<Rightarrow> 'v \<Rightarrow> ('v, 'r, 'd, 'e, 'w) mclient \<Rightarrow> ('v, 'r, 'd, 'e, 'w) mclient" where
  "mutate b v c =
     (let c1 = mb_leave b c; i = length (mc_mutations c1);
          c2 = mcache_build (mb_options (mc_observers c1 ! b)) v c1;
          c3 = upd_mobserver b (\<lambda>ob. ob\<lparr>mb_current := Some i\<rparr>) c2
      in mu_execute i (mu_addObserver i b c3))"

section \<open>Events\<close>

datatype ('v, 'r, 'd, 'e, 'w) mevent =
    MMutate nat 'v
  | MStart nat
  | MAnswer nat "'d + 'e"
  | MWake nat
  | MGcTimer nat
  | MRender nat "('v, 'r, 'd, 'e, 'w) moptions"
  | MMount "('v, 'r, 'd, 'e, 'w) moptions"
  | MUnmount nat
  | MReset nat
  | MClear
  | MFocus bool
  | MOnline bool
  | MTick nat
  | MWorld "'w \<Rightarrow> 'w"

fun mhandle :: "('v, 'r, 'd, 'e, 'w) mevent \<Rightarrow> ('v, 'r, 'd, 'e, 'w) mclient \<Rightarrow> ('v, 'r, 'd, 'e, 'w) mclient" where
  "mhandle (MMutate b v) c = mutate b v c"
| "mhandle (MStart i) c = mu_start i c"
| "mhandle (MAnswer i x) c = mu_answer i x c"
| "mhandle (MWake i) c = mu_wake i c"
| "mhandle (MGcTimer i) c = mu_gc_timer i c"
| "mhandle (MRender b opts) c = mb_setOptions b opts c"
| "mhandle (MMount opts) c = mb_subscribe (length (mc_observers c)) (new_mobserver opts c)"
| "mhandle (MUnmount b) c = mb_unsubscribe b c"
| "mhandle (MReset b) c = mb_reset b c"
| "mhandle MClear c = mcache_clear c"
| "mhandle (MFocus f) c = (let c1 = c\<lparr>mc_focused := f\<rparr> in if f then resumePausedMutations c1 else c1)"
| "mhandle (MOnline on) c = (let c1 = c\<lparr>mc_online := on\<rparr> in if on then resumePausedMutations c1 else c1)"
| "mhandle (MTick n) c = c\<lparr>mc_now := mc_now c + n\<rparr>"
| "mhandle (MWorld f) c = c\<lparr>mc_world := f (mc_world c)\<rparr>"

text \<open>When an event can come.\<close>

fun mpossible :: "('v, 'r, 'd, 'e, 'w) mclient \<Rightarrow> ('v, 'r, 'd, 'e, 'w) mevent \<Rightarrow> bool" where
  "mpossible c (MMutate b v) = (b < length (mc_observers c))"
| "mpossible c (MStart i) = (i < length (mc_mutations c) \<and> mu_phase (mc_mutations c ! i) = MStarting)"
| "mpossible c (MAnswer i x) = (i < length (mc_mutations c) \<and> mu_phase (mc_mutations c ! i) = MRunning)"
| "mpossible c (MWake i) = (i < length (mc_mutations c) \<and> (case mu_phase (mc_mutations c ! i) of MSleeping t e \<Rightarrow> True | _ \<Rightarrow> False))"
| "mpossible c (MGcTimer i) = (i < length (mc_mutations c) \<and> mu_gcTimer (mc_mutations c ! i))"
| "mpossible c (MRender b opts) = (b < length (mc_observers c))"
| "mpossible c (MUnmount b) = (b < length (mc_observers c))"
| "mpossible c (MReset b) = (b < length (mc_observers c))"
| "mpossible c ev = True"

fun mrun :: "('v, 'r, 'd, 'e, 'w) mevent list \<Rightarrow> ('v, 'r, 'd, 'e, 'w) mclient \<Rightarrow> ('v, 'r, 'd, 'e, 'w) mclient option" where
  "mrun [] c = Some c"
| "mrun (ev # evs) c = (if mpossible c ev then mrun evs (mhandle ev c) else None)"

definition fresh_mclient :: "'w \<Rightarrow> bool \<Rightarrow> bool \<Rightarrow> ('v, 'r, 'd, 'e, 'w) mclient" where
  "fresh_mclient w online focused = \<lparr>mc_mutations = [], mc_set = [], mc_scopes = [], mc_observers = [], mc_sent = [],
     mc_world = w, mc_now = 0, mc_online = online, mc_focused = focused\<rparr>"

end
