(* ===== verification/MutationFacts.thy ===== *)
theory MutationFacts
  imports Mutations
begin

text \<open>
  What holds of mutations after any sequence of events: how often a mutation sends, what an observer
  shows, and what becomes of a paused mutation when the cache is cleared.
\<close>

section \<open>Fields\<close>

lemma upd_mutation_fields [simp]:
  "mc_mutations (upd_mutation i f c) = (mc_mutations c)[i := f (mc_mutations c ! i)]"
  "mc_observers (upd_mutation i f c) = mc_observers c" "mc_sent (upd_mutation i f c) = mc_sent c"
  "mc_set (upd_mutation i f c) = mc_set c" "mc_scopes (upd_mutation i f c) = mc_scopes c"
  "mc_world (upd_mutation i f c) = mc_world c" "mc_online (upd_mutation i f c) = mc_online c"
  "mc_focused (upd_mutation i f c) = mc_focused c"
  by (simp_all add: upd_mutation_def)

lemma upd_mobserver_fields [simp]:
  "mc_mutations (upd_mobserver b g c) = mc_mutations c"
  "mc_observers (upd_mobserver b g c) = (mc_observers c)[b := g (mc_observers c ! b)]" "mc_sent (upd_mobserver b g c) = mc_sent c"
  "mc_set (upd_mobserver b g c) = mc_set c" "mc_scopes (upd_mobserver b g c) = mc_scopes c"
  "mc_world (upd_mobserver b g c) = mc_world c" "mc_online (upd_mobserver b g c) = mc_online c"
  "mc_focused (upd_mobserver b g c) = mc_focused c"
  by (simp_all add: upd_mobserver_def)

lemma mb_updateResult_fields [simp]:
  "mc_mutations (mb_updateResult b c) = mc_mutations c" "mc_sent (mb_updateResult b c) = mc_sent c"
  "mc_set (mb_updateResult b c) = mc_set c" "mc_scopes (mb_updateResult b c) = mc_scopes c"
  "mc_world (mb_updateResult b c) = mc_world c" "mc_online (mb_updateResult b c) = mc_online c"
  "mc_focused (mb_updateResult b c) = mc_focused c" "length (mc_observers (mb_updateResult b c)) = length (mc_observers c)"
  by (simp_all add: mb_updateResult_def)

lemma updateResults_fields [simp]:
  "mc_mutations (fold mb_updateResult bs c) = mc_mutations c" "mc_sent (fold mb_updateResult bs c) = mc_sent c"
  "mc_set (fold mb_updateResult bs c) = mc_set c" "mc_scopes (fold mb_updateResult bs c) = mc_scopes c"
  "mc_world (fold mb_updateResult bs c) = mc_world c" "mc_online (fold mb_updateResult bs c) = mc_online c"
  "mc_focused (fold mb_updateResult bs c) = mc_focused c"
  "length (mc_observers (fold mb_updateResult bs c)) = length (mc_observers c)"
  by (induction bs arbitrary: c) simp_all

definition refreshed :: "('v, 'r, 'd, 'e, 'w) mclient \<Rightarrow> ('v, 'r, 'd, 'e, 'w) mobserver \<Rightarrow> ('v, 'r, 'd, 'e, 'w) mobserver" where
  "refreshed c ob = ob\<lparr>mb_result := (case mb_current ob of None \<Rightarrow> getDefaultState2 | Some i \<Rightarrow> mu_state (mc_mutations c ! i))\<rparr>"

lemma refreshed_fields [simp]:
  "mb_current (refreshed c ob) = mb_current ob" "mb_listening (refreshed c ob) = mb_listening ob"
  "mb_options (refreshed c ob) = mb_options ob" "refreshed c (refreshed c ob) = refreshed c ob"
  by (simp_all add: refreshed_def)

lemma updateResults_nth:
  assumes "b < length (mc_observers c)"
  shows "mc_observers (fold mb_updateResult bs c) ! b = (if b \<in> set bs then refreshed c (mc_observers c ! b) else mc_observers c ! b)"
  using assms
proof (induction bs arbitrary: c)
  case (Cons a bs)
  have "refreshed (mb_updateResult a c) = refreshed c" by (rule ext) (simp add: refreshed_def split: option.split)
  moreover have "mc_observers (mb_updateResult a c) ! b = (if b = a then refreshed c (mc_observers c ! b) else mc_observers c ! b)"
    using Cons.prems by (simp add: mb_updateResult_def refreshed_def nth_list_update)
  moreover have "mc_observers (fold mb_updateResult bs (mb_updateResult a c)) ! b =
      (if b \<in> set bs then refreshed (mb_updateResult a c) (mc_observers (mb_updateResult a c) ! b) else mc_observers (mb_updateResult a c) ! b)"
    by (rule Cons.IH) (simp add: Cons.prems)
  ultimately show ?case by (simp only: fold_simps list.set insert_iff refl refreshed_fields split: if_split) simp
qed simp

lemma mu_dispatch_fields [simp]:
  "mc_mutations (mu_dispatch i act c) =
     (mc_mutations c)[i := (mc_mutations c ! i)\<lparr>mu_state := mreducer (mc_now c) act (mu_state (mc_mutations c ! i))\<rparr>]"
  "mc_sent (mu_dispatch i act c) = mc_sent c"
  "mc_set (mu_dispatch i act c) = mc_set c" "mc_scopes (mu_dispatch i act c) = mc_scopes c"
  "mc_world (mu_dispatch i act c) = mc_world c" "mc_online (mu_dispatch i act c) = mc_online c"
  "mc_focused (mu_dispatch i act c) = mc_focused c" "length (mc_observers (mu_dispatch i act c)) = length (mc_observers c)"
  by (simp_all add: mu_dispatch_def)

lemma mu_set_phase_fields [simp]:
  "mc_mutations (mu_set_phase i ph c) = (mc_mutations c)[i := (mc_mutations c ! i)\<lparr>mu_phase := ph\<rparr>]"
  "mc_sent (mu_set_phase i ph c) = mc_sent c" "mc_observers (mu_set_phase i ph c) = mc_observers c"
  "mc_set (mu_set_phase i ph c) = mc_set c" "mc_scopes (mu_set_phase i ph c) = mc_scopes c"
  "mc_world (mu_set_phase i ph c) = mc_world c" "mc_online (mu_set_phase i ph c) = mc_online c"
  "mc_focused (mu_set_phase i ph c) = mc_focused c"
  by (simp_all add: mu_set_phase_def)

section \<open>How often a mutation sends\<close>

definition sends :: "('v, 'r, 'd, 'e, 'w) mclient \<Rightarrow> nat \<Rightarrow> nat" where
  "sends c i = count_list (map fst (mc_sent c)) i"

text \<open>A mutation, with the number of times it has sent.\<close>

definition mut_ok :: "nat \<Rightarrow> ('v, 'r, 'd, 'e, 'w) mutation \<Rightarrow> bool" where
  "mut_ok n m \<longleftrightarrow> (ms_status (mu_state m) = MPending \<longleftrightarrow> mu_phase m \<noteq> MEnded) \<and> mu_failures m \<le> mu_retry m \<and>
     (case mu_phase m of
        MStarting \<Rightarrow> n = 0 \<and> mu_failures m = 0
      | MPausedStart \<Rightarrow> n = 0 \<and> mu_failures m = 0 \<and> ms_isPaused (mu_state m)
      | MRunning \<Rightarrow> n = Suc (mu_failures m)
      | MSleeping t e \<Rightarrow> n = mu_failures m
      | MPausedRetry e \<Rightarrow> n = mu_failures m \<and> ms_isPaused (mu_state m)
      | MEnded \<Rightarrow> 0 < n \<and> n \<le> Suc (mu_retry m))"

definition sends_ok :: "('v, 'r, 'd, 'e, 'w) mclient \<Rightarrow> bool" where
  "sends_ok c \<longleftrightarrow> (\<forall>i < length (mc_mutations c). mut_ok (sends c i) (mc_mutations c ! i)) \<and>
     (\<forall>i. length (mc_mutations c) \<le> i \<longrightarrow> sends c i = 0)"

lemma sends_ok_upd:
  assumes "sends_ok c" and "mc_mutations c' = (mc_mutations c)[i := m]" and "\<And>j. j \<noteq> i \<Longrightarrow> sends c' j = sends c j"
    and "i < length (mc_mutations c)" and "mut_ok (sends c' i) m"
  shows "sends_ok c'"
  using assms by (auto simp: sends_ok_def nth_list_update)

lemma sends_ok_nth: "sends_ok c \<Longrightarrow> i < length (mc_mutations c) \<Longrightarrow> mut_ok (sends c i) (mc_mutations c ! i)"
  by (simp add: sends_ok_def)

lemma sends_run: "sends (mu_run i c) j = sends c j + (if i = j then 1 else 0)"
  by (simp add: sends_def mu_run_def Let_def)

lemma sends_same [simp]:
  "sends (mu_dispatch i act c) = sends c" "sends (mu_set_phase i ph c) = sends c" "sends (upd_mutation i f c) = sends c"
  "sends (upd_mobserver b g c) = sends c" "sends (c\<lparr>mc_world := w\<rparr>) = sends c"
  by (rule ext, simp add: sends_def)+

lemma mu_run_mutations [simp]: "mc_mutations (mu_run i c) = (mc_mutations c)[i := (mc_mutations c ! i)\<lparr>mu_phase := MRunning\<rparr>]"
  by (simp add: mu_run_def Let_def)

lemma sends_ok_continue:
  assumes "sends_ok c" and "i < length (mc_mutations c)"
  shows "sends_ok (mu_continue i c)"
  using sends_ok_nth [OF assms] sends_ok_upd [OF assms(1), of "mu_run i (mu_dispatch i MContinue c)" i] assms
  by (auto simp: mu_continue_def Let_def sends_run mut_ok_def split: mphase.splits)

text \<open>What the cache names are mutations.\<close>

definition cached :: "('v, 'r, 'd, 'e, 'w) mclient \<Rightarrow> nat set" where
  "cached c = set (mc_set c) \<union> {i. \<exists>s is. al_get (mc_scopes c) s = Some is \<and> i \<in> set is}"

definition cache_ok :: "('v, 'r, 'd, 'e, 'w) mclient \<Rightarrow> bool" where
  "cache_ok c \<longleftrightarrow> (\<forall>i \<in> cached c. i < length (mc_mutations c))"

lemma mu_continue_fields [simp]:
  "length (mc_mutations (mu_continue i c)) = length (mc_mutations c)" "mc_set (mu_continue i c) = mc_set c"
  "mc_scopes (mu_continue i c) = mc_scopes c" "length (mc_observers (mu_continue i c)) = length (mc_observers c)"
  "mc_online (mu_continue i c) = mc_online c" "mc_focused (mu_continue i c) = mc_focused c"
  "mc_world (mu_continue i c) = mc_world c"
  by (simp_all add: mu_continue_def mu_run_def Let_def)

lemma cached_same [simp]:
  "cached (mu_continue i c) = cached c" "cached (mu_dispatch i act c) = cached c" "cached (mu_set_phase i ph c) = cached c"
  "cached (upd_mutation i f c) = cached c" "cached (upd_mobserver b g c) = cached c" "cached (mu_run i c) = cached c"
  by (simp_all add: cached_def mu_run_def Let_def)

lemma al_get_cached: "al_get (mc_scopes c) s = Some is \<Longrightarrow> i \<in> set is \<Longrightarrow> i \<in> cached c"
  by (auto simp: cached_def)

lemma runNext_cases:
  assumes "\<And>j. j \<in> cached c \<Longrightarrow> j \<noteq> i \<Longrightarrow> P (mu_continue j c)" and "P c"
  shows "P (runNext i c)"
  using assms
  by (auto simp: runNext_def find_Some_iff split: option.splits intro!: assms(1) al_get_cached)

lemma resume_induct:
  assumes "\<And>j c. P c \<Longrightarrow> j \<in> cached c \<Longrightarrow> P (mu_continue j c)" and "P c"
  shows "P (resumePausedMutations c)"
proof -
  have "P c' \<Longrightarrow> set is \<subseteq> cached c' \<Longrightarrow> P (fold mu_continue is c')" for "is" c'
    by (induction "is" arbitrary: c') (auto simp: assms(1))
  moreover have "set (filter (\<lambda>i. ms_isPaused (mu_state (mc_mutations c ! i))) (mc_set c)) \<subseteq> cached c" by (auto simp: cached_def)
  ultimately show ?thesis using assms(2) by (simp add: resumePausedMutations_def)
qed

lemma cache_okD: "cache_ok c \<Longrightarrow> j \<in> cached c \<Longrightarrow> j < length (mc_mutations c)"
  by (simp add: cache_ok_def)

lemma cache_ok_same [simp]:
  "cache_ok (mu_continue i c) = cache_ok c" "cache_ok (mu_dispatch i act c) = cache_ok c" "cache_ok (mu_set_phase i ph c) = cache_ok c"
  "cache_ok (upd_mutation i f c) = cache_ok c" "cache_ok (upd_mobserver b g c) = cache_ok c" "cache_ok (mu_run i c) = cache_ok c"
  by (simp_all add: cache_ok_def)

lemma cached_mono:
  "cached (c\<lparr>mc_world := w\<rparr>) = cached c" "cached (mcache_remove i c) \<subseteq> cached c" "cached (mcache_add i c) \<subseteq> insert i (cached c)"
  "cached (mcache_clear c) = {}"
  by (auto simp: cached_def mcache_remove_def mcache_add_def mcache_clear_def Let_def
      split: option.splits if_splits dest: in_set_takeD notin_set_remove1)

definition counted :: "('v, 'r, 'd, 'e, 'w) mclient \<Rightarrow> bool" where
  "counted c \<longleftrightarrow> sends_ok c \<and> cache_ok c"

lemma counted_continue: "counted c \<Longrightarrow> j \<in> cached c \<Longrightarrow> counted (mu_continue j c)"
  by (auto simp: counted_def sends_ok_continue cache_okD)

lemma counted_runNext: "counted c \<Longrightarrow> counted (runNext i c)"
  by (rule runNext_cases [where P = counted]) (auto intro: counted_continue)

lemma counted_resume: "counted c \<Longrightarrow> counted (resumePausedMutations c)"
  by (rule resume_induct [where P = counted]) (auto intro: counted_continue)

text \<open>An operation that changes one mutation and keeps what it has sent.\<close>

lemma counted_upd:
  assumes "counted c" and "i < length (mc_mutations c)" and "mc_mutations c' = (mc_mutations c)[i := m]"
    and "\<And>j. j \<noteq> i \<Longrightarrow> sends c' j = sends c j" and "mut_ok (sends c' i) m" and "cached c' \<subseteq> cached c"
  shows "counted c'"
  using assms sends_ok_upd [of c c' i m] by (auto simp: counted_def cache_ok_def)

lemma counted_same:
  assumes "counted c" and "mc_mutations c' = mc_mutations c" and "mc_sent c' = mc_sent c" and "cached c' \<subseteq> cached c"
  shows "counted c'"
  using assms by (auto simp: counted_def cache_ok_def sends_ok_def sends_def)

lemma counted_rejected:
  assumes "counted c" and "i < length (mc_mutations c)" and "mu_phase (mc_mutations c ! i) = MRunning"
  shows "counted (mu_rejected i e (mu_set_phase i MEnded (c\<lparr>mc_world := w\<rparr>)))"
proof -
  have "mut_ok (sends c i) (mc_mutations c ! i)" using assms(1,2) by (simp add: counted_def sends_ok_nth)
  with assms(3) show ?thesis
    unfolding mu_rejected_def Let_def
    by (intro counted_runNext counted_upd [OF assms(1,2)]) (auto simp: assms(2) mut_ok_def cached_def sends_def)
qed

lemma counted_answer:
  assumes "counted c" and "i < length (mc_mutations c)" and "mu_phase (mc_mutations c ! i) = MRunning"
  shows "counted (mu_answer i x c)"
proof -
  have ok: "mut_ok (sends c i) (mc_mutations c ! i)" using assms(1,2) by (simp add: counted_def sends_ok_nth)
  have world: "mu_set_phase i MEnded c\<lparr>mc_world := w\<rparr> = mu_set_phase i MEnded (c\<lparr>mc_world := w\<rparr>)" for w
    by (simp add: mu_set_phase_def upd_mutation_def)
  show ?thesis
  proof (cases x)
    case (Inl d)
    have "counted (runNext i (mu_dispatch i (MDoSuccess d) (mu_set_phase i MEnded (c\<lparr>mc_world := w\<rparr>))))" for w
      using assms(3) ok
      by (intro counted_runNext counted_upd [OF assms(1,2)]) (auto simp: assms(2) mut_ok_def cached_def sends_def)
    with Inl counted_rejected [OF assms] show ?thesis
      by (auto simp: mu_answer_def mu_resolved_def Let_def world split: prod.splits option.splits)
  next
    case (Inr e)
    show ?thesis
    proof (cases "mu_failures (mc_mutations c ! i) < mu_retry (mc_mutations c ! i)")
      case True
      with Inr assms(3) ok show ?thesis
        unfolding mu_answer_def Let_def
        by (intro counted_upd [OF assms(1,2)]) (auto simp: assms(2) mut_ok_def cached_def sends_def split: option.splits)
    next
      case False
      have "c\<lparr>mc_world := mc_world c\<rparr> = c" by simp
      with False Inr counted_rejected [OF assms, of e "mc_world c"] show ?thesis by (simp add: mu_answer_def Let_def)
    qed
  qed
qed

lemma counted_start:
  assumes "counted c" and "i < length (mc_mutations c)" and "mu_phase (mc_mutations c ! i) = MStarting"
  shows "counted (mu_start i c)"
proof -
  have "mut_ok (sends c i) (mc_mutations c ! i)" using assms(1,2) by (simp add: counted_def sends_ok_nth)
  with assms show ?thesis
    by (cases "mu_canStart c i") (auto simp: mu_start_def mut_ok_def sends_run intro!: counted_upd [OF assms(1,2)])
qed

lemma counted_wake:
  assumes "counted c" and "i < length (mc_mutations c)"
  shows "counted (mu_wake i c)"
proof (cases "mu_phase (mc_mutations c ! i)")
  case (MSleeping t e)
  have "mut_ok (sends c i) (mc_mutations c ! i)" using assms by (simp add: counted_def sends_ok_nth)
  with MSleeping assms show ?thesis
    by (cases "mu_canContinue c i") (auto simp: mu_wake_def mut_ok_def sends_run intro!: counted_upd [OF assms])
qed (simp_all add: mu_wake_def assms)

text \<open>Changes outside the phase, the state and the retrier.\<close>

definition keeps_core :: "(('v, 'r, 'd, 'e, 'w) mutation \<Rightarrow> ('v, 'r, 'd, 'e, 'w) mutation) \<Rightarrow> bool" where
  "keeps_core f \<longleftrightarrow> (\<forall>m. mu_phase (f m) = mu_phase m \<and> mu_state (f m) = mu_state m \<and> mu_failures (f m) = mu_failures m \<and>
     mu_retry (f m) = mu_retry m)"

lemma keeps_core_simps [simp]:
  "keeps_core mu_scheduleGc" "keeps_core (mu_setOptions opts)" "keeps_core (\<lambda>m. m\<lparr>mu_gcTimer := t\<rparr>)"
  "keeps_core (\<lambda>m. mu_scheduleGc (m\<lparr>mu_observers := h m\<rparr>))" "keeps_core (\<lambda>m. m\<lparr>mu_observers := h m, mu_gcTimer := t\<rparr>)"
  by (simp_all add: keeps_core_def mu_scheduleGc_def mu_setOptions_def)

lemma counted_core:
  assumes "counted c" and "keeps_core f"
  shows "counted (upd_mutation i f c)"
proof (cases "i < length (mc_mutations c)")
  case True
  have "mut_ok (sends c i) (mc_mutations c ! i)" using assms(1) True by (simp add: counted_def sends_ok_nth)
  with assms(2) have "mut_ok (sends c i) (f (mc_mutations c ! i))"
    by (cases "mu_phase (mc_mutations c ! i)") (simp_all add: keeps_core_def mut_ok_def)
  with True show ?thesis by (intro counted_upd [OF assms(1) True]) simp_all
next
  case False
  then have "upd_mutation i f c = c" by (simp add: upd_mutation_def list_update_beyond)
  with assms(1) show ?thesis by simp
qed

lemma mcache_remove_fields [simp]:
  "mc_mutations (mcache_remove i c) = mc_mutations c" "mc_sent (mcache_remove i c) = mc_sent c"
  "mc_observers (mcache_remove i c) = mc_observers c"
  by (auto simp: mcache_remove_def Let_def split: option.splits)

lemma counted_remove: "counted c \<Longrightarrow> counted (mcache_remove i c)"
  by (erule counted_same) (simp_all add: cached_mono)

lemma counted_gc: "counted c \<Longrightarrow> counted (mu_gc_timer i c)"
  by (simp add: mu_gc_timer_def mu_optionalRemove_def counted_core counted_remove)

lemma counted_leave: "counted c \<Longrightarrow> counted (mb_leave b c)"
  by (auto simp: mb_leave_def mu_removeObserver_def counted_core split: option.splits)

lemma counted_mobserver: "counted c \<Longrightarrow> counted (upd_mobserver b g c)"
  by (simp add: counted_def sends_ok_def)

lemma counted_setOptions: "counted c \<Longrightarrow> counted (mb_setOptions b opts c)"
  by (auto simp: mb_setOptions_def Let_def counted_core counted_mobserver split: option.splits)

lemma mcache_build_fields [simp]:
  "mc_mutations (mcache_build opts v c) = mc_mutations c @ [mu_scheduleGc (mu_setOptions opts
     \<lparr>mu_options = opts, mu_observers = [], mu_state = getDefaultState2, mu_phase = MStarting, mu_failures = 0,
      mu_variables = v, mu_retry = 0, mu_delay = None, mu_mode = None, mu_gcTime = GcMs 0, mu_gcTimer = False\<rparr>)]"
  "mc_sent (mcache_build opts v c) = mc_sent c" "mc_observers (mcache_build opts v c) = mc_observers c"
  "mc_world (mcache_build opts v c) = mc_world c" "mc_online (mcache_build opts v c) = mc_online c"
  by (auto simp: mcache_build_def mcache_add_def Let_def split: option.splits)

lemma cached_build: "cached (mcache_build opts v c) \<subseteq> insert (length (mc_mutations c)) (cached c)"
  unfolding mcache_build_def
  by (rule order_trans [OF cached_mono(3)]) (auto simp: cached_def)

lemma mu_addObserver_fields [simp]:
  "length (mc_mutations (mu_addObserver i b c)) = length (mc_mutations c)" "mc_sent (mu_addObserver i b c) = mc_sent c"
  "cached (mu_addObserver i b c) = cached c"
  by (simp_all add: mu_addObserver_def)

lemma counted_mutate:
  assumes "counted c"
  shows "counted (mutate b v c)"
proof -
  define c1 where "c1 = mb_leave b c"
  have c1: "counted c1" unfolding c1_def using assms by (rule counted_leave)
  let ?i = "length (mc_mutations c1)"
  have z: "sends c1 ?i = 0" using c1 by (simp add: counted_def sends_ok_def)
  have old: "j < ?i \<Longrightarrow> mut_ok (sends c1 j) (mc_mutations c1 ! j)" "j \<in> cached c1 \<Longrightarrow> j < ?i" for j
    using c1 by (simp_all add: counted_def sends_ok_def cache_ok_def)
  let ?c = "mutate b v c"
  have muts: "length (mc_mutations ?c) = Suc ?i" "j < ?i \<Longrightarrow> mc_mutations ?c ! j = mc_mutations c1 ! j"
      "ms_status (mu_state (mc_mutations ?c ! ?i)) = MPending" "mu_phase (mc_mutations ?c ! ?i) = MStarting"
      "mu_failures (mc_mutations ?c ! ?i) = 0" for j
    by (simp_all add: mutate_def Let_def c1_def [symmetric] mu_execute_def mu_addObserver_def nth_append
        mu_scheduleGc_def mu_setOptions_def)
  have sent: "sends ?c = sends c1"
    by (rule ext) (simp add: sends_def mutate_def Let_def c1_def [symmetric] mu_execute_def)
  have "cached ?c \<subseteq> insert ?i (cached c1)"
    using cached_build by (simp add: mutate_def Let_def c1_def [symmetric] mu_execute_def)
  moreover have "mut_ok 0 (mc_mutations ?c ! ?i)" by (simp add: mut_ok_def muts)
  moreover have "Suc ?i \<le> j \<Longrightarrow> sends c1 j = 0" for j using c1 by (simp add: counted_def sends_ok_def)
  ultimately show ?thesis
    using muts(2) old z by (auto simp: counted_def sends_ok_def cache_ok_def less_Suc_eq muts(1) sent)
qed

lemma counted_env:
  assumes "counted c"
  shows "counted (c\<lparr>mc_focused := f\<rparr>)" "counted (c\<lparr>mc_online := f\<rparr>)" "counted (c\<lparr>mc_now := n\<rparr>)"
    "counted (c\<lparr>mc_world := w\<rparr>)" "counted (mcache_clear c)" "counted (new_mobserver opts c)"
  by (rule counted_same [OF assms]; simp add: cached_def mcache_clear_def new_mobserver_def)+

lemma counted_handle:
  assumes "counted c" and "mpossible c ev"
  shows "counted (mhandle ev c)"
proof (cases ev)
  case (MFocus f)
  with assms show ?thesis by (cases f) (simp_all add: counted_env counted_resume Let_def)
next
  case (MOnline f)
  with assms show ?thesis by (cases f) (simp_all add: counted_env counted_resume Let_def)
next
  case (MReset b)
  with assms show ?thesis by (simp add: mb_reset_def mb_updateResult_def counted_leave counted_mobserver)
qed (use assms in \<open>simp_all add: counted_env counted_mutate counted_start counted_answer counted_wake counted_gc
       counted_setOptions counted_leave counted_mobserver mb_unsubscribe_def mb_subscribe_def\<close>)

lemma fresh_counted: "counted (fresh_mclient w online focused)"
  by (simp add: counted_def sends_ok_def cache_ok_def sends_def cached_def fresh_mclient_def)

lemma counted_run: "counted c \<Longrightarrow> mrun evs c = Some c' \<Longrightarrow> counted c'"
proof (induction evs arbitrary: c)
  case (Cons ev evs)
  then show ?case using counted_handle [of c ev] by (simp split: if_splits)
qed simp

section \<open>What the options of the hooks determine\<close>

lemma list_all_update: "list_all P xs \<Longrightarrow> (P (xs ! i) \<Longrightarrow> P y) \<Longrightarrow> list_all P (xs[i := y])"
  by (cases "i < length xs") (auto simp: list_all_length nth_list_update)

text \<open>What an observer is besides its result.\<close>

lemma dispatch_observers:
  assumes "\<And>ob r. f (ob\<lparr>mb_result := r\<rparr>) = f ob"
  shows "map f (mc_observers (mu_dispatch i act c)) = map f (mc_observers c)"
proof -
  have "map f (mc_observers (mb_updateResult b c)) = map f (mc_observers c)" for b c
    by (cases "b < length (mc_observers c)")
       (auto simp: mb_updateResult_def upd_mobserver_def nth_list_update assms intro!: nth_equalityI)
  then have "map f (mc_observers (fold mb_updateResult bs c)) = map f (mc_observers c)" for bs c
    by (induction bs arbitrary: c) simp_all
  then show ?thesis by (simp add: mu_dispatch_def)
qed

lemma dispatch_all: "(\<And>ob r. f (ob\<lparr>mb_result := r\<rparr>) = f ob) \<Longrightarrow>
    list_all (\<lambda>ob. P (f ob)) (mc_observers (mu_dispatch i act c)) = list_all (\<lambda>ob. P (f ob)) (mc_observers c)"
  using arg_cong [OF dispatch_observers [of f i act c], of "list_all P"] by (simp add: list.pred_map comp_def)

text \<open>
  A mutation takes its options from its observer: \<open>mutate\<close> hands them over, \<open>execute\<close> fixes the retries,
  a render replaces the options of a mutation that is pending. So what holds of the options of all
  hooks (\<open>Q\<close>) determines what holds of the options and the retries of all mutations (\<open>P\<close>).
\<close>

definition retries_of :: "('v, 'r, 'd, 'e, 'w) moptions \<Rightarrow> nat" where
  "retries_of opts = (case mo_retry opts of None \<Rightarrow> 0 | Some n \<Rightarrow> n)"

definition options_hold ::
    "(('v, 'r, 'd, 'e, 'w) moptions \<Rightarrow> nat \<Rightarrow> bool) \<Rightarrow> (('v, 'r, 'd, 'e, 'w) moptions \<Rightarrow> bool) \<Rightarrow> ('v, 'r, 'd, 'e, 'w) mclient \<Rightarrow> bool" where
  "options_hold P Q c \<longleftrightarrow> list_all (\<lambda>m. P (mu_options m) (mu_retry m)) (mc_mutations c) \<and> list_all (\<lambda>ob. Q (mb_options ob)) (mc_observers c)"

fun ev_options :: "(('v, 'r, 'd, 'e, 'w) moptions \<Rightarrow> bool) \<Rightarrow> ('v, 'r, 'd, 'e, 'w) mevent \<Rightarrow> bool" where
  "ev_options Q (MRender b opts) = Q opts"
| "ev_options Q (MMount opts) = Q opts"
| "ev_options Q ev = True"

locale options_contract =
  fixes P :: "('v, 'r, 'd, 'e, 'w) moptions \<Rightarrow> nat \<Rightarrow> bool" and Q :: "('v, 'r, 'd, 'e, 'w) moptions \<Rightarrow> bool"
  assumes built: "Q opts \<Longrightarrow> P opts 0" and executed: "Q opts \<Longrightarrow> P opts (retries_of opts)"
    and rendered: "P opts n \<Longrightarrow> Q opts' \<Longrightarrow> P opts' n"
begin

lemma hold_dispatch: "options_hold P Q c \<Longrightarrow> options_hold P Q (mu_dispatch i act c)"
  by (simp add: options_hold_def dispatch_all [of mb_options] list_all_update)

lemma hold_upd:
  "options_hold P Q c \<Longrightarrow> (\<And>m. P (mu_options m) (mu_retry m) \<Longrightarrow> P (mu_options (f m)) (mu_retry (f m))) \<Longrightarrow> options_hold P Q (upd_mutation i f c)"
  by (simp add: options_hold_def list_all_update)

lemma hold_observer:
  "options_hold P Q c \<Longrightarrow> (\<And>ob. Q (mb_options ob) \<Longrightarrow> Q (mb_options (g ob))) \<Longrightarrow> options_hold P Q (upd_mobserver b g c)"
  by (simp add: options_hold_def list_all_update)

lemma hold_phase: "options_hold P Q c \<Longrightarrow> options_hold P Q (mu_set_phase i ph c)"
  by (simp add: mu_set_phase_def hold_upd)

lemma hold_env:
  assumes "options_hold P Q c"
  shows "options_hold P Q (c\<lparr>mc_focused := f\<rparr>)" "options_hold P Q (c\<lparr>mc_online := f\<rparr>)" "options_hold P Q (c\<lparr>mc_now := n\<rparr>)"
    "options_hold P Q (c\<lparr>mc_world := w\<rparr>)" "options_hold P Q (c\<lparr>mc_sent := rs\<rparr>)" "options_hold P Q (mcache_clear c)"
    "options_hold P Q (mcache_remove i c)"
  using assms by (simp_all add: options_hold_def mcache_clear_def)

lemma hold_run: "options_hold P Q c \<Longrightarrow> options_hold P Q (mu_run i c)"
  by (simp add: mu_run_def Let_def hold_phase hold_env)

lemma hold_continue: "options_hold P Q c \<Longrightarrow> options_hold P Q (mu_continue i c)"
  by (simp add: mu_continue_def Let_def hold_run hold_dispatch)

lemma hold_runNext: "options_hold P Q c \<Longrightarrow> options_hold P Q (runNext i c)"
  by (rule runNext_cases) (auto intro: hold_continue)

lemma hold_resume: "options_hold P Q c \<Longrightarrow> options_hold P Q (resumePausedMutations c)"
  by (rule resume_induct [where P = "options_hold P Q"]) (auto intro: hold_continue)

lemma hold_rejected: "options_hold P Q c \<Longrightarrow> options_hold P Q (mu_rejected i e c)"
  by (simp add: mu_rejected_def Let_def hold_runNext hold_dispatch hold_env)

lemma hold_answer: "options_hold P Q c \<Longrightarrow> options_hold P Q (mu_answer i x c)"
  by (auto simp: mu_answer_def mu_resolved_def Let_def hold_runNext hold_rejected hold_dispatch hold_env hold_phase hold_upd
      simp del: mu_set_phase_fields split: sum.split prod.split option.split)

lemma hold_start: "options_hold P Q c \<Longrightarrow> options_hold P Q (mu_start i c)"
  by (simp add: mu_start_def hold_run hold_dispatch hold_phase del: mu_set_phase_fields)

lemma hold_leave: "options_hold P Q c \<Longrightarrow> options_hold P Q (mb_leave b c)"
  by (auto simp: mb_leave_def mu_removeObserver_def mu_scheduleGc_def hold_upd split: option.split)

lemma hold_setOptions: "options_hold P Q c \<Longrightarrow> Q opts \<Longrightarrow> options_hold P Q (mb_setOptions b opts c)"
  by (auto simp: mb_setOptions_def Let_def mu_setOptions_def hold_upd hold_observer rendered split: option.split)

lemma hold_mutate:
  assumes "options_hold P Q c" and "b < length (mc_observers c)"
  shows "options_hold P Q (mutate b v c)"
proof -
  define c1 where "c1 = mb_leave b c"
  have "b < length (mc_observers c1)" using assms(2) by (simp add: c1_def mb_leave_def mu_removeObserver_def split: option.split)
  then have c1: "options_hold P Q c1" "b < length (mc_observers c1)" using assms(1) by (simp_all add: c1_def hold_leave)
  then have opts: "Q (mb_options (mc_observers c1 ! b))" by (simp add: options_hold_def list_all_length)
  with c1 built [OF opts] executed [OF opts] show ?thesis
    by (simp add: mutate_def Let_def c1_def [symmetric] mu_execute_def)
       (intro hold_dispatch, simp add: options_hold_def mu_addObserver_def mu_scheduleGc_def mu_setOptions_def list_all_update retries_of_def)
qed

lemma hold_handle:
  assumes "options_hold P Q c" and "mpossible c ev" and "ev_options Q ev"
  shows "options_hold P Q (mhandle ev c)"
proof (cases ev)
  case (MMutate b v)
  with assms show ?thesis by (simp add: hold_mutate)
next
  case (MMount opts)
  with assms show ?thesis by (simp add: mb_subscribe_def new_mobserver_def hold_observer options_hold_def list_all_update)
next
  case (MRender b opts)
  with assms show ?thesis by (simp add: hold_setOptions)
qed (use assms in \<open>auto simp: hold_env hold_resume hold_answer hold_leave hold_observer hold_upd hold_run hold_dispatch
       hold_start hold_phase mu_wake_def mu_gc_timer_def mu_optionalRemove_def mu_scheduleGc_def mb_unsubscribe_def mb_reset_def
       mb_updateResult_def Let_def simp del: mu_set_phase_fields split: mphase.split\<close>)

lemma run_hold: "options_hold P Q c \<Longrightarrow> list_all (ev_options Q) evs \<Longrightarrow> mrun evs c = Some c' \<Longrightarrow> options_hold P Q c'"
proof (induction evs arbitrary: c)
  case (Cons ev evs)
  then show ?case using hold_handle [of c ev] by (simp split: if_splits)
qed simp

end

text \<open>Options that ask for at most \<open>R\<close> retries, and options without a scope.\<close>

definition retries_in :: "nat \<Rightarrow> ('v, 'r, 'd, 'e, 'w) moptions \<Rightarrow> bool" where
  "retries_in R opts \<longleftrightarrow> (case mo_retry opts of None \<Rightarrow> True | Some n \<Rightarrow> n \<le> R)"

definition unscoped :: "('v, 'r, 'd, 'e, 'w) moptions \<Rightarrow> bool" where
  "unscoped opts \<longleftrightarrow> mo_scope opts = None"

interpretation retry_contract: options_contract "\<lambda>opts n. n \<le> R" "retries_in R" for R
  by unfold_locales (auto simp: retries_in_def retries_of_def split: option.splits)

interpretation scope_contract: options_contract "\<lambda>opts n. unscoped opts" unscoped
  by unfold_locales

lemma sends_retry:
  assumes "counted c" and "i < length (mc_mutations c)"
  shows "sends c i \<le> Suc (mu_retry (mc_mutations c ! i))"
proof -
  have "mut_ok (sends c i) (mc_mutations c ! i)" using assms by (simp add: counted_def sends_ok_nth)
  then show ?thesis by (auto simp: mut_ok_def split: mphase.splits)
qed

text \<open>C17. One call of \<open>mutate\<close> never sends more often than the options of its hook allow, whatever
  happens: answers, timers, pauses for focus or network, garbage collection, sign out. When no hook
  asks for more than \<open>R\<close> retries, a call sends at most \<open>R + 1\<close> requests; a hook without the option
  \<open>retry\<close> asks for none, so that in the application, whose hooks all leave it out, a click sends at most
  one (\<open>R = 0\<close>).\<close>

theorem mutation_sends_bounded:
  assumes "mrun evs (fresh_mclient w online focused) = Some c" and "list_all (ev_options (retries_in R)) evs"
  shows "sends c i \<le> (if i < length (mc_mutations c) then Suc R else 0)"
proof (cases "i < length (mc_mutations c)")
  case True
  have "options_hold (\<lambda>opts n. n \<le> R) (retries_in R) (fresh_mclient w online focused)" by (simp add: options_hold_def fresh_mclient_def)
  from retry_contract.run_hold [OF this assms(2,1)] True have "mu_retry (mc_mutations c ! i) \<le> R"
    by (simp add: options_hold_def list_all_length)
  with sends_retry [OF counted_run [OF fresh_counted assms(1)] True] True show ?thesis by simp
qed (use counted_run [OF fresh_counted assms(1)] in \<open>simp add: counted_def sends_ok_def\<close>)

text \<open>Options without a retry, whose mutation function sends its argument.\<close>

definition plain_options :: "(nat, nat, nat, string, nat) moptions" where
  "plain_options = \<lparr>mo_fn = \<lambda>v. v, mo_onSuccess = \<lambda>d v w. (w + d, None), mo_onError = \<lambda>e v w. w, mo_retry = None,
     mo_retryDelay = None, mo_networkMode = None, mo_gcTime = None, mo_scope = None\<rparr>"

definition offline_click :: "(nat, nat, nat, string, nat) mevent list" where
  "offline_click = [MMount plain_options, MMutate 0 5, MStart 0, MOnline True, MAnswer 0 (Inl 1), MGcTimer 0]"

theorem mutation_sends_bounded_witness:
  "\<exists>c. mrun (take 5 offline_click) (fresh_mclient 0 False True) = Some c \<and> mc_sent c = [(0, 5)] \<and> sends c 0 \<le> 1"
proof -
  have run: "map_option mc_sent (mrun (take 5 offline_click) (fresh_mclient 0 False True)) = Some [(0, 5)]"
    by (simp add: offline_click_def plain_options_def fresh_mclient_def mb_subscribe_def new_mobserver_def mutate_def Let_def
        mb_leave_def mcache_build_def mcache_add_def scopeFor_def mu_execute_def mu_addObserver_def upd_mutation_def
        upd_mobserver_def mu_dispatch_def mb_updateResult_def mu_scheduleGc_def mu_setOptions_def mu_canStart_def canFetch_def
        canRun_def mu_start_def mu_run_def mu_set_phase_def resumePausedMutations_def mu_continue_def mu_canContinue_def
        mu_answer_def mu_resolved_def runNext_def)
  then obtain c where c: "mrun (take 5 offline_click) (fresh_mclient 0 False True) = Some c" "mc_sent c = [(0, 5)]"
    by auto
  have "list_all (ev_options (retries_in 0)) (take 5 offline_click)" by (simp add: offline_click_def plain_options_def retries_in_def)
  from mutation_sends_bounded [OF c(1) this, of 0] c show ?thesis by (auto split: if_splits)
qed

section \<open>What an observer shows\<close>

text \<open>
  What an observer has to show. The mutation \<open>x\<close> may be one whose observers have not been told of its
  state yet.
\<close>

definition up_to_date :: "nat option \<Rightarrow> ('v, 'r, 'd, 'e, 'w) mutation list \<Rightarrow> nat \<Rightarrow> ('v, 'r, 'd, 'e, 'w) mobserver \<Rightarrow> bool" where
  "up_to_date x ms b ob \<longleftrightarrow> (case mb_current ob of
       None \<Rightarrow> mb_result ob = getDefaultState2
     | Some i \<Rightarrow> i < length ms \<and> (mb_listening ob \<longrightarrow> b \<in> set (mu_observers (ms ! i))) \<and>
         (x \<noteq> Some i \<longrightarrow> b \<in> set (mu_observers (ms ! i)) \<longrightarrow> mb_result ob = mu_state (ms ! i)))"

definition watched :: "nat option \<Rightarrow> ('v, 'r, 'd, 'e, 'w) mclient \<Rightarrow> bool" where
  "watched x c \<longleftrightarrow>
     (\<forall>i < length (mc_mutations c). \<forall>b \<in> set (mu_observers (mc_mutations c ! i)).
        b < length (mc_observers c) \<and> mb_current (mc_observers c ! b) = Some i) \<and>
     (\<forall>b < length (mc_observers c). up_to_date x (mc_mutations c) b (mc_observers c ! b))"

lemma watchedD:
  assumes "watched x c"
  shows "i < length (mc_mutations c) \<Longrightarrow> b \<in> set (mu_observers (mc_mutations c ! i)) \<Longrightarrow>
      b < length (mc_observers c) \<and> mb_current (mc_observers c ! b) = Some i"
    and "b < length (mc_observers c) \<Longrightarrow> up_to_date x (mc_mutations c) b (mc_observers c ! b)"
  using assms by (simp_all add: watched_def)

lemma watchedI:
  assumes "\<And>i b. i < length (mc_mutations c) \<Longrightarrow> b \<in> set (mu_observers (mc_mutations c ! i)) \<Longrightarrow>
      b < length (mc_observers c) \<and> mb_current (mc_observers c ! b) = Some i"
    and "\<And>b. b < length (mc_observers c) \<Longrightarrow> up_to_date x (mc_mutations c) b (mc_observers c ! b)"
  shows "watched x c"
  using assms by (simp add: watched_def)

lemma up_to_date_cong:
  assumes "up_to_date x ms b ob" and "length ms \<le> length ms'"
    and "\<And>i. mb_current ob = Some i \<Longrightarrow> i < length ms \<Longrightarrow>
       (b \<in> set (mu_observers (ms' ! i)) \<longleftrightarrow> b \<in> set (mu_observers (ms ! i))) \<and> mu_state (ms' ! i) = mu_state (ms ! i)"
    and "x = None \<or> x = x'"
  shows "up_to_date x' ms' b ob"
  using assms by (cases "mb_current ob") (auto simp: up_to_date_def)

lemma watched_dispatch:
  assumes "watched x c" and "x = None \<or> x = Some i" and "i < length (mc_mutations c)"
  shows "watched None (mu_dispatch i act c)"
proof -
  let ?c = "mu_dispatch i act c" and ?m = "mc_mutations c ! i"
  have ob: "mc_observers ?c ! b = (if b \<in> set (mu_observers ?m)
      then (mc_observers c ! b)\<lparr>mb_result := mu_state (mc_mutations ?c ! i)\<rparr> else mc_observers c ! b)"
    if "b < length (mc_observers c)" for b
  proof -
    have "b \<in> set (mu_observers ?m) \<Longrightarrow> mb_current (mc_observers c ! b) = Some i"
      using assms by (simp add: watched_def)
    with that assms(3) show ?thesis by (auto simp: mu_dispatch_def updateResults_nth refreshed_def)
  qed
  have mu: "mu_observers (mc_mutations ?c ! j) = mu_observers (mc_mutations c ! j)" for j
    using assms(3) by (cases "j = i") simp_all
  have st: "mu_state (mc_mutations ?c ! j) = mu_state (mc_mutations c ! j)" if "j \<noteq> i" for j using that by simp
  show ?thesis
  proof (rule watchedI)
    fix j b assume j: "j < length (mc_mutations ?c)" and "b \<in> set (mu_observers (mc_mutations ?c ! j))"
    from this(2) have "b \<in> set (mu_observers (mc_mutations c ! j))" by (simp only: mu)
    with j watchedD(1) [OF assms(1), of j b] show "b < length (mc_observers ?c) \<and> mb_current (mc_observers ?c ! b) = Some j"
      by (simp add: ob)
  next
    fix b assume "b < length (mc_observers ?c)"
    then have b: "b < length (mc_observers c)" by simp
    note old = watchedD(2) [OF assms(1) b]
    have here: "b \<in> set (mu_observers ?m) \<Longrightarrow> mb_current (mc_observers c ! b) = Some i"
      using watchedD(1) [OF assms(1,3)] by blast
    show "up_to_date None (mc_mutations ?c) b (mc_observers ?c ! b)"
    proof (cases "mb_current (mc_observers c ! b)")
      case None
      with here old show ?thesis by (auto simp: ob [OF b] up_to_date_def)
    next
      case (Some j)
      then show ?thesis
        using old here st [of j] assms(2) by (cases "j = i") (auto simp: ob [OF b] mu up_to_date_def)
    qed
  qed
qed

text \<open>What \<open>watched\<close> looks at.\<close>

lemma watched_cong:
  assumes "watched x c" and "mc_observers c' = mc_observers c" and "length (mc_mutations c') = length (mc_mutations c)"
    and "\<And>i. i < length (mc_mutations c) \<Longrightarrow> mu_observers (mc_mutations c' ! i) = mu_observers (mc_mutations c ! i) \<and>
           mu_state (mc_mutations c' ! i) = mu_state (mc_mutations c ! i)"
  shows "watched x c'"
proof (rule watchedI)
  fix i b assume "i < length (mc_mutations c')" "b \<in> set (mu_observers (mc_mutations c' ! i))"
  with assms watchedD(1) [OF assms(1), of i b] show "b < length (mc_observers c') \<and> mb_current (mc_observers c' ! b) = Some i" by simp
next
  fix b assume "b < length (mc_observers c')"
  then have "up_to_date x (mc_mutations c) b (mc_observers c ! b)" using watchedD(2) [OF assms(1)] by (simp add: assms(2))
  then have "up_to_date x (mc_mutations c') b (mc_observers c ! b)" by (rule up_to_date_cong) (simp_all add: assms(3,4))
  then show "up_to_date x (mc_mutations c') b (mc_observers c' ! b)" by (simp add: assms(2))
qed

lemma watched_upd:
  assumes "watched x c" and "\<And>m. mu_observers (f m) = mu_observers m \<and> mu_state (f m) = mu_state m"
  shows "watched x (upd_mutation i f c)"
proof (rule watched_cong [OF assms(1)])
  fix j assume "j < length (mc_mutations c)"
  then show "mu_observers (mc_mutations (upd_mutation i f c) ! j) = mu_observers (mc_mutations c ! j) \<and>
      mu_state (mc_mutations (upd_mutation i f c) ! j) = mu_state (mc_mutations c ! j)"
    using assms(2) by (cases "i = j") simp_all
qed simp_all

lemma watched_phase: "watched x c \<Longrightarrow> watched x (mu_set_phase i ph c)"
  unfolding mu_set_phase_def by (erule watched_upd) simp

lemma watched_same:
  "watched x c \<Longrightarrow> mc_observers c' = mc_observers c \<Longrightarrow> mc_mutations c' = mc_mutations c \<Longrightarrow> watched x c'"
  by (erule watched_cong) simp_all

lemma watched_run: "watched x c \<Longrightarrow> watched x (mu_run i c)"
  unfolding mu_run_def Let_def by (rule watched_phase) (erule watched_same; simp)

lemma watched_continue: "watched None c \<Longrightarrow> i < length (mc_mutations c) \<Longrightarrow> watched None (mu_continue i c)"
  by (auto simp: mu_continue_def Let_def intro!: watched_run intro: watched_dispatch)

lemma watched_runNext:
  assumes "watched None c" and "cache_ok c"
  shows "watched None (runNext i c)"
  by (rule runNext_cases [where P = "watched None"]) (auto simp: assms watched_continue cache_okD)

lemma watched_resume:
  assumes "watched None c" and "cache_ok c"
  shows "watched None (resumePausedMutations c)"
proof -
  have "watched None (resumePausedMutations c) \<and> cache_ok (resumePausedMutations c)"
    by (rule resume_induct [where P = "\<lambda>c. watched None c \<and> cache_ok c"]) (auto simp: assms watched_continue cache_okD)
  then show ?thesis ..
qed

lemma watched_start: "watched None c \<Longrightarrow> i < length (mc_mutations c) \<Longrightarrow> watched None (mu_start i c)"
  by (auto simp: mu_start_def intro!: watched_run watched_dispatch [where x = None] watched_phase)

lemma watched_wake: "watched None c \<Longrightarrow> i < length (mc_mutations c) \<Longrightarrow> watched None (mu_wake i c)"
  by (auto simp: mu_wake_def intro!: watched_run watched_dispatch [where x = None] watched_phase split: mphase.splits)

lemma cache_ok_world [simp]: "cache_ok (c\<lparr>mc_world := w\<rparr>) = cache_ok c"
  by (simp add: cache_ok_def cached_def)

lemma watched_rejected:
  assumes "watched None c" and "cache_ok c" and "i < length (mc_mutations c)"
  shows "watched None (mu_rejected i e c)"
  unfolding mu_rejected_def Let_def
  by (intro watched_runNext watched_dispatch [where x = None] watched_same [OF assms(1)]) (simp_all add: assms)

lemma watched_answer:
  assumes "watched None c" and "cache_ok c" and "i < length (mc_mutations c)"
  shows "watched None (mu_answer i x c)"
proof (cases x)
  case (Inl d)
  have w: "watched None ((mu_set_phase i MEnded c)\<lparr>mc_world := w\<rparr>)" for w
    by (rule watched_same [OF watched_phase [OF assms(1)]]) simp_all
  have "watched None (runNext i (mu_dispatch i (MDoSuccess d) ((mu_set_phase i MEnded c)\<lparr>mc_world := w\<rparr>)))" for w
    using w assms by (intro watched_runNext watched_dispatch [where x = None]) simp_all
  moreover have "watched None (mu_rejected i e ((mu_set_phase i MEnded c)\<lparr>mc_world := w\<rparr>))" for e w
    using w assms by (intro watched_rejected) simp_all
  ultimately show ?thesis by (auto simp: Inl mu_answer_def mu_resolved_def Let_def split: prod.splits option.splits)
next
  case (Inr e)
  have "watched None (mu_rejected i e (mu_set_phase i MEnded c))"
    using assms by (intro watched_rejected watched_phase) simp_all
  moreover have "watched None (upd_mutation i (\<lambda>m'. m'\<lparr>mu_failures := n, mu_phase := ph\<rparr>) c)" for n ph
    using assms(1) by (rule watched_upd) simp
  ultimately show ?thesis
    using assms(3) by (auto simp: Inr mu_answer_def Let_def intro!: watched_dispatch [where x = None])
qed

section \<open>A new mutation\<close>

lemma leave_fields [simp]:
  "length (mc_mutations (mb_leave b c)) = length (mc_mutations c)" "mc_observers (mb_leave b c) = mc_observers c"
  by (simp_all add: mb_leave_def mu_removeObserver_def split: option.split)

lemma leave_nth:
  assumes "watched x c" and "j < length (mc_mutations c)"
  shows "set (mu_observers (mc_mutations (mb_leave b c) ! j)) = set (mu_observers (mc_mutations c ! j)) - {b}"
    and "mu_state (mc_mutations (mb_leave b c) ! j) = mu_state (mc_mutations c ! j)"
proof -
  have here: "b \<in> set (mu_observers (mc_mutations c ! j)) \<Longrightarrow> mb_current (mc_observers c ! b) = Some j"
    using watchedD(1) [OF assms] by blast
  show "set (mu_observers (mc_mutations (mb_leave b c) ! j)) = set (mu_observers (mc_mutations c ! j)) - {b}"
  proof (cases "mb_current (mc_observers c ! b) = Some j")
    case True
    with assms(2) show ?thesis by (auto simp: mb_leave_def mu_removeObserver_def mu_scheduleGc_def)
  next
    case False
    with here show ?thesis by (auto simp: mb_leave_def mu_removeObserver_def split: option.split)
  qed
  show "mu_state (mc_mutations (mb_leave b c) ! j) = mu_state (mc_mutations c ! j)"
    using assms(2)
    by (cases "mb_current (mc_observers c ! b) = Some j")
       (auto simp: mb_leave_def mu_removeObserver_def mu_scheduleGc_def split: option.split)
qed

text \<open>Leaving a mutation for another or for none.\<close>

lemma watched_leave:
  assumes "watched None c" and "b < length (mc_observers c)" and "length (mc_mutations c) \<le> length (mc_mutations c')"
    and "mc_observers c' = (mc_observers c)[b := ob]"
    and "\<And>j. j < length (mc_mutations c) \<Longrightarrow> mc_mutations c' ! j = mc_mutations (mb_leave b c) ! j"
    and "\<And>j. length (mc_mutations c) \<le> j \<Longrightarrow> j < length (mc_mutations c') \<Longrightarrow>
           mu_observers (mc_mutations c' ! j) = [b] \<and> mb_current ob = Some j"
    and "up_to_date x (mc_mutations c') b ob"
  shows "watched x c'"
proof (rule watchedI)
  fix i a assume i: "i < length (mc_mutations c')" and a: "a \<in> set (mu_observers (mc_mutations c' ! i))"
  show "a < length (mc_observers c') \<and> mb_current (mc_observers c' ! a) = Some i"
  proof (cases "i < length (mc_mutations c)")
    case True
    with a have "a \<in> set (mu_observers (mc_mutations c ! i))" "a \<noteq> b" using assms(5) leave_nth [OF assms(1) True] by auto
    with watchedD(1) [OF assms(1) True] show ?thesis by (simp add: assms(4))
  next
    case False
    with i a assms(6) [of i] show ?thesis by (simp add: assms(2,4))
  qed
next
  fix a assume a: "a < length (mc_observers c')"
  show "up_to_date x (mc_mutations c') a (mc_observers c' ! a)"
  proof (cases "a = b")
    case False
    then have same: "mc_observers c' ! a = mc_observers c ! a" "a < length (mc_observers c)" using a by (simp_all add: assms(4))
    have "up_to_date x (mc_mutations c') a (mc_observers c ! a)"
    proof (rule up_to_date_cong [OF watchedD(2) [OF assms(1) same(2)] assms(3)])
      fix i assume i: "i < length (mc_mutations c)"
      show "(a \<in> set (mu_observers (mc_mutations c' ! i)) \<longleftrightarrow> a \<in> set (mu_observers (mc_mutations c ! i))) \<and>
          mu_state (mc_mutations c' ! i) = mu_state (mc_mutations c ! i)"
        using assms(5) [OF i] leave_nth [OF assms(1) i, of b] False by simp
    qed simp
    with same show ?thesis by simp
  next
    case True
    with assms(2,7) show ?thesis by (simp add: assms(4))
  qed
qed

lemma watched_mutate:
  assumes "watched None c" and "b < length (mc_observers c)"
  shows "watched None (mutate b v c)"
proof -
  let ?n = "length (mc_mutations c)"
  define c4 where "c4 = mu_addObserver ?n b (upd_mobserver b (\<lambda>ob. ob\<lparr>mb_current := Some ?n\<rparr>)
    (mcache_build (mb_options (mc_observers c ! b)) v (mb_leave b c)))"
  have new: "mu_observers (mc_mutations c4 ! ?n) = [b]" "length (mc_mutations c4) = Suc ?n"
    by (simp_all add: c4_def mu_addObserver_def nth_append mu_scheduleGc_def mu_setOptions_def)
  have obs: "mc_observers c4 = (mc_observers c)[b := (mc_observers c ! b)\<lparr>mb_current := Some ?n\<rparr>]"
    by (simp add: c4_def mu_addObserver_def)
  have "watched (Some ?n) c4"
  proof (rule watched_leave [OF assms _ obs])
    show "up_to_date (Some ?n) (mc_mutations c4) b ((mc_observers c ! b)\<lparr>mb_current := Some ?n\<rparr>)"
      by (simp add: up_to_date_def new)
    fix j assume "?n \<le> j" "j < length (mc_mutations c4)"
    then have "j = ?n" by (simp add: new)
    then show "mu_observers (mc_mutations c4 ! j) = [b] \<and> mb_current ((mc_observers c ! b)\<lparr>mb_current := Some ?n\<rparr>) = Some j"
      by (simp add: new)
  qed (simp_all add: c4_def mu_addObserver_def nth_append)
  then have "watched (Some ?n) (upd_mutation ?n f c4)"
    if "\<And>m. mu_observers (f m) = mu_observers m \<and> mu_state (f m) = mu_state m" for f
    using that by (rule watched_upd)
  then show ?thesis
    unfolding mutate_def Let_def leave_fields c4_def [symmetric] mu_execute_def
    by (intro watched_dispatch [where x = "Some ?n"]) (simp_all add: new)
qed

lemma watched_gc: "watched None c \<Longrightarrow> watched None (mu_gc_timer i c)"
proof -
  assume "watched None c"
  then have "watched None (upd_mutation i (\<lambda>m. m\<lparr>mu_gcTimer := False\<rparr>) c)" by (rule watched_upd) simp
  then show ?thesis
    unfolding mu_gc_timer_def mu_optionalRemove_def mu_scheduleGc_def
    by (auto simp del: upd_mutation_fields intro: watched_upd elim: watched_same)
qed

lemma watched_mobserver:
  assumes "watched None c" and "\<And>ob. mb_current (g ob) = mb_current ob \<and> mb_result (g ob) = mb_result ob \<and> mb_listening (g ob) = mb_listening ob"
  shows "watched None (upd_mobserver b g c)"
proof (rule watchedI)
  fix i a assume "i < length (mc_mutations (upd_mobserver b g c))" "a \<in> set (mu_observers (mc_mutations (upd_mobserver b g c) ! i))"
  then have "a < length (mc_observers c) \<and> mb_current (mc_observers c ! a) = Some i" using watchedD(1) [OF assms(1)] by simp
  then show "a < length (mc_observers (upd_mobserver b g c)) \<and> mb_current (mc_observers (upd_mobserver b g c) ! a) = Some i"
    using assms(2) by (cases "a = b") simp_all
next
  fix a assume "a < length (mc_observers (upd_mobserver b g c))"
  then have a: "a < length (mc_observers c)" by simp
  have "up_to_date None ms a' (g ob) = up_to_date None ms a' ob" for ms a' ob
    using assms(2) by (simp add: up_to_date_def split: option.split)
  with watchedD(2) [OF assms(1) a] a
  show "up_to_date None (mc_mutations (upd_mobserver b g c)) a (mc_observers (upd_mobserver b g c) ! a)"
    by (cases "a = b") simp_all
qed

lemma watched_setOptions: "watched None c \<Longrightarrow> watched None (mb_setOptions b opts c)"
  by (auto simp: mb_setOptions_def Let_def mu_setOptions_def intro!: watched_upd watched_mobserver split: option.split)

lemma watched_reset:
  assumes "watched None c" and "b < length (mc_observers c)"
  shows "watched None (mb_reset b c)"
  by (rule watched_leave [OF assms, where ob = "(mc_observers c ! b)\<lparr>mb_current := None, mb_result := getDefaultState2\<rparr>"])
     (simp_all add: mb_reset_def mb_updateResult_def up_to_date_def assms(2))

lemma watched_unmount:
  assumes "watched None c" and "b < length (mc_observers c)"
  shows "watched None (mb_unsubscribe b c)"
proof -
  let ?ob = "(mc_observers c ! b)\<lparr>mb_listening := False\<rparr>"
  have eq: "mc_mutations (mb_unsubscribe b c) = mc_mutations (mb_leave b c)"
      "mc_observers (mb_unsubscribe b c) = (mc_observers c)[b := ?ob]"
    using assms(2) by (auto simp: mb_unsubscribe_def mb_leave_def mu_removeObserver_def split: option.split)
  show ?thesis
  proof (rule watched_leave [OF assms _ eq(2)])
    show "up_to_date None (mc_mutations (mb_unsubscribe b c)) b ?ob"
      using watchedD(2) [OF assms] leave_nth [OF assms(1), of _ b]
      by (cases "mb_current (mc_observers c ! b)") (auto simp: up_to_date_def eq(1))
  qed (simp_all add: eq(1))
qed

lemma watched_mount:
  assumes "watched None c"
  shows "watched None (mb_subscribe (length (mc_observers c)) (new_mobserver opts c))"
proof (rule watchedI)
  let ?c = "mb_subscribe (length (mc_observers c)) (new_mobserver opts c)"
  have m: "mc_mutations ?c = mc_mutations c" by (simp add: mb_subscribe_def new_mobserver_def)
  have old: "a < length (mc_observers c) \<Longrightarrow> mc_observers ?c ! a = mc_observers c ! a" for a
    by (simp add: mb_subscribe_def new_mobserver_def nth_append)
  have len: "length (mc_observers ?c) = Suc (length (mc_observers c))" by (simp add: mb_subscribe_def new_mobserver_def)
  {
    fix i a assume "i < length (mc_mutations ?c)" "a \<in> set (mu_observers (mc_mutations ?c ! i))"
    then have "a < length (mc_observers c) \<and> mb_current (mc_observers c ! a) = Some i" using watchedD(1) [OF assms] by (simp add: m)
    then show "a < length (mc_observers ?c) \<and> mb_current (mc_observers ?c ! a) = Some i" by (simp add: old len)
  next
    fix a assume "a < length (mc_observers ?c)"
    then consider "a < length (mc_observers c)" | "a = length (mc_observers c)" by (auto simp: len less_Suc_eq)
    then show "up_to_date None (mc_mutations ?c) a (mc_observers ?c ! a)"
    proof cases
      case 1
      with watchedD(2) [OF assms] show ?thesis by (simp add: old m)
    next
      case 2
      then show ?thesis by (simp add: mb_subscribe_def new_mobserver_def up_to_date_def)
    qed
  }
qed

definition observed :: "('v, 'r, 'd, 'e, 'w) mclient \<Rightarrow> bool" where
  "observed c \<longleftrightarrow> counted c \<and> watched None c"

lemma observed_handle:
  assumes "observed c" and "mpossible c ev"
  shows "observed (mhandle ev c)"
proof -
  from assms have k: "watched None c" "cache_ok c" "counted (mhandle ev c)" by (simp_all add: observed_def counted_def counted_handle [unfolded counted_def])
  have env: "watched None (c\<lparr>mc_focused := f\<rparr>)" "watched None (c\<lparr>mc_online := f\<rparr>)" "cache_ok (c\<lparr>mc_focused := f\<rparr>)"
      "cache_ok (c\<lparr>mc_online := f\<rparr>)" "watched None (c\<lparr>mc_now := n\<rparr>)" "watched None (c\<lparr>mc_world := w\<rparr>)"
      "watched None (mcache_clear c)" for f n w
    using k by (auto intro: watched_same simp: cache_ok_def cached_def mcache_clear_def)
  have "watched None (mhandle ev c)"
  proof (cases ev)
    case (MFocus f)
    with env show ?thesis by (cases f) (simp_all add: Let_def watched_resume)
  next
    case (MOnline f)
    with env show ?thesis by (cases f) (simp_all add: Let_def watched_resume)
  qed (use assms(2) k env in \<open>simp_all add: watched_mutate watched_start watched_answer watched_wake watched_gc
         watched_setOptions watched_mount watched_unmount watched_reset\<close>)
  with k show ?thesis by (simp add: observed_def)
qed

lemma observed_run: "observed c \<Longrightarrow> mrun evs c = Some c' \<Longrightarrow> observed c'"
proof (induction evs arbitrary: c)
  case (Cons ev evs)
  then show ?case using observed_handle [of c ev] by (simp split: if_splits)
qed simp

lemma fresh_observed: "observed (fresh_mclient w online focused)"
  by (simp add: observed_def fresh_counted) (simp add: watched_def fresh_mclient_def)

lemma shown_pending:
  assumes "observed c" and "b < length (mc_observers c)" and "mb_listening (mc_observers c ! b)"
  shows "ms_status (mb_result (mc_observers c ! b)) = MPending \<longleftrightarrow>
    (\<exists>i. mb_current (mc_observers c ! b) = Some i \<and> mu_phase (mc_mutations c ! i) \<noteq> MEnded)"
proof -
  have d: "up_to_date None (mc_mutations c) b (mc_observers c ! b)" and s: "sends_ok c"
    using assms by (simp_all add: observed_def counted_def watchedD)
  show ?thesis
  proof (cases "mb_current (mc_observers c ! b)")
    case None
    with d show ?thesis by (simp add: up_to_date_def getDefaultState2_def)
  next
    case (Some i)
    with d assms(3) have "i < length (mc_mutations c)" "mb_result (mc_observers c ! b) = mu_state (mc_mutations c ! i)"
      by (auto simp: up_to_date_def)
    with sends_ok_nth [OF s] Some show ?thesis by (auto simp: mut_ok_def)
  qed
qed

text \<open>C4. A mounted component is never misled about its mutation: it shows what the last mutation it has
  started has come to, and shows it pending exactly until that mutation has answered for good and its
  callbacks have run, through retries, pauses, other mutations and a cleared cache.\<close>

theorem mutation_shown:
  assumes "mrun evs (fresh_mclient w online focused) = Some c"
    and "b < length (mc_observers c)" and "mb_listening (mc_observers c ! b)"
  shows "mb_result (mc_observers c ! b) = (case mb_current (mc_observers c ! b) of
        None \<Rightarrow> getDefaultState2 | Some i \<Rightarrow> mu_state (mc_mutations c ! i))
    \<and> (ms_status (mb_result (mc_observers c ! b)) = MPending \<longleftrightarrow>
        (\<exists>i. mb_current (mc_observers c ! b) = Some i \<and> mu_phase (mc_mutations c ! i) \<noteq> MEnded))"
proof -
  have o: "observed c" by (rule observed_run [OF fresh_observed assms(1)])
  then have "up_to_date None (mc_mutations c) b (mc_observers c ! b)" using assms(2) by (simp add: observed_def watchedD)
  with assms(3) shown_pending [OF o assms(2,3)] show ?thesis by (auto simp: up_to_date_def split: option.split)
qed

theorem mutation_shown_witness:
  "\<exists>c. mrun (take 3 offline_click) (fresh_mclient 0 False True) = Some c
    \<and> ms_status (mb_result (mc_observers c ! 0)) = MPending"
proof -
  have run: "map_option (\<lambda>c. (length (mc_observers c), mb_listening (mc_observers c ! 0), mb_current (mc_observers c ! 0),
        mu_phase (mc_mutations c ! 0)))
      (mrun (take 3 offline_click) (fresh_mclient 0 False True)) = Some (1, True, Some 0, MPausedStart)"
    by (simp add: offline_click_def plain_options_def fresh_mclient_def mb_subscribe_def new_mobserver_def mutate_def Let_def
        mb_leave_def mcache_build_def mcache_add_def scopeFor_def mu_execute_def mu_addObserver_def upd_mutation_def
        upd_mobserver_def mu_dispatch_def mb_updateResult_def mu_scheduleGc_def mu_setOptions_def mu_canStart_def canFetch_def
        canRun_def mu_start_def mu_set_phase_def)
  then obtain c where c: "mrun (take 3 offline_click) (fresh_mclient 0 False True) = Some c" "length (mc_observers c) = 1"
      "mb_listening (mc_observers c ! 0)" "mb_current (mc_observers c ! 0) = Some 0" "mu_phase (mc_mutations c ! 0) = MPausedStart"
    by auto
  have "ms_status (mb_result (mc_observers c ! 0)) = MPending" using conjunct2 [OF mutation_shown [OF c(1), of 0]] c(2-5) by simp
  with c(1) show ?thesis by blast
qed

section \<open>Paused mutations after sign out\<close>

definition is_paused :: "'e mphase \<Rightarrow> bool" where
  "is_paused ph = (case ph of MPausedStart \<Rightarrow> True | MPausedRetry e \<Rightarrow> True | _ \<Rightarrow> False)"

text \<open>A paused mutation that the cache no longer names, and what it has sent.\<close>

definition abandoned :: "nat \<Rightarrow> nat \<Rightarrow> ('v, 'r, 'd, 'e, 'w) mclient \<Rightarrow> bool" where
  "abandoned i n c \<longleftrightarrow> i < length (mc_mutations c) \<and> i \<notin> cached c \<and> is_paused (mu_phase (mc_mutations c ! i)) \<and> sends c i = n"

lemma is_paused_simps [simp]:
  "is_paused MPausedStart" "is_paused (MPausedRetry e)" "\<not> is_paused MStarting" "\<not> is_paused MRunning" "\<not> is_paused (MSleeping t e)"
  "\<not> is_paused MEnded"
  by (simp_all add: is_paused_def)

lemma abandoned_other:
  "abandoned i n (mu_dispatch j act c) = abandoned i n c" "abandoned i n (upd_mobserver b g c) = abandoned i n c"
  "abandoned i n (c\<lparr>mc_world := w\<rparr>) = abandoned i n c" "j \<noteq> i \<Longrightarrow> abandoned i n (mu_set_phase j ph c) = abandoned i n c"
  "j \<noteq> i \<Longrightarrow> abandoned i n (mu_run j c) = abandoned i n c"
  "j \<noteq> i \<Longrightarrow> abandoned i n (upd_mutation j f c) = abandoned i n c"
  by (cases "j = i"; auto simp: abandoned_def sends_run cached_mono)+

lemma abandoned_core: "abandoned i n c \<Longrightarrow> keeps_core f \<Longrightarrow> abandoned i n (upd_mutation j f c)"
  by (cases "j = i") (auto simp: abandoned_def keeps_core_def)

lemma abandoned_continue: "abandoned i n c \<Longrightarrow> abandoned i n (mu_continue j c)" if "j \<noteq> i"
  using that by (auto simp: mu_continue_def Let_def abandoned_other)

lemma abandoned_cached: "abandoned i n c \<Longrightarrow> j \<in> cached c \<Longrightarrow> j \<noteq> i"
  by (auto simp: abandoned_def)

lemma abandoned_runNext: "abandoned i n c \<Longrightarrow> abandoned i n (runNext j c)"
  by (rule runNext_cases [where P = "abandoned i n"]) (auto intro: abandoned_continue dest: abandoned_cached)

lemma abandoned_resume: "abandoned i n c \<Longrightarrow> abandoned i n (resumePausedMutations c)"
  by (rule resume_induct [where P = "abandoned i n"]) (auto intro: abandoned_continue dest: abandoned_cached)

lemma abandoned_same:
  "abandoned i n c \<Longrightarrow> mc_mutations c' = mc_mutations c \<Longrightarrow> mc_sent c' = mc_sent c \<Longrightarrow> cached c' \<subseteq> cached c \<Longrightarrow> abandoned i n c'"
  by (auto simp: abandoned_def sends_def)

lemma abandoned_phase: "abandoned i n c \<Longrightarrow> \<not> is_paused (mu_phase (mc_mutations c ! j)) \<Longrightarrow> j \<noteq> i"
  by (auto simp: abandoned_def)

lemma abandoned_start: "abandoned i n c \<Longrightarrow> mu_phase (mc_mutations c ! j) = MStarting \<Longrightarrow> abandoned i n (mu_start j c)"
  using abandoned_phase [of i n c j] by (simp add: mu_start_def abandoned_other)

lemma abandoned_wake: "abandoned i n c \<Longrightarrow> abandoned i n (mu_wake j c)"
  using abandoned_phase [of i n c j] by (auto simp: mu_wake_def abandoned_other split: mphase.split)

lemma abandoned_rejected: "abandoned i n c \<Longrightarrow> j \<noteq> i \<Longrightarrow> abandoned i n (mu_rejected j e c)"
  by (simp add: mu_rejected_def Let_def abandoned_runNext abandoned_other)

lemma abandoned_answer:
  assumes "abandoned i n c" and "mu_phase (mc_mutations c ! j) = MRunning"
  shows "abandoned i n (mu_answer j x c)"
proof -
  have j: "j \<noteq> i" using abandoned_phase [OF assms(1), of j] assms(2) by simp
  with assms(1) show ?thesis
    by (auto simp: mu_answer_def mu_resolved_def Let_def abandoned_other abandoned_rejected abandoned_runNext
        split: sum.split prod.split option.split)
qed

lemma abandoned_leave: "abandoned i n c \<Longrightarrow> abandoned i n (mb_leave b c)"
  by (auto simp: mb_leave_def mu_removeObserver_def abandoned_core split: option.split)

lemma abandoned_mutate:
  assumes "abandoned i n c"
  shows "abandoned i n (mutate b v c)"
proof -
  let ?n = "length (mc_mutations (mb_leave b c))"
  have l: "abandoned i n (mb_leave b c)" using assms by (rule abandoned_leave)
  then have i: "i < ?n" by (simp add: abandoned_def del: leave_fields)
  have b1: "abandoned i n (mcache_build opts v (mb_leave b c))" for opts
    using l i cached_build [of opts v "mb_leave b c"] by (auto simp: abandoned_def nth_append sends_def)
  with i have "abandoned i n (mu_addObserver ?n b (upd_mobserver b g (mcache_build opts v (mb_leave b c))))" for g opts
    by (auto simp: mu_addObserver_def abandoned_other)
  with i show ?thesis by (simp add: mutate_def mu_execute_def Let_def abandoned_other del: leave_fields)
qed

lemma abandoned_remove: "abandoned i n c \<Longrightarrow> abandoned i n (mcache_remove j c)"
  by (erule abandoned_same) (simp_all add: cached_mono)

lemma abandoned_gc: "abandoned i n c \<Longrightarrow> abandoned i n (mu_gc_timer j c)"
proof -
  assume "abandoned i n c"
  then have "abandoned i n (upd_mutation j (\<lambda>m. m\<lparr>mu_gcTimer := False\<rparr>) c)" by (rule abandoned_core) simp
  then show ?thesis
    unfolding mu_gc_timer_def mu_optionalRemove_def
    by (auto simp del: upd_mutation_fields simp: abandoned_core abandoned_remove)
qed

lemma abandoned_setOptions: "abandoned i n c \<Longrightarrow> abandoned i n (mb_setOptions b opts c)"
  by (auto simp: mb_setOptions_def Let_def abandoned_core abandoned_other split: option.split)

lemma abandoned_handle:
  assumes "abandoned i n c" and "mpossible c ev"
  shows "abandoned i n (mhandle ev c)"
proof -
  have env: "abandoned i n (c\<lparr>mc_focused := f\<rparr>)" "abandoned i n (c\<lparr>mc_online := f\<rparr>)" "abandoned i n (c\<lparr>mc_now := t\<rparr>)"
      "abandoned i n (mcache_clear c)" "abandoned i n (new_mobserver opts c)" for f t opts
    using assms(1) by (auto intro: abandoned_same simp: cached_def mcache_clear_def new_mobserver_def)
  show ?thesis
  proof (cases ev)
    case (MFocus f)
    with env show ?thesis by (cases f) (simp_all add: Let_def abandoned_resume)
  next
    case (MOnline f)
    with env show ?thesis by (cases f) (simp_all add: Let_def abandoned_resume)
  next
    case (MReset b)
    with assms(1) show ?thesis by (simp add: mb_reset_def mb_updateResult_def abandoned_leave abandoned_other)
  qed (use assms env in \<open>simp_all add: abandoned_mutate abandoned_start abandoned_answer abandoned_wake abandoned_gc
         abandoned_setOptions abandoned_leave abandoned_other mb_unsubscribe_def mb_subscribe_def\<close>)
qed

lemma abandoned_run: "abandoned i n c \<Longrightarrow> mrun evs c = Some c' \<Longrightarrow> abandoned i n c'"
proof (induction evs arbitrary: c)
  case (Cons ev evs)
  then show ?case using abandoned_handle [of i n c ev] by (simp split: if_splits)
qed simp

text \<open>C18. Signing out drops what was not sent yet: a mutation that waits for the network or for focus when
  the cache is cleared sends nothing afterwards, also not when the network returns, and its callbacks
  never run.\<close>

theorem clear_drops_paused:
  assumes "i < length (mc_mutations c)" and "is_paused (mu_phase (mc_mutations c ! i))"
    and "mrun (MClear # evs) c = Some c'"
  shows "sends c' i = sends c i \<and> is_paused (mu_phase (mc_mutations c' ! i))"
proof -
  have "abandoned i (sends c i) (mcache_clear c)"
    using assms(1,2) by (simp add: abandoned_def cached_def mcache_clear_def sends_def)
  with assms(3) have "abandoned i (sends c i) c'" by (auto intro: abandoned_run)
  then show ?thesis by (simp add: abandoned_def)
qed

theorem clear_drops_paused_witness:
  "\<exists>c c'. mrun (take 3 offline_click) (fresh_mclient 0 False True) = Some c \<and> mrun [MClear, MOnline True] c = Some c' \<and> sends c' 0 = 0"
proof -
  have run: "map_option (\<lambda>c. (mu_phase (mc_mutations c ! 0), mc_sent c, length (mc_mutations c)))
      (mrun (take 3 offline_click) (fresh_mclient 0 False True)) = Some (MPausedStart, [], 1)"
    by (simp add: offline_click_def plain_options_def fresh_mclient_def mb_subscribe_def new_mobserver_def mutate_def Let_def
        mb_leave_def mcache_build_def mcache_add_def scopeFor_def mu_execute_def mu_addObserver_def upd_mutation_def
        upd_mobserver_def mu_dispatch_def mb_updateResult_def mu_scheduleGc_def mu_setOptions_def mu_canStart_def canFetch_def
        canRun_def mu_start_def mu_set_phase_def)
  then obtain c where c: "mrun (take 3 offline_click) (fresh_mclient 0 False True) = Some c"
      "mu_phase (mc_mutations c ! 0) = MPausedStart" "mc_sent c = []" "length (mc_mutations c) = 1" by auto
  have r: "mrun [MClear, MOnline True] c = Some (resumePausedMutations (mcache_clear c\<lparr>mc_online := True\<rparr>))"
    by (simp add: Let_def)
  have "sends (resumePausedMutations (mcache_clear c\<lparr>mc_online := True\<rparr>)) 0 = sends c 0"
    using clear_drops_paused [of 0 c "[MOnline True]"] r c by simp
  with r c show ?thesis by (auto simp: sends_def)
qed

end
