(* ===== verification/PageClient.thy ===== *)
theory PageClient
  imports MutationFacts
begin

text \<open>
  A page with mutations (\<open>useMutation\<close> in \<open>ui/src/pages\<close>): a client of mutations whose world is the
  state of the page. Its hooks are the observers 0, 1, ...; after every event the page renders and
  hands the options of its hooks, closures over what it has rendered, to the observers, as long as it
  is mounted. The two locales say what every such page promises: what a click sends while the network
  is there and what is sent when it returns, and what can be sent at all.
\<close>

section \<open>Pages and their hooks\<close>

type_synonym ('r, 'd, 'e, 'w) page_client = "(string, 'r, 'd, 'e, 'w) mclient"
type_synonym ('r, 'd, 'e, 'w) page_mutation = "(string, 'r, 'd, 'e, 'w) moptions"

definition page_mutation ::
    "(string \<Rightarrow> 'r) \<Rightarrow> ('d \<Rightarrow> 'w \<Rightarrow> 'w \<times> 'e option) \<Rightarrow> ('e \<Rightarrow> 'w \<Rightarrow> 'w) \<Rightarrow> ('r, 'd, 'e, 'w) page_mutation" where
  "page_mutation fn onSuccess onError =
     \<lparr>mo_fn = fn, mo_onSuccess = \<lambda>d v. onSuccess d, mo_onError = \<lambda>e v. onError e, mo_retry = None, mo_retryDelay = None,
      mo_networkMode = None, mo_gcTime = None, mo_scope = None\<rparr>"

text \<open>
  What can happen to a page: a click that changes the state and calls \<open>mutate\<close>, a change of the state,
  an answer, the network or the focus, and leaving the page, with the cache cleared or not.
\<close>

datatype ('d, 'e, 'w) page_act =
    Click nat string "'w \<Rightarrow> 'w"
  | Edit "'w \<Rightarrow> 'w"
  | Answered nat "'d + 'e"
  | Net bool
  | Win bool
  | Leave bool "'w \<Rightarrow> 'w"

text \<open>The mutation starts before anything else happens.\<close>

definition click_mutate :: "nat \<Rightarrow> string \<Rightarrow> ('r, 'd, 'e, 'w) page_client \<Rightarrow> ('r, 'd, 'e, 'w) page_client" where
  "click_mutate b v c = mu_start (length (mc_mutations c)) (mutate b v c)"

definition on_world :: "('w \<Rightarrow> 'w) \<Rightarrow> ('r, 'd, 'e, 'w) page_client \<Rightarrow> ('r, 'd, 'e, 'w) page_client" where
  "on_world f c = c\<lparr>mc_world := f (mc_world c)\<rparr>"

fun page_handle :: "('d, 'e, 'w) page_act \<Rightarrow> ('r, 'd, 'e, 'w) page_client \<Rightarrow> ('r, 'd, 'e, 'w) page_client" where
  "page_handle (Click b v f) c = click_mutate b v (on_world f c)"
| "page_handle (Edit f) c = on_world f c"
| "page_handle (Answered i x) c = mhandle (MAnswer i x) c"
| "page_handle (Net b) c = mhandle (MOnline b) c"
| "page_handle (Win b) c = mhandle (MFocus b) c"
| "page_handle (Leave cleared f) c =
     (let c1 = fold mb_unsubscribe [0..<length (mc_observers c)] (on_world f c) in if cleared then mcache_clear c1 else c1)"

definition render_hook :: "('w \<Rightarrow> ('r, 'd, 'e, 'w) page_mutation) list \<Rightarrow> nat \<Rightarrow> ('r, 'd, 'e, 'w) page_client \<Rightarrow> ('r, 'd, 'e, 'w) page_client" where
  "render_hook hs b c = (if mb_listening (mc_observers c ! b) then mb_setOptions b ((hs ! b) (mc_world c)) c else c)"

definition render_hooks :: "('w \<Rightarrow> ('r, 'd, 'e, 'w) page_mutation) list \<Rightarrow> ('r, 'd, 'e, 'w) page_client \<Rightarrow> ('r, 'd, 'e, 'w) page_client" where
  "render_hooks hs c = fold (render_hook hs) [0..<length hs] c"

definition mount_hooks :: "('w \<Rightarrow> ('r, 'd, 'e, 'w) page_mutation) list \<Rightarrow> 'w \<Rightarrow> bool \<Rightarrow> bool \<Rightarrow> ('r, 'd, 'e, 'w) page_client" where
  "mount_hooks hs w online focused = fold (\<lambda>h. mhandle (MMount (h w))) hs (fresh_mclient w online focused)"

definition page_step ::
    "('w \<Rightarrow> ('r, 'd, 'e, 'w) page_mutation) list \<Rightarrow> ('d, 'e, 'w) page_act \<Rightarrow> ('r, 'd, 'e, 'w) page_client \<Rightarrow> ('r, 'd, 'e, 'w) page_client" where
  "page_step hs act c = render_hooks hs (page_handle act c)"

definition hook_pending :: "nat \<Rightarrow> ('r, 'd, 'e, 'w) page_client \<Rightarrow> bool" where
  "hook_pending b c = (ms_status (mb_result (mc_observers c ! b)) = MPending)"

text \<open>A click needs a mounted hook, an answer a request that is out.\<close>

fun act_possible :: "('r, 'd, 'e, 'w) page_client \<Rightarrow> ('d, 'e, 'w) page_act \<Rightarrow> bool" where
  "act_possible c (Click b v f) = (b < length (mc_observers c) \<and> mb_listening (mc_observers c ! b))"
| "act_possible c (Answered i x) = mpossible c (MAnswer i x)"
| "act_possible c a = True"

text \<open>Runs of a page, given what is possible and what a step does.\<close>

fun page_run :: "('c \<Rightarrow> 'ev \<Rightarrow> bool) \<Rightarrow> ('ev \<Rightarrow> 'c \<Rightarrow> 'c) \<Rightarrow> 'ev list \<Rightarrow> 'c \<Rightarrow> 'c option" where
  "page_run poss step [] c = Some c"
| "page_run poss step (ev # evs) c = (if poss c ev then page_run poss step evs (step ev c) else None)"

lemma page_run_induct:
  assumes "page_run poss step evs c = Some c'" and "P c"
    and "\<And>ev c. P c \<Longrightarrow> ev \<in> set evs \<Longrightarrow> poss c ev \<Longrightarrow> P (step ev c)"
  shows "P c'"
  using assms
proof (induction evs arbitrary: c)
  case (Cons ev evs)
  from Cons.prems(1) have pos: "poss c ev" and run: "page_run poss step evs (step ev c) = Some c'"
    by (simp_all split: if_splits)
  show ?case by (rule Cons.IH [OF run]) (use Cons.prems pos in auto)
qed simp

lemma page_run_append:
  "page_run poss step (evs @ evs') c = (case page_run poss step evs c of None \<Rightarrow> None | Some c' \<Rightarrow> page_run poss step evs' c')"
  by (induction evs arbitrary: c) simp_all

section \<open>What a new mutation is\<close>

lemma leave_env [simp]:
  "mc_sent (mb_leave b c) = mc_sent c" "mc_online (mb_leave b c) = mc_online c" "mc_world (mb_leave b c) = mc_world c"
  by (simp_all add: mb_leave_def mu_removeObserver_def split: option.split)

lemma mutate_keeps [simp]:
  "mc_sent (mutate b v c) = mc_sent c" "mc_online (mutate b v c) = mc_online c" "mc_world (mutate b v c) = mc_world c"
  "length (mc_observers (mutate b v c)) = length (mc_observers c)" "length (mc_mutations (mutate b v c)) = Suc (length (mc_mutations c))"
  by (auto simp: mutate_def Let_def mu_execute_def mu_addObserver_def)

text \<open>The parts of a mutation that its observers do not change.\<close>

definition same_core :: "('v, 'r, 'd, 'e, 'w) mutation \<Rightarrow> ('v, 'r, 'd, 'e, 'w) mutation \<Rightarrow> bool" where
  "same_core m m' \<longleftrightarrow> mu_phase m' = mu_phase m \<and> mu_options m' = mu_options m \<and> mu_retry m' = mu_retry m \<and> mu_state m' = mu_state m"

lemma leave_core:
  assumes "j < length (mc_mutations c)"
  shows "same_core (mc_mutations c ! j) (mc_mutations (mb_leave b c) ! j)"
  using assms by (cases "mb_current (mc_observers c ! b) = Some j")
    (auto simp: same_core_def mb_leave_def mu_removeObserver_def mu_scheduleGc_def split: option.split)

lemma mutate_old:
  assumes "j < length (mc_mutations c)"
  shows "same_core (mc_mutations c ! j) (mc_mutations (mutate b v c) ! j)"
  using assms leave_core [OF assms, of b] by (simp add: mutate_def Let_def mu_execute_def nth_append mu_addObserver_def)

lemma mutate_new:
  assumes "b < length (mc_observers c)" and "mb_options (mc_observers c ! b) = opts"
  shows "mu_phase (mc_mutations (mutate b v c) ! length (mc_mutations c)) = MStarting"
    "mu_options (mc_mutations (mutate b v c) ! length (mc_mutations c)) = opts"
    "mu_variables (mc_mutations (mutate b v c) ! length (mc_mutations c)) = v"
    "mu_retry (mc_mutations (mutate b v c) ! length (mc_mutations c)) = (case mo_retry opts of None \<Rightarrow> 0 | Some n \<Rightarrow> n)"
    "mu_mode (mc_mutations (mutate b v c) ! length (mc_mutations c)) = mo_networkMode opts"
    "mo_scope opts = None \<Longrightarrow> mo_networkMode opts = None \<Longrightarrow> mc_online c \<Longrightarrow>
       \<not> ms_isPaused (mu_state (mc_mutations (mutate b v c) ! length (mc_mutations c)))"
  using assms
  by (simp_all add: mutate_def Let_def mu_execute_def mu_addObserver_def mu_scheduleGc_def mu_setOptions_def mu_canStart_def
      canRun_def scopeFor_def canFetch_def nth_append)

section \<open>Lawful hooks\<close>

text \<open>
  Options whose requests are \<open>legal\<close> and whose callbacks keep the state \<open>sane\<close>, and clients that
  hold only such options and have sent only what is legal.
\<close>

definition lawful :: "('w \<Rightarrow> bool) \<Rightarrow> ('r \<Rightarrow> bool) \<Rightarrow> ('v, 'r, 'd, 'e, 'w) moptions \<Rightarrow> bool" where
  "lawful sane legal opts \<longleftrightarrow> (\<forall>v. legal (mo_fn opts v)) \<and>
     (\<forall>d v w. sane w \<longrightarrow> sane (fst (mo_onSuccess opts d v w))) \<and> (\<forall>e v w. sane w \<longrightarrow> sane (mo_onError opts e v w))"

definition law_abiding :: "('w \<Rightarrow> bool) \<Rightarrow> ('r \<Rightarrow> bool) \<Rightarrow> ('v, 'r, 'd, 'e, 'w) mclient \<Rightarrow> bool" where
  "law_abiding sane legal c \<longleftrightarrow> sane (mc_world c) \<and> list_all (\<lambda>(i, r). legal r) (mc_sent c) \<and>
     list_all (\<lambda>m. lawful sane legal (mu_options m)) (mc_mutations c) \<and>
     list_all (\<lambda>ob. lawful sane legal (mb_options ob)) (mc_observers c)"

lemma abiding_same:
  "law_abiding sane legal c \<Longrightarrow> mc_world c' = mc_world c \<Longrightarrow> mc_sent c' = mc_sent c \<Longrightarrow> mc_mutations c' = mc_mutations c \<Longrightarrow>
     mc_observers c' = mc_observers c \<Longrightarrow> law_abiding sane legal c'"
  by (simp add: law_abiding_def)

lemma abiding_dispatch: "law_abiding sane legal c \<Longrightarrow> law_abiding sane legal (mu_dispatch i act c)"
  by (simp add: law_abiding_def dispatch_all [of mb_options] list_all_update)

lemma abiding_upd:
  "law_abiding sane legal c \<Longrightarrow> (\<And>m. lawful sane legal (mu_options m) \<Longrightarrow> lawful sane legal (mu_options (f m))) \<Longrightarrow>
     law_abiding sane legal (upd_mutation i f c)"
  by (simp add: law_abiding_def list_all_update)

lemma abiding_observer:
  "law_abiding sane legal c \<Longrightarrow> (\<And>ob. lawful sane legal (mb_options ob) \<Longrightarrow> lawful sane legal (mb_options (f ob))) \<Longrightarrow>
     law_abiding sane legal (upd_mobserver b f c)"
  by (simp add: law_abiding_def list_all_update)

lemma abiding_phase: "law_abiding sane legal c \<Longrightarrow> law_abiding sane legal (mu_set_phase i ph c)"
  by (simp add: mu_set_phase_def abiding_upd)

lemma abiding_world: "law_abiding sane legal c \<Longrightarrow> sane w \<Longrightarrow> law_abiding sane legal (c\<lparr>mc_world := w\<rparr>)"
  by (simp add: law_abiding_def)

lemma abidingD:
  assumes "law_abiding sane legal c"
  shows "sane (mc_world c)" "i < length (mc_mutations c) \<Longrightarrow> lawful sane legal (mu_options (mc_mutations c ! i))"
    "b < length (mc_observers c) \<Longrightarrow> lawful sane legal (mb_options (mc_observers c ! b))"
  using assms by (simp_all add: law_abiding_def list_all_length)

lemma abiding_run: "law_abiding sane legal c \<Longrightarrow> i < length (mc_mutations c) \<Longrightarrow> law_abiding sane legal (mu_run i c)"
  using abidingD(2) [of sane legal c i]
  by (simp add: mu_run_def Let_def abiding_phase law_abiding_def lawful_def list_all_update)

lemma abiding_start: "law_abiding sane legal c \<Longrightarrow> i < length (mc_mutations c) \<Longrightarrow> law_abiding sane legal (mu_start i c)"
  by (simp add: mu_start_def abiding_run abiding_dispatch abiding_phase)

lemma abiding_continue: "law_abiding sane legal c \<Longrightarrow> i < length (mc_mutations c) \<Longrightarrow> law_abiding sane legal (mu_continue i c)"
  by (simp add: mu_continue_def Let_def abiding_run abiding_dispatch)

lemma abiding_runNext: "law_abiding sane legal c \<Longrightarrow> cache_ok c \<Longrightarrow> law_abiding sane legal (runNext i c)"
  by (rule runNext_cases) (auto intro: abiding_continue cache_okD)

lemma abiding_resume: "law_abiding sane legal c \<Longrightarrow> cache_ok c \<Longrightarrow> law_abiding sane legal (resumePausedMutations c)"
  by (rule conjunct1, rule resume_induct [where P = "\<lambda>c. law_abiding sane legal c \<and> cache_ok c"])
     (auto intro: abiding_continue cache_okD)

lemma abiding_rejected:
  "law_abiding sane legal c \<Longrightarrow> cache_ok c \<Longrightarrow> i < length (mc_mutations c) \<Longrightarrow> law_abiding sane legal (mu_rejected i e c)"
  using abidingD(1,2) [of sane legal c] by (simp add: mu_rejected_def Let_def abiding_runNext abiding_dispatch abiding_world lawful_def)

lemma abiding_answer:
  assumes "law_abiding sane legal c" and "cache_ok c" and "i < length (mc_mutations c)"
  shows "law_abiding sane legal (mu_answer i x c)"
proof -
  let ?c = "mu_set_phase i MEnded c"
  have c: "law_abiding sane legal ?c" "cache_ok ?c" "i < length (mc_mutations ?c)" using assms by (simp_all add: abiding_phase)
  have "sane w" if "mo_onSuccess (mu_options (mc_mutations ?c ! i)) d v (mc_world ?c) = (w, e)" for d v w e
    using abidingD(1,2) [OF c(1)] c(3) that unfolding lawful_def by (metis fst_conv)
  then have "law_abiding sane legal (mu_resolved i d ?c)" for d
    using c by (auto simp: mu_resolved_def Let_def abiding_runNext abiding_rejected abiding_dispatch abiding_world simp del: mu_set_phase_fields
        split: prod.split option.split)
  then show ?thesis
    using assms c by (auto simp: mu_answer_def Let_def abiding_rejected abiding_dispatch abiding_upd simp del: mu_set_phase_fields split: sum.split)
qed

lemma abiding_leave: "law_abiding sane legal c \<Longrightarrow> law_abiding sane legal (mb_leave b c)"
  by (auto simp: mb_leave_def mu_removeObserver_def mu_scheduleGc_def abiding_upd split: option.split)

lemma abiding_mutate:
  assumes "law_abiding sane legal c" and "b < length (mc_observers c)"
  shows "law_abiding sane legal (mutate b v c)"
proof -
  have l: "law_abiding sane legal (mb_leave b c)" using assms(1) by (rule abiding_leave)
  have "b < length (mc_observers (mb_leave b c))" using assms(2) by simp
  then have "lawful sane legal (mb_options (mc_observers (mb_leave b c) ! b))" by (rule abidingD(3) [OF l])
  with l have "law_abiding sane legal (mcache_build (mb_options (mc_observers (mb_leave b c) ! b)) v (mb_leave b c))"
    by (simp add: law_abiding_def mu_scheduleGc_def mu_setOptions_def)
  then show ?thesis
    by (simp add: mutate_def Let_def mu_execute_def abiding_dispatch abiding_upd abiding_observer mu_addObserver_def del: leave_fields)
qed

lemma abiding_setOptions: "law_abiding sane legal c \<Longrightarrow> lawful sane legal opts \<Longrightarrow> law_abiding sane legal (mb_setOptions b opts c)"
  by (auto simp: mb_setOptions_def Let_def abiding_upd abiding_observer mu_setOptions_def split: option.split)

section \<open>Steps of a page\<close>

lemma page_counted:
  assumes "counted c" and "act_possible c act"
  shows "counted (page_handle act c)"
proof (cases act)
  case (Click b v f)
  with assms show ?thesis
    using mutate_new(1) [of b "on_world f c" _ v]
    by (simp add: click_mutate_def on_world_def counted_start counted_mutate counted_env)
next
  case (Leave cleared f)
  have "counted c' \<Longrightarrow> counted (fold mb_unsubscribe bs c')" for bs and c' :: "('a, 'b, 'c, 'd) page_client"
    by (induction bs arbitrary: c') (simp_all add: mb_unsubscribe_def counted_leave counted_mobserver)
  with assms Leave show ?thesis by (simp add: on_world_def counted_env Let_def)
next
  case (Net b)
  with assms show ?thesis using counted_handle [of c "MOnline b"] by simp
next
  case (Win b)
  with assms show ?thesis using counted_handle [of c "MFocus b"] by simp
qed (use assms in \<open>simp_all add: counted_answer on_world_def counted_env\<close>)

lemma render_counted: "counted c \<Longrightarrow> counted (render_hooks hs c)"
proof -
  have "counted c \<Longrightarrow> counted (fold (render_hook hs) bs c)" for bs
    by (induction bs arbitrary: c) (simp_all add: render_hook_def counted_setOptions)
  then show "counted c \<Longrightarrow> counted (render_hooks hs c)" by (simp add: render_hooks_def)
qed

lemma counted_page_step: "counted c \<Longrightarrow> act_possible c act \<Longrightarrow> counted (page_step hs act c)"
  by (simp add: page_step_def render_counted page_counted)

lemma mount_step [simp]:
  "mc_mutations (mhandle (MMount opts) c) = mc_mutations c" "mc_sent (mhandle (MMount opts) c) = mc_sent c"
  "mc_world (mhandle (MMount opts) c) = mc_world c" "mc_online (mhandle (MMount opts) c) = mc_online c"
  "mc_observers (mhandle (MMount opts) c) =
     mc_observers c @ [\<lparr>mb_options = opts, mb_current = None, mb_listening = True, mb_result = getDefaultState2\<rparr>]"
  by (simp_all add: mb_subscribe_def new_mobserver_def upd_mobserver_def)

lemma mount_fields [simp]:
  "mc_mutations (mount_hooks hs w online focused) = []" "mc_sent (mount_hooks hs w online focused) = []"
  "mc_world (mount_hooks hs w online focused) = w" "mc_online (mount_hooks hs w online focused) = online"
  "mc_observers (mount_hooks hs w online focused) =
     map (\<lambda>h. \<lparr>mb_options = h w, mb_current = None, mb_listening = True, mb_result = getDefaultState2\<rparr>) hs"
proof -
  let ?f = "\<lambda>h. mhandle (MMount (h w))"
  have "mc_mutations (fold ?f hs c) = mc_mutations c \<and> mc_sent (fold ?f hs c) = mc_sent c \<and> mc_world (fold ?f hs c) = mc_world c \<and>
      mc_online (fold ?f hs c) = mc_online c \<and> mc_observers (fold ?f hs c) = mc_observers c @
        map (\<lambda>h. \<lparr>mb_options = h w, mb_current = None, mb_listening = True, mb_result = getDefaultState2\<rparr>) hs" for c
    by (induction hs arbitrary: c) (simp_all del: mhandle.simps)
  then show "mc_mutations (mount_hooks hs w online focused) = []" "mc_sent (mount_hooks hs w online focused) = []"
    "mc_world (mount_hooks hs w online focused) = w" "mc_online (mount_hooks hs w online focused) = online"
    "mc_observers (mount_hooks hs w online focused) =
      map (\<lambda>h. \<lparr>mb_options = h w, mb_current = None, mb_listening = True, mb_result = getDefaultState2\<rparr>) hs"
    by (simp_all add: mount_hooks_def fresh_mclient_def)
qed

lemma mount_counted: "counted (mount_hooks hs w online focused)"
proof -
  have "counted c \<Longrightarrow> counted (fold (\<lambda>h. mhandle (MMount (h w))) hs c)" for c
    by (induction hs arbitrary: c) (simp_all add: counted_handle del: mhandle.simps)
  then show ?thesis by (simp add: mount_hooks_def fresh_counted)
qed

section \<open>What a page can send\<close>

fun act_keeps :: "('w \<Rightarrow> bool) \<Rightarrow> ('d, 'e, 'w) page_act \<Rightarrow> bool" where
  "act_keeps sane (Click b v f) = (\<forall>w. sane w \<longrightarrow> sane (f w))"
| "act_keeps sane (Edit f) = (\<forall>w. sane w \<longrightarrow> sane (f w))"
| "act_keeps sane (Leave cleared f) = (\<forall>w. sane w \<longrightarrow> sane (f w))"
| "act_keeps sane a = True"

lemma abiding_env:
  "law_abiding sane legal c \<Longrightarrow> law_abiding sane legal (c\<lparr>mc_online := b\<rparr>)"
  "law_abiding sane legal c \<Longrightarrow> law_abiding sane legal (c\<lparr>mc_focused := b\<rparr>)"
  "law_abiding sane legal c \<Longrightarrow> law_abiding sane legal (mcache_clear c)"
  by (simp_all add: law_abiding_def mcache_clear_def)

lemma abiding_unsubscribes: "law_abiding sane legal c \<Longrightarrow> law_abiding sane legal (fold mb_unsubscribe bs c)"
  by (induction bs arbitrary: c) (simp_all add: mb_unsubscribe_def abiding_leave abiding_observer)

lemma abiding_act:
  assumes "law_abiding sane legal c" and "counted c" and "act_possible c act" and "act_keeps sane act"
  shows "law_abiding sane legal (page_handle act c)"
proof -
  have ok: "cache_ok c" using assms(2) by (simp add: counted_def)
  have w: "law_abiding sane legal (on_world f c)" if "\<forall>w. sane w \<longrightarrow> sane (f w)" for f
    using that assms(1) abidingD(1) [OF assms(1)] by (simp add: on_world_def abiding_world)
  show ?thesis
  proof (cases act)
    case (Click b v f)
    with assms w [of f] have "law_abiding sane legal (mutate b v (on_world f c))" by (intro abiding_mutate) (simp_all add: on_world_def)
    with Click show ?thesis by (simp add: click_mutate_def abiding_start on_world_def)
  next
    case (Leave cleared f)
    with assms(4) w [of f] show ?thesis by (simp add: Let_def abiding_env abiding_unsubscribes)
  next
    case (Answered i x)
    with assms ok show ?thesis by (simp add: abiding_answer)
  next
    case (Net b)
    with assms(1) ok show ?thesis by (simp add: Let_def abiding_env abiding_resume cache_ok_def cached_def)
  next
    case (Win b)
    with assms(1) ok show ?thesis by (simp add: Let_def abiding_env abiding_resume cache_ok_def cached_def)
  qed (use assms w in simp)
qed

locale lawful_page =
  fixes hooks :: "('w \<Rightarrow> ('r, 'd, 'e, 'w) page_mutation) list" and sane :: "'w \<Rightarrow> bool" and legal :: "'r \<Rightarrow> bool"
  assumes hook_lawful: "h \<in> set hooks \<Longrightarrow> sane w \<Longrightarrow> lawful sane legal (h w)"
begin

lemma render_abiding:
  assumes "law_abiding sane legal c"
  shows "law_abiding sane legal (render_hooks hooks c)"
proof -
  have "set bs \<subseteq> {..<length hooks} \<Longrightarrow> law_abiding sane legal c \<Longrightarrow> law_abiding sane legal (fold (render_hook hooks) bs c)" for bs
  proof (induction bs arbitrary: c)
    case (Cons b bs)
    then have "lawful sane legal ((hooks ! b) (mc_world c))" by (auto intro!: hook_lawful abidingD(1) [OF Cons.prems(2)])
    with Cons show ?case by (auto simp: render_hook_def abiding_setOptions)
  qed simp
  then show ?thesis using assms by (simp add: render_hooks_def lessThan_atLeast0 atLeast_upt)
qed

lemma step_abiding:
  assumes "law_abiding sane legal c" and "counted c" and "act_possible c act" and "act_keeps sane act"
  shows "law_abiding sane legal (page_step hooks act c) \<and> counted (page_step hooks act c)"
  using assms by (simp add: page_step_def render_abiding abiding_act render_counted page_counted)

lemma mount_abiding:
  assumes "sane w"
  shows "law_abiding sane legal (mount_hooks hooks w online focused) \<and> counted (mount_hooks hooks w online focused)"
  using assms hook_lawful by (simp add: law_abiding_def mount_counted list_all_iff)

text \<open>Whatever happens, the page sends what is legal and its state stays sane.\<close>

lemma run_abiding:
  assumes "page_run poss (\<lambda>ev. page_step hooks (act ev)) evs (mount_hooks hooks w online focused) = Some c" and "sane w"
    and "\<And>ev c. poss c ev \<Longrightarrow> act_possible c (act ev) \<and> act_keeps sane (act ev)"
  shows "law_abiding sane legal c"
proof (rule conjunct1, rule page_run_induct [OF assms(1)])
  show "law_abiding sane legal (mount_hooks hooks w online focused) \<and> counted (mount_hooks hooks w online focused)"
    using assms(2) by (rule mount_abiding)
qed (use step_abiding assms(3) in blast)

end

section \<open>What a click sends while the network is there\<close>

definition quiet_mutation :: "('v, 'r, 'd, 'e, 'w) mutation \<Rightarrow> bool" where
  "quiet_mutation m \<longleftrightarrow> (mu_phase m = MRunning \<or> mu_phase m = MEnded) \<and> mo_scope (mu_options m) = None \<and> mu_retry m = 0 \<and>
     \<not> ms_isPaused (mu_state m)"

definition calm :: "nat \<Rightarrow> ('v, 'r, 'd, 'e, 'w) mclient \<Rightarrow> bool" where
  "calm n c \<longleftrightarrow> mc_online c \<and> counted c \<and> length (mc_observers c) = n \<and> list_all mb_listening (mc_observers c) \<and>
     list_all quiet_mutation (mc_mutations c)"

text \<open>Between events: the observers have the options of the last render.\<close>

definition prompt :: "('w \<Rightarrow> ('r, 'd, 'e, 'w) page_mutation) list \<Rightarrow> ('r, 'd, 'e, 'w) page_client \<Rightarrow> bool" where
  "prompt hs c \<longleftrightarrow> calm (length hs) c \<and> (\<forall>b < length hs. mb_options (mc_observers c ! b) = (hs ! b) (mc_world c))"

text \<open>What an act sends at once.\<close>

fun sent_by :: "('w \<Rightarrow> ('r, 'd, 'e, 'w) page_mutation) list \<Rightarrow> ('r, 'd, 'e, 'w) page_client \<Rightarrow> ('d, 'e, 'w) page_act \<Rightarrow> (nat \<times> 'r) list" where
  "sent_by hs c (Click b v f) = [(length (mc_mutations c), mo_fn ((hs ! b) (mc_world c)) v)]"
| "sent_by hs c a = []"

fun stays :: "('d, 'e, 'w) page_act \<Rightarrow> bool" where
  "stays (Net b) = b"
| "stays (Leave cleared f) = False"
| "stays a = True"

lemma calm_listening: "calm n c \<Longrightarrow> b < n \<Longrightarrow> mb_listening (mc_observers c ! b)"
  by (simp add: calm_def list_all_length)

lemma calm_quiet: "calm n c \<Longrightarrow> i < length (mc_mutations c) \<Longrightarrow> quiet_mutation (mc_mutations c ! i)"
  by (simp add: calm_def list_all_length)

lemma calm_resume: "calm n c \<Longrightarrow> resumePausedMutations c = c"
proof -
  assume c: "calm n c"
  then have "i < length (mc_mutations c)" if "i \<in> set (mc_set c)" for i
    using that by (auto simp: calm_def counted_def cache_ok_def cached_def)
  then have "\<not> ms_isPaused (mu_state (mc_mutations c ! i))" if "i \<in> set (mc_set c)" for i
    using calm_quiet [OF c] that by (auto simp: quiet_mutation_def)
  then have "filter (\<lambda>i. ms_isPaused (mu_state (mc_mutations c ! i))) (mc_set c) = []" by (simp add: filter_empty_conv)
  then show ?thesis by (simp add: resumePausedMutations_def)
qed

lemma mutate_observers:
  assumes "\<And>ob r. f (ob\<lparr>mb_result := r\<rparr>) = f ob" and "\<And>ob i. f (ob\<lparr>mb_current := i\<rparr>) = f ob"
  shows "map f (mc_observers (mutate b v c)) = map f (mc_observers c)"
proof -
  have "map f ((mc_observers c)[b := (mc_observers c ! b)\<lparr>mb_current := i\<rparr>]) = map f (mc_observers c)" for i
    by (simp add: map_update assms(2)) (metis assms(2) list_update_id map_update)
  then show ?thesis by (simp add: mutate_def Let_def mu_execute_def dispatch_observers [OF assms(1)] mu_addObserver_def)
qed

lemma list_all_map_eq: "map f xs = map f ys \<Longrightarrow> list_all f xs = list_all f ys"
  by (drule arg_cong [of _ _ "list_all (\<lambda>b. b)"]) (simp add: list.pred_map comp_def)

lemma calm_click:
  assumes "calm n c" and "b < n" and "mb_options (mc_observers c ! b) = opts"
    and "mo_retry opts = None" and "mo_scope opts = None" and "mo_networkMode opts = None"
  shows "calm n (click_mutate b v c)"
    and "mc_sent (click_mutate b v c) = mc_sent c @ [(length (mc_mutations c), mo_fn opts v)]"
    and "mc_world (click_mutate b v c) = mc_world c"
proof -
  let ?c = "mutate b v c" and ?n = "length (mc_mutations c)"
  have b: "b < length (mc_observers c)" and on: "mc_online c" using assms(1,2) by (simp_all add: calm_def)
  note new = mutate_new [OF b assms(3)]
  have start: "mu_canStart ?c ?n" using on new assms(4-6) by (simp add: mu_canStart_def canFetch_def canRun_def scopeFor_def)
  then have r: "click_mutate b v c = mu_run ?n ?c" by (simp add: click_mutate_def mu_start_def)
  show "mc_sent (click_mutate b v c) = mc_sent c @ [(?n, mo_fn opts v)]" "mc_world (click_mutate b v c) = mc_world c"
    using new by (simp_all add: r mu_run_def Let_def)
  have "quiet_mutation (mc_mutations (mu_run ?n ?c) ! j)" if "j < Suc ?n" for j
  proof (cases "j = ?n")
    case True
    then show ?thesis using new on assms(4-6) by (simp add: quiet_mutation_def)
  next
    case False
    then have "quiet_mutation (mc_mutations c ! j)" "same_core (mc_mutations c ! j) (mc_mutations ?c ! j)"
      using that by (auto intro: calm_quiet [OF assms(1)] mutate_old)
    with False show ?thesis by (simp add: quiet_mutation_def same_core_def)
  qed
  moreover have "list_all mb_listening (mc_observers (mu_run ?n ?c))"
    using assms(1) list_all_map_eq [OF mutate_observers [of mb_listening b v c]] by (simp add: mu_run_def Let_def calm_def)
  moreover have "counted (mu_run ?n ?c)"
    using page_counted [of c "Click b v (\<lambda>w. w)"] assms(1) b calm_listening [OF assms(1,2)]
    by (simp add: calm_def on_world_def r)
  ultimately show "calm n (click_mutate b v c)"
    using assms(1) on by (simp add: r calm_def list_all_length) (simp add: mu_run_def Let_def)
qed

lemma calm_answer:
  assumes "calm n c" and "mpossible c (MAnswer i x)"
  shows "calm n (mu_answer i x c) \<and> mc_sent (mu_answer i x c) = mc_sent c"
proof -
  have i: "i < length (mc_mutations c)" using assms(2) by simp
  have q: "quiet_mutation (mc_mutations c ! i)" by (rule calm_quiet [OF assms(1) i])
  have next_id: "runNext i c' = c'" if "mo_scope (mu_options (mc_mutations c' ! i)) = None" for c' :: "('a, 'b, 'c, 'd, 'e) mclient"
    using that by (simp add: runNext_def scopeFor_def)
  have k: "counted (mu_answer i x c)" using assms by (simp add: calm_def counted_answer)
  show ?thesis
    using assms(1) q i k
    by (auto simp: mu_answer_def mu_resolved_def mu_rejected_def Let_def calm_def quiet_mutation_def next_id list_all_update
        dispatch_all [of mb_listening "\<lambda>b. b"] split: sum.split prod.split option.split)
qed

lemma calm_env: "calm n c \<Longrightarrow> calm n (c\<lparr>mc_online := True\<rparr>)" "calm n c \<Longrightarrow> calm n (c\<lparr>mc_focused := b\<rparr>)" "calm n c \<Longrightarrow> calm n (on_world f c)"
  by (simp_all add: calm_def counted_env on_world_def)

lemma setOptions_observers:
  "mc_observers (mb_setOptions b opts c) = (mc_observers c)[b := (mc_observers c ! b)\<lparr>mb_options := opts\<rparr>]"
  "mc_world (mb_setOptions b opts c) = mc_world c" "mc_sent (mb_setOptions b opts c) = mc_sent c"
  "length (mc_mutations (mb_setOptions b opts c)) = length (mc_mutations c)"
  by (auto simp: mb_setOptions_def Let_def split: option.split)

lemma quiet_setOptions: "quiet_mutation m \<Longrightarrow> mo_scope opts = None \<Longrightarrow> quiet_mutation (mu_setOptions opts m)"
  by (simp add: quiet_mutation_def mu_setOptions_def)

lemma calm_setOptions:
  assumes "calm n c" and "mo_scope opts = None"
  shows "calm n (mb_setOptions b opts c)"
  using assms counted_setOptions [of c b opts]
  by (auto simp: calm_def setOptions_observers list_all_update)
     (auto simp: mb_setOptions_def Let_def split: option.split intro!: list_all_update quiet_setOptions)

section \<open>A mutation that waits for the network\<close>

definition requests :: "('v, 'r, 'd, 'e, 'w) mclient \<Rightarrow> nat \<Rightarrow> 'r list" where
  "requests c i = map snd (filter (\<lambda>(k, r). k = i) (mc_sent c))"

lemma requests_none: "sends c i = 0 \<Longrightarrow> requests c i = []"
proof -
  assume "sends c i = 0"
  then have "i \<notin> set (map fst (mc_sent c))" unfolding sends_def by (rule count_list_0_iff [THEN iffD1])
  then show ?thesis by (force simp: requests_def filter_empty_conv)
qed

lemma requests_run: "requests (mu_run j c) i = requests c i @
    (if j = i then [mo_fn (mu_options (mc_mutations c ! j)) (mu_variables (mc_mutations c ! j))] else [])"
  by (simp add: requests_def mu_run_def Let_def)

lemma requests_same [simp]: "requests (mu_dispatch j act c) i = requests c i" "requests (c\<lparr>mc_online := b\<rparr>) i = requests c i"
  by (simp_all add: requests_def)

lemma continue_other:
  assumes "j \<noteq> i \<or> mu_phase (mc_mutations c ! i) = MRunning"
  shows "mc_mutations (mu_continue j c) ! i = mc_mutations c ! i" "requests (mu_continue j c) i = requests c i"
  using assms by (cases "j = i"; auto simp: mu_continue_def Let_def requests_run split: mphase.split)+

lemma resume_others:
  assumes "mu_phase (mc_mutations c ! i) = MRunning \<or> i \<notin> set js"
  shows "requests (fold mu_continue js c) i = requests c i"
  using assms by (induction js arbitrary: c) (auto simp: continue_other)

lemma resume_one:
  assumes "mu_phase (mc_mutations c ! i) = MPausedStart" "i < length (mc_mutations c)" "i \<in> set js"
    and "mc_online c" "mc_focused c" "mo_scope (mu_options (mc_mutations c ! i)) = None"
  shows "requests (fold mu_continue js c) i
    = requests c i @ [mo_fn (mu_options (mc_mutations c ! i)) (mu_variables (mc_mutations c ! i))]"
  using assms
proof (induction js arbitrary: c)
  case (Cons j js)
  show ?case
  proof (cases "j = i")
    case True
    have run: "mu_continue i c = mu_run i (mu_dispatch i MContinue c)"
      using Cons.prems by (simp add: mu_continue_def mu_canContinue_def canRun_def scopeFor_def)
    have "mu_phase (mc_mutations (mu_continue i c) ! i) = MRunning" using Cons.prems(2) by (simp add: run)
    then have "requests (fold mu_continue js (mu_continue i c)) i = requests (mu_continue i c) i" by (simp add: resume_others)
    with True Cons.prems(2) show ?thesis by (simp add: run requests_run)
  next
    case False
    with Cons.prems have "requests (fold mu_continue js (mu_continue j c)) i = requests (mu_continue j c) i
        @ [mo_fn (mu_options (mc_mutations (mu_continue j c) ! i)) (mu_variables (mc_mutations (mu_continue j c) ! i))]"
      by (intro Cons.IH) (simp_all add: continue_other)
    with False show ?thesis by (simp add: continue_other)
  qed
qed simp

text \<open>When the network returns, it sends what its options are then.\<close>

lemma network_returns:
  assumes "counted c" "mu_phase (mc_mutations c ! i) = MPausedStart" "i \<in> set (mc_set c)" "mc_focused c"
    and "mo_scope (mu_options (mc_mutations c ! i)) = None"
  shows "requests (mhandle (MOnline True) c) i = [mo_fn (mu_options (mc_mutations c ! i)) (mu_variables (mc_mutations c ! i))]"
proof -
  let ?c = "c\<lparr>mc_online := True\<rparr>"
  have i: "i < length (mc_mutations c)" using assms(1,3) by (auto simp: counted_def cache_ok_def cached_def)
  then have "mut_ok (sends c i) (mc_mutations c ! i)" using assms(1) by (simp add: counted_def sends_ok_nth)
  then have m: "sends c i = 0" "ms_isPaused (mu_state (mc_mutations c ! i))" using assms(2) by (simp_all add: mut_ok_def)
  have "requests (resumePausedMutations ?c) i = requests ?c i @ [mo_fn (mu_options (mc_mutations ?c ! i)) (mu_variables (mc_mutations ?c ! i))]"
    using resume_one [of ?c i "filter (\<lambda>i. ms_isPaused (mu_state (mc_mutations ?c ! i))) (mc_set ?c)"] assms m(2) i
    by (simp add: resumePausedMutations_def)
  with requests_none [OF m(1)] show ?thesis by simp
qed

text \<open>What a render leaves as it is, and that the last hook hands its options to its pending mutation.\<close>

definition same_progress :: "('v, 'r, 'd, 'e, 'w) mclient \<Rightarrow> ('v, 'r, 'd, 'e, 'w) mclient \<Rightarrow> bool" where
  "same_progress c c' \<longleftrightarrow> mc_world c' = mc_world c \<and> mc_sent c' = mc_sent c \<and> mc_set c' = mc_set c \<and> mc_focused c' = mc_focused c \<and>
     map mb_current (mc_observers c') = map mb_current (mc_observers c) \<and> map mb_listening (mc_observers c') = map mb_listening (mc_observers c) \<and>
     map mu_phase (mc_mutations c') = map mu_phase (mc_mutations c) \<and> map mu_state (mc_mutations c') = map mu_state (mc_mutations c)"

lemma map_update_same: "f y = f (xs ! i) \<Longrightarrow> map f (xs[i := y]) = map f xs"
  by (metis list_update_id map_update)

lemma render_hook_progress: "same_progress c (render_hook hs b c)"
  by (auto simp: render_hook_def mb_setOptions_def Let_def same_progress_def mu_setOptions_def map_update_same split: option.split)

lemma renders_progress: "same_progress c (fold (render_hook hs) bs c)"
proof (induction bs arbitrary: c)
  case (Cons b bs)
  from Cons [of "render_hook hs b c"] render_hook_progress [of c hs b] show ?case by (simp add: same_progress_def)
qed (simp add: same_progress_def)

lemma progressD:
  assumes "same_progress c c'"
  shows "length (mc_mutations c') = length (mc_mutations c)" "length (mc_observers c') = length (mc_observers c)"
    "b < length (mc_observers c) \<Longrightarrow> mb_current (mc_observers c' ! b) = mb_current (mc_observers c ! b)"
    "b < length (mc_observers c) \<Longrightarrow> mb_listening (mc_observers c' ! b) = mb_listening (mc_observers c ! b)"
    "i < length (mc_mutations c) \<Longrightarrow> mu_phase (mc_mutations c' ! i) = mu_phase (mc_mutations c ! i)"
    "i < length (mc_mutations c) \<Longrightarrow> mu_state (mc_mutations c' ! i) = mu_state (mc_mutations c ! i)"
    "mc_world c' = mc_world c" "mc_sent c' = mc_sent c" "mc_set c' = mc_set c" "mc_focused c' = mc_focused c"
    "requests c' i = requests c i"
proof -
  show l: "length (mc_mutations c') = length (mc_mutations c)" "length (mc_observers c') = length (mc_observers c)"
    using assms unfolding same_progress_def by (metis length_map)+
  show "b < length (mc_observers c) \<Longrightarrow> mb_current (mc_observers c' ! b) = mb_current (mc_observers c ! b)"
    "b < length (mc_observers c) \<Longrightarrow> mb_listening (mc_observers c' ! b) = mb_listening (mc_observers c ! b)"
    "i < length (mc_mutations c) \<Longrightarrow> mu_phase (mc_mutations c' ! i) = mu_phase (mc_mutations c ! i)"
    "i < length (mc_mutations c) \<Longrightarrow> mu_state (mc_mutations c' ! i) = mu_state (mc_mutations c ! i)"
    using assms l unfolding same_progress_def by (metis nth_map)+
  show "mc_world c' = mc_world c" "mc_sent c' = mc_sent c" "mc_set c' = mc_set c" "mc_focused c' = mc_focused c"
    "requests c' i = requests c i"
    using assms by (simp_all add: same_progress_def requests_def)
qed

lemma render_progress: "same_progress c (render_hooks hs c)"
  by (simp add: render_hooks_def renders_progress)

lemma render_last:
  assumes "mb_listening (mc_observers c ! n)" "mb_current (mc_observers c ! n) = Some i" "n < length (mc_observers c)"
    and "i < length (mc_mutations c)" "mu_pending c i" "length hs = Suc n"
  shows "mu_options (mc_mutations (render_hooks hs c) ! i) = (hs ! n) (mc_world c)"
proof -
  define c' where "c' = fold (render_hook hs) [0..<n] c"
  have p: "same_progress c c'" by (simp add: c'_def renders_progress)
  note p' = progressD(1,2,7) [OF p] progressD(3,4) [OF p assms(3)] progressD(6) [OF p assms(4)]
  have "render_hooks hs c = render_hook hs n c'" by (simp add: render_hooks_def c'_def assms(6))
  with assms p' show ?thesis by (simp add: render_hook_def mb_setOptions_def Let_def mu_pending_def mu_setOptions_def)
qed

text \<open>The acts of a page keep the number of its hooks, and mutations without a scope.\<close>

abbreviation unscoped_client :: "('v, 'r, 'd, 'e, 'w) mclient \<Rightarrow> bool" where
  "unscoped_client \<equiv> options_hold (\<lambda>opts n. unscoped opts) unscoped"

lemma runNext_length: "length (mc_observers (runNext i c)) = length (mc_observers c)"
  by (rule runNext_cases [where P = "\<lambda>c'. length (mc_observers c') = length (mc_observers c)"]) simp_all

lemma resume_length: "length (mc_observers (resumePausedMutations c)) = length (mc_observers c)"
  by (rule resume_induct [where P = "\<lambda>c'. length (mc_observers c') = length (mc_observers c)"]) simp_all

lemma leave_length: "length (mc_observers (mb_leave b c)) = length (mc_observers c)"
  by (simp add: mb_leave_def mu_removeObserver_def split: option.split)

lemma page_step_length: "length (mc_observers (page_step hs act c)) = length (mc_observers c)"
proof -
  have "length (mc_observers (fold mb_unsubscribe bs c)) = length (mc_observers c)" for bs and c :: "('a, 'b, 'c, 'd) page_client"
    by (induction bs arbitrary: c) (simp_all add: mb_unsubscribe_def leave_length)
  then have "length (mc_observers (page_handle act c)) = length (mc_observers c)"
    by (cases act) (auto simp: click_mutate_def mu_start_def mu_run_def on_world_def mu_answer_def mu_resolved_def mu_rejected_def Let_def
        runNext_length resume_length mcache_clear_def split: sum.split prod.split option.split)
  then show ?thesis by (simp add: page_step_def progressD(2) [OF render_progress])
qed

lemma unscoped_act:
  assumes "unscoped_client c" and "act_possible c act"
  shows "unscoped_client (page_handle act c)"
proof (cases act)
  case (Leave cleared f)
  have "unscoped_client c' \<Longrightarrow> unscoped_client (fold mb_unsubscribe bs c')" for bs and c' :: "('a, 'b, 'c, 'd) page_client"
    by (induction bs arbitrary: c') (simp_all add: mb_unsubscribe_def scope_contract.hold_leave scope_contract.hold_observer)
  with assms Leave show ?thesis by (simp add: on_world_def scope_contract.hold_env Let_def)
next
  case (Click b v f)
  with assms show ?thesis
    by (simp add: click_mutate_def on_world_def scope_contract.hold_start scope_contract.hold_mutate scope_contract.hold_env)
qed (use assms in \<open>simp_all add: on_world_def scope_contract.hold_env scope_contract.hold_answer scope_contract.hold_resume Let_def\<close>)

section \<open>Pages whose hooks are plain\<close>

locale plain_page =
  fixes hooks :: "('w \<Rightarrow> ('r, 'd, 'e, 'w) page_mutation) list"
  assumes hook_plain: "h \<in> set hooks \<Longrightarrow> mo_retry (h w) = None \<and> mo_scope (h w) = None \<and> mo_networkMode (h w) = None"
begin

lemma render_calm:
  assumes "calm (length hooks) c"
  shows "prompt hooks (render_hooks hooks c) \<and> mc_sent (render_hooks hooks c) = mc_sent c \<and> mc_world (render_hooks hooks c) = mc_world c"
proof -
  have "k \<le> length hooks \<Longrightarrow> (let c' = fold (render_hook hooks) [0..<k] c in calm (length hooks) c' \<and> mc_sent c' = mc_sent c \<and>
      mc_world c' = mc_world c \<and> (\<forall>b < k. mb_options (mc_observers c' ! b) = (hooks ! b) (mc_world c)))" for k
  proof (induction k)
    case 0
    with assms show ?case by simp
  next
    case (Suc k)
    define c' where "c' = fold (render_hook hooks) [0..<k] c"
    have c': "calm (length hooks) c'" "mc_sent c' = mc_sent c" "mc_world c' = mc_world c"
        "\<forall>b < k. mb_options (mc_observers c' ! b) = (hooks ! b) (mc_world c)"
      using Suc by (simp_all add: c'_def Let_def)
    have k: "k < length (mc_observers c')" "mb_listening (mc_observers c' ! k)"
      using c'(1) Suc.prems calm_listening [OF c'(1)] by (auto simp: calm_def)
    then have r: "fold (render_hook hooks) [0..<Suc k] c = mb_setOptions k ((hooks ! k) (mc_world c)) c'"
      by (simp add: render_hook_def c'_def [symmetric] c'(3))
    have "mo_scope ((hooks ! k) (mc_world c)) = None" using hook_plain [of "hooks ! k"] Suc.prems by simp
    then have "calm (length hooks) (mb_setOptions k ((hooks ! k) (mc_world c)) c')" by (rule calm_setOptions [OF c'(1)])
    then show ?case
      using c' k by (auto simp: r Let_def setOptions_observers nth_list_update less_Suc_eq simp del: upt_Suc fold.simps)
  qed
  from this [of "length hooks"] show ?thesis by (simp add: prompt_def render_hooks_def Let_def)
qed

text \<open>A click sends one request, made from what the page shows; nothing else sends anything.\<close>

lemma prompt_step:
  assumes "prompt hooks c" and "act_possible c act" and "stays act"
  shows "prompt hooks (page_step hooks act c)" and "mc_sent (page_step hooks act c) = mc_sent c @ sent_by hooks c act"
proof -
  have c: "calm (length hooks) c" using assms(1) by (simp add: prompt_def)
  have "calm (length hooks) (page_handle act c) \<and> mc_sent (page_handle act c) = mc_sent c @ sent_by hooks c act"
  proof (cases act)
    case (Click b v f)
    have b: "b < length hooks" using assms(2) c Click by (simp add: calm_def)
    have "mb_options (mc_observers (on_world f c) ! b) = (hooks ! b) (mc_world c)"
      using assms(1) b by (simp add: prompt_def on_world_def)
    moreover have "mo_retry ((hooks ! b) (mc_world c)) = None \<and> mo_scope ((hooks ! b) (mc_world c)) = None \<and>
        mo_networkMode ((hooks ! b) (mc_world c)) = None" using b by (intro hook_plain) simp
    ultimately show ?thesis
      using calm_click [OF calm_env(3) [OF c] b, of f _ v] Click by (simp add: on_world_def)
  next
    case (Answered i x)
    with c assms(2) show ?thesis using calm_answer [OF c, of i x] by simp
  next
    case (Net b)
    with c assms(3) show ?thesis by (simp add: Let_def calm_env calm_resume [OF calm_env(1) [OF c]])
  next
    case (Win b)
    with c show ?thesis by (simp add: Let_def calm_env calm_resume [OF calm_env(2) [OF c]])
  qed (use c assms(3) in \<open>simp_all add: calm_env(3)\<close>, simp add: on_world_def)
  then show "prompt hooks (page_step hooks act c)" "mc_sent (page_step hooks act c) = mc_sent c @ sent_by hooks c act"
    using render_calm [of "page_handle act c"] by (simp_all add: page_step_def)
qed

text \<open>The hooks, and so the mutations, have no scope.\<close>

lemma render_unscoped:
  assumes "unscoped_client c"
  shows "unscoped_client (render_hooks hooks c)"
proof -
  have "set bs \<subseteq> {..<length hooks} \<Longrightarrow> unscoped_client c \<Longrightarrow> unscoped_client (fold (render_hook hooks) bs c)" for bs
  proof (induction bs arbitrary: c)
    case (Cons b bs)
    then have "unscoped ((hooks ! b) (mc_world c))" using hook_plain [of "hooks ! b"] by (simp add: unscoped_def)
    with Cons show ?case by (auto simp: render_hook_def scope_contract.hold_setOptions)
  qed simp
  then show ?thesis using assms by (simp add: render_hooks_def lessThan_atLeast0 atLeast_upt)
qed

lemma step_unscoped:
  "unscoped_client c \<and> counted c \<Longrightarrow> act_possible c act \<Longrightarrow> unscoped_client (page_step hooks act c) \<and> counted (page_step hooks act c)"
  by (simp add: page_step_def render_unscoped unscoped_act counted_page_step [unfolded page_step_def])

lemma run_unscoped:
  assumes "page_run poss (\<lambda>ev. page_step hooks (act ev)) evs (mount_hooks hooks w online focused) = Some c"
    and "\<And>ev c. poss c ev \<Longrightarrow> act_possible c (act ev)"
  shows "unscoped_client c \<and> counted c \<and> length (mc_observers c) = length hooks"
proof -
  let ?P = "\<lambda>c. (unscoped_client c \<and> counted c) \<and> length (mc_observers c) = length hooks"
  have "?P (mount_hooks hooks w online focused)"
    using hook_plain by (simp add: options_hold_def unscoped_def mount_counted list_all_iff)
  from page_run_induct [where P = ?P, OF assms(1) this] show ?thesis
    using step_unscoped assms(2) by (auto simp: page_step_length)
qed

text \<open>When the network returns, a waiting mutation of the last hook sends what the page has rendered last.\<close>

lemma waiting_sends:
  assumes "unscoped_client c" "counted c" "c = render_hooks hooks d"
    and "mb_listening (mc_observers c ! n)" "mb_current (mc_observers c ! n) = Some i" "n < length (mc_observers c)" "length hooks = Suc n"
    and "mu_phase (mc_mutations c ! i) = MPausedStart" "i \<in> set (mc_set c)" "mc_focused c"
  shows "requests (page_step hooks (Net True) c) i = [mo_fn ((hooks ! n) (mc_world c)) (mu_variables (mc_mutations c ! i))]"
proof -
  note p = render_progress [of d hooks, folded assms(3)]
  have i: "i < length (mc_mutations c)" using assms(2,9) by (auto simp: counted_def cache_ok_def cached_def)
  then have "mut_ok (sends c i) (mc_mutations c ! i)" using assms(2) by (simp add: counted_def sends_ok_nth)
  then have "mu_pending d i" using assms(8) progressD(1,6) [OF p] i by (simp add: mut_ok_def mu_pending_def)
  then have "mu_options (mc_mutations c ! i) = (hooks ! n) (mc_world c)"
    using render_last [of d n i hooks] progressD [OF p] assms i by simp
  moreover have "mo_scope (mu_options (mc_mutations c ! i)) = None"
    using assms(1) i by (simp add: options_hold_def unscoped_def list_all_length)
  ultimately show ?thesis
    using network_returns [OF assms(2,8,9,10)] by (simp add: page_step_def progressD(11) [OF render_progress])
qed

lemma prompt_mount: "prompt hooks (mount_hooks hooks w True focused)"
  by (simp add: prompt_def calm_def mount_counted list_all_iff)

lemma prompt_run:
  assumes "page_run poss (\<lambda>ev. page_step hooks (act ev)) evs (mount_hooks hooks w True focused) = Some c"
    and "\<And>ev c. poss c ev \<Longrightarrow> act_possible c (act ev)" and "\<And>ev. ev \<in> set evs \<Longrightarrow> stays (act ev)"
  shows "prompt hooks c"
  by (rule page_run_induct [where P = "prompt hooks", OF assms(1) prompt_mount]) (use prompt_step(1) assms(2,3) in blast)

end

lemma page_mutation_plain [simp]:
  "mo_retry (page_mutation fn s e) = None" "mo_scope (page_mutation fn s e) = None" "mo_networkMode (page_mutation fn s e) = None"
  "mo_fn (page_mutation fn s e) = fn" "mo_onSuccess (page_mutation fn s e) d v = s d" "mo_onError (page_mutation fn s e) x v = e x"
  by (simp_all add: page_mutation_def)

end
