(* ===== verification/SettingsPages.thy ===== *)
theory SettingsPages
  imports Pages PageClient
begin

text \<open>
  The pages that create a repository and change its settings (\<open>ui/src/pages/NewRepoPage.tsx\<close>,
  \<open>RepoSettingsPage.tsx\<close>). The first calls the API from a handler, the second is a page with two
  mutations in the sense of \<open>PageClient\<close>. What the query library does with an invalidated key is in
  \<open>QueryCore\<close>; here the keys are recorded.
\<close>

type_synonym 'w api_page = "(endpoint, json option, api_error, 'w) page_client"
type_synonym 'w api_mutation = "(endpoint, json option, api_error, 'w) page_mutation"
type_synonym 'w api_act = "(json option, api_error, 'w) page_act"

text \<open>\<open>e.response?.data?.error ?? text\<close>.\<close>

definition failure_message :: "string \<Rightarrow> api_error \<Rightarrow> json" where
  "failure_message text e = (case e of
       AxiosErr _ (Some (status, body)) _ \<Rightarrow>
         (if body = JNull then JStr text
          else case json_prop body ''error'' of None \<Rightarrow> JStr text | Some j \<Rightarrow> if j = JNull then JStr text else j)
     | _ \<Rightarrow> JStr text)"

section \<open>A new repository\<close>

record new_repo =
  nr_name :: string
  nr_description :: string
  nr_private :: bool
  nr_init :: bool
  nr_branch :: string
  nr_error :: "json option"
  nr_loading :: bool
  nr_calls :: "endpoint list"
  nr_navigated :: "string list"

definition new_repo_start :: new_repo where
  "new_repo_start = \<lparr>nr_name = [], nr_description = [], nr_private = False, nr_init = True, nr_branch = ''main'',
     nr_error = None, nr_loading = False, nr_calls = [], nr_navigated = []\<rparr>"

datatype new_repo_event =
    NrName string | NrDescription string | NrPrivate bool | NrInit | NrBranch string | NrSubmit
  | NrAnswer "api_error + json option"

definition nameValid :: "new_repo \<Rightarrow> bool" where
  "nameValid s = rx_match SLUG_RE (nr_name s)"

definition nameError :: "new_repo \<Rightarrow> string option" where
  "nameError s = (if nr_name s \<noteq> [] \<and> \<not> nameValid s then Some ''Only lowercase letters, numbers, and hyphens'' else None)"

definition new_repo_input :: "new_repo \<Rightarrow> json" where
  "new_repo_input s = JObj [(''name'', JStr (nr_name s)), (''description'', JStr (nr_description s)),
     (''is_private'', JBool (nr_private s)), (''init'', JBool (nr_init s)), (''default_branch'', JStr (nr_branch s))]"

text \<open>\<open>/${repo.owner.username}/${repo.name}\<close>; \<open>None\<close> when reading a property throws.\<close>

definition created_path :: "json option \<Rightarrow> string option" where
  "created_path repo = (case repo of None \<Rightarrow> None | Some r \<Rightarrow>
     if r = JNull then None
     else (case json_prop r ''owner'' of None \<Rightarrow> None | Some ow \<Rightarrow>
       if ow = JNull then None
       else Some (''/'' @ js_to_string (js_of (json_prop ow ''username'')) @ ''/'' @ js_to_string (js_of (json_prop r ''name'')))))"

definition new_repo_step :: "new_repo_event \<Rightarrow> new_repo \<Rightarrow> new_repo" where
  "new_repo_step e s = (case e of
       NrName t \<Rightarrow> s\<lparr>nr_name := to_lower t\<rparr>
     | NrDescription t \<Rightarrow> s\<lparr>nr_description := t\<rparr>
     | NrPrivate b \<Rightarrow> s\<lparr>nr_private := b\<rparr>
     | NrInit \<Rightarrow> s\<lparr>nr_init := \<not> nr_init s\<rparr>
     | NrBranch t \<Rightarrow> s\<lparr>nr_branch := t\<rparr>
     | NrSubmit \<Rightarrow>
         if \<not> nameValid s then s
         else s\<lparr>nr_error := None, nr_loading := True, nr_calls := nr_calls s @ [createRepo (new_repo_input s)]\<rparr>
     | NrAnswer x \<Rightarrow> (case x of
           Inl err \<Rightarrow> s\<lparr>nr_error := Some (failure_message ''Failed to create repository'' err), nr_loading := False\<rparr>
         | Inr repo \<Rightarrow> (case created_path repo of
               None \<Rightarrow> s\<lparr>nr_error := Some (JStr ''Failed to create repository''), nr_loading := False\<rparr>
             | Some path \<Rightarrow> s\<lparr>nr_navigated := nr_navigated s @ [path], nr_loading := False\<rparr>)))"

definition choice_view :: "bool \<Rightarrow> (bool \<Rightarrow> 'e) \<Rightarrow> 'e view list" where
  "choice_view isPrivate f =
     [Tick (\<not> isPrivate) (f False) [Text ''Public'', Text ''Anyone can see this repository''],
      Tick isPrivate (f True) [Text ''Private'', Text ''Only you can see this repository'']]"

definition NewRepoPage_view :: "user option \<Rightarrow> new_repo \<Rightarrow> new_repo_event view" where
  "NewRepoPage_view u s =
     El ''div'' ([El ''h1'' [Text ''Create a new repository'']] @ error_view (nr_error s) @
       [form_view (nr_name s \<noteq> [] \<and> nameValid s \<and> \<not> nr_loading s) NrSubmit
         ([case u of None \<Rightarrow> Icon ''EmDash'' | Some x \<Rightarrow> Text (us_username x),
           Field ''repository-name'' (nr_name s) NrName] @
          when_view (nr_name s \<noteq> []) (Icon (if nameValid s then ''Check'' else ''X'')) @
          field_error (nameError s) @
          [Input (Some ''Description (optional)'') False None None (nr_description s) NrDescription] @
          choice_view (nr_private s) NrPrivate @
          [Tick (nr_init s) NrInit [Text ''Add a README file'', Text ''This will create an initial commit with a README.md''],
           Input (Some ''Default branch'') True None None (nr_branch s) NrBranch,
           SubmitButton Primary Lg (nr_loading s) (Some ''font-mono'') [Text ''Create repository'']])])"

section \<open>The settings of a repository\<close>

text \<open>\<open>rs_repo\<close> and \<open>rs_owner\<close> are the parameters of the route, \<open>rs_query\<close> what the page reads of the repository.\<close>

record repo_settings =
  rs_owner :: string
  rs_repo :: string
  rs_user :: "user option"
  rs_query :: "repository shown"
  rs_danger :: bool
  rs_name :: string
  rs_description :: string
  rs_private :: bool
  rs_branch :: string
  rs_saveError :: "json option"
  rs_saveOk :: bool
  rs_timers :: nat
  rs_confirm :: string
  rs_modal :: bool
  rs_invalidated :: "string list list"
  rs_navigated :: "string list"

definition updateRepo :: "string \<Rightarrow> string \<Rightarrow> json \<Rightarrow> endpoint" where
  "updateRepo owner repo body =
     \<lparr>e_config = body_config ''patch'' (''/repos/'' @ owner @ ''/'' @ repo) body empty_config, e_read = unwrap\<rparr>"

definition settings_body :: "repo_settings \<Rightarrow> json" where
  "settings_body p = JObj [(''name'', JStr (rs_name p)), (''description'', JStr (rs_description p)),
     (''is_private'', JBool (rs_private p)), (''default_branch'', JStr (rs_branch p))]"

text \<open>\<open>p\<close> is the render whose closure it is.\<close>

definition save_success :: "repo_settings \<Rightarrow> json option \<Rightarrow> repo_settings \<Rightarrow> repo_settings \<times> api_error option" where
  "save_success p updated w =
     (let w1 = w\<lparr>rs_invalidated := rs_invalidated w @ [[''repo'', rs_owner p, rs_repo p]], rs_saveOk := True,
                 rs_saveError := None, rs_timers := rs_timers w + 1\<rparr>
      in case updated of
           None \<Rightarrow> (w1, Some (ScriptError ''TypeError''))
         | Some j \<Rightarrow>
             if j = JNull then (w1, Some (ScriptError ''TypeError''))
             else if json_prop j ''name'' = Some (JStr (rs_repo p)) then (w1, None)
             else (w1\<lparr>rs_navigated := rs_navigated w1 @
                     [''/'' @ rs_owner p @ ''/'' @ js_to_string (js_of (json_prop j ''name'')) @ ''/settings'']\<rparr>, None))"

definition save_mutation :: "repo_settings \<Rightarrow> repo_settings api_mutation" where
  "save_mutation p = page_mutation (\<lambda>v. updateRepo (rs_owner p) (rs_repo p) (settings_body p)) (save_success p)
     (\<lambda>e w. w\<lparr>rs_saveError := Some (failure_message ''Failed to save settings'' e)\<rparr>)"

definition delete_success :: "repo_settings \<Rightarrow> json option \<Rightarrow> repo_settings \<Rightarrow> repo_settings \<times> api_error option" where
  "delete_success p d w =
     (w\<lparr>rs_invalidated := rs_invalidated w @ [[''my-repos'']],
        rs_navigated := rs_navigated w @ [''/'' @ (case rs_user p of None \<Rightarrow> rs_owner p | Some u \<Rightarrow> us_username u)]\<rparr>, None)"

definition delete_mutation :: "repo_settings \<Rightarrow> repo_settings api_mutation" where
  "delete_mutation p = page_mutation (\<lambda>v. deleteRepo (rs_owner p) (rs_repo p)) (delete_success p) (\<lambda>e w. w)"

datatype settings_event =
    RsSection bool | RsName string | RsDescription string | RsPrivate bool | RsBranch string | RsSave
  | RsOpenModal | RsConfirm string | RsCancel | RsDelete

text \<open>
  What else happens: another route, a result of the query, a timer, an answer, the network. What the
  query shows for another route, loading or the cached repository, is the next \<open>Loaded\<close>.
\<close>

datatype 'a page_event =
    User 'a | Route string string | Loaded "repository shown" | Timer | Answer nat "json option + api_error"
  | Network bool | Window bool | Quit

definition settings_edit :: "settings_event \<Rightarrow> repo_settings \<Rightarrow> repo_settings" where
  "settings_edit e w = (case e of
       RsSection b \<Rightarrow> w\<lparr>rs_danger := b\<rparr>
     | RsName t \<Rightarrow> w\<lparr>rs_name := t\<rparr>
     | RsDescription t \<Rightarrow> w\<lparr>rs_description := t\<rparr>
     | RsPrivate b \<Rightarrow> w\<lparr>rs_private := b\<rparr>
     | RsBranch t \<Rightarrow> w\<lparr>rs_branch := t\<rparr>
     | RsOpenModal \<Rightarrow> w\<lparr>rs_modal := True\<rparr>
     | RsConfirm t \<Rightarrow> w\<lparr>rs_confirm := t\<rparr>
     | RsCancel \<Rightarrow> w\<lparr>rs_modal := False, rs_confirm := []\<rparr>
     | _ \<Rightarrow> w)"

text \<open>The effect that copies another repository into the form; equal data are the same object.\<close>

definition settings_loaded :: "repository shown \<Rightarrow> repo_settings \<Rightarrow> repo_settings" where
  "settings_loaded q w =
     (if sh_data q = sh_data (rs_query w) then w\<lparr>rs_query := q\<rparr>
      else case sh_data q of
        None \<Rightarrow> w\<lparr>rs_query := q\<rparr>
      | Some r \<Rightarrow> w\<lparr>rs_query := q, rs_name := rp_name r, rs_description := rp_description r, rs_private := rp_is_private r,
          rs_branch := rp_default_branch r\<rparr>)"

definition settings_act :: "settings_event page_event \<Rightarrow> repo_settings api_act" where
  "settings_act ev = (case ev of
       User e \<Rightarrow> (case e of RsSave \<Rightarrow> Click 0 [] (\<lambda>w. w) | RsDelete \<Rightarrow> Click 1 [] (\<lambda>w. w) | _ \<Rightarrow> Edit (settings_edit e))
     | Route owner repo \<Rightarrow> Edit (\<lambda>w. w\<lparr>rs_owner := owner, rs_repo := repo\<rparr>)
     | Loaded q \<Rightarrow> Edit (settings_loaded q)
     | Timer \<Rightarrow> Edit (\<lambda>w. if rs_timers w = 0 then w else w\<lparr>rs_saveOk := False, rs_timers := rs_timers w - 1\<rparr>)
     | Answer i x \<Rightarrow> Answered i x
     | Network on \<Rightarrow> Net on
     | Window on \<Rightarrow> Win on
     | Quit \<Rightarrow> Leave False (\<lambda>w. w))"

definition settings_hooks :: "(repo_settings \<Rightarrow> repo_settings api_mutation) list" where
  "settings_hooks = [save_mutation, delete_mutation]"

definition settings_step :: "settings_event page_event \<Rightarrow> repo_settings api_page \<Rightarrow> repo_settings api_page" where
  "settings_step ev = page_step settings_hooks (settings_act ev)"

definition RepoSettingsPage_view :: "repo_settings api_page \<Rightarrow> settings_event view" where
  "RepoSettingsPage_view c =
     (let w = mc_world c; home = ''/'' @ rs_owner w @ ''/'' @ rs_repo w in
      if sh_loading (rs_query w) then Spinner Md (Some ''text-secondary'')
      else case sh_data (rs_query w) of
        None \<Rightarrow> El ''div'' [El ''p'' [Text ''Repository not found.'']]
      | Some repo \<Rightarrow>
          if (case rs_user w of None \<Rightarrow> False | Some u \<Rightarrow> us_id (rp_owner repo) \<noteq> us_id u) then Redirect home
          else El ''div''
            ([Press True (RsSection False) [Text ''General''], Press True (RsSection True) [Text ''Danger Zone''],
              LinkTo home [Text (rs_owner w @ ''/'' @ rs_repo w)], Text ''Settings''] @
             (if \<not> rs_danger w then
                [El ''div'' ([El ''h1'' [Text ''General'']] @ error_view (rs_saveError w) @
                   when_view (rs_saveOk w) (El ''div'' [Text ''Settings saved.'']) @
                   [Input (Some ''Repository name'') True None None (rs_name w) RsName,
                    Textarea (Some ''Description'') None None (rs_description w) RsDescription,
                    Input (Some ''Default branch'') True None None (rs_branch w) RsBranch] @
                   choice_view (rs_private w) RsPrivate @
                   [Button Primary Md (hook_pending 0 c) False (Some ''font-mono'') RsSave [Text ''Save changes'']])]
              else
                [El ''div'' [El ''h2'' [Icon ''AlertTriangle'', Text ''Danger Zone''], El ''p'' [Text ''Delete this repository''],
                   El ''p'' [Text ''Once deleted, there is no going back. All git data will be lost.''],
                   Button Danger Sm False False (Some ''flex-shrink-0 font-mono'') RsOpenModal [Text ''Delete repository'']]]) @
             when_view (rs_modal w)
               (El ''div'' [El ''h3'' [Text (''Delete '' @ rs_owner w @ ''/'' @ rs_repo w)],
                  El ''p'' [Text ''This action cannot be undone. Type the repository name to confirm.''],
                  Field (rs_repo w) (rs_confirm w) RsConfirm,
                  Button Secondary Sm False False None RsCancel [Text ''Cancel''],
                  Button Danger Sm (hook_pending 1 c) (rs_confirm w \<noteq> rs_repo w) (Some ''font-mono'') RsDelete
                    [Text ''I understand, delete it'']])))"

definition settings_start :: "string \<Rightarrow> string \<Rightarrow> user option \<Rightarrow> repo_settings" where
  "settings_start owner repo u =
     \<lparr>rs_owner = owner, rs_repo = repo, rs_user = u, rs_query = \<lparr>sh_data = None, sh_loading = True, sh_error = False\<rparr>,
      rs_danger = False, rs_name = [], rs_description = [], rs_private = False, rs_branch = [], rs_saveError = None,
      rs_saveOk = False, rs_timers = 0, rs_confirm = [], rs_modal = False, rs_invalidated = [], rs_navigated = []\<rparr>"

definition settings_mount :: "string \<Rightarrow> string \<Rightarrow> user option \<Rightarrow> bool \<Rightarrow> bool \<Rightarrow> repo_settings api_page" where
  "settings_mount owner repo u online focused =
     mount_hooks settings_hooks (settings_start owner repo u) online focused"

text \<open>
  What can happen: a button only when the page offers it, an answer only to a request that is out;
  fields can be edited at any time.
\<close>

definition settings_possible :: "repo_settings api_page \<Rightarrow> settings_event page_event \<Rightarrow> bool" where
  "settings_possible c ev = (act_possible c (settings_act ev) \<and> (case ev of
       User e \<Rightarrow> e \<in> {RsSave, RsOpenModal, RsCancel, RsDelete} \<longrightarrow> e \<in> set (offers (RepoSettingsPage_view c))
     | _ \<Rightarrow> True))"

end
