(* ===== verification/AccountPages.thy ===== *)
theory AccountPages
  imports SettingsPages
begin

text \<open>
  The pages of an account: SSH keys, access tokens and the profile (\<open>ui/src/pages/SSHKeysPage.tsx\<close>,
  \<open>TokensPage.tsx\<close>, \<open>SettingsPage.tsx\<close>), for a visitor who is signed in; without a session the three
  pages render nothing and go to \<open>/login\<close>. Each is a page in the sense of \<open>PageClient\<close>.
\<close>

section \<open>SSH keys\<close>

record ssh_page =
  ks_query :: "ssh_key list shown"
  ks_title :: string
  ks_key :: string
  ks_error :: "json option"
  ks_deleting :: "string option"
  ks_invalidated :: "string list list"

definition ssh_start :: ssh_page where
  "ssh_start = \<lparr>ks_query = \<lparr>sh_data = None, sh_loading = True, sh_error = False\<rparr>, ks_title = [], ks_key = [], ks_error = None,
     ks_deleting = None, ks_invalidated = []\<rparr>"

definition addKey :: "string \<Rightarrow> string \<Rightarrow> endpoint" where
  "addKey title public_key =
     \<lparr>e_config = body_config ''post'' ''/user/keys''
        (JObj [(''title'', JStr title), (''public_key'', JStr public_key)]) empty_config,
      e_read = unwrap\<rparr>"

definition deleteKey :: "string \<Rightarrow> endpoint" where
  "deleteKey ident = \<lparr>e_config = method_config ''delete'' (''/user/keys/'' @ ident) empty_config, e_read = discard\<rparr>"

definition add_key_mutation :: "ssh_page \<Rightarrow> ssh_page api_mutation" where
  "add_key_mutation p = page_mutation (\<lambda>v. addKey (ks_title p) (ks_key p))
     (\<lambda>d w. (w\<lparr>ks_invalidated := ks_invalidated w @ [[''ssh-keys'']], ks_title := [], ks_key := [], ks_error := None\<rparr>, None))
     (\<lambda>e w. w\<lparr>ks_error := Some (failure_message ''Failed to add key'' e)\<rparr>)"

definition delete_key_mutation :: "ssh_page \<Rightarrow> ssh_page api_mutation" where
  "delete_key_mutation p = page_mutation deleteKey
     (\<lambda>d w. (w\<lparr>ks_invalidated := ks_invalidated w @ [[''ssh-keys'']], ks_deleting := None\<rparr>, None)) (\<lambda>e w. w)"

definition ssh_hooks :: "(ssh_page \<Rightarrow> ssh_page api_mutation) list" where
  "ssh_hooks = [add_key_mutation, delete_key_mutation]"

datatype ssh_event = KsTitle string | KsKey string | KsAdd | KsDelete string

datatype ssh_page_event =
    KUser ssh_event | KLoaded "ssh_key list shown" | KAnswer nat "json option + api_error" | KNetwork bool | KWindow bool | KQuit

definition ssh_act :: "ssh_page_event \<Rightarrow> ssh_page api_act" where
  "ssh_act ev = (case ev of
       KUser e \<Rightarrow> (case e of
           KsTitle t \<Rightarrow> Edit (\<lambda>w. w\<lparr>ks_title := t\<rparr>)
         | KsKey t \<Rightarrow> Edit (\<lambda>w. w\<lparr>ks_key := t\<rparr>)
         | KsAdd \<Rightarrow> Click 0 [] (\<lambda>w. w)
         | KsDelete ident \<Rightarrow> Click 1 ident (\<lambda>w. w\<lparr>ks_deleting := Some ident\<rparr>))
     | KLoaded q \<Rightarrow> Edit (\<lambda>w. w\<lparr>ks_query := q\<rparr>)
     | KAnswer i x \<Rightarrow> Answered i x
     | KNetwork on \<Rightarrow> Net on
     | KWindow on \<Rightarrow> Win on
     | KQuit \<Rightarrow> Leave False (\<lambda>w. w))"

definition ssh_step :: "ssh_page_event \<Rightarrow> ssh_page api_page \<Rightarrow> ssh_page api_page" where
  "ssh_step ev = page_step ssh_hooks (ssh_act ev)"

definition key_view :: "dates \<Rightarrow> bool \<Rightarrow> ssh_key \<Rightarrow> ssh_event view" where
  "key_view d deleting key =
     El ''div''
       [El ''p'' [Text (sk_title key)], El ''p'' [Text (sk_fingerprint key)],
        El ''span'' [Text ''Added '', date_view d ''MMM d, yyyy'' (sk_created_at key)],
        El ''span'' [Text ''Last used: '', (case sk_last_used_at key of
            None \<Rightarrow> Text ''Never'' | Some t \<Rightarrow> if t = [] then Text ''Never'' else date_view d ''MMM d, yyyy'' t)],
        Button Danger Sm deleting False (Some ''flex-shrink-0'') (KsDelete (sk_id key)) [Icon ''Trash2'']]"

definition SSHKeysPage_view :: "dates \<Rightarrow> ssh_page api_page \<Rightarrow> ssh_event view" where
  "SSHKeysPage_view d c =
     (let w = mc_world c; keys = or_nil (sh_data (ks_query w)) in
      El ''div'' ([LinkTo ''/settings/tokens'' [Text ''Personal Access Token''], El ''h1'' [Icon ''Key'', Text ''SSH Keys''],
        El ''div'' (El ''h2'' [Text ''Add SSH Key''] # error_view (ks_error w) @
          [Input (Some ''Title'') False None None (ks_title w) KsTitle,
           Textarea (Some ''Public key'') None (Some ''font-mono text-xs'') (ks_key w) KsKey,
           Button Primary Sm (hook_pending 0 c) (trim (ks_title w) = [] \<or> trim (ks_key w) = []) (Some ''font-mono'') KsAdd
             [Text ''Add SSH Key'']]),
        (if sh_loading (ks_query w) then El ''div'' [Spinner Md (Some ''text-secondary'')]
         else if keys = [] then El ''div'' [El ''p'' [Text ''No SSH keys added yet.'']]
         else El ''div'' (map (\<lambda>key. key_view d (hook_pending 1 c \<and> ks_deleting w = Some (sk_id key)) key) keys))]))"

definition ssh_possible :: "dates \<Rightarrow> ssh_page api_page \<Rightarrow> ssh_page_event \<Rightarrow> bool" where
  "ssh_possible d c ev = (act_possible c (ssh_act ev) \<and> (case ev of
       KUser (KsTitle t) \<Rightarrow> True
     | KUser (KsKey t) \<Rightarrow> True
     | KUser e \<Rightarrow> e \<in> set (offers (SSHKeysPage_view d c))
     | _ \<Rightarrow> True))"

section \<open>Access tokens\<close>

definition SCOPES :: "string list" where
  "SCOPES = [''repo:read'', ''repo:write'']"

text \<open>
  The dates the page computes: so many days or years after a time, and the date of a date field, which
  is empty or a valid date; each as an ISO text.
\<close>

record clock =
  ck_add_days :: "nat \<Rightarrow> nat \<Rightarrow> string"
  ck_add_years :: "nat \<Rightarrow> nat \<Rightarrow> string"
  ck_iso :: "string \<Rightarrow> string"

definition expiresAtFromOption :: "clock \<Rightarrow> nat \<Rightarrow> string \<Rightarrow> string \<Rightarrow> string option" where
  "expiresAtFromOption ck now option custom =
     (if option = ''30d'' then Some (ck_add_days ck now 30)
      else if option = ''90d'' then Some (ck_add_days ck now 90)
      else if option = ''1y'' then Some (ck_add_years ck now 1)
      else if option = ''custom'' then (if custom \<noteq> [] then Some (ck_iso ck custom) else None)
      else None)"

record tokens_page =
  tk_query :: "access_token list shown"
  tk_user :: "user option"
  tk_now :: nat
  tk_name :: string
  tk_scopes :: "string list"
  tk_expiration :: string
  tk_custom :: string
  tk_new :: "json option"
  tk_error :: "json option"
  tk_revoke :: "string option"
  tk_copied :: copy_state
  tk_invalidated :: "string list list"

definition tokens_start :: "user option \<Rightarrow> nat \<Rightarrow> tokens_page" where
  "tokens_start u now = \<lparr>tk_query = \<lparr>sh_data = None, sh_loading = True, sh_error = False\<rparr>, tk_user = u, tk_now = now, tk_name = [],
     tk_scopes = SCOPES, tk_expiration = ''never'', tk_custom = [], tk_new = None, tk_error = None, tk_revoke = None,
     tk_copied = copy_start, tk_invalidated = []\<rparr>"

definition toggleScope :: "string \<Rightarrow> string list \<Rightarrow> string list" where
  "toggleScope scope prev = (if scope \<in> set prev then filter (\<lambda>s. s \<noteq> scope) prev else prev @ [scope])"

definition create_token_mutation :: "clock \<Rightarrow> tokens_page \<Rightarrow> tokens_page api_mutation" where
  "create_token_mutation ck p = page_mutation
     (\<lambda>v. createPAT (tk_name p) (tk_scopes p)
        (Some (case expiresAtFromOption ck (tk_now p) (tk_expiration p) (tk_custom p) of None \<Rightarrow> JNull | Some t \<Rightarrow> JStr t)))
     (\<lambda>d w. (w\<lparr>tk_invalidated := tk_invalidated w @ [[''pats'']], tk_new := d, tk_name := [], tk_scopes := SCOPES,
        tk_expiration := ''never'', tk_custom := [], tk_error := None\<rparr>, None))
     (\<lambda>e w. w\<lparr>tk_error := Some (failure_message ''Failed to create token'' e)\<rparr>)"

definition revoke_mutation :: "tokens_page \<Rightarrow> tokens_page api_mutation" where
  "revoke_mutation p = page_mutation revokePAT
     (\<lambda>d w. (w\<lparr>tk_invalidated := tk_invalidated w @ [[''pats'']], tk_revoke := None\<rparr>, None)) (\<lambda>e w. w)"

definition tokens_hooks :: "clock \<Rightarrow> (tokens_page \<Rightarrow> tokens_page api_mutation) list" where
  "tokens_hooks ck = [create_token_mutation ck, revoke_mutation]"

datatype tokens_event =
    TkName string | TkScope string | TkExpiration string | TkCustom string | TkCreate | TkCopy | TkAskRevoke string
  | TkCancel | TkRevoke string

text \<open>\<open>TCopy\<close> is what happens after a press of the copy button; \<open>TClock\<close> is the time.\<close>

datatype tokens_page_event =
    TUser tokens_event | TLoaded "access_token list shown" | TCopy copy_event | TClock nat
  | TAnswer nat "json option + api_error" | TNetwork bool | TWindow bool | TQuit

definition tokens_act :: "tokens_page_event \<Rightarrow> tokens_page api_act" where
  "tokens_act ev = (case ev of
       TUser e \<Rightarrow> (case e of
           TkName t \<Rightarrow> Edit (\<lambda>w. w\<lparr>tk_name := t\<rparr>)
         | TkScope s \<Rightarrow> Edit (\<lambda>w. w\<lparr>tk_scopes := toggleScope s (tk_scopes w)\<rparr>)
         | TkExpiration t \<Rightarrow> Edit (\<lambda>w. w\<lparr>tk_expiration := t\<rparr>)
         | TkCustom t \<Rightarrow> Edit (\<lambda>w. w\<lparr>tk_custom := t\<rparr>)
         | TkCreate \<Rightarrow> Click 0 [] (\<lambda>w. w)
         | TkCopy \<Rightarrow> Edit (\<lambda>w. w)
         | TkAskRevoke ident \<Rightarrow> Edit (\<lambda>w. w\<lparr>tk_revoke := Some ident\<rparr>)
         | TkCancel \<Rightarrow> Edit (\<lambda>w. w\<lparr>tk_revoke := None\<rparr>)
         | TkRevoke ident \<Rightarrow> Click 1 ident (\<lambda>w. w))
     | TLoaded q \<Rightarrow> Edit (\<lambda>w. w\<lparr>tk_query := q\<rparr>)
     | TCopy e \<Rightarrow> Edit (\<lambda>w. w\<lparr>tk_copied := copy_step e (tk_copied w)\<rparr>)
     | TClock n \<Rightarrow> Edit (\<lambda>w. w\<lparr>tk_now := tk_now w + n\<rparr>)
     | TAnswer i x \<Rightarrow> Answered i x
     | TNetwork on \<Rightarrow> Net on
     | TWindow on \<Rightarrow> Win on
     | TQuit \<Rightarrow> Leave False (\<lambda>w. w))"

definition tokens_step :: "clock \<Rightarrow> tokens_page_event \<Rightarrow> tokens_page api_page \<Rightarrow> tokens_page api_page" where
  "tokens_step ck ev = page_step (tokens_hooks ck) (tokens_act ev)"

text \<open>A member of the answer as a child; \<open>undefined\<close> renders nothing.\<close>

definition member_view :: "json \<Rightarrow> string \<Rightarrow> 'e view list" where
  "member_view j k = (case json_prop j k of None \<Rightarrow> [] | Some x \<Rightarrow> child_view x)"

definition TokenReveal :: "bool \<Rightarrow> json \<Rightarrow> string \<Rightarrow> tokens_event view" where
  "TokenReveal copied result username =
     El ''div''
       [Icon ''AlertTriangle'', El ''p'' (member_view result ''message''), El ''code'' (member_view result ''token''),
        Press True TkCopy (if copied then [Icon ''Check'', Text ''Copied!''] else [Icon ''Copy'', Text ''Copy'']),
        El ''p'' [Text ''Use as git password:''], El ''p'' [Text ''Username:'', Text username],
        El ''p'' (Text ''Password:'' # member_view result ''token'')]"

definition token_view :: "dates \<Rightarrow> access_token \<Rightarrow> tokens_event view" where
  "token_view d token =
     El ''div''
       ([El ''span'' [Text (at_name token)]] @ map (\<lambda>s. Badge BPurple [El ''code'' [Text s]]) (at_scopes token) @
        [El ''p'' [Text (at_prefix token), Icon ''Dots''],
         El ''span'' [Text ''Last used: '', (case at_last_used_at token of
            None \<Rightarrow> Text ''Never used'' | Some t \<Rightarrow> if t = [] then Text ''Never used'' else ago_view d t)],
         El ''span'' [Text ''Expires: '', (case at_expires_at token of
            None \<Rightarrow> Text ''Never'' | Some t \<Rightarrow> if t = [] then Text ''Never'' else date_view d ''MMM d, yyyy'' t)],
         El ''span'' [Text ''Created '', date_view d ''MMM d, yyyy'' (at_created_at token)],
         Button Danger Sm False False (Some ''flex-shrink-0'') (TkAskRevoke (at_id token)) [Icon ''Trash2'', Text ''Revoke'']])"

definition TokensPage_view :: "dates \<Rightarrow> tokens_page api_page \<Rightarrow> tokens_event view" where
  "TokensPage_view d c =
     (let w = mc_world c; tokens = or_nil (sh_data (tk_query w)) in
      El ''div'' ([El ''h1'' [Icon ''Key'', Text ''Personal Access Tokens'']] @
        (case tk_new w of None \<Rightarrow> [] | Some j \<Rightarrow>
           if js_truthy (Data j)
           then [TokenReveal (cp_copied (tk_copied w)) j (case tk_user w of None \<Rightarrow> [] | Some u \<Rightarrow> us_username u)]
           else child_view j) @
        [El ''div'' (El ''h2'' [Text ''Generate New Token''] # error_view (tk_error w) @
           [Input (Some ''Token name'') False None None (tk_name w) TkName, El ''p'' [Text ''Scopes'']] @
           map (\<lambda>scope. Tick (scope \<in> set (tk_scopes w)) (TkScope scope) [El ''code'' [Text scope]]) SCOPES @
           [Field ''expiration'' (tk_expiration w) TkExpiration] @
           when_view (tk_expiration w = ''custom'') (Field ''date'' (tk_custom w) TkCustom) @
           [Button Primary Sm (hook_pending 0 c) (trim (tk_name w) = [] \<or> tk_scopes w = []) (Some ''font-mono'') TkCreate
              [Text ''Generate token'']]),
         (if sh_loading (tk_query w) then El ''div'' [Spinner Md (Some ''text-secondary'')]
          else if tokens = [] then El ''div'' [El ''p'' [Text ''No tokens yet.'']]
          else El ''div'' (map (token_view d) tokens))] @
        (case tk_revoke w of None \<Rightarrow> [] | Some ident \<Rightarrow> when_view (ident \<noteq> [])
           (El ''div'' [El ''h3'' [Icon ''AlertTriangle'', Text ''Revoke token?''],
              Button Secondary Sm False False None TkCancel [Text ''Cancel''],
              Button Danger Sm (hook_pending 1 c) False (Some ''font-mono'') (TkRevoke ident) [Text ''Revoke token'']]))))"

text \<open>Texts can be edited at any time; everything else is offered by the page.\<close>

definition tokens_possible :: "dates \<Rightarrow> tokens_page api_page \<Rightarrow> tokens_page_event \<Rightarrow> bool" where
  "tokens_possible d c ev = (act_possible c (tokens_act ev) \<and> (case ev of
       TUser (TkName t) \<Rightarrow> True
     | TUser (TkExpiration t) \<Rightarrow> t \<in> {''never'', ''30d'', ''90d'', ''1y'', ''custom''}
     | TUser (TkCustom t) \<Rightarrow> tk_expiration (mc_world c) = ''custom''
     | TUser e \<Rightarrow> e \<in> set (offers (TokensPage_view d c))
     | _ \<Rightarrow> True))"

section \<open>The profile\<close>

text \<open>The page reads and changes the store of the session; \<open>useAuth\<close> gives it the user, a value of the server.\<close>

record profile_page =
  pf_store :: store
  pf_name :: string
  pf_bio :: string
  pf_avatar :: string
  pf_saveOk :: bool
  pf_error :: "json option"
  pf_timers :: nat
  pf_invalidated :: "string list list"

text \<open>\<open>user?.[k] ?? ''\<close>; the members of a user are texts, as its type says.\<close>

definition user_text :: "js_value \<Rightarrow> string \<Rightarrow> string" where
  "user_text u k = (case u of Data j \<Rightarrow> (case json_prop j k of Some (JStr s) \<Rightarrow> s | _ \<Rightarrow> []) | _ \<Rightarrow> [])"

text \<open>The effect that copies another user into the form.\<close>

definition profile_user :: "profile_page \<Rightarrow> profile_page" where
  "profile_user w = (let u = auth_field (pf_store w) ''user'' in
     if js_truthy u then w\<lparr>pf_name := user_text u ''display_name'', pf_bio := user_text u ''bio'', pf_avatar := user_text u ''avatar_url''\<rparr>
     else w)"

definition profile_start :: "store \<Rightarrow> profile_page" where
  "profile_start s = profile_user \<lparr>pf_store = s, pf_name = [], pf_bio = [], pf_avatar = [], pf_saveOk = False, pf_error = None,
     pf_timers = 0, pf_invalidated = []\<rparr>"

text \<open>\<open>text || undefined\<close>.\<close>

definition text_or_undefined :: "string \<Rightarrow> json option" where
  "text_or_undefined t = (if t = [] then None else Some (JStr t))"

definition profile_fields :: "profile_page \<Rightarrow> (string \<times> json option) list" where
  "profile_fields p = [(''display_name'', text_or_undefined (pf_name p)), (''bio'', text_or_undefined (pf_bio p)),
     (''avatar_url'', text_or_undefined (pf_avatar p))]"

text \<open>
  \<open>onSuccess\<close> in the closure of the render \<open>p\<close>: it signs in with the token \<open>p\<close> has read. The new user
  is copied into the form. An exception of \<open>login\<close> ends the callback.
\<close>

definition profile_saved :: "json option \<Rightarrow> profile_page \<Rightarrow> profile_page" where
  "profile_saved updated w = w\<lparr>pf_invalidated := pf_invalidated w @ [[''current-user'']], pf_saveOk := True, pf_error := None,
     pf_timers := pf_timers w + 1\<rparr>"

definition profile_success :: "profile_page \<Rightarrow> json option \<Rightarrow> profile_page \<Rightarrow> profile_page \<times> api_error option" where
  "profile_success p updated w =
     (let token = auth_field (pf_store p) ''token'' in
      if js_truthy token then
        (case store_login token (js_of updated) (pf_store w) of
           (Returned _, s) \<Rightarrow> (profile_saved updated (profile_user (w\<lparr>pf_store := s\<rparr>)), None)
         | (Thrown e, s) \<Rightarrow> (profile_user (w\<lparr>pf_store := s\<rparr>), Some (ScriptError (error_text e))))
      else (profile_saved updated w, None))"

definition profile_mutation :: "profile_page \<Rightarrow> profile_page api_mutation" where
  "profile_mutation p = page_mutation (\<lambda>v. updateProfile (profile_fields p)) (profile_success p)
     (\<lambda>e w. w\<lparr>pf_error := Some (failure_message ''Failed to save profile'' e)\<rparr>)"

definition profile_hooks :: "(profile_page \<Rightarrow> profile_page api_mutation) list" where
  "profile_hooks = [profile_mutation]"

datatype profile_event = PfName string | PfBio string | PfAvatar string | PfSave

text \<open>
  \<open>PSignOut\<close> is the button of the navigation bar: \<open>logout\<close> and the way to the page for signing in, which unmounts
  this one; the application then clears the caches.
\<close>

datatype profile_page_event =
    PUser profile_event | PTimer | PAnswer nat "json option + api_error" | PNetwork bool | PWindow bool | PSignOut | PQuit

definition profile_act :: "profile_page_event \<Rightarrow> profile_page api_act" where
  "profile_act ev = (case ev of
       PUser e \<Rightarrow> (case e of
           PfName t \<Rightarrow> Edit (\<lambda>w. w\<lparr>pf_name := t\<rparr>)
         | PfBio t \<Rightarrow> Edit (\<lambda>w. w\<lparr>pf_bio := t\<rparr>)
         | PfAvatar t \<Rightarrow> Edit (\<lambda>w. w\<lparr>pf_avatar := t\<rparr>)
         | PfSave \<Rightarrow> Click 0 [] (\<lambda>w. w))
     | PTimer \<Rightarrow> Edit (\<lambda>w. if pf_timers w = 0 then w else w\<lparr>pf_saveOk := False, pf_timers := pf_timers w - 1\<rparr>)
     | PAnswer i x \<Rightarrow> Answered i x
     | PNetwork on \<Rightarrow> Net on
     | PWindow on \<Rightarrow> Win on
     | PSignOut \<Rightarrow> Leave True (\<lambda>w. w\<lparr>pf_store := snd (auth_logout (pf_store w))\<rparr>)
     | PQuit \<Rightarrow> Leave False (\<lambda>w. w))"

definition profile_step :: "profile_page_event \<Rightarrow> profile_page api_page \<Rightarrow> profile_page api_page" where
  "profile_step ev = page_step profile_hooks (profile_act ev)"

definition profile_mount :: "store \<Rightarrow> bool \<Rightarrow> bool \<Rightarrow> profile_page api_page" where
  "profile_mount s online focused = mount_hooks profile_hooks (profile_start s) online focused"

definition SettingsPage_view :: "profile_page api_page \<Rightarrow> profile_event view" where
  "SettingsPage_view c =
     (let w = mc_world c; u = auth_field (pf_store w) ''user'' in
      El ''div''
        [El ''h1'' [Text ''Settings''],
         El ''div'' (El ''h2'' [Text ''Profile''] # error_view (pf_error w) @
           when_view (pf_saveOk w) (El ''div'' [Text ''Profile saved.'']) @
           [Input (Some ''Display name'') False None None (pf_name w) PfName,
            El ''label'' [Text ''Bio''], Textarea None None None (pf_bio w) PfBio,
            El ''p'' [Text (show_nat (length (pf_bio w)) @ ''/500'')],
            Input (Some ''Avatar URL'') False None None (pf_avatar w) PfAvatar,
            Button Primary Sm (hook_pending 0 c) False (Some ''font-mono'') PfSave [Text ''Save profile'']]),
         El ''div''
           [El ''h2'' [Text ''Account''], El ''label'' [Text ''Username''], Text (user_text u ''username''),
            El ''p'' [Text ''Username changes are not supported yet.''], El ''label'' [Text ''Email''], Text (user_text u ''email''),
            El ''p'' [Text ''Email changes are not supported yet.''], LinkTo ''/settings/keys'' [Text ''Manage SSH keys'']]])"

definition profile_possible :: "profile_page api_page \<Rightarrow> profile_page_event \<Rightarrow> bool" where
  "profile_possible c ev = (act_possible c (profile_act ev) \<and> (case ev of
       PUser PfSave \<Rightarrow> PfSave \<in> set (offers (SettingsPage_view c))
     | _ \<Rightarrow> True))"

end
