(* ===== verification/PageFacts.thy ===== *)
theory PageFacts
  imports RepoFacts Pages
begin

text \<open>
  Where the links of the pages lead, and what the pages make of the states of their queries.
\<close>

section \<open>Links\<close>

lemma follow_root: "follow_link ''/'' from_paths here = ''/''"
proof -
  have p: "parsePath ''/'' = \<lparr>l_pathname = Some ''/'', l_search = None, l_hash = None\<rparr>" by code_simp
  have "resolvePath \<lparr>l_pathname = Some ''/'', l_search = None, l_hash = None\<rparr> f =
      \<lparr>v_pathname = ''/'', v_search = [], v_hash = []\<rparr>" for f by code_simp
  moreover have "\<not> starts_with ''/'' ''..''" by code_simp
  ultimately show ?thesis
    by (simp add: follow_link_def resolveTo_def p Let_def opt_str_def createPath_def with_mark_def)
qed

lemma target_root: "target from_paths here ''/'' = Some (HomePage, [])"
proof -
  have "app_match ''/'' = Some (HomePage, [])" by code_simp
  then show ?thesis by (simp add: target_def follow_root)
qed

text \<open>A link that, followed from a place, shows a page of the application.\<close>

definition found :: "string list \<times> string \<Rightarrow> string \<Rightarrow> bool" where
  "found place to = (case target (fst place) (snd place) to of None \<Rightarrow> False | Some (p, ps) \<Rightarrow> p \<noteq> NotFoundPage)"

lemma found_path:
  assumes "list_all plain_seg segs" and "segs \<noteq> []" and "fst (app_page segs) \<noteq> NotFoundPage"
  shows "found place (path_text segs)"
  using assms by (simp add: found_def target_plain split: prod.split) (metis fst_conv)

lemma found_fixed [simp]:
  "found place ''/''" "found place ''/login''" "found place ''/register''" "found place ''/new''" "found place ''/settings''"
  "found place ''/settings/keys''" "found place ''/settings/tokens''"
  using target_root found_path [of "[''login'']"] found_path [of "[''register'']"] found_path [of "[''new'']"]
    found_path [of "[''settings'']"] found_path [of "[''settings'', ''keys'']"] found_path [of "[''settings'', ''tokens'']"]
  by (simp_all add: found_def)

lemma found_user: "plain_seg a \<Longrightarrow> found place (CHR ''/'' # a)"
  using found_path [of "[a]"] by simp

lemma found_repo: "plain_seg a \<Longrightarrow> plain_seg b \<Longrightarrow> found place (CHR ''/'' # a @ CHR ''/'' # b)"
  using found_path [of "[a, b]"] by simp

lemma found_settings: "plain_seg a \<Longrightarrow> plain_seg b \<Longrightarrow> found place (CHR ''/'' # a @ CHR ''/'' # b @ ''/settings'')"
  using found_path [of "[a, b, ''settings'']"] by simp

lemma found_commits: "plain_seg a \<Longrightarrow> plain_seg b \<Longrightarrow> plain_seg r \<Longrightarrow> found place (CHR ''/'' # a @ CHR ''/'' # b @ ''/commits/'' @ r)"
  using found_path [of "[a, b, ''commits'', r]"] by simp

lemma found_folder:
  assumes "list_all plain_seg [a, b, r]" and "list_all plain_seg p" and "p \<noteq> []"
  shows "found place (folder_link a b r p)"
  by (simp add: found_def target_folder [OF assms])

section \<open>Links of the components\<close>

lemma leaf_links [simp]:
  "links (CommitRow d copied commit) = []" "links (BranchSelector sel branch q) = []" "links (FileViewer v bytes sha raw) = []"
  "links (repo_error_view :: 'e view) = []" "links (empty_repo_view name repo :: 'e view) = []"
  "links (readme_view readme :: 'e view) = []" "links (SubmitButton bv bs l cl vs) = concat (map links vs)"
  by (auto simp: CommitRow_def BranchSelector_def Let_def when_view_def FileViewer_def repo_error_view_def empty_repo_view_def
      readme_view_def SubmitButton_def split: option.splits)

lemma CommitList_links [simp]: "links (CommitList d c xs l e) = []"
  by (auto simp: CommitList_def split: option.splits)

lemma node_links [simp]: "links (FileNode_view pos n) = []"
  by (induction pos n rule: FileNode_view.induct) (auto simp: when_view_def split: option.splits)

lemma tree_links [simp]: "links (FileTree ns) = []"
  by (auto simp: FileTree_def)

lemma clone_links: "set (links (CloneButton p c s u)) \<subseteq> {''/settings/keys''}"
  by (auto simp: CloneButton_def Let_def when_view_def)

lemma found_clone: "l \<in> set (links (CloneButton p c s u)) \<Longrightarrow> found place l"
  using clone_links by force

lemma card_links: "links (RepoCard d r) = [''/'' @ us_username (rp_owner r) @ ''/'' @ rp_name r]"
  by (auto simp: RepoCard_def when_view_def)

lemma error_links [simp]: "links (EmptyState (Some (Icon i)) t None None) = []"
  by (simp add: EmptyState_def)

text \<open>Names that can be in a path as they are.\<close>

definition repo_ok :: "repository \<Rightarrow> bool" where
  "repo_ok r = (plain_seg (us_username (rp_owner r)) \<and> plain_seg (rp_name r))"

definition activity_ok :: "activity_event \<Rightarrow> bool" where
  "activity_ok e = (let s = snd (eventLabel e); ps = split_on CHR ''/'' s in s = [] \<or> length ps \<le> 2 \<and> list_all plain_seg ps)"

lemma found_card: "repo_ok r \<Longrightarrow> l \<in> set (links (RepoCard d r)) \<Longrightarrow> found place l"
  by (simp add: card_links repo_ok_def found_repo)

lemma found_activity:
  assumes "activity_ok e" and "l \<in> set (links (activity_view d e))"
  shows "found place l"
proof -
  let ?s = "snd (eventLabel e)" and ?ps = "split_on CHR ''/'' (snd (eventLabel e))"
  have l: "l = CHR ''/'' # ?s" "?s \<noteq> []"
    using assms(2) by (auto simp: activity_view_def when_view_def split: prod.splits if_splits)
  with assms(1) have ps: "length ?ps \<le> 2" "list_all plain_seg ?ps" by (simp_all add: activity_ok_def Let_def)
  have "l = path_text ?ps" using l(1) by (simp add: path_text_join)
  moreover have "found place (path_text ?ps)"
  proof (rule found_path [OF ps(2)])
    obtain a qs where a: "?ps = a # qs" by (cases ?ps) auto
    with ps(1) consider "?ps = [a]" | b where "?ps = [a, b]" by (cases qs) auto
    then show "fst (app_page ?ps) \<noteq> NotFoundPage" by cases simp_all
  qed simp
  ultimately show ?thesis by simp
qed

text \<open>The links of a page with its data, over all its states.\<close>

lemma home_links:
  assumes "list_all repo_ok (or_nil (sh_data qr))" and "list_all activity_ok (or_nil (sh_data qa))"
    and "l \<in> set (links (HomePage_view d auth s qr qa))"
  shows "found place l"
  using assms
  by (auto simp: HomePage_view_def AuthenticatedHome_def HeroSection_def Let_def list_all_iff when_view_def
      intro: found_card found_activity split: if_splits)

lemma profile_links:
  assumes "list_all repo_ok (or_nil (sh_data qr))" and "l \<in> set (links (UserProfilePage_view d s qu qr))"
  shows "found place l"
  using assms
  by (auto simp: UserProfilePage_view_def Let_def list_all_iff when_view_def intro: found_card split: if_splits option.splits)

lemma repo_links:
  assumes "list_all plain_seg [owner, repoName, currentBranch (pg_branch s) r (sh_data qr)]"
    and "l \<in> set (links (RepoPage_view d p c s u owner repoName r qr qt qc qm qb))"
  shows "found place l"
  using assms
  by (auto simp: RepoPage_view_def Let_def repo_header_def when_view_def
      intro: found_user found_clone found_settings [simplified] found_commits [simplified] split: if_splits option.splits list.splits)

lemma commits_links:
  assumes "plain_seg owner" and "plain_seg repo" and "l \<in> set (links (RepoCommitsPage_view d c s owner repo qc qb))"
  shows "found place l"
  using assms by (auto simp: RepoCommitsPage_view_def intro: found_repo)

lemma file_links:
  assumes "list_all plain_seg [owner, repo, ref]" and "list_all plain_seg (path_parts path)"
    and "l \<in> set (links (RepoFilePage_view v owner repo ref path q :: 'e view))"
  shows "found place l"
proof -
  have "l \<in> set (links (Breadcrumb owner repo ref path Blob :: 'e view))"
    using assms(3) by (auto simp: RepoFilePage_view_def when_view_def split: option.splits)
  then consider "l = ''/'' @ owner" | "l = ''/'' @ owner @ ''/'' @ repo"
    | n where "1 \<le> n" "n < length (path_parts path)" "l = folder_link owner repo ref (take n (path_parts path))"
    unfolding breadcrumb_links by auto
  then show ?thesis
  proof cases
    case 3
    have "list_all plain_seg (take n (path_parts path))" using assms(2) by (auto simp: list_all_iff dest: in_set_takeD)
    with 3 assms(1) show ?thesis by (auto intro!: found_folder)
  qed (use assms(1) in \<open>simp_all add: found_user found_repo\<close>)
qed

lemma navbar_links:
  assumes "list_all (plain_seg \<circ> us_username) (case u of None \<Rightarrow> [] | Some x \<Rightarrow> [x])" and "l \<in> set (links (Navbar s auth u))"
  shows "found place l"
  using assms
  by (auto simp: Navbar_def navbar_right_def when_view_def intro: found_user split: if_splits option.splits)

section \<open>No link leads nowhere\<close>

text \<open>C29. No page has a dead link: for names that need no encoding, every link of the navigation bar, the
  home page, a profile, a repository, its commits and its files opens a page of the application, in
  every state of the page and of its queries.\<close>

theorem no_dead_links:
  assumes "list_all plain_seg [owner, repo, ref]" and "list_all plain_seg (path_parts path)"
    and "plain_seg (currentBranch (pg_branch pg) routeRef (sh_data q_repo))"
    and "list_all repo_ok (or_nil (sh_data q_repos))" and "list_all activity_ok (or_nil (sh_data q_activity))"
    and "list_all (plain_seg \<circ> us_username) (case u of None \<Rightarrow> [] | Some x \<Rightarrow> [x])"
  shows "list_all (found place) (links (Navbar nb auth u))
    \<and> list_all (found place) (links (HomePage_view d auth search q_repos q_activity))
    \<and> list_all (found place) (links (UserProfilePage_view d search q_user q_repos))
    \<and> list_all (found place) (links (RepoPage_view d parse_url copied pg u owner repo routeRef q_repo q_tree q_commits q_readme q_branches))
    \<and> list_all (found place) (links (RepoCommitsPage_view d copied cs owner repo q_commits q_branches))
    \<and> list_all (found place) (links (RepoFilePage_view v owner repo ref path q_blob :: 'e view))"
proof (intro conjI)
  show "list_all (found place) (links (Navbar nb auth u))"
    using navbar_links [OF assms(6)] by (auto simp: list_all_iff)
  show "list_all (found place) (links (HomePage_view d auth search q_repos q_activity))"
    using home_links [OF assms(4,5)] by (auto simp: list_all_iff)
  show "list_all (found place) (links (UserProfilePage_view d search q_user q_repos))"
    using profile_links [OF assms(4)] by (auto simp: list_all_iff)
  have names: "list_all plain_seg [owner, repo, currentBranch (pg_branch pg) routeRef (sh_data q_repo)]" using assms(1,3) by simp
  show "list_all (found place) (links (RepoPage_view d parse_url copied pg u owner repo routeRef q_repo q_tree q_commits q_readme q_branches))"
    using repo_links [OF names] by (auto simp: list_all_iff)
  show "list_all (found place) (links (RepoCommitsPage_view d copied cs owner repo q_commits q_branches))"
    using commits_links [of owner repo] assms(1) by (auto simp: list_all_iff)
  show "list_all (found place) (links (RepoFilePage_view v owner repo ref path q_blob :: 'e view))"
    by (auto simp: list_all_iff intro: file_links [OF assms(1,2)])
qed

definition ada :: user where
  "ada = \<lparr>us_id = ''7'', us_username = ''ada'', us_email = ''ada@example.org'', us_display_name = ''Ada'', us_avatar_url = [],
     us_bio = [], us_is_admin = False, us_created_at = ''2024-05-01''\<rparr>"

definition web_repo :: repository where
  "web_repo = \<lparr>rp_id = ''1'', rp_name = ''web'', rp_full_name = ''ada/web'', rp_description = ''pages'', rp_is_private = False,
     rp_default_branch = ''main'', rp_clone_url = ''https://git.example.org/ada/web.git'', rp_star_count = 2, rp_fork_count = 0,
     rp_owner = ada, rp_created_at = ''2024-05-02'', rp_updated_at = ''2024-05-03''\<rparr>"

definition push_event :: "string \<Rightarrow> activity_event" where
  "push_event name = \<lparr>ae_id = ''9'', ae_actor_id = ''7'', ae_event_type = ''git.push'', ae_repo_id = Some ''1'',
     ae_payload = [(''repo'', JStr name)], ae_created_at = ''2024-05-03''\<rparr>"

definition plain_dates :: dates where
  "plain_dates = \<lparr>d_format = \<lambda>t p. Some t, d_ago = \<lambda>t. Some t\<rparr>"

definition loaded :: "'a \<Rightarrow> 'a shown" where
  "loaded x = \<lparr>sh_data = Some x, sh_loading = False, sh_error = False\<rparr>"

theorem no_dead_links_witness:
  "list_all (found ([''/''], ''/'')) (links (HomePage_view plain_dates True [] (loaded [web_repo]) (loaded [push_event ''web''])))"
proof -
  have names: "list_all plain_seg [''ada'', ''web'', ''main'']" "list_all plain_seg (path_parts ''src/a.go'')"
    "plain_seg (currentBranch (pg_branch repo_page_start) None (sh_data (loaded web_repo)))"
    "list_all repo_ok (or_nil (sh_data (loaded [web_repo])))"
    "list_all activity_ok (or_nil (sh_data (loaded [push_event ''web''])))"
    "list_all (plain_seg \<circ> us_username) (case Some ada of None \<Rightarrow> [] | Some x \<Rightarrow> [x])"
    by code_simp+
  show ?thesis by (rule conjunct1 [OF conjunct2 [OF no_dead_links [OF names]]])
qed

section \<open>Links that lead elsewhere\<close>

text \<open>Each push in the activity of the home page is shown with the name of the repository alone, as the
  server records it, and its link opens the profile of a user of that name, not the repository.\<close>

theorem push_links_to_user:
  assumes "plain_seg name" and "\<not> reserved name"
  shows "map (target from_paths here) (links (activity_view d (push_event name) :: 'e view)) =
    [Some (UserProfilePage, [(''username'', Some name)])]"
proof -
  have "name \<noteq> []" using assms(1) by (auto simp: plain_seg_def)
  then have "links (activity_view d (push_event name) :: 'e view) = [''/'' @ name]"
    by (simp add: activity_view_def eventLabel_def push_event_def when_view_def)
  then show ?thesis by (simp add: target_user [OF assms, simplified])
qed

theorem push_links_to_user_witness:
  "map (target [''/''] ''/'') (links (activity_view plain_dates (push_event ''web''))) = [Some (UserProfilePage, [(''username'', Some ''web'')])]"
proof (rule push_links_to_user)
  show "plain_seg ''web''" "\<not> reserved ''web''" by code_simp+
qed

text \<open>The commits of a branch with a slash cannot be opened from its repository: the link of the page
  leads to the page for what does not exist.\<close>

theorem slash_branch_commits_lost:
  assumes "list_all plain_seg [owner, repoName, a, b]" and "readmeEntry (sh_data q_tree) \<noteq> None"
    and "sh_data q_repo = Some repo" and "\<not> sh_loading q_repo" and "\<not> sh_error q_repo" and "pg_branch pg = Some (a @ ''/'' @ b)"
  shows "\<exists>l \<in> set (links (RepoPage_view d parse_url copied pg u owner repoName routeRef q_repo q_tree q_commits q_readme q_branches)).
    map_option fst (target from_paths here l) = Some NotFoundPage"
proof
  let ?l = "''/'' @ owner @ ''/'' @ repoName @ ''/commits/'' @ a @ ''/'' @ b"
  show "?l \<in> set (links (RepoPage_view d parse_url copied pg u owner repoName routeRef q_repo q_tree q_commits q_readme q_branches))"
    using assms(2-6) by (auto simp: RepoPage_view_def Let_def currentBranch_def)
  have "list_all plain_seg [owner, repoName, ''commits'', a, b]" using assms(1) by simp
  then have "target from_paths here (path_text [owner, repoName, ''commits'', a, b]) = Some (app_page [owner, repoName, ''commits'', a, b])"
    by (rule target_plain) simp
  moreover have "\<not> same_text ''blob'' ''commits''" "\<not> same_text ''tree'' ''commits''" by code_simp+
  ultimately show "map_option fst (target from_paths here ?l) = Some NotFoundPage" by simp
qed

theorem slash_branch_commits_lost_witness:
  "\<exists>l \<in> set (links (RepoPage_view plain_dates (\<lambda>u. None) (\<lambda>t. False) (repo_page_start\<lparr>pg_branch := Some ''fix/a''\<rparr>) None ''ada'' ''web''
      None (loaded web_repo) (loaded \<lparr>tr_sha = [], tr_path = [], tr_entries = Some []\<rparr>) (loaded []) \<lparr>sh_data = None, sh_loading = False, sh_error = False\<rparr> (loaded []))).
    map_option fst (target [''/''] ''/'' l) = Some NotFoundPage"
proof (rule slash_branch_commits_lost)
  show "list_all plain_seg [''ada'', ''web'', ''fix'', ''a'']" by code_simp
qed (simp_all add: loaded_def readmeEntry_def)

section \<open>The branch of the page of commits\<close>

definition last_selected :: "commits_event list \<Rightarrow> string option" where
  "last_selected evs = fold (\<lambda>e r. case e of CsSelector (BsSelect b) \<Rightarrow> Some b | _ \<Rightarrow> r) evs None"

text \<open>The page of commits keeps its branch: the branch of the route counts only when the page is first
  shown, and afterwards only the last branch that was selected, so that a link to the commits of
  another branch or repository asks for a branch the link does not name.\<close>

theorem commits_branch_kept:
  "commits_page_query owner repo (fold commits_page_step evs (commits_page_start ref)) =
    QCommits owner repo (case last_selected evs of Some b \<Rightarrow> b | None \<Rightarrow> (case ref of None \<Rightarrow> ''main'' | Some r \<Rightarrow> r))"
proof -
  have step: "cs_branch (commits_page_step e s) = (case e of CsSelector (BsSelect b) \<Rightarrow> b | _ \<Rightarrow> cs_branch s)" for e s
    by (auto simp: commits_page_step_def selector_step_def split: commits_event.split selector_event.split)
  have "cs_branch (fold commits_page_step evs s) = (case last_selected evs of Some b \<Rightarrow> b | None \<Rightarrow> cs_branch s)" for s
    by (induction evs rule: rev_induct)
       (auto simp: last_selected_def step split: commits_event.split selector_event.split option.split)
  then show ?thesis by (simp add: commits_page_query_def commits_page_start_def split: option.split)
qed

section \<open>Waiting is shown as absence\<close>

text \<open>
  What a page that is opened offline reads of a query whose data are not in the cache: the query is
  paused, which is neither loading nor an error.
\<close>

lemma offline_result:
  assumes "hook_options (app_hook q) = Some opts" and "al_get (c_cache c) (o_hash opts) = None"
    and "\<not> c_online c" and "b < length (c_observers c)" and "\<not> ob_listening (c_observers c ! b)"
  shows "shown decode (optimistic_result b opts c) = \<lparr>sh_data = None, sh_loading = False, sh_error = False\<rparr>"
proof -
  have init: "o_initialData opts = VUndef" by (rule hook_options_fields(4) [OF assms(1)])
  let ?s = "getDefaultState (c_now c) opts"
  have s: "s_data ?s = VUndef" "s_status ?s = StPending" "s_fetch ?s = FIdle" "s_error ?s = None"
    by (simp_all add: getDefaultState_def init Let_def)
  have new: "q_state (new_query (c_now c) opts) = ?s" "q_options (new_query (c_now c) opts) = opts"
    by (simp_all add: new_query_def Let_def scheduleGc_def updateGcTime_def)
  have mode: "o_networkMode opts = None" by (rule hook_options_fields(5) [OF assms(1)])
  show ?thesis
    using assms(2-5) s
    by (auto simp: shown_def optimistic_result_def cache_build_def Let_def nth_append new createResult_def isLoading_def
        isPending_def isFetching_def fetchState_def canFetch_def mode)
qed

text \<open>What a page reads of a query when it renders with the observer \<open>b\<close>.\<close>

definition reads :: "nat \<Rightarrow> client \<Rightarrow> app_query \<Rightarrow> (jsv \<Rightarrow> 'a) \<Rightarrow> 'a shown" where
  "reads b c q decode = shown decode (optimistic_result b (the (hook_options (app_hook q))) c)"

definition nothing_read :: "'a shown" where
  "nothing_read = \<lparr>sh_data = None, sh_loading = False, sh_error = False\<rparr>"

lemma reads_offline:
  assumes "\<not> c_online c" and "b < length (c_observers c)" and "\<not> ob_listening (c_observers c ! b)" and "c_cache c = []"
  shows "reads b c q decode = nothing_read"
proof -
  obtain opts where "hook_options (app_hook q) = Some opts" using hook_options_total by blast
  with offline_result [OF this, of c b decode] assms show ?thesis by (simp add: reads_def nothing_read_def)
qed

lemma nothing_texts:
  "''No repositories yet.'' \<in> set (texts (HomePage_view d True search nothing_read qa))"
  "''User not found.'' \<in> set (texts (UserProfilePage_view d search nothing_read qr))"
  "''Repository not found or access denied.'' \<in>
     set (texts (RepoPage_view d parse_url copied pg u owner repoName r nothing_read nothing_read qc qm qb))"
  "''No commits yet'' \<in> set (texts (RepoCommitsPage_view d copied cs owner repoName nothing_read qb))"
  by (simp_all add: nothing_read_def HomePage_view_def AuthenticatedHome_def Let_def or_nil_def UserProfilePage_view_def
      RepoPage_view_def readmeEntry_def repo_error_view_def RepoCommitsPage_view_def CommitList_def EmptyState_def)

text \<open>A visitor who is offline is told that things do not exist: a page that is opened without network
  and without cached data shows neither a spinner nor an error, but that there are no repositories,
  that the user or the repository was not found, or that there are no commits.\<close>

theorem offline_shown_as_absent:
  assumes "\<not> c_online c" and "b < length (c_observers c)" and "\<not> ob_listening (c_observers c ! b)" and "c_cache c = []"
  shows "''No repositories yet.'' \<in> set (texts (HomePage_view d True search (reads b c QMyRepos as_repos) q_activity))
    \<and> ''User not found.'' \<in> set (texts (UserProfilePage_view d search (reads b c (QProfile name) as_user) q_repos))
    \<and> ''Repository not found or access denied.'' \<in> set (texts (RepoPage_view d parse_url copied pg u owner repoName routeRef
        (reads b c (QRepo owner repoName) as_repo) (reads b c (QTree owner repoName r path) as_tree) q_commits q_readme q_branches))
    \<and> ''No commits yet'' \<in> set (texts (RepoCommitsPage_view d copied cs owner repoName
        (reads b c (commits_page_query owner repoName cs) as_commits) q_branches))"
  by (simp only: reads_offline [OF assms] nothing_texts simp_thms)

text \<open>A component that has rendered once, with no network.\<close>

definition offline_client :: client where
  "offline_client = (fresh_client 0 False True)\<lparr>c_observers :=
     [\<lparr>ob_query = 0, ob_options = the (hook_options (app_hook QMyRepos)), ob_listening = False,
       ob_initial = getDefaultState 0 (the (hook_options (app_hook QMyRepos))),
       ob_result = createResult 0 (getDefaultState 0 (the (hook_options (app_hook QMyRepos))))
         (getDefaultState 0 (the (hook_options (app_hook QMyRepos)))) (getDefaultState 0 (the (hook_options (app_hook QMyRepos))))
         (the (hook_options (app_hook QMyRepos))), ob_timer = False\<rparr>]\<rparr>"

theorem offline_shown_as_absent_witness:
  "''No repositories yet.'' \<in> set (texts (HomePage_view plain_dates True [] (reads 0 offline_client QMyRepos (\<lambda>v. [])) (loaded [])))"
proof -
  have "\<not> c_online offline_client" "0 < length (c_observers offline_client)" "\<not> ob_listening (c_observers offline_client ! 0)"
    "c_cache offline_client = []"
    by (simp_all add: offline_client_def fresh_client_def)
  from conjunct1 [OF offline_shown_as_absent [OF this]] show ?thesis .
qed

text \<open>What a page reads after a request has failed.\<close>

definition after_failure :: "(jsv \<Rightarrow> 'a) \<Rightarrow> nat \<Rightarrow> bool \<Rightarrow> qoptions \<Rightarrow> qerror \<Rightarrow> qstate \<Rightarrow> 'a shown" where
  "after_failure decode now online opts e s =
     (let s' = reducer now online opts (AError e) s in shown decode (createResult now s' s' s opts))"

text \<open>A repository that is on the screen disappears when refreshing it fails: the page shows the error
  for a missing repository although the data are still there.\<close>

theorem failed_refresh_hides_repo:
  assumes "s_data st \<noteq> VUndef" and "readmeEntry (sh_data q_tree) \<noteq> None"
  shows "sh_data (after_failure as_repo now online opts e st) = Some (as_repo (s_data st))
    \<and> RepoPage_view d parse_url copied pg u owner repoName routeRef (after_failure as_repo now online opts e st)
        q_tree q_commits q_readme q_branches = repo_error_view"
  using assms
  by (auto simp: after_failure_def Let_def shown_def createResult_def isLoading_def isPending_def RepoPage_view_def split: option.split)

theorem failed_refresh_hides_repo_witness:
  "RepoPage_view plain_dates (\<lambda>u. None) (\<lambda>t. False) repo_page_start None ''ada'' ''web'' None
     (after_failure (\<lambda>v. web_repo) 9 True opts0 (FnError ''503'') (successState 0 (VStr ''web'') None st0))
     (loaded \<lparr>tr_sha = [], tr_path = [], tr_entries = Some []\<rparr>) (loaded []) nothing_read (loaded []) = repo_error_view"
  by (rule conjunct2 [OF failed_refresh_hides_repo]) (simp_all add: successState_def loaded_def readmeEntry_def)

end
