(* ===== verification/AccountFacts.thy ===== *)
theory AccountFacts
  imports AccountPages PageFacts
begin

text \<open>
  What the pages that change things send. The interpretations make the pages instances of the two
  locales of \<open>PageClient\<close>: while the network is there each click sends one request, made from what
  the page shows, and whatever happens only legal requests are sent.
\<close>

lemmas settings_page_defs = settings_hooks_def save_mutation_def delete_mutation_def
lemmas account_page_defs = ssh_hooks_def add_key_mutation_def delete_key_mutation_def tokens_hooks_def
  create_token_mutation_def revoke_mutation_def profile_hooks_def profile_mutation_def

interpretation settings_plain: plain_page settings_hooks
  by unfold_locales (auto simp: settings_page_defs)

interpretation keys_plain: plain_page ssh_hooks
  by unfold_locales (auto simp: account_page_defs)

interpretation tokens_plain: plain_page "tokens_hooks ck" for ck
  by unfold_locales (auto simp: account_page_defs)

interpretation profile_plain: plain_page profile_hooks
  by unfold_locales (auto simp: account_page_defs)

section \<open>The settings of a repository\<close>

lemma act_possible_settings: "settings_possible c ev \<Longrightarrow> act_possible c (settings_act ev)"
  by (simp add: settings_possible_def)

text \<open>The button that deletes is there only in the dialog, with the name typed.\<close>

lemma offers_when [simp]: "offers (El t (when_view b v)) = (if b then offers v else [])"
  by (simp add: when_view_def)

lemma child_offers [simp]: "v \<in> set (child_view j) \<Longrightarrow> offers v = []"
  by (induction j) auto

lemma error_offers [simp]: "v \<in> set (error_view e) \<Longrightarrow> offers v = []"
  by (auto simp: error_view_def split: option.splits if_splits)

lemma delete_offered:
  "RsDelete \<in> set (offers (RepoSettingsPage_view c)) \<Longrightarrow> rs_modal (mc_world c) \<and> rs_confirm (mc_world c) = rs_repo (mc_world c)"
  by (auto simp: RepoSettingsPage_view_def Let_def when_view_def choice_view_def split: if_splits option.splits)

text \<open>C1. While the network is there, the settings of a repository send what the visitor asked for and
  nothing else: a press of \<open>Save changes\<close> sends the form for the repository of the route, a press of
  the last button of the dialog deletes the repository of the route, whose name has been typed; no
  other event sends anything, whatever happened before.\<close>

theorem settings_requests:
  assumes "page_run settings_possible settings_step evs (settings_mount owner repo u True focused) = Some c"
    and "list_all (stays \<circ> settings_act) (ev # evs)" and "settings_possible c ev"
  shows "mc_sent (settings_step ev c) = mc_sent c @ (case ev of
       User RsSave \<Rightarrow> [(length (mc_mutations c), updateRepo (rs_owner (mc_world c)) (rs_repo (mc_world c)) (settings_body (mc_world c)))]
     | User RsDelete \<Rightarrow> [(length (mc_mutations c), deleteRepo (rs_owner (mc_world c)) (rs_repo (mc_world c)))]
     | _ \<Rightarrow> [])
   \<and> (ev = User RsDelete \<longrightarrow> rs_modal (mc_world c) \<and> rs_confirm (mc_world c) = rs_repo (mc_world c))"
proof
  have "prompt settings_hooks c"
    by (rule settings_plain.prompt_run [OF assms(1) [unfolded settings_mount_def settings_step_def [abs_def]]])
       (use assms(2) in \<open>simp_all add: list_all_iff act_possible_settings\<close>)
  then have "mc_sent (settings_step ev c) = mc_sent c @ sent_by settings_hooks c (settings_act ev)"
    using assms(2,3) by (simp add: settings_step_def settings_plain.prompt_step act_possible_settings)
  then show "mc_sent (settings_step ev c) = mc_sent c @ (case ev of
       User RsSave \<Rightarrow> [(length (mc_mutations c), updateRepo (rs_owner (mc_world c)) (rs_repo (mc_world c)) (settings_body (mc_world c)))]
     | User RsDelete \<Rightarrow> [(length (mc_mutations c), deleteRepo (rs_owner (mc_world c)) (rs_repo (mc_world c)))]
     | _ \<Rightarrow> [])"
    by (auto simp: settings_act_def settings_page_defs split: page_event.split settings_event.split)
  show "ev = User RsDelete \<longrightarrow> rs_modal (mc_world c) \<and> rs_confirm (mc_world c) = rs_repo (mc_world c)"
    using assms(3) delete_offered [of c] by (auto simp: settings_possible_def)
qed

text \<open>How runs of pages are computed.\<close>

lemmas page_eval = page_step_def render_hooks_def render_hook_def on_world_def mount_hooks_def fresh_mclient_def
  mb_subscribe_def new_mobserver_def upd_mobserver_def mb_setOptions_def Let_def upd_mutation_def click_mutate_def mutate_def
  mb_leave_def mcache_build_def mcache_add_def scopeFor_def mu_scheduleGc_def mu_setOptions_def mu_addObserver_def
  mu_execute_def mu_dispatch_def mu_canStart_def canFetch_def canRun_def mu_start_def mu_set_phase_def mb_updateResult_def
  resumePausedMutations_def mu_continue_def mu_canContinue_def mu_run_def mu_pending_def upt_rec page_mutation_def
  hook_pending_def getDefaultState2_def

lemmas settings_eval = settings_step_def settings_mount_def settings_hooks_def settings_act_def settings_edit_def loaded_def
  save_mutation_def delete_mutation_def settings_start_def settings_loaded_def

theorem settings_requests_witness:
  "\<exists>c. page_run settings_possible settings_step [Loaded (loaded web_repo), User (RsSection True), User RsOpenModal, User (RsConfirm ''web'')]
       (settings_mount ''ada'' ''web'' (Some ada) True True) = Some c
     \<and> mc_sent (settings_step (User RsDelete) c) = [(0, deleteRepo ''ada'' ''web'')]"
proof -
  let ?evs = "[Loaded (loaded web_repo), User (RsSection True), User RsOpenModal, User (RsConfirm ''web'')]"
  have "\<exists>c. page_run settings_possible settings_step ?evs (settings_mount ''ada'' ''web'' (Some ada) True True) = Some c
      \<and> settings_possible c (User RsDelete) \<and> mc_sent c = [] \<and> mc_mutations c = [] \<and> rs_owner (mc_world c) = ''ada'' \<and> rs_repo (mc_world c) = ''web''"
    by (simp add: page_eval settings_eval settings_possible_def RepoSettingsPage_view_def web_repo_def)
  then obtain c where c: "page_run settings_possible settings_step ?evs (settings_mount ''ada'' ''web'' (Some ada) True True) = Some c"
      "settings_possible c (User RsDelete)" "mc_sent c = []" "mc_mutations c = []" "rs_owner (mc_world c) = ''ada''" "rs_repo (mc_world c) = ''web''"
    by blast
  have "list_all (stays \<circ> settings_act) (User RsDelete # ?evs)" by (simp add: settings_act_def)
  from conjunct1 [OF settings_requests [OF c(1) this c(2)]] c show ?thesis by auto
qed

text \<open>What is sent for a deletion that waits: what the page has rendered last.\<close>

lemma settings_run:
  assumes "page_run settings_possible settings_step evs (settings_mount owner repo u online focused) = Some c"
  shows "unscoped_client c \<and> counted c \<and> length (mc_observers c) = 2"
  using settings_plain.run_unscoped [OF assms [unfolded settings_mount_def settings_step_def [abs_def]] act_possible_settings]
  by (simp add: settings_hooks_def)

lemma settings_rendered:
  assumes "page_run settings_possible settings_step evs (settings_mount owner repo u online focused) = Some c"
    and "mc_mutations c \<noteq> []"
  shows "\<exists>d. c = render_hooks settings_hooks d"
proof (cases evs rule: rev_cases)
  case Nil
  with assms show ?thesis by (auto simp: settings_mount_def)
next
  case (snoc evs' ev)
  with assms(1) show ?thesis
    by (auto simp: page_run_append settings_step_def page_step_def split: option.splits if_splits)
qed

text \<open>A deletion that waits before its start, of the second hook of the page, which is still shown.\<close>

definition deletion_waits :: "repo_settings api_page \<Rightarrow> nat \<Rightarrow> bool" where
  "deletion_waits c i \<longleftrightarrow> mb_listening (mc_observers c ! 1) \<and> mb_current (mc_observers c ! 1) = Some i \<and>
     i \<in> set (mc_set c) \<and> mu_phase (mc_mutations c ! i) = MPausedStart"

lemma waiting_deletion_sends:
  assumes "unscoped_client c" "counted c" "length (mc_observers c) = 2" "c = render_hooks settings_hooks d"
    and "deletion_waits c i" "mc_focused c"
  shows "requests (settings_step (Network True) c) i = [deleteRepo (rs_owner (mc_world c)) (rs_repo (mc_world c))]"
  using settings_plain.waiting_sends [OF assms(1,2,4), of 1 i] assms(3,5,6)
  by (simp add: settings_step_def settings_act_def settings_hooks_def delete_mutation_def deletion_waits_def)

text \<open>C23. A deletion that waits for the network deletes the repository that is shown when the network
  returns, which need not be the one whose name was typed. Whatever has happened before, nothing has
  been sent while it waits; the return of the network sends the deletion of the repository of the route;
  and when the address has changed to another repository before, as by the back button, the same
  mutation, confirmed for the one, sends the deletion of the other.\<close>

theorem paused_delete_other_repo:
  assumes "page_run settings_possible settings_step evs (settings_mount owner repo u online focused) = Some c"
    and "deletion_waits c i" and "mc_focused c"
  shows "requests c i = []
    \<and> requests (settings_step (Network True) c) i = [deleteRepo (rs_owner (mc_world c)) (rs_repo (mc_world c))]
    \<and> requests (settings_step (Network True) (settings_step (Route owner' repo') c)) i = [deleteRepo owner' repo']"
proof (intro conjI)
  let ?c = "settings_step (Route owner' repo') c"
  let ?d = "on_world (\<lambda>w. w\<lparr>rs_owner := owner', rs_repo := repo'\<rparr>) c"
  have c: "unscoped_client c" "counted c" "length (mc_observers c) = 2" using settings_run [OF assms(1)] by simp_all
  have i: "i < length (mc_mutations c)" using c(2) assms(2) by (auto simp: deletion_waits_def counted_def cache_ok_def cached_def)
  have "mut_ok (sends c i) (mc_mutations c ! i)" using c(2) i by (simp add: counted_def sends_ok_nth)
  then show "requests c i = []" using assms(2) by (simp add: mut_ok_def deletion_waits_def requests_none)
  have "mc_mutations c \<noteq> []" using i by auto
  with settings_rendered [OF assms(1)] waiting_deletion_sends [OF c _ assms(2,3)]
  show "requests (settings_step (Network True) c) i = [deleteRepo (rs_owner (mc_world c)) (rs_repo (mc_world c))]" by blast
  have d: "?c = render_hooks settings_hooks ?d" by (simp add: settings_step_def page_step_def settings_act_def)
  note p = progressD [OF render_progress [of ?d settings_hooks, folded d]]
  have fields: "mc_mutations ?d = mc_mutations c" "mc_observers ?d = mc_observers c" "mc_set ?d = mc_set c" "mc_focused ?d = mc_focused c"
    "mc_world ?d = (mc_world c)\<lparr>rs_owner := owner', rs_repo := repo'\<rparr>" by (simp_all add: on_world_def)
  have "deletion_waits ?c i" "mc_focused ?c" using assms(2,3) p i c(3) by (simp_all add: deletion_waits_def fields)
  moreover have "unscoped_client ?c" "counted ?c" "length (mc_observers ?c) = 2"
    using settings_plain.step_unscoped [of c "settings_act (Route owner' repo')"] c
    by (simp_all add: settings_step_def settings_act_def page_step_length)
  ultimately have "requests (settings_step (Network True) ?c) i = [deleteRepo (rs_owner (mc_world ?c)) (rs_repo (mc_world ?c))]"
    by (intro waiting_deletion_sends [OF _ _ _ d])
  then show "requests (settings_step (Network True) ?c) i = [deleteRepo owner' repo']" by (simp only: p(7) fields(5)) simp
qed

text \<open>A visitor who is offline deletes a repository, whose name has been typed.\<close>

definition delete_offline :: "repository \<Rightarrow> settings_event page_event list" where
  "delete_offline r = [Loaded (loaded r), User (RsSection True), User RsOpenModal, User (RsConfirm (rp_name r)), User RsDelete]"

lemma delete_offline_run:
  "\<exists>c. page_run settings_possible settings_step (delete_offline r) (settings_mount owner (rp_name r) (Some (rp_owner r)) False True) = Some c
     \<and> deletion_waits c 0 \<and> mc_focused c \<and> rs_owner (mc_world c) = owner \<and> rs_repo (mc_world c) = rp_name r"
  by (simp add: delete_offline_def page_eval settings_eval settings_possible_def RepoSettingsPage_view_def deletion_waits_def)

theorem paused_delete_other_repo_witness:
  "\<exists>c. page_run settings_possible settings_step (delete_offline web_repo) (settings_mount ''ada'' ''web'' (Some ada) False True) = Some c
     \<and> requests (settings_step (Network True) c) 0 = [deleteRepo ''ada'' ''web'']
     \<and> requests (settings_step (Network True) (settings_step (Route ''ada'' ''engine'') c)) 0 = [deleteRepo ''ada'' ''engine'']"
proof -
  have r: "rp_name web_repo = ''web''" "rp_owner web_repo = ada" by (simp_all add: web_repo_def)
  obtain c where c: "page_run settings_possible settings_step (delete_offline web_repo) (settings_mount ''ada'' ''web'' (Some ada) False True) = Some c"
      "deletion_waits c 0" "mc_focused c" "rs_owner (mc_world c) = ''ada''" "rs_repo (mc_world c) = ''web''"
    using delete_offline_run [of web_repo "''ada''"] unfolding r by blast
  from paused_delete_other_repo [OF c(1-3)] c show ?thesis by simp
qed

section \<open>A new repository\<close>

lemma slug_plain:
  assumes "rx_match SLUG_RE name"
  shows "plain_seg name"
proof -
  have s: "name \<noteq> []" "\<And>c. c \<in> set name \<Longrightarrow> slug_char c \<or> c = CHR ''-''"
    using assms slug_lang [of name] by (simp_all add: rx_match_lang)
  have "\<not> slug_char c" if "c \<in> set ''/?#%.''" for c
  proof -
    have "list_all (\<lambda>c. \<not> slug_char c) ''/?#%.''" by code_simp
    with that show ?thesis by (auto simp: list_all_iff)
  qed
  then have no: "c \<noteq> CHR ''/'' \<and> c \<noteq> CHR ''?'' \<and> c \<noteq> CHR ''#'' \<and> c \<noteq> CHR ''%'' \<and> c \<noteq> CHR ''.''" if "c \<in> set name" for c
    using s(2) [OF that] by auto
  have line: "\<not> is_line_terminator c" if "c \<in> set name" for c
    using s(2) [OF that] by (auto simp: slug_char_def is_lower_az_def is_digit_def is_line_terminator_def Let_def)
  show ?thesis using s(1) no line by (auto simp: plain_seg_def list_all_iff)
qed



section \<open>Access tokens\<close>

definition scopes_ok :: "tokens_page \<Rightarrow> bool" where
  "scopes_ok w \<longleftrightarrow> distinct (tk_scopes w) \<and> set (tk_scopes w) \<subseteq> set SCOPES"

text \<open>The requests of the page: a token with scopes there are, each once, or the end of a token.\<close>

definition scoped :: "endpoint \<Rightarrow> bool" where
  "scoped r \<longleftrightarrow> (\<exists>name scopes expires. r = createPAT name scopes expires \<and> distinct scopes \<and> set scopes \<subseteq> set SCOPES)
     \<or> (\<exists>ident. r = revokePAT ident)"

lemma toggleScope_ok: "distinct ss \<Longrightarrow> set ss \<subseteq> A \<Longrightarrow> s \<in> A \<Longrightarrow> distinct (toggleScope s ss) \<and> set (toggleScope s ss) \<subseteq> A"
  by (auto simp: toggleScope_def)

lemma scopedI [intro]:
  "distinct scopes \<Longrightarrow> set scopes \<subseteq> set SCOPES \<Longrightarrow> scoped (createPAT name scopes expires)" "scoped (revokePAT ident)"
  by (auto simp: scoped_def)

interpretation tokens_lawful: lawful_page "tokens_hooks ck" scopes_ok scoped for ck
proof
  fix h :: "tokens_page \<Rightarrow> tokens_page api_mutation" and w
  assume h: "h \<in> set (tokens_hooks ck)" and w: "scopes_ok w"
  have "distinct SCOPES" by code_simp
  with h w show "lawful scopes_ok scoped (h w)"
    by (auto simp: lawful_def account_page_defs scopes_ok_def)
qed

lemma token_view_offers: "offers (token_view d t) = [TkAskRevoke (at_id t)]"
  by (auto simp: token_view_def comp_def split: option.splits)

lemma reveal_offers: "set (offers (TokenReveal b j u)) \<subseteq> {TkCopy}"
  by (auto simp: TokenReveal_def member_view_def split: option.splits)

lemma tokens_offers:
  assumes "e \<in> set (offers (TokensPage_view d c))"
  shows "e \<in> {TkCopy, TkCancel} \<or> (\<exists>s. e = TkScope s \<and> s \<in> set SCOPES) \<or> (\<exists>i. e = TkAskRevoke i)
    \<or> (e = TkCreate \<and> trim (tk_name (mc_world c)) \<noteq> [] \<and> tk_scopes (mc_world c) \<noteq> [])
    \<or> (\<exists>i. e = TkRevoke i \<and> tk_revoke (mc_world c) = Some i)"
  using assms
  by (auto simp: TokensPage_view_def Let_def when_view_def token_view_offers split: if_splits option.splits
      dest!: subsetD [OF reveal_offers])

lemma tokens_acts:
  assumes "tokens_possible d c ev"
  shows "act_possible c (tokens_act ev) \<and> act_keeps scopes_ok (tokens_act ev)"
proof
  show "act_possible c (tokens_act ev)" using assms by (simp add: tokens_possible_def)
  have "s \<in> set SCOPES" if "ev = TUser (TkScope s)" for s
    using assms that tokens_offers [of "TkScope s" d c] by (auto simp: tokens_possible_def)
  then show "act_keeps scopes_ok (tokens_act ev)"
    by (auto simp: tokens_act_def scopes_ok_def toggleScope_ok split: tokens_page_event.split tokens_event.split)
qed

definition tokens_mount :: "clock \<Rightarrow> user option \<Rightarrow> nat \<Rightarrow> bool \<Rightarrow> bool \<Rightarrow> tokens_page api_page" where
  "tokens_mount ck u now online focused = mount_hooks (tokens_hooks ck) (tokens_start u now) online focused"

text \<open>C19. Whatever is clicked and however requests are answered, delayed and resumed, with or without
  network, the page of access tokens never asks for a scope that does not exist or asks for one
  twice.\<close>

theorem tokens_never_overreach:
  assumes "page_run (tokens_possible d) (tokens_step ck) evs (tokens_mount ck u now online focused) = Some c"
  shows "list_all (\<lambda>(i, r). scoped r) (mc_sent c)"
proof -
  have "distinct SCOPES" by code_simp
  then have "scopes_ok (tokens_start u now)" by (simp add: scopes_ok_def tokens_start_def)
  with assms have "law_abiding scopes_ok scoped c"
    unfolding tokens_mount_def tokens_step_def [abs_def] by (rule tokens_lawful.run_abiding) (rule tokens_acts)
  then show ?thesis by (simp add: law_abiding_def)
qed

text \<open>C20. While the network is there, a token is asked for only by a press of \<open>Generate token\<close>, with a name
  that is not blank and at least one scope, and ended only by a press in the dialog, the one the
  dialog was opened for; each press sends one request and no other event sends any.\<close>

theorem tokens_requests:
  assumes "page_run (tokens_possible d) (tokens_step ck) evs (tokens_mount ck u now True focused) = Some c"
    and "list_all (stays \<circ> tokens_act) (ev # evs)" and "tokens_possible d c ev"
  shows "map snd (mc_sent (tokens_step ck ev c)) = map snd (mc_sent c) @ (case ev of
       TUser TkCreate \<Rightarrow> [createPAT (tk_name (mc_world c)) (tk_scopes (mc_world c)) (Some (case expiresAtFromOption ck
         (tk_now (mc_world c)) (tk_expiration (mc_world c)) (tk_custom (mc_world c)) of None \<Rightarrow> JNull | Some t \<Rightarrow> JStr t))]
     | TUser (TkRevoke ident) \<Rightarrow> [revokePAT ident]
     | _ \<Rightarrow> [])
   \<and> (ev = TUser TkCreate \<longrightarrow> trim (tk_name (mc_world c)) \<noteq> [] \<and> tk_scopes (mc_world c) \<noteq> [])
   \<and> (\<forall>ident. ev = TUser (TkRevoke ident) \<longrightarrow> tk_revoke (mc_world c) = Some ident)"
proof (intro conjI)
  have "prompt (tokens_hooks ck) c"
    by (rule tokens_plain.prompt_run [OF assms(1) [unfolded tokens_mount_def tokens_step_def [abs_def]]])
       (use assms(2) tokens_acts in \<open>auto simp: list_all_iff\<close>)
  then have "mc_sent (tokens_step ck ev c) = mc_sent c @ sent_by (tokens_hooks ck) c (tokens_act ev)"
    using assms(2,3) tokens_acts [OF assms(3)] by (simp add: tokens_step_def tokens_plain.prompt_step)
  then show "map snd (mc_sent (tokens_step ck ev c)) = map snd (mc_sent c) @ (case ev of
       TUser TkCreate \<Rightarrow> [createPAT (tk_name (mc_world c)) (tk_scopes (mc_world c)) (Some (case expiresAtFromOption ck
         (tk_now (mc_world c)) (tk_expiration (mc_world c)) (tk_custom (mc_world c)) of None \<Rightarrow> JNull | Some t \<Rightarrow> JStr t))]
     | TUser (TkRevoke ident) \<Rightarrow> [revokePAT ident]
     | _ \<Rightarrow> [])"
    by (auto simp: tokens_act_def account_page_defs split: tokens_page_event.split tokens_event.split)
  show "ev = TUser TkCreate \<longrightarrow> trim (tk_name (mc_world c)) \<noteq> [] \<and> tk_scopes (mc_world c) \<noteq> []"
    using assms(3) tokens_offers [of TkCreate d c] by (auto simp: tokens_possible_def)
  show "\<forall>ident. ev = TUser (TkRevoke ident) \<longrightarrow> tk_revoke (mc_world c) = Some ident"
    using assms(3) tokens_offers [of "TkRevoke _" d c] by (auto simp: tokens_possible_def)
qed

lemmas tokens_eval = tokens_step_def tokens_mount_def tokens_hooks_def tokens_act_def create_token_mutation_def revoke_mutation_def
  tokens_start_def tokens_possible_def TokensPage_view_def SCOPES_def toggleScope_def

definition plain_clock :: clock where
  "plain_clock = \<lparr>ck_add_days = \<lambda>now n. ''2024-06-01'', ck_add_years = \<lambda>now n. ''2025-05-01'', ck_iso = \<lambda>t. t\<rparr>"

definition read_only :: "tokens_page_event list" where
  "read_only = [TUser (TkName ''ci''), TUser (TkScope ''repo:write''), TLoaded (loaded [])]"

lemma read_only_run:
  "\<exists>c. page_run (tokens_possible plain_dates) (tokens_step plain_clock) read_only (tokens_mount plain_clock None 0 True True) = Some c
     \<and> tokens_possible plain_dates c (TUser TkCreate) \<and> mc_sent c = [] \<and> tk_name (mc_world c) = ''ci'' \<and> tk_scopes (mc_world c) = [''repo:read'']
     \<and> tk_expiration (mc_world c) = ''never''"
proof -
  have "trim ''ci'' = ''ci''" by code_simp
  then show ?thesis by (simp add: page_eval tokens_eval read_only_def error_view_def loaded_def or_nil_def)
qed

theorem tokens_requests_witness:
  "\<exists>c. page_run (tokens_possible plain_dates) (tokens_step plain_clock) read_only (tokens_mount plain_clock None 0 True True) = Some c
     \<and> map snd (mc_sent (tokens_step plain_clock (TUser TkCreate) c)) = [createPAT ''ci'' [''repo:read''] (Some JNull)]"
proof -
  obtain c where c: "page_run (tokens_possible plain_dates) (tokens_step plain_clock) read_only (tokens_mount plain_clock None 0 True True) = Some c"
      "tokens_possible plain_dates c (TUser TkCreate)" "mc_sent c = []" "tk_name (mc_world c) = ''ci''"
      "tk_scopes (mc_world c) = [''repo:read'']" "tk_expiration (mc_world c) = ''never''"
    using read_only_run by blast
  have "list_all (stays \<circ> tokens_act) (TUser TkCreate # read_only)" by (simp add: tokens_act_def read_only_def)
  from conjunct1 [OF tokens_requests [OF c(1) this c(2)]] c show ?thesis by (auto simp: expiresAtFromOption_def)
qed

theorem tokens_never_overreach_witness:
  "\<exists>c. page_run (tokens_possible plain_dates) (tokens_step plain_clock) (read_only @ [TUser TkCreate]) (tokens_mount plain_clock None 0 True True) = Some c
     \<and> list_all (\<lambda>(i, r). scoped r) (mc_sent c)"
proof -
  have run: "page_run poss step (evs @ evs') c = (case page_run poss step evs c of None \<Rightarrow> None | Some c' \<Rightarrow> page_run poss step evs' c')"
    for poss :: "tokens_page api_page \<Rightarrow> tokens_page_event \<Rightarrow> bool" and step evs evs' c
    by (induction evs arbitrary: c) simp_all
  have "\<exists>c. page_run (tokens_possible plain_dates) (tokens_step plain_clock) (read_only @ [TUser TkCreate]) (tokens_mount plain_clock None 0 True True) = Some c"
    using read_only_run by (auto simp: run)
  then show ?thesis using tokens_never_overreach by blast
qed

section \<open>The profile\<close>

definition keeps_fields :: "endpoint \<Rightarrow> bool" where
  "keeps_fields r \<longleftrightarrow> (\<exists>ms. r = updateProfile ms \<and> list_all (\<lambda>(k, v). v \<noteq> Some (JStr []) \<and> v \<noteq> Some JNull) ms)"

interpretation profile_lawful: lawful_page profile_hooks "\<lambda>w. True" keeps_fields
  by unfold_locales (auto simp: lawful_def account_page_defs keeps_fields_def profile_fields_def text_or_undefined_def)

lemma render_world [simp]: "mc_world (render_hooks hs c) = mc_world c"
proof -
  have "mc_world (fold (render_hook hs) bs c) = mc_world c" for bs
    by (induction bs arbitrary: c) (simp_all add: render_hook_def setOptions_observers)
  then show ?thesis by (simp add: render_hooks_def)
qed

lemma answer_world:
  assumes "mo_scope (mu_options (mc_mutations c ! i)) = None" and "i < length (mc_mutations c)"
  shows "mc_world (mu_answer i (Inl d) c) =
    (case mo_onSuccess (mu_options (mc_mutations c ! i)) d (mu_variables (mc_mutations c ! i)) (mc_world c) of
       (w, None) \<Rightarrow> w | (w, Some e) \<Rightarrow> mo_onError (mu_options (mc_mutations c ! i)) e (mu_variables (mc_mutations c ! i)) w)"
  using assms by (simp add: mu_answer_def mu_resolved_def mu_rejected_def Let_def runNext_def scopeFor_def split: prod.split option.split)

lemma profile_user_store [simp]: "pf_store (profile_user w) = pf_store w"
  by (simp add: profile_user_def Let_def)

lemma profile_success_store:
  assumes "js_truthy (auth_field (pf_store p) ''token'')"
  shows "pf_store (fst (profile_success p u w)) = snd (store_login (auth_field (pf_store p) ''token'') (js_of u) (pf_store w))"
  using assms by (auto simp: profile_success_def Let_def profile_saved_def split: prod.split outcome.split)

lemmas profile_eval = profile_step_def profile_mount_def profile_hooks_def profile_act_def profile_mutation_def

lemma saved_then_left:
  "\<exists>c. page_run profile_possible profile_step [PUser PfSave, PSignOut] (profile_mount s True True) = Some c
     \<and> mc_world c = (profile_start s)\<lparr>pf_store := snd (auth_logout s)\<rparr> \<and> length (mc_mutations c) = 1
     \<and> mu_phase (mc_mutations c ! 0) = MRunning \<and> mu_options (mc_mutations c ! 0) = profile_mutation (profile_start s)"
  by (simp add: profile_eval page_eval profile_possible_def SettingsPage_view_def when_view_def mb_unsubscribe_def
      mu_removeObserver_def mcache_clear_def) (simp add: profile_start_def)

text \<open>C24. An answer signs in again: when the profile has been sent and the visitor signs out before the
  answer, the answer signs in with the token that was signed out.\<close>

theorem profile_signs_in_again:
  assumes "js_truthy (auth_field s ''token'')"
  shows "\<exists>c c'. page_run profile_possible profile_step [PUser PfSave, PSignOut] (profile_mount s True True) = Some c
    \<and> \<not> is_authenticated (pf_store (mc_world c))
    \<and> page_run profile_possible profile_step [PAnswer 0 (Inl updated)] c = Some c'
    \<and> is_authenticated (pf_store (mc_world c')) \<and> auth_field (pf_store (mc_world c')) ''token'' = auth_field s ''token''"
proof -
  obtain c where c: "page_run profile_possible profile_step [PUser PfSave, PSignOut] (profile_mount s True True) = Some c"
      "mc_world c = (profile_start s)\<lparr>pf_store := snd (auth_logout s)\<rparr>" "length (mc_mutations c) = 1"
      "mu_phase (mc_mutations c ! 0) = MRunning" "mu_options (mc_mutations c ! 0) = profile_mutation (profile_start s)"
    using saved_then_left by blast
  let ?c' = "profile_step (PAnswer 0 (Inl updated)) c"
  have start: "pf_store (profile_start s) = s" by (simp add: profile_start_def)
  have "pf_store (mc_world ?c') = snd (store_login (auth_field s ''token'') (js_of updated) (snd (auth_logout s)))"
    using profile_success_store [of "profile_start s" updated "mc_world c"] assms c start
    by (auto simp: profile_step_def profile_act_def page_step_def answer_world profile_mutation_def split: prod.splits option.splits)
  moreover have "page_run profile_possible profile_step [PAnswer 0 (Inl updated)] c = Some ?c'"
    using c by (simp add: profile_possible_def profile_act_def)
  ultimately show ?thesis using c start store_login_fields logout_fields by auto
qed

text \<open>What the visitor does to change the whole profile.\<close>

definition typed_save :: "string \<Rightarrow> string \<Rightarrow> string \<Rightarrow> profile_page_event list" where
  "typed_save name bio avatar = [PUser (PfName name), PUser (PfBio bio), PUser (PfAvatar avatar), PUser PfSave]"

lemma act_possible_profile: "profile_possible c ev \<Longrightarrow> act_possible c (profile_act ev)"
  by (simp add: profile_possible_def)

lemma profile_edit:
  assumes "prompt profile_hooks c" and "profile_act ev = Edit f"
  shows "prompt profile_hooks (profile_step ev c)" "mc_sent (profile_step ev c) = mc_sent c" "mc_world (profile_step ev c) = f (mc_world c)"
    "length (mc_mutations (profile_step ev c)) = length (mc_mutations c)"
  using profile_plain.prompt_step [OF assms(1), of "Edit f"]
  by (simp_all add: profile_step_def assms(2)) (simp_all add: page_step_def progressD(1,7) [OF render_progress] on_world_def)

lemma sent_profile:
  assumes "prompt profile_hooks c" and "page_run profile_possible profile_step (typed_save name bio avatar) c = Some c'"
  shows "mc_sent c' = mc_sent c @ [(length (mc_mutations c), updateProfile
    [(''display_name'', text_or_undefined name), (''bio'', text_or_undefined bio), (''avatar_url'', text_or_undefined avatar)])]"
proof -
  define c1 where "c1 = profile_step (PUser (PfName name)) c"
  define c2 where "c2 = profile_step (PUser (PfBio bio)) c1"
  define c3 where "c3 = profile_step (PUser (PfAvatar avatar)) c2"
  note e1 = profile_edit [OF assms(1), of "PUser (PfName name)", folded c1_def]
  have c1: "prompt profile_hooks c1" by (rule e1(1)) (simp add: profile_act_def)
  note e2 = profile_edit [OF c1, of "PUser (PfBio bio)", folded c2_def]
  have c2: "prompt profile_hooks c2" by (rule e2(1)) (simp add: profile_act_def)
  note e3 = profile_edit [OF c2, of "PUser (PfAvatar avatar)", folded c3_def]
  have c3: "prompt profile_hooks c3" by (rule e3(1)) (simp add: profile_act_def)
  have c': "c' = profile_step (PUser PfSave) c3" "profile_possible c3 (PUser PfSave)"
    using assms(2) by (simp_all add: typed_save_def c1_def c2_def c3_def split: if_splits)
  have "mc_sent c' = mc_sent c3 @ sent_by profile_hooks c3 (profile_act (PUser PfSave))"
    unfolding c'(1) profile_step_def
    by (rule profile_plain.prompt_step(2) [OF c3 act_possible_profile [OF c'(2)]]) (simp add: profile_act_def)
  moreover have "profile_fields (mc_world c3)
      = [(''display_name'', text_or_undefined name), (''bio'', text_or_undefined bio), (''avatar_url'', text_or_undefined avatar)]"
    using e1(3) e2(3) e3(3) by (simp add: profile_act_def profile_fields_def)
  ultimately show ?thesis using e1(2,4) e2(2,4) e3(2,4) by (simp add: profile_act_def account_page_defs)
qed

text \<open>C25. A profile can be changed and not cleared. While the network is there, a visitor who types a display
  name, a biography and an avatar and saves sends one request, whose body is the object of exactly
  these texts, less those that are empty: a field that has been emptied is left out. And whatever is
  typed and happens, with or without network, the page never sends an empty text nor \<open>null\<close> for a
  field.\<close>

theorem profile_never_cleared:
  assumes "page_run profile_possible profile_step evs (profile_mount s online focused) = Some c"
  shows "list_all (\<lambda>(i, r). keeps_fields r) (mc_sent c)
    \<and> (online \<and> list_all (stays \<circ> profile_act) evs
        \<and> page_run profile_possible profile_step (typed_save name bio avatar) c = Some c'
      \<longrightarrow> (\<exists>r. mc_sent c' = mc_sent c @ [(length (mc_mutations c), r)]
          \<and> c_method (e_config r) = Some ''patch'' \<and> c_url (e_config r) = Some ''/user''
          \<and> c_data (e_config r) = Some (JObj (filter (\<lambda>(k, v). v \<noteq> JStr [])
              [(''display_name'', JStr name), (''bio'', JStr bio), (''avatar_url'', JStr avatar)]))))"
proof (intro conjI impI)
  have "law_abiding (\<lambda>w. True) keeps_fields c"
    by (rule profile_lawful.run_abiding [OF assms [unfolded profile_mount_def profile_step_def [abs_def]]])
       (auto simp: profile_possible_def profile_act_def split: profile_page_event.split profile_event.split)
  then show "list_all (\<lambda>(i, r). keeps_fields r) (mc_sent c)" by (simp add: law_abiding_def)
next
  assume a: "online \<and> list_all (stays \<circ> profile_act) evs
      \<and> page_run profile_possible profile_step (typed_save name bio avatar) c = Some c'"
  then have "page_run profile_possible profile_step evs (mount_hooks profile_hooks (profile_start s) True focused) = Some c"
    using assms by (simp add: profile_mount_def)
  from profile_plain.prompt_run [OF this [unfolded profile_step_def [abs_def]] act_possible_profile] a
  have "prompt profile_hooks c" by (simp add: list_all_iff)
  from sent_profile [OF this] a
  show "\<exists>r. mc_sent c' = mc_sent c @ [(length (mc_mutations c), r)]
      \<and> c_method (e_config r) = Some ''patch'' \<and> c_url (e_config r) = Some ''/user''
      \<and> c_data (e_config r) = Some (JObj (filter (\<lambda>(k, v). v \<noteq> JStr [])
          [(''display_name'', JStr name), (''bio'', JStr bio), (''avatar_url'', JStr avatar)]))"
    by (auto simp: updateProfile_def body_config_def mergeConfig_def empty_config_def json_fields_def text_or_undefined_def map_filter_simps)
qed

definition signed_in_store :: store where
  "signed_in_store = snd (store_login (Data (JStr ''t'')) (Data (JObj [(''bio'', JStr ''hello'')])) (useAuthStore True empty_disk))"

theorem profile_signs_in_again_witness:
  "\<exists>c c'. page_run profile_possible profile_step [PUser PfSave, PSignOut] (profile_mount signed_in_store True True) = Some c
    \<and> page_run profile_possible profile_step [PAnswer 0 (Inl (Some (JObj [])))] c = Some c'
    \<and> auth_field (pf_store (mc_world c')) ''token'' = Data (JStr ''t'')"
proof -
  have t: "auth_field signed_in_store ''token'' = Data (JStr ''t'')" by (simp add: signed_in_store_def store_login_fields)
  then have "js_truthy (auth_field signed_in_store ''token'')" by (simp add: js_truthy_def json_truthy_def)
  from profile_signs_in_again [OF this, of "Some (JObj [])"] show ?thesis unfolding t by blast
qed

theorem profile_never_cleared_witness:
  "\<exists>c r. page_run profile_possible profile_step (typed_save ''Ada'' [] []) (profile_mount signed_in_store True True) = Some c
     \<and> mc_sent c = [(0, r)] \<and> c_data (e_config r) = Some (JObj [(''display_name'', JStr ''Ada'')])"
proof -
  let ?m = "profile_mount signed_in_store True True"
  have "\<exists>c. page_run profile_possible profile_step (typed_save ''Ada'' [] []) ?m = Some c"
    by (simp add: typed_save_def profile_eval page_eval profile_possible_def SettingsPage_view_def when_view_def)
  then obtain c where c: "page_run profile_possible profile_step (typed_save ''Ada'' [] []) ?m = Some c" by blast
  have "page_run profile_possible profile_step [] ?m = Some ?m" "mc_sent ?m = []" "mc_mutations ?m = []" by (simp_all add: profile_mount_def)
  with profile_never_cleared [of "[]" signed_in_store True True ?m "''Ada''" "[]" "[]" c] c show ?thesis by auto
qed

end
