(* ===== verification/AppDates.thy ===== *)
theory AppDates
  imports DateTexts RepoFacts AccountFacts
begin

text \<open>
  The dates of the application: the pages' \<open>format\<close>, \<open>formatDistanceToNow\<close>, \<open>addDays\<close> and \<open>addYears\<close> are
  those of the date library, on the \<open>Date\<close> that \<open>new Date\<close> makes of a text of the API. The arguments are
  what the engine makes of texts that are not in ISO format, and the environment of the date library.
\<close>

definition browser_dates :: "(string \<Rightarrow> js_date) \<Rightarrow> date_env \<Rightarrow> dates" where
  "browser_dates engine E = \<lparr>d_format = \<lambda>s pattern. df_format E (js_parse engine (de_zone E) s) pattern None,
     d_ago = \<lambda>s. formatDistanceToNow E (js_parse engine (de_zone E) s) True False\<rparr>"

text \<open>\<open>toISOString\<close>; it throws for an invalid date, which the dates below are not.\<close>

definition iso_string :: "js_date \<Rightarrow> string" where
  "iso_string d = (case js_toISOString d of None \<Rightarrow> [] | Some s \<Rightarrow> s)"

definition browser_clock :: "(string \<Rightarrow> js_date) \<Rightarrow> date_env \<Rightarrow> clock" where
  "browser_clock engine E =
     \<lparr>ck_add_days = \<lambda>now n. iso_string (addDays E (new_Date (Some (int now))) (Some (int n))),
      ck_add_years = \<lambda>now n. iso_string (addYears E (new_Date (Some (int now))) (Some (int n))),
      ck_iso = \<lambda>s. iso_string (js_parse engine (de_zone E) s)\<rparr>"

section \<open>Commits\<close>

definition commit_date :: "(string \<Rightarrow> js_date) \<Rightarrow> date_env \<Rightarrow> commit_response \<Rightarrow> js_date" where
  "commit_date engine E c = js_parse engine (de_zone E) (ca_date (co_author c))"

text \<open>A date with a year after Christ whose day \<open>Date\<close> can start.\<close>

definition has_day :: "date_env \<Rightarrow> js_date \<Rightarrow> bool" where
  "has_day E d = (case d of None \<Rightarrow> False | Some t \<Rightarrow> 1 \<le> yearOf E t \<and> in_range (day_start E (dayNumber E t)))"

lemma has_dayE:
  assumes "has_day E d"
  obtains t where "d = Some t" "1 \<le> yearOf E t" "in_range (day_start E (dayNumber E t))"
  using assms by (auto simp: has_day_def split: option.splits)

text \<open>The groups of a list hold its elements, and two elements share a group when they have the same key.\<close>

lemma mset_groups: "distinct ks \<Longrightarrow> mset (concat (map (\<lambda>k. filter (\<lambda>c. key c = k) cs) ks)) = filter_mset (\<lambda>c. key c \<in> set ks) (mset cs)"
proof (induction ks)
  case (Cons k ks)
  have "{#c \<in># mset cs. key c = k \<or> key c \<in> set ks#} = {#c \<in># mset cs. key c = k#} + {#c \<in># mset cs. key c \<in> set ks#}"
    using Cons.prems by (intro multiset_eqI) auto
  with Cons show ?case by simp
qed simp

lemma grouped_mset: "mset (concat (map snd (grouped key cs))) = mset cs"
proof -
  have "filter (\<lambda>c. key c \<in> key ` set cs) cs = cs" by (simp add: filter_id_conv)
  then have "{#c \<in># mset cs. key c \<in> key ` set cs#} = mset cs" by (metis mset_filter)
  moreover have "map snd (grouped key cs) = map (\<lambda>k. filter (\<lambda>c. key c = k) cs) (first_occurrences (map key cs))"
    by (simp add: grouped_def)
  ultimately show ?thesis using mset_groups [of "first_occurrences (map key cs)" key cs] by simp
qed

lemma grouped_together: "a \<in> set cs \<Longrightarrow> b \<in> set cs \<Longrightarrow>
    (\<exists>g \<in> set (grouped key cs). a \<in> set (snd g) \<and> b \<in> set (snd g)) \<longleftrightarrow> key a = key b"
  by (auto simp: grouped_def)

lemma commit_day_text:
  "commit_date engine E c = Some t \<Longrightarrow> commit_day (browser_dates engine E) c = Some (day_text E t)"
  by (simp add: commit_day_def browser_dates_def commit_date_def format_day)


definition commit_at :: "string \<Rightarrow> commit_response" where
  "commit_at t = (let ada = \<lparr>ca_name = ''ada'', ca_email = [], ca_date = t\<rparr>
     in \<lparr>co_sha = t, co_message = [], co_author = ada, co_committer = ada, co_parents = [], co_html_url = []\<rparr>)"


section \<open>When a token expires\<close>

lemma iso_string_Some [simp]: "iso_string (Some t) = iso_text t"
  by (simp add: iso_string_def js_toISOString_def)

lemma TimeClip_range: "TimeClip u = Some t \<Longrightarrow> in_range t"
  by (simp add: TimeClip_Some)

lemma year_later_day:
  assumes "0 \<le> m" "m \<le> 11" "1 \<le> d" "d \<le> days_in_month y m" "1 \<le> d'" "d' \<le> days_in_month (y + 1) m"
  shows "MakeDay y m d \<le> MakeDay (y + 1) m d'" "MakeDay (y + 1) m d' \<le> MakeDay y m d + 400"
proof -
  have day: "MakeDay x m k = DayFromYear x + month_start (leap x) m + k - 1" for x k
    using assms(1,2) by (simp add: MakeDay_def Let_def)
  have "\<bar>month_start (leap (y + 1)) m - month_start (leap y) m\<bar> \<le> 1" by (simp add: month_start_def)
  moreover have "d' \<le> 31" "d \<le> 31" using assms days_in_month_bounds [OF assms(1,2)] by (meson order_trans)+
  moreover have "DayFromYear y + 365 \<le> DayFromYear (y + 1)" "DayFromYear (y + 1) \<le> DayFromYear y + 366"
    by (simp_all add: DayFromYear_step)
  ultimately show "MakeDay y m d \<le> MakeDay (y + 1) m d'" "MakeDay (y + 1) m d' \<le> MakeDay y m d + 400"
    using assms(3,5) unfolding day by (simp_all add: abs_le_iff)
qed

text \<open>A date that is set within 400 days after a time can be held when the time is not at the end of time.\<close>

lemma fixed_set_later:
  assumes "0 \<le> t" "t + 400 * msPerDay \<le> max_time"
    "Day (LocalTime (fixed_zone off) t) \<le> d" "d \<le> Day (LocalTime (fixed_zone off) t) + 400"
  shows "\<exists>u. js_setTime (fixed_zone off) d (TimeWithinDay (LocalTime (fixed_zone off) t)) = Some u"
proof -
  let ?l = "LocalTime (fixed_zone off) t"
  have l: "?l = Day ?l * msPerDay + TimeWithinDay ?l" using MakeDate_Day [of ?l] by (simp add: MakeDate_def)
  have "UTC (fixed_zone off) (MakeDate d (TimeWithinDay ?l)) = t + (d - Day ?l) * msPerDay"
    using l by (simp add: UTC_def LocalTime_def fixed_zone_def MakeDate_def algebra_simps)
  moreover have "0 \<le> (d - Day ?l) * msPerDay" "(d - Day ?l) * msPerDay \<le> 400 * msPerDay"
    using assms(3,4) by (simp_all add: msPerDay_def)
  ultimately show ?thesis using assms(1,2) by (simp add: js_setTime_def TimeClip_def)
qed

lemma add_year_exists:
  assumes z: "de_zone E = fixed_zone off" and t: "0 \<le> t" "t + 400 * msPerDay \<le> max_time"
  shows "\<exists>t'. addYears E (Some t) (Some 1) = Some t'"
proof -
  let ?z = "fixed_zone off"
  define l where "l = LocalTime ?z t"
  define y m where "y = YearFromTime l" and "m = MonthFromTime l"
  note m = fields_bounds(1,2) [of l, folded m_def]
  note d = fields_bounds(3,4) [of l, folded y_def m_def]
  have dim: "1 \<le> days_in_month (y + 1) m" using days_in_month_bounds [OF m, of "y + 1"] by simp
  have month: "(m + 12) div 12 = 1" "m mod 12 = m" using m by (simp_all add: div_add_self2)
  have c: "constructFrom (Some t) (Some t) = Some t" using t by (simp add: constructFrom_def new_Date_def TimeClip_def msPerDay_def)
  define e where "e = js_setMonth2 ?z (constructFrom (Some t) (Some t)) (13 + m) 0"
  have e: "e = js_setTime ?z (MakeDay (y + 1) m (days_in_month (y + 1) m)) (TimeWithinDay l)"
    using month_end_day [of y "m + 12"]
    by (simp add: e_def c js_setMonth2_def l_def [symmetric] y_def [symmetric] month)
  note later = fixed_set_later [OF t, of off, folded l_def] year_later_day [OF m d]
  have day: "Day l = MakeDay y m (DateFromTime l)" by (simp add: y_def m_def MakeDay_fields)
  have ex: "\<exists>u. js_setTime ?z (MakeDay (y + 1) m d') (TimeWithinDay l) = Some u" if "1 \<le> d'" "d' \<le> days_in_month (y + 1) m" for d'
    using later(1) [of "MakeDay (y + 1) m d'"] later(2,3) [OF that] day by simp
  obtain u where u: "e = Some u" using ex [OF dim order_refl] e by auto
  note eu = fixed_set [OF e [unfolded u, symmetric] time_within m dim order_refl]
  have res: "addYears E (Some t) (Some 1) =
      (if DateFromTime l \<ge> days_in_month (y + 1) m then e else js_setTime ?z (MakeDay (y + 1) m (DateFromTime l)) (TimeWithinDay l))"
  proof -
    have "addYears E (Some t) (Some 1) = do {
        k \<leftarrow> js_getDate ?z e;
        if DateFromTime l \<ge> k then e else do {y' \<leftarrow> js_getFullYear ?z e; m' \<leftarrow> js_getMonth ?z e; js_setFullYear3 ?z (Some t) y' m' (DateFromTime l)}}"
      unfolding e_def m_def l_def by (simp add: addYears_def num_times_def addMonths_def z Let_def js_getDate_def js_getMonth_def)
    with u show ?thesis
      by (simp add: js_getDate_def js_getMonth_def js_getFullYear_def js_setFullYear3_def eu l_def [symmetric])
  qed
  show ?thesis
  proof (cases "DateFromTime l \<ge> days_in_month (y + 1) m")
    case True
    with res u show ?thesis by auto
  next
    case False
    with res ex [of "DateFromTime l"] d(1) show ?thesis by auto
  qed
qed

text \<open>C21. The expiry that \<open>TokensPage\<close> sends is the one that was chosen: in a time zone of fixed offset,
  the server reads from the text of \<open>30 days\<close> and \<open>90 days\<close> the instant so many times 24 hours from now, and
  from that of \<open>1 year\<close> the instant twelve months from now, at the same time of the day and on the same
  day of the month, or on the last when the month is shorter; whatever the engine's own date formats are.\<close>

theorem token_expiry:
  assumes "de_zone E = fixed_zone off" "int now + 400 * msPerDay \<le> max_time"
  shows "(\<exists>s. expiresAtFromOption (browser_clock engine E) now ''30d'' c = Some s
      \<and> js_parse server utc_zone s = Some (int now + 30 * msPerDay))
    \<and> (\<exists>s. expiresAtFromOption (browser_clock engine E) now ''90d'' c = Some s
      \<and> js_parse server utc_zone s = Some (int now + 90 * msPerDay))
    \<and> (\<exists>s t. expiresAtFromOption (browser_clock engine E) now ''1y'' c = Some s \<and> js_parse server utc_zone s = Some t
      \<and> monthNumber E t = monthNumber E (int now) + 12
      \<and> dateOf E t = min (dateOf E (int now)) (days_in_month (yearOf E t) (monthOf E t))
      \<and> TimeWithinDay (LocalTime (de_zone E) t) = TimeWithinDay (LocalTime (de_zone E) (int now)))"
proof -
  have r: "in_range (int now + k * msPerDay)" if "0 \<le> k" "k \<le> 400" for k
    using assms(2) that by (simp add: in_range_def msPerDay_def)
  from r [of 0] have now: "new_Date (Some (int now)) = Some (int now)" by (simp add: new_Date_def)
  obtain t where t: "addYears E (Some (int now)) (Some 1) = Some t"
    using add_year_exists [OF assms(1) _ assms(2)] by auto
  then have months: "addMonths E (Some (int now)) (Some 12) = Some t" by (simp add: addYears_def num_times_def)
  then have "in_range t"
    by (auto simp: addMonths_def Let_def bind_eq_Some_conv js_setMonth2_def js_setFullYear3_def js_setTime_def
        split: if_splits dest: TimeClip_range)
  with now t r [of 30] r [of 90] add_months [OF assms(1) months] show ?thesis
    by (auto simp: expiresAtFromOption_def browser_clock_def fixed_add_days [OF assms(1)] parse_iso_text)
qed

theorem token_expiry_witness:
  "\<exists>s. expiresAtFromOption (browser_clock (\<lambda>_. None) berlin_winter) 1709204400000 ''30d'' [] = Some s
    \<and> js_parse (\<lambda>_. None) utc_zone s = Some 1711796400000"
  using conjunct1 [OF token_expiry [of berlin_winter 60 1709204400000 "\<lambda>_. None" "[]" "\<lambda>_. None"]]
  by (simp add: berlin_winter_def msPerDay_def max_time_def)

text \<open>The text of a date field, \<open>yyyy-mm-dd\<close>.\<close>

definition date_text :: "int \<Rightarrow> int \<Rightarrow> int \<Rightarrow> string" where
  "date_text y m d = pad_zeros 4 (show_int y) @ ''-'' @ pad_zeros 2 (show_int (m + 1)) @ ''-'' @ pad_zeros 2 (show_int d)"

lemma parse_date_text:
  assumes "0 \<le> y" "y \<le> 9999" "0 \<le> m" "m \<le> 11" "1 \<le> d" "d \<le> days_in_month y m"
  shows "js_parse engine z (date_text y m d) = TimeClip (MakeDate (MakeDay y m d) 0)"
proof -
  have "read_iso_year (pad_zeros 4 (show_int y) @ r) = Some (y, r)" for r
    using read_iso_year_text [of y r] assms(1,2) by (simp add: iso_year_def)
  moreover have "d < 100" using assms days_in_month_bounds [of m y] by simp
  ultimately have "read_iso_date (date_text y m d) = Some (y, m + 1, d, [])"
    using assms read_iso_part_text [of d "CHR ''-''" 1 "[]"] by (simp add: read_iso_date_def date_text_def read_iso_part_text)
  with assms show ?thesis by (simp add: js_parse_def read_iso_def)
qed

text \<open>C22. A date chosen by hand is not the day on which the token expires: the field gives the day alone, which
  \<open>Date\<close> reads in UTC, so west of Greenwich the token expires on the evening of the day before the one that
  was chosen, and elsewhere on the day itself, as many minutes after midnight as the zone is ahead.\<close>

theorem custom_expiry_day:
  assumes "de_zone E = fixed_zone off" "\<bar>off\<bar> < 1440"
    and "0 \<le> y" "y \<le> 9999" "0 \<le> m" "m \<le> 11" "1 \<le> d" "d \<le> days_in_month y m"
  shows "\<exists>s t. expiresAtFromOption (browser_clock engine E) now ''custom'' (date_text y m d) = Some s
    \<and> js_parse server utc_zone s = Some t
    \<and> dayNumber E t = MakeDay y m d - (if off < 0 then 1 else 0)
    \<and> TimeWithinDay (LocalTime (de_zone E) t) = (off * 60000) mod msPerDay"
proof -
  let ?t = "MakeDate (MakeDay y m d) 0"
  have r: "in_range ?t" using assms(3-) by (rule day_in_range)
  have "date_text y m d \<noteq> []" by (simp add: date_text_def)
  then have s: "expiresAtFromOption (browser_clock engine E) now ''custom'' (date_text y m d) = Some (iso_text ?t)"
    using r by (simp add: expiresAtFromOption_def browser_clock_def parse_date_text assms)
  have "LocalTime (de_zone E) ?t = MakeDate (MakeDay y m d) (off * 60000)"
    by (simp add: assms(1) LocalTime_def fixed_zone_def MakeDate_def)
  moreover have "(off * 60000) div msPerDay = (if off < 0 then - 1 else 0)"
    using assms(2) div_within(1) [of "off + 1440" 1440 "- 1"] by (auto simp: msPerDay_def abs_less_iff)
  ultimately have "dayNumber E ?t = MakeDay y m d - (if off < 0 then 1 else 0)"
      "TimeWithinDay (LocalTime (de_zone E) ?t) = (off * 60000) mod msPerDay"
    by (simp_all add: dayNumber_def Day_def TimeWithinDay_def MakeDate_def msPerDay_def)
  with r s show ?thesis by (auto simp: parse_iso_text)
qed

theorem custom_expiry_day_witness:
  "\<exists>s t. expiresAtFromOption (browser_clock (\<lambda>_. None) (berlin_winter\<lparr>de_zone := fixed_zone (- 300)\<rparr>)) 0 ''custom'' (date_text 2024 0 1) = Some s
    \<and> js_parse (\<lambda>_. None) utc_zone s = Some t
    \<and> dayNumber (berlin_winter\<lparr>de_zone := fixed_zone (- 300)\<rparr>) t = MakeDay 2023 11 31
    \<and> TimeWithinDay (LocalTime (fixed_zone (- 300)) t) = 19 * 3600000"
proof -
  have "days_in_month 2024 0 = 31" "MakeDay 2024 0 1 - 1 = MakeDay 2023 11 31" by code_simp+
  then show ?thesis
    using custom_expiry_day [of "berlin_winter\<lparr>de_zone := fixed_zone (- 300)\<rparr>" "- 300" 2024 0 1 "\<lambda>_. None" 0 "\<lambda>_. None"]
    by (simp add: msPerDay_def)
qed

end
