(* ===== verification/Spec2Isabelle.thy ===== *)
theory Spec2Isabelle
  imports AuthFlowFacts QueryProgress AppDates
begin

text \<open>
  The web client of gforce, a self-hosted git service: a single-page application in TypeScript
  (\<open>ui/src\<close>) on the JavaScript libraries the repository keeps bundled (\<open>ui/.vite/deps\<close>). The
  development models the code that decides what the client does: what is stored, what is sent, when
  it is sent, what is shown and where links lead.

  How the program is put together. \<open>main.tsx\<close> makes one query client and renders \<open>App.tsx\<close>. \<open>App\<close>
  waits for the session store to be read from \<open>localStorage\<close>, validates the token in the background
  and renders the page that the router finds for the address. Pages read data through hooks, which
  are queries of the query library; each calls an endpoint function of \<open>api/*.ts\<close>. Forms and
  settings change data through mutations, or through handlers that call an endpoint directly. All
  endpoints go through one axios instance, whose interceptors read the session store and empty it
  when the server answers 401. When the session ends, \<open>App\<close> clears the query client.

  The theories follow that order; every definition is named after the code it translates, and the
  text above a group names the file.

  Language level.
    \<open>JsPrelude\<close>: strings, arrays and objects (association lists in insertion order), the lemma
      collections and what the components share about them.
    \<open>JsRegex\<close>: regular expressions as data, with a matcher that is proved to decide the language.
    \<open>JsJson\<close>: \<open>JSON.stringify\<close> and \<open>JSON.parse\<close>, with the round trip.

  Class names.
    \<open>TwValidators\<close>, \<open>TwConfig\<close>, \<open>TwClassMap\<close>, \<open>TwMerge\<close> (\<open>tailwind-merge.js\<close>): the validators, the
      default configuration entry by entry, the trie over class names, the merge with its cache.
      The merge is shown to be the declarative one (\<open>mergeClassList_declarative\<close>).
    \<open>LibUtils\<close> (\<open>clsx.js\<close>, \<open>lib/utils.ts\<close>): \<open>cn\<close> and the text helpers.

  Session and requests.
    \<open>Zustand\<close> (\<open>zustand.js\<close>, \<open>zustand_middleware.js\<close>): the store and its persistence over a
      storage that can be full.
    \<open>AuthStore\<close> (\<open>store/auth.ts\<close>, \<open>hooks/useAuth.ts\<close>): the session store, refined to a pair of
      sessions, the one in memory and the one on disk.
    \<open>Axios\<close> (\<open>axios.js\<close>): a request from its configuration to the message that is sent, and back.
    \<open>ApiClient\<close> (\<open>api/*.ts\<close>): the instance with its interceptors and every endpoint.
    \<open>AuthFlow\<close> (\<open>hooks/useAuthRehydration.ts\<close>, \<open>LoginForm.tsx\<close>, \<open>RegisterForm.tsx\<close>, sign out in
      \<open>Navbar.tsx\<close>, the effect of \<open>App.tsx\<close>): the handlers, cut at every \<open>await\<close>, as a step relation
      over the pending replies. \<open>AuthFlowFacts\<close> has the invariants of its reachable states.

  Routes.
    \<open>Router\<close> (\<open>react-router-dom.js\<close>): ranking, compiling and matching of route patterns, and the
      resolution of links.
    \<open>AppRoutes\<close> (\<open>App.tsx\<close>): the route table, refined to the function \<open>app_page\<close> from segments to
      pages.

  Data.
    \<open>QueryData\<close>, \<open>QueryCore\<close> (\<open>@tanstack_react-query.js\<close>): query keys and structural sharing;
      queries, retriers, garbage collection, the cache, the client and the observers as a machine
      whose steps are the turns of the event loop.
    \<open>QueryFacts\<close>, \<open>QueryProgress\<close>: the invariant of that machine, what it implies for components,
      the bounds on requests, and that requests come to rest.
    \<open>AppQueries\<close> (\<open>main.tsx\<close>, \<open>hooks/useRepo.ts\<close>, \<open>hooks/useFileTree.ts\<close>, the queries written out in
      pages): which key, options and endpoint each query has.
    \<open>Mutations\<close>, \<open>MutationFacts\<close>: the mutations of the library with their observers, as such a
      machine, and its invariants; the locale \<open>options_contract\<close> says what the options of the hooks
      determine, with interpretations for retries and for scopes.

  Components and pages.
    \<open>Views\<close> (\<open>types/api.ts\<close>, \<open>components/ui\<close>): the API's types, the type of views, and the small
      components.
    \<open>RepoViews\<close>, \<open>RepoFacts\<close> (\<open>components/repo\<close>, \<open>Sidebar.tsx\<close>, \<open>lib/highlight.ts\<close>): the file tree,
      the viewer, commits, branches, breadcrumbs and the clone button.
    \<open>Pages\<close>, \<open>PageFacts\<close> (pages that show things, the forms, the navigation bar, the shell): each
      page as a function of what it reads of its queries; where its links lead.
    \<open>PageClient\<close>: a page with mutations, composed of the machine of \<open>Mutations\<close> and the page's own
      state and rendering, with the two contracts \<open>plain_page\<close> and \<open>lawful_page\<close> as locales.
    \<open>SettingsPages\<close>, \<open>AccountPages\<close>, \<open>AccountFacts\<close> (\<open>NewRepoPage.tsx\<close>, \<open>RepoSettingsPage.tsx\<close>,
      \<open>SSHKeysPage.tsx\<close>, \<open>TokensPage.tsx\<close>, \<open>SettingsPage.tsx\<close>): the pages that change things, and the
      interpretations of the contracts on them.

  Dates.
    \<open>JsDate\<close>: the \<open>Date\<close> of the language standard: the calendar (shown to be the Gregorian one), time zones
      as arguments, with offsets in milliseconds, getters and setters, \<open>toISOString\<close> and the parsing of its format.
    \<open>DateFns\<close>, \<open>DateFormat\<close> (\<open>date-fns.js\<close>): the calculations with dates; the locale en-US, \<open>format\<close> with its
      tokens, distances in words, the ISO and RFC formats, \<open>parseISO\<close> and \<open>parseJSON\<close>.
    \<open>DateFacts\<close>, \<open>DateTexts\<close>: what a time zone promises of its days, as the locale \<open>calendar_zone\<close> with its
      interpretations on zones of fixed offset and on a zone that puts its clocks forward; calendar days,
      lists of days, months, the texts of days, the error of a distance in words, also across a change of
      the clocks, and what \<open>parseISO\<close> reads of what \<open>formatISO\<close> prints.
    \<open>AppDates\<close> (\<open>CommitList.tsx\<close>, \<open>CommitRow.tsx\<close>, \<open>TokensPage.tsx\<close>): the record of dates that views take and
      the clock of the page of tokens, as the date library gives them: commits stand under the day of the
      browser's time zone, and when tokens expire.

  State and concurrency. A component's state is a record; JavaScript runs one turn of the event
  loop at a time, so a turn is one function and an interleaving is a list of events. The events are
  everything from outside: clicks, replies (arbitrary, or those of an honest server where a theorem
  says so), timers, focus, network, page loads, renders. Reachability is by these lists or by an
  inductive relation, and the invariants are proved by induction over them.

  Errors are values: an outcome, an \<open>option\<close> or a sum next to the new state, so every \<open>throw\<close> and
  every early return of the code is a branch of its definition.

  Bounds. Every function is total, most by structural recursion, the rest with a proved
  termination measure. Three loops of the date library, which step through days until a date is reached, are partial
  functions whose value is \<open>None\<close> when they do not end: whether they do depends on the time zone.
  \<open>each_day\<close> shows that \<open>eachDayOfInterval\<close> ends in every zone that keeps the laws of \<open>calendar_zone\<close>. Two
  functions carry fuel: the parser of JSON is called with \<open>2 * length s + 1\<close>, which
  \<open>json_value_fuel\<close> shows to be enough, and building a class map is called with a fuel for nested
  theme getters, which section \<open>Enough fuel\<close> of \<open>TwClassMap\<close> shows to be enough for the default
  configuration. The limit of 500 on the depth in \<open>replaceEqualDeep\<close> is the code's own.

  What is left to the environment, as an argument of the definitions: what the network reports, the
  system clock, the collation of \<open>localeCompare\<close>, the parser of \<open>URL\<close>, the time zone and
  what an engine makes of date texts outside the standard's format, the highlighter, and the cookie
  axios looks for. The views take the texts of dates as an argument; \<open>AppDates\<close> supplies it.

  Not modelled, and why.
    Libraries that draw or transform text and do not decide what the client does: react and
      react-dom, lucide-react, shiki with its grammars, react-markdown.
    Parts of the modelled libraries that the application does not reach: in axios forms, streams,
      cancellation, progress events, the fetch adapter and the validators of options; in
      react-router data routers, loaders, actions and deferred data, and histories and contexts,
      where the model has the current path; in zustand the devtools, redux and subscribeWithSelector
      middlewares, asynchronous storages and the older persist; in the query library infinite
      queries, hydration, persisters, mutation keys, placeholder data, \<open>select\<close>, suspense and
      intervals; in tailwind-merge the experimental parser hook; in date-fns the parser of free formats
      (\<open>parse\<close>, \<open>isMatch\<close> and the match patterns of the locale), \<open>setDefaultOptions\<close>, what \<open>Intl\<close> prints, and the
      functions that compute with fractions (\<open>milliseconds\<close>, \<open>yearsToDays\<close>, \<open>roundToNearestHours\<close>,
      \<open>roundToNearestMinutes\<close>).
    The React bindings: a render is an event that computes the view and hands options to observers.
    \<open>LoginPage.tsx\<close> and \<open>RegisterPage.tsx\<close>, which only centre the forms, and style sheets.
    The server, the operator and the deployment, which are in Go, SQL and YAML.

  Text is over the code units 0 to 255, where a theory's text says what happens to larger ones.
\<close>

end
